(* ===== verification/LT_Prelude.thy ===== *)
theory LT_Prelude
  imports Main
begin

text \<open>
  The prelude of the development: the result type of fallible Python code
  (\<open>'e + 'a\<close>, \<open>Inl\<close> for a raised exception), its sequencing, the list facts the
  components share, and the collections the component proofs draw on.

  \<^item> \<open>ebind\<close> is statement sequencing: an exception skips the rest.
  \<^item> \<open>raise_if c e\<close> is \<^verbatim>\<open>if c: raise e\<close>.
  \<^item> \<open>run_checks\<close> is a block of such statements with no data flow between them.
\<close>

named_theorems result_simps "inversion of sequenced results"
named_theorems check_simps "when a validation statement passes"

section \<open>Results and their sequencing\<close>

definition ebind :: "'e + 'a \<Rightarrow> ('a \<Rightarrow> 'e + 'b) \<Rightarrow> 'e + 'b" where
  "ebind r f = (case r of Inl e \<Rightarrow> Inl e | Inr a \<Rightarrow> f a)"

definition raise_if :: "bool \<Rightarrow> 'e \<Rightarrow> 'e + unit" where
  "raise_if c e = (if c then Inl e else Inr ())"

fun run_checks :: "('e + unit) list \<Rightarrow> 'e + unit" where
  "run_checks [] = Inr ()"
| "run_checks (c # cs) = ebind c (\<lambda>_. run_checks cs)"

text \<open>\<^verbatim>\<open>tuple(f(x) for x in xs)\<close> where \<open>f\<close> may raise.\<close>

fun map_result :: "('a \<Rightarrow> 'e + 'b) \<Rightarrow> 'a list \<Rightarrow> 'e + 'b list" where
  "map_result f [] = Inr []"
| "map_result f (x # xs) = ebind (f x) (\<lambda>y. ebind (map_result f xs) (\<lambda>ys. Inr (y # ys)))"

text \<open>\<^verbatim>\<open>for x in xs: s = f(s, x)\<close> where \<open>f\<close> may raise.\<close>

fun fold_result :: "('s \<Rightarrow> 'a \<Rightarrow> 'e + 's) \<Rightarrow> 's \<Rightarrow> 'a list \<Rightarrow> 'e + 's" where
  "fold_result f s [] = Inr s"
| "fold_result f s (x # xs) = ebind (f s x) (\<lambda>s'. fold_result f s' xs)"

lemma ebind_Inl [simp]: "ebind (Inl e) f = Inl e"
  by (simp add: ebind_def)

lemma ebind_Inr [simp]: "ebind (Inr a) f = f a"
  by (simp add: ebind_def)

lemma ebind_eq_Inr [result_simps]:
  "ebind r f = Inr y \<longleftrightarrow> (\<exists>a. r = Inr a \<and> f a = Inr y)"
  by (cases r) auto

lemma ebind_eq_Inl [result_simps]:
  "ebind r f = Inl e \<longleftrightarrow> r = Inl e \<or> (\<exists>a. r = Inr a \<and> f a = Inl e)"
  by (cases r) auto

lemma ebind_assoc: "ebind (ebind r f) g = ebind r (\<lambda>x. ebind (f x) g)"
  by (cases r) auto

lemma raise_if_Inr [check_simps]: "raise_if c e = Inr u \<longleftrightarrow> \<not> c"
  by (simp add: raise_if_def)

lemma raise_if_Inl [check_simps]: "raise_if c e = Inl e' \<longleftrightarrow> c \<and> e = e'"
  by (auto simp: raise_if_def)

lemma raise_if_simps [simp]: "raise_if False e = Inr ()" "raise_if True e = Inl e"
  by (simp_all add: raise_if_def)

lemma run_checks_Inr [check_simps]:
  "run_checks cs = Inr u \<longleftrightarrow> list_all (\<lambda>c. c = Inr ()) cs"
  by (induction cs) (auto simp: result_simps)

lemma fold_result_append:
  "fold_result f s (xs @ ys) = ebind (fold_result f s xs) (\<lambda>s'. fold_result f s' ys)"
  by (induction xs arbitrary: s) (auto simp: ebind_assoc)

text \<open>An invariant of the loop body is an invariant of the loop.\<close>

lemma fold_result_invariant:
  assumes "fold_result f s xs = Inr s'" and "I s"
    and "\<And>s x t. I s \<Longrightarrow> x \<in> set xs \<Longrightarrow> f s x = Inr t \<Longrightarrow> I t"
  shows "I s'"
  using assms
proof (induction xs arbitrary: s)
  case Nil
  then show ?case by simp
next
  case (Cons x xs)
  from Cons.prems(1) obtain t where t: "f s x = Inr t" "fold_result f t xs = Inr s'"
    by (auto simp: result_simps)
  from Cons.prems(3) [OF Cons.prems(2) _ t(1)] have "I t" by simp
  with t(2) Cons.prems(3) show ?case by (auto intro: Cons.IH)
qed

section \<open>Lists\<close>

text \<open>\<^verbatim>\<open>next((x for x in xs if p(x)), None)\<close> is \<open>find\<close>.\<close>

lemma find_append:
  "find p (xs @ ys) = (case find p xs of None \<Rightarrow> find p ys | Some x \<Rightarrow> Some x)"
  by (induction xs) auto

lemma find_SomeD: "find p xs = Some x \<Longrightarrow> x \<in> set xs \<and> p x"
  by (induction xs) (auto split: if_splits)

lemma find_None_iff_list_all: "find p xs = None \<longleftrightarrow> list_all (\<lambda>x. \<not> p x) xs"
  by (induction xs) auto

lemma find_distinct_key:
  assumes "distinct (map f xs)" and "x \<in> set xs"
  shows "find (\<lambda>y. f y = f x) xs = Some x"
  using assms by (induction xs) (auto simp: rev_image_eqI)

text \<open>\<^verbatim>\<open>len(xs) != len(set(xs))\<close> is how the code tests for duplicates.\<close>

lemma length_eq_card_iff: "length xs = card (set xs) \<longleftrightarrow> distinct xs"
  by (metis card_distinct distinct_card)

text \<open>Replacing the first element with a given key, as an index loop does.\<close>

fun replace_first :: "('a \<Rightarrow> bool) \<Rightarrow> 'a \<Rightarrow> 'a list \<Rightarrow> 'a list option" where
  "replace_first p y [] = None"
| "replace_first p y (x # xs) =
     (if p x then Some (y # xs) else map_option (\<lambda>zs. x # zs) (replace_first p y xs))"

lemma replace_first_None: "replace_first p y xs = None \<longleftrightarrow> list_all (\<lambda>x. \<not> p x) xs"
  by (induction xs) auto

lemma replace_first_split:
  "replace_first p y xs = Some zs \<longleftrightarrow>
   (\<exists>as x bs. xs = as @ x # bs \<and> list_all (\<lambda>a. \<not> p a) as \<and> p x \<and> zs = as @ y # bs)"
proof (induction xs arbitrary: zs)
  case Nil
  then show ?case by simp
next
  case (Cons x xs)
  show ?case
  proof (cases "p x")
    case True
    have "(\<exists>as v bs. x # xs = as @ v # bs \<and> list_all (\<lambda>a. \<not> p a) as \<and> p v \<and> zs = as @ y # bs)
      \<longleftrightarrow> zs = y # xs" (is "?L \<longleftrightarrow> ?R")
    proof
      assume ?L
      then obtain as v bs where "x # xs = as @ v # bs" "list_all (\<lambda>a. \<not> p a) as" "p v"
        "zs = as @ y # bs" by blast
      with True show ?R by (cases as) auto
    next
      assume ?R
      with True show ?L by (intro exI [of _ "[]"]) simp
    qed
    with True show ?thesis by auto
  next
    case False
    have "(\<exists>as v bs. x # xs = as @ v # bs \<and> list_all (\<lambda>a. \<not> p a) as \<and> p v \<and> zs = as @ y # bs)
      \<longleftrightarrow> (\<exists>ws. zs = x # ws \<and> replace_first p y xs = Some ws)" (is "?L \<longleftrightarrow> ?R")
    proof
      assume ?L
      then obtain as v bs where s: "x # xs = as @ v # bs" "list_all (\<lambda>a. \<not> p a) as" "p v"
        "zs = as @ y # bs" by blast
      with False obtain as' where "as = x # as'" by (cases as) auto
      with s Cons.IH [of "as' @ y # bs"] show ?R by auto
    next
      assume ?R
      then obtain ws where w: "zs = x # ws" "replace_first p y xs = Some ws" by blast
      then obtain as v bs where "xs = as @ v # bs" "list_all (\<lambda>a. \<not> p a) as" "p v"
        "ws = as @ y # bs" using Cons.IH by blast
      with w False show ?L by (intro exI [of _ "x # as"]) simp
    qed
    with False show ?thesis by auto
  qed
qed

text \<open>Folding a commutative sum over a list whose one element changed.\<close>

lemma sum_list_replace:
  fixes f :: "'a \<Rightarrow> 'b::comm_monoid_add"
  assumes "xs = as @ x # bs" and "zs = as @ y # bs"
  shows "sum_list (map f zs) + f x = sum_list (map f xs) + f y"
  using assms by (simp add: ac_simps)

end
