(* ===== verification/Py_Text.thy ===== *)
theory Py_Text
  imports LT_Prelude "HOL-Library.List_Lexorder" "HOL-Library.Char_ord" "HOL-Library.Word"
begin

unbundle bit_operations_syntax

text \<open>
  What the sources use of Python's \<^verbatim>\<open>str\<close>. A \<^verbatim>\<open>str\<close> is a
  \<open>string\<close>: a list of characters, each a code point below 256 (\<open>of_char\<close>), so
  \<open>length\<close> counts code points as \<^verbatim>\<open>len\<close> does. On these code points the
  definitions below are Python's: \<^verbatim>\<open>str.isprintable\<close>, \<^verbatim>\<open>str.lower\<close>,
  \<^verbatim>\<open>str(int)\<close>, \<^verbatim>\<open>str.encode("utf-8")\<close>, \<^verbatim>\<open>sep.join\<close> and
  \<^verbatim>\<open>repr\<close> of a list or tuple of strings. String order is by code point
  (\<open>Char_ord\<close>, \<open>List_Lexorder\<close>).
\<close>

section \<open>Character classes\<close>

abbreviation code_point :: "char \<Rightarrow> nat" where
  "code_point c \<equiv> of_char c"

definition printable_char :: "char \<Rightarrow> bool" where
  "printable_char c =
     (let n = code_point c in 32 \<le> n \<and> n \<le> 126 \<or> 161 \<le> n \<and> n \<le> 255 \<and> n \<noteq> 173)"

definition str_isprintable :: "string \<Rightarrow> bool" where
  "str_isprintable s = list_all printable_char s"

definition lower_char :: "char \<Rightarrow> char" where
  "lower_char c =
     (let n = code_point c in
      if 65 \<le> n \<and> n \<le> 90 \<or> 192 \<le> n \<and> n \<le> 222 \<and> n \<noteq> 215 then char_of (n + 32) else c)"

definition str_lower :: "string \<Rightarrow> string" where
  "str_lower s = map lower_char s"

definition is_digit :: "char \<Rightarrow> bool" where
  "is_digit c = (48 \<le> code_point c \<and> code_point c \<le> 57)"

text \<open>\<^verbatim>\<open>string.hexdigits\<close>.\<close>

definition hexdigits :: string where
  "hexdigits = ''0123456789abcdefABCDEF''"

lemma str_isprintable_append [simp]:
  "str_isprintable (s @ t) \<longleftrightarrow> str_isprintable s \<and> str_isprintable t"
  by (simp add: str_isprintable_def)

lemma str_isprintable_Nil [simp]: "str_isprintable []"
  by (simp add: str_isprintable_def)

section \<open>Numbers as text\<close>

definition digit_char :: "nat \<Rightarrow> char" where
  "digit_char d = char_of (48 + d)"

fun show_nat :: "nat \<Rightarrow> string" where
  "show_nat n = (if n < 10 then [digit_char n] else show_nat (n div 10) @ [digit_char (n mod 10)])"

declare show_nat.simps [simp del]

definition show_int :: "int \<Rightarrow> string" where
  "show_int i = (if i < 0 then CHR ''-'' # show_nat (nat (- i)) else show_nat (nat i))"

text \<open>Zero-padded decimal and lowercase hexadecimal, as format strings \<^verbatim>\<open>{:0nd}\<close>, \<^verbatim>\<open>{:0nx}\<close>.\<close>

fun show_padded :: "nat \<Rightarrow> nat \<Rightarrow> string" where
  "show_padded 0 n = []"
| "show_padded (Suc w) n = show_padded w (n div 10) @ [digit_char (n mod 10)]"

definition hex_char :: "nat \<Rightarrow> char" where
  "hex_char d = ''0123456789abcdef'' ! (d mod 16)"

fun show_hex :: "nat \<Rightarrow> nat \<Rightarrow> string" where
  "show_hex 0 n = []"
| "show_hex (Suc w) n = show_hex w (n div 16) @ [hex_char n]"

text \<open>The value of a decimal digit string, \<^verbatim>\<open>int(s)\<close>.\<close>

definition digit_value :: "char \<Rightarrow> nat" where
  "digit_value c = code_point c - 48"

definition read_nat :: "string \<Rightarrow> nat" where
  "read_nat s = foldl (\<lambda>n c. 10 * n + digit_value c) 0 s"

lemma code_point_digit_char [simp]: "d < 10 \<Longrightarrow> code_point (digit_char d) = 48 + d"
  by (simp add: digit_char_def)

lemma is_digit_digit_char [simp]: "d < 10 \<Longrightarrow> is_digit (digit_char d)"
  by (simp add: is_digit_def)

lemma digit_value_digit_char [simp]: "d < 10 \<Longrightarrow> digit_value (digit_char d) = d"
  by (simp add: digit_value_def)

lemma show_nat_digits: "list_all is_digit (show_nat n)"
  by (induction n rule: show_nat.induct) (subst show_nat.simps, simp)

lemma show_nat_not_Nil [simp]: "show_nat n \<noteq> []"
  by (subst show_nat.simps) simp

lemma read_nat_snoc: "read_nat (s @ [c]) = 10 * read_nat s + digit_value c"
  by (simp add: read_nat_def)

lemma read_show_nat [simp]: "read_nat (show_nat n) = n"
proof (induction n rule: show_nat.induct)
  case (1 n)
  show ?case
  proof (cases "n < 10")
    case True
    then show ?thesis by (subst show_nat.simps) (simp add: read_nat_def)
  next
    case False
    with 1 show ?thesis by (subst show_nat.simps) (simp add: read_nat_snoc)
  qed
qed

lemma length_show_padded [simp]: "length (show_padded w n) = w"
  by (induction w arbitrary: n) auto

lemma show_padded_digits: "list_all is_digit (show_padded w n)"
  by (induction w arbitrary: n) auto

lemma read_show_padded: "n < 10 ^ w \<Longrightarrow> read_nat (show_padded w n) = n"
proof (induction w arbitrary: n)
  case 0
  then show ?case by (simp add: read_nat_def)
next
  case (Suc w)
  then have "n div 10 < 10 ^ w" by (simp add: less_mult_imp_div_less)
  with Suc.IH show ?case by (simp add: read_nat_snoc)
qed

lemma length_show_hex [simp]: "length (show_hex w n) = w"
  by (induction w arbitrary: n) auto

section \<open>Canonical lowercase hexadecimal\<close>

lemma hex_char_cases: "hex_char n \<in> set ''0123456789abcdef''"
proof -
  have "n mod 16 < length ''0123456789abcdef''" by simp
  then show ?thesis unfolding hex_char_def by (rule nth_mem)
qed

lemma show_hex_chars: "set (show_hex w n) \<subseteq> set ''0123456789abcdef''"
  using hex_char_cases by (induction w arbitrary: n) auto

lemma lower_hex_char: "c \<in> set ''0123456789abcdef'' \<Longrightarrow> lower_char c = c \<and> c \<in> set hexdigits"
  by (auto simp: lower_char_def hexdigits_def Let_def)

section \<open>Encoding, joining, quoting\<close>

type_synonym byte = "8 word"

definition utf8_char :: "char \<Rightarrow> byte list" where
  "utf8_char c =
     (let n = code_point c in
      if n < 128 then [of_nat n] else [of_nat (192 + n div 64), of_nat (128 + n mod 64)])"

definition utf8_encode :: "string \<Rightarrow> byte list" where
  "utf8_encode s = concat (map utf8_char s)"

fun str_join :: "string \<Rightarrow> string list \<Rightarrow> string" where
  "str_join sep [] = []"
| "str_join sep [s] = s"
| "str_join sep (s # t # ts) = s @ sep @ str_join sep (t # ts)"

definition repr_char :: "char \<Rightarrow> char \<Rightarrow> string" where
  "repr_char quote_mark c =
     (let n = code_point c in
      if c = quote_mark \<or> n = 92 then [CHR 0x5C, c]
      else if n = 9 then [CHR 0x5C, CHR ''t'']
      else if n = 10 then [CHR 0x5C, CHR ''n'']
      else if n = 13 then [CHR 0x5C, CHR ''r'']
      else if printable_char c then [c]
      else [CHR 0x5C, CHR ''x''] @ show_hex 2 n)"

definition repr_str :: "string \<Rightarrow> string" where
  "repr_str s =
     (let q = (if CHR 0x27 \<in> set s \<and> CHR 0x22 \<notin> set s then CHR 0x22 else CHR 0x27)
      in [q] @ concat (map (repr_char q) s) @ [q])"

definition repr_str_list :: "string list \<Rightarrow> string" where
  "repr_str_list xs = ''['' @ str_join '', '' (map repr_str xs) @ '']''"

definition repr_str_tuple :: "string list \<Rightarrow> string" where
  "repr_str_tuple xs =
     (case xs of [x] \<Rightarrow> ''('' @ repr_str x @ '',)''
      | _ \<Rightarrow> ''('' @ str_join '', '' (map repr_str xs) @ '')'')"

lemma of_nat_byte_inject:
  "m < 256 \<Longrightarrow> n < 256 \<Longrightarrow> (of_nat m :: byte) = of_nat n \<longleftrightarrow> m = n"
  by (simp add: word_of_nat_eq_iff take_bit_nat_eq_self)

lemma utf8_char_inject: "utf8_char a = utf8_char b \<longleftrightarrow> a = b"
proof
  assume eq: "utf8_char a = utf8_char b"
  have small: "code_point c < 256" for c by simp
  have div: "192 + code_point c div 64 < 256" "128 + code_point c mod 64 < 256" for c
    using small [of c] less_mult_imp_div_less [of "code_point c" 4 64] by linarith+
  have nat_eq: "m div 64 = n div 64 \<Longrightarrow> m mod 64 = n mod 64 \<Longrightarrow> m = n" for m n :: nat
    by (metis div_mult_mod_eq)
  have "code_point a = code_point b"
    using eq small [of a] small [of b] div [of a] div [of b]
      nat_eq [of "code_point a" "code_point b"]
    by (auto simp: utf8_char_def Let_def of_nat_byte_inject split: if_splits)
  then show "a = b" by simp
qed simp

section \<open>Words and separators\<close>

text \<open>
  What the verdict layer uses of \<^verbatim>\<open>str\<close> beyond that:
  \<^verbatim>\<open>isspace\<close>, \<^verbatim>\<open>strip()\<close>, \<^verbatim>\<open>split()\<close>,
  \<^verbatim>\<open>rstrip(chars)\<close>, \<^verbatim>\<open>split(sep)\<close> with a separator of one character.
\<close>

definition is_space :: "char \<Rightarrow> bool" where
  "is_space c =
     (let n = code_point c in 9 \<le> n \<and> n \<le> 13 \<or> 28 \<le> n \<and> n \<le> 32 \<or> n = 133 \<or> n = 160)"

definition str_blank :: "string \<Rightarrow> bool" where
  "str_blank s = list_all is_space s"

definition str_strip :: "string \<Rightarrow> string" where
  "str_strip s = rev (dropWhile is_space (rev (dropWhile is_space s)))"

definition str_rstrip :: "char set \<Rightarrow> string \<Rightarrow> string" where
  "str_rstrip cs s = rev (dropWhile (\<lambda>c. c \<in> cs) (rev s))"

text \<open>\<^verbatim>\<open>s.split()\<close>: the maximal runs of characters that are not whitespace.\<close>

function str_words :: "string \<Rightarrow> string list" where
  "str_words [] = []"
| "str_words (c # s) =
     (if is_space c then str_words s
      else (c # takeWhile (\<lambda>d. \<not> is_space d) s) # str_words (dropWhile (\<lambda>d. \<not> is_space d) s))"
  by pat_completeness auto

termination
  by (relation "measure length") (auto simp: less_Suc_eq_le length_dropWhile_le)

text \<open>\<^verbatim>\<open>s.split(sep)\<close>: always at least one part.\<close>

fun str_split_on :: "char \<Rightarrow> string \<Rightarrow> string list" where
  "str_split_on d [] = [[]]"
| "str_split_on d (c # s) =
     (if c = d then [] # str_split_on d s
      else case str_split_on d s of [] \<Rightarrow> [[c]] | w # ws \<Rightarrow> (c # w) # ws)"

lemma str_split_on_not_Nil [simp]: "str_split_on d s \<noteq> []"
  by (cases s) (auto split: list.split)

lemma str_split_on_none: "d \<notin> set s \<Longrightarrow> str_split_on d s = [s]"
  by (induction s) auto

lemma last_str_split_on: "d \<notin> set (last (str_split_on d s))"
  by (induction s) (auto split: list.split if_splits)

lemma str_words_Nil: "str_words s = [] \<longleftrightarrow> str_blank s"
  by (induction s rule: str_words.induct) (auto simp: str_blank_def)

lemma dropWhile_blank: "dropWhile is_space s = [] \<longleftrightarrow> str_blank s"
  by (auto simp: dropWhile_eq_Nil_conv str_blank_def list_all_iff)

lemma str_blank_strip: "str_blank (str_strip s) \<longleftrightarrow> str_blank s"
proof
  assume b: "str_blank (str_strip s)"
  have "dropWhile is_space s = []"
  proof (rule ccontr)
    assume n: "dropWhile is_space s \<noteq> []"
    let ?t = "dropWhile is_space s"
    from n have h: "\<not> is_space (hd ?t)" by (rule hd_dropWhile)
    have "hd ?t \<in> set ?t" using n by (rule hd_in_set)
    then have "dropWhile is_space (rev ?t) \<noteq> []" using h by (auto simp: dropWhile_eq_Nil_conv)
    then have "last (rev ?t) \<in> set (dropWhile is_space (rev ?t))"
      by (metis last_in_set dropWhile_append takeWhile_dropWhile_id last_appendR)
    then have "hd ?t \<in> set (str_strip s)" using n by (simp add: str_strip_def last_rev)
    with b h show False by (auto simp: str_blank_def list_all_iff)
  qed
  then show "str_blank s" by (simp only: dropWhile_blank)
next
  assume "str_blank s"
  then have "dropWhile is_space s = []" by (simp only: dropWhile_blank)
  then show "str_blank (str_strip s)"
    by (simp only: str_strip_def str_blank_def rev.simps dropWhile.simps list.pred_inject)
qed

end
