(* ===== verification/Py_Sha256.thy ===== *)
theory Py_Sha256
  imports Py_Text
begin

text \<open>
  \<^verbatim>\<open>hashlib.sha256(raw).hexdigest()\<close>, as FIPS 180-4 defines it, on byte lists:
  padding, message schedule, compression, and the digest as 64 lowercase hexadecimal
  characters. The components use its format only: every digest has 64 characters, all of
  them lowercase hexadecimal digits, so it passes the code's own SHA-256 check.
\<close>

section \<open>Word functions\<close>

definition sha_ch :: "32 word \<Rightarrow> 32 word \<Rightarrow> 32 word \<Rightarrow> 32 word" where
  "sha_ch x y z = (x AND y) XOR (NOT x AND z)"

definition sha_maj :: "32 word \<Rightarrow> 32 word \<Rightarrow> 32 word \<Rightarrow> 32 word" where
  "sha_maj x y z = (x AND y) XOR (x AND z) XOR (y AND z)"

definition rotr :: "nat \<Rightarrow> 32 word \<Rightarrow> 32 word" where
  "rotr n x = drop_bit n x OR push_bit (32 - n) x"

definition big_sigma0 :: "32 word \<Rightarrow> 32 word" where
  "big_sigma0 x = rotr 2 x XOR rotr 13 x XOR rotr 22 x"

definition big_sigma1 :: "32 word \<Rightarrow> 32 word" where
  "big_sigma1 x = rotr 6 x XOR rotr 11 x XOR rotr 25 x"

definition small_sigma0 :: "32 word \<Rightarrow> 32 word" where
  "small_sigma0 x = rotr 7 x XOR rotr 18 x XOR drop_bit 3 x"

definition small_sigma1 :: "32 word \<Rightarrow> 32 word" where
  "small_sigma1 x = rotr 17 x XOR rotr 19 x XOR drop_bit 10 x"

text \<open>
  The constants are, as the standard defines them, the first 32 bits of the fractional parts
  of the cube roots of the first 64 primes and of the square roots of the first eight:
  \<open>root_bits k n b r\<close> settles the bits below \<open>b\<close> of the integer \<open>k\<close>-th root of \<open>n\<close>.
\<close>

fun root_bits :: "nat \<Rightarrow> int \<Rightarrow> nat \<Rightarrow> int \<Rightarrow> int" where
  "root_bits k n 0 r = r"
| "root_bits k n (Suc b) r = root_bits k n b (if (r + 2 ^ b) ^ k \<le> n then r + 2 ^ b else r)"

definition root_fraction :: "nat \<Rightarrow> nat \<Rightarrow> 32 word" where
  "root_fraction k p = of_int (root_bits k (int p * 2 ^ (32 * k)) 40 0)"

definition primes_below :: "nat \<Rightarrow> nat list" where
  "primes_below n = filter (\<lambda>p. list_all (\<lambda>d. p mod d \<noteq> 0) [2..<p]) [2..<n]"

definition sha_k :: "32 word list" where
  "sha_k = map (root_fraction 3) (primes_below 312)"

section \<open>Padding and blocks\<close>

definition length_bytes :: "nat \<Rightarrow> byte list" where
  "length_bytes n = map (\<lambda>i. ucast (drop_bit (8 * i) (of_nat n :: 64 word))) [7, 6, 5, 4, 3, 2, 1, 0]"

definition sha_pad :: "byte list \<Rightarrow> byte list" where
  "sha_pad m =
     m @ [0x80] @ replicate ((119 - length m mod 64) mod 64) 0 @ length_bytes (8 * length m)"

fun chunks :: "nat \<Rightarrow> 'a list \<Rightarrow> 'a list list" where
  "chunks n xs = (if n = 0 \<or> xs = [] then [] else take n xs # chunks n (drop n xs))"

declare chunks.simps [simp del]

definition word_of_bytes :: "byte list \<Rightarrow> 32 word" where
  "word_of_bytes bs = foldl (\<lambda>w b. push_bit 8 w OR ucast b) 0 bs"

section \<open>Schedule and compression\<close>

fun extend_schedule :: "nat \<Rightarrow> 32 word list \<Rightarrow> 32 word list" where
  "extend_schedule 0 ws = ws"
| "extend_schedule (Suc n) ws =
     (let t = length ws in
      extend_schedule n
        (ws @ [small_sigma1 (ws ! (t - 2)) + ws ! (t - 7) + small_sigma0 (ws ! (t - 15)) + ws ! (t - 16)]))"

type_synonym sha_state =
  "32 word \<times> 32 word \<times> 32 word \<times> 32 word \<times> 32 word \<times> 32 word \<times> 32 word \<times> 32 word"

fun sha_round :: "sha_state \<Rightarrow> 32 word \<times> 32 word \<Rightarrow> sha_state" where
  "sha_round (a, b, c, d, e, f, g, h) (k, w) =
     (let t1 = h + big_sigma1 e + sha_ch e f g + k + w;
          t2 = big_sigma0 a + sha_maj a b c
      in (t1 + t2, a, b, c, d + t1, e, f, g))"

fun add_state :: "sha_state \<Rightarrow> sha_state \<Rightarrow> sha_state" where
  "add_state (a, b, c, d, e, f, g, h) (a', b', c', d', e', f', g', h') =
     (a + a', b + b', c + c', d + d', e + e', f + f', g + g', h + h')"

definition sha_init :: sha_state where
  "sha_init =
     (root_fraction 2 2, root_fraction 2 3, root_fraction 2 5, root_fraction 2 7,
      root_fraction 2 11, root_fraction 2 13, root_fraction 2 17, root_fraction 2 19)"

definition sha_compress :: "sha_state \<Rightarrow> byte list \<Rightarrow> sha_state" where
  "sha_compress st block =
     add_state st
       (foldl sha_round st
          (zip sha_k (extend_schedule 48 (map word_of_bytes (chunks 4 block)))))"

fun state_words :: "sha_state \<Rightarrow> 32 word list" where
  "state_words (a, b, c, d, e, f, g, h) = [a, b, c, d, e, f, g, h]"

definition hex_of_word :: "32 word \<Rightarrow> string" where
  "hex_of_word w =
     map (\<lambda>i. hex_char (unat (drop_bit (4 * i) w AND 15))) [7, 6, 5, 4, 3, 2, 1, 0]"

definition sha256_hex :: "byte list \<Rightarrow> string" where
  "sha256_hex m =
     concat (map hex_of_word
       (state_words (foldl sha_compress sha_init (chunks 64 (sha_pad m)))))"

section \<open>The shape of a digest\<close>

lemma length_state_words [simp]: "length (state_words s) = 8"
  by (cases s rule: state_words.cases) simp

lemma length_hex_of_word [simp]: "length (hex_of_word w) = 8"
  by (simp add: hex_of_word_def)

lemma hex_of_word_chars: "set (hex_of_word w) \<subseteq> set ''0123456789abcdef''"
  using hex_char_cases by (auto simp: hex_of_word_def)

lemma length_sha256_hex [simp]: "length (sha256_hex m) = 64"
  by (simp add: sha256_hex_def length_concat comp_def sum_list_triv)

lemma sha256_hex_chars: "set (sha256_hex m) \<subseteq> set ''0123456789abcdef''"
  using hex_of_word_chars by (fastforce simp: sha256_hex_def)

lemma str_lower_sha256_hex [simp]: "str_lower (sha256_hex m) = sha256_hex m"
  unfolding str_lower_def
  by (rule map_idI) (use sha256_hex_chars lower_hex_char in blast)

lemma sha256_hex_hexdigits [simp]: "list_all (\<lambda>c. c \<in> set hexdigits) (sha256_hex m)"
  unfolding list_all_iff using sha256_hex_chars lower_hex_char by blast

lemma sha256_hex_not_Nil [simp]: "sha256_hex m \<noteq> []"
  using length_sha256_hex [of m] by fastforce

text \<open>The padded message is a whole number of blocks.\<close>

lemma length_sha_pad: "length (sha_pad m) mod 64 = 0"
proof -
  let ?r = "length m mod 64"
  have len: "length (sha_pad m) = length m + (9 + (119 - ?r) mod 64)"
    by (simp add: sha_pad_def length_bytes_def)
  have "(?r + (9 + (119 - ?r) mod 64)) mod 64 = 0"
  proof (cases "?r \<le> 55")
    case True
    then have "(119 - ?r) mod 64 = (64 + (55 - ?r)) mod 64" by simp
    also have "\<dots> = 55 - ?r" by (simp only: mod_add_self1) simp
    finally show ?thesis using True by simp
  next
    case False
    have "?r < 64" by simp
    with False have "(119 - ?r) mod 64 = 119 - ?r" by simp
    with \<open>?r < 64\<close> show ?thesis by simp
  qed
  then show ?thesis unfolding len by (metis mod_add_left_eq)
qed

end
