(* ===== verification/Json_Inject.thy ===== *)
theory Json_Inject
  imports Py_Json
begin

text \<open>
  Canonical JSON is unambiguous: two values with the same canonical bytes are the same value up to
  the order in which the members of their objects were inserted. The content hashes of the sources
  are taken of these bytes, so what is said here is that different contents hash different bytes.

  A printed text is read from the left. \<open>unescape\<close> undoes one character of a quoted string; the
  end of a value is recognised by the separators that may follow it (\<open>stops\<close>).
\<close>

section \<open>The value that is printed\<close>

text \<open>Members in the order of their keys, throughout.\<close>

primrec canonical :: "json \<Rightarrow> json" where
  "canonical JNull = JNull"
| "canonical (JBool b) = JBool b"
| "canonical (JInt i) = JInt i"
| "canonical (JStr s) = JStr s"
| "canonical (JArr xs) = JArr (map canonical xs)"
| "canonical (JObj kvs) = JObj (sort_key fst (map (map_prod id canonical) kvs))"

lemma insort_key_map_prod:
  "insort_key fst (map_prod id f x) (map (map_prod id f) xs) = map (map_prod id f) (insort_key fst x xs)"
  by (induction xs) auto

lemma sort_key_map_prod: "sort_key fst (map (map_prod id f) xs) = map (map_prod id f) (sort_key fst xs)"
  by (induction xs) (simp_all add: insort_key_map_prod [unfolded id_def])

section \<open>Quoted strings\<close>

definition hex_value :: "char \<Rightarrow> nat" where
  "hex_value c = (if is_digit c then code_point c - 48 else code_point c - 87)"

definition read_hex :: "string \<Rightarrow> nat" where
  "read_hex s = foldl (\<lambda>n c. 16 * n + hex_value c) 0 s"

definition unescape :: "string \<Rightarrow> char \<times> string" where
  "unescape s =
     (case s of
        [] \<Rightarrow> (CHR 0x00, [])
      | c # t \<Rightarrow>
          if c \<noteq> CHR 0x5C then (c, t)
          else case t of
            [] \<Rightarrow> (CHR 0x00, [])
          | d # u \<Rightarrow>
              if d = CHR ''b'' then (CHR 0x08, u)
              else if d = CHR ''t'' then (CHR 0x09, u)
              else if d = CHR ''n'' then (CHR 0x0A, u)
              else if d = CHR ''f'' then (CHR 0x0C, u)
              else if d = CHR ''r'' then (CHR 0x0D, u)
              else if d = CHR ''u'' then (char_of (read_hex (take 4 u)), drop 4 u)
              else (d, u))"

lemma hex_value_hex_char: "hex_value (hex_char d) = d mod 16"
proof -
  have "list_all (\<lambda>d. hex_value (''0123456789abcdef'' ! d) = d) [0, 1, 2, 3, 4, 5, 6, 7, 8, 9, 10, 11, 12, 13, 14, 15]"
    by (simp add: hex_value_def is_digit_def)
  moreover have "[0..<16] = [0, 1, 2, 3, 4, 5, 6, 7, 8, 9, 10, 11, 12, 13, 14, 15::nat]" by (simp add: upt_rec)
  moreover have "d mod 16 \<in> set [0..<16]" by simp
  ultimately show ?thesis unfolding list_all_iff hex_char_def by metis
qed

lemma read_show_hex: "read_hex (show_hex w n) = n mod 16 ^ w"
proof (induction w arbitrary: n)
  case 0
  then show ?case by (simp add: read_hex_def)
next
  case (Suc w)
  have "read_hex (show_hex (Suc w) n) = 16 * (n div 16 mod 16 ^ w) + n mod 16"
    using Suc [of "n div 16"] by (simp add: read_hex_def hex_value_hex_char)
  also have "\<dots> = n mod 16 ^ Suc w" by (simp add: mod_mult2_eq)
  finally show ?case .
qed

lemma code_point_is: "code_point d = n \<Longrightarrow> code_point c = n \<longleftrightarrow> c = d"
  using of_char_eq_iff [of c d, where ?'a = nat] by auto

lemmas code_point_literals =
  code_point_is [of "CHR 0x22" 34, simplified] code_point_is [of "CHR 0x5C" 92, simplified]
  code_point_is [of "CHR 0x08" 8, simplified] code_point_is [of "CHR 0x09" 9, simplified]
  code_point_is [of "CHR 0x0A" 10, simplified] code_point_is [of "CHR 0x0C" 12, simplified]
  code_point_is [of "CHR 0x0D" 13, simplified]

lemma json_char_cases:
  obtains (short) d where "json_char c = [CHR 0x5C, d]" "d \<noteq> CHR ''u''" "\<And>x. unescape (CHR 0x5C # d # x) = (c, x)"
    | (long) "json_char c = [CHR 0x5C, CHR ''u''] @ show_hex 4 (code_point c)"
    | (plain) "json_char c = [c]" "c \<noteq> CHR 0x5C" "c \<noteq> CHR 0x22"
proof -
  consider "c = CHR 0x22" | "c = CHR 0x5C" | "c = CHR 0x08" | "c = CHR 0x09" | "c = CHR 0x0A" | "c = CHR 0x0C" | "c = CHR 0x0D"
    | (ctl) "code_point c < 32" "c \<notin> {CHR 0x08, CHR 0x09, CHR 0x0A, CHR 0x0C, CHR 0x0D, CHR 0x22, CHR 0x5C}"
    | (other) "\<not> code_point c < 32" "c \<notin> {CHR 0x22, CHR 0x5C}" by blast
  then show ?thesis
  proof cases
    case ctl
    then have "json_char c = [CHR 0x5C, CHR ''u''] @ show_hex 4 (code_point c)"
      by (simp add: json_char_def Let_def code_point_literals)
    then show ?thesis by (rule long)
  next
    case other
    then have "json_char c = [c]" by (auto simp: json_char_def Let_def code_point_literals)
    then show ?thesis using other by (intro plain) auto
  qed (simp_all add: short [of "CHR 0x22"] short [of "CHR 0x5C"] short [of "CHR ''b''"] short [of "CHR ''t''"]
      short [of "CHR ''n''"] short [of "CHR ''f''"] short [of "CHR ''r''"] json_char_def Let_def unescape_def)
qed

lemma unescape_json_char: "unescape (json_char c @ x) = (c, x)"
proof (cases c rule: json_char_cases)
  case long
  have "code_point c < 256" by simp
  then have "code_point c mod 65536 = code_point c" by (intro mod_less) linarith
  then show ?thesis using long read_show_hex [of 4 "code_point c"] by (simp add: unescape_def)
next
  case plain
  then show ?thesis by (simp add: unescape_def)
qed simp

lemma json_char_prefix: "json_char c @ x = json_char d @ y \<Longrightarrow> c = d \<and> x = y"
proof -
  assume eq: "json_char c @ x = json_char d @ y"
  have "(c, x) = unescape (json_char d @ y)" unfolding eq [symmetric] by (rule unescape_json_char [symmetric])
  also have "\<dots> = (d, y)" by (rule unescape_json_char)
  finally show ?thesis by simp
qed

lemma json_char_not_quote: "json_char c \<noteq> [] \<and> hd (json_char c) \<noteq> CHR 0x22"
proof (cases c rule: json_char_cases)
  case (short d)
  then show ?thesis by (simp only: list.sel) simp
next
  case long
  then show ?thesis by (simp only: append.simps list.sel) simp
next
  case plain
  then show ?thesis by (simp only: list.sel) simp
qed

lemma quoted_prefix:
  "concat (map json_char s) @ CHR 0x22 # x = concat (map json_char t) @ CHR 0x22 # y \<Longrightarrow> s = t \<and> x = y"
proof (induction s arbitrary: t)
  case Nil
  then show ?case using json_char_not_quote [of "hd t"] by (cases t; cases "json_char (hd t)") auto
next
  case (Cons c s)
  show ?case
  proof (cases t)
    case Nil
    then show ?thesis using Cons.prems json_char_not_quote [of c] by (cases "json_char c") auto
  next
    case (Cons d u)
    with Cons.prems have "c = d \<and> concat (map json_char s) @ CHR 0x22 # x = concat (map json_char u) @ CHR 0x22 # y"
      by (intro json_char_prefix) simp
    with Cons.IH [of u] Cons show ?thesis by simp
  qed
qed

lemma json_quote_prefix: "json_quote s @ x = json_quote t @ y \<Longrightarrow> s = t \<and> x = y"
  using quoted_prefix [of s x t y] by (simp add: json_quote_def)

section \<open>Numbers\<close>

lemma show_nat_inject: "show_nat m = show_nat n \<longleftrightarrow> m = n"
  by (metis read_show_nat)

definition number_char :: "char \<Rightarrow> bool" where
  "number_char c \<longleftrightarrow> is_digit c \<or> c = CHR ''-''"

lemma minus_not_digit: "\<not> is_digit (CHR ''-'')"
  by (simp add: is_digit_def)

lemma show_int_chars: "list_all number_char (show_int i)"
  using show_nat_digits [of "nat i"] show_nat_digits [of "nat (- i)"]
  by (auto simp: show_int_def number_char_def list_all_iff)

lemma show_int_inject: "show_int i = show_int j \<longleftrightarrow> i = j"
proof
  have digit: "show_nat n \<noteq> CHR ''-'' # s" for n s
    using show_nat_digits [of n] minus_not_digit by auto
  assume "show_int i = show_int j"
  then show "i = j"
    using digit [of "nat i" "show_nat (nat (- j))"] digit [of "nat j" "show_nat (nat (- i))"]
    by (auto simp: show_int_def show_nat_inject split: if_splits)
qed simp

definition stops :: "string \<Rightarrow> bool" where
  "stops r \<longleftrightarrow> r = [] \<or> hd r \<in> {CHR '','', CHR '']'', CHR ''}'', CHR '':''}"

lemma stops_Cons: "stops (c # r) \<longleftrightarrow> c \<in> {CHR '','', CHR '']'', CHR ''}'', CHR '':''}"
  by (simp add: stops_def)

lemma number_prefix:
  assumes "show_int i @ r = show_int j @ s" and "stops r" and "stops s"
  shows "i = j \<and> r = s"
proof -
  have end1: "takeWhile number_char t = []" if "stops t" for t
    using that by (cases t) (auto simp: stops_def number_char_def is_digit_def)
  have "takeWhile number_char (show_int k @ t) = show_int k" if "stops t" for k t
    using show_int_chars [of k] end1 [OF that] by (simp add: takeWhile_append2 list_all_iff)
  with assms have "show_int i = show_int j" by metis
  with assms(1) show ?thesis by (simp add: show_int_inject)
qed

section \<open>Lists of printed values\<close>

text \<open>A printer whose output, up to a separator, determines \<open>f\<close> of what was printed.\<close>

definition readable :: "('a \<Rightarrow> string) \<Rightarrow> ('a \<Rightarrow> 'b) \<Rightarrow> 'a \<Rightarrow> bool" where
  "readable pr f x \<longleftrightarrow>
     pr x \<noteq> [] \<and> hd (pr x) \<notin> {CHR '']'', CHR ''}''} \<and>
     (\<forall>y r s. stops r \<longrightarrow> stops s \<longrightarrow> pr x @ r = pr y @ s \<longrightarrow> f x = f y \<and> r = s)"

lemma str_join_Cons: "str_join sep (s # ss) = s @ concat (map (\<lambda>t. sep @ t) ss)"
  by (induction ss arbitrary: s) auto

lemma readable_tail:
  assumes "list_all (readable pr f) xs" and "c \<in> {CHR '']'', CHR ''}''}"
    and "concat (map (\<lambda>x. '','' @ pr x) xs) @ c # r = concat (map (\<lambda>x. '','' @ pr x) ys) @ c # s"
  shows "map f xs = map f ys \<and> r = s"
  using assms(1,3)
proof (induction xs arbitrary: ys)
  case Nil
  with assms(2) show ?case by (cases ys) auto
next
  case (Cons x xs)
  show ?case
  proof (cases ys)
    case Nil
    with Cons.prems assms(2) show ?thesis by auto
  next
    case (Cons y zs)
    let ?r = "concat (map (\<lambda>x. '','' @ pr x) xs) @ c # r" and ?s = "concat (map (\<lambda>x. '','' @ pr x) zs) @ c # s"
    have stop: "stops (concat (map (\<lambda>x. '','' @ pr x) ws) @ c # t)" for ws t
      using assms(2) by (cases ws) (auto simp: stops_Cons)
    have "pr x @ ?r = pr y @ ?s" using Cons.prems(2) Cons by simp
    then have "f x = f y \<and> ?r = ?s"
      using Cons.prems(1) stop unfolding readable_def list.pred_inject by blast
    with Cons.IH [of zs] Cons.prems(1) Cons show ?thesis by simp
  qed
qed

lemma readable_join:
  assumes "list_all (readable pr f) xs" and "\<And>y. pr y \<noteq> [] \<and> hd (pr y) \<notin> {CHR '']'', CHR ''}''}"
    and "c \<in> {CHR '']'', CHR ''}''}"
    and "str_join '','' (map pr xs) @ c # r = str_join '','' (map pr ys) @ c # s"
  shows "map f xs = map f ys \<and> r = s"
proof (cases xs)
  case Nil
  with assms(2) [of "hd ys"] assms(3,4) show ?thesis by (cases ys; cases "pr (hd ys)") (auto simp: str_join_Cons)
next
  case (Cons x xs')
  note xs = Cons
  show ?thesis
  proof (cases ys)
    case Nil
    with assms(2) [of x] assms(3,4) xs show ?thesis by (cases "pr x") (auto simp: str_join_Cons)
  next
    case (Cons y ys')
    let ?t = "\<lambda>ws. concat (map (\<lambda>x. '','' @ pr x) ws)"
    have stop: "stops (?t ws @ c # t)" for ws t
      using assms(3) by (cases ws) (auto simp: stops_Cons)
    have "pr x @ ?t xs' @ c # r = pr y @ ?t ys' @ c # s" using assms(4) xs Cons by (simp add: str_join_Cons comp_def)
    then have "f x = f y \<and> ?t xs' @ c # r = ?t ys' @ c # s"
      using assms(1) stop unfolding xs readable_def list.pred_inject by blast
    with readable_tail [of pr f xs' c r ys' s] assms(1,3) xs Cons show ?thesis by simp
  qed
qed

section \<open>Values\<close>

text \<open>The first character tells the kind of the value.\<close>

primrec shape :: "json \<Rightarrow> nat" where
  "shape JNull = 1"
| "shape (JBool b) = (if b then 2 else 3)"
| "shape (JInt i) = 0"
| "shape (JStr s) = 4"
| "shape (JArr xs) = 5"
| "shape (JObj kvs) = 6"

definition char_shape :: "char \<Rightarrow> nat" where
  "char_shape c =
     (if c = CHR ''n'' then 1 else if c = CHR ''t'' then 2 else if c = CHR ''f'' then 3
      else if c = CHR 0x22 then 4 else if c = CHR ''['' then 5 else if c = CHR ''{'' then 6
      else if number_char c then 0 else 7)"

lemma show_int_not_Nil: "show_int i \<noteq> []"
  by (simp add: show_int_def)

lemma char_shape_number: "number_char c \<Longrightarrow> char_shape c = 0"
  by (auto simp: char_shape_def number_char_def is_digit_def)

lemma dumps_shape: "json_dumps j \<noteq> [] \<and> char_shape (hd (json_dumps j)) = shape j"
proof (cases j)
  case (JInt i)
  then show ?thesis using show_int_not_Nil [of i] show_int_chars [of i] by (cases "show_int i") (auto intro: char_shape_number)
qed (simp_all add: char_shape_def json_quote_def)

lemma dumps_not_closing: "json_dumps j \<noteq> [] \<and> hd (json_dumps j) \<notin> {CHR '']'', CHR ''}''}"
proof -
  have "shape j \<noteq> 7" by (cases j) auto
  moreover have "char_shape (CHR '']'') = 7" "char_shape (CHR ''}'') = 7"
    by (simp_all add: char_shape_def number_char_def is_digit_def)
  ultimately show ?thesis using dumps_shape [of j] by auto
qed

lemma same_shape: "json_dumps j @ r = json_dumps k @ s \<Longrightarrow> shape j = shape k"
  using dumps_shape [of j] dumps_shape [of k] by (metis hd_append2)

definition member_dumps :: "string \<times> json \<Rightarrow> string" where
  "member_dumps kv = json_quote (fst kv) @ '':'' @ json_dumps (snd kv)"

lemma member_dumps_not_closing: "member_dumps kv \<noteq> [] \<and> hd (member_dumps kv) \<notin> {CHR '']'', CHR ''}''}"
  by (simp add: member_dumps_def json_quote_def)

lemma dumps_object:
  "json_dumps (JObj kvs) = ''{'' @ str_join '','' (map member_dumps (sort_key fst kvs)) @ ''}''"
proof -
  have "json_member \<circ> map_prod id json_dumps = member_dumps" by (auto simp: json_member_def member_dumps_def)
  then show ?thesis by (simp only: json_dumps.simps sort_key_map_prod map_map)
qed

lemma canonical_object: "canonical (JObj kvs) = JObj (map (map_prod id canonical) (sort_key fst kvs))"
  by (simp only: canonical.simps sort_key_map_prod)

lemma member_readable:
  assumes "readable json_dumps canonical (snd kv)"
  shows "readable member_dumps (map_prod id canonical) kv"
  unfolding readable_def
proof (intro conjI allI impI)
  show "member_dumps kv \<noteq> []" "hd (member_dumps kv) \<notin> {CHR '']'', CHR ''}''}"
    using member_dumps_not_closing [of kv] by simp_all
  fix kv' r s assume st: "stops r" "stops s" and eq: "member_dumps kv @ r = member_dumps kv' @ s"
  then have "fst kv = fst kv' \<and> '':'' @ json_dumps (snd kv) @ r = '':'' @ json_dumps (snd kv') @ s"
    by (intro json_quote_prefix) (simp add: member_dumps_def)
  then have k: "fst kv = fst kv'" and v: "json_dumps (snd kv) @ r = json_dumps (snd kv') @ s" by simp_all
  from assms st v have "canonical (snd kv) = canonical (snd kv') \<and> r = s" unfolding readable_def by blast
  with k show "map_prod id canonical kv = map_prod id canonical kv'" "r = s" by (simp_all add: map_prod_def split_def)
qed

lemma dumps_readable: "readable json_dumps canonical j"
proof (induction j)
  case JNull
  show ?case
    unfolding readable_def using dumps_not_closing [of JNull]
  proof (intro conjI allI impI)
    fix k r s assume eq: "json_dumps JNull @ r = json_dumps k @ s"
    from same_shape [OF eq] have "k = JNull" by (cases k) (auto split: if_splits)
    with eq show "canonical JNull = canonical k" "r = s" by simp_all
  qed auto
next
  case (JBool b)
  show ?case
    unfolding readable_def using dumps_not_closing [of "JBool b"]
  proof (intro conjI allI impI)
    fix k r s assume eq: "json_dumps (JBool b) @ r = json_dumps k @ s"
    from same_shape [OF eq] have "k = JBool b" by (cases k) (auto split: if_splits)
    with eq show "canonical (JBool b) = canonical k" "r = s" by simp_all
  qed auto
next
  case (JInt i)
  show ?case
    unfolding readable_def using dumps_not_closing [of "JInt i"]
  proof (intro conjI allI impI)
    fix k r s assume st: "stops r" "stops s" and eq: "json_dumps (JInt i) @ r = json_dumps k @ s"
    from same_shape [OF eq] obtain i' where k: "k = JInt i'" by (cases k) (auto split: if_splits)
    from number_prefix [of i r i' s] eq st k show "canonical (JInt i) = canonical k" "r = s" by simp_all
  qed auto
next
  case (JStr x)
  show ?case
    unfolding readable_def using dumps_not_closing [of "JStr x"]
  proof (intro conjI allI impI)
    fix k r s assume eq: "json_dumps (JStr x) @ r = json_dumps k @ s"
    from same_shape [OF eq] obtain y where k: "k = JStr y" by (cases k) (auto split: if_splits)
    from json_quote_prefix [of x r y s] eq k show "canonical (JStr x) = canonical k" "r = s" by simp_all
  qed auto
next
  case (JArr xs)
  show ?case
    unfolding readable_def using dumps_not_closing [of "JArr xs"]
  proof (intro conjI allI impI)
    fix k r s assume eq: "json_dumps (JArr xs) @ r = json_dumps k @ s"
    from same_shape [OF eq] obtain ys where k: "k = JArr ys" by (cases k) (auto split: if_splits)
    have "map canonical xs = map canonical ys \<and> r = s"
    proof (rule readable_join [where c = "CHR '']''"])
      show "list_all (readable json_dumps canonical) xs" using JArr.IH by (simp add: list_all_iff)
      show "json_dumps y \<noteq> [] \<and> hd (json_dumps y) \<notin> {CHR '']'', CHR ''}''}" for y by (rule dumps_not_closing)
      show "str_join '','' (map json_dumps xs) @ CHR '']'' # r = str_join '','' (map json_dumps ys) @ CHR '']'' # s"
        using eq k by simp
    qed simp
    with k show "canonical (JArr xs) = canonical k" "r = s" by simp_all
  qed auto
next
  case (JObj kvs)
  show ?case
    unfolding readable_def using dumps_not_closing [of "JObj kvs"]
  proof (intro conjI allI impI)
    fix k r s assume eq: "json_dumps (JObj kvs) @ r = json_dumps k @ s"
    from same_shape [OF eq] obtain kvs' where k: "k = JObj kvs'" by (cases k) (auto split: if_splits)
    have "map (map_prod id canonical) (sort_key fst kvs) = map (map_prod id canonical) (sort_key fst kvs') \<and> r = s"
    proof (rule readable_join [where c = "CHR ''}''"])
      show "list_all (readable member_dumps (map_prod id canonical)) (sort_key fst kvs)"
        using JObj.IH by (auto simp: list_all_iff intro!: member_readable)
      show "member_dumps y \<noteq> [] \<and> hd (member_dumps y) \<notin> {CHR '']'', CHR ''}''}" for y
        by (rule member_dumps_not_closing)
      show "str_join '','' (map member_dumps (sort_key fst kvs)) @ CHR ''}'' # r =
          str_join '','' (map member_dumps (sort_key fst kvs')) @ CHR ''}'' # s"
        using eq unfolding k dumps_object by simp
    qed simp
    then show "canonical (JObj kvs) = canonical k" "r = s" unfolding k canonical_object by simp_all
  qed auto
qed

lemma json_dumps_inject: "json_dumps j = json_dumps k \<longleftrightarrow> canonical j = canonical k"
proof
  assume "json_dumps j = json_dumps k"
  then have "json_dumps j @ [] = json_dumps k @ []" by simp
  moreover have "stops []" by (simp add: stops_def)
  ultimately show "canonical j = canonical k" using dumps_readable [of j] unfolding readable_def by blast
next
  have dumps_canonical: "json_dumps (canonical j) = json_dumps j" for j
  proof (induction j)
    case (JArr xs)
    then show ?case by (simp add: comp_def cong: map_cong)
  next
    case (JObj kvs)
    have "member_dumps (map_prod id canonical kv) = member_dumps kv" if "kv \<in> set kvs" for kv
      using JObj [of kv "snd kv"] that by (cases kv) (auto simp: member_dumps_def)
    then have "map (member_dumps \<circ> map_prod id canonical) (sort_key fst kvs) = map member_dumps (sort_key fst kvs)" by simp
    moreover have "sort_key fst (map (map_prod id canonical) (sort_key fst kvs)) = map (map_prod id canonical) (sort_key fst kvs)"
      unfolding sort_key_map_prod by (simp add: sort_key_id_if_sorted)
    ultimately show ?case by (simp only: canonical_object dumps_object map_map)
  qed simp_all
  assume "canonical j = canonical k"
  then show "json_dumps j = json_dumps k" using dumps_canonical by metis
qed

section \<open>Bytes\<close>

lemma utf8_char_prefix:
  assumes "utf8_char a @ x = utf8_char b @ y"
  shows "a = b \<and> x = y"
proof -
  have div: "192 + code_point c div 64 < 256" for c
    using less_mult_imp_div_less [of "code_point c" 4 64] by simp
  have ne: "(of_nat m :: byte) \<noteq> of_nat (192 + code_point c div 64)" if "m < 128" for m c
    using that div [of c] by (subst of_nat_byte_inject) linarith+
  have len: "length (utf8_char a) = length (utf8_char b)"
    using assms ne ne [symmetric] by (auto simp: utf8_char_def Let_def split: if_splits)
  with assms have "utf8_char a = utf8_char b" "x = y" by (simp_all add: append_eq_append_conv)
  then show ?thesis by (simp add: utf8_char_inject)
qed

lemma utf8_char_not_Nil: "utf8_char c \<noteq> []"
  by (simp add: utf8_char_def Let_def)

lemma utf8_encode_inject: "utf8_encode s = utf8_encode t \<longleftrightarrow> s = t"
proof
  assume "utf8_encode s = utf8_encode t"
  then show "s = t"
  proof (induction s arbitrary: t)
    case Nil
    then show ?case by (cases t) (auto simp: utf8_encode_def utf8_char_not_Nil)
  next
    case (Cons a s)
    then obtain b u where t: "t = b # u" by (cases t) (auto simp: utf8_encode_def utf8_char_not_Nil)
    with Cons.prems have "a = b \<and> concat (map utf8_char s) = concat (map utf8_char u)"
      by (intro utf8_char_prefix) (simp add: utf8_encode_def)
    with Cons.IH [of u] t show ?case by (simp add: utf8_encode_def)
  qed
qed simp

lemma json_bytes_inject: "json_bytes j = json_bytes k \<longleftrightarrow> canonical j = canonical k"
  by (simp add: json_bytes_def utf8_encode_inject json_dumps_inject)

section \<open>Members\<close>

text \<open>Equal canonical objects have equal members; keys of the sources' dicts are distinct.\<close>

lemma map_of_sort_key: "distinct (map fst kvs) \<Longrightarrow> map_of (sort_key fst kvs) = map_of kvs"
  using map_of_inject_set [of "sort_key fst kvs" kvs] by (simp add: distinct_map)

lemma canonical_members:
  assumes "canonical (JObj kvs) = canonical (JObj kvs')" and "distinct (map fst kvs)" and "distinct (map fst kvs')"
  shows "map_option canonical (map_of kvs k) = map_option canonical (map_of kvs' k)"
proof -
  have "map_of (map (map_prod id canonical) xs) k = map_option canonical (map_of xs k)" for xs
    by (induction xs) auto
  moreover have "map (map_prod id canonical) (sort_key fst kvs) = map (map_prod id canonical) (sort_key fst kvs')"
    using assms(1) by (simp only: canonical_object json.inject)
  ultimately show ?thesis using map_of_sort_key [OF assms(2)] map_of_sort_key [OF assms(3)] by metis
qed

end
