(* ===== verification/Json_Read.thy ===== *)
theory Json_Read
  imports Json_Inject
begin

text \<open>
  \<^verbatim>\<open>json.loads\<close> and \<^verbatim>\<open>bytes.decode("utf-8")\<close>. A reader takes the text and returns
  the value with the text that follows it. Values are those of \<open>Py_Json\<close>: a number with a fraction
  or an exponent, and a character above 255, are read as errors here.

  The readers of values call each other with one unit of fuel less; \<open>json_loads\<close> supplies two per
  character, and every second call consumes one. What canonical JSON prints is read back.
\<close>

section \<open>Strings\<close>

definition json_space :: "char \<Rightarrow> bool" where
  "json_space c \<longleftrightarrow> c \<in> {CHR 0x20, CHR 0x09, CHR 0x0A, CHR 0x0D}"

definition skip_space :: "string \<Rightarrow> string" where
  "skip_space s = dropWhile json_space s"

definition hex_digit_value :: "char \<Rightarrow> nat" where
  "hex_digit_value c =
     (let n = code_point c in if n < 65 then n - 48 else if n < 97 then n - 55 else n - 87)"

definition read_unicode :: "string \<Rightarrow> (char \<times> string) option" where
  "read_unicode s =
     (let digits = take 4 s; n = foldl (\<lambda>n c. 16 * n + hex_digit_value c) 0 digits
      in if length digits = 4 \<and> list_all (\<lambda>c. c \<in> set hexdigits) digits \<and> n < 256
         then Some (char_of n, drop 4 s) else None)"

text \<open>One character of a quoted string, an escape or itself; control characters must be escaped.\<close>

definition read_char :: "string \<Rightarrow> (char \<times> string) option" where
  "read_char s =
     (case s of
        [] \<Rightarrow> None
      | c # t \<Rightarrow>
          if code_point c = 92 then
            (case t of
               [] \<Rightarrow> None
             | d # u \<Rightarrow>
                 let n = code_point d in
                 if n = 34 \<or> n = 92 \<or> n = 47 then Some (d, u)
                 else if n = 98 then Some (CHR 0x08, u)
                 else if n = 102 then Some (CHR 0x0C, u)
                 else if n = 110 then Some (CHR 0x0A, u)
                 else if n = 114 then Some (CHR 0x0D, u)
                 else if n = 116 then Some (CHR 0x09, u)
                 else if n = 117 then read_unicode u
                 else None)
          else if code_point c < 32 then None
          else Some (c, t))"

lemma read_char_shorter: "read_char s = Some (c, u) \<Longrightarrow> length u < length s"
  by (auto simp: read_char_def read_unicode_def Let_def split: list.splits if_splits)

text \<open>The characters up to the closing quote.\<close>

function read_chars :: "string \<Rightarrow> (string \<times> string) option" where
  "read_chars s =
     (case s of
        [] \<Rightarrow> None
      | c # t \<Rightarrow>
          if code_point c = 34 then Some ([], t)
          else case read_char s of
            None \<Rightarrow> None
          | Some (d, u) \<Rightarrow> (case read_chars u of None \<Rightarrow> None | Some (ds, v) \<Rightarrow> Some (d # ds, v)))"
  by pat_completeness auto
termination by (relation "measure length") (auto dest: read_char_shorter)

declare read_chars.simps [simp del]

section \<open>Numbers\<close>

text \<open>\<^verbatim>\<open>0|[1-9][0-9]*\<close> at the head of the text.\<close>

definition number_digits :: "string \<Rightarrow> string" where
  "number_digits s =
     (let digits = takeWhile is_digit s
      in if digits \<noteq> [] \<and> hd digits = CHR ''0'' then [CHR ''0''] else digits)"

definition read_number :: "string \<Rightarrow> (json \<times> string) option" where
  "read_number s =
     (let negative = (s \<noteq> [] \<and> hd s = CHR ''-'');
          t = (if negative then tl s else s);
          digits = number_digits t;
          rest = drop (length digits) t;
          n = int (read_nat digits)
      in if digits = [] \<or> (rest \<noteq> [] \<and> hd rest \<in> {CHR ''.'', CHR ''e'', CHR ''E''}) then None
         else Some (JInt (if negative then - n else n), rest))"

section \<open>Values\<close>

text \<open>\<^verbatim>\<open>dict(pairs)\<close>: a repeated key keeps its place and takes the last value.\<close>

fun put_member :: "string \<times> json \<Rightarrow> (string \<times> json) list \<Rightarrow> (string \<times> json) list" where
  "put_member kv [] = [kv]"
| "put_member kv (lw # kvs) = (if fst lw = fst kv then kv # kvs else lw # put_member kv kvs)"

definition dict_of :: "(string \<times> json) list \<Rightarrow> (string \<times> json) list" where
  "dict_of kvs = fold put_member kvs []"

definition starts_with :: "string \<Rightarrow> string \<Rightarrow> bool" where
  "starts_with p s \<longleftrightarrow> take (length p) s = p"

fun read_value :: "nat \<Rightarrow> string \<Rightarrow> (json \<times> string) option"
and read_elements :: "nat \<Rightarrow> string \<Rightarrow> (json list \<times> string) option"
and read_members :: "nat \<Rightarrow> string \<Rightarrow> ((string \<times> json) list \<times> string) option" where
  "read_value 0 s = None"
| "read_value (Suc n) s =
     (case s of
        [] \<Rightarrow> None
      | c # t \<Rightarrow>
          if code_point c = 34 then
            (case read_chars t of None \<Rightarrow> None | Some (cs, u) \<Rightarrow> Some (JStr cs, u))
          else if c = CHR ''{'' then
            (let u = skip_space t in
             if u \<noteq> [] \<and> hd u = CHR ''}'' then Some (JObj [], tl u)
             else case read_members n u of None \<Rightarrow> None | Some (kvs, v) \<Rightarrow> Some (JObj (dict_of kvs), v))
          else if c = CHR ''['' then
            (let u = skip_space t in
             if u \<noteq> [] \<and> hd u = CHR '']'' then Some (JArr [], tl u)
             else case read_elements n u of None \<Rightarrow> None | Some (xs, v) \<Rightarrow> Some (JArr xs, v))
          else if starts_with ''null'' s then Some (JNull, drop 4 s)
          else if starts_with ''true'' s then Some (JBool True, drop 4 s)
          else if starts_with ''false'' s then Some (JBool False, drop 5 s)
          else read_number s)"
| "read_elements 0 s = None"
| "read_elements (Suc n) s =
     (case read_value n s of
        None \<Rightarrow> None
      | Some (x, t) \<Rightarrow>
          (case skip_space t of
             [] \<Rightarrow> None
           | c # u \<Rightarrow>
               if c = CHR '']'' then Some ([x], u)
               else if c = CHR '','' then
                 (case read_elements n (skip_space u) of None \<Rightarrow> None | Some (xs, v) \<Rightarrow> Some (x # xs, v))
               else None))"
| "read_members 0 s = None"
| "read_members (Suc n) s =
     (case s of
        [] \<Rightarrow> None
      | q # t \<Rightarrow>
          if code_point q \<noteq> 34 then None
          else case read_chars t of
            None \<Rightarrow> None
          | Some (k, u) \<Rightarrow>
              (case skip_space u of
                 [] \<Rightarrow> None
               | c # v \<Rightarrow>
                   if c \<noteq> CHR '':'' then None
                   else case read_value n (skip_space v) of
                     None \<Rightarrow> None
                   | Some (x, w) \<Rightarrow>
                       (case skip_space w of
                          [] \<Rightarrow> None
                        | d # y \<Rightarrow>
                            if d = CHR ''}'' then Some ([(k, x)], y)
                            else if d = CHR '','' then
                              (case read_members n (skip_space y) of
                                 None \<Rightarrow> None | Some (kvs, z) \<Rightarrow> Some ((k, x) # kvs, z))
                            else None)))"

text \<open>The whole text is one value.\<close>

definition json_loads :: "string \<Rightarrow> json option" where
  "json_loads s =
     (case read_value (2 * length s + 2) (skip_space s) of
        Some (v, rest) \<Rightarrow> if skip_space rest = [] then Some v else None
      | None \<Rightarrow> None)"

section \<open>Bytes\<close>

text \<open>Strict decoding; the text of a longer sequence is above code point 255.\<close>

fun utf8_decode :: "byte list \<Rightarrow> string option" where
  "utf8_decode [] = Some []"
| "utf8_decode [b] = (if unat b < 128 then Some [char_of (unat b)] else None)"
| "utf8_decode (b # d # bs) =
     (if unat b < 128 then map_option (\<lambda>s. char_of (unat b) # s) (utf8_decode (d # bs))
      else if unat b \<in> {194, 195} \<and> 128 \<le> unat d \<and> unat d < 192
      then map_option (\<lambda>s. char_of (64 * (unat b - 192) + (unat d - 128)) # s) (utf8_decode bs)
      else None)"

section \<open>Reading what was printed\<close>

lemma hex_digit_value_hex_char: "hex_digit_value (hex_char d) = d mod 16 \<and> hex_char d \<in> set hexdigits"
proof -
  have "list_all (\<lambda>d. hex_digit_value (''0123456789abcdef'' ! d) = d) [0, 1, 2, 3, 4, 5, 6, 7, 8, 9, 10, 11, 12, 13, 14, 15]"
    by (simp add: hex_digit_value_def Let_def)
  moreover have "[0..<16] = [0, 1, 2, 3, 4, 5, 6, 7, 8, 9, 10, 11, 12, 13, 14, 15::nat]" by (simp add: upt_rec)
  moreover have "d mod 16 \<in> set [0..<16]" by simp
  ultimately have "hex_digit_value (hex_char d) = d mod 16" unfolding list_all_iff hex_char_def by metis
  with hex_char_cases [of d] lower_hex_char show ?thesis by blast
qed

lemma show_hex_read:
  "foldl (\<lambda>n c. 16 * n + hex_digit_value c) 0 (show_hex w n) = n mod 16 ^ w
     \<and> list_all (\<lambda>c. c \<in> set hexdigits) (show_hex w n)"
proof (induction w arbitrary: n)
  case (Suc w)
  then show ?case
    using hex_digit_value_hex_char [of n] by (simp add: mod_mult2_eq)
qed simp

lemma read_unicode_show_hex: "read_unicode (show_hex 4 (code_point c) @ x) = Some (c, x)"
proof -
  have "code_point c < 256" by simp
  also have "(256 :: nat) < 16 ^ 4" by simp
  finally have "code_point c mod 16 ^ 4 = code_point c" by (rule mod_less)
  with show_hex_read [of 4 "code_point c"] show ?thesis by (simp add: read_unicode_def)
qed

lemma read_char_json_char: "read_char (json_char c @ x) = Some (c, x)"
proof -
  consider "c = CHR 0x22" | "c = CHR 0x5C" | "c = CHR 0x08" | "c = CHR 0x09" | "c = CHR 0x0A" | "c = CHR 0x0C" | "c = CHR 0x0D"
    | (ctl) "code_point c < 32" "c \<notin> {CHR 0x08, CHR 0x09, CHR 0x0A, CHR 0x0C, CHR 0x0D, CHR 0x22, CHR 0x5C}"
    | (other) "\<not> code_point c < 32" "c \<notin> {CHR 0x22, CHR 0x5C}" by blast
  then show ?thesis
  proof cases
    case ctl
    then have "json_char c = [CHR 0x5C, CHR ''u''] @ show_hex 4 (code_point c)"
      by (simp add: json_char_def Let_def code_point_literals)
    then show ?thesis using read_unicode_show_hex [of c x] by (simp add: read_char_def)
  next
    case other
    then show ?thesis by (auto simp: json_char_def read_char_def Let_def code_point_literals)
  qed (simp_all add: json_char_def read_char_def Let_def)
qed

lemma read_chars_quoted: "read_chars (concat (map json_char s) @ CHR 0x22 # x) = Some (s, x)"
proof (induction s)
  case Nil
  show ?case by (subst read_chars.simps) simp
next
  case (Cons c s)
  obtain d w where d: "json_char c = d # w" "code_point d \<noteq> 34"
    using json_char_not_quote [of c] by (cases "json_char c") (auto simp: code_point_literals)
  have "read_char (d # w @ concat (map json_char s) @ CHR 0x22 # x) = Some (c, concat (map json_char s) @ CHR 0x22 # x)"
    using read_char_json_char [of c "concat (map json_char s) @ CHR 0x22 # x"] d by simp
  with Cons d show ?case by (subst read_chars.simps) simp
qed

lemma show_nat_leading: "hd (show_nat n) = CHR ''0'' \<Longrightarrow> show_nat n = ''0''"
proof (induction n rule: show_nat.induct)
  case (1 n)
  have zero: "digit_char d = CHR ''0'' \<Longrightarrow> d < 10 \<Longrightarrow> d = 0" for d
    using code_point_digit_char [of d] by simp
  show ?case
  proof (cases "n < 10")
    case True
    with 1(2) zero [of n] have "n = 0" by (simp add: show_nat.simps [of n])
    moreover have "show_nat 0 = ''0''" by code_simp
    ultimately show ?thesis by simp
  next
    case False
    with 1(2) have "hd (show_nat (n div 10)) = CHR ''0''" by (simp add: show_nat.simps [of n])
    with 1(1) False have "show_nat (n div 10) = ''0''" by simp
    then have "read_nat (show_nat (n div 10)) = 0" by (simp add: read_nat_def digit_value_def)
    with False show ?thesis by simp
  qed
qed

lemma stops_number: "stops r \<Longrightarrow> takeWhile is_digit r = [] \<and> (r = [] \<or> hd r \<notin> {CHR ''.'', CHR ''e'', CHR ''E''})"
  by (cases r) (auto simp: stops_def is_digit_def)

lemma number_digits_show_nat:
  assumes "stops r"
  shows "number_digits (show_nat n @ r) = show_nat n"
proof -
  have "takeWhile is_digit (show_nat n @ r) = show_nat n"
    using stops_number [OF assms] show_nat_digits [of n] by (simp add: takeWhile_append2 list_all_iff)
  then show ?thesis using show_nat_leading [of n] by (simp add: number_digits_def Let_def)
qed

lemma read_number_show_int:
  assumes "stops r"
  shows "read_number (show_int i @ r) = Some (JInt i, r)"
proof -
  have nonneg: "hd (show_nat n @ r) \<noteq> CHR ''-''" for n
    using show_nat_digits [of n] minus_not_digit by (cases "show_nat n") auto
  note stop = stops_number [OF assms]
  show ?thesis
  proof (cases "i < 0")
    case True
    then show ?thesis
      using stop by (simp add: read_number_def show_int_def number_digits_show_nat [OF assms] Let_def)
  next
    case False
    then show ?thesis
      using stop nonneg [of "nat i"]
      by (simp add: read_number_def show_int_def number_digits_show_nat [OF assms] Let_def del: hd_append2)
  qed
qed

section \<open>Values are read back\<close>

text \<open>Python's dicts have distinct keys, at every depth.\<close>

primrec dict_keys_ok :: "json \<Rightarrow> bool" where
  "dict_keys_ok JNull = True"
| "dict_keys_ok (JBool b) = True"
| "dict_keys_ok (JInt i) = True"
| "dict_keys_ok (JStr s) = True"
| "dict_keys_ok (JArr xs) = list_all id (map dict_keys_ok xs)"
| "dict_keys_ok (JObj kvs) =
     (distinct (map fst kvs) \<and> list_all snd (map (map_prod id dict_keys_ok) kvs))"

lemma put_member_new: "fst kv \<notin> fst ` set kvs \<Longrightarrow> put_member kv kvs = kvs @ [kv]"
  by (induction kvs) auto

lemma dict_of_distinct:
  assumes "distinct (map fst kvs)"
  shows "dict_of kvs = kvs"
proof -
  have "distinct (map fst (ls @ kvs)) \<Longrightarrow> fold put_member kvs ls = ls @ kvs" for ls
    by (induction kvs arbitrary: ls) (auto simp: put_member_new)
  from this [of "[]"] assms show ?thesis by (simp add: dict_of_def)
qed

lemma dumps_no_space: "skip_space (json_dumps j @ r) = json_dumps j @ r"
proof -
  have "shape j \<noteq> 7" by (cases j) auto
  moreover have "char_shape c = 7" if "json_space c" for c
    using that by (auto simp: json_space_def char_shape_def number_char_def is_digit_def)
  ultimately have "\<not> json_space (hd (json_dumps j))" using dumps_shape [of j] by metis
  with dumps_shape [of j] show ?thesis by (cases "json_dumps j") (auto simp: skip_space_def)
qed

lemma skip_space_Cons: "\<not> json_space c \<Longrightarrow> skip_space (c # s) = c # s"
  by (simp add: skip_space_def)

lemma no_space:
  "\<not> json_space (CHR '','')" "\<not> json_space (CHR '']'')" "\<not> json_space (CHR ''}'')" "\<not> json_space (CHR '':'')"
  "\<not> json_space (CHR 0x22)"
  by (simp_all add: json_space_def)

definition reads_back :: "json \<Rightarrow> bool" where
  "reads_back j \<longleftrightarrow>
     (\<forall>n r. 2 * length (json_dumps j) \<le> n \<longrightarrow> stops r \<longrightarrow> read_value n (json_dumps j @ r) = Some (canonical j, r))"

lemma reads_backD:
  "reads_back j \<Longrightarrow> 2 * length (json_dumps j) \<le> n \<Longrightarrow> stops r \<Longrightarrow> read_value n (json_dumps j @ r) = Some (canonical j, r)"
  by (simp add: reads_back_def)

lemma read_elements_dumps:
  assumes "list_all reads_back (x # xs)"
    and "2 * length (str_join '','' (map json_dumps (x # xs))) + 1 \<le> n"
  shows "read_elements n (str_join '','' (map json_dumps (x # xs)) @ CHR '']'' # r) = Some (map canonical (x # xs), r)"
  using assms
proof (induction xs arbitrary: x n)
  case Nil
  then obtain m where m: "n = Suc m" "2 * length (json_dumps x) \<le> m" by (cases n) auto
  have "read_value m (json_dumps x @ CHR '']'' # r) = Some (canonical x, CHR '']'' # r)"
    using Nil m by (intro reads_backD) (auto simp: stops_Cons)
  with m show ?case by (simp add: skip_space_Cons no_space)
next
  case (Cons y ys)
  let ?rest = "str_join '','' (map json_dumps (y # ys)) @ CHR '']'' # r"
  from Cons.prems obtain m where
    m: "n = Suc m" "2 * length (json_dumps x) \<le> m" "2 * length (str_join '','' (map json_dumps (y # ys))) + 1 \<le> m"
    by (cases n) auto
  have "read_value m (json_dumps x @ CHR '','' # ?rest) = Some (canonical x, CHR '','' # ?rest)"
    using Cons.prems m by (intro reads_backD) (auto simp: stops_Cons)
  moreover have "skip_space ?rest = ?rest"
    using dumps_no_space [of y] by (simp add: str_join_Cons)
  moreover have "read_elements m ?rest = Some (map canonical (y # ys), r)"
    using Cons.prems m by (intro Cons.IH) auto
  ultimately show ?case using m(1) by (simp add: skip_space_Cons no_space)
qed

lemma member_no_space: "skip_space (member_dumps kv @ r) = member_dumps kv @ r"
  by (simp add: member_dumps_def json_quote_def skip_space_Cons no_space)

lemma read_members_step:
  assumes "reads_back v" and "2 * length (json_dumps v) \<le> m" and "d \<in> {CHR '','', CHR ''}''}"
  shows "read_members (Suc m) (member_dumps (k, v) @ d # y) =
    (if d = CHR ''}'' then Some ([(k, canonical v)], y)
     else case read_members m (skip_space y) of None \<Rightarrow> None | Some (kvs, z) \<Rightarrow> Some ((k, canonical v) # kvs, z))"
proof -
  have "read_value m (json_dumps v @ d # y) = Some (canonical v, d # y)"
    using assms by (intro reads_backD) (auto simp: stops_Cons)
  with assms(3) show ?thesis
    using read_chars_quoted [of k] dumps_no_space [of v "d # y"]
    by (auto simp: member_dumps_def json_quote_def skip_space_Cons no_space)
qed

lemma read_members_dumps:
  assumes "list_all (\<lambda>kv. reads_back (snd kv)) (x # xs)"
    and "2 * length (str_join '','' (map member_dumps (x # xs))) + 1 \<le> n"
  shows "read_members n (str_join '','' (map member_dumps (x # xs)) @ CHR ''}'' # r)
       = Some (map (map_prod id canonical) (x # xs), r)"
  using assms
proof (induction xs arbitrary: x n)
  case Nil
  obtain k v where x: "x = (k, v)" by (cases x)
  have "length (json_dumps v) < length (member_dumps x)" by (simp add: x member_dumps_def)
  with Nil obtain m where m: "n = Suc m" "2 * length (json_dumps v) \<le> m" by (cases n) auto
  from read_members_step [OF _ m(2), of "CHR ''}''" k r] Nil x m(1) show ?case by simp
next
  case (Cons y ys)
  define rest where "rest = str_join '','' (map member_dumps (y # ys)) @ CHR ''}'' # r"
  obtain k v where x: "x = (k, v)" by (cases x)
  have "length (json_dumps v) < length (member_dumps x)" by (simp add: x member_dumps_def)
  with Cons.prems obtain m where
    m: "n = Suc m" "2 * length (json_dumps v) \<le> m" "2 * length (str_join '','' (map member_dumps (y # ys))) + 1 \<le> m"
    by (cases n) auto
  have "skip_space rest = rest"
    using member_no_space [of y] by (simp add: rest_def str_join_Cons)
  moreover have "read_members m rest = Some (map (map_prod id canonical) (y # ys), r)"
    unfolding rest_def using Cons.prems m by (intro Cons.IH) auto
  moreover have "str_join '','' (map member_dumps (x # y # ys)) @ CHR ''}'' # r = member_dumps (k, v) @ CHR '','' # rest"
    by (simp add: rest_def x)
  moreover have "reads_back v" using Cons.prems x by simp
  ultimately show ?case using read_members_step [OF _ m(2), of "CHR '',''" k rest] x m(1) by (simp add: id_def)
qed

lemma dumps_reads_back: "dict_keys_ok j \<Longrightarrow> reads_back j"
proof (induction j)
  case (JInt i)
  have "read_value n (show_int i @ r) = Some (JInt i, r)" if n: "2 * length (show_int i) \<le> n" and r: "stops r" for n r
  proof -
    obtain c t where c: "show_int i = c # t" "number_char c"
      using show_int_not_Nil [of i] show_int_chars [of i] by (cases "show_int i") auto
    with n obtain m where m: "n = Suc m" by (cases n) auto
    from c(2) have "code_point c \<noteq> 34 \<and> c \<notin> {CHR ''{'', CHR ''['', CHR ''n'', CHR ''t'', CHR ''f''}"
      by (auto simp: number_char_def is_digit_def)
    with read_number_show_int [OF r, of i] show ?thesis by (simp add: c(1) m starts_with_def)
  qed
  then show ?case by (simp add: reads_back_def)
next
  case (JStr s)
  have "read_value n (json_quote s @ r) = Some (JStr s, r)" if "2 * length (json_quote s) \<le> n" for n r
    using that read_chars_quoted [of s r] by (cases n) (simp_all add: json_quote_def)
  then show ?case by (simp add: reads_back_def)
next
  case (JArr xs)
  have all: "list_all reads_back xs" using JArr by (auto simp: list_all_iff)
  have "read_value n (json_dumps (JArr xs) @ r) = Some (canonical (JArr xs), r)"
    if n: "2 * length (json_dumps (JArr xs)) \<le> n" for n r
  proof (cases xs)
    case Nil
    with n show ?thesis by (cases n) (simp_all add: skip_space_Cons no_space)
  next
    case (Cons y ys)
    let ?body = "str_join '','' (map json_dumps (y # ys)) @ CHR '']'' # r"
    from n Cons obtain m where m: "n = Suc m" "2 * length (str_join '','' (map json_dumps (y # ys))) + 1 \<le> m"
      by (cases n) auto
    have "skip_space ?body = ?body" using dumps_no_space [of y] by (simp add: str_join_Cons)
    moreover have "?body \<noteq> [] \<and> hd ?body \<noteq> CHR '']''"
      using dumps_not_closing [of y] by (cases "json_dumps y") (auto simp: str_join_Cons)
    moreover have "read_elements m ?body = Some (map canonical (y # ys), r)"
      using all m Cons by (intro read_elements_dumps) auto
    ultimately show ?thesis by (simp add: m(1) Cons Let_def)
  qed
  then show ?case unfolding reads_back_def by blast
next
  case (JObj kvs)
  let ?ms = "sort_key fst kvs"
  have "reads_back v" if "(k, v) \<in> set kvs" for k v
    using JObj that by (force simp: list_all_iff)
  then have all: "list_all (\<lambda>kv. reads_back (snd kv)) ?ms" by (auto simp: list_all_iff)
  have keys: "distinct (map fst (map (map_prod id canonical) ?ms))"
    using JObj.prems by (simp add: distinct_map comp_def inj_on_def)
  have "read_value n (json_dumps (JObj kvs) @ r) = Some (canonical (JObj kvs), r)"
    if n: "2 * length (json_dumps (JObj kvs)) \<le> n" for n r
  proof (cases ?ms)
    case Nil
    with n show ?thesis by (cases n) (simp_all add: dumps_object canonical_object skip_space_Cons no_space del: json_dumps.simps canonical.simps)
  next
    case (Cons y ys)
    let ?body = "str_join '','' (map member_dumps (y # ys)) @ CHR ''}'' # r"
    from n Cons obtain m where m: "n = Suc m" "2 * length (str_join '','' (map member_dumps (y # ys))) + 1 \<le> m"
      by (cases n) (auto simp: dumps_object simp del: json_dumps.simps)
    have "skip_space ?body = ?body" using member_no_space [of y] by (simp add: str_join_Cons)
    moreover have "?body \<noteq> [] \<and> hd ?body \<noteq> CHR ''}''"
      using member_dumps_not_closing [of y] by (cases "member_dumps y") (auto simp: str_join_Cons)
    moreover have "read_members m ?body = Some (map (map_prod id canonical) (y # ys), r)"
      using all m Cons by (intro read_members_dumps) auto
    moreover have "dict_of (map (map_prod id canonical) (y # ys)) = map (map_prod id canonical) (y # ys)"
      using keys Cons by (intro dict_of_distinct) simp
    ultimately show ?thesis by (simp add: m(1) Cons dumps_object canonical_object Let_def del: json_dumps.simps canonical.simps)
  qed
  then show ?case unfolding reads_back_def by blast
next
  case JNull
  have "read_value n (''null'' @ r) = Some (JNull, r)" if "8 \<le> n" for n r
    using that by (cases n) (simp_all add: starts_with_def)
  then show ?case by (simp add: reads_back_def)
next
  case (JBool b)
  have "read_value n (json_dumps (JBool b) @ r) = Some (JBool b, r)" if "2 * length (json_dumps (JBool b)) \<le> n" for n r
    using that by (cases n; cases b) (simp_all add: starts_with_def)
  then show ?case unfolding reads_back_def by simp
qed

theorem json_loads_dumps:
  assumes "dict_keys_ok j"
  shows "json_loads (json_dumps j) = Some (canonical j)"
proof -
  have "stops []" by (simp add: stops_def)
  with reads_backD [OF dumps_reads_back [OF assms], of "2 * length (json_dumps j) + 2" "[]"]
  have "read_value (2 * length (json_dumps j) + 2) (json_dumps j) = Some (canonical j, [])" by simp
  moreover have "skip_space (json_dumps j) = json_dumps j" using dumps_no_space [of j "[]"] by simp
  ultimately show ?thesis by (simp add: json_loads_def skip_space_def)
qed

section \<open>Bytes are read back\<close>

lemma unat_byte: "n < 256 \<Longrightarrow> unat (of_nat n :: byte) = n"
  by (simp add: unat_of_nat)

lemma utf8_decode_char: "utf8_decode (utf8_char c @ bs) = map_option (\<lambda>s. c # s) (utf8_decode bs)"
proof -
  have c: "code_point c < 256" by simp
  show ?thesis
  proof (cases "code_point c < 128")
    case True
    then have "unat (of_nat (code_point c) :: byte) = code_point c" by (simp add: unat_of_nat)
    with True show ?thesis by (cases bs) (simp_all add: utf8_char_def)
  next
    case False
    have q: "code_point c div 64 \<in> {2, 3}"
      using c False div_le_mono [of 128 "code_point c" 64] less_mult_imp_div_less [of "code_point c" 4 64] by simp linarith
    moreover have "code_point c = 64 * (code_point c div 64) + code_point c mod 64" by simp
    moreover have "unat (of_nat (192 + code_point c div 64) :: byte) = 192 + code_point c div 64"
      "unat (of_nat (128 + code_point c mod 64) :: byte) = 128 + code_point c mod 64"
      using q by (intro unat_byte; auto)+
    ultimately show ?thesis using False by (auto simp: utf8_char_def Let_def)
  qed
qed

lemma utf8_decode_encode: "utf8_decode (utf8_encode s) = Some s"
  by (induction s) (simp_all add: utf8_encode_def utf8_decode_char)

end
