(* ===== verification/Py_Datetime.thy ===== *)
theory Py_Datetime
  imports Py_Text
begin

text \<open>
  What the sources use of \<^verbatim>\<open>datetime\<close>: reading the closed RFC 3339 form that ends
  in \<^verbatim>\<open>Z\<close>, comparing two UTC instants, adding a \<^verbatim>\<open>timedelta\<close> and writing an
  instant back. Every instant of the sources is in UTC, and two aware datetimes with the
  same offset compare as their field tuples do, so an instant is the number of
  microseconds of its proleptic Gregorian ordinal (day 1 is 0001-01-01). The calendar is
  \<^verbatim>\<open>date.toordinal\<close> and \<^verbatim>\<open>date.fromordinal\<close>. The lemmas show that the two are
  inverse, so that writing an instant and reading it back is the identity
  (\<open>read_utc_text\<close>).
\<close>

type_synonym instant = int

section \<open>The calendar\<close>

definition leap_year :: "nat \<Rightarrow> bool" where
  "leap_year y = (y mod 4 = 0 \<and> (y mod 100 \<noteq> 0 \<or> y mod 400 = 0))"

definition days_in_month :: "nat \<Rightarrow> nat \<Rightarrow> nat" where
  "days_in_month y m =
     (if m = 2 then (if leap_year y then 29 else 28)
      else if m = 4 \<or> m = 6 \<or> m = 9 \<or> m = 11 then 30 else 31)"

definition days_before_year :: "nat \<Rightarrow> nat" where
  "days_before_year y = (let p = y - 1 in p * 365 + p div 4 - p div 100 + p div 400)"

definition month_starts :: "nat list" where
  "month_starts = [0, 31, 59, 90, 120, 151, 181, 212, 243, 273, 304, 334]"

definition days_before_month :: "nat \<Rightarrow> nat \<Rightarrow> nat" where
  "days_before_month y m = month_starts ! (m - 1) + (if m > 2 \<and> leap_year y then 1 else 0)"

definition date_ordinal :: "nat \<Rightarrow> nat \<Rightarrow> nat \<Rightarrow> nat" where
  "date_ordinal y m d = days_before_year y + days_before_month y m + d"

definition valid_date :: "nat \<Rightarrow> nat \<Rightarrow> nat \<Rightarrow> bool" where
  "valid_date y m d = (1 \<le> y \<and> y \<le> 9999 \<and> 1 \<le> m \<and> m \<le> 12 \<and> 1 \<le> d \<and> d \<le> days_in_month y m)"

text \<open>The month that day \<open>r\<close> (from 0) of year \<open>y\<close> falls in.\<close>

definition month_of_day :: "nat \<Rightarrow> nat \<Rightarrow> nat" where
  "month_of_day y r = length (takeWhile (\<lambda>m. days_before_month y m \<le> r) [1, 2, 3, 4, 5, 6, 7, 8, 9, 10, 11, 12])"

definition year_of_ordinal :: "nat \<Rightarrow> nat" where
  "year_of_ordinal n =
     (let n0 = n - 1;
          a = n0 div 146097; n1 = n0 mod 146097;
          b = n1 div 36524; n2 = n1 mod 36524;
          c = n2 div 1461; n3 = n2 mod 1461;
          d = n3 div 365;
          y = 400 * a + 100 * b + 4 * c + d + 1
      in if b = 4 \<or> d = 4 then y - 1 else y)"

definition date_of_ordinal :: "nat \<Rightarrow> nat \<times> nat \<times> nat" where
  "date_of_ordinal n =
     (let y = year_of_ordinal n;
          r = n - days_before_year y - 1;
          m = month_of_day y r
      in (y, m, r - days_before_month y m + 1))"

section \<open>Reading and writing instants\<close>

text \<open>
  The expression \<open>_RFC3339_UTC\<close> with \<^verbatim>\<open>fullmatch\<close>: four digits, the fixed
  separators, and an optional fraction of one to six digits before \<^verbatim>\<open>Z\<close>.
\<close>

definition rfc3339_fraction :: "string \<Rightarrow> string option" where
  "rfc3339_fraction t =
     (if t = ''Z'' then Some []
      else if 3 \<le> length t \<and> length t \<le> 8 \<and> hd t = CHR ''.'' \<and> last t = CHR ''Z'' \<and>
        list_all is_digit (butlast (tl t)) then Some (butlast (tl t)) else None)"

definition rfc3339_shape :: "string \<Rightarrow> bool" where
  "rfc3339_shape s =
     (20 \<le> length s \<and>
      list_all (\<lambda>i. is_digit (s ! i)) [0, 1, 2, 3, 5, 6, 8, 9, 11, 12, 14, 15, 17, 18] \<and>
      s ! 4 = CHR ''-'' \<and> s ! 7 = CHR ''-'' \<and> s ! 10 = CHR ''T'' \<and> s ! 13 = CHR '':'' \<and>
      s ! 16 = CHR '':'' \<and> rfc3339_fraction (drop 19 s) \<noteq> None)"

definition num_at :: "string \<Rightarrow> nat \<Rightarrow> nat \<Rightarrow> nat" where
  "num_at s i w = read_nat (take w (drop i s))"

definition fraction_micros :: "string \<Rightarrow> nat" where
  "fraction_micros fr = read_nat (take 6 (fr @ ''000000''))"

definition instant_of_fields :: "nat \<Rightarrow> nat \<Rightarrow> nat \<Rightarrow> nat \<Rightarrow> nat \<Rightarrow> nat \<Rightarrow> nat \<Rightarrow> instant" where
  "instant_of_fields y mo d h mi s us =
     int ((((date_ordinal y mo d * 24 + h) * 60 + mi) * 60 + s) * 1000000 + us)"

text \<open>\<^verbatim>\<open>datetime.fromisoformat(value[:-1] + "+00:00")\<close> on a string of the right shape.\<close>

definition from_isoformat :: "string \<Rightarrow> instant option" where
  "from_isoformat s =
     (let y = num_at s 0 4; mo = num_at s 5 2; d = num_at s 8 2;
          h = num_at s 11 2; mi = num_at s 14 2; sec = num_at s 17 2;
          fr = (case rfc3339_fraction (drop 19 s) of None \<Rightarrow> [] | Some f \<Rightarrow> f)
      in if valid_date y mo d \<and> h < 24 \<and> mi < 60 \<and> sec < 60
         then Some (instant_of_fields y mo d h mi sec (fraction_micros fr)) else None)"

definition seconds :: "int \<Rightarrow> int" where
  "seconds n = n * 1000000"

text \<open>The largest instant a \<^verbatim>\<open>datetime\<close> can hold, 9999-12-31T23:59:59.999999.\<close>

definition max_instant :: instant where
  "max_instant = instant_of_fields 9999 12 31 23 59 59 999999"

definition utc_text :: "instant \<Rightarrow> string" where
  "utc_text i =
     (let n = nat i; us = n mod 1000000; t = n div 1000000;
          s = t mod 60; mi = t div 60 mod 60; h = t div 3600 mod 24;
          (y, mo, d) = date_of_ordinal (t div 86400)
      in show_padded 4 y @ ''-'' @ show_padded 2 mo @ ''-'' @ show_padded 2 d @ ''T'' @
         show_padded 2 h @ '':'' @ show_padded 2 mi @ '':'' @ show_padded 2 s @
         (if us = 0 then '''' else ''.'' @ show_padded 6 us) @ ''Z'')"

section \<open>The calendar functions are inverse\<close>

lemma month_of_day_table:
  assumes "r < 365 + (if leap_year y then 1 else 0)"
  shows "1 \<le> month_of_day y r \<and> month_of_day y r \<le> 12 \<and>
    days_before_month y (month_of_day y r) \<le> r \<and>
    r < days_before_month y (month_of_day y r) + days_in_month y (month_of_day y r)"
proof (cases "leap_year y")
  case True
  with assms show ?thesis
    by (auto simp: month_of_day_def days_before_month_def month_starts_def days_in_month_def)
next
  case False
  with assms show ?thesis
    by (auto simp: month_of_day_def days_before_month_def month_starts_def days_in_month_def)
qed

text \<open>A year in 400-, 100-, 4- and 1-year cycles.\<close>

lemma cycle_quotients:
  assumes "b < 4" and "c < 25" and "d < (4::nat)"
  shows "(400 * a + 100 * b + 4 * c + d) div 4 = 100 * a + 25 * b + c"
    and "(400 * a + 100 * b + 4 * c + d) div 100 = 4 * a + b"
    and "(400 * a + 100 * b + 4 * c + d) div 400 = a"
  using assms by (intro div_nat_eqI; simp)+

lemma days_before_year_cycles:
  assumes "b < 4" and "c < 25" and "d < (4::nat)"
  shows "days_before_year (400 * a + 100 * b + 4 * c + d + 1) =
    146097 * a + 36524 * b + 1461 * c + 365 * d"
  using assms by (simp add: days_before_year_def cycle_quotients)

lemma mod_cycle_zero: "0 < x \<Longrightarrow> x \<le> k \<Longrightarrow> (x + k * q) mod k = 0 \<longleftrightarrow> x = (k::nat)"
  by (cases "x = k") auto

lemma leap_year_cycles:
  assumes "b < 4" and "c < 25" and "d < (4::nat)"
  shows "leap_year (400 * a + 100 * b + 4 * c + d + 1) \<longleftrightarrow> d = 3 \<and> (c \<noteq> 24 \<or> b = 3)"
proof -
  let ?y = "400 * a + 100 * b + 4 * c + d + 1"
  have "?y = (d + 1) + 4 * (100 * a + 25 * b + c)" by simp
  then have "?y mod 4 = 0 \<longleftrightarrow> d = 3"
    using assms mod_cycle_zero [of "d + 1" 4 "100 * a + 25 * b + c"] by (simp only: ) linarith
  moreover have "?y = (4 * c + d + 1) + 100 * (4 * a + b)" by simp
  then have "?y mod 100 = 0 \<longleftrightarrow> d = 3 \<and> c = 24"
    using assms mod_cycle_zero [of "4 * c + d + 1" 100 "4 * a + b"] by (simp only: ) linarith
  moreover have "?y = (100 * b + 4 * c + d + 1) + 400 * a" by simp
  then have "?y mod 400 = 0 \<longleftrightarrow> d = 3 \<and> c = 24 \<and> b = 3"
    using assms mod_cycle_zero [of "100 * b + 4 * c + d + 1" 400 a] by (simp only: ) linarith
  ultimately show ?thesis by (simp only: leap_year_def) blast
qed

text \<open>The day number of a year of a given length.\<close>

definition year_length :: "nat \<Rightarrow> nat" where
  "year_length y = 365 + (if leap_year y then 1 else 0)"

lemma year_of_ordinal_bounds:
  assumes "1 \<le> n"
  shows "1 \<le> year_of_ordinal n \<and> days_before_year (year_of_ordinal n) < n \<and>
    n \<le> days_before_year (year_of_ordinal n) + year_length (year_of_ordinal n)"
proof -
  define n0 where "n0 = n - 1"
  define a where "a = n0 div 146097"
  define n1 where "n1 = n0 mod 146097"
  define b where "b = n1 div 36524"
  define n2 where "n2 = n1 mod 36524"
  define c where "c = n2 div 1461"
  define n3 where "n3 = n2 mod 1461"
  define d where "d = n3 div 365"
  define r where "r = n3 mod 365"
  have n: "n = 146097 * a + 36524 * b + 1461 * c + 365 * d + r + 1"
    using assms by (simp add: n0_def a_def n1_def b_def n2_def c_def n3_def d_def r_def)
  have n1: "n1 < 146097" and n2: "n2 < 36524" and n3: "n3 < 1461" and r: "r < 365"
    by (simp_all add: n1_def n2_def n3_def r_def)
  have split1: "n1 = 36524 * b + n2" and split2: "n2 = 1461 * c + n3" and split3: "n3 = 365 * d + r"
    by (simp_all add: b_def n2_def c_def n3_def d_def r_def)
  have bnds: "b \<le> 4" "c < 25" "d \<le> 4" using n1 n2 n3 split1 split2 split3 by linarith+
  let ?y = "400 * a + 100 * b + 4 * c + d + 1"
  have y: "year_of_ordinal n = (if b = 4 \<or> d = 4 then ?y - 1 else ?y)"
    by (simp add: year_of_ordinal_def Let_def n0_def a_def n1_def b_def n2_def c_def n3_def d_def)
  show ?thesis
  proof (cases "b = 4")
    case True
    then have z: "n2 = 0" using n1 split1 by linarith
    then have "c = 0" "d = 0" "r = 0" using split2 split3 by simp_all
    moreover from True have "year_of_ordinal n = 400 * a + 100 * 3 + 4 * 24 + 3 + 1"
      using y \<open>c = 0\<close> \<open>d = 0\<close> by simp
    ultimately show ?thesis
      using n True days_before_year_cycles [of 3 24 3 a] leap_year_cycles [of 3 24 3 a]
      by (simp add: year_length_def)
  next
    case b: False
    show ?thesis
    proof (cases "d = 4")
      case True
      then have "r = 0" using n3 split3 by linarith
      moreover have "c \<noteq> 24" using True split2 split3 n2 by linarith
      moreover from True have "year_of_ordinal n = 400 * a + 100 * b + 4 * c + 3 + 1"
        using y by simp
      ultimately show ?thesis
        using n True b bnds days_before_year_cycles [of b c 3 a] leap_year_cycles [of b c 3 a]
        by (simp add: year_length_def)
    next
      case False
      with y b have "year_of_ordinal n = ?y" by simp
      then show ?thesis
        using n False b bnds r days_before_year_cycles [of b c d a]
        by (simp add: year_length_def)
    qed
  qed
qed

lemma date_of_ordinal_inverse:
  assumes "1 \<le> n" and "date_of_ordinal n = (y, m, d)"
  shows "date_ordinal y m d = n \<and> 1 \<le> y \<and> 1 \<le> m \<and> m \<le> 12 \<and> 1 \<le> d \<and> d \<le> days_in_month y m"
proof -
  let ?r = "n - days_before_year y - 1"
  from assms(2) have y: "y = year_of_ordinal n" and m: "m = month_of_day y ?r"
    and d: "d = ?r - days_before_month y m + 1"
    by (auto simp: date_of_ordinal_def Let_def)
  from year_of_ordinal_bounds [OF assms(1)] y have yb: "1 \<le> y" "days_before_year y < n"
    "n \<le> days_before_year y + year_length y" by simp_all
  then have "?r < 365 + (if leap_year y then 1 else 0)" by (simp add: year_length_def)
  from month_of_day_table [OF this] m have mb: "1 \<le> m" "m \<le> 12" "days_before_month y m \<le> ?r"
    "?r < days_before_month y m + days_in_month y m" by simp_all
  with d yb show ?thesis by (simp add: date_ordinal_def)
qed

lemma days_before_late_year:
  assumes "9999 \<le> (p::nat)"
  shows "3652059 \<le> p * 365 + p div 4 - p div 100 + p div 400"
proof -
  have q: "p div 100 = p div 4 div 25" by (simp add: div_mult2_eq [symmetric])
  from assms have "9999 div 4 \<le> p div 4" by (rule div_le_mono)
  then have "2499 \<le> p div 4" by simp
  moreover have "2499 \<le> k \<Longrightarrow> 2400 \<le> k - k div 25" for k :: nat by linarith
  ultimately have "2400 \<le> p div 4 - p div 4 div 25" by blast
  moreover from assms have "9999 div 400 \<le> p div 400" by (rule div_le_mono)
  then have "24 \<le> p div 400" by simp
  ultimately show ?thesis using assms unfolding q by linarith
qed

lemma year_of_ordinal_le:
  assumes "1 \<le> n" and "n \<le> 3652059"
  shows "year_of_ordinal n \<le> 9999"
proof (rule ccontr)
  assume "\<not> ?thesis"
  then have "9999 \<le> year_of_ordinal n - 1" by simp
  from days_before_late_year [OF this] have "3652059 \<le> days_before_year (year_of_ordinal n)"
    by (simp only: days_before_year_def Let_def)
  with year_of_ordinal_bounds [OF assms(1)] assms(2) show False by linarith
qed

section \<open>Writing an instant and reading it back\<close>

lemma max_instant_value: "max_instant = 315537983999999999"
  by (simp add: max_instant_def instant_of_fields_def date_ordinal_def days_before_year_def
      days_before_month_def month_starts_def leap_year_def)

lemma digits_of_length:
  "length s = 2 \<longleftrightarrow> (\<exists>a b. s = [a, b])"
  "length s = 4 \<longleftrightarrow> (\<exists>a b c d. s = [a, b, c, d])"
  by (auto simp: length_Suc_conv eval_nat_numeral)

text \<open>A text assembled from its fields is of the right shape and reads back as them.\<close>

lemma assembled_text:
  assumes s: "s = ys @ ''-'' @ mos @ ''-'' @ ds @ ''T'' @ hs @ '':'' @ mis @ '':'' @ ss @ t"
    and len: "length ys = 4" "length mos = 2" "length ds = 2" "length hs = 2" "length mis = 2" "length ss = 2"
    and dig: "list_all is_digit (ys @ mos @ ds @ hs @ mis @ ss)"
    and fr: "rfc3339_fraction t = Some fr"
  shows "rfc3339_shape s"
    and "num_at s 0 4 = read_nat ys" "num_at s 5 2 = read_nat mos" "num_at s 8 2 = read_nat ds"
      "num_at s 11 2 = read_nat hs" "num_at s 14 2 = read_nat mis" "num_at s 17 2 = read_nat ss"
      "drop 19 s = t"
proof -
  have t: "t \<noteq> []" using fr by (auto simp: rfc3339_fraction_def)
  obtain y1 y2 y3 y4 m1 m2 d1 d2 h1 h2 n1 n2 s1 s2 where
    e: "ys = [y1, y2, y3, y4]" "mos = [m1, m2]" "ds = [d1, d2]" "hs = [h1, h2]" "mis = [n1, n2]" "ss = [s1, s2]"
    using len unfolding digits_of_length by blast
  show "rfc3339_shape s" using dig fr t unfolding s e
    by (cases t) (simp_all add: rfc3339_shape_def)
  show "num_at s 0 4 = read_nat ys" "num_at s 5 2 = read_nat mos" "num_at s 8 2 = read_nat ds"
    "num_at s 11 2 = read_nat hs" "num_at s 14 2 = read_nat mis" "num_at s 17 2 = read_nat ss"
    "drop 19 s = t"
    unfolding s e by (simp_all add: num_at_def)
qed

lemma fraction_of_micros:
  assumes "us < 1000000"
  shows "\<exists>fr. rfc3339_fraction ((if us = 0 then '''' else ''.'' @ show_padded 6 us) @ ''Z'') = Some fr \<and>
    fraction_micros fr = us"
proof (cases "us = 0")
  case True
  then show ?thesis by (simp add: rfc3339_fraction_def fraction_micros_def read_nat_def digit_value_def)
next
  case False
  have "butlast (show_padded 6 us @ ''Z'') = show_padded 6 us" by simp
  moreover have "read_nat (show_padded 6 us) = us"
    by (rule read_show_padded) (use assms in simp)
  ultimately show ?thesis using False
    by (auto simp: rfc3339_fraction_def fraction_micros_def show_padded_digits)
qed

theorem read_utc_text:
  assumes "seconds 86400 \<le> i" and "i \<le> max_instant"
  shows "rfc3339_shape (utc_text i) \<and> from_isoformat (utc_text i) = Some i"
proof -
  define n where "n = nat i"
  define t where "t = n div 1000000"
  define us where "us = n mod 1000000"
  define se where "se = t mod 60"
  define mi where "mi = t div 60 mod 60"
  define h where "h = t div 3600 mod 24"
  define q where "q = t div 86400"
  obtain y mo d where ymd: "date_of_ordinal q = (y, mo, d)" by (metis prod_cases3)
  have i: "i = int n" using assms(1) by (simp add: n_def seconds_def)
  have "86400 \<le> t" "t \<le> 315537983999"
    using assms unfolding t_def i seconds_def max_instant_value by linarith+
  then have q: "1 \<le> q" "q \<le> 3652059" unfolding q_def by linarith+
  from date_of_ordinal_inverse [OF q(1) ymd] year_of_ordinal_le [OF q] ymd
  have ord: "date_ordinal y mo d = q" and vd: "valid_date y mo d"
    by (auto simp: valid_date_def date_of_ordinal_def Let_def)
  have "t div 3600 = t div 60 div 60" "q = t div 3600 div 24"
    by (simp_all add: q_def flip: div_mult2_eq)
  then have "t = 60 * (t div 60) + se" "t div 60 = 60 * (t div 3600) + mi" "t div 3600 = 24 * q + h"
    by (simp_all add: se_def mi_def h_def)
  moreover have "t = 60 * u + se \<Longrightarrow> u = 60 * v + mi \<Longrightarrow> v = 24 * q + h \<Longrightarrow>
      t = ((q * 24 + h) * 60 + mi) * 60 + se" for u v by simp
  ultimately have t: "t = ((q * 24 + h) * 60 + mi) * 60 + se" by blast
  have n: "n = t * 1000000 + us" by (simp add: t_def us_def)
  have lt: "h < 24" "mi < 60" "se < 60" "us < 1000000"
    by (simp_all add: h_def mi_def se_def us_def)
  obtain fr where fr: "rfc3339_fraction ((if us = 0 then '''' else ''.'' @ show_padded 6 us) @ ''Z'') = Some fr"
    "fraction_micros fr = us"
    using fraction_of_micros [OF lt(4)] by blast
  have dm: "mo < 100" "d < 100" "y < 10000"
    using vd by (auto simp: valid_date_def days_in_month_def split: if_splits)
  have assembled: "utc_text i = show_padded 4 y @ ''-'' @ show_padded 2 mo @ ''-'' @ show_padded 2 d @ ''T'' @
      show_padded 2 h @ '':'' @ show_padded 2 mi @ '':'' @ show_padded 2 se @
      ((if us = 0 then '''' else ''.'' @ show_padded 6 us) @ ''Z'')"
    by (simp add: utc_text_def Let_def ymd n_def [symmetric] t_def [symmetric] us_def [symmetric]
        se_def [symmetric] mi_def [symmetric] h_def [symmetric] q_def [symmetric])
  note parts = assembled_text [OF assembled _ _ _ _ _ _ _ fr(1)]
  have pad: "read_nat (show_padded 4 y) = y" "read_nat (show_padded 2 mo) = mo"
    "read_nat (show_padded 2 d) = d" "read_nat (show_padded 2 h) = h"
    "read_nat (show_padded 2 mi) = mi" "read_nat (show_padded 2 se) = se"
    using dm lt by (simp_all add: read_show_padded)
  have "from_isoformat (utc_text i) = Some (instant_of_fields y mo d h mi se us)"
    using vd lt by (simp add: from_isoformat_def Let_def parts show_padded_digits pad fr)
  also have "instant_of_fields y mo d h mi se us = i"
    by (simp add: instant_of_fields_def ord i n t)
  finally show ?thesis by (simp add: parts(1) show_padded_digits)
qed

section \<open>The range of instants\<close>

lemma month_end: "1 \<le> m \<Longrightarrow> m \<le> 12 \<Longrightarrow> days_before_month y m + days_in_month y m \<le> 365 + (if leap_year y then 1 else 0)"
proof -
  assume "1 \<le> m" "m \<le> 12"
  then have "m = 1 \<or> m = 2 \<or> m = 3 \<or> m = 4 \<or> m = 5 \<or> m = 6 \<or> m = 7 \<or> m = 8 \<or> m = 9 \<or> m = 10 \<or> m = 11 \<or> m = 12"
    by presburger
  then show ?thesis by (auto simp: days_before_month_def month_starts_def days_in_month_def)
qed

lemma leap_days:
  assumes "p \<le> (9998::nat)"
  shows "p div 4 - p div 100 + p div 400 \<le> 2424"
proof -
  define q where "q = p div 100"
  define r where "r = p mod 100"
  have p: "p = 100 * q + r" "r < 100" by (simp_all add: q_def r_def)
  have "p div 400 = q div 4" by (simp add: q_def div_mult2_eq [symmetric])
  moreover have "p div 4 = 25 * q + r div 4" unfolding p(1) by simp
  moreover have "q \<le> 99" "r < 100" using assms p by auto
  moreover have "r div 4 \<le> 24" "q div 4 \<le> 24" using calculation(3,4) by simp_all
  ultimately show ?thesis unfolding q_def [symmetric] by linarith
qed

lemma date_ordinal_bounds:
  assumes "valid_date y m d"
  shows "1 \<le> date_ordinal y m d" and "date_ordinal y m d \<le> 3652059"
proof -
  have v: "1 \<le> y" "y \<le> 9999" "1 \<le> m" "m \<le> 12" "1 \<le> d" "d \<le> days_in_month y m"
    using assms by (auto simp: valid_date_def)
  show "1 \<le> date_ordinal y m d" using v by (simp add: date_ordinal_def)
  have "days_before_month y m + d \<le> 365 + (if leap_year y then 1 else 0)" using month_end [OF v(3,4), of y] v(6) by linarith
  moreover have "days_before_year y \<le> (y - 1) * 365 + 2424"
  proof -
    have "(y - 1) div 100 \<le> (y - 1) div 4" by (rule div_le_mono2) simp_all
    moreover have "b \<le> a \<Longrightarrow> a - b + c \<le> 2424 \<Longrightarrow> k + a - b + c \<le> k + 2424" for a b c k :: nat
      by simp
    moreover have "(y - 1) div 4 - (y - 1) div 100 + (y - 1) div 400 \<le> 2424"
      by (rule leap_days) (use v(2) in simp)
    ultimately show ?thesis unfolding days_before_year_def Let_def by blast
  qed
  moreover have "y \<le> 9996" if "leap_year y"
  proof -
    have "y = 4 * (y div 4)" using that by (auto simp: leap_year_def)
    moreover have "y div 4 \<le> 2499" using v(2) by simp
    ultimately show ?thesis by linarith
  qed
  ultimately show "date_ordinal y m d \<le> 3652059" using v(1,2) by (auto simp: date_ordinal_def split: if_splits)
qed

lemma read_nat_bound: "list_all is_digit s \<Longrightarrow> read_nat s < 10 ^ length s"
proof (induction s rule: rev_induct)
  case Nil
  then show ?case by (simp add: read_nat_def)
next
  case (snoc c s)
  then have "digit_value c \<le> 9" by (auto simp: is_digit_def digit_value_def)
  with snoc show ?case by (simp add: read_nat_snoc)
qed

lemma fraction_micros_bound:
  assumes "rfc3339_fraction t = Some fr"
  shows "fraction_micros fr < 1000000"
proof -
  have "list_all is_digit fr" using assms by (auto simp: rfc3339_fraction_def split: if_splits)
  then have d: "list_all is_digit (take 6 (fr @ ''000000''))"
    by (auto simp: list_all_iff is_digit_def dest!: in_set_takeD)
  have "length (take 6 (fr @ ''000000'')) = 6" by simp
  with read_nat_bound [OF d] show ?thesis by (simp add: fraction_micros_def)
qed

text \<open>Every instant read lies between the first and the last a datetime can hold.\<close>

lemma from_isoformat_bounds:
  assumes "from_isoformat s = Some i"
  shows "seconds 86400 \<le> i" and "i \<le> max_instant"
proof -
  define fr where "fr = (case rfc3339_fraction (drop 19 s) of None \<Rightarrow> [] | Some f \<Rightarrow> f)"
  have us: "fraction_micros fr < 1000000"
  proof (cases "rfc3339_fraction (drop 19 s)")
    case None
    then show ?thesis by (simp add: fr_def fraction_micros_def read_nat_def digit_value_def)
  next
    case (Some f)
    then show ?thesis using fraction_micros_bound [OF Some] by (simp add: fr_def)
  qed
  obtain y mo d h mi se where v: "valid_date y mo d" "h < 24" "mi < 60" "se < 60"
    and i: "i = instant_of_fields y mo d h mi se (fraction_micros fr)"
    using assms by (auto simp: from_isoformat_def Let_def fr_def split: if_splits)
  note b = date_ordinal_bounds [OF v(1)]
  show "seconds 86400 \<le> i" using b(1) unfolding i instant_of_fields_def seconds_def by simp
  have "(((date_ordinal y mo d * 24 + h) * 60 + mi) * 60 + se) * 1000000 + fraction_micros fr \<le> 315537983999999999"
  proof -
    have "h \<le> 23" "mi \<le> 59" "se \<le> 59" "fraction_micros fr \<le> 999999" using v us by simp_all
    moreover from this b(2) have "date_ordinal y mo d * 24 + h \<le> 87649439" by simp
    moreover from this \<open>mi \<le> 59\<close> have "(date_ordinal y mo d * 24 + h) * 60 + mi \<le> 5258966399" by simp
    moreover from this \<open>se \<le> 59\<close> have "((date_ordinal y mo d * 24 + h) * 60 + mi) * 60 + se \<le> 315537983999" by simp
    ultimately show ?thesis by simp
  qed
  then show "i \<le> max_instant" unfolding i instant_of_fields_def max_instant_value by linarith
qed

end
