(* ===== verification/Resource_Checks.thy ===== *)
theory Resource_Checks
  imports Py_Json Py_Datetime
begin

text \<open>
  The exceptions and the field validators of \<^verbatim>\<open>lakatos/resource_coordination.py\<close>
  (and of \<^verbatim>\<open>lakatos/resource_execution.py\<close>, which repeats the validators with its own
  messages). A rejection is a value of \<open>rejection\<close>, one constructor per subclass of
  \<^verbatim>\<open>ResourceRejection\<close>; every other exception is a constructor of \<open>lk_error\<close>.
  HOL's types discharge the \<^verbatim>\<open>isinstance\<close> tests of the source. Each validator has
  the predicate it decides, in \<open>check_simps\<close>.
\<close>

section \<open>Exceptions\<close>

datatype rejection =
    ResourceRejection string string "string list"
  | CapacityExceeded "string list"
  | IdempotencyConflict string
  | InvalidTransition string
  | UnknownGrant string
  | BudgetFrozen

fun rejection_code :: "rejection \<Rightarrow> string" where
  "rejection_code (ResourceRejection c m ds) = c"
| "rejection_code (CapacityExceeded ds) = ''CAP_EXCEEDED''"
| "rejection_code (IdempotencyConflict i) = ''IDEMPOTENCY_CONFLICT''"
| "rejection_code (InvalidTransition m) = ''INVALID_TRANSITION''"
| "rejection_code (UnknownGrant g) = ''GRANT_NOT_FOUND''"
| "rejection_code BudgetFrozen = ''BUDGET_FROZEN''"

fun rejection_message :: "rejection \<Rightarrow> string" where
  "rejection_message (ResourceRejection c m ds) = m"
| "rejection_message (CapacityExceeded ds) = ''resource capacity exceeded: '' @ str_join '', '' ds"
| "rejection_message (IdempotencyConflict i) =
     ''command_id was reused with a different payload: '' @ i"
| "rejection_message (InvalidTransition m) = m"
| "rejection_message (UnknownGrant g) = ''resource grant not found: '' @ g"
| "rejection_message BudgetFrozen = ''resource budget is frozen''"

fun rejection_dimensions :: "rejection \<Rightarrow> string list" where
  "rejection_dimensions (ResourceRejection c m ds) = ds"
| "rejection_dimensions (CapacityExceeded ds) = ds"
| "rejection_dimensions _ = []"

datatype lk_error =
    ValueError string
  | TypeError string
  | OverflowError string
  | Rejection rejection
  | UnconfirmedResourceAuthority string
  | StaleResourceAuthority string
  | InvalidWorkloadDispatchIntent string
  | StaleWorkloadDispatchPermit string
  | ExpiredWorkloadDispatchPermit string

abbreviation invalid_transition :: "string \<Rightarrow> lk_error" where
  "invalid_transition m \<equiv> Rejection (InvalidTransition m)"

section \<open>Validators\<close>

definition SCHEMA_VERSION :: string where
  "SCHEMA_VERSION = ''lakatotree.resource/v1''"

definition canonical_sha :: "json \<Rightarrow> string" where
  "canonical_sha payload = sha256_hex (json_bytes payload)"

definition check_identifier :: "string \<Rightarrow> string \<Rightarrow> lk_error + unit" where
  "check_identifier v label =
     (if v = [] \<or> 256 < length v
      then Inl (ValueError (label @ '' must be a non-empty string of at most 256 characters''))
      else if \<not> str_isprintable v
      then Inl (ValueError (label @ '' must contain printable characters only''))
      else Inr ())"

definition check_sha256 :: "string \<Rightarrow> string \<Rightarrow> lk_error + unit" where
  "check_sha256 v label =
     raise_if (length v \<noteq> 64 \<or> v \<noteq> str_lower v \<or> list_ex (\<lambda>c. c \<notin> set hexdigits) v)
       (ValueError (label @ '' must be a canonical lowercase hexadecimal SHA-256''))"

definition check_recorded_text :: "string \<Rightarrow> string \<Rightarrow> lk_error + unit" where
  "check_recorded_text v label =
     raise_if (v = [] \<or> \<not> str_isprintable v)
       (ValueError (label @ '' must be a non-empty recorded string''))"

definition check_integer :: "int \<Rightarrow> string \<Rightarrow> int \<Rightarrow> lk_error + unit" where
  "check_integer v label least =
     raise_if (v < least) (ValueError (label @ '' must be an integer >= '' @ show_int least))"

definition check_schema :: "string \<Rightarrow> string \<Rightarrow> lk_error + unit" where
  "check_schema v label =
     raise_if (v \<noteq> SCHEMA_VERSION) (ValueError (''unsupported '' @ label @ '' schema: '' @ v))"

definition utc_instant :: "string \<Rightarrow> string \<Rightarrow> lk_error + instant" where
  "utc_instant v label =
     (if \<not> rfc3339_shape v
      then Inl (ValueError (label @ '' must be an RFC3339 UTC timestamp ending in Z''))
      else case from_isoformat v of
        None \<Rightarrow> Inl (ValueError (label @ '' must be a valid RFC3339 UTC timestamp''))
      | Some i \<Rightarrow> Inr i)"

section \<open>What the validators decide\<close>

definition identifier_ok :: "string \<Rightarrow> bool" where
  "identifier_ok v = (v \<noteq> [] \<and> length v \<le> 256 \<and> str_isprintable v)"

definition sha256_ok :: "string \<Rightarrow> bool" where
  "sha256_ok v = (length v = 64 \<and> v = str_lower v \<and> list_all (\<lambda>c. c \<in> set hexdigits) v)"

definition recorded_text_ok :: "string \<Rightarrow> bool" where
  "recorded_text_ok v = (v \<noteq> [] \<and> str_isprintable v)"

definition instant_ok :: "string \<Rightarrow> bool" where
  "instant_ok v = (rfc3339_shape v \<and> from_isoformat v \<noteq> None)"

definition instant_of :: "string \<Rightarrow> instant" where
  "instant_of v = (case from_isoformat v of None \<Rightarrow> 0 | Some i \<Rightarrow> i)"

lemma check_identifier_Inr [check_simps]: "check_identifier v l = Inr u \<longleftrightarrow> identifier_ok v"
  by (auto simp: check_identifier_def identifier_ok_def)

lemma check_sha256_Inr [check_simps]: "check_sha256 v l = Inr u \<longleftrightarrow> sha256_ok v"
  by (auto simp: check_sha256_def sha256_ok_def raise_if_def list_ex_iff list_all_iff)

lemma check_recorded_text_Inr [check_simps]:
  "check_recorded_text v l = Inr u \<longleftrightarrow> recorded_text_ok v"
  by (auto simp: check_recorded_text_def recorded_text_ok_def raise_if_def)

lemma check_integer_Inr [check_simps]: "check_integer v l m = Inr u \<longleftrightarrow> m \<le> v"
  by (auto simp: check_integer_def raise_if_def)

lemma check_schema_Inr [check_simps]: "check_schema v l = Inr u \<longleftrightarrow> v = SCHEMA_VERSION"
  by (auto simp: check_schema_def raise_if_def)

lemma utc_instant_Inr [check_simps]:
  "utc_instant v l = Inr i \<longleftrightarrow> instant_ok v \<and> i = instant_of v"
  by (auto simp: utc_instant_def instant_ok_def instant_of_def split: option.splits)

lemma utc_instant_ok: "instant_ok v \<Longrightarrow> utc_instant v l = Inr (instant_of v)"
  by (simp add: check_simps)

lemma sha256_ok_canonical_sha [simp]: "sha256_ok (canonical_sha j)"
  by (simp add: sha256_ok_def canonical_sha_def)

lemma canonical_sha_not_Nil [simp]: "canonical_sha j \<noteq> []"
  by (simp add: canonical_sha_def)

lemma identifier_ok_recorded: "identifier_ok v \<Longrightarrow> recorded_text_ok v"
  by (simp add: identifier_ok_def recorded_text_ok_def)

end
