(* ===== verification/Resource_Vector.thy ===== *)
theory Resource_Vector
  imports Resource_Checks
begin

text \<open>
  \<^verbatim>\<open>ResourceVector\<close>: the closed three-dimensional resource vector. Its constructor
  \<open>mk_resource_vector\<close> refuses a negative component, so the type carries naturals; the
  class instances make it a cancellative ordered commutative monoid, componentwise, and
  the kernel's accounting is arithmetic in it.
\<close>

section \<open>The type and its operations\<close>

datatype resource_vector = ResourceVector
  (compute_wall_ms: nat) (llm_input_tokens: nat) (llm_output_tokens: nat)

definition DIMENSIONS :: "string list" where
  "DIMENSIONS = [''compute.wall_ms'', ''llm.input_tokens'', ''llm.output_tokens'']"

definition mk_resource_vector :: "int \<Rightarrow> int \<Rightarrow> int \<Rightarrow> lk_error + resource_vector" where
  "mk_resource_vector c i out =
     ebind (run_checks
       [check_integer c ''compute.wall_ms'' 0,
        check_integer i ''llm.input_tokens'' 0,
        check_integer out ''llm.output_tokens'' 0])
     (\<lambda>_. Inr (ResourceVector (nat c) (nat i) (nat out)))"

instantiation resource_vector :: comm_monoid_add
begin

definition zero_resource_vector :: resource_vector where
  "zero_resource_vector = ResourceVector 0 0 0"

definition plus_resource_vector :: "resource_vector \<Rightarrow> resource_vector \<Rightarrow> resource_vector" where
  "plus_resource_vector v w =
     ResourceVector
       (compute_wall_ms v + compute_wall_ms w)
       (llm_input_tokens v + llm_input_tokens w)
       (llm_output_tokens v + llm_output_tokens w)"

instance
  by standard (auto simp: plus_resource_vector_def zero_resource_vector_def)

end

text \<open>\<^verbatim>\<open>saturating_subtract\<close> is the truncating difference.\<close>

instantiation resource_vector :: cancel_comm_monoid_add
begin

definition minus_resource_vector :: "resource_vector \<Rightarrow> resource_vector \<Rightarrow> resource_vector" where
  "minus_resource_vector v w =
     ResourceVector
       (compute_wall_ms v - compute_wall_ms w)
       (llm_input_tokens v - llm_input_tokens w)
       (llm_output_tokens v - llm_output_tokens w)"

instance
  by standard (auto simp: plus_resource_vector_def minus_resource_vector_def)

end

instantiation resource_vector :: ordered_ab_semigroup_add
begin

definition less_eq_resource_vector :: "resource_vector \<Rightarrow> resource_vector \<Rightarrow> bool" where
  "less_eq_resource_vector v w \<longleftrightarrow>
     compute_wall_ms v \<le> compute_wall_ms w \<and> llm_input_tokens v \<le> llm_input_tokens w \<and>
     llm_output_tokens v \<le> llm_output_tokens w"

definition less_resource_vector :: "resource_vector \<Rightarrow> resource_vector \<Rightarrow> bool" where
  "less_resource_vector v w \<longleftrightarrow> v \<le> w \<and> \<not> w \<le> v"

instance
  by standard
    (auto simp: less_eq_resource_vector_def less_resource_vector_def plus_resource_vector_def
      resource_vector.expand)

end

definition vector_to_dict :: "resource_vector \<Rightarrow> json" where
  "vector_to_dict v = JObj
     [(''compute.wall_ms'', JInt (int (compute_wall_ms v))),
      (''llm.input_tokens'', JInt (int (llm_input_tokens v))),
      (''llm.output_tokens'', JInt (int (llm_output_tokens v)))]"

definition vector_items :: "resource_vector \<Rightarrow> (string \<times> nat) list" where
  "vector_items v =
     zip DIMENSIONS [compute_wall_ms v, llm_input_tokens v, llm_output_tokens v]"

definition vector_value :: "resource_vector \<Rightarrow> string \<Rightarrow> lk_error + nat" where
  "vector_value v d =
     (case map_of (vector_items v) d of
        None \<Rightarrow> Inl (ValueError (''unknown resource dimension: '' @ d))
      | Some n \<Rightarrow> Inr n)"

text \<open>\<^verbatim>\<open>from_dict\<close>, on an association list of the dict's items.\<close>

definition vector_from_dict :: "(string \<times> int) list \<Rightarrow> lk_error + resource_vector" where
  "vector_from_dict kvs =
     (let unknown = set (map fst kvs) - set DIMENSIONS;
          at = (\<lambda>k. case map_of kvs k of None \<Rightarrow> 0 | Some n \<Rightarrow> n)
      in if unknown \<noteq> {}
         then Inl (ValueError (''unknown resource dimensions: '' @
           repr_str_list (sorted_list_of_set unknown)))
         else mk_resource_vector (at ''compute.wall_ms'') (at ''llm.input_tokens'') (at ''llm.output_tokens''))"

text \<open>\<^verbatim>\<open>subtract\<close> raises instead of going below zero on any axis.\<close>

definition vector_subtract :: "resource_vector \<Rightarrow> resource_vector \<Rightarrow> lk_error + resource_vector" where
  "vector_subtract v w =
     (let values = map2 (\<lambda>a b. int a - int b) (map snd (vector_items v)) (map snd (vector_items w))
      in ebind (raise_if (list_ex (\<lambda>x. x < 0) values)
           (ValueError ''resource subtraction would produce a negative quantity''))
         (\<lambda>_. mk_resource_vector (values ! 0) (values ! 1) (values ! 2)))"

fun exceeds_on :: "resource_vector \<Rightarrow> resource_vector \<Rightarrow> string list \<Rightarrow> lk_error + string list" where
  "exceeds_on v w [] = Inr []"
| "exceeds_on v w (d # ds) =
     ebind (vector_value v d) (\<lambda>a.
     ebind (vector_value w d) (\<lambda>b.
     ebind (exceeds_on v w ds) (\<lambda>rest.
     Inr (if a > b then d # rest else rest))))"

text \<open>With the default \<^verbatim>\<open>dimensions\<close>, no lookup can fail.\<close>

definition exceeds :: "resource_vector \<Rightarrow> resource_vector \<Rightarrow> string list" where
  "exceeds v w = (case exceeds_on v w DIMENSIONS of Inl _ \<Rightarrow> [] | Inr ds \<Rightarrow> ds)"

definition is_zero :: "resource_vector \<Rightarrow> bool" where
  "is_zero v = list_all (\<lambda>(d, n). n = 0) (vector_items v)"

section \<open>Their laws\<close>

lemma vector_le_refl [simp]: "(v :: resource_vector) \<le> v"
  by simp

lemma vector_zero_le [simp]: "(0 :: resource_vector) \<le> v"
  by (simp add: less_eq_resource_vector_def zero_resource_vector_def)

lemma vector_le_add [simp]: "(v :: resource_vector) \<le> v + w"
  by (simp add: less_eq_resource_vector_def plus_resource_vector_def)

lemma vector_le_add_left [simp]: "(v :: resource_vector) \<le> w + v"
  by (simp add: less_eq_resource_vector_def plus_resource_vector_def)

lemma vector_le_minus_iff:
  assumes "(w :: resource_vector) \<le> c"
  shows "v \<le> c - w \<longleftrightarrow> w + v \<le> c"
  using assms
  by (auto simp: less_eq_resource_vector_def plus_resource_vector_def minus_resource_vector_def)

lemma vector_minus_add: "(w :: resource_vector) \<le> v \<Longrightarrow> v - w + w = v"
  by (auto simp: less_eq_resource_vector_def plus_resource_vector_def minus_resource_vector_def
      resource_vector.expand)

lemma vector_selectors [simp]:
  "compute_wall_ms (v + w) = compute_wall_ms v + compute_wall_ms w"
  "llm_input_tokens (v + w) = llm_input_tokens v + llm_input_tokens w"
  "llm_output_tokens (v + w) = llm_output_tokens v + llm_output_tokens w"
  "compute_wall_ms 0 = 0" "llm_input_tokens 0 = 0" "llm_output_tokens 0 = 0"
  by (simp_all add: plus_resource_vector_def zero_resource_vector_def)

lemma is_zero_iff [simp]: "is_zero v \<longleftrightarrow> v = 0"
  by (cases v) (auto simp: is_zero_def vector_items_def DIMENSIONS_def zero_resource_vector_def)

lemma exceeds_on_DIMENSIONS: "exceeds_on v w DIMENSIONS = Inr (exceeds v w)"
  by (simp add: exceeds_def DIMENSIONS_def vector_value_def vector_items_def)

lemma exceeds_eq:
  "exceeds v w =
     (if compute_wall_ms v > compute_wall_ms w then [''compute.wall_ms''] else []) @
     (if llm_input_tokens v > llm_input_tokens w then [''llm.input_tokens''] else []) @
     (if llm_output_tokens v > llm_output_tokens w then [''llm.output_tokens''] else [])"
  by (simp add: exceeds_def DIMENSIONS_def vector_value_def vector_items_def)

lemma exceeds_Nil_iff: "exceeds v w = [] \<longleftrightarrow> v \<le> w"
  by (auto simp: exceeds_eq less_eq_resource_vector_def)

lemma exceeds_dimensions: "set (exceeds v w) \<subseteq> set DIMENSIONS" "distinct (exceeds v w)"
  by (auto simp: exceeds_eq DIMENSIONS_def)

lemma mk_resource_vector_Inr:
  "mk_resource_vector c i out = Inr v \<longleftrightarrow>
     0 \<le> c \<and> 0 \<le> i \<and> 0 \<le> out \<and> v = ResourceVector (nat c) (nat i) (nat out)"
  by (auto simp: mk_resource_vector_def result_simps check_simps)

lemma vector_subtract_Inr:
  "vector_subtract v w = Inr u \<longleftrightarrow> w \<le> v \<and> u = v - w"
  by (cases v; cases w)
    (auto simp: vector_subtract_def vector_items_def DIMENSIONS_def Let_def result_simps check_simps
      mk_resource_vector_Inr less_eq_resource_vector_def minus_resource_vector_def)

lemma vector_from_dict_to_dict:
  "vector_from_dict (map (\<lambda>(k, n). (k, int n)) (vector_items v)) = Inr v"
  by (cases v) (simp add: vector_from_dict_def vector_items_def DIMENSIONS_def mk_resource_vector_Inr)

lemma sum_list_vector_mono:
  fixes f :: "'a \<Rightarrow> resource_vector"
  assumes "\<And>x. x \<in> set xs \<Longrightarrow> f x \<le> g x"
  shows "sum_list (map f xs) \<le> sum_list (map g xs)"
  using assms by (induction xs) (auto intro!: add_mono)

lemma member_le_sum_vector: "x \<in> set xs \<Longrightarrow> f x \<le> (sum_list (map f xs) :: resource_vector)"
proof (induction xs)
  case (Cons y ys)
  then show ?case by (auto intro: order_trans [OF _ vector_le_add_left])
qed simp

end
