(* ===== verification/Resource_Model.thy ===== *)
theory Resource_Model
  imports Resource_Vector
begin

text \<open>
  The values of \<^verbatim>\<open>lakatos/resource_coordination.py\<close>: budgets, estimates, usage
  evidence, the six commands, grants, receipts and transitions. A dataclass is a record;
  its \<^verbatim>\<open>__post_init__\<close> is \<open>post_init_\<dots>\<close>, its constructor \<open>mk_\<dots>\<close> (the value, or the
  exception), its \<^verbatim>\<open>to_dict\<close> is \<open>\<dots>_to_dict\<close>. Each \<open>post_init\<close> has the predicate
  it decides, \<open>\<dots>_ok\<close>.
\<close>

section \<open>Statuses\<close>

datatype budget_status = ACTIVE | FROZEN

datatype grant_status =
    RESERVED | IN_USE | SETTLED | CANCELLED_UNUSED | EXPIRED_UNUSED | CANCEL_PENDING
  | CANCELLED_SETTLED | RECONCILIATION_REQUIRED | QUARANTINED_OVERRUN

fun budget_status_value :: "budget_status \<Rightarrow> string" where
  "budget_status_value ACTIVE = ''ACTIVE''"
| "budget_status_value FROZEN = ''FROZEN''"

fun grant_status_value :: "grant_status \<Rightarrow> string" where
  "grant_status_value RESERVED = ''RESERVED''"
| "grant_status_value IN_USE = ''IN_USE''"
| "grant_status_value SETTLED = ''SETTLED''"
| "grant_status_value CANCELLED_UNUSED = ''CANCELLED_UNUSED''"
| "grant_status_value EXPIRED_UNUSED = ''EXPIRED_UNUSED''"
| "grant_status_value CANCEL_PENDING = ''CANCEL_PENDING''"
| "grant_status_value CANCELLED_SETTLED = ''CANCELLED_SETTLED''"
| "grant_status_value RECONCILIATION_REQUIRED = ''RECONCILIATION_REQUIRED''"
| "grant_status_value QUARANTINED_OVERRUN = ''QUARANTINED_OVERRUN''"

definition holds_reservation :: "grant_status \<Rightarrow> bool" where
  "holds_reservation st = (st \<in> set [RESERVED, IN_USE, CANCEL_PENDING, RECONCILIATION_REQUIRED])"

definition charged :: "grant_status \<Rightarrow> bool" where
  "charged st = (st \<in> set [SETTLED, CANCELLED_SETTLED, QUARANTINED_OVERRUN])"

definition post_start :: "grant_status \<Rightarrow> bool" where
  "post_start st = (st \<in> set [IN_USE, CANCEL_PENDING, RECONCILIATION_REQUIRED] \<or> charged st)"

lemma grant_status_value_printable [simp]: "str_isprintable (grant_status_value st)"
  by (cases st) (simp_all add: str_isprintable_def printable_char_def)

section \<open>Budgets, estimates, usage\<close>

record resource_budget =
  b_budget_id :: string
  b_scope :: string
  b_epoch :: int
  b_hard_caps :: resource_vector
  b_schema_version :: string

definition post_init_budget :: "resource_budget \<Rightarrow> lk_error + unit" where
  "post_init_budget b = run_checks
     [check_schema (b_schema_version b) ''budget'',
      check_identifier (b_budget_id b) ''budget_id'',
      check_identifier (b_scope b) ''scope'',
      check_integer (b_epoch b) ''epoch'' 1]"

definition mk_budget :: "resource_budget \<Rightarrow> lk_error + resource_budget" where
  "mk_budget b = ebind (post_init_budget b) (\<lambda>_. Inr b)"

definition budget_to_dict :: "resource_budget \<Rightarrow> json" where
  "budget_to_dict b = JObj
     [(''schema_version'', JStr (b_schema_version b)),
      (''budget_id'', JStr (b_budget_id b)),
      (''scope'', JStr (b_scope b)),
      (''epoch'', JInt (b_epoch b)),
      (''hard_caps'', vector_to_dict (b_hard_caps b))]"

record resource_estimate =
  e_work_id :: string
  e_attempt_id :: string
  e_workload_sha256 :: string
  e_adapter :: string
  e_adapter_version :: string
  e_upper_bound :: resource_vector
  e_valid_until :: string
  e_expected :: "resource_vector option"
  e_schema_version :: string

definition post_init_estimate :: "resource_estimate \<Rightarrow> lk_error + unit" where
  "post_init_estimate e = run_checks
     [check_schema (e_schema_version e) ''estimate'',
      check_identifier (e_work_id e) ''work_id'',
      check_identifier (e_attempt_id e) ''attempt_id'',
      check_sha256 (e_workload_sha256 e) ''workload_sha256'',
      check_identifier (e_adapter e) ''adapter'',
      check_identifier (e_adapter_version e) ''adapter_version'',
      ebind (utc_instant (e_valid_until e) ''valid_until'') (\<lambda>_. Inr ()),
      raise_if (is_zero (e_upper_bound e))
        (ValueError ''upper_bound must reserve at least one resource unit''),
      (case e_expected e of None \<Rightarrow> Inr ()
       | Some v \<Rightarrow> raise_if (exceeds v (e_upper_bound e) \<noteq> [])
           (ValueError ''expected usage cannot exceed the declared upper bound''))]"

definition mk_estimate :: "resource_estimate \<Rightarrow> lk_error + resource_estimate" where
  "mk_estimate e = ebind (post_init_estimate e) (\<lambda>_. Inr e)"

definition estimate_to_dict :: "resource_estimate \<Rightarrow> json" where
  "estimate_to_dict e = JObj
     [(''schema_version'', JStr (e_schema_version e)),
      (''work_id'', JStr (e_work_id e)),
      (''attempt_id'', JStr (e_attempt_id e)),
      (''workload_sha256'', JStr (e_workload_sha256 e)),
      (''adapter'', JStr (e_adapter e)),
      (''adapter_version'', JStr (e_adapter_version e)),
      (''upper_bound'', vector_to_dict (e_upper_bound e)),
      (''valid_until'', JStr (e_valid_until e)),
      (''expected'', json_opt vector_to_dict (e_expected e))]"

definition estimate_sha256 :: "resource_estimate \<Rightarrow> string" where
  "estimate_sha256 e = canonical_sha (estimate_to_dict e)"

record resource_usage =
  u_actual :: resource_vector
  u_measured_at :: string
  u_measurement_sha256 :: string
  u_evidence_sha256 :: string
  u_schema_version :: string

definition post_init_usage :: "resource_usage \<Rightarrow> lk_error + unit" where
  "post_init_usage u = run_checks
     [check_schema (u_schema_version u) ''usage'',
      ebind (utc_instant (u_measured_at u) ''measured_at'') (\<lambda>_. Inr ()),
      check_sha256 (u_measurement_sha256 u) ''measurement_sha256'',
      check_sha256 (u_evidence_sha256 u) ''evidence_sha256'']"

definition mk_usage :: "resource_usage \<Rightarrow> lk_error + resource_usage" where
  "mk_usage u = ebind (post_init_usage u) (\<lambda>_. Inr u)"

definition usage_to_dict :: "resource_usage \<Rightarrow> json" where
  "usage_to_dict u = JObj
     [(''schema_version'', JStr (u_schema_version u)),
      (''actual'', vector_to_dict (u_actual u)),
      (''measured_at'', JStr (u_measured_at u)),
      (''measurement_sha256'', JStr (u_measurement_sha256 u)),
      (''evidence_sha256'', JStr (u_evidence_sha256 u))]"

section \<open>Commands\<close>

record request_grant =
  rq_command_id :: string
  rq_grant_id :: string
  rq_fence_token :: int
  rq_observed_at :: string
  rq_expires_at :: string
  rq_estimate :: resource_estimate

text \<open>The fields of \<^verbatim>\<open>_GrantCommand\<close>, which \<^verbatim>\<open>SettleGrant\<close> repeats.\<close>

record grant_command =
  gc_command_id :: string
  gc_grant_id :: string
  gc_fence_token :: int
  gc_workload_sha256 :: string
  gc_observed_at :: string

datatype resource_command =
    RequestGrant request_grant
  | StartGrant grant_command
  | SettleGrant grant_command resource_usage
  | CancelGrant grant_command string
  | DeadlineObserved grant_command
  | UsageUnknown grant_command string

definition post_init_request_grant :: "request_grant \<Rightarrow> lk_error + unit" where
  "post_init_request_grant c = run_checks
     [check_identifier (rq_command_id c) ''command_id'',
      check_identifier (rq_grant_id c) ''grant_id'',
      check_integer (rq_fence_token c) ''fence_token'' 1,
      ebind (utc_instant (rq_observed_at c) ''observed_at'') (\<lambda>_. Inr ()),
      ebind (utc_instant (rq_expires_at c) ''expires_at'') (\<lambda>_. Inr ())]"

definition post_init_grant_command :: "grant_command \<Rightarrow> lk_error + unit" where
  "post_init_grant_command c = run_checks
     [check_identifier (gc_command_id c) ''command_id'',
      check_identifier (gc_grant_id c) ''grant_id'',
      check_integer (gc_fence_token c) ''fence_token'' 1,
      check_sha256 (gc_workload_sha256 c) ''workload_sha256'',
      ebind (utc_instant (gc_observed_at c) ''observed_at'') (\<lambda>_. Inr ())]"

text \<open>Constructing a command also constructs the estimate or usage it carries.\<close>

fun post_init_command :: "resource_command \<Rightarrow> lk_error + unit" where
  "post_init_command (RequestGrant c) =
     run_checks [post_init_estimate (rq_estimate c), post_init_request_grant c]"
| "post_init_command (StartGrant c) = post_init_grant_command c"
| "post_init_command (SettleGrant c u) = run_checks [post_init_usage u, post_init_grant_command c]"
| "post_init_command (CancelGrant c reason) =
     run_checks [post_init_grant_command c, check_recorded_text reason ''reason'']"
| "post_init_command (DeadlineObserved c) = post_init_grant_command c"
| "post_init_command (UsageUnknown c reason) =
     run_checks [post_init_grant_command c, check_recorded_text reason ''reason'']"

definition mk_command :: "resource_command \<Rightarrow> lk_error + resource_command" where
  "mk_command c = ebind (post_init_command c) (\<lambda>_. Inr c)"

fun command_id :: "resource_command \<Rightarrow> string" where
  "command_id (RequestGrant c) = rq_command_id c"
| "command_id (StartGrant c) = gc_command_id c"
| "command_id (SettleGrant c u) = gc_command_id c"
| "command_id (CancelGrant c r) = gc_command_id c"
| "command_id (DeadlineObserved c) = gc_command_id c"
| "command_id (UsageUnknown c r) = gc_command_id c"

fun command_grant_id :: "resource_command \<Rightarrow> string" where
  "command_grant_id (RequestGrant c) = rq_grant_id c"
| "command_grant_id (StartGrant c) = gc_grant_id c"
| "command_grant_id (SettleGrant c u) = gc_grant_id c"
| "command_grant_id (CancelGrant c r) = gc_grant_id c"
| "command_grant_id (DeadlineObserved c) = gc_grant_id c"
| "command_grant_id (UsageUnknown c r) = gc_grant_id c"

definition base_dict :: "grant_command \<Rightarrow> string \<Rightarrow> (string \<times> json) list" where
  "base_dict c operation =
     [(''type'', JStr operation),
      (''command_id'', JStr (gc_command_id c)),
      (''grant_id'', JStr (gc_grant_id c)),
      (''fence_token'', JInt (gc_fence_token c)),
      (''workload_sha256'', JStr (gc_workload_sha256 c)),
      (''observed_at'', JStr (gc_observed_at c))]"

fun command_to_dict :: "resource_command \<Rightarrow> json" where
  "command_to_dict (RequestGrant c) = JObj
     [(''type'', JStr ''request_grant''),
      (''command_id'', JStr (rq_command_id c)),
      (''grant_id'', JStr (rq_grant_id c)),
      (''fence_token'', JInt (rq_fence_token c)),
      (''observed_at'', JStr (rq_observed_at c)),
      (''expires_at'', JStr (rq_expires_at c)),
      (''estimate'', estimate_to_dict (rq_estimate c))]"
| "command_to_dict (StartGrant c) = JObj (base_dict c ''start_grant'')"
| "command_to_dict (SettleGrant c u) =
     JObj (base_dict c ''settle_grant'' @ [(''usage'', usage_to_dict u)])"
| "command_to_dict (CancelGrant c reason) =
     JObj (base_dict c ''cancel_grant'' @ [(''reason'', JStr reason)])"
| "command_to_dict (DeadlineObserved c) = JObj (base_dict c ''deadline_observed'')"
| "command_to_dict (UsageUnknown c reason) =
     JObj (base_dict c ''usage_unknown'' @ [(''reason'', JStr reason)])"

definition command_hash :: "resource_command \<Rightarrow> string" where
  "command_hash c = canonical_sha (command_to_dict c)"

definition operation :: "resource_command \<Rightarrow> string" where
  "operation c = json_str_at (command_to_dict c) ''type''"

lemma operation_simps [simp]:
  "operation (RequestGrant c1) = ''request_grant''"
  "operation (StartGrant c) = ''start_grant''"
  "operation (SettleGrant c u) = ''settle_grant''"
  "operation (CancelGrant c r) = ''cancel_grant''"
  "operation (DeadlineObserved c) = ''deadline_observed''"
  "operation (UsageUnknown c r) = ''usage_unknown''"
  by (simp_all add: operation_def json_str_at_def base_dict_def)

end
