(* ===== verification/Resource_Journal_Model.thy ===== *)
theory Resource_Journal_Model
  imports Resource_Model
begin

text \<open>
  Grants, receipts, transitions, command records and decisions of
  \<^verbatim>\<open>lakatos/resource_coordination.py\<close>, with their constructors' checks. As in
  \<^verbatim>\<open>Resource_Model\<close>, \<open>post_init_\<dots>\<close> is the \<^verbatim>\<open>__post_init__\<close>, statement by
  statement, and \<open>\<dots>_ok\<close> the predicate it decides.
\<close>

section \<open>Grants\<close>

record resource_grant =
  g_grant_id :: string
  g_estimate_sha256 :: string
  g_workload_sha256 :: string
  g_reserved :: resource_vector
  g_reserved_at :: string
  g_expires_at :: string
  g_fence_token :: int
  g_status :: grant_status
  g_last_observed_at :: string
  g_started_at :: "string option"
  g_actual :: resource_vector
  g_measured_at :: "string option"
  g_measurement_sha256 :: "string option"
  g_evidence_sha256 :: "string option"
  g_cancel_requested :: bool
  g_schema_version :: string

text \<open>\<^verbatim>\<open>None\<close>, or the value parsed.\<close>

definition optional_instant :: "string option \<Rightarrow> string \<Rightarrow> lk_error + instant option" where
  "optional_instant v label =
     (case v of None \<Rightarrow> Inr None | Some s \<Rightarrow> ebind (utc_instant s label) (\<lambda>i. Inr (Some i)))"

definition optional_sha256 :: "string option \<Rightarrow> string \<Rightarrow> lk_error + unit" where
  "optional_sha256 v label = (case v of None \<Rightarrow> Inr () | Some s \<Rightarrow> check_sha256 s label)"

definition post_init_grant :: "resource_grant \<Rightarrow> lk_error + unit" where
  "post_init_grant g =
     ebind (run_checks
       [check_schema (g_schema_version g) ''grant'',
        check_identifier (g_grant_id g) ''grant_id'',
        check_sha256 (g_estimate_sha256 g) ''estimate_sha256'',
        check_sha256 (g_workload_sha256 g) ''workload_sha256'',
        raise_if (is_zero (g_reserved g)) (ValueError ''a grant must reserve at least one resource unit'')]) (\<lambda>_.
     ebind (utc_instant (g_reserved_at g) ''reserved_at'') (\<lambda>reserved_at.
     ebind (utc_instant (g_expires_at g) ''expires_at'') (\<lambda>_.
     ebind (check_integer (g_fence_token g) ''fence_token'' 1) (\<lambda>_.
     ebind (utc_instant (g_last_observed_at g) ''last_observed_at'') (\<lambda>last_observed_at.
     ebind (raise_if (last_observed_at < reserved_at)
       (ValueError ''grant observation time cannot precede reservation'')) (\<lambda>_.
     ebind (optional_instant (g_started_at g) ''started_at'') (\<lambda>started_at.
     ebind (case started_at of None \<Rightarrow> Inr ()
       | Some s \<Rightarrow> raise_if (s < reserved_at \<or> s > last_observed_at)
           (ValueError ''started_at must lie within the grant observation interval'')) (\<lambda>_.
     ebind (optional_instant (g_measured_at g) ''measured_at'') (\<lambda>measured_at.
     run_checks
       [optional_sha256 (g_measurement_sha256 g) ''measurement_sha256'',
        optional_sha256 (g_evidence_sha256 g) ''evidence_sha256'',
        (if charged (g_status g) then
           (case (g_measurement_sha256 g, g_evidence_sha256 g, measured_at, started_at) of
              (Some _, Some _, Some m, Some s) \<Rightarrow>
                raise_if (m < s \<or> m > last_observed_at)
                  (ValueError ''measurement time must lie between start and settlement'')
            | _ \<Rightarrow> Inl (ValueError ''charged grants require start, time, and evidence''))
         else raise_if (\<not> is_zero (g_actual g) \<or> g_measured_at g \<noteq> None \<or>
             g_measurement_sha256 g \<noteq> None \<or> g_evidence_sha256 g \<noteq> None)
           (ValueError ''unsettled grants cannot carry measured usage'')),
        raise_if (post_start (g_status g) \<and> started_at = None)
          (ValueError ''post-start grant status requires started_at''),
        raise_if (\<not> post_start (g_status g) \<and> started_at \<noteq> None)
          (ValueError ''pre-start grant status cannot carry started_at''),
        raise_if (g_status g = QUARANTINED_OVERRUN \<and> exceeds (g_actual g) (g_reserved g) = [])
          (ValueError ''quarantined overrun must exceed its reservation''),
        raise_if (g_status g = CANCELLED_SETTLED \<and> \<not> g_cancel_requested g)
          (ValueError ''cancelled settlement must preserve cancellation intent''),
        raise_if (g_status g = SETTLED \<and> g_cancel_requested g)
          (ValueError ''ordinary settlement cannot carry cancellation intent''),
        raise_if (g_status g \<in> set [CANCEL_PENDING, CANCELLED_SETTLED] \<and> \<not> g_cancel_requested g)
          (ValueError ''cancel state must preserve cancellation intent'')])))))))))"

definition mk_grant :: "resource_grant \<Rightarrow> lk_error + resource_grant" where
  "mk_grant g = ebind (post_init_grant g) (\<lambda>_. Inr g)"

definition grant_to_dict :: "resource_grant \<Rightarrow> json" where
  "grant_to_dict g = JObj
     [(''schema_version'', JStr (g_schema_version g)),
      (''grant_id'', JStr (g_grant_id g)),
      (''estimate_sha256'', JStr (g_estimate_sha256 g)),
      (''workload_sha256'', JStr (g_workload_sha256 g)),
      (''reserved'', vector_to_dict (g_reserved g)),
      (''reserved_at'', JStr (g_reserved_at g)),
      (''expires_at'', JStr (g_expires_at g)),
      (''fence_token'', JInt (g_fence_token g)),
      (''status'', JStr (grant_status_value (g_status g))),
      (''last_observed_at'', JStr (g_last_observed_at g)),
      (''started_at'', json_opt JStr (g_started_at g)),
      (''actual'', vector_to_dict (g_actual g)),
      (''measured_at'', json_opt JStr (g_measured_at g)),
      (''measurement_sha256'', json_opt JStr (g_measurement_sha256 g)),
      (''evidence_sha256'', json_opt JStr (g_evidence_sha256 g)),
      (''cancel_requested'', JBool (g_cancel_requested g))]"

text \<open>What the constructor checks, for grants without and with a recorded settlement.\<close>

definition grant_times_ok :: "resource_grant \<Rightarrow> bool" where
  "grant_times_ok g \<longleftrightarrow>
     instant_ok (g_reserved_at g) \<and> instant_ok (g_expires_at g) \<and> instant_ok (g_last_observed_at g) \<and>
     instant_of (g_reserved_at g) \<le> instant_of (g_last_observed_at g) \<and>
     (\<forall>s. g_started_at g = Some s \<longrightarrow> instant_ok s \<and>
        instant_of (g_reserved_at g) \<le> instant_of s \<and> instant_of s \<le> instant_of (g_last_observed_at g)) \<and>
     (\<forall>m. g_measured_at g = Some m \<longrightarrow> instant_ok m)"

definition grant_evidence_ok :: "resource_grant \<Rightarrow> bool" where
  "grant_evidence_ok g \<longleftrightarrow>
     (\<forall>h. g_measurement_sha256 g = Some h \<longrightarrow> sha256_ok h) \<and>
     (\<forall>h. g_evidence_sha256 g = Some h \<longrightarrow> sha256_ok h) \<and>
     (if charged (g_status g) then
        g_measurement_sha256 g \<noteq> None \<and> g_evidence_sha256 g \<noteq> None \<and>
        (\<exists>m s. g_measured_at g = Some m \<and> g_started_at g = Some s \<and>
           instant_of s \<le> instant_of m \<and> instant_of m \<le> instant_of (g_last_observed_at g))
      else g_actual g = 0 \<and> g_measured_at g = None \<and> g_measurement_sha256 g = None \<and>
        g_evidence_sha256 g = None)"

definition grant_ok :: "resource_grant \<Rightarrow> bool" where
  "grant_ok g \<longleftrightarrow>
     g_schema_version g = SCHEMA_VERSION \<and> identifier_ok (g_grant_id g) \<and>
     sha256_ok (g_estimate_sha256 g) \<and> sha256_ok (g_workload_sha256 g) \<and>
     g_reserved g \<noteq> 0 \<and> 1 \<le> g_fence_token g \<and>
     grant_times_ok g \<and> grant_evidence_ok g \<and>
     (post_start (g_status g) \<longleftrightarrow> g_started_at g \<noteq> None) \<and>
     (g_status g = QUARANTINED_OVERRUN \<longrightarrow> \<not> g_actual g \<le> g_reserved g) \<and>
     (g_status g \<in> {CANCEL_PENDING, CANCELLED_SETTLED} \<longrightarrow> g_cancel_requested g) \<and>
     (g_status g = SETTLED \<longrightarrow> \<not> g_cancel_requested g)"

lemma optional_instant_Inr [check_simps]:
  "optional_instant v l = Inr r \<longleftrightarrow>
     (\<forall>s. v = Some s \<longrightarrow> instant_ok s) \<and> r = map_option instant_of v"
  by (auto simp: optional_instant_def result_simps check_simps split: option.splits)

lemma optional_sha256_Inr [check_simps]:
  "optional_sha256 v l = Inr u \<longleftrightarrow> (\<forall>s. v = Some s \<longrightarrow> sha256_ok s)"
  by (auto simp: optional_sha256_def check_simps split: option.splits)

lemma post_init_grant_Inr [check_simps]: "post_init_grant g = Inr u \<longleftrightarrow> grant_ok g"
proof -
  have "charged (g_status g) \<Longrightarrow> post_start (g_status g)" by (simp add: post_start_def)
  then show ?thesis
    unfolding post_init_grant_def grant_ok_def grant_times_ok_def grant_evidence_ok_def
    by (cases "g_started_at g"; cases "g_measured_at g"; cases "g_measurement_sha256 g";
        cases "g_evidence_sha256 g"; cases "charged (g_status g)")
      (auto simp: result_simps check_simps exceeds_Nil_iff not_less)
qed

section \<open>Receipts\<close>

record resource_receipt =
  r_schema_version :: string
  r_budget_id :: string
  r_scope :: string
  r_epoch :: int
  r_operation :: string
  r_outcome :: string
  r_command_id :: string
  r_command_sha256 :: string
  r_before_state_sha256 :: string
  r_after_state_sha256 :: string
  r_transition_payload_sha256 :: string
  r_before_revision :: int
  r_after_revision :: int
  r_grant_id :: string
  r_reserved :: resource_vector
  r_actual :: resource_vector
  r_released :: resource_vector
  r_failure_code :: "string option"
  r_failure_detail :: "string option"
  r_failure_dimensions :: "string list"
  r_evidence_sha256 :: "string option"
  r_engine_rule_sha256 :: string

definition post_init_receipt :: "resource_receipt \<Rightarrow> lk_error + unit" where
  "post_init_receipt r = run_checks
     [check_schema (r_schema_version r) ''receipt'',
      check_identifier (r_budget_id r) ''budget_id'',
      check_identifier (r_scope r) ''scope'',
      check_integer (r_epoch r) ''epoch'' 1,
      check_identifier (r_operation r) ''operation'',
      check_identifier (r_outcome r) ''outcome'',
      check_identifier (r_command_id r) ''command_id'',
      check_sha256 (r_command_sha256 r) ''command_sha256'',
      check_sha256 (r_before_state_sha256 r) ''before_state_sha256'',
      check_sha256 (r_after_state_sha256 r) ''after_state_sha256'',
      check_sha256 (r_transition_payload_sha256 r) ''transition_payload_sha256'',
      check_integer (r_before_revision r) ''before_revision'' 0,
      raise_if (r_after_revision r \<noteq> r_before_revision r + 1)
        (ValueError ''receipt revision must advance exactly once''),
      check_identifier (r_grant_id r) ''grant_id'',
      (case r_failure_code r of
         None \<Rightarrow> raise_if (r_failure_detail r \<noteq> None \<or> r_failure_dimensions r \<noteq> [])
           (ValueError ''failure metadata requires failure_code'')
       | Some code \<Rightarrow> run_checks
           [check_identifier code ''failure_code'',
            (case r_failure_detail r of None \<Rightarrow> Inr ()
             | Some detail \<Rightarrow> check_recorded_text detail ''failure_detail'')]),
      raise_if (\<not> set (r_failure_dimensions r) \<subseteq> set DIMENSIONS)
        (ValueError ''failure_dimensions contains an unknown resource axis''),
      raise_if (length (r_failure_dimensions r) \<noteq> card (set (r_failure_dimensions r)))
        (ValueError ''failure_dimensions cannot contain duplicates''),
      optional_sha256 (r_evidence_sha256 r) ''evidence_sha256'',
      check_sha256 (r_engine_rule_sha256 r) ''engine_rule_sha256'']"

definition mk_receipt :: "resource_receipt \<Rightarrow> lk_error + resource_receipt" where
  "mk_receipt r = ebind (post_init_receipt r) (\<lambda>_. Inr r)"

definition receipt_to_dict :: "resource_receipt \<Rightarrow> json" where
  "receipt_to_dict r = JObj
     [(''schema_version'', JStr (r_schema_version r)),
      (''budget_id'', JStr (r_budget_id r)),
      (''scope'', JStr (r_scope r)),
      (''epoch'', JInt (r_epoch r)),
      (''operation'', JStr (r_operation r)),
      (''outcome'', JStr (r_outcome r)),
      (''command_id'', JStr (r_command_id r)),
      (''command_sha256'', JStr (r_command_sha256 r)),
      (''before_state_sha256'', JStr (r_before_state_sha256 r)),
      (''after_state_sha256'', JStr (r_after_state_sha256 r)),
      (''transition_payload_sha256'', JStr (r_transition_payload_sha256 r)),
      (''before_revision'', JInt (r_before_revision r)),
      (''after_revision'', JInt (r_after_revision r)),
      (''grant_id'', JStr (r_grant_id r)),
      (''reserved'', vector_to_dict (r_reserved r)),
      (''actual'', vector_to_dict (r_actual r)),
      (''released'', vector_to_dict (r_released r)),
      (''failure_code'', json_opt JStr (r_failure_code r)),
      (''failure_detail'', json_opt JStr (r_failure_detail r)),
      (''failure_dimensions'', JArr (map JStr (r_failure_dimensions r))),
      (''evidence_sha256'', json_opt JStr (r_evidence_sha256 r)),
      (''engine_rule_sha256'', JStr (r_engine_rule_sha256 r))]"

definition receipt_sha256 :: "resource_receipt \<Rightarrow> string" where
  "receipt_sha256 r = canonical_sha (receipt_to_dict r)"

section \<open>Transitions, command records, decisions\<close>

record resource_transition =
  t_command :: resource_command
  t_command_sha256 :: string
  t_transition_payload_sha256 :: string
  t_receipt_sha256 :: string
  t_transition_sha256 :: string
  t_grant :: "resource_grant option"
  t_spent_delta :: resource_vector
  t_freeze_budget :: bool
  t_receipt :: resource_receipt

definition post_init_transition :: "resource_transition \<Rightarrow> lk_error + unit" where
  "post_init_transition t = run_checks
     [check_sha256 (t_command_sha256 t) ''command_sha256'',
      check_sha256 (t_transition_payload_sha256 t) ''transition_payload_sha256'',
      check_sha256 (t_receipt_sha256 t) ''receipt_sha256'',
      check_sha256 (t_transition_sha256 t) ''transition_sha256'']"

definition mk_transition :: "resource_transition \<Rightarrow> lk_error + resource_transition" where
  "mk_transition t = ebind (post_init_transition t) (\<lambda>_. Inr t)"

record command_record =
  cr_command_id :: string
  cr_command_sha256 :: string
  cr_receipt_sha256 :: string
  cr_transition_sha256 :: string
  cr_receipt :: resource_receipt
  cr_transition :: resource_transition

record decision =
  d_transitions :: "resource_transition list"
  d_replayed :: bool
  d_replay_receipt :: "resource_receipt option"

definition post_init_decision :: "decision \<Rightarrow> lk_error + unit" where
  "post_init_decision d =
     (if d_replayed d
      then raise_if (d_transitions d \<noteq> [] \<or> d_replay_receipt d = None)
        (ValueError ''replay decision requires one stored receipt and no transition'')
      else raise_if (length (d_transitions d) \<noteq> 1 \<or> d_replay_receipt d \<noteq> None)
        (ValueError ''fresh decision requires exactly one authoritative transition''))"

definition mk_decision_value :: "decision \<Rightarrow> lk_error + decision" where
  "mk_decision_value d = ebind (post_init_decision d) (\<lambda>_. Inr d)"

text \<open>The \<^verbatim>\<open>receipt\<close> property: the stored one on replay, else the transition's.\<close>

definition decision_receipt :: "decision \<Rightarrow> resource_receipt" where
  "decision_receipt d =
     (if d_replayed d then the (d_replay_receipt d) else t_receipt (d_transitions d ! 0))"

definition decision_accepted :: "decision \<Rightarrow> bool" where
  "decision_accepted d = (r_outcome (decision_receipt d) \<noteq> ''rejected'')"

definition rejection_from_receipt :: "resource_receipt \<Rightarrow> rejection option" where
  "rejection_from_receipt r =
     (if r_outcome r \<noteq> ''rejected'' then None
      else if r_failure_code r = Some ''CAP_EXCEEDED'' then Some (CapacityExceeded (r_failure_dimensions r))
      else if r_failure_code r = Some ''BUDGET_FROZEN'' then Some BudgetFrozen
      else if r_failure_code r = Some ''GRANT_NOT_FOUND'' then Some (UnknownGrant (r_grant_id r))
      else if r_failure_code r = Some ''INVALID_TRANSITION''
      then Some (InvalidTransition
        (case r_failure_detail r of Some (c # cs) \<Rightarrow> c # cs | _ \<Rightarrow> ''invalid transition''))
      else Some (ResourceRejection
        (case r_failure_code r of Some (c # cs) \<Rightarrow> c # cs | _ \<Rightarrow> ''REJECTED'')
        (case r_failure_detail r of Some (c # cs) \<Rightarrow> c # cs | _ \<Rightarrow> ''resource command rejected'')
        (r_failure_dimensions r)))"

definition decision_rejection :: "decision \<Rightarrow> rejection option" where
  "decision_rejection d = rejection_from_receipt (decision_receipt d)"

definition raise_for_rejection :: "decision \<Rightarrow> lk_error + unit" where
  "raise_for_rejection d =
     (case decision_rejection d of None \<Rightarrow> Inr () | Some r \<Rightarrow> Inl (Rejection r))"

end
