(* ===== verification/Resource_Decide.thy ===== *)
theory Resource_Decide
  imports Resource_Journal_Model
begin

text \<open>
  The pure decision function of \<^verbatim>\<open>lakatos/resource_coordination.py\<close>. The fields a
  decision reads are those of \<^verbatim>\<open>_ResourceProjection\<close>; \<^verbatim>\<open>ResourceState\<close> has the
  same fields and the command records beside them, so the state record extends the
  projection record and every function below applies to both, as in the source. A
  decision's many keyword arguments with defaults are the record \<open>decision_args\<close>.
\<close>

section \<open>Projections\<close>

record resource_projection =
  p_schema_version :: string
  p_budget_id :: string
  p_scope :: string
  p_epoch :: int
  p_revision :: int
  p_hard_caps :: resource_vector
  p_spent :: resource_vector
  p_status :: budget_status
  p_grants :: "resource_grant list"

definition snapshot_sha256 :: "'a resource_projection_scheme \<Rightarrow> resource_vector \<Rightarrow> budget_status \<Rightarrow>
    int \<Rightarrow> resource_grant list \<Rightarrow> string" where
  "snapshot_sha256 p spent status revision grants = canonical_sha (JObj
     [(''schema_version'', JStr (p_schema_version p)),
      (''budget_id'', JStr (p_budget_id p)),
      (''scope'', JStr (p_scope p)),
      (''epoch'', JInt (p_epoch p)),
      (''revision'', JInt revision),
      (''hard_caps'', vector_to_dict (p_hard_caps p)),
      (''spent'', vector_to_dict spent),
      (''status'', JStr (budget_status_value status)),
      (''grants'', JArr (map grant_to_dict (sort_key g_grant_id grants)))])"

definition state_sha256 :: "'a resource_projection_scheme \<Rightarrow> string" where
  "state_sha256 p = snapshot_sha256 p (p_spent p) (p_status p) (p_revision p) (p_grants p)"

definition reserved_total :: "'a resource_projection_scheme \<Rightarrow> resource_vector" where
  "reserved_total p =
     foldl (\<lambda>total g. if holds_reservation (g_status g) then total + g_reserved g else total) 0 (p_grants p)"

definition remaining :: "'a resource_projection_scheme \<Rightarrow> resource_vector" where
  "remaining p = p_hard_caps p - (p_spent p + reserved_total p)"

definition find_grant :: "'a resource_projection_scheme \<Rightarrow> string \<Rightarrow> lk_error + resource_grant" where
  "find_grant p gid =
     (case find (\<lambda>g. g_grant_id g = gid) (p_grants p) of
        Some g \<Rightarrow> Inr g | None \<Rightarrow> Inl (Rejection (UnknownGrant gid)))"

definition hard_cap_deficits :: "resource_vector \<Rightarrow> resource_vector \<Rightarrow> string list" where
  "hard_cap_deficits requested left = exceeds requested left"

definition admission_deficits :: "resource_vector \<Rightarrow> resource_vector \<Rightarrow> string list" where
  "admission_deficits requested left = exceeds requested left"

definition bound_grant :: "'a resource_projection_scheme \<Rightarrow> grant_command \<Rightarrow> lk_error + resource_grant" where
  "bound_grant p c =
     ebind (find_grant p (gc_grant_id c)) (\<lambda>g.
     ebind (run_checks
       [raise_if (g_fence_token g \<noteq> gc_fence_token c)
          (invalid_transition ''fence token does not match the grant''),
        raise_if (g_workload_sha256 g \<noteq> gc_workload_sha256 c)
          (invalid_transition ''workload identity does not match the grant'')])
     (\<lambda>_. Inr g))"

definition is_request :: "resource_command \<Rightarrow> bool" where
  "is_request c = (case c of RequestGrant _ \<Rightarrow> True | _ \<Rightarrow> False)"

definition projected_grants :: "'a resource_projection_scheme \<Rightarrow> resource_command \<Rightarrow>
    resource_grant option \<Rightarrow> lk_error + resource_grant list" where
  "projected_grants p c grant =
     (case grant of
        None \<Rightarrow> Inr (p_grants p)
      | Some g \<Rightarrow>
          if is_request c then Inr (p_grants p @ [g])
          else case replace_first (\<lambda>x. g_grant_id x = g_grant_id g) g (p_grants p) of
            Some gs \<Rightarrow> Inr gs
          | None \<Rightarrow> Inl (Rejection (UnknownGrant (g_grant_id g))))"

definition projected_state_sha256 :: "'a resource_projection_scheme \<Rightarrow> resource_command \<Rightarrow>
    resource_grant option \<Rightarrow> resource_vector \<Rightarrow> bool \<Rightarrow> lk_error + string" where
  "projected_state_sha256 p c grant spent_delta freeze =
     ebind (projected_grants p c grant) (\<lambda>gs.
     Inr (snapshot_sha256 p (p_spent p + spent_delta) (if freeze then FROZEN else p_status p)
       (p_revision p + 1) gs))"

section \<open>Transition bodies and decisions\<close>

definition transition_body :: "'a resource_projection_scheme \<Rightarrow> resource_command \<Rightarrow> string \<Rightarrow>
    resource_grant option \<Rightarrow> resource_vector \<Rightarrow> bool \<Rightarrow> lk_error + json" where
  "transition_body p c command_sha grant spent_delta freeze =
     ebind (projected_state_sha256 p c grant spent_delta freeze) (\<lambda>after.
     Inr (JObj
       [(''schema_version'', JStr SCHEMA_VERSION),
        (''budget_id'', JStr (p_budget_id p)),
        (''scope'', JStr (p_scope p)),
        (''epoch'', JInt (p_epoch p)),
        (''before_revision'', JInt (p_revision p)),
        (''after_revision'', JInt (p_revision p + 1)),
        (''before_state_sha256'', JStr (state_sha256 p)),
        (''after_state_sha256'', JStr after),
        (''command'', command_to_dict c),
        (''command_sha256'', JStr command_sha),
        (''grant'', json_opt grant_to_dict grant),
        (''spent_delta'', vector_to_dict spent_delta),
        (''freeze_budget'', JBool freeze)]))"

definition transition_envelope :: "string \<Rightarrow> string \<Rightarrow> json" where
  "transition_envelope payload_sha receipt_sha = JObj
     [(''schema_version'', JStr SCHEMA_VERSION),
      (''transition_payload_sha256'', JStr payload_sha),
      (''receipt_sha256'', JStr receipt_sha)]"

definition rule_text :: string where
  "rule_text =
     ''lakatotree.resource/v1'' @ [CHR 0x00] @
     ''componentwise-hard-caps;atomic-vector-admission;utc-expiry-guards;'' @
     ''accepted-and-rejected-command-replay;grant-fence-workload-binding;'' @
     ''causal-observation-order;receipt-bound-transitions;state-hash-chain;'' @
     ''deterministic-journal-replay;derived-decision-metadata;'' @
     ''unknown-usage-holds;overrun-freezes;'' @
     ''scientific-verdict-independent''"

definition ENGINE_RULE_SHA256 :: string where
  "ENGINE_RULE_SHA256 = sha256_hex (utf8_encode rule_text)"

record decision_args =
  a_outcome :: string
  a_grant :: "resource_grant option"
  a_reserved :: resource_vector
  a_actual :: resource_vector
  a_released :: resource_vector
  a_spent_delta :: resource_vector
  a_freeze_budget :: bool
  a_failure_code :: "string option"
  a_failure_detail :: "string option"
  a_failure_dimensions :: "string list"
  a_evidence_sha256 :: "string option"

definition decision_defaults :: "string \<Rightarrow> resource_grant option \<Rightarrow> decision_args" where
  "decision_defaults outcome grant =
     \<lparr>a_outcome = outcome, a_grant = grant, a_reserved = 0, a_actual = 0, a_released = 0,
      a_spent_delta = 0, a_freeze_budget = False, a_failure_code = None, a_failure_detail = None,
      a_failure_dimensions = [], a_evidence_sha256 = None\<rparr>"

definition decision_of :: "'a resource_projection_scheme \<Rightarrow> resource_command \<Rightarrow> decision_args \<Rightarrow>
    lk_error + decision" where
  "decision_of p c a =
     (let command_sha = command_hash c in
      ebind (transition_body p c command_sha (a_grant a) (a_spent_delta a) (a_freeze_budget a)) (\<lambda>body.
      let payload_sha = canonical_sha body in
      ebind (mk_receipt
        \<lparr>r_schema_version = SCHEMA_VERSION, r_budget_id = p_budget_id p, r_scope = p_scope p,
         r_epoch = p_epoch p, r_operation = operation c, r_outcome = a_outcome a,
         r_command_id = command_id c, r_command_sha256 = command_sha,
         r_before_state_sha256 = json_str_at body ''before_state_sha256'',
         r_after_state_sha256 = json_str_at body ''after_state_sha256'',
         r_transition_payload_sha256 = payload_sha,
         r_before_revision = p_revision p, r_after_revision = p_revision p + 1,
         r_grant_id = command_grant_id c, r_reserved = a_reserved a, r_actual = a_actual a,
         r_released = a_released a, r_failure_code = a_failure_code a,
         r_failure_detail = a_failure_detail a, r_failure_dimensions = a_failure_dimensions a,
         r_evidence_sha256 = a_evidence_sha256 a, r_engine_rule_sha256 = ENGINE_RULE_SHA256\<rparr>) (\<lambda>receipt.
      let receipt_sha = receipt_sha256 receipt;
          transition_sha = canonical_sha (transition_envelope payload_sha receipt_sha) in
      ebind (mk_transition
        \<lparr>t_command = c, t_command_sha256 = command_sha, t_transition_payload_sha256 = payload_sha,
         t_receipt_sha256 = receipt_sha, t_transition_sha256 = transition_sha,
         t_grant = a_grant a, t_spent_delta = a_spent_delta a, t_freeze_budget = a_freeze_budget a,
         t_receipt = receipt\<rparr>) (\<lambda>transition.
      mk_decision_value
        \<lparr>d_transitions = [transition], d_replayed = False, d_replay_receipt = None\<rparr>))))"

definition rejected_decision :: "'a resource_projection_scheme \<Rightarrow> resource_command \<Rightarrow> rejection \<Rightarrow>
    lk_error + decision" where
  "rejected_decision p c r =
     decision_of p c ((decision_defaults ''rejected'' None)
       \<lparr>a_failure_code := Some (rejection_code r),
        a_failure_detail := Some (rejection_message r),
        a_failure_dimensions := rejection_dimensions r\<rparr>)"

section \<open>The six commands\<close>

definition decide_request :: "'a resource_projection_scheme \<Rightarrow> request_grant \<Rightarrow> lk_error + decision" where
  "decide_request p c =
     ebind (run_checks
       [raise_if (p_status p = FROZEN) (Rejection BudgetFrozen),
        raise_if (list_ex (\<lambda>g. g_grant_id g = rq_grant_id c) (p_grants p))
          (invalid_transition (''grant_id already exists: '' @ rq_grant_id c))]) (\<lambda>_.
     ebind (utc_instant (rq_observed_at c) ''observed_at'') (\<lambda>observed.
     ebind (utc_instant (rq_expires_at c) ''expires_at'') (\<lambda>expires.
     ebind (utc_instant (e_valid_until (rq_estimate c)) ''valid_until'') (\<lambda>valid_until.
     ebind (run_checks
       [raise_if (observed > valid_until)
          (invalid_transition ''estimate was stale when admission was observed''),
        raise_if (expires > valid_until)
          (invalid_transition ''grant expiry cannot outlive estimate validity''),
        raise_if (observed \<ge> expires)
          (invalid_transition ''grant must be requested before its expiry'')]) (\<lambda>_.
     let deficits = admission_deficits (e_upper_bound (rq_estimate c)) (remaining p) in
     ebind (raise_if (deficits \<noteq> []) (Rejection (CapacityExceeded deficits))) (\<lambda>_.
     ebind (mk_grant
       \<lparr>g_grant_id = rq_grant_id c, g_estimate_sha256 = estimate_sha256 (rq_estimate c),
        g_workload_sha256 = e_workload_sha256 (rq_estimate c),
        g_reserved = e_upper_bound (rq_estimate c), g_reserved_at = rq_observed_at c,
        g_expires_at = rq_expires_at c, g_fence_token = rq_fence_token c, g_status = RESERVED,
        g_last_observed_at = rq_observed_at c, g_started_at = None, g_actual = 0,
        g_measured_at = None, g_measurement_sha256 = None, g_evidence_sha256 = None,
        g_cancel_requested = False, g_schema_version = SCHEMA_VERSION\<rparr>) (\<lambda>grant.
     decision_of p (RequestGrant c)
       ((decision_defaults ''reserved'' (Some grant))\<lparr>a_reserved := g_reserved grant\<rparr>))))))))"

definition decide_start :: "'a resource_projection_scheme \<Rightarrow> grant_command \<Rightarrow> lk_error + decision" where
  "decide_start p c =
     ebind (bound_grant p c) (\<lambda>grant.
     ebind (raise_if (g_status grant \<noteq> RESERVED)
       (invalid_transition (''cannot start grant in '' @ grant_status_value (g_status grant)))) (\<lambda>_.
     ebind (utc_instant (gc_observed_at c) ''observed_at'') (\<lambda>start_observed.
     ebind (utc_instant (g_last_observed_at grant) ''last_observed_at'') (\<lambda>last_observed.
     ebind (raise_if (start_observed < last_observed)
       (invalid_transition ''start observation precedes the grant lifecycle'')) (\<lambda>_.
     ebind (utc_instant (g_expires_at grant) ''expires_at'') (\<lambda>expires.
     ebind (raise_if (start_observed \<ge> expires)
       (invalid_transition ''cannot start a grant at or after its expiry'')) (\<lambda>_.
     ebind (mk_grant (grant\<lparr>g_status := IN_USE, g_started_at := Some (gc_observed_at c),
        g_last_observed_at := gc_observed_at c\<rparr>)) (\<lambda>updated.
     decision_of p (StartGrant c)
       ((decision_defaults ''in_use'' (Some updated))\<lparr>a_reserved := g_reserved grant\<rparr>)))))))))"

definition decide_settle :: "'a resource_projection_scheme \<Rightarrow> grant_command \<Rightarrow> resource_usage \<Rightarrow>
    lk_error + decision" where
  "decide_settle p c usage =
     ebind (bound_grant p c) (\<lambda>grant.
     ebind (raise_if (g_status grant \<notin> set [IN_USE, CANCEL_PENDING, RECONCILIATION_REQUIRED])
       (invalid_transition (''cannot settle grant in '' @ grant_status_value (g_status grant)))) (\<lambda>_.
     ebind (utc_instant (gc_observed_at c) ''observed_at'') (\<lambda>settle_observed.
     ebind (utc_instant (g_last_observed_at grant) ''last_observed_at'') (\<lambda>last_observed.
     ebind (raise_if (settle_observed < last_observed)
       (invalid_transition ''settlement observation precedes the grant lifecycle'')) (\<lambda>_.
     ebind (case g_started_at grant of
         None \<Rightarrow> Inl (invalid_transition ''settlement requires a recorded start'')
       | Some s \<Rightarrow> Inr s) (\<lambda>started_at.
     ebind (utc_instant (u_measured_at usage) ''measured_at'') (\<lambda>measured.
     ebind (utc_instant started_at ''started_at'') (\<lambda>started.
     ebind (run_checks
       [raise_if (measured < started)
          (invalid_transition ''usage measurement precedes grant start''),
        raise_if (measured > settle_observed)
          (invalid_transition ''usage measurement is later than settlement observation'')]) (\<lambda>_.
     let overrun = exceeds (u_actual usage) (g_reserved grant);
         status = (if overrun \<noteq> [] then QUARANTINED_OVERRUN
                   else if g_cancel_requested grant then CANCELLED_SETTLED else SETTLED) in
     ebind (mk_grant (grant\<lparr>g_status := status, g_actual := u_actual usage,
        g_measured_at := Some (u_measured_at usage),
        g_measurement_sha256 := Some (u_measurement_sha256 usage),
        g_evidence_sha256 := Some (u_evidence_sha256 usage),
        g_last_observed_at := gc_observed_at c\<rparr>)) (\<lambda>updated.
     if overrun \<noteq> [] then
       decision_of p (SettleGrant c usage)
         ((decision_defaults ''quarantined_overrun'' (Some updated))
           \<lparr>a_reserved := g_reserved grant, a_actual := u_actual usage,
            a_released := g_reserved grant - u_actual usage, a_spent_delta := u_actual usage,
            a_freeze_budget := True, a_failure_code := Some ''RESOURCE_OVERRUN'',
            a_failure_detail := Some ''measured usage exceeded the reserved vector'',
            a_failure_dimensions := overrun, a_evidence_sha256 := Some (u_evidence_sha256 usage)\<rparr>)
     else
       ebind (vector_subtract (g_reserved grant) (u_actual usage)) (\<lambda>released.
       decision_of p (SettleGrant c usage)
         ((decision_defaults (str_lower (grant_status_value status)) (Some updated))
           \<lparr>a_reserved := g_reserved grant, a_actual := u_actual usage, a_released := released,
            a_spent_delta := u_actual usage,
            a_evidence_sha256 := Some (u_evidence_sha256 usage)\<rparr>))))))))))))"

text \<open>
  \<^verbatim>\<open>CancelGrant\<close> and \<^verbatim>\<open>DeadlineObserved\<close> move a grant the same way once their
  own guards have passed; the outcome of an unstarted grant and the refusal differ.
\<close>

definition release_or_pend :: "'a resource_projection_scheme \<Rightarrow> resource_command \<Rightarrow> grant_command \<Rightarrow>
    resource_grant \<Rightarrow> string \<Rightarrow> grant_status \<Rightarrow> string \<Rightarrow> lk_error + decision" where
  "release_or_pend p cmd c grant unused_outcome unused_status refusal =
     (if g_status grant = RESERVED then
        ebind (mk_grant (grant\<lparr>g_status := unused_status, g_last_observed_at := gc_observed_at c\<rparr>)) (\<lambda>updated.
        decision_of p cmd ((decision_defaults unused_outcome (Some updated))
          \<lparr>a_reserved := g_reserved grant, a_released := g_reserved grant\<rparr>))
      else if g_status grant = IN_USE then
        ebind (mk_grant (grant\<lparr>g_status := CANCEL_PENDING, g_cancel_requested := True,
          g_last_observed_at := gc_observed_at c\<rparr>)) (\<lambda>updated.
        decision_of p cmd ((decision_defaults ''cancel_pending'' (Some updated))
          \<lparr>a_reserved := g_reserved grant\<rparr>))
      else Inl (invalid_transition (refusal @ grant_status_value (g_status grant))))"

definition decide_cancel :: "'a resource_projection_scheme \<Rightarrow> grant_command \<Rightarrow> string \<Rightarrow> lk_error + decision" where
  "decide_cancel p c reason =
     ebind (bound_grant p c) (\<lambda>grant.
     ebind (utc_instant (gc_observed_at c) ''observed_at'') (\<lambda>observed.
     ebind (utc_instant (g_last_observed_at grant) ''last_observed_at'') (\<lambda>last_observed.
     ebind (raise_if (observed < last_observed)
       (invalid_transition ''cancel observation precedes the grant lifecycle'')) (\<lambda>_.
     release_or_pend p (CancelGrant c reason) c grant ''cancelled_unused'' CANCELLED_UNUSED
       ''cannot cancel grant in ''))))"

definition decide_deadline :: "'a resource_projection_scheme \<Rightarrow> grant_command \<Rightarrow> lk_error + decision" where
  "decide_deadline p c =
     ebind (bound_grant p c) (\<lambda>grant.
     ebind (utc_instant (gc_observed_at c) ''observed_at'') (\<lambda>deadline_observed.
     ebind (utc_instant (g_last_observed_at grant) ''last_observed_at'') (\<lambda>last_observed.
     ebind (raise_if (deadline_observed < last_observed)
       (invalid_transition ''deadline observation precedes the grant lifecycle'')) (\<lambda>_.
     ebind (utc_instant (g_expires_at grant) ''expires_at'') (\<lambda>expires.
     ebind (raise_if (deadline_observed < expires)
       (invalid_transition ''deadline observation precedes grant expiry'')) (\<lambda>_.
     release_or_pend p (DeadlineObserved c) c grant ''expired_unused'' EXPIRED_UNUSED
       ''cannot apply deadline in ''))))))"

definition decide_unknown :: "'a resource_projection_scheme \<Rightarrow> grant_command \<Rightarrow> string \<Rightarrow> lk_error + decision" where
  "decide_unknown p c reason =
     ebind (bound_grant p c) (\<lambda>grant.
     ebind (raise_if (g_status grant \<notin> set [IN_USE, CANCEL_PENDING])
       (invalid_transition (''usage cannot be unknown in '' @ grant_status_value (g_status grant)))) (\<lambda>_.
     ebind (utc_instant (gc_observed_at c) ''observed_at'') (\<lambda>observed.
     ebind (utc_instant (g_last_observed_at grant) ''last_observed_at'') (\<lambda>last_observed.
     ebind (raise_if (observed < last_observed)
       (invalid_transition ''usage observation precedes the grant lifecycle'')) (\<lambda>_.
     ebind (mk_grant (grant\<lparr>g_status := RECONCILIATION_REQUIRED,
        g_last_observed_at := gc_observed_at c\<rparr>)) (\<lambda>updated.
     decision_of p (UsageUnknown c reason)
       ((decision_defaults ''reconciliation_required'' (Some updated))
         \<lparr>a_reserved := g_reserved grant, a_failure_code := Some ''USAGE_UNKNOWN'',
          a_failure_detail := Some reason\<rparr>)))))))"

fun decide_fresh_accepted :: "'a resource_projection_scheme \<Rightarrow> resource_command \<Rightarrow> lk_error + decision" where
  "decide_fresh_accepted p (RequestGrant c) = decide_request p c"
| "decide_fresh_accepted p (StartGrant c) = decide_start p c"
| "decide_fresh_accepted p (SettleGrant c usage) = decide_settle p c usage"
| "decide_fresh_accepted p (CancelGrant c reason) = decide_cancel p c reason"
| "decide_fresh_accepted p (DeadlineObserved c) = decide_deadline p c"
| "decide_fresh_accepted p (UsageUnknown c reason) = decide_unknown p c reason"

definition decide_fresh :: "'a resource_projection_scheme \<Rightarrow> resource_command \<Rightarrow> lk_error + decision" where
  "decide_fresh p c =
     (case decide_fresh_accepted p c of
        Inl (Rejection r) \<Rightarrow> rejected_decision p c r
      | other \<Rightarrow> other)"

end
