(* ===== verification/Resource_Evolve.thy ===== *)
theory Resource_Evolve
  imports Resource_Decide
begin

text \<open>
  The journal of \<^verbatim>\<open>lakatos/resource_coordination.py\<close>: validation of one transition
  against its exact prefix, replay of the retained history from genesis, the constructor
  of \<^verbatim>\<open>ResourceState\<close> that runs it, and the two public functions \<^verbatim>\<open>decide\<close> and
  \<^verbatim>\<open>evolve\<close>.
\<close>

section \<open>One transition against its prefix\<close>

definition validate_transition_against :: "'a resource_projection_scheme \<Rightarrow> resource_transition \<Rightarrow>
    lk_error + unit" where
  "validate_transition_against p t =
     ebind (raise_if (command_hash (t_command t) \<noteq> t_command_sha256 t)
       (invalid_transition ''command payload does not match its content hash'')) (\<lambda>_.
     ebind (transition_body p (t_command t) (t_command_sha256 t) (t_grant t) (t_spent_delta t)
       (t_freeze_budget t)) (\<lambda>body.
     let payload_sha = canonical_sha body; receipt = t_receipt t in
     ebind (run_checks
       [raise_if (payload_sha \<noteq> t_transition_payload_sha256 t)
          (invalid_transition ''transition payload does not match its content hash''),
        raise_if (r_transition_payload_sha256 receipt \<noteq> payload_sha)
          (invalid_transition ''receipt does not bind the transition payload''),
        raise_if (receipt_sha256 receipt \<noteq> t_receipt_sha256 t)
          (invalid_transition ''receipt payload does not match its content hash''),
        raise_if (canonical_sha (transition_envelope payload_sha (t_receipt_sha256 t))
            \<noteq> t_transition_sha256 t)
          (invalid_transition ''transition envelope does not match its content hash'')]) (\<lambda>_.
     ebind (projected_state_sha256 p (t_command t) (t_grant t) (t_spent_delta t)
       (t_freeze_budget t)) (\<lambda>after.
     ebind (raise_if
       (r_budget_id receipt \<noteq> p_budget_id p \<or> r_scope receipt \<noteq> p_scope p \<or>
        r_epoch receipt \<noteq> p_epoch p \<or> r_before_revision receipt \<noteq> p_revision p \<or>
        r_after_revision receipt \<noteq> p_revision p + 1 \<or>
        r_before_state_sha256 receipt \<noteq> state_sha256 p \<or>
        r_after_state_sha256 receipt \<noteq> after \<or>
        r_command_id receipt \<noteq> command_id (t_command t) \<or>
        r_command_sha256 receipt \<noteq> t_command_sha256 t \<or>
        r_operation receipt \<noteq> operation (t_command t) \<or>
        r_engine_rule_sha256 receipt \<noteq> ENGINE_RULE_SHA256)
       (invalid_transition ''receipt identity or revision does not match current state'')) (\<lambda>_.
     ebind (decide_fresh p (t_command t)) (\<lambda>expected.
     raise_if (d_transitions expected \<noteq> [t])
       (invalid_transition ''transition does not match the deterministic decision'')))))))"

definition projection_after :: "'a resource_projection_scheme \<Rightarrow> resource_transition \<Rightarrow>
    lk_error + resource_projection" where
  "projection_after p t =
     ebind (projected_grants p (t_command t) (t_grant t)) (\<lambda>gs.
     Inr \<lparr>p_schema_version = p_schema_version p, p_budget_id = p_budget_id p,
          p_scope = p_scope p, p_epoch = p_epoch p, p_revision = p_revision p + 1,
          p_hard_caps = p_hard_caps p, p_spent = p_spent p + t_spent_delta t,
          p_status = (if t_freeze_budget t then FROZEN else p_status p), p_grants = gs\<rparr>)"

section \<open>Replay of the retained history\<close>

definition genesis :: "'a resource_projection_scheme \<Rightarrow> resource_projection" where
  "genesis p =
     \<lparr>p_schema_version = p_schema_version p, p_budget_id = p_budget_id p, p_scope = p_scope p,
      p_epoch = p_epoch p, p_revision = 0, p_hard_caps = p_hard_caps p, p_spent = 0,
      p_status = ACTIVE, p_grants = []\<rparr>"

text \<open>\<^verbatim>\<open>except ResourceRejection as exc: raise ValueError(\<dots>) from exc\<close>\<close>

definition rejection_as_value_error :: "string \<Rightarrow> lk_error + 'a \<Rightarrow> lk_error + 'a" where
  "rejection_as_value_error m r =
     (case r of Inl (Rejection _) \<Rightarrow> Inl (ValueError m) | other \<Rightarrow> other)"

definition replay_record :: "resource_projection \<Rightarrow> command_record \<Rightarrow> lk_error + resource_projection" where
  "replay_record p rec =
     (let t = cr_transition rec; receipt = cr_receipt rec in
      ebind (run_checks
        [check_identifier (cr_command_id rec) ''record.command_id'',
         check_sha256 (cr_command_sha256 rec) ''record.command_sha256'',
         check_sha256 (cr_receipt_sha256 rec) ''record.receipt_sha256'',
         check_sha256 (cr_transition_sha256 rec) ''record.transition_sha256'',
         raise_if (cr_command_id rec \<noteq> command_id (t_command t) \<or> cr_command_id rec \<noteq> r_command_id receipt)
           (ValueError ''command record, transition, and receipt IDs diverged''),
         raise_if (cr_command_sha256 rec \<noteq> t_command_sha256 t \<or> cr_command_sha256 rec \<noteq> r_command_sha256 receipt)
           (ValueError ''command record, transition, and receipt hashes diverged''),
         raise_if (receipt \<noteq> t_receipt t \<or> cr_receipt_sha256 rec \<noteq> t_receipt_sha256 t \<or>
             cr_receipt_sha256 rec \<noteq> receipt_sha256 receipt)
           (ValueError ''command record receipt binding is invalid''),
         raise_if (cr_transition_sha256 rec \<noteq> t_transition_sha256 t)
           (ValueError ''command record transition hash is invalid''),
         raise_if (p_revision p = 0 \<and> r_before_state_sha256 receipt \<noteq> state_sha256 p)
           (ValueError ''journal does not begin at this budget genesis''),
         rejection_as_value_error ''command record failed deterministic semantic replay''
           (validate_transition_against p t)])
      (\<lambda>_. projection_after p t))"

record resource_state = resource_projection +
  s_command_records :: "command_record list"

definition validate_retained_history :: "resource_state \<Rightarrow> lk_error + unit" where
  "validate_retained_history s =
     (if s_command_records s = [] then
        raise_if (state_sha256 s \<noteq> state_sha256 (genesis s))
          (ValueError ''empty journal state must equal the budget genesis'')
      else
        ebind (fold_result replay_record (genesis s) (s_command_records s)) (\<lambda>p.
        raise_if (p_revision p \<noteq> p_revision s \<or> p_spent p \<noteq> p_spent s \<or> p_status p \<noteq> p_status s \<or>
            p_grants p \<noteq> p_grants s \<or> state_sha256 p \<noteq> state_sha256 s)
          (ValueError ''current state diverges from the retained journal replay'')))"

section \<open>States\<close>

definition charge_grant :: "resource_vector \<Rightarrow> resource_grant \<Rightarrow> lk_error + resource_vector" where
  "charge_grant acc g =
     ebind (raise_if (g_status g \<in> set [SETTLED, CANCELLED_SETTLED] \<and> exceeds (g_actual g) (g_reserved g) \<noteq> [])
       (ValueError ''non-quarantined settlement exceeds its reservation''))
     (\<lambda>_. Inr (if charged (g_status g) then acc + g_actual g else acc))"

definition post_init_state :: "resource_state \<Rightarrow> lk_error + unit" where
  "post_init_state s =
     ebind (run_checks
       [check_schema (p_schema_version s) ''resource state'',
        post_init_budget \<lparr>b_budget_id = p_budget_id s, b_scope = p_scope s, b_epoch = p_epoch s,
          b_hard_caps = p_hard_caps s, b_schema_version = p_schema_version s\<rparr>,
        check_integer (p_revision s) ''revision'' 0,
        raise_if (length (map g_grant_id (p_grants s)) \<noteq> card (set (map g_grant_id (p_grants s))))
          (ValueError ''duplicate grant_id in resource state'')]) (\<lambda>_.
     ebind (fold_result charge_grant 0 (p_grants s)) (\<lambda>charged_sum.
     let quarantined = list_ex (\<lambda>g. g_status g = QUARANTINED_OVERRUN) (p_grants s);
         deficits = hard_cap_deficits (p_spent s + reserved_total s) (p_hard_caps s);
         command_ids = map cr_command_id (s_command_records s) in
     run_checks
       [raise_if (charged_sum \<noteq> p_spent s)
          (ValueError ''spent must equal the measured usage of charged grants''),
        raise_if (quarantined \<and> p_status s \<noteq> FROZEN)
          (ValueError ''a quarantined overrun must freeze the budget''),
        raise_if (p_status s = FROZEN \<and> \<not> quarantined)
          (ValueError ''a frozen v1 budget requires a quarantined overrun''),
        raise_if (p_status s = ACTIVE \<and> deficits \<noteq> [])
          (ValueError (''active budget exceeds hard caps: '' @ repr_str_tuple deficits)),
        raise_if (length command_ids \<noteq> card (set command_ids))
          (ValueError ''duplicate command_id in resource state''),
        raise_if (int (length (s_command_records s)) \<noteq> p_revision s)
          (ValueError ''revision must equal the number of retained command records''),
        validate_retained_history s]))"

definition mk_state :: "resource_state \<Rightarrow> lk_error + resource_state" where
  "mk_state s = ebind (post_init_state s) (\<lambda>_. Inr s)"

definition create :: "string \<Rightarrow> string \<Rightarrow> int \<Rightarrow> resource_vector \<Rightarrow> lk_error + resource_state" where
  "create budget_id scope epoch hard_caps =
     ebind (mk_budget \<lparr>b_budget_id = budget_id, b_scope = scope, b_epoch = epoch,
       b_hard_caps = hard_caps, b_schema_version = SCHEMA_VERSION\<rparr>) (\<lambda>budget.
     mk_state
       \<lparr>p_schema_version = b_schema_version budget, p_budget_id = b_budget_id budget,
        p_scope = b_scope budget, p_epoch = b_epoch budget, p_revision = 0,
        p_hard_caps = b_hard_caps budget, p_spent = 0, p_status = ACTIVE, p_grants = [],
        s_command_records = []\<rparr>)"

section \<open>decide and evolve\<close>

definition decide :: "resource_state \<Rightarrow> resource_command \<Rightarrow> lk_error + decision" where
  "decide s c =
     (case find (\<lambda>rec. cr_command_id rec = command_id c) (s_command_records s) of
        Some rec \<Rightarrow>
          ebind (raise_if (cr_command_sha256 rec \<noteq> command_hash c)
            (Rejection (IdempotencyConflict (command_id c)))) (\<lambda>_.
          mk_decision_value
            \<lparr>d_transitions = [], d_replayed = True, d_replay_receipt = Some (cr_receipt rec)\<rparr>)
      | None \<Rightarrow> decide_fresh s c)"

definition record_of :: "resource_transition \<Rightarrow> command_record" where
  "record_of t =
     \<lparr>cr_command_id = command_id (t_command t), cr_command_sha256 = t_command_sha256 t,
      cr_receipt_sha256 = t_receipt_sha256 t, cr_transition_sha256 = t_transition_sha256 t,
      cr_receipt = t_receipt t, cr_transition = t\<rparr>"

definition evolve :: "resource_state \<Rightarrow> resource_transition \<Rightarrow> lk_error + resource_state" where
  "evolve s t =
     ebind (raise_if (list_ex (\<lambda>rec. cr_command_id rec = command_id (t_command t)) (s_command_records s))
       (invalid_transition ''command transition was already applied'')) (\<lambda>_.
     ebind (validate_transition_against s t) (\<lambda>_.
     ebind (projection_after s t) (\<lambda>p.
     mk_state
       \<lparr>p_schema_version = p_schema_version s, p_budget_id = p_budget_id s, p_scope = p_scope s,
        p_epoch = p_epoch s, p_revision = p_revision s + 1, p_hard_caps = p_hard_caps s,
        p_spent = p_spent p, p_status = p_status p, p_grants = p_grants p,
        s_command_records = s_command_records s @ [record_of t]\<rparr>)))"

definition evolve_all :: "resource_state \<Rightarrow> decision \<Rightarrow> lk_error + resource_state" where
  "evolve_all s d = fold_result evolve s (d_transitions d)"

text \<open>Deciding a command and applying the decision, as every adapter does.\<close>

definition submit :: "resource_state \<Rightarrow> resource_command \<Rightarrow> lk_error + resource_state" where
  "submit s c = ebind (decide s c) (evolve_all s)"

end
