(* ===== verification/Resource_Fresh.thy ===== *)
theory Resource_Fresh
  imports Resource_Evolve
begin

text \<open>
  What a fresh decision is: for a well-formed ledger and a constructible command,
  \<^verbatim>\<open>_decide_fresh\<close> always returns, and its one transition is \<open>transition_value\<close> of the
  arguments that the guards select. \<open>accepts\<close> lists the accepting branches, one rule per
  branch with its guard; \<open>rejection_args\<close> is the other outcome.
\<close>

section \<open>Well-formed commands and ledgers\<close>

definition estimate_ok :: "resource_estimate \<Rightarrow> bool" where
  "estimate_ok e \<longleftrightarrow>
     e_schema_version e = SCHEMA_VERSION \<and> identifier_ok (e_work_id e) \<and> identifier_ok (e_attempt_id e) \<and>
     sha256_ok (e_workload_sha256 e) \<and> identifier_ok (e_adapter e) \<and> identifier_ok (e_adapter_version e) \<and>
     instant_ok (e_valid_until e) \<and> e_upper_bound e \<noteq> 0 \<and>
     (\<forall>v. e_expected e = Some v \<longrightarrow> v \<le> e_upper_bound e)"

definition usage_ok :: "resource_usage \<Rightarrow> bool" where
  "usage_ok u \<longleftrightarrow>
     u_schema_version u = SCHEMA_VERSION \<and> instant_ok (u_measured_at u) \<and>
     sha256_ok (u_measurement_sha256 u) \<and> sha256_ok (u_evidence_sha256 u)"

definition request_ok :: "request_grant \<Rightarrow> bool" where
  "request_ok c \<longleftrightarrow>
     identifier_ok (rq_command_id c) \<and> identifier_ok (rq_grant_id c) \<and> 1 \<le> rq_fence_token c \<and>
     instant_ok (rq_observed_at c) \<and> instant_ok (rq_expires_at c) \<and> estimate_ok (rq_estimate c)"

definition grant_command_ok :: "grant_command \<Rightarrow> bool" where
  "grant_command_ok c \<longleftrightarrow>
     identifier_ok (gc_command_id c) \<and> identifier_ok (gc_grant_id c) \<and> 1 \<le> gc_fence_token c \<and>
     sha256_ok (gc_workload_sha256 c) \<and> instant_ok (gc_observed_at c)"

fun command_ok :: "resource_command \<Rightarrow> bool" where
  "command_ok (RequestGrant c) = request_ok c"
| "command_ok (StartGrant c) = grant_command_ok c"
| "command_ok (SettleGrant c u) = (grant_command_ok c \<and> usage_ok u)"
| "command_ok (CancelGrant c r) = (grant_command_ok c \<and> recorded_text_ok r)"
| "command_ok (DeadlineObserved c) = grant_command_ok c"
| "command_ok (UsageUnknown c r) = (grant_command_ok c \<and> recorded_text_ok r)"

lemma post_init_estimate_Inr [check_simps]: "post_init_estimate e = Inr u \<longleftrightarrow> estimate_ok e"
  unfolding post_init_estimate_def estimate_ok_def
  by (cases "e_expected e") (auto simp: check_simps result_simps exceeds_Nil_iff)

lemma post_init_usage_Inr [check_simps]: "post_init_usage v = Inr u \<longleftrightarrow> usage_ok v"
  unfolding post_init_usage_def usage_ok_def by (auto simp: check_simps result_simps)

lemma post_init_command_Inr [check_simps]: "post_init_command c = Inr u \<longleftrightarrow> command_ok c"
  by (cases c)
    (auto simp: check_simps result_simps post_init_request_grant_def post_init_grant_command_def
      request_ok_def grant_command_ok_def)

lemma command_ok_ids: "command_ok c \<Longrightarrow> identifier_ok (command_id c) \<and> identifier_ok (command_grant_id c)"
  by (cases c) (auto simp: request_ok_def grant_command_ok_def)

definition charged_total :: "resource_grant list \<Rightarrow> resource_vector" where
  "charged_total gs = sum_list (map (\<lambda>g. if charged (g_status g) then g_actual g else 0) gs)"

definition held_total :: "resource_grant list \<Rightarrow> resource_vector" where
  "held_total gs = sum_list (map (\<lambda>g. if holds_reservation (g_status g) then g_reserved g else 0) gs)"

definition quarantined :: "resource_grant list \<Rightarrow> bool" where
  "quarantined gs = list_ex (\<lambda>g. g_status g = QUARANTINED_OVERRUN) gs"

definition identity_ok :: "'a resource_projection_scheme \<Rightarrow> bool" where
  "identity_ok p \<longleftrightarrow>
     p_schema_version p = SCHEMA_VERSION \<and> identifier_ok (p_budget_id p) \<and> identifier_ok (p_scope p) \<and>
     1 \<le> p_epoch p \<and> 0 \<le> p_revision p"

text \<open>The ledger invariant: everything \<^verbatim>\<open>ResourceState\<close> checks besides its history.\<close>

definition ledger_ok :: "'a resource_projection_scheme \<Rightarrow> bool" where
  "ledger_ok p \<longleftrightarrow>
     identity_ok p \<and> list_all grant_ok (p_grants p) \<and> distinct (map g_grant_id (p_grants p)) \<and>
     charged_total (p_grants p) = p_spent p \<and>
     list_all (\<lambda>g. g_status g \<in> {SETTLED, CANCELLED_SETTLED} \<longrightarrow> g_actual g \<le> g_reserved g) (p_grants p) \<and>
     (p_status p = FROZEN \<longleftrightarrow> quarantined (p_grants p)) \<and>
     (p_status p = ACTIVE \<longrightarrow> p_spent p + held_total (p_grants p) \<le> p_hard_caps p)"

lemma reserved_total_eq: "reserved_total p = held_total (p_grants p)"
proof -
  have "foldl (\<lambda>t g. if holds_reservation (g_status g) then t + g_reserved g else t) a gs =
      a + held_total gs" for a gs
    by (induction gs arbitrary: a) (auto simp: held_total_def add.assoc)
  then show ?thesis by (simp add: reserved_total_def)
qed

lemma fold_charge_grant:
  "fold_result charge_grant a gs = Inr r \<longleftrightarrow>
     list_all (\<lambda>g. g_status g \<in> {SETTLED, CANCELLED_SETTLED} \<longrightarrow> g_actual g \<le> g_reserved g) gs \<and>
     r = a + charged_total gs"
  by (induction gs arbitrary: a)
    (auto simp: charge_grant_def charged_total_def result_simps check_simps exceeds_Nil_iff add.assoc)

section \<open>Sequencing rules for the checks that pass\<close>

lemma ebind_raise_if: "ebind (raise_if c e) f = (if c then Inl e else f ())"
  by (simp add: raise_if_def)

lemma ebind_run_checks_Cons: "ebind (run_checks (c # cs)) f = ebind c (\<lambda>_. ebind (run_checks cs) f)"
  by (simp add: ebind_assoc)

lemma ebind_utc_instant: "instant_ok v \<Longrightarrow> ebind (utc_instant v l) f = f (instant_of v)"
  by (simp add: utc_instant_ok)

lemma ebind_mk_grant: "grant_ok g \<Longrightarrow> ebind (mk_grant g) f = f g"
  by (simp add: mk_grant_def ebind_def check_simps split: sum.splits)
    (metis post_init_grant_Inr sum.exhaust old.unit.exhaust sum.distinct(1))

lemmas sequencing = ebind_raise_if ebind_run_checks_Cons ebind_utc_instant ebind_mk_grant

section \<open>The transition a decision carries\<close>

definition body_value :: "'a resource_projection_scheme \<Rightarrow> resource_command \<Rightarrow> decision_args \<Rightarrow> string \<Rightarrow> json" where
  "body_value p c a after = JObj
     [(''schema_version'', JStr SCHEMA_VERSION),
      (''budget_id'', JStr (p_budget_id p)),
      (''scope'', JStr (p_scope p)),
      (''epoch'', JInt (p_epoch p)),
      (''before_revision'', JInt (p_revision p)),
      (''after_revision'', JInt (p_revision p + 1)),
      (''before_state_sha256'', JStr (state_sha256 p)),
      (''after_state_sha256'', JStr after),
      (''command'', command_to_dict c),
      (''command_sha256'', JStr (command_hash c)),
      (''grant'', json_opt grant_to_dict (a_grant a)),
      (''spent_delta'', vector_to_dict (a_spent_delta a)),
      (''freeze_budget'', JBool (a_freeze_budget a))]"

definition after_value :: "'a resource_projection_scheme \<Rightarrow> decision_args \<Rightarrow> resource_grant list \<Rightarrow> string" where
  "after_value p a gs =
     snapshot_sha256 p (p_spent p + a_spent_delta a) (if a_freeze_budget a then FROZEN else p_status p)
       (p_revision p + 1) gs"

definition receipt_value :: "'a resource_projection_scheme \<Rightarrow> resource_command \<Rightarrow> decision_args \<Rightarrow>
    string \<Rightarrow> resource_receipt" where
  "receipt_value p c a after =
     \<lparr>r_schema_version = SCHEMA_VERSION, r_budget_id = p_budget_id p, r_scope = p_scope p,
      r_epoch = p_epoch p, r_operation = operation c, r_outcome = a_outcome a,
      r_command_id = command_id c, r_command_sha256 = command_hash c,
      r_before_state_sha256 = state_sha256 p, r_after_state_sha256 = after,
      r_transition_payload_sha256 = canonical_sha (body_value p c a after),
      r_before_revision = p_revision p, r_after_revision = p_revision p + 1,
      r_grant_id = command_grant_id c, r_reserved = a_reserved a, r_actual = a_actual a,
      r_released = a_released a, r_failure_code = a_failure_code a,
      r_failure_detail = a_failure_detail a, r_failure_dimensions = a_failure_dimensions a,
      r_evidence_sha256 = a_evidence_sha256 a, r_engine_rule_sha256 = ENGINE_RULE_SHA256\<rparr>"

definition transition_value :: "'a resource_projection_scheme \<Rightarrow> resource_command \<Rightarrow> decision_args \<Rightarrow>
    string \<Rightarrow> resource_transition" where
  "transition_value p c a after =
     (let payload = canonical_sha (body_value p c a after);
          receipt_sha = receipt_sha256 (receipt_value p c a after) in
      \<lparr>t_command = c, t_command_sha256 = command_hash c, t_transition_payload_sha256 = payload,
       t_receipt_sha256 = receipt_sha,
       t_transition_sha256 = canonical_sha (transition_envelope payload receipt_sha),
       t_grant = a_grant a, t_spent_delta = a_spent_delta a, t_freeze_budget = a_freeze_budget a,
       t_receipt = receipt_value p c a after\<rparr>)"

definition fresh_decision :: "resource_transition \<Rightarrow> decision" where
  "fresh_decision t = \<lparr>d_transitions = [t], d_replayed = False, d_replay_receipt = None\<rparr>"

text \<open>The arguments whose receipt the constructor accepts.\<close>

definition args_ok :: "decision_args \<Rightarrow> bool" where
  "args_ok a \<longleftrightarrow>
     identifier_ok (a_outcome a) \<and>
     (case a_failure_code a of
        None \<Rightarrow> a_failure_detail a = None \<and> a_failure_dimensions a = []
      | Some code \<Rightarrow> identifier_ok code \<and> (\<forall>d. a_failure_detail a = Some d \<longrightarrow> recorded_text_ok d)) \<and>
     set (a_failure_dimensions a) \<subseteq> set DIMENSIONS \<and> distinct (a_failure_dimensions a) \<and>
     (\<forall>h. a_evidence_sha256 a = Some h \<longrightarrow> sha256_ok h)"

lemma sha256_ok_sha256_hex [simp]: "sha256_ok (sha256_hex m)"
  by (simp add: sha256_ok_def)

lemma identifier_ok_operation [simp]: "identifier_ok (operation c)"
  by (cases c) (simp_all add: identifier_ok_def str_isprintable_def printable_char_def)

lemma sha256_ok_state_sha256 [simp]: "sha256_ok (state_sha256 p)" "sha256_ok (snapshot_sha256 p sp st rv gs)"
  "sha256_ok (after_value p a gs)"
  by (simp_all add: state_sha256_def snapshot_sha256_def after_value_def)

lemma sha256_ok_hashes [simp]: "sha256_ok (command_hash c)" "sha256_ok (receipt_sha256 r)"
  "sha256_ok (estimate_sha256 e)" "sha256_ok ENGINE_RULE_SHA256"
  by (simp_all add: command_hash_def receipt_sha256_def estimate_sha256_def ENGINE_RULE_SHA256_def)

lemma post_init_receipt_value:
  assumes "identity_ok p" and "command_ok c" and "sha256_ok after"
  shows "post_init_receipt (receipt_value p c a after) = Inr u \<longleftrightarrow> args_ok a"
  using assms command_ok_ids [OF assms(2)]
  unfolding post_init_receipt_def receipt_value_def args_ok_def identity_ok_def
  by (auto simp: check_simps result_simps length_eq_card_iff split: option.splits)

lemma json_str_at_body [simp]:
  "json_str_at (body_value p c a after) ''before_state_sha256'' = state_sha256 p"
  "json_str_at (body_value p c a after) ''after_state_sha256'' = after"
  by (simp_all add: body_value_def json_str_at_def)

lemma transition_body_value:
  "transition_body p c (command_hash c) (a_grant a) (a_spent_delta a) (a_freeze_budget a) =
     ebind (projected_grants p c (a_grant a)) (\<lambda>gs. Inr (body_value p c a (after_value p a gs)))"
  by (simp add: transition_body_def projected_state_sha256_def body_value_def after_value_def ebind_assoc)

lemma post_init_transition_value: "post_init_transition (transition_value p c a after) = Inr ()"
  by (simp add: post_init_transition_def transition_value_def Let_def check_simps result_simps)

lemma decision_of_eq:
  "decision_of p c a =
     ebind (projected_grants p c (a_grant a)) (\<lambda>gs.
     ebind (post_init_receipt (receipt_value p c a (after_value p a gs))) (\<lambda>_.
     Inr (fresh_decision (transition_value p c a (after_value p a gs)))))"
proof -
  have "mk_transition (transition_value p c a after) = Inr (transition_value p c a after)" for after
    by (simp add: mk_transition_def post_init_transition_value)
  then show ?thesis
    unfolding decision_of_def Let_def transition_body_value ebind_assoc
    by (simp add: receipt_value_def [symmetric] transition_value_def [unfolded Let_def, symmetric]
        mk_receipt_def ebind_assoc mk_decision_value_def post_init_decision_def fresh_decision_def)
qed

lemma decision_of_value:
  assumes "identity_ok p" and "command_ok c" and "args_ok a" and "projected_grants p c (a_grant a) = Inr gs"
  shows "decision_of p c a = Inr (fresh_decision (transition_value p c a (after_value p a gs)))"
proof -
  have "post_init_receipt (receipt_value p c a (after_value p a gs)) = Inr ()"
    using assms by (simp add: post_init_receipt_value)
  with assms(4) show ?thesis by (simp add: decision_of_eq)
qed

lemma decision_of_Inr:
  assumes "decision_of p c a = Inr d"
  obtains gs where "projected_grants p c (a_grant a) = Inr gs"
    and "d = fresh_decision (transition_value p c a (after_value p a gs))"
  using assms by (auto simp: decision_of_eq result_simps)

lemma transition_value_simps [simp]:
  "t_command (transition_value p c a after) = c"
  "t_command_sha256 (transition_value p c a after) = command_hash c"
  "t_transition_payload_sha256 (transition_value p c a after) = canonical_sha (body_value p c a after)"
  "t_receipt_sha256 (transition_value p c a after) = receipt_sha256 (receipt_value p c a after)"
  "t_grant (transition_value p c a after) = a_grant a"
  "t_spent_delta (transition_value p c a after) = a_spent_delta a"
  "t_freeze_budget (transition_value p c a after) = a_freeze_budget a"
  "t_receipt (transition_value p c a after) = receipt_value p c a after"
  "t_transition_sha256 (transition_value p c a after) =
     canonical_sha (transition_envelope (canonical_sha (body_value p c a after))
       (receipt_sha256 (receipt_value p c a after)))"
  by (simp_all add: transition_value_def Let_def)

lemma receipt_value_simps [simp]:
  "r_outcome (receipt_value p c a after) = a_outcome a"
  "r_command_id (receipt_value p c a after) = command_id c"
  "r_command_sha256 (receipt_value p c a after) = command_hash c"
  "r_reserved (receipt_value p c a after) = a_reserved a"
  "r_actual (receipt_value p c a after) = a_actual a"
  "r_released (receipt_value p c a after) = a_released a"
  "r_before_state_sha256 (receipt_value p c a after) = state_sha256 p"
  "r_after_state_sha256 (receipt_value p c a after) = after"
  "r_before_revision (receipt_value p c a after) = p_revision p"
  "r_after_revision (receipt_value p c a after) = p_revision p + 1"
  "r_operation (receipt_value p c a after) = operation c"
  "r_grant_id (receipt_value p c a after) = command_grant_id c"
  "r_failure_code (receipt_value p c a after) = a_failure_code a"
  "r_failure_detail (receipt_value p c a after) = a_failure_detail a"
  "r_failure_dimensions (receipt_value p c a after) = a_failure_dimensions a"
  by (simp_all add: receipt_value_def)

lemma fresh_decision_simps [simp]:
  "d_transitions (fresh_decision t) = [t]" "d_replayed (fresh_decision t) = False"
  "decision_receipt (fresh_decision t) = t_receipt t"
  by (simp_all add: fresh_decision_def decision_receipt_def)

end
