(* ===== verification/Resource_Outcome.thy ===== *)
theory Resource_Outcome
  imports Resource_Fresh
begin

text \<open>
  The accepting branches of \<^verbatim>\<open>_decide_fresh_accepted\<close> as a relation: \<open>accepts p c a\<close>
  has one rule per branch, with the branch's guards over instants and vectors as premises
  and the decision's arguments as result. The lemmas show that, on a well-formed ledger
  and a constructible command, the code takes a branch of \<open>accepts\<close> or raises a
  \<^verbatim>\<open>ResourceRejection\<close>, never another exception.
\<close>

section \<open>The grants the branches store\<close>

definition new_grant :: "request_grant \<Rightarrow> resource_grant" where
  "new_grant c =
     \<lparr>g_grant_id = rq_grant_id c, g_estimate_sha256 = estimate_sha256 (rq_estimate c),
      g_workload_sha256 = e_workload_sha256 (rq_estimate c),
      g_reserved = e_upper_bound (rq_estimate c), g_reserved_at = rq_observed_at c,
      g_expires_at = rq_expires_at c, g_fence_token = rq_fence_token c, g_status = RESERVED,
      g_last_observed_at = rq_observed_at c, g_started_at = None, g_actual = 0,
      g_measured_at = None, g_measurement_sha256 = None, g_evidence_sha256 = None,
      g_cancel_requested = False, g_schema_version = SCHEMA_VERSION\<rparr>"

definition start_update :: "grant_command \<Rightarrow> resource_grant \<Rightarrow> resource_grant" where
  "start_update c g = g\<lparr>g_status := IN_USE, g_started_at := Some (gc_observed_at c),
     g_last_observed_at := gc_observed_at c\<rparr>"

definition settle_update :: "grant_command \<Rightarrow> resource_usage \<Rightarrow> grant_status \<Rightarrow> resource_grant \<Rightarrow> resource_grant" where
  "settle_update c u st g = g\<lparr>g_status := st, g_actual := u_actual u,
     g_measured_at := Some (u_measured_at u), g_measurement_sha256 := Some (u_measurement_sha256 u),
     g_evidence_sha256 := Some (u_evidence_sha256 u), g_last_observed_at := gc_observed_at c\<rparr>"

definition release_update :: "grant_command \<Rightarrow> grant_status \<Rightarrow> resource_grant \<Rightarrow> resource_grant" where
  "release_update c st g = g\<lparr>g_status := st, g_last_observed_at := gc_observed_at c\<rparr>"

definition pend_update :: "grant_command \<Rightarrow> resource_grant \<Rightarrow> resource_grant" where
  "pend_update c g = g\<lparr>g_status := CANCEL_PENDING, g_cancel_requested := True,
     g_last_observed_at := gc_observed_at c\<rparr>"

lemmas update_defs = new_grant_def start_update_def settle_update_def release_update_def pend_update_def

lemmas grant_ok_defs = grant_ok_def grant_times_ok_def grant_evidence_ok_def

lemmas status_class_defs = post_start_def charged_def holds_reservation_def

lemma new_grant_ok: "request_ok c \<Longrightarrow> grant_ok (new_grant c)"
  by (auto simp: new_grant_def grant_ok_defs request_ok_def estimate_ok_def status_class_defs)

lemma start_update_ok:
  assumes "grant_ok g" "g_status g = RESERVED" "grant_command_ok c"
    and "instant_of (g_last_observed_at g) \<le> instant_of (gc_observed_at c)"
  shows "grant_ok (start_update c g)"
  using assms by (auto simp: start_update_def grant_ok_defs grant_command_ok_def status_class_defs)

lemma settle_update_ok:
  assumes "grant_ok g" "grant_command_ok c" "usage_ok u" "g_started_at g = Some s"
    and "instant_of (g_last_observed_at g) \<le> instant_of (gc_observed_at c)"
    and "instant_of s \<le> instant_of (u_measured_at u)"
    and "instant_of (u_measured_at u) \<le> instant_of (gc_observed_at c)"
    and "st = (if \<not> u_actual u \<le> g_reserved g then QUARANTINED_OVERRUN
               else if g_cancel_requested g then CANCELLED_SETTLED else SETTLED)"
  shows "grant_ok (settle_update c u st g)"
  using assms
  by (auto simp: settle_update_def grant_ok_defs grant_command_ok_def usage_ok_def status_class_defs
      split: if_splits)

lemma release_update_ok:
  assumes "grant_ok g" "g_status g = RESERVED" "grant_command_ok c"
    and "instant_of (g_last_observed_at g) \<le> instant_of (gc_observed_at c)"
    and "st \<in> {CANCELLED_UNUSED, EXPIRED_UNUSED}"
  shows "grant_ok (release_update c st g)"
  using assms by (auto simp: release_update_def grant_ok_defs grant_command_ok_def status_class_defs)

lemma pend_update_ok:
  assumes "grant_ok g" "g_status g = IN_USE" "grant_command_ok c"
    and "instant_of (g_last_observed_at g) \<le> instant_of (gc_observed_at c)"
  shows "grant_ok (pend_update c g)"
  using assms by (auto simp: pend_update_def grant_ok_defs grant_command_ok_def status_class_defs)

lemma unknown_update_ok:
  assumes "grant_ok g" "g_status g \<in> {IN_USE, CANCEL_PENDING}" "grant_command_ok c"
    and "instant_of (g_last_observed_at g) \<le> instant_of (gc_observed_at c)"
  shows "grant_ok (release_update c RECONCILIATION_REQUIRED g)"
  using assms by (auto simp: release_update_def grant_ok_defs grant_command_ok_def status_class_defs)

section \<open>The accepting branches\<close>

definition binds :: "'a resource_projection_scheme \<Rightarrow> grant_command \<Rightarrow> resource_grant \<Rightarrow> bool" where
  "binds p c g \<longleftrightarrow>
     find (\<lambda>x. g_grant_id x = gc_grant_id c) (p_grants p) = Some g \<and>
     g_fence_token g = gc_fence_token c \<and> g_workload_sha256 g = gc_workload_sha256 c"

definition observes_after :: "grant_command \<Rightarrow> resource_grant \<Rightarrow> bool" where
  "observes_after c g \<longleftrightarrow> instant_of (g_last_observed_at g) \<le> instant_of (gc_observed_at c)"

definition reserve_args :: "request_grant \<Rightarrow> decision_args" where
  "reserve_args c = (decision_defaults ''reserved'' (Some (new_grant c)))
     \<lparr>a_reserved := g_reserved (new_grant c)\<rparr>"

definition start_args :: "grant_command \<Rightarrow> resource_grant \<Rightarrow> decision_args" where
  "start_args c g = (decision_defaults ''in_use'' (Some (start_update c g)))\<lparr>a_reserved := g_reserved g\<rparr>"

definition settled_status :: "resource_grant \<Rightarrow> grant_status" where
  "settled_status g = (if g_cancel_requested g then CANCELLED_SETTLED else SETTLED)"

definition settle_args :: "grant_command \<Rightarrow> resource_usage \<Rightarrow> resource_grant \<Rightarrow> decision_args" where
  "settle_args c u g =
     (decision_defaults (str_lower (grant_status_value (settled_status g)))
        (Some (settle_update c u (settled_status g) g)))
       \<lparr>a_reserved := g_reserved g, a_actual := u_actual u, a_released := g_reserved g - u_actual u,
        a_spent_delta := u_actual u, a_evidence_sha256 := Some (u_evidence_sha256 u)\<rparr>"

definition overrun_args :: "grant_command \<Rightarrow> resource_usage \<Rightarrow> resource_grant \<Rightarrow> decision_args" where
  "overrun_args c u g =
     (decision_defaults ''quarantined_overrun'' (Some (settle_update c u QUARANTINED_OVERRUN g)))
       \<lparr>a_reserved := g_reserved g, a_actual := u_actual u, a_released := g_reserved g - u_actual u,
        a_spent_delta := u_actual u, a_freeze_budget := True,
        a_failure_code := Some ''RESOURCE_OVERRUN'',
        a_failure_detail := Some ''measured usage exceeded the reserved vector'',
        a_failure_dimensions := exceeds (u_actual u) (g_reserved g),
        a_evidence_sha256 := Some (u_evidence_sha256 u)\<rparr>"

definition release_args :: "grant_command \<Rightarrow> string \<Rightarrow> grant_status \<Rightarrow> resource_grant \<Rightarrow> decision_args" where
  "release_args c outcome st g = (decision_defaults outcome (Some (release_update c st g)))
     \<lparr>a_reserved := g_reserved g, a_released := g_reserved g\<rparr>"

definition pend_args :: "grant_command \<Rightarrow> resource_grant \<Rightarrow> decision_args" where
  "pend_args c g = (decision_defaults ''cancel_pending'' (Some (pend_update c g)))
     \<lparr>a_reserved := g_reserved g\<rparr>"

definition unknown_args :: "grant_command \<Rightarrow> string \<Rightarrow> resource_grant \<Rightarrow> decision_args" where
  "unknown_args c reason g =
     (decision_defaults ''reconciliation_required'' (Some (release_update c RECONCILIATION_REQUIRED g)))
       \<lparr>a_reserved := g_reserved g, a_failure_code := Some ''USAGE_UNKNOWN'',
        a_failure_detail := Some reason\<rparr>"

lemmas args_defs = reserve_args_def start_args_def settle_args_def overrun_args_def release_args_def
  pend_args_def unknown_args_def decision_defaults_def

inductive accepts :: "'a resource_projection_scheme \<Rightarrow> resource_command \<Rightarrow> decision_args \<Rightarrow> bool" for p where
  reserve: "p_status p = ACTIVE \<Longrightarrow> rq_grant_id c \<notin> g_grant_id ` set (p_grants p) \<Longrightarrow>
    instant_of (rq_expires_at c) \<le> instant_of (e_valid_until (rq_estimate c)) \<Longrightarrow>
    instant_of (rq_observed_at c) < instant_of (rq_expires_at c) \<Longrightarrow>
    e_upper_bound (rq_estimate c) \<le> remaining p \<Longrightarrow>
    accepts p (RequestGrant c) (reserve_args c)"
| start: "binds p c g \<Longrightarrow> g_status g = RESERVED \<Longrightarrow> observes_after c g \<Longrightarrow>
    instant_of (gc_observed_at c) < instant_of (g_expires_at g) \<Longrightarrow>
    accepts p (StartGrant c) (start_args c g)"
| settle: "binds p c g \<Longrightarrow> g_status g \<in> {IN_USE, CANCEL_PENDING, RECONCILIATION_REQUIRED} \<Longrightarrow>
    observes_after c g \<Longrightarrow> g_started_at g = Some s \<Longrightarrow>
    instant_of s \<le> instant_of (u_measured_at u) \<Longrightarrow>
    instant_of (u_measured_at u) \<le> instant_of (gc_observed_at c) \<Longrightarrow>
    u_actual u \<le> g_reserved g \<Longrightarrow>
    accepts p (SettleGrant c u) (settle_args c u g)"
| overrun: "binds p c g \<Longrightarrow> g_status g \<in> {IN_USE, CANCEL_PENDING, RECONCILIATION_REQUIRED} \<Longrightarrow>
    observes_after c g \<Longrightarrow> g_started_at g = Some s \<Longrightarrow>
    instant_of s \<le> instant_of (u_measured_at u) \<Longrightarrow>
    instant_of (u_measured_at u) \<le> instant_of (gc_observed_at c) \<Longrightarrow>
    \<not> u_actual u \<le> g_reserved g \<Longrightarrow>
    accepts p (SettleGrant c u) (overrun_args c u g)"
| cancel_unused: "binds p c g \<Longrightarrow> observes_after c g \<Longrightarrow> g_status g = RESERVED \<Longrightarrow>
    accepts p (CancelGrant c reason) (release_args c ''cancelled_unused'' CANCELLED_UNUSED g)"
| cancel_pending: "binds p c g \<Longrightarrow> observes_after c g \<Longrightarrow> g_status g = IN_USE \<Longrightarrow>
    accepts p (CancelGrant c reason) (pend_args c g)"
| deadline_unused: "binds p c g \<Longrightarrow> observes_after c g \<Longrightarrow>
    instant_of (g_expires_at g) \<le> instant_of (gc_observed_at c) \<Longrightarrow> g_status g = RESERVED \<Longrightarrow>
    accepts p (DeadlineObserved c) (release_args c ''expired_unused'' EXPIRED_UNUSED g)"
| deadline_pending: "binds p c g \<Longrightarrow> observes_after c g \<Longrightarrow>
    instant_of (g_expires_at g) \<le> instant_of (gc_observed_at c) \<Longrightarrow> g_status g = IN_USE \<Longrightarrow>
    accepts p (DeadlineObserved c) (pend_args c g)"
| usage_unknown: "binds p c g \<Longrightarrow> g_status g \<in> {IN_USE, CANCEL_PENDING} \<Longrightarrow> observes_after c g \<Longrightarrow>
    accepts p (UsageUnknown c reason) (unknown_args c reason g)"

inductive_cases accepts_request: "accepts p (RequestGrant c) a"
inductive_cases accepts_start: "accepts p (StartGrant c) a"
inductive_cases accepts_settle: "accepts p (SettleGrant c u) a"
inductive_cases accepts_cancel: "accepts p (CancelGrant c r) a"
inductive_cases accepts_deadline: "accepts p (DeadlineObserved c) a"
inductive_cases accepts_unknown: "accepts p (UsageUnknown c r) a"

section \<open>Outcomes\<close>

text \<open>
  The outcome of every branch of \<^verbatim>\<open>_decide_fresh_accepted\<close>: on a well-formed ledger
  and a constructible command the code takes an accepting branch of \<open>accepts\<close> or raises
  a \<^verbatim>\<open>ResourceRejection\<close> that a rejection receipt can carry, and no other exception.
\<close>

section \<open>What the code does: one accepting branch, or a well-formed refusal\<close>

definition rejection_ok :: "rejection \<Rightarrow> bool" where
  "rejection_ok r \<longleftrightarrow>
     identifier_ok (rejection_code r) \<and> recorded_text_ok (rejection_message r) \<and>
     set (rejection_dimensions r) \<subseteq> set DIMENSIONS \<and> distinct (rejection_dimensions r)"

text \<open>The refusals a receipt of the command \<open>c\<close> gives back unchanged.\<close>

fun recoverable :: "resource_command \<Rightarrow> rejection \<Rightarrow> bool" where
  "recoverable c (UnknownGrant g) = (g = command_grant_id c)"
| "recoverable c (InvalidTransition m) = (m \<noteq> [])"
| "recoverable c (CapacityExceeded ds) = True"
| "recoverable c BudgetFrozen = True"
| "recoverable c (IdempotencyConflict i) = False"
| "recoverable c (ResourceRejection code m ds) = False"

definition rejected_args :: "rejection \<Rightarrow> decision_args" where
  "rejected_args r = (decision_defaults ''rejected'' None)
     \<lparr>a_failure_code := Some (rejection_code r), a_failure_detail := Some (rejection_message r),
      a_failure_dimensions := rejection_dimensions r\<rparr>"

lemma recorded_text_append:
  "a \<noteq> [] \<Longrightarrow> str_isprintable a \<Longrightarrow> str_isprintable b \<Longrightarrow> recorded_text_ok (a @ b)"
  by (simp add: recorded_text_ok_def)

lemma status_value_printable [simp]: "str_isprintable (grant_status_value st)"
  by (cases st) (simp_all add: str_isprintable_def printable_char_def)

lemma invalid_transition_ok: "recorded_text_ok m \<Longrightarrow> rejection_ok (InvalidTransition m)"
  by (simp add: rejection_ok_def identifier_ok_def str_isprintable_def printable_char_def)

lemma unknown_grant_ok: "identifier_ok g \<Longrightarrow> rejection_ok (UnknownGrant g)"
  by (simp add: rejection_ok_def identifier_ok_def recorded_text_ok_def)
    (simp add: str_isprintable_def printable_char_def)

lemma budget_frozen_ok: "rejection_ok BudgetFrozen"
  by (simp add: rejection_ok_def identifier_ok_def recorded_text_ok_def str_isprintable_def printable_char_def)

lemma capacity_exceeded_ok: "rejection_ok (CapacityExceeded (exceeds v w))"
  using exceeds_dimensions [of v w]
  by (auto simp: rejection_ok_def identifier_ok_def recorded_text_ok_def str_isprintable_def
      printable_char_def exceeds_eq)

text \<open>\<open>decides p c r\<close>: the result \<open>r\<close> is a decision with accepted arguments, or a refusal.\<close>

definition decides :: "'a resource_projection_scheme \<Rightarrow> resource_command \<Rightarrow> lk_error + decision \<Rightarrow> bool" where
  "decides p c r \<longleftrightarrow>
     (\<exists>a. accepts p c a \<and> r = decision_of p c a) \<or>
     (\<exists>rej. rejection_ok rej \<and> recoverable c rej \<and> r = Inl (Rejection rej))"

lemma decides_accept: "accepts p c a \<Longrightarrow> decides p c (decision_of p c a)"
  by (auto simp: decides_def)

lemma decides_refuse: "rejection_ok r \<Longrightarrow> recoverable c r \<Longrightarrow> decides p c (Inl (Rejection r))"
  by (auto simp: decides_def)

lemma decides_invalid: "recorded_text_ok m \<Longrightarrow> decides p c (Inl (invalid_transition m))"
  by (rule decides_refuse) (simp_all add: invalid_transition_ok recorded_text_ok_def)

lemma decides_guard: "(\<not> b \<Longrightarrow> decides p c (f ())) \<Longrightarrow> rejection_ok r \<Longrightarrow>
    recoverable c r \<Longrightarrow> decides p c (ebind (raise_if b (Rejection r)) f)"
  by (auto simp: raise_if_def decides_refuse)


lemma ledger_grant_ok: "ledger_ok p \<Longrightarrow> find q (p_grants p) = Some g \<Longrightarrow> grant_ok g"
  by (auto simp: ledger_ok_def list_all_iff dest: find_SomeD)

lemma decides_bound_grant:
  assumes "ledger_ok p" and "grant_command_ok c" and "command_grant_id cmd = gc_grant_id c"
    and "\<And>g. binds p c g \<Longrightarrow> grant_ok g \<Longrightarrow> decides p cmd (f g)"
  shows "decides p cmd (ebind (bound_grant p c) f)"
proof (cases "find (\<lambda>x. g_grant_id x = gc_grant_id c) (p_grants p)")
  case None
  have "rejection_ok (UnknownGrant (gc_grant_id c))"
    using assms(2) by (auto simp: grant_command_ok_def intro: unknown_grant_ok)
  with None show ?thesis by (simp add: bound_grant_def find_grant_def decides_refuse assms(3))
next
  case (Some g)
  have "decides p cmd (ebind (run_checks
       [raise_if (g_fence_token g \<noteq> gc_fence_token c)
          (invalid_transition ''fence token does not match the grant''),
        raise_if (g_workload_sha256 g \<noteq> gc_workload_sha256 c)
          (invalid_transition ''workload identity does not match the grant'')]) (\<lambda>_. f g))"
    unfolding ebind_run_checks_Cons
    using assms(4) [of g] Some ledger_grant_ok [OF assms(1) Some]
    by (intro decides_guard invalid_transition_ok)
      (auto simp: binds_def recorded_text_ok_def str_isprintable_def printable_char_def)
  with Some show ?thesis by (simp add: bound_grant_def find_grant_def ebind_assoc)
qed

lemma decides_utc_instant:
  "instant_ok v \<Longrightarrow> decides p c (f (instant_of v)) \<Longrightarrow> decides p c (ebind (utc_instant v l) f)"
  by (simp add: ebind_utc_instant)

lemma decides_mk_grant:
  "grant_ok g \<Longrightarrow> decides p c (f g) \<Longrightarrow> decides p c (ebind (mk_grant g) f)"
  by (simp add: ebind_mk_grant)

lemma grant_ok_instants:
  "grant_ok g \<Longrightarrow> instant_ok (g_last_observed_at g)"
  "grant_ok g \<Longrightarrow> instant_ok (g_expires_at g)"
  "grant_ok g \<Longrightarrow> g_started_at g = Some s \<Longrightarrow> instant_ok s"
  by (simp_all add: grant_ok_def grant_times_ok_def)

lemma grant_command_instant: "grant_command_ok c \<Longrightarrow> instant_ok (gc_observed_at c)"
  by (simp add: grant_command_ok_def)

lemma literal_ok:
  "list_all printable_char m \<Longrightarrow> m \<noteq> [] \<Longrightarrow> rejection_ok (InvalidTransition m)"
  by (rule invalid_transition_ok) (simp add: recorded_text_ok_def str_isprintable_def)


lemma status_value_chars [simp]: "list_all printable_char (grant_status_value st)"
  using status_value_printable [of st] by (simp add: str_isprintable_def)

lemmas refusal_simps = literal_ok printable_char_def grant_ok_instants grant_command_instant

lemma decide_start_decides:
  assumes "ledger_ok p" and "grant_command_ok c"
  shows "decides p (StartGrant c) (decide_start p c)"
proof -
  have "decides p (StartGrant c) (ebind (mk_grant (start_update c g)) (\<lambda>updated.
      decision_of p (StartGrant c)
       ((decision_defaults ''in_use'' (Some updated))\<lparr>a_reserved := g_reserved g\<rparr>)))"
    if "binds p c g" "grant_ok g" "g_status g = RESERVED" "observes_after c g"
      "instant_of (gc_observed_at c) < instant_of (g_expires_at g)" for g
    using that assms start_update_ok [of g c] accepts.start [of p c g]
    by (auto intro!: decides_mk_grant decides_accept simp: start_args_def observes_after_def)
  then show ?thesis
    unfolding decide_start_def start_update_def
    by (intro decides_bound_grant decides_guard decides_utc_instant assms)
      (simp_all add: assms refusal_simps observes_after_def)
qed

lemma decide_unknown_decides:
  assumes "ledger_ok p" and "grant_command_ok c"
  shows "decides p (UsageUnknown c reason) (decide_unknown p c reason)"
proof -
  have "decides p (UsageUnknown c reason) (ebind (mk_grant (release_update c RECONCILIATION_REQUIRED g))
      (\<lambda>updated. decision_of p (UsageUnknown c reason)
       ((decision_defaults ''reconciliation_required'' (Some updated))
         \<lparr>a_reserved := g_reserved g, a_failure_code := Some ''USAGE_UNKNOWN'',
          a_failure_detail := Some reason\<rparr>)))"
    if "binds p c g" "grant_ok g" "g_status g \<in> {IN_USE, CANCEL_PENDING}" "observes_after c g" for g
    using that assms unknown_update_ok [of g c] accepts.usage_unknown [of p c g]
    by (auto intro!: decides_mk_grant decides_accept simp: unknown_args_def observes_after_def)
  then show ?thesis
    unfolding decide_unknown_def release_update_def
    by (intro decides_bound_grant decides_guard decides_utc_instant assms)
      (simp_all add: assms refusal_simps observes_after_def)
qed

lemma release_or_pend_decides:
  assumes "grant_command_ok c" and "grant_ok g" and "observes_after c g"
    and "st \<in> {CANCELLED_UNUSED, EXPIRED_UNUSED}"
    and "list_all printable_char refusal" and "refusal \<noteq> []"
    and "g_status g = RESERVED \<Longrightarrow> accepts p cmd (release_args c outcome st g)"
    and "g_status g = IN_USE \<Longrightarrow> accepts p cmd (pend_args c g)"
  shows "decides p cmd (release_or_pend p cmd c g outcome st refusal)"
proof -
  have "decides p cmd (ebind (mk_grant (release_update c st g)) (\<lambda>updated.
        decision_of p cmd ((decision_defaults outcome (Some updated))
          \<lparr>a_reserved := g_reserved g, a_released := g_reserved g\<rparr>)))" if "g_status g = RESERVED"
    using that assms release_update_ok [of g c st]
    by (auto intro!: decides_mk_grant decides_accept simp: release_args_def observes_after_def)
  moreover have "decides p cmd (ebind (mk_grant (pend_update c g)) (\<lambda>updated.
        decision_of p cmd ((decision_defaults ''cancel_pending'' (Some updated))
          \<lparr>a_reserved := g_reserved g\<rparr>)))" if "g_status g = IN_USE"
    using that assms pend_update_ok [of g c]
    by (auto intro!: decides_mk_grant decides_accept simp: pend_args_def observes_after_def)
  ultimately show ?thesis
    using assms(5,6) unfolding release_or_pend_def release_update_def pend_update_def
    by (auto intro!: decides_refuse literal_ok)
qed

lemma decide_cancel_decides:
  assumes "ledger_ok p" and "grant_command_ok c"
  shows "decides p (CancelGrant c reason) (decide_cancel p c reason)"
  unfolding decide_cancel_def
  using accepts.cancel_unused [of p c] accepts.cancel_pending [of p c]
  by (intro decides_bound_grant decides_guard decides_utc_instant release_or_pend_decides assms)
    (simp_all add: assms refusal_simps observes_after_def)

lemma decide_deadline_decides:
  assumes "ledger_ok p" and "grant_command_ok c"
  shows "decides p (DeadlineObserved c) (decide_deadline p c)"
  unfolding decide_deadline_def
  using accepts.deadline_unused [of p c] accepts.deadline_pending [of p c]
  by (intro decides_bound_grant decides_guard decides_utc_instant release_or_pend_decides assms)
    (simp_all add: assms refusal_simps observes_after_def)

lemma ebind_run_checks_Nil: "ebind (run_checks []) f = f ()"
  by simp

lemma decide_request_decides:
  assumes p: "ledger_ok p" and c: "request_ok c"
  shows "decides p (RequestGrant c) (decide_request p c)"
proof -
  have i: "instant_ok (rq_observed_at c)" "instant_ok (rq_expires_at c)"
    "instant_ok (e_valid_until (rq_estimate c))" "list_all printable_char (rq_grant_id c)"
    using c by (simp_all add: request_ok_def estimate_ok_def identifier_ok_def str_isprintable_def)
  have "decides p (RequestGrant c) (ebind (mk_grant (new_grant c)) (\<lambda>grant.
     decision_of p (RequestGrant c)
       ((decision_defaults ''reserved'' (Some grant))\<lparr>a_reserved := g_reserved grant\<rparr>)))"
    if "p_status p \<noteq> FROZEN" "\<forall>g\<in>set (p_grants p). g_grant_id g \<noteq> rq_grant_id c"
      "instant_of (rq_expires_at c) \<le> instant_of (e_valid_until (rq_estimate c))"
      "instant_of (rq_observed_at c) < instant_of (rq_expires_at c)"
      "e_upper_bound (rq_estimate c) \<le> remaining p"
    using that c accepts.reserve [of p c] budget_status.exhaust [of "p_status p"]
    by (force intro!: decides_mk_grant decides_accept new_grant_ok simp: reserve_args_def)
  then show ?thesis
    unfolding decide_request_def new_grant_def ebind_run_checks_Cons ebind_run_checks_Nil admission_deficits_def Let_def
    by (intro decides_guard decides_utc_instant)
      (auto simp: i refusal_simps exceeds_Nil_iff budget_frozen_ok capacity_exceeded_ok list_ex_iff)
qed

lemma decide_settle_decides:
  assumes p: "ledger_ok p" and c: "grant_command_ok c" and u: "usage_ok u"
  shows "decides p (SettleGrant c u) (decide_settle p c u)"
proof -
  define st where "st g = (if exceeds (u_actual u) (g_reserved g) \<noteq> [] then QUARANTINED_OVERRUN
     else if g_cancel_requested g then CANCELLED_SETTLED else SETTLED)" for g :: resource_grant
  have tail: "decides p (SettleGrant c u) (ebind (mk_grant (settle_update c u (st g) g)) (\<lambda>updated.
     if exceeds (u_actual u) (g_reserved g) \<noteq> [] then
       decision_of p (SettleGrant c u)
         ((decision_defaults ''quarantined_overrun'' (Some updated))
           \<lparr>a_reserved := g_reserved g, a_actual := u_actual u,
            a_released := g_reserved g - u_actual u, a_spent_delta := u_actual u,
            a_freeze_budget := True, a_failure_code := Some ''RESOURCE_OVERRUN'',
            a_failure_detail := Some ''measured usage exceeded the reserved vector'',
            a_failure_dimensions := exceeds (u_actual u) (g_reserved g),
            a_evidence_sha256 := Some (u_evidence_sha256 u)\<rparr>)
     else
       ebind (vector_subtract (g_reserved g) (u_actual u)) (\<lambda>released.
       decision_of p (SettleGrant c u)
         ((decision_defaults (str_lower (grant_status_value (st g))) (Some updated))
           \<lparr>a_reserved := g_reserved g, a_actual := u_actual u, a_released := released,
            a_spent_delta := u_actual u,
            a_evidence_sha256 := Some (u_evidence_sha256 u)\<rparr>))))"
    if g: "binds p c g" "grant_ok g" "g_status g \<in> {IN_USE, CANCEL_PENDING, RECONCILIATION_REQUIRED}"
      "observes_after c g" "g_started_at g = Some (the (g_started_at g))"
      "instant_of (the (g_started_at g)) \<le> instant_of (u_measured_at u)"
      "instant_of (u_measured_at u) \<le> instant_of (gc_observed_at c)" for g
  proof (cases "u_actual u \<le> g_reserved g")
    case True
    then have [simp]: "exceeds (u_actual u) (g_reserved g) = []" by (simp add: exceeds_Nil_iff)
    have "vector_subtract (g_reserved g) (u_actual u) = Inr (g_reserved g - u_actual u)"
      using True by (simp add: vector_subtract_Inr)
    moreover have "st g = settled_status g" by (simp add: st_def settled_status_def)
    ultimately show ?thesis
      using True g c u settle_update_ok [of g c u _ "settled_status g"] accepts.settle [of p c g _ u]
      by (auto intro!: decides_mk_grant decides_accept simp: settle_args_def settled_status_def observes_after_def)
  next
    case False
    then have e: "exceeds (u_actual u) (g_reserved g) \<noteq> []" by (simp add: exceeds_Nil_iff)
    then have "st g = QUARANTINED_OVERRUN" by (simp add: st_def)
    then show ?thesis
      using e False g c u settle_update_ok [of g c u _ QUARANTINED_OVERRUN] accepts.overrun [of p c g _ u]
      by (auto intro!: decides_mk_grant decides_accept simp: overrun_args_def observes_after_def)
  qed
  have guard: "decides p (SettleGrant c u) (ebind (case g_started_at g of
         None \<Rightarrow> Inl (invalid_transition ''settlement requires a recorded start'')
       | Some s \<Rightarrow> Inr s) f)"
    if "\<And>s. g_started_at g = Some s \<Longrightarrow> decides p (SettleGrant c u) (f s)" for g f
    using that by (cases "g_started_at g") (auto intro!: decides_refuse simp: refusal_simps)
  have m: "instant_ok (u_measured_at u)" using u by (simp add: usage_ok_def)
  show ?thesis
    unfolding decide_settle_def ebind_run_checks_Cons ebind_run_checks_Nil Let_def
    by (intro decides_bound_grant [OF p c] decides_guard decides_utc_instant guard
        tail [unfolded settle_update_def st_def])
      (simp_all add: c m refusal_simps observes_after_def)
qed

text \<open>The two outcomes, for every command.\<close>

theorem decide_fresh_accepted_decides:
  assumes "ledger_ok p" and "command_ok c"
  shows "decides p c (decide_fresh_accepted p c)"
  using assms
  by (cases c)
    (simp_all add: decide_request_decides decide_start_decides decide_settle_decides
      decide_cancel_decides decide_deadline_decides decide_unknown_decides)

section \<open>The branches are complete\<close>

lemma ebind_bound_grant: "binds p c g \<Longrightarrow> ebind (bound_grant p c) f = f g"
  by (simp add: binds_def bound_grant_def find_grant_def)

lemma binds_grant_ok: "ledger_ok p \<Longrightarrow> binds p c g \<Longrightarrow> grant_ok g"
  using ledger_grant_ok by (auto simp: binds_def)

text \<open>When the guards of a branch hold, the code takes it.\<close>

lemma accepts_complete:
  assumes p: "ledger_ok p" and c: "command_ok c" and acc: "accepts p c a"
  shows "decide_fresh_accepted p c = decision_of p c a"
  using acc
proof cases
  case (reserve rc)
  then have r: "request_ok rc" using c by simp
  then have "instant_ok (rq_observed_at rc)" "instant_ok (rq_expires_at rc)" "instant_ok (e_valid_until (rq_estimate rc))"
    by (simp_all add: request_ok_def estimate_ok_def)
  moreover have "\<not> list_ex (\<lambda>g. g_grant_id g = rq_grant_id rc) (p_grants p)"
    using reserve by (force simp: list_ex_iff)
  ultimately show ?thesis
    using reserve new_grant_ok [OF r]
    by (simp add: decide_request_def sequencing admission_deficits_def exceeds_Nil_iff reserve_args_def
        new_grant_def [symmetric] Let_def)
next
  case (start gc g)
  have g: "grant_ok g" by (rule binds_grant_ok [OF p start(3)])
  show ?thesis
    using start c g start_update_ok [OF g, of gc]
    by (simp add: decide_start_def sequencing ebind_bound_grant grant_ok_instants grant_command_instant
        observes_after_def start_args_def start_update_def)
next
  case (settle gc g s u)
  have g: "grant_ok g" by (rule binds_grant_ok [OF p settle(3)])
  have u: "usage_ok u" "instant_ok (u_measured_at u)" using c settle by (simp_all add: usage_ok_def)
  have "vector_subtract (g_reserved g) (u_actual u) = Inr (g_reserved g - u_actual u)" "exceeds (u_actual u) (g_reserved g) = []"
    using settle by (simp_all add: vector_subtract_Inr exceeds_Nil_iff)
  moreover have "(if g_cancel_requested g then CANCELLED_SETTLED else SETTLED) = settled_status g"
    by (simp add: settled_status_def)
  ultimately show ?thesis
    using settle c g u settle_update_ok [OF g _ u(1) settle(6), of gc "settled_status g"]
    by (auto simp: decide_settle_def sequencing ebind_bound_grant grant_ok_instants grant_command_instant
        observes_after_def settle_args_def settle_update_def settled_status_def)
next
  case (overrun gc g s u)
  have g: "grant_ok g" by (rule binds_grant_ok [OF p overrun(3)])
  have u: "usage_ok u" "instant_ok (u_measured_at u)" using c overrun by (simp_all add: usage_ok_def)
  have "exceeds (u_actual u) (g_reserved g) \<noteq> []" using overrun by (simp add: exceeds_Nil_iff)
  then show ?thesis
    using overrun c g u settle_update_ok [OF g _ u(1) overrun(6), of gc QUARANTINED_OVERRUN]
    by (auto simp: decide_settle_def sequencing ebind_bound_grant grant_ok_instants grant_command_instant
        observes_after_def overrun_args_def settle_update_def)
next
  case (cancel_unused gc g reason)
  have g: "grant_ok g" by (rule binds_grant_ok [OF p cancel_unused(3)])
  show ?thesis
    using cancel_unused c g release_update_ok [OF g, of gc CANCELLED_UNUSED]
    by (simp add: decide_cancel_def release_or_pend_def sequencing ebind_bound_grant grant_ok_instants
        grant_command_instant observes_after_def release_args_def release_update_def)
next
  case (cancel_pending gc g reason)
  have g: "grant_ok g" by (rule binds_grant_ok [OF p cancel_pending(3)])
  show ?thesis
    using cancel_pending c g pend_update_ok [OF g, of gc]
    by (simp add: decide_cancel_def release_or_pend_def sequencing ebind_bound_grant grant_ok_instants
        grant_command_instant observes_after_def pend_args_def pend_update_def)
next
  case (deadline_unused gc g)
  have g: "grant_ok g" by (rule binds_grant_ok [OF p deadline_unused(3)])
  show ?thesis
    using deadline_unused c g release_update_ok [OF g, of gc EXPIRED_UNUSED]
    by (simp add: decide_deadline_def release_or_pend_def sequencing ebind_bound_grant grant_ok_instants
        grant_command_instant observes_after_def release_args_def release_update_def)
next
  case (deadline_pending gc g)
  have g: "grant_ok g" by (rule binds_grant_ok [OF p deadline_pending(3)])
  show ?thesis
    using deadline_pending c g pend_update_ok [OF g, of gc]
    by (simp add: decide_deadline_def release_or_pend_def sequencing ebind_bound_grant grant_ok_instants
        grant_command_instant observes_after_def pend_args_def pend_update_def)
next
  case (usage_unknown gc g reason)
  have g: "grant_ok g" by (rule binds_grant_ok [OF p usage_unknown(3)])
  show ?thesis
    using usage_unknown c g unknown_update_ok [OF g, of gc]
    by (auto simp: decide_unknown_def sequencing ebind_bound_grant grant_ok_instants
        grant_command_instant observes_after_def unknown_args_def release_update_def)
qed

end
