(* ===== verification/Resource_Step.thy ===== *)
theory Resource_Step
  imports Resource_Outcome
begin

text \<open>
  One step of the ledger: the projection after a decision (\<open>next_projection\<close>), the lemmas
  that every accepting branch and every refusal keep \<open>ledger_ok\<close>, and that the decided
  transition passes \<^verbatim>\<open>_validate_transition_against\<close> on the ledger it was decided on.
\<close>

section \<open>The ledger after a decision\<close>

definition next_projection :: "'a resource_projection_scheme \<Rightarrow> decision_args \<Rightarrow> resource_grant list \<Rightarrow>
    resource_projection" where
  "next_projection p a gs =
     \<lparr>p_schema_version = p_schema_version p, p_budget_id = p_budget_id p, p_scope = p_scope p,
      p_epoch = p_epoch p, p_revision = p_revision p + 1, p_hard_caps = p_hard_caps p,
      p_spent = p_spent p + a_spent_delta a,
      p_status = (if a_freeze_budget a then FROZEN else p_status p), p_grants = gs\<rparr>"

lemma totals_append [simp]:
  "charged_total (as @ bs) = charged_total as + charged_total bs"
  "held_total (as @ bs) = held_total as + held_total bs"
  by (simp_all add: charged_total_def held_total_def)

lemma totals_Cons [simp]:
  "charged_total (g # gs) = (if charged (g_status g) then g_actual g else 0) + charged_total gs"
  "held_total (g # gs) = (if holds_reservation (g_status g) then g_reserved g else 0) + held_total gs"
  by (simp_all add: charged_total_def held_total_def)

lemma totals_Nil [simp]: "charged_total [] = 0" "held_total [] = 0"
  by (simp_all add: charged_total_def held_total_def)

lemma quarantined_simps [simp]:
  "quarantined [] = False" "quarantined (g # gs) \<longleftrightarrow> g_status g = QUARANTINED_OVERRUN \<or> quarantined gs"
  "quarantined (as @ bs) \<longleftrightarrow> quarantined as \<or> quarantined bs"
  by (simp_all add: quarantined_def)

lemma not_charged: "\<not> charged st \<Longrightarrow> st \<notin> {SETTLED, CANCELLED_SETTLED, QUARANTINED_OVERRUN}"
  by (auto simp: charged_def)

lemma ledger_update:
  assumes p: "ledger_ok p" and gs: "p_grants p = as @ g # bs"
    and g': "grant_ok g'" "g_grant_id g' = g_grant_id g" and nc: "\<not> charged (g_status g)"
    and delta: "a_spent_delta a = (if charged (g_status g') then g_actual g' else 0)"
    and freeze: "a_freeze_budget a \<longleftrightarrow> g_status g' = QUARANTINED_OVERRUN"
    and settled: "g_status g' \<in> {SETTLED, CANCELLED_SETTLED} \<Longrightarrow> g_actual g' \<le> g_reserved g'"
    and budget: "\<not> a_freeze_budget a \<Longrightarrow>
      a_spent_delta a + (if holds_reservation (g_status g') then g_reserved g' else 0) \<le>
      (if holds_reservation (g_status g) then g_reserved g else 0)"
  shows "ledger_ok (next_projection p a (as @ g' # bs))"
proof -
  have caps: "p_spent p + a_spent_delta a + held_total (as @ g' # bs) \<le> p_hard_caps p"
    if "p_status p = ACTIVE" "\<not> a_freeze_budget a"
  proof -
    have "p_spent p + held_total (as @ g # bs) \<le> p_hard_caps p"
      using p that by (simp add: ledger_ok_def gs)
    moreover have "p_spent p + a_spent_delta a + held_total (as @ g' # bs) \<le> p_spent p + held_total (as @ g # bs)"
      using add_left_mono [OF budget [OF that(2)], of "p_spent p + held_total as + held_total bs"]
      by (simp add: ac_simps)
    ultimately show ?thesis by (rule order_trans [rotated])
  qed
  show ?thesis
    unfolding ledger_ok_def
  proof (intro conjI)
    show "identity_ok (next_projection p a (as @ g' # bs))"
      using p by (simp add: ledger_ok_def identity_ok_def next_projection_def)
    show "list_all grant_ok (p_grants (next_projection p a (as @ g' # bs)))"
      using p g' by (simp add: ledger_ok_def next_projection_def gs)
    show "distinct (map g_grant_id (p_grants (next_projection p a (as @ g' # bs))))"
      using p g' by (simp add: ledger_ok_def next_projection_def gs)
    have "p_spent p = charged_total as + charged_total bs" using p nc by (simp add: ledger_ok_def gs)
    then show "charged_total (p_grants (next_projection p a (as @ g' # bs))) = p_spent (next_projection p a (as @ g' # bs))"
      by (simp add: next_projection_def delta ac_simps)
    show "list_all (\<lambda>g. g_status g \<in> {SETTLED, CANCELLED_SETTLED} \<longrightarrow> g_actual g \<le> g_reserved g)
        (p_grants (next_projection p a (as @ g' # bs)))"
      using p settled by (simp add: ledger_ok_def next_projection_def gs)
    have "p_status p = FROZEN \<longleftrightarrow> quarantined (as @ g # bs)" using p by (simp add: ledger_ok_def gs)
    then show "p_status (next_projection p a (as @ g' # bs)) = FROZEN \<longleftrightarrow>
        quarantined (p_grants (next_projection p a (as @ g' # bs)))"
      using not_charged [OF nc] freeze by (auto simp: next_projection_def)
    show "p_status (next_projection p a (as @ g' # bs)) = ACTIVE \<longrightarrow>
        p_spent (next_projection p a (as @ g' # bs)) + held_total (p_grants (next_projection p a (as @ g' # bs)))
          \<le> p_hard_caps (next_projection p a (as @ g' # bs))"
      using caps by (simp add: next_projection_def)
  qed
qed

lemma ledger_append:
  assumes p: "ledger_ok p" and g: "grant_ok g" "g_status g = RESERVED" and new: "g_grant_id g \<notin> g_grant_id ` set (p_grants p)"
    and fits: "g_reserved g \<le> remaining p" and active: "p_status p = ACTIVE"
    and a: "a_spent_delta a = 0" "\<not> a_freeze_budget a"
  shows "ledger_ok (next_projection p a (p_grants p @ [g]))"
proof -
  have le: "p_spent p + held_total (p_grants p) \<le> p_hard_caps p"
    using p active by (simp add: ledger_ok_def)
  then have "p_spent p + held_total (p_grants p) + g_reserved g \<le> p_hard_caps p"
    using fits by (simp add: remaining_def reserved_total_eq vector_le_minus_iff)
  then show ?thesis
    using p g new a active
    by (auto simp: ledger_ok_def identity_ok_def next_projection_def status_class_defs ac_simps)
qed

text \<open>A refusal changes nothing but the revision.\<close>

lemma ledger_refused:
  assumes "ledger_ok p" and "a_spent_delta a = 0" "\<not> a_freeze_budget a"
  shows "ledger_ok (next_projection p a (p_grants p))"
  using assms by (auto simp: ledger_ok_def identity_ok_def next_projection_def)

section \<open>Where the decision puts the grant\<close>

lemma binds_split:
  assumes "ledger_ok p" and "binds p c g"
  obtains as bs where "p_grants p = as @ g # bs" and "g_grant_id g = gc_grant_id c"
    and "gc_grant_id c \<notin> g_grant_id ` set as" and "grant_ok g"
proof -
  have f: "find (\<lambda>x. g_grant_id x = gc_grant_id c) (p_grants p) = Some g"
    using assms(2) by (simp add: binds_def)
  from find_SomeD [OF f] have g: "g \<in> set (p_grants p)" "g_grant_id g = gc_grant_id c" by auto
  from g(1) obtain as bs where s: "p_grants p = as @ g # bs" by (auto simp: in_set_conv_decomp)
  moreover have "gc_grant_id c \<notin> g_grant_id ` set as"
    using assms(1) g(2) by (auto simp: ledger_ok_def s)
  ultimately show thesis using that g(2) ledger_grant_ok [OF assms(1) f] by blast
qed

lemma projected_grants_replace:
  assumes "p_grants p = as @ g # bs" and "g_grant_id g' = g_grant_id g"
    and "g_grant_id g \<notin> g_grant_id ` set as" and "\<not> is_request c"
  shows "projected_grants p c (Some g') = Inr (as @ g' # bs)"
proof -
  have "replace_first (\<lambda>x. g_grant_id x = g_grant_id g') g' (p_grants p) = Some (as @ g' # bs)"
    unfolding replace_first_split using assms by (intro exI conjI) (auto simp: list_all_iff image_iff)
  with assms(4) show ?thesis by (simp add: projected_grants_def)
qed

text \<open>The well-formed successor of a decision's arguments.\<close>

definition steps_to :: "'a resource_projection_scheme \<Rightarrow> resource_command \<Rightarrow> decision_args \<Rightarrow>
    resource_projection \<Rightarrow> bool" where
  "steps_to p c a q \<longleftrightarrow>
     (\<exists>gs. projected_grants p c (a_grant a) = Inr gs \<and> q = next_projection p a gs) \<and> args_ok a \<and> ledger_ok q"

lemma steps_to_update:
  assumes "ledger_ok p" and "binds p c g" and "\<not> is_request cmd" and "args_ok a"
    and "a_grant a = Some g'" and "grant_ok g'" "g_grant_id g' = g_grant_id g" and "\<not> charged (g_status g)"
    and "a_spent_delta a = (if charged (g_status g') then g_actual g' else 0)"
    and "a_freeze_budget a \<longleftrightarrow> g_status g' = QUARANTINED_OVERRUN"
    and "g_status g' \<in> {SETTLED, CANCELLED_SETTLED} \<Longrightarrow> g_actual g' \<le> g_reserved g'"
    and "\<not> a_freeze_budget a \<Longrightarrow>
      a_spent_delta a + (if holds_reservation (g_status g') then g_reserved g' else 0) \<le>
      (if holds_reservation (g_status g) then g_reserved g else 0)"
  shows "\<exists>q. steps_to p cmd a q"
proof -
  obtain as bs where s: "p_grants p = as @ g # bs" "g_grant_id g = gc_grant_id c"
    "gc_grant_id c \<notin> g_grant_id ` set as" using binds_split [OF assms(1,2)] by metis
  have "projected_grants p cmd (Some g') = Inr (as @ g' # bs)"
    by (rule projected_grants_replace [OF s(1) assms(7) _ assms(3)]) (use s in metis)
  moreover have "ledger_ok (next_projection p a (as @ g' # bs))"
    by (rule ledger_update [OF assms(1) s(1)]) (use assms in auto)
  ultimately show ?thesis using assms(4,5) by (auto simp: steps_to_def)
qed

section \<open>Every accepting branch has a well-formed successor\<close>

lemma literal_identifier: "list_all printable_char m \<Longrightarrow> m \<noteq> [] \<Longrightarrow> length m \<le> 256 \<Longrightarrow> identifier_ok m"
  by (simp add: identifier_ok_def str_isprintable_def)

lemma literal_recorded: "list_all printable_char m \<Longrightarrow> m \<noteq> [] \<Longrightarrow> recorded_text_ok m"
  by (simp add: recorded_text_ok_def str_isprintable_def)

lemma settled_outcome_ok: "identifier_ok (str_lower (grant_status_value (settled_status g)))"
  by (simp add: settled_status_def str_lower_def lower_char_def literal_identifier printable_char_def)

lemmas text_ok = literal_identifier literal_recorded printable_char_def settled_outcome_ok

lemma reserve_args_ok [simp]: "args_ok (reserve_args c)"
  by (simp add: args_ok_def args_defs text_ok)

lemma start_args_ok [simp]: "args_ok (start_args c g)"
  by (simp add: args_ok_def args_defs text_ok)

lemma settle_args_ok: "usage_ok u \<Longrightarrow> args_ok (settle_args c u g)"
  by (simp add: args_ok_def args_defs text_ok usage_ok_def)

lemma overrun_args_ok: "usage_ok u \<Longrightarrow> args_ok (overrun_args c u g)"
  using exceeds_dimensions by (simp add: args_ok_def args_defs text_ok usage_ok_def)

lemma release_args_ok: "identifier_ok outcome \<Longrightarrow> args_ok (release_args c outcome st g)"
  by (simp add: args_ok_def args_defs)

lemma pend_args_ok [simp]: "args_ok (pend_args c g)"
  by (simp add: args_ok_def args_defs text_ok)

lemma unknown_args_ok: "recorded_text_ok reason \<Longrightarrow> args_ok (unknown_args c reason g)"
  by (simp add: args_ok_def args_defs text_ok)

lemma rejected_args_ok: "rejection_ok r \<Longrightarrow> args_ok (rejected_args r)"
  by (simp add: args_ok_def rejected_args_def decision_defaults_def rejection_ok_def text_ok)

lemma steps_to_rejected:
  assumes "ledger_ok p" and "rejection_ok r"
  shows "steps_to p c (rejected_args r) (next_projection p (rejected_args r) (p_grants p))"
  using assms
  by (auto simp: steps_to_def rejected_args_ok projected_grants_def intro!: ledger_refused)
    (simp_all add: rejected_args_def decision_defaults_def)

lemma identifier_literals:
  "identifier_ok ''cancelled_unused''" "identifier_ok ''expired_unused''"
  by (simp_all add: text_ok)

lemmas step_simps = args_defs update_defs is_request_def holds_reservation_def charged_def

lemma accepts_steps:
  assumes p: "ledger_ok p" and c: "command_ok c" and acc: "accepts p c a"
  shows "\<exists>q. steps_to p c a q"
  using acc c
proof cases
  case (reserve rc)
  then have r: "request_ok rc" using c by simp
  have "ledger_ok (next_projection p a (p_grants p @ [new_grant rc]))"
    using reserve new_grant_ok [OF r]
    by (intro ledger_append [OF p]) (auto simp: new_grant_def reserve_args_def decision_defaults_def)
  moreover have "projected_grants p c (a_grant a) = Inr (p_grants p @ [new_grant rc])"
    by (simp add: reserve projected_grants_def is_request_def reserve_args_def decision_defaults_def)
  ultimately show ?thesis by (auto simp: steps_to_def reserve)
next
  case (start gc g)
  with c show ?thesis
    unfolding start(1,2)
    by (intro steps_to_update [OF p, where c = gc and g = g and g' = "start_update gc g"]
        start_update_ok start_args_ok ledger_grant_ok [OF p])
      (auto simp: step_simps binds_def observes_after_def)
next
  case (settle gc g s u)
  then have g: "grant_ok g" using ledger_grant_ok [OF p] by (auto simp: binds_def)
  from settle c g show ?thesis
    unfolding settle(1,2)
    by (intro steps_to_update [OF p, where c = gc and g = g and g' = "settle_update gc u (settled_status g) g"]
        settle_update_ok [where s = s] settle_args_ok)
      (auto simp: step_simps observes_after_def settled_status_def)
next
  case (overrun gc g s u)
  then have g: "grant_ok g" using ledger_grant_ok [OF p] by (auto simp: binds_def)
  from overrun c g show ?thesis
    unfolding overrun(1,2)
    by (intro steps_to_update [OF p, where c = gc and g = g and g' = "settle_update gc u QUARANTINED_OVERRUN g"]
        settle_update_ok [where s = s] overrun_args_ok)
      (auto simp: step_simps observes_after_def)
next
  case (cancel_unused gc g reason)
  then have g: "grant_ok g" using ledger_grant_ok [OF p] by (auto simp: binds_def)
  from cancel_unused c g show ?thesis
    unfolding cancel_unused(1,2)
    by (intro steps_to_update [OF p, where c = gc and g = g and g' = "release_update gc CANCELLED_UNUSED g"]
        release_update_ok release_args_ok)
      (auto simp: step_simps observes_after_def identifier_literals)
next
  case (cancel_pending gc g reason)
  then have g: "grant_ok g" using ledger_grant_ok [OF p] by (auto simp: binds_def)
  from cancel_pending c g show ?thesis
    unfolding cancel_pending(1,2)
    by (intro steps_to_update [OF p, where c = gc and g = g and g' = "pend_update gc g"] pend_update_ok pend_args_ok)
      (auto simp: step_simps observes_after_def)
next
  case (deadline_unused gc g)
  then have g: "grant_ok g" using ledger_grant_ok [OF p] by (auto simp: binds_def)
  from deadline_unused c g show ?thesis
    unfolding deadline_unused(1,2)
    by (intro steps_to_update [OF p, where c = gc and g = g and g' = "release_update gc EXPIRED_UNUSED g"]
        release_update_ok release_args_ok)
      (auto simp: step_simps observes_after_def identifier_literals)
next
  case (deadline_pending gc g)
  then have g: "grant_ok g" using ledger_grant_ok [OF p] by (auto simp: binds_def)
  from deadline_pending c g show ?thesis
    unfolding deadline_pending(1,2)
    by (intro steps_to_update [OF p, where c = gc and g = g and g' = "pend_update gc g"] pend_update_ok pend_args_ok)
      (auto simp: step_simps observes_after_def)
next
  case (usage_unknown gc g reason)
  then have g: "grant_ok g" using ledger_grant_ok [OF p] by (auto simp: binds_def)
  from usage_unknown c g show ?thesis
    unfolding usage_unknown(1,2)
    by (intro steps_to_update [OF p, where c = gc and g = g and g' = "release_update gc RECONCILIATION_REQUIRED g"]
        unknown_update_ok unknown_args_ok)
      (auto simp: step_simps observes_after_def)
qed

section \<open>A fresh decision always exists and takes a step\<close>

text \<open>
  \<open>chosen p c a\<close>: the arguments of the decision, those of an accepting branch or those
  of the refusal the code raised.
\<close>

definition chosen :: "'a resource_projection_scheme \<Rightarrow> resource_command \<Rightarrow> decision_args \<Rightarrow> bool" where
  "chosen p c a \<longleftrightarrow>
     accepts p c a \<and> decide_fresh_accepted p c = decision_of p c a \<or>
     (\<exists>r. rejection_ok r \<and> recoverable c r \<and> a = rejected_args r \<and> decide_fresh_accepted p c = Inl (Rejection r))"

lemma chosen_exists: "ledger_ok p \<Longrightarrow> command_ok c \<Longrightarrow> \<exists>a. chosen p c a"
  using decide_fresh_accepted_decides [of p c] by (auto simp: decides_def chosen_def)

lemma chosen_steps: "ledger_ok p \<Longrightarrow> command_ok c \<Longrightarrow> chosen p c a \<Longrightarrow> \<exists>q. steps_to p c a q"
  by (auto simp: chosen_def intro: accepts_steps steps_to_rejected)

lemma after_value_next: "after_value p a gs = state_sha256 (next_projection p a gs)"
  by (simp add: after_value_def state_sha256_def next_projection_def snapshot_sha256_def)

definition step_transition :: "'a resource_projection_scheme \<Rightarrow> resource_command \<Rightarrow> decision_args \<Rightarrow>
    resource_projection \<Rightarrow> resource_transition" where
  "step_transition p c a q = transition_value p c a (state_sha256 q)"

lemma steps_to_decision_of:
  assumes "ledger_ok p" and "command_ok c" and "steps_to p c a q"
  shows "decision_of p c a = Inr (fresh_decision (step_transition p c a q))"
  using assms decision_of_value [of p c a]
  by (auto simp: steps_to_def step_transition_def ledger_ok_def after_value_next)

lemma rejected_decision_eq: "rejected_decision p c r = decision_of p c (rejected_args r)"
  by (simp add: rejected_decision_def rejected_args_def)

lemma chosen_decision:
  assumes "ledger_ok p" and "command_ok c" and "chosen p c a" and "steps_to p c a q"
  shows "decide_fresh p c = Inr (fresh_decision (step_transition p c a q))"
  using steps_to_decision_of [OF assms(1,2,4)] assms(3)
  by (auto simp: chosen_def decide_fresh_def rejected_decision_eq)

section \<open>The decided transition is the one the journal accepts\<close>

lemma steps_to_projection_after:
  assumes "steps_to p c a q"
  shows "projection_after p (step_transition p c a q) = Inr q"
  using assms by (auto simp: steps_to_def projection_after_def step_transition_def next_projection_def)

lemma steps_to_projected_state:
  assumes "steps_to p c a q"
  shows "projected_state_sha256 p c (a_grant a) (a_spent_delta a) (a_freeze_budget a) = Inr (state_sha256 q)"
  using assms by (auto simp: steps_to_def projected_state_sha256_def after_value_next [symmetric] after_value_def)

lemma steps_to_body:
  assumes "steps_to p c a q"
  shows "transition_body p c (command_hash c) (a_grant a) (a_spent_delta a) (a_freeze_budget a) =
    Inr (body_value p c a (state_sha256 q))"
  using assms by (auto simp: steps_to_def transition_body_value after_value_next)

lemma receipt_identity_simps [simp]:
  "r_budget_id (receipt_value p c a after) = p_budget_id p"
  "r_scope (receipt_value p c a after) = p_scope p"
  "r_epoch (receipt_value p c a after) = p_epoch p"
  "r_engine_rule_sha256 (receipt_value p c a after) = ENGINE_RULE_SHA256"
  "r_transition_payload_sha256 (receipt_value p c a after) = canonical_sha (body_value p c a after)"
  by (simp_all add: receipt_value_def)

lemma validate_decided:
  assumes "steps_to p c a q" and "decide_fresh p c = Inr (fresh_decision (step_transition p c a q))"
  shows "validate_transition_against p (step_transition p c a q) = Inr ()"
  using steps_to_body [OF assms(1)] steps_to_projected_state [OF assms(1)] assms(2)
  by (simp add: validate_transition_against_def step_transition_def Let_def)

end
