(* ===== verification/Resource_Invariant.thy ===== *)
theory Resource_Invariant
  imports Resource_Step
begin

text \<open>
  States and their journals. \<open>state_ok\<close> is the invariant of \<^verbatim>\<open>ResourceState\<close>: a
  well-formed ledger, distinct command ids, one record per revision, and a journal whose
  replay from genesis is the ledger. The constructor accepts such a state, every submitted
  command keeps it, and the only exception a submission can raise is an idempotency
  conflict.
\<close>

section \<open>A state is its projection and its journal\<close>

abbreviation proj :: "resource_state \<Rightarrow> resource_projection" where
  "proj s \<equiv> resource_projection.truncate s"

lemma proj_fields [simp]:
  "p_schema_version (proj s) = p_schema_version s" "p_budget_id (proj s) = p_budget_id s"
  "p_scope (proj s) = p_scope s" "p_epoch (proj s) = p_epoch s" "p_revision (proj s) = p_revision s"
  "p_hard_caps (proj s) = p_hard_caps s" "p_spent (proj s) = p_spent s" "p_status (proj s) = p_status s"
  "p_grants (proj s) = p_grants s"
  by (simp_all add: resource_projection.defs)

lemma frame_simps [simp]:
  "snapshot_sha256 (proj s) = snapshot_sha256 s" "state_sha256 (proj s) = state_sha256 s"
  "remaining (proj s) = remaining s" "find_grant (proj s) = find_grant s"
  "projected_grants (proj s) = projected_grants s"
  "genesis (proj s) = genesis s" "ledger_ok (proj s) = ledger_ok s"
  "identity_ok (proj s) = identity_ok s" "next_projection (proj s) = next_projection s"
  by (auto simp: fun_eq_iff snapshot_sha256_def state_sha256_def remaining_def reserved_total_def
      find_grant_def projected_grants_def genesis_def ledger_ok_def identity_ok_def next_projection_def
      split: option.split)

lemma frame_bound_grant [simp]: "bound_grant (proj s) = bound_grant s"
  by (simp add: fun_eq_iff bound_grant_def)

lemma frame_projected [simp]: "projected_state_sha256 (proj s) = projected_state_sha256 s"
  by (simp add: fun_eq_iff projected_state_sha256_def)

lemma frame_body [simp]: "transition_body (proj s) = transition_body s"
  by (simp add: fun_eq_iff transition_body_def)

lemma frame_decision [simp]: "decision_of (proj s) = decision_of s"
  by (simp add: fun_eq_iff decision_of_def)

lemma frame_release [simp]: "release_or_pend (proj s) = release_or_pend s"
  by (simp add: fun_eq_iff release_or_pend_def)

lemma frame_commands [simp]:
  "decide_request (proj s) = decide_request s" "decide_start (proj s) = decide_start s"
  "decide_settle (proj s) = decide_settle s" "decide_cancel (proj s) = decide_cancel s"
  "decide_deadline (proj s) = decide_deadline s" "decide_unknown (proj s) = decide_unknown s"
  by (simp_all add: fun_eq_iff decide_request_def decide_start_def decide_settle_def
      decide_cancel_def decide_deadline_def decide_unknown_def Let_def cong: if_cong)

lemma frame_fresh [simp]: "decide_fresh (proj s) = decide_fresh s"
proof -
  have "decide_fresh_accepted (proj s) c = decide_fresh_accepted s c" for c
    by (cases c) simp_all
  moreover have "rejected_decision (proj s) = rejected_decision s"
    by (simp add: fun_eq_iff rejected_decision_def)
  ultimately show ?thesis 
    by (simp add: fun_eq_iff decide_fresh_def split: sum.split lk_error.split)
qed

lemma frame_validate [simp]: "validate_transition_against (proj s) = validate_transition_against s"
  by (simp add: fun_eq_iff validate_transition_against_def Let_def)

lemma frame_after [simp]: "projection_after (proj s) = projection_after s"
  by (simp add: fun_eq_iff projection_after_def)

lemma frame_steps [simp]: "steps_to (proj s) = steps_to s"
  by (simp add: fun_eq_iff steps_to_def)

lemma frame_transition [simp]: "step_transition (proj s) = step_transition s"
  by (simp add: fun_eq_iff step_transition_def transition_value_def body_value_def receipt_value_def)

section \<open>Well-formed states\<close>

definition replay :: "resource_projection \<Rightarrow> command_record list \<Rightarrow> lk_error + resource_projection" where
  "replay = fold_result replay_record"

definition state_ok :: "resource_state \<Rightarrow> bool" where
  "state_ok s \<longleftrightarrow>
     ledger_ok s \<and> distinct (map cr_command_id (s_command_records s)) \<and>
     p_revision s = int (length (s_command_records s)) \<and>
     replay (genesis s) (s_command_records s) = Inr (proj s)"

definition extend :: "resource_projection \<Rightarrow> command_record list \<Rightarrow> resource_state" where
  "extend p recs = resource_projection.extend p (resource_state.fields recs)"

lemma state_ok_genesis: "state_ok s \<Longrightarrow> s_command_records s = [] \<Longrightarrow> proj s = genesis s"
  by (simp add: state_ok_def replay_def)

lemma length_eq_card_image: "length xs = card (f ` set xs) \<longleftrightarrow> distinct (map f xs)"
  using length_eq_card_iff [of "map f xs"] by simp

lemma post_init_budget_Inr:
  "post_init_budget b = Inr u \<longleftrightarrow> b_schema_version b = SCHEMA_VERSION \<and> identifier_ok (b_budget_id b) \<and>
     identifier_ok (b_scope b) \<and> 1 \<le> b_epoch b"
  by (simp add: post_init_budget_def check_simps result_simps)

lemma post_init_state_Inr:
  "post_init_state s = Inr u \<longleftrightarrow>
     identity_ok s \<and> distinct (map g_grant_id (p_grants s)) \<and>
     charged_total (p_grants s) = p_spent s \<and>
     list_all (\<lambda>g. g_status g \<in> {SETTLED, CANCELLED_SETTLED} \<longrightarrow> g_actual g \<le> g_reserved g) (p_grants s) \<and>
     (p_status s = FROZEN \<longleftrightarrow> quarantined (p_grants s)) \<and>
     (p_status s = ACTIVE \<longrightarrow> p_spent s + held_total (p_grants s) \<le> p_hard_caps s) \<and>
     distinct (map cr_command_id (s_command_records s)) \<and>
     p_revision s = int (length (s_command_records s)) \<and> validate_retained_history s = Inr ()"
  unfolding post_init_state_def ebind_eq_Inr Let_def fold_charge_grant run_checks_Inr list.pred_inject
    raise_if_Inr quarantined_def [symmetric] reserved_total_eq hard_cap_deficits_def exceeds_Nil_iff
    post_init_budget_Inr check_schema_Inr check_integer_Inr length_eq_card_image length_map set_map
  by (cases "p_status s") (auto simp: identity_ok_def)

lemma validate_history_ok:
  assumes "state_ok s"
  shows "validate_retained_history s = Inr ()"
proof (cases "s_command_records s = []")
  case True
  then have "state_sha256 (proj s) = state_sha256 (genesis s)"
    using state_ok_genesis [OF assms] by simp
  with True show ?thesis by (simp add: validate_retained_history_def)
next
  case False
  have "fold_result replay_record (genesis s) (s_command_records s) = Inr (proj s)"
    using assms by (simp add: state_ok_def replay_def)
  with False show ?thesis by (simp add: validate_retained_history_def)
qed

text \<open>The constructor accepts exactly the states whose ledger is well-formed and whose
  journal replays to them.\<close>

lemma post_init_state_ok: "state_ok s \<Longrightarrow> post_init_state s = Inr ()"
  using validate_history_ok [of s]
  by (auto simp: post_init_state_Inr state_ok_def ledger_ok_def)

lemma mk_state_ok: "state_ok s \<Longrightarrow> mk_state s = Inr s"
  by (simp add: mk_state_def post_init_state_ok)

section \<open>One submitted command\<close>

definition extend_state :: "resource_state \<Rightarrow> resource_projection \<Rightarrow> resource_transition \<Rightarrow> resource_state" where
  "extend_state s q t =
     \<lparr>p_schema_version = p_schema_version s, p_budget_id = p_budget_id s, p_scope = p_scope s,
      p_epoch = p_epoch s, p_revision = p_revision s + 1, p_hard_caps = p_hard_caps s,
      p_spent = p_spent q, p_status = p_status q, p_grants = p_grants q,
      s_command_records = s_command_records s @ [record_of t]\<rparr>"

lemma proj_extend_state:
  assumes "steps_to s c a q"
  shows "proj (extend_state s q t) = q"
  using assms by (auto simp: steps_to_def next_projection_def extend_state_def resource_projection.defs)

lemma record_of_simps [simp]:
  "cr_command_id (record_of t) = command_id (t_command t)" "cr_command_sha256 (record_of t) = t_command_sha256 t"
  "cr_receipt_sha256 (record_of t) = t_receipt_sha256 t" "cr_transition_sha256 (record_of t) = t_transition_sha256 t"
  "cr_receipt (record_of t) = t_receipt t" "cr_transition (record_of t) = t"
  by (simp_all add: record_of_def)

lemma step_transition_simps [simp]:
  "t_command (step_transition p c a q) = c"
  "t_command_sha256 (step_transition p c a q) = command_hash c"
  "t_receipt (step_transition p c a q) = receipt_value p c a (state_sha256 q)"
  "t_receipt_sha256 (step_transition p c a q) = receipt_sha256 (receipt_value p c a (state_sha256 q))"
  "t_grant (step_transition p c a q) = a_grant a"
  "t_spent_delta (step_transition p c a q) = a_spent_delta a"
  "t_freeze_budget (step_transition p c a q) = a_freeze_budget a"
  by (simp_all add: step_transition_def)

lemma step_transition_sha_ok [simp]: "sha256_ok (t_transition_sha256 (step_transition p c a q))"
  by (simp add: step_transition_def)

lemma check_Inr_intros:
  "identifier_ok v \<Longrightarrow> check_identifier v l = Inr ()" "sha256_ok v \<Longrightarrow> check_sha256 v l = Inr ()"
  by (simp_all add: check_simps)

lemma replay_decided:
  assumes "steps_to p c a q" and "command_ok c"
    and "decide_fresh p c = Inr (fresh_decision (step_transition p c a q))"
  shows "replay_record p (record_of (step_transition p c a q)) = Inr q"
  using steps_to_projection_after [OF assms(1)] validate_decided [OF assms(1,3)] command_ok_ids [OF assms(2)]
  by (simp add: replay_record_def Let_def check_Inr_intros rejection_as_value_error_def)

lemma find_fresh:
  "find (\<lambda>rec. cr_command_id rec = i) recs = None \<longleftrightarrow> i \<notin> cr_command_id ` set recs"
  by (auto simp: find_None_iff_list_all list_all_iff)

text \<open>The state after a fresh command is well-formed and is what \<^verbatim>\<open>evolve\<close> returns.\<close>

lemma extend_state_ok:
  assumes s: "state_ok s" and c: "command_ok c" and st: "steps_to s c a q"
    and d: "decide_fresh s c = Inr (fresh_decision (step_transition s c a q))"
    and new: "command_id c \<notin> cr_command_id ` set (s_command_records s)"
  shows "state_ok (extend_state s q (step_transition s c a q))"
proof -
  let ?t = "step_transition s c a q"
  have "steps_to (proj s) c a q" "decide_fresh (proj s) c = Inr (fresh_decision (step_transition (proj s) c a q))"
    using st d by simp_all
  from replay_decided [OF this(1) c this(2)] have r: "replay_record (proj s) (record_of ?t) = Inr q" by simp
  have "genesis (extend_state s q ?t) = genesis s" by (simp add: genesis_def extend_state_def)
  then have "replay (genesis (extend_state s q ?t)) (s_command_records (extend_state s q ?t)) = Inr q"
    using s r by (simp add: replay_def extend_state_def fold_result_append state_ok_def)
  moreover have "ledger_ok q" using st by (simp add: steps_to_def)
  then have "ledger_ok (extend_state s q ?t)"
    using proj_extend_state [OF st] frame_simps(7) by metis
  ultimately show ?thesis
    using s new proj_extend_state [OF st, of ?t]
    by (simp add: state_ok_def extend_state_def)
qed

theorem submit_fresh:
  assumes s: "state_ok s" and c: "command_ok c"
    and new: "command_id c \<notin> cr_command_id ` set (s_command_records s)"
    and a: "chosen s c a" "steps_to s c a q"
  shows "submit s c = Inr (extend_state s q (step_transition s c a q))"
proof -
  let ?t = "step_transition s c a q"
  have d: "decide_fresh s c = Inr (fresh_decision ?t)"
    using s c a by (intro chosen_decision) (auto simp: state_ok_def)
  have "decide s c = Inr (fresh_decision ?t)"
    using new d find_fresh [of "command_id c" "s_command_records s"] by (simp add: decide_def)
  moreover have "evolve s ?t = Inr (extend_state s q ?t)"
    using new validate_decided [OF a(2) d] steps_to_projection_after [OF a(2)]
      mk_state_ok [OF extend_state_ok [OF s c a(2) d new]]
    by (auto simp: evolve_def extend_state_def list_ex_iff raise_if_def image_iff)
  ultimately show ?thesis by (simp add: submit_def evolve_all_def)
qed

lemma submit_replayed:
  assumes "find (\<lambda>rec. cr_command_id rec = command_id c) (s_command_records s) = Some rec"
  shows "decide s c = (if cr_command_sha256 rec \<noteq> command_hash c
      then Inl (Rejection (IdempotencyConflict (command_id c)))
      else Inr \<lparr>d_transitions = [], d_replayed = True, d_replay_receipt = Some (cr_receipt rec)\<rparr>)"
    and "submit s c = (if cr_command_sha256 rec \<noteq> command_hash c
      then Inl (Rejection (IdempotencyConflict (command_id c))) else Inr s)"
  using assms
  by (simp_all add: submit_def decide_def raise_if_def mk_decision_value_def post_init_decision_def evolve_all_def)

text \<open>The three ways a command can go.\<close>

lemma submit_cases [consumes 2, case_names conflict replay fresh]:
  assumes s: "state_ok s" and c: "command_ok c"
  obtains rec where "rec \<in> set (s_command_records s)" "cr_command_id rec = command_id c"
      "cr_command_sha256 rec \<noteq> command_hash c"
      "submit s c = Inl (Rejection (IdempotencyConflict (command_id c)))"
    | rec where "rec \<in> set (s_command_records s)" "cr_command_id rec = command_id c"
      "cr_command_sha256 rec = command_hash c" "submit s c = Inr s"
    | a q where "command_id c \<notin> cr_command_id ` set (s_command_records s)" "chosen s c a" "steps_to s c a q"
      "submit s c = Inr (extend_state s q (step_transition s c a q))"
      "state_ok (extend_state s q (step_transition s c a q))"
proof (cases "find (\<lambda>rec. cr_command_id rec = command_id c) (s_command_records s)")
  case None
  then have new: "command_id c \<notin> cr_command_id ` set (s_command_records s)" by (simp add: find_fresh)
  have l: "ledger_ok s" using s by (simp add: state_ok_def)
  obtain a where a: "chosen s c a" using chosen_exists [OF l c] ..
  obtain q where q: "steps_to s c a q" using chosen_steps [OF l c a] ..
  show thesis
    using that(3) [OF new a q submit_fresh [OF s c new a q]]
      extend_state_ok [OF s c q chosen_decision [OF l c a q] new] .
next
  case (Some rec)
  then show thesis
    using that(1,2) find_SomeD [OF Some] submit_replayed(2) [OF Some] by (cases "cr_command_sha256 rec = command_hash c") auto
qed

lemma submit_Inr_ok: "state_ok s \<Longrightarrow> command_ok c \<Longrightarrow> submit s c = Inr s' \<Longrightarrow> state_ok s'"
  by (rule submit_cases [of s c]) auto

lemma submit_Inl:
  "state_ok s \<Longrightarrow> command_ok c \<Longrightarrow> submit s c = Inl e \<Longrightarrow> e = Rejection (IdempotencyConflict (command_id c))"
  by (rule submit_cases [of s c]) auto

section \<open>Creation and reachable states\<close>

lemma create_Inr:
  "create b sc ep caps = Inr s \<longleftrightarrow>
     identifier_ok b \<and> identifier_ok sc \<and> 1 \<le> ep \<and>
     s = \<lparr>p_schema_version = SCHEMA_VERSION, p_budget_id = b, p_scope = sc, p_epoch = ep,
          p_revision = 0, p_hard_caps = caps, p_spent = 0, p_status = ACTIVE, p_grants = [],
          s_command_records = []\<rparr>"
proof -
  let ?s = "\<lparr>p_schema_version = SCHEMA_VERSION, p_budget_id = b, p_scope = sc, p_epoch = ep,
          p_revision = 0, p_hard_caps = caps, p_spent = 0, p_status = ACTIVE, p_grants = [],
          s_command_records = []\<rparr>"
  have "post_init_state ?s = Inr ()" if "identifier_ok b" "identifier_ok sc" "1 \<le> ep"
    using that
    by (simp add: post_init_state_Inr identity_ok_def validate_retained_history_def genesis_def
        state_sha256_def snapshot_sha256_def)
  then show ?thesis
    by (auto simp: create_def mk_budget_def mk_state_def post_init_budget_Inr result_simps)
qed

lemma create_ok: "create b sc ep caps = Inr s \<Longrightarrow> state_ok s"
  by (auto simp: create_Inr state_ok_def ledger_ok_def identity_ok_def replay_def genesis_def resource_projection.defs)

inductive reachable :: "resource_state \<Rightarrow> bool" where
  created: "create b sc ep caps = Inr s \<Longrightarrow> reachable s"
| submitted: "reachable s \<Longrightarrow> command_ok c \<Longrightarrow> submit s c = Inr s' \<Longrightarrow> reachable s'"

lemma reachable_ok: "reachable s \<Longrightarrow> state_ok s"
  by (induction rule: reachable.induct) (auto intro: create_ok submit_Inr_ok)

end
