(* ===== verification/Resource_Lifecycle.thy ===== *)
theory Resource_Lifecycle
  imports Resource_Invariant
begin

text \<open>
  The life cycle of a grant: which status may follow which (\<open>lifecycle\<close>), what a grant
  keeps for life (\<open>same_grant\<close>), and that a submitted command adds one grant, moves one
  grant one step, or leaves all grants alone.
\<close>

section \<open>The grant life cycle\<close>

inductive lifecycle :: "grant_status \<Rightarrow> grant_status \<Rightarrow> bool" where
  "lifecycle RESERVED IN_USE"
| "lifecycle RESERVED CANCELLED_UNUSED"
| "lifecycle RESERVED EXPIRED_UNUSED"
| "lifecycle IN_USE CANCEL_PENDING"
| "st \<in> {IN_USE, CANCEL_PENDING} \<Longrightarrow> lifecycle st RECONCILIATION_REQUIRED"
| "st \<in> {IN_USE, CANCEL_PENDING, RECONCILIATION_REQUIRED} \<Longrightarrow> lifecycle st SETTLED"
| "st \<in> {IN_USE, CANCEL_PENDING, RECONCILIATION_REQUIRED} \<Longrightarrow> lifecycle st CANCELLED_SETTLED"
| "st \<in> {IN_USE, CANCEL_PENDING, RECONCILIATION_REQUIRED} \<Longrightarrow> lifecycle st QUARANTINED_OVERRUN"

inductive_simps lifecycle_from: "lifecycle st st'"

definition terminal :: "grant_status \<Rightarrow> bool" where
  "terminal st \<longleftrightarrow> \<not> holds_reservation st"

lemma lifecycle_not_terminal: "lifecycle st st' \<Longrightarrow> \<not> terminal st"
  by (auto simp: lifecycle.simps terminal_def holds_reservation_def)

text \<open>The identity a grant keeps for life.\<close>

definition same_grant :: "resource_grant \<Rightarrow> resource_grant \<Rightarrow> bool" where
  "same_grant g g' \<longleftrightarrow>
     g_grant_id g' = g_grant_id g \<and> g_estimate_sha256 g' = g_estimate_sha256 g \<and>
     g_workload_sha256 g' = g_workload_sha256 g \<and> g_reserved g' = g_reserved g \<and>
     g_reserved_at g' = g_reserved_at g \<and> g_expires_at g' = g_expires_at g \<and>
     g_fence_token g' = g_fence_token g \<and> (g_cancel_requested g \<longrightarrow> g_cancel_requested g') \<and>
     (\<forall>t. g_started_at g = Some t \<longrightarrow> g_started_at g' = Some t) \<and>
     instant_of (g_last_observed_at g) \<le> instant_of (g_last_observed_at g')"

definition grant_step :: "resource_grant \<Rightarrow> resource_grant \<Rightarrow> bool" where
  "grant_step g g' \<longleftrightarrow> same_grant g g' \<and> lifecycle (g_status g) (g_status g')"

text \<open>What an accepted command does to the list of grants.\<close>

definition grants_change :: "resource_command \<Rightarrow> resource_grant list \<Rightarrow> resource_grant list \<Rightarrow> bool" where
  "grants_change c gs gs' \<longleftrightarrow>
     (\<exists>rc. c = RequestGrant rc \<and> gs' = gs @ [new_grant rc] \<and> rq_grant_id rc \<notin> g_grant_id ` set gs) \<or>
     (\<exists>as g bs g'. gs = as @ g # bs \<and> gs' = as @ g' # bs \<and> g_grant_id g = command_grant_id c \<and> grant_step g g')"

lemmas grant_step_simps = step_simps grant_step_def same_grant_def lifecycle.simps observes_after_def

lemma accepts_changes:
  assumes p: "ledger_ok p" and c: "command_ok c" and acc: "accepts p c a"
    and gs: "projected_grants p c (a_grant a) = Inr gs"
  shows "grants_change c (p_grants p) gs"
proof -
  have upd: "grants_change c (p_grants p) gs"
    if b: "binds p gc g" and g': "a_grant a = Some g'" "grant_step g g'" and r: "\<not> is_request c"
      "command_grant_id c = gc_grant_id gc" for gc g g'
  proof -
    obtain as bs where s: "p_grants p = as @ g # bs" "g_grant_id g = gc_grant_id gc"
      "gc_grant_id gc \<notin> g_grant_id ` set as" using binds_split [OF p b] by metis
    have "g_grant_id g' = g_grant_id g" using g'(2) by (simp add: grant_step_def same_grant_def)
    then have "gs = as @ g' # bs"
      using projected_grants_replace [of p as g bs g' c] s r(1) gs g'(1) by simp
    with s g' r(2) show ?thesis by (auto simp: grants_change_def)
  qed
  from acc show ?thesis
  proof cases
    case (reserve rc)
    with gs show ?thesis
      by (auto simp: grants_change_def projected_grants_def is_request_def step_simps)
  next
    case (settle gc g s u)
    then show ?thesis
      by (intro upd [of gc g "settle_update gc u (settled_status g) g"])
        (auto simp: grant_step_simps settled_status_def)
  next
    case (start gc g)
    then have "grant_ok g" using ledger_grant_ok [OF p] by (auto simp: binds_def)
    with start have "g_started_at g = None" by (simp add: grant_ok_def post_start_def charged_def)
    with start show ?thesis
      by (intro upd [of gc g "start_update gc g"])
        (auto simp: grant_step_simps)
  next
    case (overrun gc g s u)
    then show ?thesis
      by (intro upd [of gc g "settle_update gc u QUARANTINED_OVERRUN g"])
        (auto simp: grant_step_simps)
  next
    case (cancel_unused gc g reason)
    then show ?thesis
      by (intro upd [of gc g "release_update gc CANCELLED_UNUSED g"])
        (auto simp: grant_step_simps)
  next
    case (cancel_pending gc g reason)
    then show ?thesis
      by (intro upd [of gc g "pend_update gc g"])
        (auto simp: grant_step_simps)
  next
    case (deadline_unused gc g)
    then show ?thesis
      by (intro upd [of gc g "release_update gc EXPIRED_UNUSED g"])
        (auto simp: grant_step_simps)
  next
    case (deadline_pending gc g)
    then show ?thesis
      by (intro upd [of gc g "pend_update gc g"])
        (auto simp: grant_step_simps)
  next
    case (usage_unknown gc g reason)
    then show ?thesis
      by (intro upd [of gc g "release_update gc RECONCILIATION_REQUIRED g"])
        (auto simp: grant_step_simps)
  qed
qed

lemma next_projection_simps [simp]:
  "p_hard_caps (next_projection p a gs) = p_hard_caps p"
  "p_spent (next_projection p a gs) = p_spent p + a_spent_delta a"
  "p_status (next_projection p a gs) = (if a_freeze_budget a then FROZEN else p_status p)"
  "p_grants (next_projection p a gs) = gs" "p_revision (next_projection p a gs) = p_revision p + 1"
  "p_budget_id (next_projection p a gs) = p_budget_id p" "p_scope (next_projection p a gs) = p_scope p"
  "p_epoch (next_projection p a gs) = p_epoch p" "p_schema_version (next_projection p a gs) = p_schema_version p"
  by (simp_all add: next_projection_def)

lemma refused_projection:
  assumes "a = rejected_args r" and "steps_to p c a q"
  shows "q = next_projection p a (p_grants p) \<and> a_spent_delta a = 0 \<and> \<not> a_freeze_budget a"
  using assms by (auto simp: steps_to_def rejected_args_def decision_defaults_def projected_grants_def)

text \<open>And the grants themselves: a fresh command changes one grant along the life cycle,
  adds one, or leaves all alone.\<close>

lemma submit_grants:
  assumes "state_ok s" and "command_ok c" and "submit s c = Inr s'"
  shows "p_grants s' = p_grants s \<or> grants_change c (p_grants s) (p_grants s')"
  using assms(1,2)
proof (cases rule: submit_cases)
  case (fresh a q)
  have s': "p_grants s' = p_grants q" using fresh assms(3) by (simp add: extend_state_def)
  have l: "ledger_ok s" using assms by (simp add: state_ok_def)
  show ?thesis
  proof (cases "accepts s c a")
    case True
    obtain gs where "projected_grants s c (a_grant a) = Inr gs" "q = next_projection s a gs"
      using fresh(3) by (auto simp: steps_to_def)
    with accepts_changes [OF l assms(2) True this(1)] s' show ?thesis by simp
  next
    case False
    then obtain r where "a = rejected_args r" using fresh(2) by (auto simp: chosen_def)
    with refused_projection [OF _ fresh(3)] s' show ?thesis by auto
  qed
qed (use assms in auto)

end
