(* ===== verification/Resource_Escrow.thy ===== *)
theory Resource_Escrow
  imports Resource_Lifecycle
begin

text \<open>
  What a budget promises, as an abstract machine over open reservations, and the proof that
  \<^verbatim>\<open>decide\<close> followed by \<^verbatim>\<open>evolve\<close> refines it under the abstraction \<open>escrow_of\<close>.
\<close>

section \<open>The abstract escrow a budget promises\<close>

text \<open>
  The contract: a cap, what has been spent, whether the budget is frozen, the open
  reservations by grant id, and the ids whose reservation has been closed. A step admits a
  new reservation within the caps, closes one with a charge within it, closes one with a
  charge beyond it and freezes, or releases one.
\<close>

record escrow =
  x_caps :: resource_vector
  x_spent :: resource_vector
  x_frozen :: bool
  x_open :: "string \<rightharpoonup> resource_vector"
  x_closed :: "string set"

definition open_total :: "(string \<rightharpoonup> resource_vector) \<Rightarrow> resource_vector" where
  "open_total m = (\<Sum>i\<in>dom m. the (m i))"

inductive escrow_step :: "escrow \<Rightarrow> escrow \<Rightarrow> bool" where
  admit: "i \<notin> dom (x_open x) \<Longrightarrow> i \<notin> x_closed x \<Longrightarrow> \<not> x_frozen x \<Longrightarrow>
    x_spent x + open_total (x_open x) + v \<le> x_caps x \<Longrightarrow>
    escrow_step x (x\<lparr>x_open := (x_open x)(i \<mapsto> v)\<rparr>)"
| settle: "x_open x i = Some v \<Longrightarrow> u \<le> v \<Longrightarrow>
    escrow_step x (x\<lparr>x_open := (x_open x)(i := None), x_closed := insert i (x_closed x),
      x_spent := x_spent x + u\<rparr>)"
| overrun: "x_open x i = Some v \<Longrightarrow> \<not> u \<le> v \<Longrightarrow>
    escrow_step x (x\<lparr>x_open := (x_open x)(i := None), x_closed := insert i (x_closed x),
      x_spent := x_spent x + u, x_frozen := True\<rparr>)"
| release: "x_open x i = Some v \<Longrightarrow>
    escrow_step x (x\<lparr>x_open := (x_open x)(i := None), x_closed := insert i (x_closed x)\<rparr>)"

definition escrow_of :: "'a resource_projection_scheme \<Rightarrow> escrow" where
  "escrow_of p =
     \<lparr>x_caps = p_hard_caps p, x_spent = p_spent p, x_frozen = (p_status p = FROZEN),
      x_open = map_of (map (\<lambda>g. (g_grant_id g, g_reserved g)) (filter (\<lambda>g. holds_reservation (g_status g)) (p_grants p))),
      x_closed = g_grant_id ` {g \<in> set (p_grants p). terminal (g_status g)}\<rparr>"

definition open_of :: "resource_grant list \<Rightarrow> string \<rightharpoonup> resource_vector" where
  "open_of gs = map_of (map (\<lambda>g. (g_grant_id g, g_reserved g)) (filter (\<lambda>g. holds_reservation (g_status g)) gs))"

lemma open_of_simps [simp]:
  "open_of [] = Map.empty"
  "open_of (g # gs) = (if holds_reservation (g_status g) then (open_of gs)(g_grant_id g \<mapsto> g_reserved g) else open_of gs)"
  "open_of (as @ bs) = open_of bs ++ open_of as"
  by (simp_all add: open_of_def)

lemma dom_open_of: "dom (open_of gs) \<subseteq> g_grant_id ` set gs"
  by (auto simp: open_of_def dom_map_of_conv_image_fst)

lemma open_of_fresh: "i \<notin> g_grant_id ` set gs \<Longrightarrow> open_of gs i = None"
  using dom_open_of [of gs] by auto

lemma open_total_open_of: "distinct (map g_grant_id gs) \<Longrightarrow> open_total (open_of gs) = held_total gs"
proof (induction gs)
  case Nil
  then show ?case by (simp add: open_total_def)
next
  case (Cons g gs)
  then have n: "g_grant_id g \<notin> dom (open_of gs)" using dom_open_of [of gs] by auto
  have f: "finite (dom (open_of gs))" by (simp add: open_of_def finite_dom_map_of)
  have "(\<Sum>i\<in>dom (open_of gs). the (((open_of gs)(g_grant_id g \<mapsto> v)) i)) =
      (\<Sum>i\<in>dom (open_of gs). the (open_of gs i))" for v
    using n by (intro sum.cong) auto
  with Cons n f show ?case by (auto simp: open_total_def)
qed

lemma open_of_replace:
  assumes "distinct (map g_grant_id (as @ g # bs))" and "g_grant_id g' = g_grant_id g"
  shows "open_of (as @ g' # bs) =
    (open_of (as @ g # bs))(g_grant_id g := if holds_reservation (g_status g') then Some (g_reserved g') else None)"
  using assms open_of_fresh [of "g_grant_id g" as] open_of_fresh [of "g_grant_id g" bs]
  by (auto simp: fun_eq_iff map_add_def split: option.splits)

lemma escrow_of_simps [simp]:
  "x_caps (escrow_of p) = p_hard_caps p" "x_spent (escrow_of p) = p_spent p"
  "x_frozen (escrow_of p) = (p_status p = FROZEN)" "x_open (escrow_of p) = open_of (p_grants p)"
  "x_closed (escrow_of p) = g_grant_id ` {g \<in> set (p_grants p). terminal (g_status g)}"
  by (simp_all add: escrow_of_def open_of_def)

lemma escrow_eqI:
  "x_caps x = x_caps y \<Longrightarrow> x_spent x = x_spent y \<Longrightarrow> x_frozen x = x_frozen y \<Longrightarrow>
   x_open x = x_open y \<Longrightarrow> x_closed x = x_closed y \<Longrightarrow> x = (y :: escrow)"
  by simp

lemma escrow_update:
  assumes "ledger_ok p" and "p_grants p = as @ g # bs" and "g_grant_id g' = g_grant_id g"
    and "holds_reservation (g_status g)"
  shows "escrow_of (next_projection p a (as @ g' # bs)) = (escrow_of p)
    \<lparr>x_open := (open_of (p_grants p))(g_grant_id g := if holds_reservation (g_status g') then Some (g_reserved g') else None),
     x_closed := (if holds_reservation (g_status g') then x_closed (escrow_of p) else insert (g_grant_id g) (x_closed (escrow_of p))),
     x_spent := p_spent p + a_spent_delta a, x_frozen := (p_status p = FROZEN \<or> a_freeze_budget a)\<rparr>"
proof -
  have d: "distinct (map g_grant_id (as @ g # bs))" using assms by (simp add: ledger_ok_def)
  have "g_grant_id ` {h \<in> set (as @ g' # bs). terminal (g_status h)} =
      (if holds_reservation (g_status g') then x_closed (escrow_of p) else insert (g_grant_id g) (x_closed (escrow_of p)))"
    using assms by (force simp: terminal_def image_iff)
  then show ?thesis
    using open_of_replace [OF d assms(3)] assms(2)
    by (intro escrow_eqI) (simp_all del: open_of_simps set_append)
qed

lemma open_of_hit:
  assumes "ledger_ok p" and "p_grants p = as @ g # bs" and "holds_reservation (g_status g)"
  shows "open_of (p_grants p) (g_grant_id g) = Some (g_reserved g)"
proof -
  have "g_grant_id g \<notin> g_grant_id ` set as" using assms by (auto simp: ledger_ok_def)
  then show ?thesis using assms(2,3) by (simp add: map_add_def open_of_fresh)
qed

lemma escrow_close:
  assumes p: "ledger_ok p" and b: "binds p c g" and st: "g_status g \<in> {RESERVED, IN_USE, CANCEL_PENDING, RECONCILIATION_REQUIRED}"
    and q: "steps_to p cmd a q" and r: "\<not> is_request cmd"
    and g': "a_grant a = Some g'" "g_grant_id g' = g_grant_id g" "g_reserved g' = g_reserved g"
    and how: "holds_reservation (g_status g') \<and> a_spent_delta a = 0 \<and> \<not> a_freeze_budget a \<or>
      terminal (g_status g') \<and> (a_spent_delta a = 0 \<and> \<not> a_freeze_budget a \<or>
        a_spent_delta a \<le> g_reserved g \<and> \<not> a_freeze_budget a \<or>
        \<not> a_spent_delta a \<le> g_reserved g \<and> a_freeze_budget a)"
  shows "escrow_step\<^sup>=\<^sup>= (escrow_of p) (escrow_of q)"
proof -
  obtain as bs where s: "p_grants p = as @ g # bs" "g_grant_id g = gc_grant_id c"
    "gc_grant_id c \<notin> g_grant_id ` set as" using binds_split [OF p b] by metis
  have "projected_grants p cmd (Some g') = Inr (as @ g' # bs)"
    by (rule projected_grants_replace [OF s(1) g'(2) _ r]) (use s in metis)
  then have q': "q = next_projection p a (as @ g' # bs)" using q g' by (auto simp: steps_to_def)
  have h: "holds_reservation (g_status g)" using st by (auto simp: holds_reservation_def)
  note u = escrow_update [OF p s(1) g'(2) h, of a, folded q'] and o = open_of_hit [OF p s(1) h]
  show ?thesis
  proof (cases "holds_reservation (g_status g')")
    case True
    then have "escrow_of q = escrow_of p"
      using u how o g' by (intro escrow_eqI) (auto simp: terminal_def)
    then show ?thesis by simp
  next
    case False
    let ?x = "escrow_of p" and ?i = "g_grant_id g"
    have o': "x_open ?x ?i = Some (g_reserved g)" using o by simp
    have "escrow_of q = ?x\<lparr>x_open := (x_open ?x)(?i := None), x_closed := insert ?i (x_closed ?x),
        x_spent := x_spent ?x + a_spent_delta a\<rparr>" if "\<not> a_freeze_budget a"
      using u False that by (intro escrow_eqI) auto
    moreover have "escrow_of q = ?x\<lparr>x_open := (x_open ?x)(?i := None), x_closed := insert ?i (x_closed ?x),
        x_spent := x_spent ?x + a_spent_delta a, x_frozen := True\<rparr>" if "a_freeze_budget a"
      using u False that by (intro escrow_eqI) auto
    ultimately show ?thesis
      using how False escrow_step.settle [OF o'] escrow_step.overrun [OF o'] vector_zero_le [of "g_reserved g"]
      by (cases "a_freeze_budget a") (metis sup2I1)+
  qed
qed

lemma accepts_escrow:
  assumes p: "ledger_ok p" and acc: "accepts p c a" and q: "steps_to p c a q"
  shows "escrow_step\<^sup>=\<^sup>= (escrow_of p) (escrow_of q)"
  using acc
proof cases
  case (reserve rc)
  let ?x = "escrow_of p" and ?i = "rq_grant_id rc" and ?v = "e_upper_bound (rq_estimate rc)"
  have q': "q = next_projection p a (p_grants p @ [new_grant rc])"
    using q reserve by (auto simp: steps_to_def projected_grants_def is_request_def args_defs)
  have d: "distinct (map g_grant_id (p_grants p))" using p by (simp add: ledger_ok_def)
  have "p_spent p + held_total (p_grants p) \<le> p_hard_caps p"
    using p reserve by (simp add: ledger_ok_def)
  then have "x_spent ?x + open_total (x_open ?x) + ?v \<le> x_caps ?x"
    using reserve d by (simp add: open_total_open_of remaining_def reserved_total_eq vector_le_minus_iff)
  moreover have "?i \<notin> dom (x_open ?x)" "?i \<notin> x_closed ?x"
    using reserve dom_open_of [of "p_grants p"] by auto
  ultimately have "escrow_step ?x (?x\<lparr>x_open := (x_open ?x)(?i \<mapsto> ?v)\<rparr>)"
    using reserve by (intro escrow_step.admit) auto
  moreover have "escrow_of q = ?x\<lparr>x_open := (x_open ?x)(?i \<mapsto> ?v)\<rparr>"
    using reserve open_of_fresh [of ?i "p_grants p"]
    by (intro escrow_eqI) (auto simp: q' step_simps terminal_def map_add_def fun_eq_iff split: option.splits)
  ultimately show ?thesis by simp
next
  case (start gc g)
  then show ?thesis
    by (intro escrow_close [OF p _ _ q, of gc g "start_update gc g"]) (auto simp: step_simps)
next
  case (settle gc g s u)
  then show ?thesis
    by (intro escrow_close [OF p _ _ q, of gc g "settle_update gc u (settled_status g) g"])
      (auto simp: step_simps terminal_def settled_status_def)
next
  case (overrun gc g s u)
  then show ?thesis
    by (intro escrow_close [OF p _ _ q, of gc g "settle_update gc u QUARANTINED_OVERRUN g"])
      (auto simp: step_simps terminal_def)
next
  case (cancel_unused gc g reason)
  then show ?thesis
    by (intro escrow_close [OF p _ _ q, of gc g "release_update gc CANCELLED_UNUSED g"]) (auto simp: step_simps terminal_def)
next
  case (cancel_pending gc g reason)
  then show ?thesis
    by (intro escrow_close [OF p _ _ q, of gc g "pend_update gc g"]) (auto simp: step_simps)
next
  case (deadline_unused gc g)
  then show ?thesis
    by (intro escrow_close [OF p _ _ q, of gc g "release_update gc EXPIRED_UNUSED g"]) (auto simp: step_simps terminal_def)
next
  case (deadline_pending gc g)
  then show ?thesis
    by (intro escrow_close [OF p _ _ q, of gc g "pend_update gc g"]) (auto simp: step_simps)
next
  case (usage_unknown gc g reason)
  then show ?thesis
    by (intro escrow_close [OF p _ _ q, of gc g "release_update gc RECONCILIATION_REQUIRED g"]) (auto simp: step_simps)
qed

lemma chosen_escrow:
  assumes "ledger_ok p" and "chosen p c a" and "steps_to p c a q"
  shows "escrow_step\<^sup>=\<^sup>= (escrow_of p) (escrow_of q)"
proof (cases "accepts p c a")
  case True
  show ?thesis by (rule accepts_escrow [OF assms(1) True assms(3)])
next
  case False
  then obtain r where "a = rejected_args r" using assms(2) by (auto simp: chosen_def)
  then have "escrow_of q = escrow_of p" using refused_projection [OF _ assms(3)] by (intro escrow_eqI) auto
  then show ?thesis by simp
qed

lemma escrow_of_proj: "escrow_of (proj s) = escrow_of s"
  by (simp add: escrow_of_def)

text \<open>Refinement: a submitted command is a step of the escrow or leaves it as it was.\<close>

lemma submit_escrow:
  assumes "state_ok s" and "command_ok c" and "submit s c = Inr s'"
  shows "escrow_step\<^sup>=\<^sup>= (escrow_of s) (escrow_of s')"
  using assms(1,2)
proof (cases rule: submit_cases)
  case (fresh a q)
  then have "escrow_step\<^sup>=\<^sup>= (escrow_of s) (escrow_of q)"
    using assms(1) by (intro chosen_escrow) (auto simp: state_ok_def)
  moreover have "s' = extend_state s q (step_transition s c a q)" using fresh assms(3) by simp
  then have "escrow_of s' = escrow_of q"
    using escrow_of_proj [of s'] proj_extend_state [OF fresh(3)] by simp
  ultimately show ?thesis by simp
qed (use assms in auto)

end
