(* ===== verification/Resource_Kernel.thy ===== *)
theory Resource_Kernel
  imports Resource_Escrow
begin

text \<open>
  The functional port of \<^verbatim>\<open>lakatos/resource_kernel.py\<close>. The Protocol
  \<^verbatim>\<open>ResourceKernel\<close> is the locale \<open>resource_kernel\<close>: its \<open>fixes\<close> are the two operations
  an adapter calls, its \<open>assumes\<close> the laws an adapter relies on; what follows for any
  sequence of commands is proved inside it once. The interpretation on \<open>decide\<close> and
  \<open>evolve\<close> discharges the laws for the code. \<open>FunctionalResourceKernel\<close> is the record of
  capabilities with its compatibility checks.
\<close>

section \<open>Applying decisions\<close>

definition submit_with :: "('s \<Rightarrow> 'c \<Rightarrow> 'e + 'd) \<Rightarrow> ('s \<Rightarrow> 't \<Rightarrow> 'e + 's) \<Rightarrow> ('d \<Rightarrow> 't list) \<Rightarrow>
    's \<Rightarrow> 'c \<Rightarrow> 'e + 's" where
  "submit_with decide_fn evolve_fn transitions s c =
     ebind (decide_fn s c) (\<lambda>d. fold_result evolve_fn s (transitions d))"

text \<open>A service that keeps its state when a command raises.\<close>

definition serve_with :: "('s \<Rightarrow> 'c \<Rightarrow> 'e + 'd) \<Rightarrow> ('s \<Rightarrow> 't \<Rightarrow> 'e + 's) \<Rightarrow> ('d \<Rightarrow> 't list) \<Rightarrow>
    's \<Rightarrow> 'c list \<Rightarrow> 's" where
  "serve_with decide_fn evolve_fn transitions =
     foldl (\<lambda>s c. case submit_with decide_fn evolve_fn transitions s c of Inl _ \<Rightarrow> s | Inr s' \<Rightarrow> s')"

section \<open>The port\<close>

locale resource_kernel =
  fixes decide_fn :: "'s \<Rightarrow> 'c \<Rightarrow> 'e + 'd"
    and evolve_fn :: "'s \<Rightarrow> 't \<Rightarrow> 'e + 's"
    and transitions :: "'d \<Rightarrow> 't list"
    and receipt :: "'d \<Rightarrow> 'r"
    and valid :: "'s \<Rightarrow> bool"
    and command :: "'c \<Rightarrow> bool"
  assumes applies: "valid s \<Longrightarrow> command c \<Longrightarrow> decide_fn s c = Inr d \<Longrightarrow>
      \<exists>s'. fold_result evolve_fn s (transitions d) = Inr s' \<and> valid s'"
    and remembers: "valid s \<Longrightarrow> command c \<Longrightarrow> decide_fn s c = Inr d \<Longrightarrow>
      fold_result evolve_fn s (transitions d) = Inr s' \<Longrightarrow>
      \<exists>d'. decide_fn s' c = Inr d' \<and> transitions d' = [] \<and> receipt d' = receipt d"
    and keeps: "valid s \<Longrightarrow> command c \<Longrightarrow> command c' \<Longrightarrow> decide_fn s c' = Inr d' \<Longrightarrow> transitions d' = [] \<Longrightarrow>
      submit_with decide_fn evolve_fn transitions s c = Inr s' \<Longrightarrow> decide_fn s' c' = Inr d'"
begin

abbreviation submits :: "'s \<Rightarrow> 'c \<Rightarrow> 'e + 's" where
  "submits \<equiv> submit_with decide_fn evolve_fn transitions"

abbreviation serves :: "'s \<Rightarrow> 'c list \<Rightarrow> 's" where
  "serves \<equiv> serve_with decide_fn evolve_fn transitions"

lemma submits_valid: "valid s \<Longrightarrow> command c \<Longrightarrow> submits s c = Inr s' \<Longrightarrow> valid s'"
  using applies by (fastforce simp: submit_with_def result_simps)

lemma submits_Inl: "valid s \<Longrightarrow> command c \<Longrightarrow> submits s c = Inl e \<Longrightarrow> decide_fn s c = Inl e"
  using applies by (fastforce simp: submit_with_def result_simps)

lemma serves_valid: "valid s \<Longrightarrow> list_all command cs \<Longrightarrow> valid (serves s cs)"
proof (induction cs arbitrary: s)
  case (Cons c cs)
  then show ?case
    using submits_valid by (auto simp: serve_with_def split: sum.split)
qed (simp add: serve_with_def)

lemma serves_keeps:
  assumes "valid s" and "list_all command cs" and "command c"
    and "decide_fn s c = Inr d" and "transitions d = []"
  shows "decide_fn (serves s cs) c = Inr d"
  using assms
proof (induction cs arbitrary: s)
  case (Cons x cs)
  show ?case
  proof (cases "submits s x")
    case (Inl e)
    then show ?thesis using Cons by (simp add: serve_with_def)
  next
    case (Inr t)
    have "valid t" "decide_fn t c = Inr d"
      using Cons.prems Inr submits_valid [of s x t] keeps [of s x c d t] by auto
    then show ?thesis using Cons.IH [of t] Cons.prems Inr by (simp add: serve_with_def)
  qed
qed (simp add: serve_with_def)

text \<open>A command once answered is answered the same way for ever, with no new transition.\<close>

lemma answered_forever:
  assumes "valid s" and "command c" and "decide_fn s c = Inr d" and "submits s c = Inr s'"
    and "list_all command cs"
  shows "\<exists>d'. decide_fn (serves s' cs) c = Inr d' \<and> transitions d' = [] \<and> receipt d' = receipt d \<and>
    submits (serves s' cs) c = Inr (serves s' cs)"
proof -
  have f: "fold_result evolve_fn s (transitions d) = Inr s'" using assms(3,4) by (simp add: submit_with_def)
  obtain d' where d': "decide_fn s' c = Inr d'" "transitions d' = []" "receipt d' = receipt d"
    using remembers [OF assms(1-3) f] by auto
  have "valid s'" using submits_valid [OF assms(1,2,4)] .
  then have "decide_fn (serves s' cs) c = Inr d'" using serves_keeps [OF _ assms(5,2) d'(1,2)] by simp
  with d' show ?thesis by (simp add: submit_with_def)
qed

end

section \<open>The code's kernel\<close>

lemma submit_eq: "submit = submit_with decide evolve d_transitions"
  by (simp add: fun_eq_iff submit_def submit_with_def evolve_all_def [abs_def])

lemma submit_of_decide:
  "decide s c = Inr d \<Longrightarrow> fold_result evolve s (d_transitions d) = submit s c"
  by (simp add: submit_def evolve_all_def)

lemma submit_records:
  assumes "state_ok s" and "command_ok c" and "submit s c = Inr s'"
  shows "s_command_records s' = s_command_records s \<or>
    (\<exists>rec. s_command_records s' = s_command_records s @ [rec] \<and> cr_command_id rec = command_id c \<and>
       command_id c \<notin> cr_command_id ` set (s_command_records s) \<and> cr_command_sha256 rec = command_hash c \<and>
       (\<exists>d. decide s c = Inr d \<and> cr_receipt rec = decision_receipt d))"
  using assms(1,2)
proof (cases rule: submit_cases)
  case (fresh a q)
  let ?t = "step_transition s c a q"
  have "decide_fresh s c = Inr (fresh_decision ?t)"
    using assms fresh by (intro chosen_decision) (auto simp: state_ok_def)
  then have "decide s c = Inr (fresh_decision ?t)"
    using fresh(1) find_fresh [of "command_id c" "s_command_records s"] by (simp add: decide_def)
  moreover have "s' = extend_state s q ?t" using fresh assms(3) by simp
  ultimately show ?thesis using fresh(1) by (auto simp: extend_state_def)
qed (use assms in auto)

lemma decide_replays:
  assumes "state_ok s" and "rec \<in> set (s_command_records s)" and "cr_command_id rec = command_id c"
    and "cr_command_sha256 rec = command_hash c"
  shows "decide s c = Inr \<lparr>d_transitions = [], d_replayed = True, d_replay_receipt = Some (cr_receipt rec)\<rparr>"
proof -
  have "find (\<lambda>r. cr_command_id r = command_id c) (s_command_records s) = Some rec"
    using find_distinct_key [of cr_command_id "s_command_records s" rec] assms by (simp add: state_ok_def)
  from submit_replayed(1) [OF this] assms(4) show ?thesis by simp
qed

lemma decide_conflicts:
  assumes "state_ok s" and "rec \<in> set (s_command_records s)" and "cr_command_id rec = command_id c"
    and "cr_command_sha256 rec \<noteq> command_hash c"
  shows "decide s c = Inl (Rejection (IdempotencyConflict (command_id c)))"
proof -
  have "find (\<lambda>r. cr_command_id r = command_id c) (s_command_records s) = Some rec"
    using find_distinct_key [of cr_command_id "s_command_records s" rec] assms by (simp add: state_ok_def)
  from submit_replayed(1) [OF this] assms(4) show ?thesis by simp
qed

lemma decide_no_transition:
  assumes "state_ok s" and "command_ok c" and "decide s c = Inr d" and "d_transitions d = []"
  obtains rec where "rec \<in> set (s_command_records s)" "cr_command_id rec = command_id c"
    "cr_command_sha256 rec = command_hash c"
    "d = \<lparr>d_transitions = [], d_replayed = True, d_replay_receipt = Some (cr_receipt rec)\<rparr>"
proof (cases "find (\<lambda>rec. cr_command_id rec = command_id c) (s_command_records s)")
  case (Some rec)
  with find_SomeD [OF Some] assms(3) that submit_replayed(1) [OF Some] show thesis
    by (auto split: if_splits)
next
  case None
  have l: "ledger_ok s" using assms by (simp add: state_ok_def)
  obtain a where a: "chosen s c a" using chosen_exists [OF l assms(2)] ..
  obtain q where q: "steps_to s c a q" using chosen_steps [OF l assms(2) a] ..
  have "decide s c = Inr (fresh_decision (step_transition s c a q))"
    using None chosen_decision [OF l assms(2) a q] by (simp add: decide_def)
  with assms(3,4) show thesis by (auto simp: fresh_decision_def)
qed

interpretation rk: resource_kernel decide evolve d_transitions decision_receipt state_ok command_ok
proof unfold_locales
  fix s c d
  assume s: "state_ok s" and c: "command_ok c" and d: "decide s c = Inr d"
  from s c have "\<exists>s'. submit s c = Inr s' \<and> state_ok s'"
  proof (cases rule: submit_cases)
    case (conflict rec)
    with decide_conflicts [OF s conflict(1-3)] d show ?thesis by simp
  qed (use s in auto)
  then show "\<exists>s'. fold_result evolve s (d_transitions d) = Inr s' \<and> state_ok s'"
    by (simp add: submit_of_decide [OF d])
next
  fix s c d s'
  assume s: "state_ok s" and c: "command_ok c" and d: "decide s c = Inr d"
    and "fold_result evolve s (d_transitions d) = Inr s'"
  then have s': "submit s c = Inr s'" by (simp add: submit_of_decide)
  have ok: "state_ok s'" by (rule submit_Inr_ok [OF s c s'])
  from s c show "\<exists>d'. decide s' c = Inr d' \<and> d_transitions d' = [] \<and> decision_receipt d' = decision_receipt d"
  proof (cases rule: submit_cases)
    case (conflict rec)
    with s' show ?thesis by simp
  next
    case (replay rec)
    then show ?thesis using s' decide_replays [OF s replay(1-3)] d by (simp add: decision_receipt_def)
  next
    case (fresh a q)
    then have "s_command_records s' \<noteq> s_command_records s" using s' by (auto simp: extend_state_def)
    with submit_records [OF s c s'] obtain rec where
      "rec \<in> set (s_command_records s')" "cr_command_id rec = command_id c"
      "cr_command_sha256 rec = command_hash c" "cr_receipt rec = decision_receipt d"
      using d by (metis Inr_inject in_set_conv_decomp)
    with decide_replays [OF ok this(1-3)] show ?thesis by (simp add: decision_receipt_def)
  qed
next
  fix s c c' d' s'
  assume s: "state_ok s" and c: "command_ok c" and c': "command_ok c'" and d': "decide s c' = Inr d'"
    "d_transitions d' = []" and "submit_with decide evolve d_transitions s c = Inr s'"
  then have s': "submit s c = Inr s'" by (simp add: submit_eq)
  obtain rec where r: "rec \<in> set (s_command_records s)" "cr_command_id rec = command_id c'"
    "cr_command_sha256 rec = command_hash c'"
    "d' = \<lparr>d_transitions = [], d_replayed = True, d_replay_receipt = Some (cr_receipt rec)\<rparr>"
    using decide_no_transition [OF s c' d'] by blast
  have "rec \<in> set (s_command_records s')" using submit_records [OF s c s'] r(1) by auto
  with decide_replays [OF submit_Inr_ok [OF s c s'] this r(2,3)] r(4) show "decide s' c' = Inr d'" by simp
qed

section \<open>Capabilities\<close>

text \<open>
  \<^verbatim>\<open>FunctionalResourceKernel\<close>: the two functions with the schema and rule identity
  they claim. HOL's functions are callable, so the \<^verbatim>\<open>callable\<close> tests are discharged by
  the types.
\<close>

record functional_kernel =
  k_decide_fn :: "resource_state \<Rightarrow> resource_command \<Rightarrow> lk_error + decision"
  k_evolve_fn :: "resource_state \<Rightarrow> resource_transition \<Rightarrow> lk_error + resource_state"
  k_schema_version :: string
  k_engine_rule_sha256 :: string

definition post_init_kernel :: "functional_kernel \<Rightarrow> lk_error + unit" where
  "post_init_kernel k = run_checks
     [raise_if (k_schema_version k \<noteq> SCHEMA_VERSION)
        (ValueError ''resource kernel schema is incompatible''),
      raise_if (k_engine_rule_sha256 k \<noteq> ENGINE_RULE_SHA256)
        (ValueError ''resource kernel rule identity is incompatible'')]"

definition require_compatible_resource_kernel :: "functional_kernel \<Rightarrow> lk_error + functional_kernel" where
  "require_compatible_resource_kernel k = ebind (run_checks
     [raise_if (k_schema_version k \<noteq> SCHEMA_VERSION)
        (ValueError ''resource kernel schema is incompatible''),
      raise_if (k_engine_rule_sha256 k \<noteq> ENGINE_RULE_SHA256)
        (ValueError ''resource kernel rule identity is incompatible'')]) (\<lambda>_. Inr k)"

definition kernel_decide :: "functional_kernel \<Rightarrow> resource_state \<Rightarrow> resource_command \<Rightarrow> lk_error + decision" where
  "kernel_decide k s c = k_decide_fn k s c"

definition kernel_evolve :: "functional_kernel \<Rightarrow> resource_state \<Rightarrow> resource_transition \<Rightarrow>
    lk_error + resource_state" where
  "kernel_evolve k s t = k_evolve_fn k s t"

definition DEFAULT_RESOURCE_KERNEL :: functional_kernel where
  "DEFAULT_RESOURCE_KERNEL =
     \<lparr>k_decide_fn = decide, k_evolve_fn = evolve, k_schema_version = SCHEMA_VERSION,
      k_engine_rule_sha256 = ENGINE_RULE_SHA256\<rparr>"

lemma require_compatible_Inr:
  "require_compatible_resource_kernel k = Inr k' \<longleftrightarrow> k' = k \<and> post_init_kernel k = Inr ()"
  by (auto simp: require_compatible_resource_kernel_def post_init_kernel_def result_simps)

lemma default_kernel_compatible:
  "require_compatible_resource_kernel DEFAULT_RESOURCE_KERNEL = Inr DEFAULT_RESOURCE_KERNEL"
  by (simp add: require_compatible_resource_kernel_def DEFAULT_RESOURCE_KERNEL_def)

text \<open>A transition that \<^verbatim>\<open>evolve\<close> accepts is the one \<^verbatim>\<open>decide\<close> returns for its command.\<close>

lemma evolve_Inr_decided:
  assumes "evolve s t = Inr s'"
  shows "\<exists>d. decide s (t_command t) = Inr d \<and> d_transitions d = [t]"
proof -
  have "\<not> list_ex (\<lambda>rec. cr_command_id rec = command_id (t_command t)) (s_command_records s)"
    and v: "validate_transition_against s t = Inr ()"
    using assms by (auto simp: evolve_def result_simps check_simps)
  then have "find (\<lambda>rec. cr_command_id rec = command_id (t_command t)) (s_command_records s) = None"
    by (auto simp: find_fresh list_ex_iff)
  moreover obtain d where "decide_fresh s (t_command t) = Inr d" "d_transitions d = [t]"
    using v by (auto simp: validate_transition_against_def Let_def result_simps check_simps)
  ultimately show ?thesis by (simp add: decide_def)
qed

section \<open>Samples\<close>

text \<open>Concrete inputs shared by the witnesses: a budget, an estimate and a request.\<close>

definition sample_hash :: string where
  "sample_hash = replicate 64 (CHR ''a'')"

definition sample_time :: "int \<Rightarrow> string" where
  "sample_time n = utc_text (seconds (86400 + n))"

definition sample_estimate :: resource_estimate where
  "sample_estimate = \<lparr>e_work_id = ''work'', e_attempt_id = ''1'', e_workload_sha256 = sample_hash,
     e_adapter = ''local'', e_adapter_version = ''1'', e_upper_bound = ResourceVector 5 0 0,
     e_valid_until = sample_time 30, e_expected = None, e_schema_version = SCHEMA_VERSION\<rparr>"

definition sample_request :: request_grant where
  "sample_request = \<lparr>rq_command_id = ''c1'', rq_grant_id = ''g1'', rq_fence_token = 1,
     rq_observed_at = sample_time 10, rq_expires_at = sample_time 20, rq_estimate = sample_estimate\<rparr>"

definition sample_state :: resource_state where
  "sample_state = \<lparr>p_schema_version = SCHEMA_VERSION, p_budget_id = ''b'', p_scope = ''s'', p_epoch = 1,
     p_revision = 0, p_hard_caps = ResourceVector 10 0 0, p_spent = 0, p_status = ACTIVE, p_grants = [],
     s_command_records = []\<rparr>"

lemma sample_hash_ok [simp]: "sha256_ok sample_hash"
  by code_simp

lemma sample_time_ok [simp]:
  "0 \<le> n \<Longrightarrow> n \<le> 1000000 \<Longrightarrow> instant_ok (sample_time n)"
  "0 \<le> n \<Longrightarrow> n \<le> 1000000 \<Longrightarrow> instant_of (sample_time n) = seconds (86400 + n)"
  using read_utc_text [of "seconds (86400 + n)"]
  by (simp_all add: instant_ok_def instant_of_def sample_time_def seconds_def max_instant_value)

lemma sample_request_ok: "request_ok sample_request"
  by (simp add: request_ok_def estimate_ok_def sample_request_def sample_estimate_def text_ok)
   (simp add: zero_resource_vector_def)

lemma sample_created: "create ''b'' ''s'' 1 (ResourceVector 10 0 0) = Inr sample_state"
  by (simp add: create_Inr sample_state_def text_ok)

lemma sample_reachable: "reachable sample_state"
  by (rule reachable.created [OF sample_created])

end
