(* ===== verification/Journal_Contracts.thy ===== *)
theory Journal_Contracts
  imports Json_Read Resource_Kernel
begin

text \<open>
  The contracts of the durable journal, \<^verbatim>\<open>lakatos/io/_resource_journal_contracts.py\<close>: its
  errors, the strict reading of a canonical blob, and the checkpoint, the content-addressed
  commitment to one revision that an external anchor stores.

  A blob is a list of bytes. What it holds is JSON, so a field may have any JSON type; reading a
  field at the type the dataclass demands (\<open>want_str\<close> and its like) is the \<^verbatim>\<open>isinstance\<close>
  test of its constructor.
\<close>

section \<open>Errors\<close>

text \<open>\<open>JournalKernel\<close> carries what the kernel raises and every plain \<^verbatim>\<open>ValueError\<close>;
  \<open>IntegrityError\<close> is \<^verbatim>\<open>sqlite3\<close>'s; \<open>CallbackError\<close> is what a caller's callback raises.\<close>

datatype journal_error =
    JournalKernel lk_error
  | JournalNotInitialized string
  | JournalCorruption string
  | BudgetIdentityConflict string
  | RevisionConflict int int
  | TrustedAnchorUnavailable string
  | AnchorConflict string
  | DatabaseRollbackDetected string
  | HistoryReplacementDetected string
  | UnanchoredHistoryGap string
  | TrustedAnchorCorruption string
  | IntegrityError string
  | CallbackError string

abbreviation journal_value_error :: "string \<Rightarrow> journal_error" where
  "journal_value_error m \<equiv> JournalKernel (ValueError m)"

definition lift_kernel :: "lk_error + 'a \<Rightarrow> journal_error + 'a" where
  "lift_kernel r = (case r of Inl e \<Rightarrow> Inl (JournalKernel e) | Inr a \<Rightarrow> Inr a)"

text \<open>\<^verbatim>\<open>except (TypeError, ValueError) as exc: raise JournalCorruption(\<dots>) from exc\<close>. A
  rejection of the kernel is a \<^verbatim>\<open>RuntimeError\<close> and passes.\<close>

definition value_error_as_corruption :: "string \<Rightarrow> journal_error + 'a \<Rightarrow> journal_error + 'a" where
  "value_error_as_corruption m r =
     (case r of
        Inl (JournalKernel (ValueError e)) \<Rightarrow> Inl (JournalCorruption m)
      | Inl (JournalKernel (TypeError e)) \<Rightarrow> Inl (JournalCorruption m)
      | other \<Rightarrow> other)"

section \<open>Primitives\<close>

definition JOURNAL_SCHEMA_VERSION :: string where
  "JOURNAL_SCHEMA_VERSION = ''lakatotree.resource-journal/v1''"

definition CODEC_VERSION :: string where
  "CODEC_VERSION = ''lakatotree.resource-journal-codec/v1''"

definition ANCHOR_SCHEMA_VERSION :: string where
  "ANCHOR_SCHEMA_VERSION = ''lakatotree.resource-anchor/v1''"

definition JOURNAL_DOMAIN :: string where
  "JOURNAL_DOMAIN = ''lakatotree-resource-journal'' @ [CHR 0x00] @ ''v1'' @ [CHR 0x0A]"

definition ANCHOR_DOMAIN :: string where
  "ANCHOR_DOMAIN = ''lakatotree-resource-anchor'' @ [CHR 0x00] @ ''v1'' @ [CHR 0x0A]"

definition require_journal_sha256 :: "string \<Rightarrow> string \<Rightarrow> journal_error + unit" where
  "require_journal_sha256 v label =
     raise_if (length v \<noteq> 64 \<or> v \<noteq> str_lower v \<or> list_ex (\<lambda>c. c \<notin> set hexdigits) v)
       (journal_value_error (label @ '' must be a lowercase hexadecimal SHA-256''))"

definition require_optional_sha256 :: "string option \<Rightarrow> string \<Rightarrow> journal_error + unit" where
  "require_optional_sha256 v label = (case v of None \<Rightarrow> Inr () | Some s \<Rightarrow> require_journal_sha256 s label)"

definition require_journal_identifier :: "string \<Rightarrow> string \<Rightarrow> journal_error + unit" where
  "require_journal_identifier v label =
     raise_if (v = [] \<or> 256 < length v \<or> \<not> str_isprintable v)
       (journal_value_error (label @ '' must be a printable non-empty string <= 256 chars''))"

type_synonym json_dict = "(string \<times> json) list"

definition expect_mapping :: "json \<Rightarrow> string \<Rightarrow> journal_error + json_dict" where
  "expect_mapping v label =
     (case v of JObj kvs \<Rightarrow> Inr kvs | _ \<Rightarrow> Inl (journal_value_error (label @ '' must be an object'')))"

definition expect_keys :: "json_dict \<Rightarrow> string set \<Rightarrow> string \<Rightarrow> journal_error + unit" where
  "expect_keys v expected label =
     raise_if (fst ` set v \<noteq> expected) (journal_value_error (label @ '' fields diverged''))"

definition decode_canonical_blob :: "byte list \<Rightarrow> string \<Rightarrow> journal_error + json_dict" where
  "decode_canonical_blob raw label =
     (case (case utf8_decode raw of None \<Rightarrow> None | Some text \<Rightarrow> json_loads text) of
        None \<Rightarrow> Inl (JournalCorruption (label @ '' is not canonical UTF-8 JSON''))
      | Some decoded \<Rightarrow>
          ebind (expect_mapping decoded label) (\<lambda>mapping.
          ebind (raise_if (json_bytes (JObj mapping) \<noteq> raw)
            (JournalCorruption (label @ '' bytes are not canonical''))) (\<lambda>_.
          Inr mapping)))"

text \<open>A field, at the type its dataclass wants.\<close>

definition member :: "json_dict \<Rightarrow> string \<Rightarrow> json" where
  "member kvs k = (case map_of kvs k of Some v \<Rightarrow> v | None \<Rightarrow> JNull)"

definition want_str :: "json_dict \<Rightarrow> string \<Rightarrow> journal_error + string" where
  "want_str kvs k =
     (case member kvs k of JStr s \<Rightarrow> Inr s | _ \<Rightarrow> Inl (journal_value_error (k @ '' must be a string'')))"

definition want_opt_str :: "json_dict \<Rightarrow> string \<Rightarrow> journal_error + string option" where
  "want_opt_str kvs k =
     (case member kvs k of
        JNull \<Rightarrow> Inr None | JStr s \<Rightarrow> Inr (Some s) | _ \<Rightarrow> Inl (journal_value_error (k @ '' must be a string'')))"

definition want_int :: "json_dict \<Rightarrow> string \<Rightarrow> journal_error + int" where
  "want_int kvs k =
     (case member kvs k of JInt i \<Rightarrow> Inr i | _ \<Rightarrow> Inl (journal_value_error (k @ '' must be an integer'')))"

definition want_bool :: "json_dict \<Rightarrow> string \<Rightarrow> journal_error + bool" where
  "want_bool kvs k =
     (case member kvs k of JBool b \<Rightarrow> Inr b | _ \<Rightarrow> Inl (journal_value_error (k @ '' must be boolean'')))"

section \<open>Checkpoints\<close>

datatype anchor_status = PENDING | CONFIRMED

fun anchor_status_value :: "anchor_status \<Rightarrow> string" where
  "anchor_status_value PENDING = ''PENDING''"
| "anchor_status_value CONFIRMED = ''CONFIRMED''"

record checkpoint =
  cp_schema_version :: string
  cp_codec_version :: string
  cp_kernel_schema_version :: string
  cp_engine_rule_sha256 :: string
  cp_budget_id :: string
  cp_scope :: string
  cp_epoch :: int
  cp_revision :: int
  cp_state_sha256 :: string
  cp_journal_head_sha256 :: string
  cp_previous_journal_head_sha256 :: "string option"
  cp_command_id :: "string option"
  cp_command_sha256 :: "string option"
  cp_transition_sha256 :: "string option"
  cp_receipt_sha256 :: "string option"

definition post_init_checkpoint :: "checkpoint \<Rightarrow> journal_error + unit" where
  "post_init_checkpoint c = run_checks
     [raise_if (cp_schema_version c \<noteq> ANCHOR_SCHEMA_VERSION)
        (journal_value_error ''unsupported resource checkpoint schema''),
      raise_if (cp_codec_version c \<noteq> CODEC_VERSION)
        (journal_value_error ''unsupported resource checkpoint codec''),
      raise_if (cp_kernel_schema_version c \<noteq> SCHEMA_VERSION)
        (journal_value_error ''resource checkpoint kernel schema mismatch''),
      raise_if (cp_engine_rule_sha256 c \<noteq> ENGINE_RULE_SHA256)
        (journal_value_error ''resource checkpoint engine rule mismatch''),
      require_journal_identifier (cp_budget_id c) ''checkpoint.budget_id'',
      require_journal_identifier (cp_scope c) ''checkpoint.scope'',
      raise_if (cp_epoch c < 1) (journal_value_error ''checkpoint.epoch must be an integer >= 1''),
      raise_if (cp_revision c < 0) (journal_value_error ''checkpoint.revision must be an integer >= 0''),
      require_journal_sha256 (cp_state_sha256 c) ''checkpoint.state_sha256'',
      require_journal_sha256 (cp_journal_head_sha256 c) ''checkpoint.journal_head_sha256'',
      require_optional_sha256 (cp_previous_journal_head_sha256 c) ''checkpoint.previous_journal_head_sha256'',
      require_optional_sha256 (cp_command_sha256 c) ''checkpoint.command_sha256'',
      require_optional_sha256 (cp_transition_sha256 c) ''checkpoint.transition_sha256'',
      require_optional_sha256 (cp_receipt_sha256 c) ''checkpoint.receipt_sha256'',
      (if cp_revision c = 0 then
         raise_if (list_ex (\<lambda>v. v \<noteq> None)
           [cp_previous_journal_head_sha256 c, cp_command_id c, cp_command_sha256 c,
            cp_transition_sha256 c, cp_receipt_sha256 c])
           (journal_value_error ''genesis checkpoint cannot bind a command or predecessor'')
       else run_checks
         [raise_if (cp_previous_journal_head_sha256 c = None)
            (journal_value_error ''non-genesis checkpoint requires its predecessor head''),
          (case cp_command_id c of
             None \<Rightarrow> Inl (journal_value_error ''non-genesis checkpoint requires command_id'')
           | Some i \<Rightarrow> require_journal_identifier i ''checkpoint.command_id''),
          raise_if (list_ex (\<lambda>v. v = None) [cp_command_sha256 c, cp_transition_sha256 c, cp_receipt_sha256 c])
            (journal_value_error ''non-genesis checkpoint requires command/transition hashes'')])]"

definition mk_checkpoint :: "checkpoint \<Rightarrow> journal_error + checkpoint" where
  "mk_checkpoint c = ebind (post_init_checkpoint c) (\<lambda>_. Inr c)"

definition checkpoint_items :: "checkpoint \<Rightarrow> json_dict" where
  "checkpoint_items c =
     [(''schema_version'', JStr (cp_schema_version c)),
      (''codec_version'', JStr (cp_codec_version c)),
      (''kernel_schema_version'', JStr (cp_kernel_schema_version c)),
      (''engine_rule_sha256'', JStr (cp_engine_rule_sha256 c)),
      (''budget_id'', JStr (cp_budget_id c)),
      (''scope'', JStr (cp_scope c)),
      (''epoch'', JInt (cp_epoch c)),
      (''revision'', JInt (cp_revision c)),
      (''state_sha256'', JStr (cp_state_sha256 c)),
      (''journal_head_sha256'', JStr (cp_journal_head_sha256 c)),
      (''previous_journal_head_sha256'', json_opt JStr (cp_previous_journal_head_sha256 c)),
      (''command_id'', json_opt JStr (cp_command_id c)),
      (''command_sha256'', json_opt JStr (cp_command_sha256 c)),
      (''transition_sha256'', json_opt JStr (cp_transition_sha256 c)),
      (''receipt_sha256'', json_opt JStr (cp_receipt_sha256 c))]"

definition checkpoint_to_dict :: "checkpoint \<Rightarrow> json" where
  "checkpoint_to_dict c = JObj (checkpoint_items c)"

definition checkpoint_sha256 :: "checkpoint \<Rightarrow> string" where
  "checkpoint_sha256 c = sha256_hex (json_bytes (checkpoint_to_dict c))"

definition CHECKPOINT_FIELDS :: "string set" where
  "CHECKPOINT_FIELDS = set [''schema_version'', ''codec_version'', ''kernel_schema_version'',
     ''engine_rule_sha256'', ''budget_id'', ''scope'', ''epoch'', ''revision'', ''state_sha256'',
     ''journal_head_sha256'', ''previous_journal_head_sha256'', ''command_id'', ''command_sha256'',
     ''transition_sha256'', ''receipt_sha256'']"

definition checkpoint_from_dict :: "json_dict \<Rightarrow> journal_error + checkpoint" where
  "checkpoint_from_dict v =
     ebind (expect_keys v CHECKPOINT_FIELDS ''resource checkpoint'') (\<lambda>_.
     ebind (want_str v ''schema_version'') (\<lambda>schema.
     ebind (want_str v ''codec_version'') (\<lambda>codec.
     ebind (want_str v ''kernel_schema_version'') (\<lambda>kernel.
     ebind (want_str v ''engine_rule_sha256'') (\<lambda>rule.
     ebind (want_str v ''budget_id'') (\<lambda>budget_id.
     ebind (want_str v ''scope'') (\<lambda>scope.
     ebind (want_int v ''epoch'') (\<lambda>epoch.
     ebind (want_int v ''revision'') (\<lambda>revision.
     ebind (want_str v ''state_sha256'') (\<lambda>state_sha.
     ebind (want_str v ''journal_head_sha256'') (\<lambda>head.
     ebind (want_opt_str v ''previous_journal_head_sha256'') (\<lambda>previous.
     ebind (want_opt_str v ''command_id'') (\<lambda>command_id.
     ebind (want_opt_str v ''command_sha256'') (\<lambda>command_sha.
     ebind (want_opt_str v ''transition_sha256'') (\<lambda>transition_sha.
     ebind (want_opt_str v ''receipt_sha256'') (\<lambda>receipt_sha.
     mk_checkpoint
       \<lparr> cp_schema_version = schema, cp_codec_version = codec, cp_kernel_schema_version = kernel,
         cp_engine_rule_sha256 = rule, cp_budget_id = budget_id, cp_scope = scope, cp_epoch = epoch,
         cp_revision = revision, cp_state_sha256 = state_sha, cp_journal_head_sha256 = head,
         cp_previous_journal_head_sha256 = previous, cp_command_id = command_id,
         cp_command_sha256 = command_sha, cp_transition_sha256 = transition_sha,
         cp_receipt_sha256 = receipt_sha \<rparr>))))))))))))))))"

section \<open>What the validators decide\<close>

lemma require_Inr [check_simps]:
  "require_journal_sha256 v l = Inr u \<longleftrightarrow> sha256_ok v"
  "require_journal_identifier v l = Inr u \<longleftrightarrow> identifier_ok v"
  "require_optional_sha256 w l = Inr u \<longleftrightarrow> (\<forall>s. w = Some s \<longrightarrow> sha256_ok s)"
  "expect_keys d ks l = Inr u \<longleftrightarrow> fst ` set d = ks"
  by (auto simp: require_journal_sha256_def sha256_ok_def require_journal_identifier_def identifier_ok_def expect_keys_def
      require_optional_sha256_def raise_if_def list_ex_iff list_all_iff split: option.splits)

lemma lift_kernel_simps [simp]: "lift_kernel (Inr a) = Inr a" "lift_kernel (Inl e) = Inl (JournalKernel e)"
  by (simp_all add: lift_kernel_def)

lemma lift_kernel_Inr [result_simps]: "lift_kernel r = Inr a \<longleftrightarrow> r = Inr a"
  by (cases r) simp_all

lemma value_error_Inr [result_simps]: "value_error_as_corruption m r = Inr a \<longleftrightarrow> r = Inr a"
  by (auto simp: value_error_as_corruption_def split: sum.splits journal_error.splits lk_error.splits)

lemma value_error_simps [simp]: "value_error_as_corruption m (Inr a) = Inr a"
  by (simp add: value_error_as_corruption_def)

definition checkpoint_ok :: "checkpoint \<Rightarrow> bool" where
  "checkpoint_ok c \<longleftrightarrow>
     cp_schema_version c = ANCHOR_SCHEMA_VERSION \<and> cp_codec_version c = CODEC_VERSION \<and>
     cp_kernel_schema_version c = SCHEMA_VERSION \<and> cp_engine_rule_sha256 c = ENGINE_RULE_SHA256 \<and>
     identifier_ok (cp_budget_id c) \<and> identifier_ok (cp_scope c) \<and> 1 \<le> cp_epoch c \<and> 0 \<le> cp_revision c \<and>
     sha256_ok (cp_state_sha256 c) \<and> sha256_ok (cp_journal_head_sha256 c) \<and>
     (if cp_revision c = 0
      then cp_previous_journal_head_sha256 c = None \<and> cp_command_id c = None \<and> cp_command_sha256 c = None \<and>
        cp_transition_sha256 c = None \<and> cp_receipt_sha256 c = None
      else \<exists>p i h t r. cp_previous_journal_head_sha256 c = Some p \<and> sha256_ok p \<and>
        cp_command_id c = Some i \<and> identifier_ok i \<and> cp_command_sha256 c = Some h \<and> sha256_ok h \<and>
        cp_transition_sha256 c = Some t \<and> sha256_ok t \<and> cp_receipt_sha256 c = Some r \<and> sha256_ok r)"

lemma post_init_checkpoint_Inr [check_simps]: "post_init_checkpoint c = Inr u \<longleftrightarrow> checkpoint_ok c"
  unfolding post_init_checkpoint_def checkpoint_ok_def
  by (cases "cp_previous_journal_head_sha256 c"; cases "cp_command_id c"; cases "cp_command_sha256 c";
      cases "cp_transition_sha256 c"; cases "cp_receipt_sha256 c")
    (auto simp: result_simps check_simps not_less)

section \<open>Reading back a dict\<close>

text \<open>A dict that was printed canonically and read has the same keys, and canonical values.\<close>

definition reread :: "json_dict \<Rightarrow> json_dict \<Rightarrow> bool" where
  "reread kvs kvs' \<longleftrightarrow>
     fst ` set kvs' = fst ` set kvs \<and> (\<forall>k. map_of kvs' k = map_option canonical (map_of kvs k))"

lemma reread_keys: "reread kvs kvs' \<Longrightarrow> fst ` set kvs' = fst ` set kvs"
  by (simp add: reread_def)

lemma reread_member:
  "reread kvs kvs' \<Longrightarrow> member kvs' k = (case map_of kvs k of Some v \<Rightarrow> canonical v | None \<Rightarrow> JNull)"
  by (auto simp: reread_def member_def split: option.splits)

lemma canonical_reread:
  assumes "distinct (map fst kvs)"
  obtains kvs' where "canonical (JObj kvs) = JObj kvs'" and "reread kvs kvs'"
proof
  let ?kvs' = "map (map_prod id canonical) (sort_key fst kvs)"
  show "canonical (JObj kvs) = JObj ?kvs'" by (rule canonical_object)
  have "map_of (map (map_prod id canonical) xs) k = map_option canonical (map_of xs k)" for xs k
    by (induction xs) auto
  from this [of "sort_key fst kvs"] map_of_sort_key [OF assms]
  have "map_of ?kvs' k = map_option canonical (map_of kvs k)" for k by metis
  moreover have "fst ` set ?kvs' = fst ` set kvs" by (simp add: image_image)
  ultimately show "reread kvs ?kvs'" unfolding reread_def by blast
qed

lemma canonical_canonical [simp]: "canonical (canonical j) = canonical j"
proof (induction j)
  case (JArr xs)
  then show ?case by simp
next
  case (JObj kvs)
  let ?s = "sort_key fst kvs"
  have "canonical (canonical v) = canonical v" if "(k, v) \<in> set ?s" for k v
    using JObj that by force
  then have "map (map_prod id canonical \<circ> map_prod id canonical) ?s = map (map_prod id canonical) ?s"
    by (auto simp: list.map_comp)
  moreover have "sort_key fst (map (map_prod id canonical) ?s) = map (map_prod id canonical) ?s"
    unfolding sort_key_map_prod by (simp add: sort_key_id_if_sorted)
  ultimately show ?case by (simp only: canonical_object map_map)
qed simp_all

lemma json_bytes_canonical: "json_bytes (canonical j) = json_bytes j"
  by (simp add: json_bytes_inject)

lemma decode_canonical_blob_bytes:
  assumes "dict_keys_ok (JObj kvs)" and "canonical (JObj kvs) = JObj kvs'"
  shows "decode_canonical_blob (json_bytes (JObj kvs)) label = Inr kvs'"
proof -
  have "utf8_decode (json_bytes (JObj kvs)) = Some (json_dumps (JObj kvs))"
    unfolding json_bytes_def by (rule utf8_decode_encode)
  moreover have "json_loads (json_dumps (JObj kvs)) = Some (JObj kvs')"
    using json_loads_dumps [OF assms(1)] unfolding assms(2) .
  moreover have "json_bytes (JObj kvs') = json_bytes (JObj kvs)"
    using json_bytes_canonical [of "JObj kvs"] unfolding assms(2) .
  ultimately show ?thesis unfolding decode_canonical_blob_def expect_mapping_def by simp
qed

lemma decode_canonical_blob_Inr:
  "decode_canonical_blob raw label = Inr kvs \<Longrightarrow> json_bytes (JObj kvs) = raw"
  by (auto simp: decode_canonical_blob_def expect_mapping_def result_simps check_simps
      split: option.splits json.splits)

lemmas want_defs = want_str_def want_opt_str_def want_int_def want_bool_def

lemma json_opt_cases [simp]:
  "(case json_opt JStr x of JNull \<Rightarrow> Inr None | JStr s \<Rightarrow> Inr (Some s) | _ \<Rightarrow> Inl e) = Inr x"
  "canonical (json_opt JStr x) = json_opt JStr x" "dict_keys_ok (json_opt JStr x)"
  by (cases x; simp add: json_opt_def)+

lemma mk_checkpoint_ok: "checkpoint_ok c \<Longrightarrow> mk_checkpoint c = Inr c"
  using post_init_checkpoint_Inr [of c "()"] by (simp add: mk_checkpoint_def)

lemma checkpoint_from_dict_Inr:
  assumes "reread (checkpoint_items c) kvs" and "checkpoint_ok c"
  shows "checkpoint_from_dict kvs = Inr c"
proof -
  have "fst ` set kvs = CHECKPOINT_FIELDS"
    unfolding reread_keys [OF assms(1)] by (simp add: checkpoint_items_def CHECKPOINT_FIELDS_def)
  then show ?thesis
    using assms(2)
    by (cases c) (simp add: checkpoint_from_dict_def want_defs reread_member [OF assms(1)] checkpoint_items_def
        expect_keys_def mk_checkpoint_ok)
qed

lemma checkpoint_from_dict_ok:
  "checkpoint_from_dict kvs = Inr c \<Longrightarrow> checkpoint_ok c"
  by (auto simp: checkpoint_from_dict_def mk_checkpoint_def result_simps check_simps)

lemma checkpoint_keys_ok: "dict_keys_ok (checkpoint_to_dict c)"
  by (simp add: checkpoint_to_dict_def checkpoint_items_def)

end
