(* ===== verification/Journal_Codec.thy ===== *)
theory Journal_Codec
  imports Journal_Contracts
begin

text \<open>
  The codec of the durable journal, \<^verbatim>\<open>lakatos/io/_resource_journal_codec.py\<close>: budgets and
  transitions to canonical bytes and back, the head of the journal's hash chain and the checkpoint
  that commits to it. Every constructor a reader calls validates again (\<open>mk_\<dots>\<close>).
\<close>

section \<open>Budgets\<close>

definition budget_blob :: "resource_budget \<Rightarrow> byte list" where
  "budget_blob b =
     json_bytes (JObj [(''codec_version'', JStr CODEC_VERSION), (''budget'', budget_to_dict b)])"

text \<open>\<^verbatim>\<open>ResourceVector.from_dict\<close> on JSON values.\<close>

definition vector_axis :: "json_dict \<Rightarrow> string \<Rightarrow> journal_error + int" where
  "vector_axis v k = (if k \<in> fst ` set v then want_int v k else Inr 0)"

definition vector_from_json :: "json \<Rightarrow> string \<Rightarrow> journal_error + resource_vector" where
  "vector_from_json j label =
     ebind (expect_mapping j label) (\<lambda>v.
     ebind (raise_if (\<not> fst ` set v \<subseteq> set DIMENSIONS) (journal_value_error ''unknown resource dimensions'')) (\<lambda>_.
     ebind (vector_axis v ''compute.wall_ms'') (\<lambda>c.
     ebind (vector_axis v ''llm.input_tokens'') (\<lambda>i.
     ebind (vector_axis v ''llm.output_tokens'') (\<lambda>out.
     lift_kernel (mk_resource_vector c i out))))))"

definition budget_from_blob :: "byte list \<Rightarrow> journal_error + resource_budget" where
  "budget_from_blob blob =
     ebind (decode_canonical_blob blob ''resource budget'') (\<lambda>envelope.
     ebind (expect_keys envelope {''codec_version'', ''budget''} ''resource budget envelope'') (\<lambda>_.
     ebind (raise_if (member envelope ''codec_version'' \<noteq> JStr CODEC_VERSION)
       (JournalCorruption ''resource budget codec is unsupported'')) (\<lambda>_.
     ebind (expect_mapping (member envelope ''budget'') ''resource budget payload'') (\<lambda>v.
     ebind (expect_keys v {''schema_version'', ''budget_id'', ''scope'', ''epoch'', ''hard_caps''}
       ''resource budget payload'') (\<lambda>_.
     ebind (vector_from_json (member v ''hard_caps'') ''budget hard caps'') (\<lambda>caps.
     ebind (want_str v ''schema_version'') (\<lambda>schema.
     ebind (want_str v ''budget_id'') (\<lambda>budget_id.
     ebind (want_str v ''scope'') (\<lambda>scope.
     ebind (want_int v ''epoch'') (\<lambda>epoch.
     lift_kernel (mk_budget \<lparr>b_budget_id = budget_id, b_scope = scope, b_epoch = epoch,
       b_hard_caps = caps, b_schema_version = schema\<rparr>)))))))))))"

section \<open>Commands\<close>

definition estimate_from_dict :: "json_dict \<Rightarrow> journal_error + resource_estimate" where
  "estimate_from_dict v =
     ebind (expect_keys v {''schema_version'', ''work_id'', ''attempt_id'', ''workload_sha256'', ''adapter'',
       ''adapter_version'', ''upper_bound'', ''valid_until'', ''expected''} ''resource estimate'') (\<lambda>_.
     ebind (vector_from_json (member v ''upper_bound'') ''estimate upper bound'') (\<lambda>upper.
     ebind (if member v ''expected'' = JNull then Inr None
            else ebind (vector_from_json (member v ''expected'') ''estimate expected'') (\<lambda>x. Inr (Some x))) (\<lambda>expected.
     ebind (want_str v ''schema_version'') (\<lambda>schema.
     ebind (want_str v ''work_id'') (\<lambda>work_id.
     ebind (want_str v ''attempt_id'') (\<lambda>attempt_id.
     ebind (want_str v ''workload_sha256'') (\<lambda>workload.
     ebind (want_str v ''adapter'') (\<lambda>adapter.
     ebind (want_str v ''adapter_version'') (\<lambda>adapter_version.
     ebind (want_str v ''valid_until'') (\<lambda>valid_until.
     lift_kernel (mk_estimate \<lparr>e_work_id = work_id, e_attempt_id = attempt_id, e_workload_sha256 = workload,
       e_adapter = adapter, e_adapter_version = adapter_version, e_upper_bound = upper,
       e_valid_until = valid_until, e_expected = expected, e_schema_version = schema\<rparr>)))))))))))"

definition usage_from_dict :: "json_dict \<Rightarrow> journal_error + resource_usage" where
  "usage_from_dict v =
     ebind (expect_keys v {''schema_version'', ''actual'', ''measured_at'', ''measurement_sha256'',
       ''evidence_sha256''} ''resource usage'') (\<lambda>_.
     ebind (vector_from_json (member v ''actual'') ''usage actual'') (\<lambda>actual.
     ebind (want_str v ''schema_version'') (\<lambda>schema.
     ebind (want_str v ''measured_at'') (\<lambda>measured_at.
     ebind (want_str v ''measurement_sha256'') (\<lambda>measurement.
     ebind (want_str v ''evidence_sha256'') (\<lambda>evidence.
     lift_kernel (mk_usage \<lparr>u_actual = actual, u_measured_at = measured_at, u_measurement_sha256 = measurement,
       u_evidence_sha256 = evidence, u_schema_version = schema\<rparr>)))))))"

definition BASE_FIELDS :: "string set" where
  "BASE_FIELDS = {''type'', ''command_id'', ''grant_id'', ''fence_token'', ''observed_at''}"

definition GRANT_BASE_FIELDS :: "string set" where
  "GRANT_BASE_FIELDS = BASE_FIELDS \<union> {''workload_sha256''}"

definition grant_base_from :: "json_dict \<Rightarrow> journal_error + grant_command" where
  "grant_base_from v =
     ebind (want_str v ''command_id'') (\<lambda>command_id.
     ebind (want_str v ''grant_id'') (\<lambda>grant_id.
     ebind (want_int v ''fence_token'') (\<lambda>fence_token.
     ebind (want_str v ''workload_sha256'') (\<lambda>workload.
     ebind (want_str v ''observed_at'') (\<lambda>observed_at.
     Inr \<lparr>gc_command_id = command_id, gc_grant_id = grant_id, gc_fence_token = fence_token,
          gc_workload_sha256 = workload, gc_observed_at = observed_at\<rparr>)))))"

definition command_from_dict :: "json_dict \<Rightarrow> journal_error + resource_command" where
  "command_from_dict v =
     (let operation = member v ''type'' in
      if operation = JStr ''request_grant'' then
        ebind (expect_keys v (BASE_FIELDS \<union> {''expires_at'', ''estimate''}) ''request_grant command'') (\<lambda>_.
        ebind (expect_mapping (member v ''estimate'') ''request estimate'') (\<lambda>e.
        ebind (estimate_from_dict e) (\<lambda>estimate.
        ebind (want_str v ''command_id'') (\<lambda>command_id.
        ebind (want_str v ''grant_id'') (\<lambda>grant_id.
        ebind (want_int v ''fence_token'') (\<lambda>fence_token.
        ebind (want_str v ''observed_at'') (\<lambda>observed_at.
        ebind (want_str v ''expires_at'') (\<lambda>expires_at.
        lift_kernel (mk_command (RequestGrant \<lparr>rq_command_id = command_id, rq_grant_id = grant_id,
          rq_fence_token = fence_token, rq_observed_at = observed_at, rq_expires_at = expires_at,
          rq_estimate = estimate\<rparr>))))))))))
      else if operation = JStr ''start_grant'' then
        ebind (expect_keys v GRANT_BASE_FIELDS ''start_grant command'') (\<lambda>_.
        ebind (grant_base_from v) (\<lambda>c. lift_kernel (mk_command (StartGrant c))))
      else if operation = JStr ''deadline_observed'' then
        ebind (expect_keys v GRANT_BASE_FIELDS ''deadline_observed command'') (\<lambda>_.
        ebind (grant_base_from v) (\<lambda>c. lift_kernel (mk_command (DeadlineObserved c))))
      else if operation = JStr ''cancel_grant'' then
        ebind (expect_keys v (GRANT_BASE_FIELDS \<union> {''reason''}) ''cancel_grant command'') (\<lambda>_.
        ebind (grant_base_from v) (\<lambda>c.
        ebind (want_str v ''reason'') (\<lambda>reason. lift_kernel (mk_command (CancelGrant c reason)))))
      else if operation = JStr ''usage_unknown'' then
        ebind (expect_keys v (GRANT_BASE_FIELDS \<union> {''reason''}) ''usage_unknown command'') (\<lambda>_.
        ebind (grant_base_from v) (\<lambda>c.
        ebind (want_str v ''reason'') (\<lambda>reason. lift_kernel (mk_command (UsageUnknown c reason)))))
      else if operation = JStr ''settle_grant'' then
        ebind (expect_keys v (GRANT_BASE_FIELDS \<union> {''usage''}) ''settle_grant command'') (\<lambda>_.
        ebind (expect_mapping (member v ''usage'') ''settlement usage'') (\<lambda>u.
        ebind (usage_from_dict u) (\<lambda>usage.
        ebind (grant_base_from v) (\<lambda>c. lift_kernel (mk_command (SettleGrant c usage))))))
      else Inl (journal_value_error ''unsupported durable resource command type''))"

section \<open>Grants and receipts\<close>

definition grant_status_of :: "json \<Rightarrow> journal_error + grant_status" where
  "grant_status_of j =
     (case find (\<lambda>st. JStr (grant_status_value st) = j)
        [RESERVED, IN_USE, SETTLED, CANCELLED_UNUSED, EXPIRED_UNUSED, CANCEL_PENDING, CANCELLED_SETTLED,
         RECONCILIATION_REQUIRED, QUARANTINED_OVERRUN] of
        Some st \<Rightarrow> Inr st
      | None \<Rightarrow> Inl (journal_value_error ''not a valid GrantStatus''))"

definition GRANT_FIELDS :: "string set" where
  "GRANT_FIELDS = set [''schema_version'', ''grant_id'', ''estimate_sha256'', ''workload_sha256'', ''reserved'',
     ''reserved_at'', ''expires_at'', ''fence_token'', ''status'', ''last_observed_at'', ''started_at'', ''actual'',
     ''measured_at'', ''measurement_sha256'', ''evidence_sha256'', ''cancel_requested'']"

definition grant_from_dict :: "json_dict \<Rightarrow> journal_error + resource_grant" where
  "grant_from_dict v =
     ebind (expect_keys v GRANT_FIELDS ''resource grant'') (\<lambda>_.
     ebind (vector_from_json (member v ''reserved'') ''grant reserved'') (\<lambda>reserved.
     ebind (grant_status_of (member v ''status'')) (\<lambda>status.
     ebind (vector_from_json (member v ''actual'') ''grant actual'') (\<lambda>actual.
     ebind (want_str v ''schema_version'') (\<lambda>schema.
     ebind (want_str v ''grant_id'') (\<lambda>grant_id.
     ebind (want_str v ''estimate_sha256'') (\<lambda>estimate.
     ebind (want_str v ''workload_sha256'') (\<lambda>workload.
     ebind (want_str v ''reserved_at'') (\<lambda>reserved_at.
     ebind (want_str v ''expires_at'') (\<lambda>expires_at.
     ebind (want_int v ''fence_token'') (\<lambda>fence_token.
     ebind (want_str v ''last_observed_at'') (\<lambda>last_observed_at.
     ebind (want_opt_str v ''started_at'') (\<lambda>started_at.
     ebind (want_opt_str v ''measured_at'') (\<lambda>measured_at.
     ebind (want_opt_str v ''measurement_sha256'') (\<lambda>measurement.
     ebind (want_opt_str v ''evidence_sha256'') (\<lambda>evidence.
     ebind (want_bool v ''cancel_requested'') (\<lambda>cancel_requested.
     lift_kernel (mk_grant \<lparr>g_grant_id = grant_id, g_estimate_sha256 = estimate, g_workload_sha256 = workload,
       g_reserved = reserved, g_reserved_at = reserved_at, g_expires_at = expires_at,
       g_fence_token = fence_token, g_status = status, g_last_observed_at = last_observed_at,
       g_started_at = started_at, g_actual = actual, g_measured_at = measured_at,
       g_measurement_sha256 = measurement, g_evidence_sha256 = evidence,
       g_cancel_requested = cancel_requested, g_schema_version = schema\<rparr>))))))))))))))))))"

definition RECEIPT_FIELDS :: "string set" where
  "RECEIPT_FIELDS = set [''schema_version'', ''budget_id'', ''scope'', ''epoch'', ''operation'', ''outcome'',
     ''command_id'', ''command_sha256'', ''before_state_sha256'', ''after_state_sha256'',
     ''transition_payload_sha256'', ''before_revision'', ''after_revision'', ''grant_id'', ''reserved'', ''actual'',
     ''released'', ''failure_code'', ''failure_detail'', ''failure_dimensions'', ''evidence_sha256'',
     ''engine_rule_sha256'']"

definition dimensions_of :: "json \<Rightarrow> journal_error + string list" where
  "dimensions_of j =
     (case j of
        JArr xs \<Rightarrow> map_result (\<lambda>x. case x of JStr s \<Rightarrow> Inr s
          | _ \<Rightarrow> Inl (journal_value_error ''failure_dimensions contains an unknown resource axis'')) xs
      | _ \<Rightarrow> Inl (journal_value_error ''receipt failure_dimensions must be a list on disk''))"

definition receipt_from_dict :: "json_dict \<Rightarrow> journal_error + resource_receipt" where
  "receipt_from_dict v =
     ebind (expect_keys v RECEIPT_FIELDS ''resource receipt'') (\<lambda>_.
     ebind (dimensions_of (member v ''failure_dimensions'')) (\<lambda>dimensions.
     ebind (vector_from_json (member v ''reserved'') ''receipt reserved'') (\<lambda>reserved.
     ebind (vector_from_json (member v ''actual'') ''receipt actual'') (\<lambda>actual.
     ebind (vector_from_json (member v ''released'') ''receipt released'') (\<lambda>released.
     ebind (want_str v ''schema_version'') (\<lambda>schema.
     ebind (want_str v ''budget_id'') (\<lambda>budget_id.
     ebind (want_str v ''scope'') (\<lambda>scope.
     ebind (want_int v ''epoch'') (\<lambda>epoch.
     ebind (want_str v ''operation'') (\<lambda>operation.
     ebind (want_str v ''outcome'') (\<lambda>outcome.
     ebind (want_str v ''command_id'') (\<lambda>command_id.
     ebind (want_str v ''command_sha256'') (\<lambda>command_sha.
     ebind (want_str v ''before_state_sha256'') (\<lambda>before_state.
     ebind (want_str v ''after_state_sha256'') (\<lambda>after_state.
     ebind (want_str v ''transition_payload_sha256'') (\<lambda>payload.
     ebind (want_int v ''before_revision'') (\<lambda>before_revision.
     ebind (want_int v ''after_revision'') (\<lambda>after_revision.
     ebind (want_str v ''grant_id'') (\<lambda>grant_id.
     ebind (want_opt_str v ''failure_code'') (\<lambda>failure_code.
     ebind (want_opt_str v ''failure_detail'') (\<lambda>failure_detail.
     ebind (want_opt_str v ''evidence_sha256'') (\<lambda>evidence.
     ebind (want_str v ''engine_rule_sha256'') (\<lambda>rule.
     lift_kernel (mk_receipt \<lparr>r_schema_version = schema, r_budget_id = budget_id, r_scope = scope,
       r_epoch = epoch, r_operation = operation, r_outcome = outcome, r_command_id = command_id,
       r_command_sha256 = command_sha, r_before_state_sha256 = before_state,
       r_after_state_sha256 = after_state, r_transition_payload_sha256 = payload,
       r_before_revision = before_revision, r_after_revision = after_revision, r_grant_id = grant_id,
       r_reserved = reserved, r_actual = actual, r_released = released, r_failure_code = failure_code,
       r_failure_detail = failure_detail, r_failure_dimensions = dimensions, r_evidence_sha256 = evidence,
       r_engine_rule_sha256 = rule\<rparr>))))))))))))))))))))))))"

section \<open>Transitions\<close>

definition transition_items :: "resource_transition \<Rightarrow> json_dict" where
  "transition_items t =
     [(''command'', command_to_dict (t_command t)),
      (''command_sha256'', JStr (t_command_sha256 t)),
      (''transition_payload_sha256'', JStr (t_transition_payload_sha256 t)),
      (''receipt_sha256'', JStr (t_receipt_sha256 t)),
      (''transition_sha256'', JStr (t_transition_sha256 t)),
      (''grant'', json_opt grant_to_dict (t_grant t)),
      (''spent_delta'', vector_to_dict (t_spent_delta t)),
      (''freeze_budget'', JBool (t_freeze_budget t)),
      (''receipt'', receipt_to_dict (t_receipt t))]"

definition transition_blob :: "resource_transition \<Rightarrow> byte list" where
  "transition_blob t =
     json_bytes (JObj [(''codec_version'', JStr CODEC_VERSION), (''transition'', JObj (transition_items t))])"

definition TRANSITION_FIELDS :: "string set" where
  "TRANSITION_FIELDS = set [''command'', ''command_sha256'', ''transition_payload_sha256'', ''receipt_sha256'',
     ''transition_sha256'', ''grant'', ''spent_delta'', ''freeze_budget'', ''receipt'']"

definition transition_from_blob :: "byte list \<Rightarrow> journal_error + resource_transition" where
  "transition_from_blob blob =
     ebind (decode_canonical_blob blob ''resource transition'') (\<lambda>envelope.
     ebind (expect_keys envelope {''codec_version'', ''transition''} ''transition envelope'') (\<lambda>_.
     ebind (raise_if (member envelope ''codec_version'' \<noteq> JStr CODEC_VERSION)
       (JournalCorruption ''resource transition codec is unsupported'')) (\<lambda>_.
     ebind (expect_mapping (member envelope ''transition'') ''transition payload'') (\<lambda>v.
     ebind (expect_keys v TRANSITION_FIELDS ''transition payload'') (\<lambda>_.
     ebind (expect_mapping (member v ''command'') ''transition command'') (\<lambda>c.
     ebind (command_from_dict c) (\<lambda>command.
     ebind (if member v ''grant'' = JNull then Inr None
            else ebind (expect_mapping (member v ''grant'') ''transition grant'') (\<lambda>g.
                 ebind (grant_from_dict g) (\<lambda>x. Inr (Some x)))) (\<lambda>grant.
     ebind (vector_from_json (member v ''spent_delta'') ''transition spent_delta'') (\<lambda>spent_delta.
     ebind (expect_mapping (member v ''receipt'') ''transition receipt'') (\<lambda>r.
     ebind (receipt_from_dict r) (\<lambda>receipt.
     ebind (want_str v ''command_sha256'') (\<lambda>command_sha.
     ebind (want_str v ''transition_payload_sha256'') (\<lambda>payload.
     ebind (want_str v ''receipt_sha256'') (\<lambda>receipt_sha.
     ebind (want_str v ''transition_sha256'') (\<lambda>transition_sha.
     ebind (want_bool v ''freeze_budget'') (\<lambda>freeze.
     lift_kernel (mk_transition \<lparr>t_command = command, t_command_sha256 = command_sha,
       t_transition_payload_sha256 = payload, t_receipt_sha256 = receipt_sha,
       t_transition_sha256 = transition_sha, t_grant = grant, t_spent_delta = spent_delta,
       t_freeze_budget = freeze, t_receipt = receipt\<rparr>)))))))))))))))))"

section \<open>The hash chain\<close>

definition state_budget :: "resource_state \<Rightarrow> resource_budget" where
  "state_budget s =
     \<lparr>b_budget_id = p_budget_id s, b_scope = p_scope s, b_epoch = p_epoch s,
      b_hard_caps = p_hard_caps s, b_schema_version = p_schema_version s\<rparr>"

definition journal_head_preimage :: "resource_budget \<Rightarrow> int \<Rightarrow> string \<Rightarrow> string option \<Rightarrow> string option \<Rightarrow>
    string option \<Rightarrow> string option \<Rightarrow> string option \<Rightarrow> byte list" where
  "journal_head_preimage budget revision state_sha previous cid command_sha transition_sha receipt_sha =
     utf8_encode JOURNAL_DOMAIN @ json_bytes (JObj
       [(''journal_schema_version'', JStr JOURNAL_SCHEMA_VERSION),
        (''codec_version'', JStr CODEC_VERSION),
        (''kernel_schema_version'', JStr SCHEMA_VERSION),
        (''engine_rule_sha256'', JStr ENGINE_RULE_SHA256),
        (''budget'', budget_to_dict budget),
        (''revision'', JInt revision),
        (''state_sha256'', JStr state_sha),
        (''previous_journal_head_sha256'', json_opt JStr previous),
        (''command_id'', json_opt JStr cid),
        (''command_sha256'', json_opt JStr command_sha),
        (''transition_sha256'', json_opt JStr transition_sha),
        (''receipt_sha256'', json_opt JStr receipt_sha)])"

definition checkpoint_for :: "resource_state \<Rightarrow> string option \<Rightarrow> resource_transition option \<Rightarrow>
    journal_error + checkpoint" where
  "checkpoint_for s previous t =
     (let command_id = map_option (\<lambda>t. command_id (t_command t)) t;
          command_sha = map_option t_command_sha256 t;
          transition_sha = map_option t_transition_sha256 t;
          receipt_sha = map_option t_receipt_sha256 t
      in mk_checkpoint
       \<lparr> cp_schema_version = ANCHOR_SCHEMA_VERSION, cp_codec_version = CODEC_VERSION,
         cp_kernel_schema_version = SCHEMA_VERSION, cp_engine_rule_sha256 = ENGINE_RULE_SHA256,
         cp_budget_id = p_budget_id s, cp_scope = p_scope s, cp_epoch = p_epoch s,
         cp_revision = p_revision s, cp_state_sha256 = state_sha256 s,
         cp_journal_head_sha256 = sha256_hex (journal_head_preimage (state_budget s) (p_revision s)
           (state_sha256 s) previous command_id command_sha transition_sha receipt_sha),
         cp_previous_journal_head_sha256 = previous, cp_command_id = command_id,
         cp_command_sha256 = command_sha, cp_transition_sha256 = transition_sha,
         cp_receipt_sha256 = receipt_sha \<rparr>)"

end
