(* ===== verification/Journal_Store.thy ===== *)
theory Journal_Store
  imports Journal_Codec
begin

text \<open>
  The SQLite repository of \<^verbatim>\<open>lakatos/io/resource_journal.py\<close>. A database is its three tables,
  each a list of rows in insertion order; an insert checks the constraints its table declares. A
  transaction is a function of the database: what it raises rolls it back. A world is the database
  and the state of the external anchor; an operation maps a world to what it returns or raises and to
  the world it leaves, because what was committed or published before an exception stays. The
  anchor and the kernel are arguments, as they are arguments of the constructor. The callbacks are the
  code's own crash points.
\<close>

section \<open>Tables\<close>

record head_row =
  h_scope :: string
  h_budget_id :: string
  h_epoch :: int
  h_budget_blob :: "byte list"
  h_budget_sha256 :: string
  h_revision :: int
  h_state_sha256 :: string
  h_journal_head_sha256 :: string

record journal_row =
  jr_scope :: string
  jr_revision :: int
  jr_command_id :: string
  jr_command_sha256 :: string
  jr_transition_sha256 :: string
  jr_receipt_sha256 :: string
  jr_transition_blob :: "byte list"
  jr_before_state_sha256 :: string
  jr_after_state_sha256 :: string
  jr_previous_journal_head_sha256 :: string
  jr_journal_head_sha256 :: string

record outbox_row =
  ob_scope :: string
  ob_revision :: int
  ob_checkpoint_blob :: "byte list"
  ob_checkpoint_sha256 :: string
  ob_status :: string

record database =
  db_heads :: "head_row list"
  db_journal :: "journal_row list"
  db_outbox :: "outbox_row list"

definition empty_database :: database where
  "empty_database = \<lparr>db_heads = [], db_journal = [], db_outbox = []\<rparr>"

text \<open>The inserts, with the \<^verbatim>\<open>CHECK\<close>, \<^verbatim>\<open>PRIMARY KEY\<close>, \<^verbatim>\<open>UNIQUE\<close> and \<^verbatim>\<open>FOREIGN KEY\<close>
  constraints of the schema.\<close>

definition insert_head :: "head_row \<Rightarrow> database \<Rightarrow> journal_error + database" where
  "insert_head r db = ebind (run_checks
     [raise_if (h_epoch r < 1 \<or> h_revision r < 0) (IntegrityError ''CHECK constraint failed''),
      raise_if (h_scope r \<in> h_scope ` set (db_heads db))
        (IntegrityError ''UNIQUE constraint failed: resource_budget_head.scope'')])
     (\<lambda>_. Inr (db\<lparr>db_heads := db_heads db @ [r]\<rparr>))"

definition insert_journal :: "journal_row \<Rightarrow> database \<Rightarrow> journal_error + database" where
  "insert_journal r db = ebind (run_checks
     [raise_if (jr_revision r < 1) (IntegrityError ''CHECK constraint failed''),
      raise_if ((jr_scope r, jr_revision r) \<in> (\<lambda>x. (jr_scope x, jr_revision x)) ` set (db_journal db))
        (IntegrityError ''UNIQUE constraint failed: resource_journal.scope, resource_journal.revision''),
      raise_if ((jr_scope r, jr_command_id r) \<in> (\<lambda>x. (jr_scope x, jr_command_id x)) ` set (db_journal db))
        (IntegrityError ''UNIQUE constraint failed: resource_journal.scope, resource_journal.command_id''),
      raise_if ((jr_scope r, jr_journal_head_sha256 r) \<in>
          (\<lambda>x. (jr_scope x, jr_journal_head_sha256 x)) ` set (db_journal db))
        (IntegrityError ''UNIQUE constraint failed: resource_journal.scope, resource_journal.journal_head_sha256''),
      raise_if (jr_scope r \<notin> h_scope ` set (db_heads db)) (IntegrityError ''FOREIGN KEY constraint failed'')])
     (\<lambda>_. Inr (db\<lparr>db_journal := db_journal db @ [r]\<rparr>))"

definition insert_outbox :: "outbox_row \<Rightarrow> database \<Rightarrow> journal_error + database" where
  "insert_outbox r db = ebind (run_checks
     [raise_if (ob_revision r < 0 \<or> ob_status r \<notin> {''PENDING'', ''CONFIRMED''})
        (IntegrityError ''CHECK constraint failed''),
      raise_if ((ob_scope r, ob_revision r) \<in> (\<lambda>x. (ob_scope x, ob_revision x)) ` set (db_outbox db))
        (IntegrityError ''UNIQUE constraint failed: resource_anchor_outbox.scope, resource_anchor_outbox.revision''),
      raise_if ((ob_scope r, ob_checkpoint_sha256 r) \<in>
          (\<lambda>x. (ob_scope x, ob_checkpoint_sha256 x)) ` set (db_outbox db))
        (IntegrityError ''UNIQUE constraint failed: resource_anchor_outbox.scope, resource_anchor_outbox.checkpoint_sha256''),
      raise_if (ob_scope r \<notin> h_scope ` set (db_heads db)) (IntegrityError ''FOREIGN KEY constraint failed'')])
     (\<lambda>_. Inr (db\<lparr>db_outbox := db_outbox db @ [r]\<rparr>))"

section \<open>Loading a journal\<close>

definition checkpoint_blob :: "checkpoint \<Rightarrow> byte list" where
  "checkpoint_blob c = json_bytes (checkpoint_to_dict c)"

definition checkpoint_from_blob :: "byte list \<Rightarrow> journal_error + checkpoint" where
  "checkpoint_from_blob blob =
     ebind (decode_canonical_blob blob ''anchor checkpoint'') (\<lambda>v. checkpoint_from_dict v)"

definition anchor_status_of :: "string \<Rightarrow> journal_error + anchor_status" where
  "anchor_status_of s =
     (if s = ''PENDING'' then Inr PENDING else if s = ''CONFIRMED'' then Inr CONFIRMED
      else Inl (journal_value_error ''not a valid AnchorStatus''))"

record loaded_journal =
  ld_state :: resource_state
  ld_states :: "resource_state list"
  ld_checkpoints :: "checkpoint list"
  ld_anchor_statuses :: "anchor_status list"

text \<open>The property \<^verbatim>\<open>checkpoint\<close>: the one at the state's revision.\<close>

definition ld_checkpoint :: "loaded_journal \<Rightarrow> checkpoint" where
  "ld_checkpoint l = ld_checkpoints l ! nat (p_revision (ld_state l))"

text \<open>One iteration of the replay loop: a row checked against the transition it stores, the
  transition replayed, the chain extended.\<close>

definition replay_row :: "functional_kernel \<Rightarrow> resource_state \<times> checkpoint \<Rightarrow> int \<Rightarrow> journal_row \<Rightarrow>
    journal_error + resource_state \<times> checkpoint" where
  "replay_row kern before expected_revision row =
     (let previous_head = cp_journal_head_sha256 (snd before) in
      ebind (raise_if (jr_revision row \<noteq> expected_revision)
        (JournalCorruption ''resource journal revisions are not contiguous'')) (\<lambda>_.
      ebind (value_error_as_corruption
        (''resource transition '' @ show_int expected_revision @ '' failed semantic replay'')
        (ebind (transition_from_blob (jr_transition_blob row)) (\<lambda>t.
         ebind (raise_if
           (command_id (t_command t) \<noteq> jr_command_id row \<or>
            t_command_sha256 t \<noteq> jr_command_sha256 row \<or>
            t_transition_sha256 t \<noteq> jr_transition_sha256 row \<or>
            t_receipt_sha256 t \<noteq> jr_receipt_sha256 row \<or>
            r_before_state_sha256 (t_receipt t) \<noteq> jr_before_state_sha256 row \<or>
            r_after_state_sha256 (t_receipt t) \<noteq> jr_after_state_sha256 row)
           (journal_value_error ''resource journal row bindings diverged'')) (\<lambda>_.
         ebind (lift_kernel (kernel_evolve kern (fst before) t)) (\<lambda>s. Inr (t, s)))))) (\<lambda>(t, s).
      ebind (checkpoint_for s (Some previous_head) (Some t)) (\<lambda>checkpoint.
      ebind (raise_if
        (jr_previous_journal_head_sha256 row \<noteq> previous_head \<or>
         jr_journal_head_sha256 row \<noteq> cp_journal_head_sha256 checkpoint \<or>
         jr_after_state_sha256 row \<noteq> state_sha256 s)
        (JournalCorruption ''resource journal chain head diverged'')) (\<lambda>_.
      Inr (s, checkpoint))))))"

text \<open>The loop, from revision \<open>n\<close>: the states and checkpoints after each row.\<close>

fun replay_rows :: "functional_kernel \<Rightarrow> resource_state \<times> checkpoint \<Rightarrow> int \<Rightarrow> journal_row list \<Rightarrow>
    journal_error + (resource_state \<times> checkpoint) list" where
  "replay_rows kern before n [] = Inr []"
| "replay_rows kern before n (row # rows) =
     ebind (replay_row kern before n row) (\<lambda>after.
     ebind (replay_rows kern after (n + 1) rows) (\<lambda>rest. Inr (after # rest)))"

definition read_outbox_row :: "checkpoint list \<Rightarrow> outbox_row \<Rightarrow> journal_error + anchor_status" where
  "read_outbox_row checkpoints row =
     ebind (value_error_as_corruption ''resource anchor outbox cannot be decoded''
       (ebind (checkpoint_from_blob (ob_checkpoint_blob row)) (\<lambda>c.
        ebind (anchor_status_of (ob_status row)) (\<lambda>st. Inr (c, st))))) (\<lambda>(c, st).
     ebind (raise_if
       (c \<noteq> checkpoints ! nat (ob_revision row) \<or> checkpoint_sha256 c \<noteq> ob_checkpoint_sha256 row)
       (JournalCorruption ''resource anchor intent diverged from journal history'')) (\<lambda>_.
     Inr st))"

text \<open>The three parts of \<^verbatim>\<open>_load_connection\<close>: the budget and its genesis, the replay of the
  journal, the intents of the outbox.\<close>

definition load_genesis :: "head_row \<Rightarrow> string \<Rightarrow> journal_error + resource_state \<times> checkpoint" where
  "load_genesis head scope =
     ebind (raise_if (sha256_hex (h_budget_blob head) \<noteq> h_budget_sha256 head)
       (JournalCorruption ''resource budget blob hash diverged'')) (\<lambda>_.
     ebind (value_error_as_corruption ''resource budget cannot be decoded''
       (budget_from_blob (h_budget_blob head))) (\<lambda>budget.
     ebind (raise_if (b_scope budget \<noteq> scope \<or> b_budget_id budget \<noteq> h_budget_id head \<or>
         b_epoch budget \<noteq> h_epoch head)
       (JournalCorruption ''resource budget head identity diverged'')) (\<lambda>_.
     ebind (lift_kernel (create (b_budget_id budget) (b_scope budget) (b_epoch budget)
       (b_hard_caps budget))) (\<lambda>state.
     ebind (checkpoint_for state None None) (\<lambda>genesis. Inr (state, genesis))))))"

definition load_replay :: "functional_kernel \<Rightarrow> database \<Rightarrow> string \<Rightarrow> head_row \<Rightarrow> resource_state \<times> checkpoint \<Rightarrow>
    journal_error + (resource_state \<times> checkpoint) list" where
  "load_replay kern db scope head origin =
     (let rows = sort_key jr_revision (filter (\<lambda>r. jr_scope r = scope) (db_journal db)) in
      ebind (raise_if (int (length rows) \<noteq> h_revision head)
        (JournalCorruption ''resource journal row count does not match its head'')) (\<lambda>_.
      ebind (replay_rows kern origin 1 rows) (\<lambda>replayed.
      let history = origin # replayed; (s, c) = last history in
      ebind (raise_if (p_revision s \<noteq> h_revision head \<or> state_sha256 s \<noteq> h_state_sha256 head \<or>
          cp_journal_head_sha256 c \<noteq> h_journal_head_sha256 head)
        (JournalCorruption ''resource journal cached head failed exact replay'')) (\<lambda>_.
      Inr history))))"

definition load_outbox :: "database \<Rightarrow> string \<Rightarrow> int \<Rightarrow> checkpoint list \<Rightarrow> journal_error + anchor_status list" where
  "load_outbox db scope revision checkpoints =
     (let outbox_rows = sort_key ob_revision (filter (\<lambda>r. ob_scope r = scope) (db_outbox db)) in
      ebind (raise_if (map ob_revision outbox_rows \<noteq> [0..revision])
        (UnanchoredHistoryGap ''resource anchor outbox has a revision gap'')) (\<lambda>_.
      map_result (read_outbox_row checkpoints) outbox_rows))"

definition load_connection :: "functional_kernel \<Rightarrow> database \<Rightarrow> string \<Rightarrow> bool \<Rightarrow>
    journal_error + loaded_journal option" where
  "load_connection kern db scope allow_missing =
     ebind (require_journal_identifier scope ''resource scope'') (\<lambda>_.
     case find (\<lambda>h. h_scope h = scope) (db_heads db) of
       None \<Rightarrow>
         if allow_missing then Inr None
         else Inl (JournalNotInitialized (''resource journal scope is not initialized: '' @ scope))
     | Some head \<Rightarrow>
         ebind (load_genesis head scope) (\<lambda>origin.
         ebind (load_replay kern db scope head origin) (\<lambda>history.
         let state = fst (last history); checkpoints = map snd history in
         ebind (load_outbox db scope (p_revision state) checkpoints) (\<lambda>statuses.
         Inr (Some \<lparr>ld_state = state, ld_states = map fst history, ld_checkpoints = checkpoints,
           ld_anchor_statuses = statuses\<rparr>)))))"

text \<open>\<^verbatim>\<open>assert loaded is not None\<close>, which the call without \<^verbatim>\<open>allow_missing\<close> guarantees.\<close>

definition load_existing :: "functional_kernel \<Rightarrow> database \<Rightarrow> string \<Rightarrow> journal_error + loaded_journal" where
  "load_existing kern db scope =
     ebind (load_connection kern db scope False) (\<lambda>l.
     case l of Some loaded \<Rightarrow> Inr loaded | None \<Rightarrow> Inl (JournalNotInitialized scope))"

section \<open>The external head\<close>

text \<open>The \<^verbatim>\<open>Protocol\<close> \<^verbatim>\<open>TrustedAnchorStore\<close>, over a state \<open>'a\<close> of the authority.\<close>

record 'a trusted_anchor_store =
  an_read :: "'a \<Rightarrow> string \<Rightarrow> journal_error + checkpoint option"
  an_compare_and_set :: "'a \<Rightarrow> string option \<Rightarrow> checkpoint \<Rightarrow> (journal_error + checkpoint) \<times> 'a"

definition verify_external :: "loaded_journal option \<Rightarrow> checkpoint option \<Rightarrow> string \<Rightarrow> journal_error + unit" where
  "verify_external loaded external scope =
     (case loaded of
        None \<Rightarrow> raise_if (external \<noteq> None)
          (DatabaseRollbackDetected
            (''external anchor for '' @ scope @ '' exists but the local journal is absent''))
      | Some l \<Rightarrow>
          (case external of
             None \<Rightarrow> raise_if (CONFIRMED \<in> set (ld_anchor_statuses l))
               (HistoryReplacementDetected
                 ''local journal claims confirmation but the external anchor is absent'')
           | Some x \<Rightarrow>
               ebind (raise_if (cp_scope x \<noteq> p_scope (ld_state l) \<or> cp_budget_id x \<noteq> p_budget_id (ld_state l) \<or>
                   cp_epoch x \<noteq> p_epoch (ld_state l))
                 (HistoryReplacementDetected ''external anchor budget identity diverged'')) (\<lambda>_.
               ebind (raise_if (p_revision (ld_state l) < cp_revision x)
                 (DatabaseRollbackDetected
                   (''external anchor revision '' @ show_int (cp_revision x) @ '' is ahead of local revision '' @
                    show_int (p_revision (ld_state l))))) (\<lambda>_.
               ebind (raise_if (ld_checkpoints l ! nat (cp_revision x) \<noteq> x)
                 (HistoryReplacementDetected
                   (''external anchor and local history diverge at revision '' @ show_int (cp_revision x)))) (\<lambda>_.
               raise_if (list_ex (\<lambda>(revision, st). cp_revision x < revision \<and> st = CONFIRMED)
                   (zip [0..int (length (ld_anchor_statuses l)) - 1] (ld_anchor_statuses l)))
                 (UnanchoredHistoryGap ''local confirmation status is ahead of the external authority''))))))"

section \<open>Worlds and transactions\<close>

record 'a world =
  w_database :: database
  w_anchor :: 'a

record journal_snapshot =
  sn_state :: resource_state
  sn_checkpoint :: checkpoint
  sn_anchor_status :: anchor_status

record durable_decision =
  dd_state :: resource_state
  dd_decision :: decision
  dd_checkpoint :: checkpoint
  dd_anchor_status :: anchor_status

record reconcile_result =
  rr_confirmed_revisions :: "int list"
  rr_snapshot :: journal_snapshot

text \<open>What the constructor keeps.\<close>

record 'a resource_journal =
  rj_trusted_anchor :: "'a trusted_anchor_store option"
  rj_kernel :: functional_kernel
  rj_failure_inject_after_commit :: "(durable_decision \<Rightarrow> journal_error + unit) option"

definition open_journal :: "'a trusted_anchor_store option \<Rightarrow> functional_kernel \<Rightarrow>
    (durable_decision \<Rightarrow> journal_error + unit) option \<Rightarrow> journal_error + 'a resource_journal" where
  "open_journal trusted_anchor kern inject =
     ebind (lift_kernel (require_compatible_resource_kernel kern)) (\<lambda>k.
     Inr \<lparr>rj_trusted_anchor = trusted_anchor, rj_kernel = k, rj_failure_inject_after_commit = inject\<rparr>)"

text \<open>\<^verbatim>\<open>BEGIN\<close>, then \<^verbatim>\<open>commit\<close>, or \<^verbatim>\<open>rollback\<close> and raise.\<close>

definition transaction :: "(database \<Rightarrow> journal_error + 'r \<times> database) \<Rightarrow> 'a world \<Rightarrow>
    (journal_error + 'r) \<times> 'a world" where
  "transaction body w =
     (case body (w_database w) of
        Inl e \<Rightarrow> (Inl e, w)
      | Inr (r, db) \<Rightarrow> (Inr r, w\<lparr>w_database := db\<rparr>))"

definition external_head :: "'a resource_journal \<Rightarrow> 'a world \<Rightarrow> string \<Rightarrow> journal_error + checkpoint option" where
  "external_head j w scope =
     (case rj_trusted_anchor j of None \<Rightarrow> Inr None | Some anchor \<Rightarrow> an_read anchor (w_anchor w) scope)"

section \<open>load\<close>

definition journal_load :: "'a resource_journal \<Rightarrow> string \<Rightarrow> 'a world \<Rightarrow> journal_error + journal_snapshot" where
  "journal_load j scope w =
     ebind (external_head j w scope) (\<lambda>external.
     ebind (load_existing (rj_kernel j) (w_database w) scope) (\<lambda>loaded.
     ebind (verify_external (Some loaded) external scope) (\<lambda>_.
     Inr \<lparr>sn_state = ld_state loaded, sn_checkpoint = ld_checkpoint loaded,
          sn_anchor_status = ld_anchor_statuses loaded ! nat (p_revision (ld_state loaded))\<rparr>)))"

section \<open>reconcile_anchor\<close>

definition mark_confirmed :: "string \<Rightarrow> int \<Rightarrow> 'a world \<Rightarrow> bool \<times> 'a world" where
  "mark_confirmed scope revision w =
     (let db = w_database w;
          hit = (\<lambda>r. ob_scope r = scope \<and> ob_revision r = revision \<and> ob_status r = ''PENDING'') in
      (length (filter hit (db_outbox db)) = 1,
       w\<lparr>w_database := db\<lparr>db_outbox := map (\<lambda>r. if hit r then r\<lparr>ob_status := ''CONFIRMED''\<rparr> else r) (db_outbox db)\<rparr>\<rparr>))"

text \<open>The revisions the authority already holds, confirmed locally.\<close>

fun confirm_anchored :: "string \<Rightarrow> loaded_journal \<Rightarrow> int list \<Rightarrow> 'a world \<Rightarrow> int list \<times> 'a world" where
  "confirm_anchored scope loaded [] w = ([], w)"
| "confirm_anchored scope loaded (revision # revisions) w =
     (if ld_anchor_statuses loaded ! nat revision = PENDING then
        let (updated, w1) = mark_confirmed scope revision w;
            (rest, w2) = confirm_anchored scope loaded revisions w1
        in (if updated then revision # rest else rest, w2)
      else confirm_anchored scope loaded revisions w)"

text \<open>The revisions it does not hold yet, published in order, each confirmed before the next.\<close>

fun publish_pending :: "'a trusted_anchor_store \<Rightarrow> (checkpoint \<Rightarrow> journal_error + unit) option \<Rightarrow> string \<Rightarrow>
    loaded_journal \<Rightarrow> int list \<Rightarrow> string option \<Rightarrow> 'a world \<Rightarrow> (journal_error + int list) \<times> 'a world" where
  "publish_pending anchor after_publish scope loaded [] expected_head w = (Inr [], w)"
| "publish_pending anchor after_publish scope loaded (revision # revisions) expected_head w =
     (let checkpoint = ld_checkpoints loaded ! nat revision in
      case an_compare_and_set anchor (w_anchor w) expected_head checkpoint of
        (Inl e, a) \<Rightarrow> (Inl e, w\<lparr>w_anchor := a\<rparr>)
      | (Inr stored, a) \<Rightarrow>
          let w1 = w\<lparr>w_anchor := a\<rparr> in
          if stored \<noteq> checkpoint
          then (Inl (HistoryReplacementDetected ''external anchor exact readback diverged''), w1)
          else
            (case (case after_publish of None \<Rightarrow> Inr () | Some f \<Rightarrow> f checkpoint) of
               Inl e \<Rightarrow> (Inl e, w1)
             | Inr _ \<Rightarrow>
                 let (updated, w2) = mark_confirmed scope revision w1;
                     (rest, w3) = publish_pending anchor after_publish scope loaded revisions
                       (Some (cp_journal_head_sha256 checkpoint)) w2
                 in (ebind rest (\<lambda>confirmed. Inr (if updated then revision # confirmed else confirmed)), w3)))"

definition reconcile_anchor :: "'a resource_journal \<Rightarrow> string \<Rightarrow> (checkpoint \<Rightarrow> journal_error + unit) option \<Rightarrow>
    'a world \<Rightarrow> (journal_error + reconcile_result) \<times> 'a world" where
  "reconcile_anchor j scope after_publish w =
     (case rj_trusted_anchor j of
        None \<Rightarrow> (Inl (TrustedAnchorUnavailable ''no trusted resource anchor is configured''), w)
      | Some anchor \<Rightarrow>
          (case ebind (an_read anchor (w_anchor w) scope) (\<lambda>external.
                ebind (load_existing (rj_kernel j) (w_database w) scope) (\<lambda>loaded.
                ebind (verify_external (Some loaded) external scope) (\<lambda>_. Inr (external, loaded)))) of
             Inl e \<Rightarrow> (Inl e, w)
           | Inr (external, loaded) \<Rightarrow>
               let external_revision = (case external of None \<Rightarrow> -1 | Some x \<Rightarrow> cp_revision x);
                   (confirmed, w1) = confirm_anchored scope loaded [0..external_revision] w
               in (case publish_pending anchor after_publish scope loaded
                       [external_revision + 1..p_revision (ld_state loaded)]
                       (map_option cp_journal_head_sha256 external) w1 of
                     (Inl e, w2) \<Rightarrow> (Inl e, w2)
                   | (Inr published, w2) \<Rightarrow>
                       (ebind (journal_load j scope w2) (\<lambda>snapshot.
                        Inr \<lparr>rr_confirmed_revisions = confirmed @ published, rr_snapshot = snapshot\<rparr>), w2))))"

section \<open>initialize\<close>

definition intent_row :: "string \<Rightarrow> int \<Rightarrow> checkpoint \<Rightarrow> anchor_status \<Rightarrow> outbox_row" where
  "intent_row scope revision checkpoint st =
     \<lparr>ob_scope = scope, ob_revision = revision, ob_checkpoint_blob = checkpoint_blob checkpoint,
      ob_checkpoint_sha256 = checkpoint_sha256 checkpoint, ob_status = anchor_status_value st\<rparr>"

definition genesis_rows :: "resource_state \<Rightarrow> checkpoint \<Rightarrow> head_row \<times> outbox_row" where
  "genesis_rows state checkpoint =
     (let blob = budget_blob (state_budget state) in
      (\<lparr>h_scope = p_scope state, h_budget_id = p_budget_id state, h_epoch = p_epoch state,
        h_budget_blob = blob, h_budget_sha256 = sha256_hex blob, h_revision = 0,
        h_state_sha256 = state_sha256 state, h_journal_head_sha256 = cp_journal_head_sha256 checkpoint\<rparr>,
       intent_row (p_scope state) 0 checkpoint PENDING))"

definition initialize_body :: "functional_kernel \<Rightarrow> resource_state \<Rightarrow> checkpoint option \<Rightarrow> database \<Rightarrow>
    journal_error + unit \<times> database" where
  "initialize_body kern state external db =
     ebind (load_connection kern db (p_scope state) True) (\<lambda>loaded.
     ebind (verify_external loaded external (p_scope state)) (\<lambda>_.
     case loaded of
       None \<Rightarrow>
         ebind (checkpoint_for state None None) (\<lambda>checkpoint.
         let (head, intent) = genesis_rows state checkpoint in
         ebind (insert_head head db) (\<lambda>db1.
         ebind (insert_outbox intent db1) (\<lambda>db2. Inr ((), db2))))
     | Some l \<Rightarrow>
         if state_budget (ld_state l) \<noteq> state_budget state \<or> p_revision (ld_state l) \<noteq> 0
         then Inl (BudgetIdentityConflict
           (''resource scope already belongs to a different or advanced budget: '' @ p_scope state))
         else Inr ((), db)))"

definition journal_initialize :: "'a resource_journal \<Rightarrow> resource_state \<Rightarrow> 'a world \<Rightarrow>
    (journal_error + journal_snapshot) \<times> 'a world" where
  "journal_initialize j state w =
     (case ebind (raise_if (p_revision state \<noteq> 0)
             (journal_value_error ''resource journal initialization requires a genesis state'')) (\<lambda>_.
           ebind (lift_kernel (create (p_budget_id state) (p_scope state) (p_epoch state)
             (p_hard_caps state))) (\<lambda>expected_genesis.
           ebind (raise_if (state \<noteq> expected_genesis)
             (journal_value_error ''resource journal initialization state is not exact genesis'')) (\<lambda>_.
           external_head j w (p_scope state)))) of
        Inl e \<Rightarrow> (Inl e, w)
      | Inr external \<Rightarrow>
          (case transaction (initialize_body (rj_kernel j) state external) w of
             (Inl e, w1) \<Rightarrow> (Inl e, w1)
           | (Inr _, w1) \<Rightarrow>
               if rj_trusted_anchor j \<noteq> None
               then let (r, w2) = reconcile_anchor j (p_scope state) None w1
                    in (ebind r (\<lambda>x. Inr (rr_snapshot x)), w2)
               else (journal_load j (p_scope state) w1, w1)))"

section \<open>apply\<close>

definition transition_row :: "string \<Rightarrow> resource_state \<Rightarrow> checkpoint \<Rightarrow> checkpoint \<Rightarrow> resource_transition \<Rightarrow>
    journal_row" where
  "transition_row scope next_state previous checkpoint t =
     \<lparr>jr_scope = scope, jr_revision = p_revision next_state, jr_command_id = command_id (t_command t),
      jr_command_sha256 = t_command_sha256 t, jr_transition_sha256 = t_transition_sha256 t,
      jr_receipt_sha256 = t_receipt_sha256 t, jr_transition_blob = transition_blob t,
      jr_before_state_sha256 = r_before_state_sha256 (t_receipt t),
      jr_after_state_sha256 = r_after_state_sha256 (t_receipt t),
      jr_previous_journal_head_sha256 = cp_journal_head_sha256 previous,
      jr_journal_head_sha256 = cp_journal_head_sha256 checkpoint\<rparr>"

text \<open>The compare-and-set of the head row; \<^verbatim>\<open>rowcount\<close> is how many rows it changed.\<close>

definition update_head :: "string \<Rightarrow> resource_state \<Rightarrow> checkpoint \<Rightarrow> resource_state \<Rightarrow> checkpoint \<Rightarrow> database \<Rightarrow>
    nat \<times> database" where
  "update_head scope old old_checkpoint new new_checkpoint db =
     (let hit = (\<lambda>h. h_scope h = scope \<and> h_revision h = p_revision old \<and> h_state_sha256 h = state_sha256 old \<and>
            h_journal_head_sha256 h = cp_journal_head_sha256 old_checkpoint) in
      (length (filter hit (db_heads db)),
       db\<lparr>db_heads := map (\<lambda>h. if hit h
            then h\<lparr>h_revision := p_revision new, h_state_sha256 := state_sha256 new,
                   h_journal_head_sha256 := cp_journal_head_sha256 new_checkpoint\<rparr>
            else h) (db_heads db)\<rparr>))"

definition commit_transition :: "functional_kernel \<Rightarrow> string \<Rightarrow> loaded_journal \<Rightarrow> decision \<Rightarrow> database \<Rightarrow>
    journal_error + durable_decision \<times> database" where
  "commit_transition kern scope loaded decision db =
     (let t = d_transitions decision ! 0 in
      ebind (lift_kernel (kernel_evolve kern (ld_state loaded) t)) (\<lambda>next_state.
      ebind (checkpoint_for next_state (Some (cp_journal_head_sha256 (ld_checkpoint loaded))) (Some t)) (\<lambda>checkpoint.
      ebind (insert_journal (transition_row scope next_state (ld_checkpoint loaded) checkpoint t) db) (\<lambda>db1.
      let (rowcount, db2) = update_head scope (ld_state loaded) (ld_checkpoint loaded) next_state checkpoint db1 in
      ebind (raise_if (rowcount \<noteq> 1) (RevisionConflict (p_revision (ld_state loaded)) (-1))) (\<lambda>_.
      ebind (insert_outbox (intent_row scope (p_revision next_state) checkpoint PENDING) db2) (\<lambda>db3.
      Inr (\<lparr>dd_state = next_state, dd_decision = decision, dd_checkpoint = checkpoint,
            dd_anchor_status = PENDING\<rparr>, db3)))))))"

definition apply_body :: "functional_kernel \<Rightarrow> string \<Rightarrow> resource_command \<Rightarrow> int option \<Rightarrow> checkpoint option \<Rightarrow>
    database \<Rightarrow> journal_error + durable_decision \<times> database" where
  "apply_body kern scope command expected_revision external db =
     ebind (load_existing kern db scope) (\<lambda>loaded.
     ebind (verify_external (Some loaded) external scope) (\<lambda>_.
     ebind (lift_kernel (kernel_decide kern (ld_state loaded) command)) (\<lambda>decision.
     if d_replayed decision then
       let checkpoint = ld_checkpoints loaded ! nat (r_after_revision (decision_receipt decision));
           revision = nat (cp_revision checkpoint)
       in Inr (\<lparr>dd_state = ld_states loaded ! revision, dd_decision = decision, dd_checkpoint = checkpoint,
                dd_anchor_status = ld_anchor_statuses loaded ! revision\<rparr>, db)
     else
       ebind (case expected_revision of
                None \<Rightarrow> Inr ()
              | Some r \<Rightarrow> raise_if (r \<noteq> p_revision (ld_state loaded))
                  (RevisionConflict r (p_revision (ld_state loaded)))) (\<lambda>_.
       commit_transition kern scope loaded decision db))))"

definition journal_apply :: "'a resource_journal \<Rightarrow> string \<Rightarrow> resource_command \<Rightarrow> int option \<Rightarrow> 'a world \<Rightarrow>
    (journal_error + durable_decision) \<times> 'a world" where
  "journal_apply j scope command expected_revision w =
     (case ebind (case expected_revision of
                    None \<Rightarrow> Inr ()
                  | Some r \<Rightarrow> raise_if (r < 0) (journal_value_error ''expected_revision must be an integer >= 0''))
            (\<lambda>_. external_head j w scope) of
        Inl e \<Rightarrow> (Inl e, w)
      | Inr external \<Rightarrow>
          (case transaction (apply_body (rj_kernel j) scope command expected_revision external) w of
             (Inl e, w1) \<Rightarrow> (Inl e, w1)
           | (Inr result, w1) \<Rightarrow>
               (case (if d_replayed (dd_decision result) then Inr ()
                      else case rj_failure_inject_after_commit j of None \<Rightarrow> Inr () | Some f \<Rightarrow> f result) of
                  Inl e \<Rightarrow> (Inl e, w1)
                | Inr _ \<Rightarrow>
                    if rj_trusted_anchor j = None then (Inr result, w1)
                    else
                      let (r, w2) = reconcile_anchor j scope None w1
                      in (ebind r (\<lambda>_. Inr (result\<lparr>dd_anchor_status := CONFIRMED\<rparr>)), w2))))"

end
