(* ===== verification/Journal_Codec_Facts.thy ===== *)
theory Journal_Codec_Facts
  imports Journal_Codec
begin

text \<open>
  Round trips of the codec. A value that its constructor accepts is read back from what was written
  of it, whatever the order in which the canonical bytes list the members of its dicts; the reader
  accepts nothing but canonical bytes.
\<close>

section \<open>Printing and reading one dict\<close>

definition dict_items :: "json \<Rightarrow> json_dict" where
  "dict_items j = (case j of JObj kvs \<Rightarrow> kvs | _ \<Rightarrow> [])"

lemma dict_items_JObj [simp]: "dict_items (JObj kvs) = kvs"
  by (simp add: dict_items_def)

lemma canonical_dict:
  assumes "j = JObj (dict_items j)" and "distinct (map fst (dict_items j))"
  obtains kvs where "canonical j = JObj kvs" and "reread (dict_items j) kvs"
proof -
  obtain kvs where "canonical (JObj (dict_items j)) = JObj kvs" and "reread (dict_items j) kvs"
    using canonical_reread [OF assms(2)] .
  with assms(1) that show thesis by metis
qed

lemma canonical_json_opt: "canonical (json_opt f x) = json_opt (\<lambda>y. canonical (f y)) x"
  by (cases x) (simp_all add: json_opt_def)

lemma keys_json_opt: "dict_keys_ok (json_opt f x) \<longleftrightarrow> (\<forall>y. x = Some y \<longrightarrow> dict_keys_ok (f y))"
  by (cases x) (simp_all add: json_opt_def)

lemma vector_from_json_canonical [simp]: "vector_from_json (canonical (vector_to_dict v)) l = Inr v"
proof -
  obtain kvs where c: "canonical (vector_to_dict v) = JObj kvs" and r: "reread (dict_items (vector_to_dict v)) kvs"
    by (rule canonical_dict [of "vector_to_dict v"]) (simp_all add: vector_to_dict_def)
  have "fst ` set kvs = set DIMENSIONS"
    unfolding reread_keys [OF r] by (simp add: vector_to_dict_def DIMENSIONS_def)
  moreover have "member kvs ''compute.wall_ms'' = JInt (int (compute_wall_ms v))"
    "member kvs ''llm.input_tokens'' = JInt (int (llm_input_tokens v))"
    "member kvs ''llm.output_tokens'' = JInt (int (llm_output_tokens v))"
    unfolding reread_member [OF r] by (simp_all add: vector_to_dict_def)
  ultimately show ?thesis
    by (simp add: c vector_from_json_def expect_mapping_def vector_axis_def want_int_def DIMENSIONS_def
        mk_resource_vector_def check_integer_def)
qed

lemma vector_not_null [simp]: "canonical (vector_to_dict v) \<noteq> JNull"
  by (simp add: vector_to_dict_def)

lemma vector_keys_ok [simp]: "dict_keys_ok (vector_to_dict v)"
  by (simp add: vector_to_dict_def)

section \<open>Budgets\<close>

definition budget_ok :: "resource_budget \<Rightarrow> bool" where
  "budget_ok b \<longleftrightarrow> post_init_budget b = Inr ()"

lemma budget_roundtrip:
  assumes "budget_ok b"
  shows "budget_from_blob (budget_blob b) = Inr b"
proof -
  let ?envelope = "[(''codec_version'', JStr CODEC_VERSION), (''budget'', budget_to_dict b)]"
  obtain kvs where c: "canonical (JObj ?envelope) = JObj kvs" and r: "reread ?envelope kvs"
    by (rule canonical_reread [of ?envelope]) simp
  obtain bs where b: "canonical (budget_to_dict b) = JObj bs" and rb: "reread (dict_items (budget_to_dict b)) bs"
    by (rule canonical_dict [of "budget_to_dict b"]) (simp_all add: budget_to_dict_def)
  have "dict_keys_ok (JObj ?envelope)" by (simp add: budget_to_dict_def)
  from decode_canonical_blob_bytes [OF this c]
  have d: "decode_canonical_blob (budget_blob b) ''resource budget'' = Inr kvs" by (simp add: budget_blob_def)
  have keys: "fst ` set kvs = {''codec_version'', ''budget''}"
    "fst ` set bs = {''schema_version'', ''budget_id'', ''scope'', ''epoch'', ''hard_caps''}"
    unfolding reread_keys [OF r] reread_keys [OF rb] by (simp_all add: budget_to_dict_def)
  have m: "member kvs ''codec_version'' = JStr CODEC_VERSION" "member kvs ''budget'' = JObj bs"
    unfolding reread_member [OF r] by (simp_all add: b)
  have f: "member bs ''hard_caps'' = canonical (vector_to_dict (b_hard_caps b))"
    "member bs ''schema_version'' = JStr (b_schema_version b)" "member bs ''budget_id'' = JStr (b_budget_id b)"
    "member bs ''scope'' = JStr (b_scope b)" "member bs ''epoch'' = JInt (b_epoch b)"
    unfolding reread_member [OF rb] by (simp_all add: budget_to_dict_def)
  from assms have "mk_budget b = Inr b" by (simp add: budget_ok_def mk_budget_def)
  then show ?thesis
    unfolding budget_from_blob_def d by (cases b) (simp add: keys m f expect_keys_def expect_mapping_def want_defs)
qed

section \<open>Commands\<close>

lemma canonical_scalars [simp]:
  "canonical (estimate_to_dict e) \<noteq> JNull" "canonical (usage_to_dict u) \<noteq> JNull" "canonical (grant_to_dict g) \<noteq> JNull"
  by (simp_all add: estimate_to_dict_def usage_to_dict_def grant_to_dict_def)

lemma estimate_roundtrip:
  assumes "estimate_ok e"
  obtains kvs where "canonical (estimate_to_dict e) = JObj kvs" and "estimate_from_dict kvs = Inr e"
proof -
  obtain kvs where c: "canonical (estimate_to_dict e) = JObj kvs" and r: "reread (dict_items (estimate_to_dict e)) kvs"
    by (rule canonical_dict [of "estimate_to_dict e"]) (simp_all add: estimate_to_dict_def)
  have keys: "fst ` set kvs = {''schema_version'', ''work_id'', ''attempt_id'', ''workload_sha256'', ''adapter'',
       ''adapter_version'', ''upper_bound'', ''valid_until'', ''expected''}"
    unfolding reread_keys [OF r] by (simp add: estimate_to_dict_def)
  have f: "member kvs ''schema_version'' = JStr (e_schema_version e)" "member kvs ''work_id'' = JStr (e_work_id e)"
    "member kvs ''attempt_id'' = JStr (e_attempt_id e)" "member kvs ''workload_sha256'' = JStr (e_workload_sha256 e)"
    "member kvs ''adapter'' = JStr (e_adapter e)" "member kvs ''adapter_version'' = JStr (e_adapter_version e)"
    "member kvs ''upper_bound'' = canonical (vector_to_dict (e_upper_bound e))"
    "member kvs ''valid_until'' = JStr (e_valid_until e)"
    "member kvs ''expected'' = json_opt (\<lambda>v. canonical (vector_to_dict v)) (e_expected e)"
    unfolding reread_member [OF r] by (simp_all add: estimate_to_dict_def canonical_json_opt)
  have "mk_estimate e = Inr e" using assms by (simp add: mk_estimate_def result_simps check_simps)
  then have "estimate_from_dict kvs = Inr e"
    by (cases e; cases "e_expected e")
      (simp_all add: estimate_from_dict_def keys f expect_keys_def want_defs json_opt_def)
  with c that show thesis by blast
qed

lemma usage_roundtrip:
  assumes "usage_ok u"
  obtains kvs where "canonical (usage_to_dict u) = JObj kvs" and "usage_from_dict kvs = Inr u"
proof -
  obtain kvs where c: "canonical (usage_to_dict u) = JObj kvs" and r: "reread (dict_items (usage_to_dict u)) kvs"
    by (rule canonical_dict [of "usage_to_dict u"]) (simp_all add: usage_to_dict_def)
  have keys: "fst ` set kvs = {''schema_version'', ''actual'', ''measured_at'', ''measurement_sha256'', ''evidence_sha256''}"
    unfolding reread_keys [OF r] by (simp add: usage_to_dict_def)
  have f: "member kvs ''schema_version'' = JStr (u_schema_version u)" "member kvs ''measured_at'' = JStr (u_measured_at u)"
    "member kvs ''measurement_sha256'' = JStr (u_measurement_sha256 u)"
    "member kvs ''evidence_sha256'' = JStr (u_evidence_sha256 u)"
    "member kvs ''actual'' = canonical (vector_to_dict (u_actual u))"
    unfolding reread_member [OF r] by (simp_all add: usage_to_dict_def)
  have "mk_usage u = Inr u" using assms by (simp add: mk_usage_def result_simps check_simps)
  then have "usage_from_dict kvs = Inr u"
    by (cases u) (simp add: usage_from_dict_def keys f expect_keys_def want_defs)
  with c that show thesis by blast
qed

lemma grant_base_from_fields:
  assumes "member kvs ''command_id'' = JStr (gc_command_id c)" and "member kvs ''grant_id'' = JStr (gc_grant_id c)"
    and "member kvs ''fence_token'' = JInt (gc_fence_token c)"
    and "member kvs ''workload_sha256'' = JStr (gc_workload_sha256 c)"
    and "member kvs ''observed_at'' = JStr (gc_observed_at c)"
  shows "grant_base_from kvs = Inr c"
  by (cases c) (simp add: grant_base_from_def want_defs assms)

text \<open>A command that binds a grant, with the extra members of its kind.\<close>

lemma base_dict_reread:
  assumes "reread (base_dict c op @ extra) kvs"
  shows "grant_base_from kvs = Inr c" and "member kvs ''type'' = JStr op"
    and "fst ` set kvs = GRANT_BASE_FIELDS \<union> fst ` set extra"
  unfolding reread_keys [OF assms]
  by (rule grant_base_from_fields; simp add: reread_member [OF assms] base_dict_def)
    (auto simp: reread_member [OF assms] base_dict_def GRANT_BASE_FIELDS_def BASE_FIELDS_def)

lemma command_roundtrip:
  assumes "command_ok c"
  obtains kvs where "canonical (command_to_dict c) = JObj kvs" and "command_from_dict kvs = Inr c"
proof -
  have mk: "mk_command c = Inr c" using assms by (simp add: mk_command_def result_simps check_simps)
  obtain kvs where k: "canonical (command_to_dict c) = JObj kvs" and r: "reread (dict_items (command_to_dict c)) kvs"
    by (rule canonical_dict [of "command_to_dict c"]) (cases c; simp add: base_dict_def)+
  have "command_from_dict kvs = Inr c"
  proof (cases c)
    case (RequestGrant rq)
    with assms have "estimate_ok (rq_estimate rq)" by (simp add: request_ok_def)
    then obtain es where e: "canonical (estimate_to_dict (rq_estimate rq)) = JObj es"
      "estimate_from_dict es = Inr (rq_estimate rq)" by (rule estimate_roundtrip)
    have keys: "fst ` set kvs = BASE_FIELDS \<union> {''expires_at'', ''estimate''}"
      unfolding reread_keys [OF r] by (auto simp: RequestGrant BASE_FIELDS_def)
    have f: "member kvs ''type'' = JStr ''request_grant''" "member kvs ''command_id'' = JStr (rq_command_id rq)"
      "member kvs ''grant_id'' = JStr (rq_grant_id rq)" "member kvs ''fence_token'' = JInt (rq_fence_token rq)"
      "member kvs ''observed_at'' = JStr (rq_observed_at rq)" "member kvs ''expires_at'' = JStr (rq_expires_at rq)"
      "member kvs ''estimate'' = JObj es"
      unfolding reread_member [OF r] by (simp_all add: RequestGrant e)
    show ?thesis
      using mk unfolding RequestGrant
      by (cases rq) (simp add: command_from_dict_def keys f e expect_keys_def expect_mapping_def want_defs)
  next
    case (StartGrant g)
    have r': "reread (base_dict g ''start_grant'' @ []) kvs" using r by (simp add: StartGrant)
    show ?thesis using mk by (simp add: StartGrant command_from_dict_def base_dict_reread [OF r'] expect_keys_def)
  next
    case (SettleGrant g u)
    with assms have "usage_ok u" by simp
    then obtain us where u: "canonical (usage_to_dict u) = JObj us" "usage_from_dict us = Inr u" by (rule usage_roundtrip)
    have r': "reread (base_dict g ''settle_grant'' @ [(''usage'', usage_to_dict u)]) kvs" using r by (simp add: SettleGrant)
    have "member kvs ''usage'' = JObj us" unfolding reread_member [OF r'] by (simp add: base_dict_def u)
    with u show ?thesis
      using mk by (simp add: SettleGrant command_from_dict_def base_dict_reread [OF r'] expect_keys_def expect_mapping_def)
  next
    case (CancelGrant g reason)
    have r': "reread (base_dict g ''cancel_grant'' @ [(''reason'', JStr reason)]) kvs" using r by (simp add: CancelGrant)
    have "member kvs ''reason'' = JStr reason" unfolding reread_member [OF r'] by (simp add: base_dict_def)
    then show ?thesis
      using mk by (simp add: CancelGrant command_from_dict_def base_dict_reread [OF r'] expect_keys_def want_defs)
  next
    case (DeadlineObserved g)
    have r': "reread (base_dict g ''deadline_observed'' @ []) kvs" using r by (simp add: DeadlineObserved)
    show ?thesis using mk by (simp add: DeadlineObserved command_from_dict_def base_dict_reread [OF r'] expect_keys_def)
  next
    case (UsageUnknown g reason)
    have r': "reread (base_dict g ''usage_unknown'' @ [(''reason'', JStr reason)]) kvs" using r by (simp add: UsageUnknown)
    have "member kvs ''reason'' = JStr reason" unfolding reread_member [OF r'] by (simp add: base_dict_def)
    then show ?thesis
      using mk by (simp add: UsageUnknown command_from_dict_def base_dict_reread [OF r'] expect_keys_def want_defs)
  qed
  with k that show thesis by blast
qed

lemma command_keys_ok: "dict_keys_ok (command_to_dict c)"
proof -
  have "dict_keys_ok (estimate_to_dict e)" for e by (simp add: estimate_to_dict_def keys_json_opt)
  moreover have "dict_keys_ok (usage_to_dict u)" for u by (simp add: usage_to_dict_def)
  ultimately show ?thesis by (cases c) (simp_all add: base_dict_def)
qed

section \<open>Grants\<close>

lemma grant_status_of_value [simp]: "grant_status_of (JStr (grant_status_value st)) = Inr st"
  by (cases st) (simp_all add: grant_status_of_def)

lemma grant_roundtrip:
  assumes "grant_ok g"
  obtains kvs where "canonical (grant_to_dict g) = JObj kvs" and "grant_from_dict kvs = Inr g"
proof -
  obtain kvs where c: "canonical (grant_to_dict g) = JObj kvs" and r: "reread (dict_items (grant_to_dict g)) kvs"
    by (rule canonical_dict [of "grant_to_dict g"]) (simp_all add: grant_to_dict_def)
  have keys: "fst ` set kvs = GRANT_FIELDS"
    unfolding reread_keys [OF r] by (simp add: grant_to_dict_def GRANT_FIELDS_def)
  have f: "member kvs ''schema_version'' = JStr (g_schema_version g)" "member kvs ''grant_id'' = JStr (g_grant_id g)"
    "member kvs ''estimate_sha256'' = JStr (g_estimate_sha256 g)"
    "member kvs ''workload_sha256'' = JStr (g_workload_sha256 g)"
    "member kvs ''reserved'' = canonical (vector_to_dict (g_reserved g))"
    "member kvs ''reserved_at'' = JStr (g_reserved_at g)" "member kvs ''expires_at'' = JStr (g_expires_at g)"
    "member kvs ''fence_token'' = JInt (g_fence_token g)"
    "member kvs ''status'' = JStr (grant_status_value (g_status g))"
    "member kvs ''last_observed_at'' = JStr (g_last_observed_at g)"
    "member kvs ''started_at'' = json_opt JStr (g_started_at g)"
    "member kvs ''actual'' = canonical (vector_to_dict (g_actual g))"
    "member kvs ''measured_at'' = json_opt JStr (g_measured_at g)"
    "member kvs ''measurement_sha256'' = json_opt JStr (g_measurement_sha256 g)"
    "member kvs ''evidence_sha256'' = json_opt JStr (g_evidence_sha256 g)"
    "member kvs ''cancel_requested'' = JBool (g_cancel_requested g)"
    unfolding reread_member [OF r] by (simp_all add: grant_to_dict_def)
  have "mk_grant g = Inr g" using assms by (simp add: mk_grant_def result_simps check_simps)
  then have "grant_from_dict kvs = Inr g"
    by (cases g) (simp add: grant_from_dict_def keys f expect_keys_def want_defs)
  with c that show thesis by blast
qed

lemma grant_keys_ok: "dict_keys_ok (grant_to_dict g)"
  by (simp add: grant_to_dict_def)

section \<open>Receipts\<close>

lemma dimensions_of_strings [simp]: "dimensions_of (JArr (map JStr ds)) = Inr ds"
proof -
  have "map_result (\<lambda>x. case x of JStr s \<Rightarrow> Inr s | _ \<Rightarrow> Inl e) (map JStr ds) = Inr ds" for e :: journal_error
    by (induction ds) simp_all
  then show ?thesis by (simp add: dimensions_of_def)
qed

definition receipt_ok :: "resource_receipt \<Rightarrow> bool" where
  "receipt_ok r \<longleftrightarrow> post_init_receipt r = Inr ()"

lemma receipt_roundtrip:
  assumes "receipt_ok r"
  obtains kvs where "canonical (receipt_to_dict r) = JObj kvs" and "receipt_from_dict kvs = Inr r"
proof -
  obtain kvs where c: "canonical (receipt_to_dict r) = JObj kvs" and rr: "reread (dict_items (receipt_to_dict r)) kvs"
    by (rule canonical_dict [of "receipt_to_dict r"]) (simp_all add: receipt_to_dict_def)
  have keys: "fst ` set kvs = RECEIPT_FIELDS"
    unfolding reread_keys [OF rr] by (simp add: receipt_to_dict_def RECEIPT_FIELDS_def)
  have f: "member kvs ''schema_version'' = JStr (r_schema_version r)" "member kvs ''budget_id'' = JStr (r_budget_id r)"
    "member kvs ''scope'' = JStr (r_scope r)" "member kvs ''epoch'' = JInt (r_epoch r)"
    "member kvs ''operation'' = JStr (r_operation r)" "member kvs ''outcome'' = JStr (r_outcome r)"
    "member kvs ''command_id'' = JStr (r_command_id r)" "member kvs ''command_sha256'' = JStr (r_command_sha256 r)"
    "member kvs ''before_state_sha256'' = JStr (r_before_state_sha256 r)"
    "member kvs ''after_state_sha256'' = JStr (r_after_state_sha256 r)"
    "member kvs ''transition_payload_sha256'' = JStr (r_transition_payload_sha256 r)"
    unfolding reread_member [OF rr] by (simp_all add: receipt_to_dict_def)
  have f': "member kvs ''before_revision'' = JInt (r_before_revision r)"
    "member kvs ''after_revision'' = JInt (r_after_revision r)" "member kvs ''grant_id'' = JStr (r_grant_id r)"
    "member kvs ''reserved'' = canonical (vector_to_dict (r_reserved r))"
    "member kvs ''actual'' = canonical (vector_to_dict (r_actual r))"
    "member kvs ''released'' = canonical (vector_to_dict (r_released r))"
    "member kvs ''failure_code'' = json_opt JStr (r_failure_code r)"
    "member kvs ''failure_detail'' = json_opt JStr (r_failure_detail r)"
    "member kvs ''failure_dimensions'' = JArr (map JStr (r_failure_dimensions r))"
    "member kvs ''evidence_sha256'' = json_opt JStr (r_evidence_sha256 r)"
    "member kvs ''engine_rule_sha256'' = JStr (r_engine_rule_sha256 r)"
    unfolding reread_member [OF rr] by (simp_all add: receipt_to_dict_def)
  have "mk_receipt r = Inr r" using assms by (simp add: mk_receipt_def receipt_ok_def)
  then have "receipt_from_dict kvs = Inr r"
    by (cases r) (simp add: receipt_from_dict_def keys f f' expect_keys_def want_defs)
  with c that show thesis by blast
qed

lemma receipt_keys_ok: "dict_keys_ok (receipt_to_dict r)"
  by (simp add: receipt_to_dict_def list_all_iff)

section \<open>Transitions\<close>

definition transition_ok :: "resource_transition \<Rightarrow> bool" where
  "transition_ok t \<longleftrightarrow>
     post_init_transition t = Inr () \<and> command_ok (t_command t) \<and> receipt_ok (t_receipt t) \<and>
     (\<forall>g. t_grant t = Some g \<longrightarrow> grant_ok g)"

lemma transition_blob_read:
  assumes "transition_ok t"
  shows "transition_from_blob (transition_blob t) = Inr t"
proof -
  let ?envelope = "[(''codec_version'', JStr CODEC_VERSION), (''transition'', JObj (transition_items t))]"
  obtain kvs where c: "canonical (JObj ?envelope) = JObj kvs" and r: "reread ?envelope kvs"
    by (rule canonical_reread [of ?envelope]) simp
  have items: "distinct (map fst (transition_items t))" by (simp add: transition_items_def)
  obtain ts where ts: "canonical (JObj (transition_items t)) = JObj ts" and rt: "reread (transition_items t) ts"
    by (rule canonical_reread [OF items])
  obtain cs where cs: "canonical (command_to_dict (t_command t)) = JObj cs" "command_from_dict cs = Inr (t_command t)"
    using assms by (auto simp: transition_ok_def elim: command_roundtrip)
  obtain rs where rs: "canonical (receipt_to_dict (t_receipt t)) = JObj rs" "receipt_from_dict rs = Inr (t_receipt t)"
    using assms by (auto simp: transition_ok_def elim: receipt_roundtrip)
  consider (none) "canonical (json_opt grant_to_dict (t_grant t)) = JNull" "t_grant t = None"
    | (some) gs x where "canonical (json_opt grant_to_dict (t_grant t)) = JObj gs" "grant_from_dict gs = Inr x"
        "t_grant t = Some x"
    using assms by (cases "t_grant t") (auto simp: transition_ok_def json_opt_def elim: grant_roundtrip)
  note grant = this
  have "dict_keys_ok (JObj ?envelope)"
    using command_keys_ok receipt_keys_ok grant_keys_ok by (simp add: transition_items_def keys_json_opt)
  from decode_canonical_blob_bytes [OF this c]
  have d: "decode_canonical_blob (transition_blob t) ''resource transition'' = Inr kvs" by (simp add: transition_blob_def)
  have keys: "fst ` set kvs = {''codec_version'', ''transition''}" "fst ` set ts = TRANSITION_FIELDS"
    unfolding reread_keys [OF r] reread_keys [OF rt] by (simp_all add: transition_items_def TRANSITION_FIELDS_def)
  have m: "member kvs ''codec_version'' = JStr CODEC_VERSION" "member kvs ''transition'' = JObj ts"
    unfolding reread_member [OF r] using ts by simp_all
  have f: "member ts ''command'' = JObj cs" "member ts ''receipt'' = JObj rs"
    "member ts ''grant'' = canonical (json_opt grant_to_dict (t_grant t))"
    "member ts ''spent_delta'' = canonical (vector_to_dict (t_spent_delta t))"
    "member ts ''command_sha256'' = JStr (t_command_sha256 t)"
    "member ts ''transition_payload_sha256'' = JStr (t_transition_payload_sha256 t)"
    "member ts ''receipt_sha256'' = JStr (t_receipt_sha256 t)"
    "member ts ''transition_sha256'' = JStr (t_transition_sha256 t)"
    "member ts ''freeze_budget'' = JBool (t_freeze_budget t)"
    unfolding reread_member [OF rt] by (simp_all add: transition_items_def cs rs)
  have "mk_transition t = Inr t" using assms by (simp add: mk_transition_def transition_ok_def)
  moreover have "expect_mapping (JObj x) l = Inr x" for x l by (simp add: expect_mapping_def)
  ultimately show ?thesis
    unfolding transition_from_blob_def d
    by (cases rule: grant; cases t)
      (simp_all add: keys m f cs(2) rs(2) expect_keys_def want_defs del: json_opt_cases)
qed

end
