(* ===== verification/Resource_Journal.thy ===== *)
theory Resource_Journal
  imports Resource_Kernel
begin

text \<open>
  What holds of a journal: consecutive receipts are chained by state hash and revision
  (\<open>chained\<close>), the journal only grows, a decision is accepted exactly when a branch of
  \<open>accepts\<close> applies, a refusal can be read back from its receipt, and grants evolve along
  the life cycle and never disappear.
\<close>

section \<open>The hash chain\<close>

fun chained :: "string \<Rightarrow> int \<Rightarrow> command_record list \<Rightarrow> string \<Rightarrow> bool" where
  "chained h n [] h' = (h = h')"
| "chained h n (rec # recs) h' =
     (r_before_state_sha256 (cr_receipt rec) = h \<and> r_before_revision (cr_receipt rec) = n \<and>
      r_after_revision (cr_receipt rec) = n + 1 \<and>
      chained (r_after_state_sha256 (cr_receipt rec)) (n + 1) recs h')"

lemma projection_after_sha:
  assumes "projection_after p t = Inr q"
  shows "projected_state_sha256 p (t_command t) (t_grant t) (t_spent_delta t) (t_freeze_budget t) = Inr (state_sha256 q)"
  using assms
  by (auto simp: projection_after_def projected_state_sha256_def result_simps state_sha256_def snapshot_sha256_def)

lemma replay_record_link:
  assumes "replay_record p rec = Inr q"
  shows "r_before_state_sha256 (cr_receipt rec) = state_sha256 p" and "r_before_revision (cr_receipt rec) = p_revision p"
    and "r_after_revision (cr_receipt rec) = p_revision p + 1" and "r_after_state_sha256 (cr_receipt rec) = state_sha256 q"
    and "p_revision q = p_revision p + 1"
proof -
  have v: "validate_transition_against p (cr_transition rec) = Inr ()" and rt: "cr_receipt rec = t_receipt (cr_transition rec)"
    and q: "projection_after p (cr_transition rec) = Inr q"
    using assms
    by (auto simp: replay_record_def Let_def result_simps check_simps rejection_as_value_error_def
        split: sum.splits lk_error.splits)
  from v rt projection_after_sha [OF q]
  show "r_before_state_sha256 (cr_receipt rec) = state_sha256 p" and "r_before_revision (cr_receipt rec) = p_revision p"
    and "r_after_revision (cr_receipt rec) = p_revision p + 1" and "r_after_state_sha256 (cr_receipt rec) = state_sha256 q"
    by (auto simp: validate_transition_against_def Let_def result_simps check_simps)
  show "p_revision q = p_revision p + 1" using q by (auto simp: projection_after_def result_simps)
qed

lemma replay_chained:
  "fold_result replay_record p recs = Inr q \<Longrightarrow> chained (state_sha256 p) (p_revision p) recs (state_sha256 q)"
proof (induction recs arbitrary: p)
  case (Cons rec recs)
  then obtain p' where p': "replay_record p rec = Inr p'" "fold_result replay_record p' recs = Inr q"
    by (auto simp: result_simps)
  from replay_record_link [OF p'(1)] Cons.IH [OF p'(2)] show ?case by simp
qed simp

section \<open>Acceptance\<close>

lemma accepts_outcome: "accepts p c a \<Longrightarrow> a_outcome a \<noteq> ''rejected''"
  by (erule accepts.cases) (auto simp: args_defs settled_status_def str_lower_def lower_char_def)

lemma decide_fresh_command:
  assumes "state_ok s" and "command_ok c" and "command_id c \<notin> cr_command_id ` set (s_command_records s)"
  obtains a q where "chosen s c a" "steps_to s c a q"
    "decide s c = Inr (fresh_decision (step_transition s c a q))"
    "submit s c = Inr (extend_state s q (step_transition s c a q))"
proof -
  have l: "ledger_ok s" using assms by (simp add: state_ok_def)
  obtain a where a: "chosen s c a" using chosen_exists [OF l assms(2)] ..
  obtain q where q: "steps_to s c a q" using chosen_steps [OF l assms(2) a] ..
  have "decide s c = Inr (fresh_decision (step_transition s c a q))"
    using iffD2 [OF find_fresh assms(3)] chosen_decision [OF l assms(2) a q] by (simp add: decide_def)
  with that a q submit_fresh [OF assms a q] show thesis by blast
qed

lemma chosen_accepts: "ledger_ok p \<Longrightarrow> command_ok c \<Longrightarrow> chosen p c a \<Longrightarrow> accepts p c b \<Longrightarrow> accepts p c a"
proof -
  assume l: "ledger_ok p" "command_ok c" and a: "chosen p c a" and b: "accepts p c b"
  obtain q where "steps_to p c b q" using accepts_steps [OF l b] ..
  then have "decide_fresh_accepted p c = Inr (fresh_decision (step_transition p c b q))"
    using accepts_complete [OF l b] steps_to_decision_of [OF l] by simp
  with a show "accepts p c a" by (auto simp: chosen_def)
qed

text \<open>An accepted branch, submitted.\<close>

lemma accepted_submit:
  assumes s: "state_ok s" and c: "command_ok c" and new: "command_id c \<notin> cr_command_id ` set (s_command_records s)"
    and a: "accepts s c a" and gs: "projected_grants s c (a_grant a) = Inr gs"
  obtains s' where "submit s c = Inr s'" "p_grants s' = gs"
    "p_spent s' = p_spent s + a_spent_delta a" "p_status s' = (if a_freeze_budget a then FROZEN else p_status s)"
    "cr_command_id ` set (s_command_records s') = insert (command_id c) (cr_command_id ` set (s_command_records s))"
proof -
  have l: "ledger_ok s" using s by (simp add: state_ok_def)
  have ch: "chosen s c a" using a accepts_complete [OF l c a] by (simp add: chosen_def)
  obtain q where q: "steps_to s c a q" using accepts_steps [OF l c a] ..
  then have "q = next_projection s a gs" using gs by (auto simp: steps_to_def)
  with that submit_fresh [OF s c new ch q] show thesis by (auto simp: extend_state_def)
qed

lemma accepted_iff:
  assumes "state_ok s" and "command_ok c" and "command_id c \<notin> cr_command_id ` set (s_command_records s)"
    and "decide s c = Inr d"
  shows "decision_accepted d \<longleftrightarrow> (\<exists>a. accepts s c a)"
proof -
  obtain a q where a: "chosen s c a" "steps_to s c a q" and "decide s c = Inr (fresh_decision (step_transition s c a q))"
    using decide_fresh_command [OF assms(1-3)] by blast
  then have d: "d = fresh_decision (step_transition s c a q)" using assms(4) by simp
  have "decision_accepted d \<longleftrightarrow> a_outcome a \<noteq> ''rejected''" by (simp add: decision_accepted_def d)
  moreover have "accepts s c a \<Longrightarrow> a_outcome a \<noteq> ''rejected''" by (rule accepts_outcome)
  moreover have "\<not> accepts s c a \<Longrightarrow> a_outcome a = ''rejected''"
    using a(1) by (auto simp: chosen_def rejected_args_def decision_defaults_def)
  moreover have "(\<exists>b. accepts s c b) \<Longrightarrow> accepts s c a"
    using chosen_accepts [OF _ assms(2) a(1)] assms(1) by (auto simp: state_ok_def)
  ultimately show ?thesis by blast
qed

lemma recoverable_receipt:
  assumes "recoverable c r"
  shows "rejection_from_receipt (receipt_value p c (rejected_args r) after) = Some r"
  using assms
  by (cases r) (auto simp: rejection_from_receipt_def rejected_args_def decision_defaults_def neq_Nil_conv)

section \<open>Grants over time\<close>

lemma submit_keeps_grant:
  assumes s: "state_ok s" and c: "command_ok c" and s': "submit s c = Inr s'" and g: "g \<in> set (p_grants s)"
  shows "\<exists>g'\<in>set (p_grants s'). g' = g \<or> grant_step g g'"
  using submit_grants [OF s c s'] g
proof (elim disjE)
  assume "grants_change c (p_grants s) (p_grants s')"
  then show ?thesis using g by (auto simp: grants_change_def)
qed auto

lemma same_grant_refl [simp]: "same_grant g g"
  by (simp add: same_grant_def)

lemma same_grant_trans: "same_grant g h \<Longrightarrow> same_grant h k \<Longrightarrow> same_grant g k"
  by (auto simp: same_grant_def)

text \<open>\<open>later s s'\<close>: \<open>s'\<close> is reached from \<open>s\<close> by submitted commands.\<close>

inductive later :: "resource_state \<Rightarrow> resource_state \<Rightarrow> bool" for s where
  here: "later s s"
| there: "later s t \<Longrightarrow> command_ok c \<Longrightarrow> submit t c = Inr u \<Longrightarrow> later s u"

lemma later_ok: "later s t \<Longrightarrow> state_ok s \<Longrightarrow> state_ok t"
  by (induction rule: later.induct) (auto intro: submit_Inr_ok)

lemma later_grant:
  assumes "later s t" and "state_ok s" and "g \<in> set (p_grants s)"
  shows "\<exists>g'\<in>set (p_grants t). same_grant g g' \<and> lifecycle\<^sup>*\<^sup>* (g_status g) (g_status g')"
  using assms
proof (induction rule: later.induct)
  case here
  then show ?case by (intro bexI [of _ g]) auto
next
  case (there t c u)
  then obtain h where h: "h \<in> set (p_grants t)" "same_grant g h" "lifecycle\<^sup>*\<^sup>* (g_status g) (g_status h)" by auto
  obtain k where "k \<in> set (p_grants u)" "k = h \<or> grant_step h k"
    using submit_keeps_grant [OF later_ok [OF there(1,5)] there(2,3) h(1)] by auto
  with h show ?case
    by (auto simp: grant_step_def intro: same_grant_trans rtranclp.rtrancl_into_rtrancl)
qed

lemma later_terminal:
  assumes "later s t" and "state_ok s" and "g \<in> set (p_grants s)" and "terminal (g_status g)"
  shows "g \<in> set (p_grants t)"
  using assms
proof (induction rule: later.induct)
  case (there t c u)
  then have "g \<in> set (p_grants t)" by simp
  from submit_grants [OF later_ok [OF there(1,5)] there(2,3)] this there.prems(3)
  show ?case by (auto simp: grants_change_def grant_step_def dest: lifecycle_not_terminal)
qed simp

lemma later_records:
  "later s t \<Longrightarrow> state_ok s \<Longrightarrow> \<exists>recs. s_command_records t = s_command_records s @ recs"
proof (induction rule: later.induct)
  case (there t c u)
  then show ?case using submit_records [OF later_ok [OF there(1,5)] there(2,3)] by auto
qed simp

lemma submit_caps:
  assumes "state_ok s" and "command_ok c" and "submit s c = Inr s'"
  shows "p_hard_caps s' = p_hard_caps s \<and> p_budget_id s' = p_budget_id s \<and> p_scope s' = p_scope s \<and> p_epoch s' = p_epoch s"
  using assms(1,2)
  by (cases rule: submit_cases) (use assms in \<open>auto simp: extend_state_def\<close>)

lemma escrow_step_mono: "escrow_step x y \<Longrightarrow> x_spent x \<le> x_spent y \<and> (x_frozen x \<longrightarrow> x_frozen y) \<and>
    (x_frozen x \<longrightarrow> dom (x_open y) \<subseteq> dom (x_open x)) \<and> x_closed x \<subseteq> x_closed y"
  by (erule escrow_step.cases) auto

lemma later_mono:
  assumes "later s t" and "state_ok s"
  shows "p_spent s \<le> p_spent t \<and> (p_status s = FROZEN \<longrightarrow> p_status t = FROZEN) \<and> p_hard_caps t = p_hard_caps s"
  using assms
proof (induction rule: later.induct)
  case (there t c u)
  note ok = later_ok [OF there(1,5)]
  have "escrow_step\<^sup>=\<^sup>= (escrow_of t) (escrow_of u)" by (rule submit_escrow [OF ok there(2,3)])
  then have "p_spent t \<le> p_spent u \<and> (p_status t = FROZEN \<longrightarrow> p_status u = FROZEN)"
    using escrow_step_mono [of "escrow_of t" "escrow_of u"]
    by (cases "escrow_of t = escrow_of u") (auto dest: arg_cong [of _ _ x_spent] arg_cong [of _ _ x_frozen])
  with there submit_caps [OF ok there(2,3)] show ?case by (auto intro: order_trans)
qed auto

end
