(* ===== verification/Journal_History.thy ===== *)
theory Journal_History
  imports Journal_Store Journal_Codec_Facts Resource_Journal
begin

text \<open>
  What a journal is a record of. A history is a genesis state and the transitions that the kernel
  decided and evolved, with the checkpoint of every state; \<open>rows\<close> it leaves in the tables are read
  back as that history (\<open>load_stored\<close>), and whatever the tables hold, a load that succeeds
  returns a history (\<open>load_history\<close>).
\<close>

abbreviation KERNEL :: functional_kernel where
  "KERNEL \<equiv> DEFAULT_RESOURCE_KERNEL"

lemma default_kernel_simps [simp]: "kernel_decide KERNEL = decide" "kernel_evolve KERNEL = evolve"
  by (simp_all add: fun_eq_iff kernel_decide_def kernel_evolve_def DEFAULT_RESOURCE_KERNEL_def)

section \<open>Commands and transitions read from disk\<close>

text \<open>\<open>yields P r\<close>: if \<open>r\<close> returns, what it returns satisfies \<open>P\<close>.\<close>

definition yields :: "('a \<Rightarrow> bool) \<Rightarrow> 'e + 'a \<Rightarrow> bool" where
  "yields P r \<longleftrightarrow> (\<forall>a. r = Inr a \<longrightarrow> P a)"

lemma yields_intros:
  "(\<And>a. yields P (f a)) \<Longrightarrow> yields P (ebind r f)" "yields P (Inl e)"
  "yields P x \<Longrightarrow> yields P y \<Longrightarrow> yields P (if b then x else y)"
  by (auto simp: yields_def result_simps)

lemma yields_command: "yields command_ok (lift_kernel (mk_command c))"
  by (auto simp: yields_def mk_command_def result_simps check_simps)

lemma command_from_dict_ok: "command_from_dict v = Inr c \<Longrightarrow> command_ok c"
proof -
  have "yields command_ok (command_from_dict v)"
    unfolding command_from_dict_def Let_def by (intro yields_intros yields_command)
  then show "command_from_dict v = Inr c \<Longrightarrow> command_ok c" by (simp add: yields_def)
qed

lemma transition_from_blob_ok: "transition_from_blob blob = Inr t \<Longrightarrow> command_ok (t_command t)"
  by (auto simp: transition_from_blob_def mk_transition_def result_simps intro: command_from_dict_ok)

lemma evolve_submits:
  assumes "evolve s t = Inr s'"
  shows "submit s (t_command t) = Inr s'" and "\<exists>d. decide s (t_command t) = Inr d \<and> d_transitions d = [t]"
  using evolve_Inr_decided [OF assms] assms by (auto simp: submit_def evolve_all_def)

lemma projected_grants_member: "projected_grants p c (Some g) = Inr gs \<Longrightarrow> g \<in> set gs"
  by (auto simp: projected_grants_def replace_first_split split: if_splits option.splits)

lemma step_transition_ok:
  assumes l: "ledger_ok s" and c: "command_ok c" and q: "steps_to s c a q"
  shows "transition_ok (step_transition s c a q)"
proof -
  have "receipt_ok (receipt_value s c a (state_sha256 q))"
    using post_init_receipt_value [of s c "state_sha256 q" a] l c q
    by (simp add: receipt_ok_def ledger_ok_def steps_to_def)
  moreover have "grant_ok g" if "a_grant a = Some g" for g
    using q that projected_grants_member
    by (fastforce simp: steps_to_def ledger_ok_def next_projection_def list_all_iff)
  ultimately show ?thesis
    using c by (simp add: transition_ok_def step_transition_def post_init_transition_value)
qed

lemma decided_transition_ok:
  assumes s: "state_ok s" and c: "command_ok c" and d: "decide s c = Inr d" and t: "t \<in> set (d_transitions d)"
  shows "transition_ok t"
proof -
  have "find (\<lambda>rec. cr_command_id rec = command_id c) (s_command_records s) = None"
  proof (rule ccontr)
    assume "find (\<lambda>rec. cr_command_id rec = command_id c) (s_command_records s) \<noteq> None"
    then show False using submit_replayed(1) [of c s] d t by (auto split: if_splits)
  qed
  then have "command_id c \<notin> cr_command_id ` set (s_command_records s)" by (simp add: find_fresh)
  then obtain a q where "steps_to s c a q" "decide s c = Inr (fresh_decision (step_transition s c a q))"
    using decide_fresh_command [OF s c] by blast
  with d t step_transition_ok [OF _ c] s show ?thesis by (auto simp: fresh_decision_def state_ok_def)
qed

lemma evolve_fields:
  assumes "evolve s t = Inr s'"
  shows "p_revision s' = p_revision s + 1" and "p_budget_id s' = p_budget_id s" and "p_scope s' = p_scope s"
    and "p_epoch s' = p_epoch s" and "p_hard_caps s' = p_hard_caps s" and "p_schema_version s' = p_schema_version s"
    and "s_command_records s' = s_command_records s @ [record_of t]"
    and "command_id (t_command t) \<notin> cr_command_id ` set (s_command_records s)"
    and "r_after_state_sha256 (t_receipt t) = state_sha256 s'" and "r_before_state_sha256 (t_receipt t) = state_sha256 s"
    and "r_after_revision (t_receipt t) = p_revision s + 1"
proof -
  obtain p where p: "projection_after s t = Inr p" and v: "validate_transition_against s t = Inr ()"
    and new: "\<not> list_ex (\<lambda>rec. cr_command_id rec = command_id (t_command t)) (s_command_records s)"
    and s': "s' = \<lparr>p_schema_version = p_schema_version s, p_budget_id = p_budget_id s, p_scope = p_scope s,
        p_epoch = p_epoch s, p_revision = p_revision s + 1, p_hard_caps = p_hard_caps s,
        p_spent = p_spent p, p_status = p_status p, p_grants = p_grants p,
        s_command_records = s_command_records s @ [record_of t]\<rparr>"
    using assms by (auto simp: evolve_def mk_state_def result_simps check_simps)
  then show "p_revision s' = p_revision s + 1" "p_budget_id s' = p_budget_id s" "p_scope s' = p_scope s"
    "p_epoch s' = p_epoch s" "p_hard_caps s' = p_hard_caps s" "p_schema_version s' = p_schema_version s"
    "s_command_records s' = s_command_records s @ [record_of t]"
    "command_id (t_command t) \<notin> cr_command_id ` set (s_command_records s)"
    by (auto simp: list_ex_iff)
  have "state_sha256 s' = state_sha256 p"
    using p by (auto simp: s' projection_after_def result_simps state_sha256_def snapshot_sha256_def)
  then show "r_after_state_sha256 (t_receipt t) = state_sha256 s'" "r_before_state_sha256 (t_receipt t) = state_sha256 s"
    "r_after_revision (t_receipt t) = p_revision s + 1"
    using v projection_after_sha [OF p]
    by (auto simp: validate_transition_against_def Let_def result_simps check_simps)
qed

section \<open>Checkpoints of states\<close>

definition commits :: "resource_state \<times> checkpoint \<Rightarrow> resource_transition \<Rightarrow> resource_state \<times> checkpoint \<Rightarrow> bool" where
  "commits before t after \<longleftrightarrow>
     command_ok (t_command t) \<and> evolve (fst before) t = Inr (fst after) \<and>
     checkpoint_for (fst after) (Some (cp_journal_head_sha256 (snd before))) (Some t) = Inr (snd after)"

definition founds :: "string \<Rightarrow> resource_state \<times> checkpoint \<Rightarrow> bool" where
  "founds scope sc \<longleftrightarrow>
     (\<exists>b ep caps. create b scope ep caps = Inr (fst sc)) \<and> checkpoint_for (fst sc) None None = Inr (snd sc)"

lemma checkpoint_for_fields:
  assumes "checkpoint_for s previous t = Inr c"
  shows "cp_scope c = p_scope s" and "cp_budget_id c = p_budget_id s" and "cp_epoch c = p_epoch s"
    and "cp_revision c = p_revision s" and "cp_state_sha256 c = state_sha256 s"
    and "cp_previous_journal_head_sha256 c = previous" and "checkpoint_ok c"
    and "cp_command_id c = map_option (\<lambda>t. command_id (t_command t)) t"
    and "cp_transition_sha256 c = map_option t_transition_sha256 t"
    and "cp_journal_head_sha256 c = sha256_hex (journal_head_preimage (state_budget s) (p_revision s)
           (state_sha256 s) previous (cp_command_id c) (cp_command_sha256 c) (cp_transition_sha256 c)
           (cp_receipt_sha256 c))"
  using assms by (auto simp: checkpoint_for_def mk_checkpoint_def Let_def result_simps check_simps)

text \<open>\<open>history scope hs ts\<close>: the states and checkpoints from genesis on, and the transitions
  between them.\<close>

inductive history :: "string \<Rightarrow> (resource_state \<times> checkpoint) list \<Rightarrow> resource_transition list \<Rightarrow> bool"
  for scope where
  genesis: "founds scope sc \<Longrightarrow> history scope [sc] []"
| commit: "history scope hs ts \<Longrightarrow> commits (last hs) t sc \<Longrightarrow> history scope (hs @ [sc]) (ts @ [t])"

lemma history_length: "history scope hs ts \<Longrightarrow> length hs = Suc (length ts)"
  by (induction rule: history.induct) simp_all

lemma history_not_Nil [dest]: "history scope hs ts \<Longrightarrow> hs \<noteq> []"
  using history_length by fastforce

lemma history_revision:
  "history scope hs ts \<Longrightarrow> i < length hs \<Longrightarrow>
     p_revision (fst (hs ! i)) = int i \<and> cp_revision (snd (hs ! i)) = int i \<and> p_scope (fst (hs ! i)) = scope"
proof (induction arbitrary: i rule: history.induct)
  case (genesis sc)
  then show ?case by (auto simp: founds_def create_Inr checkpoint_for_fields)
next
  case (commit hs ts t sc)
  have "hs \<noteq> []" using commit(1) by auto
  moreover have "p_revision (fst (last hs)) = int (length hs) - 1 \<and> p_scope (fst (last hs)) = scope"
    using commit.IH [of "length hs - 1"] \<open>hs \<noteq> []\<close> history_length [OF commit(1)]
    by (auto simp: last_conv_nth of_nat_diff)
  ultimately show ?case
    using commit by (cases "i < length hs") (auto simp: nth_append commits_def evolve_fields checkpoint_for_fields)
qed

lemma commits_reachable:
  assumes "commits before t after" and "reachable (fst before)"
  shows "reachable (fst after)" and "transition_ok t"
proof -
  have c: "command_ok (t_command t)" and e: "evolve (fst before) t = Inr (fst after)"
    using assms(1) by (auto simp: commits_def)
  show "reachable (fst after)" by (rule reachable.submitted [OF assms(2) c evolve_submits(1) [OF e]])
  obtain d where "decide (fst before) (t_command t) = Inr d" "d_transitions d = [t]"
    using evolve_submits(2) [OF e] by blast
  then show "transition_ok t" using decided_transition_ok [OF reachable_ok [OF assms(2)] c] by auto
qed

lemma last_member: "history scope hs ts \<Longrightarrow> last hs \<in> set hs"
  by (auto dest!: history_not_Nil)

lemma history_induct_members:
  assumes "history scope hs ts" and "\<And>sc. founds scope sc \<Longrightarrow> P sc"
    and "\<And>hs ts t sc. history scope hs ts \<Longrightarrow> \<forall>x\<in>set hs. P x \<Longrightarrow> P (last hs) \<Longrightarrow> commits (last hs) t sc \<Longrightarrow> P sc"
  shows "\<forall>x\<in>set hs. P x"
  using assms(1)
proof (induction rule: history.induct)
  case (commit hs ts t sc)
  then show ?case using assms(3) [OF commit(1) commit.IH _ commit(2)] last_member [OF commit(1)] by auto
qed (simp add: assms(2))

lemma history_reachable: "history scope hs ts \<Longrightarrow> sc \<in> set hs \<Longrightarrow> reachable (fst sc)"
  by (drule history_induct_members [where P = "\<lambda>sc. reachable (fst sc)"])
    (auto simp: founds_def intro: reachable.created commits_reachable(1))

lemma history_last:
  assumes "history scope hs ts"
  shows "p_revision (fst (last hs)) = int (length ts)" and "p_scope (fst (last hs)) = scope"
    and "cp_revision (snd (last hs)) = int (length ts)" and "reachable (fst (last hs))"
  using history_revision [OF assms, of "length ts"] history_length [OF assms]
    history_reachable [OF assms last_member [OF assms]] last_conv_nth [OF history_not_Nil [OF assms]]
  by simp_all

lemma history_checkpoint_ok: "history scope hs ts \<Longrightarrow> sc \<in> set hs \<Longrightarrow> checkpoint_ok (snd sc)"
  by (induction rule: history.induct) (auto simp: founds_def commits_def dest: checkpoint_for_fields(7))

lemma commits_budget: "commits before t after \<Longrightarrow> state_budget (fst after) = state_budget (fst before)"
  by (auto simp: commits_def evolve_fields state_budget_def)

lemma history_budget: "history scope hs ts \<Longrightarrow> sc \<in> set hs \<Longrightarrow> state_budget (fst sc) = state_budget (fst (hd hs))"
proof (induction arbitrary: sc rule: history.induct)
  case (commit hs ts t sc')
  have "state_budget (fst (last hs)) = state_budget (fst (hd hs))" by (rule commit.IH [OF last_member [OF commit(1)]])
  then have "state_budget (fst sc') = state_budget (fst (hd hs))" by (simp only: commits_budget [OF commit(2)])
  moreover have "hd (hs @ [sc']) = hd hs" using history_not_Nil [OF commit(1)] by simp
  ultimately show ?case using commit.IH [of sc] commit.prems by (cases "sc = sc'") simp_all
qed simp

lemma history_identity:
  "history scope hs ts \<Longrightarrow> sc \<in> set hs \<Longrightarrow>
     cp_scope (snd sc) = scope \<and> cp_budget_id (snd sc) = p_budget_id (fst sc) \<and> cp_epoch (snd sc) = p_epoch (fst sc) \<and>
     cp_state_sha256 (snd sc) = state_sha256 (fst sc)"
proof (induction rule: history.induct)
  case (genesis sc')
  then show ?case by (auto simp: founds_def create_Inr checkpoint_for_fields)
next
  case (commit hs ts t sc')
  then show ?case
    using history_last(2) [OF commit(1)] by (auto simp: commits_def evolve_fields checkpoint_for_fields)
qed

lemma history_founds: "history scope hs ts \<Longrightarrow> founds scope (hd hs)"
  by (induction rule: history.induct) (auto simp: hd_append)

lemma history_scope_ok: "history scope hs ts \<Longrightarrow> identifier_ok scope"
  using history_founds by (auto simp: founds_def create_Inr)

section \<open>The rows of a history\<close>

definition history_rows :: "string \<Rightarrow> (resource_state \<times> checkpoint) list \<Rightarrow> resource_transition list \<Rightarrow> journal_row list" where
  "history_rows scope hs ts =
     map (\<lambda>i. transition_row scope (fst (hs ! Suc i)) (snd (hs ! i)) (snd (hs ! Suc i)) (ts ! i)) [0..<length ts]"

definition history_head :: "string \<Rightarrow> (resource_state \<times> checkpoint) list \<Rightarrow> head_row" where
  "history_head scope hs =
     (let blob = budget_blob (state_budget (fst (hd hs))); (s, c) = last hs in
      \<lparr>h_scope = scope, h_budget_id = p_budget_id s, h_epoch = p_epoch s, h_budget_blob = blob,
       h_budget_sha256 = sha256_hex blob, h_revision = p_revision s, h_state_sha256 = state_sha256 s,
       h_journal_head_sha256 = cp_journal_head_sha256 c\<rparr>)"

definition history_outbox :: "string \<Rightarrow> (resource_state \<times> checkpoint) list \<Rightarrow> anchor_status list \<Rightarrow> outbox_row list" where
  "history_outbox scope hs sts =
     map (\<lambda>i. intent_row scope (int i) (snd (hs ! i)) (sts ! i)) [0..<length hs]"

lemma history_rows_snoc:
  assumes "length hs = Suc (length ts)"
  shows "history_rows scope (hs @ [sc]) (ts @ [t]) =
    history_rows scope hs ts @ [transition_row scope (fst sc) (snd (last hs)) (snd sc) t]"
proof -
  have "hs \<noteq> []" using assms by auto
  then show ?thesis using assms by (simp add: history_rows_def nth_append last_conv_nth)
qed

lemma replay_row_commits:
  assumes "commits before t after" and "reachable (fst before)"
  shows "replay_row KERNEL before (p_revision (fst after))
    (transition_row scope (fst after) (snd before) (snd after) t) = Inr after"
proof -
  have e: "evolve (fst before) t = Inr (fst after)"
    and c: "checkpoint_for (fst after) (Some (cp_journal_head_sha256 (snd before))) (Some t) = Inr (snd after)"
    using assms(1) by (auto simp: commits_def)
  have "transition_from_blob (transition_blob t) = Inr t"
    by (rule transition_blob_read [OF commits_reachable(2) [OF assms]])
  then show ?thesis
    by (simp add: replay_row_def transition_row_def e c evolve_fields [OF e])
qed

lemma replay_rows_append:
  "replay_rows k b n (xs @ ys) =
     ebind (replay_rows k b n xs) (\<lambda>l.
     ebind (replay_rows k (last (b # l)) (n + int (length xs)) ys) (\<lambda>r. Inr (l @ r)))"
proof (induction xs arbitrary: b n)
  case Nil
  show ?case by (cases "replay_rows k b n ys") auto
next
  case (Cons x xs)
  show ?case
    by (cases "replay_row k b n x") (auto simp: Cons.IH ebind_assoc ac_simps ebind_def split: sum.splits)
qed

lemma history_replays:
  "history scope hs ts \<Longrightarrow> replay_rows KERNEL (hd hs) 1 (history_rows scope hs ts) = Inr (tl hs)"
proof (induction rule: history.induct)
  case (commit hs ts t sc)
  have n: "hs \<noteq> []" "p_revision (fst sc) = 1 + int (length ts)"
    using commit(1,2) history_last(1) [OF commit(1)] by (auto simp: commits_def evolve_fields)
  have "replay_row KERNEL (last hs) (1 + int (length ts))
      (transition_row scope (fst sc) (snd (last hs)) (snd sc) t) = Inr sc"
    using replay_row_commits [OF commit(2) history_last(4) [OF commit(1)]] n by simp
  moreover have "length (history_rows scope hs ts) = length ts" by (simp add: history_rows_def)
  moreover have "last (hd hs # tl hs) = last hs" using n(1) by simp
  ultimately show ?case
    using commit n by (simp add: history_rows_snoc history_length replay_rows_append del: last.simps)
qed (simp add: history_rows_def)

section \<open>A loaded journal is a history\<close>

lemma replay_row_Inr:
  assumes "replay_row KERNEL before n row = Inr after"
  shows "\<exists>t. commits before t after"
proof -
  obtain t s where t: "transition_from_blob (jr_transition_blob row) = Inr t" "evolve (fst before) t = Inr s"
    and c: "checkpoint_for s (Some (cp_journal_head_sha256 (snd before))) (Some t) = Inr (snd after)" "fst after = s"
    using assms by (auto simp: replay_row_def Let_def result_simps split: prod.splits)
  with transition_from_blob_ok show ?thesis by (auto simp: commits_def)
qed

lemma replay_rows_Inr:
  "replay_rows KERNEL before n rows = Inr l \<Longrightarrow> history scope (hs @ [before]) ts \<Longrightarrow>
     \<exists>ts'. history scope (hs @ before # l) ts'"
proof (induction rows arbitrary: before n l hs ts)
  case (Cons row rows)
  then obtain after rest where a: "replay_row KERNEL before n row = Inr after" and
    r: "replay_rows KERNEL after (n + 1) rows = Inr rest" "l = after # rest"
    by (auto simp: result_simps)
  obtain t where "commits before t after" using replay_row_Inr [OF a] by blast
  then have "history scope ((hs @ [before]) @ [after]) (ts @ [t])" by (intro history.commit [OF Cons.prems(2)]) simp
  with Cons.IH [OF r(1), of "hs @ [before]"] r(2) show ?case by simp
qed auto

definition loaded_of :: "(resource_state \<times> checkpoint) list \<Rightarrow> anchor_status list \<Rightarrow> loaded_journal" where
  "loaded_of hs sts =
     \<lparr>ld_state = fst (last hs), ld_states = map fst hs, ld_checkpoints = map snd hs, ld_anchor_statuses = sts\<rparr>"

lemma loaded_of_simps [simp]:
  "ld_state (loaded_of hs sts) = fst (last hs)" "ld_states (loaded_of hs sts) = map fst hs"
  "ld_checkpoints (loaded_of hs sts) = map snd hs" "ld_anchor_statuses (loaded_of hs sts) = sts"
  by (simp_all add: loaded_of_def)

lemma map_result_length: "map_result f xs = Inr ys \<Longrightarrow> length ys = length xs"
  by (induction xs arbitrary: ys) (auto simp: result_simps)

text \<open>Whatever bytes the tables hold.\<close>

lemma load_history:
  assumes "load_connection KERNEL db scope am = Inr (Some l)"
  obtains hs ts sts where "history scope hs ts" and "l = loaded_of hs sts" and "length sts = length hs"
proof -
  obtain head origin where g: "load_genesis head scope = Inr origin" and
    rest: "ebind (load_replay KERNEL db scope head origin) (\<lambda>history.
         ebind (load_outbox db scope (p_revision (fst (last history))) (map snd history)) (\<lambda>statuses.
         Inr (Some (loaded_of history statuses)))) = Inr (Some l)"
    using assms unfolding load_connection_def loaded_of_def Let_def
    by (auto simp: result_simps split: option.splits if_splits)
  obtain hs sts where hs: "load_replay KERNEL db scope head origin = Inr hs"
    and outbox: "load_outbox db scope (p_revision (fst (last hs))) (map snd hs) = Inr sts"
    and l: "l = loaded_of hs sts"
    using rest by (auto simp: result_simps)
  have "(\<exists>b ep caps. create b scope ep caps = Inr (fst origin)) \<and> checkpoint_for (fst origin) None None = Inr (snd origin)"
    using g unfolding load_genesis_def
    by (auto simp: result_simps raise_if_Inr) blast
  then have "founds scope origin" by (simp add: founds_def)
  then have start: "history scope ([] @ [origin]) []" by (simp add: history.genesis)
  obtain replayed rows where "replay_rows KERNEL origin 1 rows = Inr replayed" "hs = origin # replayed"
    using hs by (auto simp: load_replay_def Let_def result_simps case_prod_beta)
  with replay_rows_Inr [OF _ start] obtain ts where h: "history scope hs ts" by fastforce
  obtain rows where "map ob_revision rows = [0..p_revision (fst (last hs))]"
    "map_result (read_outbox_row (map snd hs)) rows = Inr sts"
    using outbox by (auto simp: load_outbox_def Let_def result_simps check_simps)
  then have "length sts = length [0..p_revision (fst (last hs))]" by (metis map_result_length length_map)
  then show thesis using that [OF h l] history_last(1) [OF h] history_length [OF h] by simp
qed

section \<open>The tables of a journal\<close>

text \<open>The rows of one scope, and what they are when its journal records \<open>hs\<close>, \<open>ts\<close> and \<open>sts\<close>.\<close>

definition view :: "database \<Rightarrow> string \<Rightarrow> head_row list \<times> journal_row list \<times> outbox_row list" where
  "view db scope =
     (filter (\<lambda>h. h_scope h = scope) (db_heads db), filter (\<lambda>r. jr_scope r = scope) (db_journal db),
      filter (\<lambda>r. ob_scope r = scope) (db_outbox db))"

definition stored :: "database \<Rightarrow> string \<Rightarrow> (resource_state \<times> checkpoint) list \<Rightarrow> resource_transition list \<Rightarrow>
    anchor_status list \<Rightarrow> bool" where
  "stored db scope hs ts sts \<longleftrightarrow>
     history scope hs ts \<and> length sts = length hs \<and>
     view db scope = ([history_head scope hs], history_rows scope hs ts, history_outbox scope hs sts)"

definition absent :: "database \<Rightarrow> string \<Rightarrow> bool" where
  "absent db scope \<longleftrightarrow> view db scope = ([], [], [])"

lemma find_filter: "find p xs = (case filter p xs of [] \<Rightarrow> None | x # _ \<Rightarrow> Some x)"
  by (induction xs) auto

lemma history_rows_revisions:
  "history scope hs ts \<Longrightarrow> map jr_revision (history_rows scope hs ts) = map (\<lambda>i. 1 + int i) [0..<length ts]"
  using history_revision [of scope hs ts] history_length [of scope hs ts]
  by (simp add: history_rows_def transition_row_def)

lemma length_history_rows: "length (history_rows scope hs ts) = length ts"
  by (simp add: history_rows_def)

lemma sorted_shifted: "sorted (map (\<lambda>i. k + int i) [0..<n])"
  by (simp add: sorted_iff_nth_mono)

lemma sort_history_rows: "history scope hs ts \<Longrightarrow> sort_key jr_revision (history_rows scope hs ts) = history_rows scope hs ts"
  by (rule sort_key_id_if_sorted) (simp only: history_rows_revisions sorted_shifted)

lemma history_outbox_revisions: "map ob_revision (history_outbox scope hs sts) = map int [0..<length hs]"
  by (simp add: history_outbox_def intent_row_def)

lemma sort_history_outbox: "sort_key ob_revision (history_outbox scope hs sts) = history_outbox scope hs sts"
  by (rule sort_key_id_if_sorted) (simp add: history_outbox_revisions sorted_iff_nth_mono)

lemma map_int_upt: "map int [0..<n] = [0..int n - 1]"
  by (induction n) (simp_all add: upto_rec2)

lemma require_identifier_ok: "identifier_ok v \<Longrightarrow> require_journal_identifier v l = Inr ()"
  by (simp add: require_Inr)

lemma checkpoint_blob_read: "checkpoint_ok c \<Longrightarrow> checkpoint_from_blob (checkpoint_blob c) = Inr c"
proof -
  assume c: "checkpoint_ok c"
  obtain kvs where k: "canonical (JObj (checkpoint_items c)) = JObj kvs" and r: "reread (checkpoint_items c) kvs"
    by (rule canonical_reread [of "checkpoint_items c"]) (simp add: checkpoint_items_def)
  have "decode_canonical_blob (checkpoint_blob c) ''anchor checkpoint'' = Inr kvs"
    using decode_canonical_blob_bytes [OF _ k] checkpoint_keys_ok [of c]
    by (simp add: checkpoint_blob_def checkpoint_to_dict_def)
  with checkpoint_from_dict_Inr [OF r c] show ?thesis by (simp add: checkpoint_from_blob_def)
qed

lemma anchor_status_of_value [simp]: "anchor_status_of (anchor_status_value st) = Inr st"
  by (cases st) (simp_all add: anchor_status_of_def)

lemma read_intent_row:
  "checkpoint_ok c \<Longrightarrow> checkpoints ! i = c \<Longrightarrow> read_outbox_row checkpoints (intent_row scope (int i) c st) = Inr st"
  by (simp add: read_outbox_row_def intent_row_def checkpoint_blob_read)

lemma map_result_map: "(\<And>x. x \<in> set xs \<Longrightarrow> f (g x) = Inr (h x)) \<Longrightarrow> map_result f (map g xs) = Inr (map h xs)"
  by (induction xs) simp_all

lemma load_stored:
  assumes "stored db scope hs ts sts"
  shows "load_connection KERNEL db scope am = Inr (Some (loaded_of hs sts))"
proof -
  have h: "history scope hs ts" and n: "length sts = length hs" and
    f: "filter (\<lambda>h. h_scope h = scope) (db_heads db) = [history_head scope hs]"
     "filter (\<lambda>r. jr_scope r = scope) (db_journal db) = history_rows scope hs ts"
     "filter (\<lambda>r. ob_scope r = scope) (db_outbox db) = history_outbox scope hs sts"
    using assms by (auto simp: stored_def view_def)
  obtain b ep caps where g: "create b scope ep caps = Inr (fst (hd hs))" "checkpoint_for (fst (hd hs)) None None = Inr (snd (hd hs))"
    using history_founds [OF h] by (auto simp: founds_def)
  have l: "state_budget (fst (last hs)) = state_budget (fst (hd hs))" by (rule history_budget [OF h last_member [OF h]])
  have "budget_from_blob (budget_blob (state_budget (fst (hd hs)))) = Inr (state_budget (fst (hd hs)))"
    using g(1) by (intro budget_roundtrip) (auto simp: budget_ok_def post_init_budget_Inr create_Inr state_budget_def)
  moreover have "create (p_budget_id (fst (hd hs))) (p_scope (fst (hd hs))) (p_epoch (fst (hd hs))) (p_hard_caps (fst (hd hs))) =
      Inr (fst (hd hs))" "p_scope (fst (hd hs)) = scope"
    using g(1) by (auto simp: create_Inr)
  ultimately have "load_genesis (history_head scope hs) scope = Inr (hd hs)"
    using g(2) l by (simp add: load_genesis_def history_head_def state_budget_def case_prod_beta Let_def)
  moreover have "load_replay KERNEL db scope (history_head scope hs) (hd hs) = Inr hs"
    using history_not_Nil [OF h] history_last(1) [OF h] history_replays [OF h] sort_history_rows [OF h]
    by (simp add: load_replay_def f(2) history_head_def case_prod_beta Let_def length_history_rows del: last.simps)
  moreover have "load_outbox db scope (p_revision (fst (last hs))) (map snd hs) = Inr sts"
  proof -
    have "map_result (read_outbox_row (map snd hs)) (history_outbox scope hs sts) = Inr (map (\<lambda>i. sts ! i) [0..<length hs])"
      unfolding history_outbox_def
      by (intro map_result_map read_intent_row) (auto intro: history_checkpoint_ok [OF h])
    moreover have "map (\<lambda>i. sts ! i) [0..<length hs] = sts" using map_nth [of sts] n by simp
    moreover have "map ob_revision (history_outbox scope hs sts) = [0..p_revision (fst (last hs))]"
      unfolding history_outbox_revisions map_int_upt using history_last(1) [OF h] history_length [OF h] by simp
    ultimately show ?thesis by (simp add: load_outbox_def f(3) sort_history_outbox)
  qed
  ultimately show ?thesis
    using history_scope_ok [OF h]
    by (simp add: load_connection_def find_filter f(1) require_identifier_ok loaded_of_def)
qed

lemma load_absent: "absent db scope \<Longrightarrow> identifier_ok scope \<Longrightarrow> load_connection KERNEL db scope True = Inr None"
  by (simp add: load_connection_def absent_def view_def find_filter require_identifier_ok)

end
