(* ===== verification/Journal_Steps.thy ===== *)
theory Journal_Steps
  imports Journal_History
begin

text \<open>
  The effect of each operation of the journal on the tables of its scope. A committed transition
  extends the history by one state and leaves the rows of every other scope alone; a confirmation
  changes one status; nothing else changes what a load returns.
\<close>

section \<open>Inserts and updates, scope by scope\<close>

lemma insert_Inr:
  "insert_head r db = Inr db' \<Longrightarrow> db' = db\<lparr>db_heads := db_heads db @ [r]\<rparr>"
  "insert_journal jr db = Inr db' \<Longrightarrow> db' = db\<lparr>db_journal := db_journal db @ [jr]\<rparr>"
  "insert_outbox ob db = Inr db' \<Longrightarrow> db' = db\<lparr>db_outbox := db_outbox db @ [ob]\<rparr>"
  by (auto simp: insert_head_def insert_journal_def insert_outbox_def result_simps)

lemma filter_map_key: "(\<And>x. key (f x) = key x) \<Longrightarrow> filter (\<lambda>x. key x = k) (map f xs) = map f (filter (\<lambda>x. key x = k) xs)"
  by (induction xs) auto

lemma filter_hit: "(\<And>x. hit x \<Longrightarrow> key x = k) \<Longrightarrow> filter hit xs = filter hit (filter (\<lambda>x. key x = k) xs)"
  by (induction xs) auto

lemma update_head_view:
  "view (snd (update_head scope s c s' c' db)) scope' =
     (map (\<lambda>h. if h_scope h = scope \<and> h_revision h = p_revision s \<and> h_state_sha256 h = state_sha256 s \<and>
                h_journal_head_sha256 h = cp_journal_head_sha256 c
             then h\<lparr>h_revision := p_revision s', h_state_sha256 := state_sha256 s',
                    h_journal_head_sha256 := cp_journal_head_sha256 c'\<rparr>
             else h) (fst (view db scope')), snd (view db scope'))"
  by (simp add: update_head_def view_def Let_def filter_map_key)

lemma history_head_fields [simp]:
  "h_scope (history_head scope hs) = scope" "h_revision (history_head scope hs) = p_revision (fst (last hs))"
  "h_state_sha256 (history_head scope hs) = state_sha256 (fst (last hs))"
  "h_journal_head_sha256 (history_head scope hs) = cp_journal_head_sha256 (snd (last hs))"
  by (simp_all add: history_head_def case_prod_beta Let_def)

lemma history_head_snoc:
  assumes "history scope hs ts" and "commits (last hs) t (s', c')"
  shows "history_head scope (hs @ [(s', c')]) =
    (history_head scope hs)\<lparr>h_revision := p_revision s', h_state_sha256 := state_sha256 s',
       h_journal_head_sha256 := cp_journal_head_sha256 c'\<rparr>"
  using assms(2) history_not_Nil [OF assms(1)]
  by (auto simp: history_head_def commits_def evolve_fields case_prod_beta Let_def)

lemma history_outbox_snoc:
  assumes "length sts = length hs"
  shows "history_outbox scope (hs @ [(s', c')]) (sts @ [st]) =
    history_outbox scope hs sts @ [intent_row scope (int (length hs)) c' st]"
  using assms by (simp add: history_outbox_def nth_append)

section \<open>A committed transition\<close>

lemma loaded_checkpoint: "history scope hs ts \<Longrightarrow> ld_checkpoint (loaded_of hs sts) = snd (last hs)"
  using history_last(1) [of scope hs ts] history_length [of scope hs ts]
  by (simp add: ld_checkpoint_def last_conv_nth history_not_Nil)

lemma commit_stored:
  assumes st: "stored db scope hs ts sts" and c: "command_ok (t_command t)"
    and d: "d_transitions decision = [t]"
    and ct: "commit_transition KERNEL scope (loaded_of hs sts) decision db = Inr (dd, db')"
  shows "stored db' scope (hs @ [(dd_state dd, dd_checkpoint dd)]) (ts @ [t]) (sts @ [PENDING])"
    and "evolve (fst (last hs)) t = Inr (dd_state dd)" and "dd_decision dd = decision"
    and "scope' \<noteq> scope \<Longrightarrow> view db' scope' = view db scope'"
proof -
  have h: "history scope hs ts" and n: "length sts = length hs"
    and v: "view db scope = ([history_head scope hs], history_rows scope hs ts, history_outbox scope hs sts)"
    using st by (auto simp: stored_def)
  let ?s = "fst (last hs)" and ?c = "snd (last hs)" and ?s' = "dd_state dd" and ?c' = "dd_checkpoint dd"
  obtain db1 where e: "evolve ?s t = Inr ?s'"
    and cp: "checkpoint_for ?s' (Some (cp_journal_head_sha256 ?c)) (Some t) = Inr ?c'"
    and db1: "insert_journal (transition_row scope ?s' ?c ?c' t) db = Inr db1"
    and db': "insert_outbox (intent_row scope (p_revision ?s') ?c' PENDING) (snd (update_head scope ?s ?c ?s' ?c' db1)) = Inr db'"
    and dd: "dd_decision dd = decision"
    using ct d
    by (auto simp: commit_transition_def Let_def loaded_checkpoint [OF h] result_simps case_prod_beta)
  show "evolve ?s t = Inr ?s'" "dd_decision dd = decision" by (fact e, fact dd)
  have m: "commits (last hs) t (?s', ?c')" by (simp add: commits_def c e cp)
  then have "history scope (hs @ [(?s', ?c')]) (ts @ [t])" by (rule history.commit [OF h])
  moreover have r: "p_revision ?s' = int (length hs)"
    using evolve_fields(1) [OF e] history_last(1) [OF h] history_length [OF h] by simp
  have "view db1 x = (fst (view db x),
      fst (snd (view db x)) @ (if x = scope then [transition_row scope ?s' ?c ?c' t] else []), snd (snd (view db x)))" for x
    using insert_Inr(2) [OF db1] by (simp add: view_def transition_row_def)
  moreover have "view db' x = (let (h, j, ob) = view (snd (update_head scope ?s ?c ?s' ?c' db1)) x in
      (h, j, ob @ (if x = scope then [intent_row scope (p_revision ?s') ?c' PENDING] else [])))" for x
    using insert_Inr(3) [OF db'] by (simp add: view_def intent_row_def)
  moreover have "h_scope h = x" if "h \<in> set (fst (view db x))" for h x using that by (auto simp: view_def)
  ultimately show "stored db' scope (hs @ [(?s', ?c')]) (ts @ [t]) (sts @ [PENDING])"
    and "scope' \<noteq> scope \<Longrightarrow> view db' scope' = view db scope'"
    using n v r
    by (auto simp: stored_def update_head_view history_head_snoc [OF h m] history_rows_snoc history_length [OF h]
        history_outbox_snoc case_prod_beta Let_def intro!: prod_eqI map_idI)
qed

section \<open>A founded journal\<close>

lemma founded_stored:
  assumes ab: "absent db scope" and f: "founds scope (s, c)"
    and ins: "insert_head (fst (genesis_rows s c)) db = Inr db1" "insert_outbox (snd (genesis_rows s c)) db1 = Inr db2"
  shows "stored db2 scope [(s, c)] [] [PENDING]" and "scope' \<noteq> scope \<Longrightarrow> view db2 scope' = view db scope'"
proof -
  have p: "p_scope s = scope" "p_revision s = 0" using f by (auto simp: founds_def create_Inr)
  then have g: "genesis_rows s c = (history_head scope [(s, c)], intent_row scope 0 c PENDING)"
    by (simp add: genesis_rows_def history_head_def Let_def)
  have "db2 = db\<lparr>db_heads := db_heads db @ [history_head scope [(s, c)]],
      db_outbox := db_outbox db @ [intent_row scope 0 c PENDING]\<rparr>"
    using insert_Inr(1) [OF ins(1)] insert_Inr(3) [OF ins(2)] by (simp add: g)
  then have "view db2 x = (let (h, j, ob) = view db x in
      (h @ (if x = scope then [history_head scope [(s, c)]] else []), j,
       ob @ (if x = scope then [intent_row scope 0 c PENDING] else [])))" for x
    by (simp add: view_def intent_row_def)
  then show "stored db2 scope [(s, c)] [] [PENDING]" and "scope' \<noteq> scope \<Longrightarrow> view db2 scope' = view db scope'"
    using ab history.genesis [OF f]
    by (auto simp: stored_def absent_def history_rows_def history_outbox_def split: prod.splits)
qed

section \<open>Confirmations\<close>

lemma mark_confirmed_view:
  "view (w_database (snd (mark_confirmed scope revision w))) scope' =
     (let (h, j, ob) = view (w_database w) scope' in
      (h, j, map (\<lambda>r. if ob_scope r = scope \<and> ob_revision r = revision \<and> ob_status r = ''PENDING''
                       then r\<lparr>ob_status := ''CONFIRMED''\<rparr> else r) ob))"
  by (simp add: mark_confirmed_def view_def Let_def filter_map_key)

lemma mark_confirmed_anchor [simp]: "w_anchor (snd (mark_confirmed scope revision w)) = w_anchor w"
  by (simp add: mark_confirmed_def Let_def)

lemma anchor_status_value_inject [simp]: "anchor_status_value st = ''PENDING'' \<longleftrightarrow> st = PENDING"
  by (cases st) simp_all

lemma mark_confirmed_stored:
  assumes "stored (w_database w) scope hs ts sts" and "i < length hs"
  shows "stored (w_database (snd (mark_confirmed scope (int i) w))) scope hs ts (sts[i := CONFIRMED])"
proof -
  have "sts[i := CONFIRMED] ! k = (if k = i then CONFIRMED else sts ! k)" if "k < length hs" for k
    using assms that by (auto simp: stored_def nth_list_update)
  then have "map (\<lambda>r. if ob_scope r = scope \<and> ob_revision r = int i \<and> ob_status r = ''PENDING''
        then r\<lparr>ob_status := ''CONFIRMED''\<rparr> else r) (history_outbox scope hs sts) =
      history_outbox scope hs (sts[i := CONFIRMED])"
    by (auto simp: history_outbox_def intent_row_def intro!: map_cong) (metis anchor_status.exhaust anchor_status_value.simps(2))
  then show ?thesis using assms by (simp add: stored_def mark_confirmed_view)
qed

lemma mark_confirmed_other:
  assumes "scope' \<noteq> scope"
  shows "view (w_database (snd (mark_confirmed scope revision w))) scope' = view (w_database w) scope'"
proof -
  have "ob_scope r = scope'" if "r \<in> set (snd (snd (view (w_database w) scope')))" for r
    using that by (auto simp: view_def)
  then show ?thesis
    unfolding mark_confirmed_view using assms by (auto split: prod.splits intro!: map_idI)
qed

text \<open>\<open>upgraded sts sts'\<close>: only confirmations were added.\<close>

definition upgraded :: "anchor_status list \<Rightarrow> anchor_status list \<Rightarrow> bool" where
  "upgraded sts sts' \<longleftrightarrow> length sts' = length sts \<and> (\<forall>i<length sts. sts ! i = CONFIRMED \<longrightarrow> sts' ! i = CONFIRMED)"

lemma upgraded_refl [simp]: "upgraded sts sts"
  by (simp add: upgraded_def)

lemma upgraded_trans: "upgraded sts now \<Longrightarrow> upgraded now fin \<Longrightarrow> upgraded sts fin"
  by (simp add: upgraded_def)

lemma upgraded_update: "upgraded sts sts' \<Longrightarrow> upgraded sts (sts'[i := CONFIRMED])"
  by (cases "i < length sts'") (auto simp: upgraded_def nth_list_update list_update_beyond)

lemma confirm_anchored_stored:
  assumes "stored (w_database w) scope hs ts now" and "upgraded sts now" and "\<forall>r\<in>set rs. 0 \<le> r \<and> r < int (length hs)"
  shows "\<exists>now'. stored (w_database (snd (confirm_anchored scope (loaded_of hs sts) rs w))) scope hs ts now' \<and>
      upgraded sts now' \<and> w_anchor (snd (confirm_anchored scope (loaded_of hs sts) rs w)) = w_anchor w \<and>
      (\<forall>i<length hs. now' ! i = (if int i \<in> set rs then CONFIRMED else now ! i)) \<and>
      (\<forall>scope'. scope' \<noteq> scope \<longrightarrow>
        view (w_database (snd (confirm_anchored scope (loaded_of hs sts) rs w))) scope' = view (w_database w) scope')"
  using assms
proof (induction rs arbitrary: w now)
  case Nil
  then show ?case by (intro exI [of _ now]) simp
next
  case (Cons r rs)
  have n: "length now = length hs" "length sts = length hs" "nat r < length hs" "int (nat r) = r"
    using Cons.prems by (auto simp: stored_def upgraded_def)
  show ?case
  proof (cases "sts ! nat r = PENDING")
    case True
    let ?w1 = "snd (mark_confirmed scope r w)"
    have "stored (w_database ?w1) scope hs ts (now[nat r := CONFIRMED])"
      using mark_confirmed_stored [OF Cons.prems(1) n(3)] n(4) by simp
    from Cons.IH [OF this upgraded_update [OF Cons.prems(2)]] Cons.prems(3)
    obtain now' where u: "stored (w_database (snd (confirm_anchored scope (loaded_of hs sts) rs ?w1))) scope hs ts now'"
      "upgraded sts now'" "w_anchor (snd (confirm_anchored scope (loaded_of hs sts) rs ?w1)) = w_anchor w"
      "\<forall>i<length hs. now' ! i = (if int i \<in> set rs then CONFIRMED else now[nat r := CONFIRMED] ! i)"
      "\<forall>scope'. scope' \<noteq> scope \<longrightarrow> view (w_database (snd (confirm_anchored scope (loaded_of hs sts) rs ?w1))) scope' =
         view (w_database w) scope'"
      by (auto simp: mark_confirmed_other)
    have "snd (confirm_anchored scope (loaded_of hs sts) (r # rs) w) = snd (confirm_anchored scope (loaded_of hs sts) rs ?w1)"
      using True by (simp add: case_prod_beta Let_def)
    moreover have "\<forall>i<length hs. now' ! i = (if int i \<in> set (r # rs) then CONFIRMED else now ! i)"
      using u(4) n by (auto simp: nth_list_update)
    ultimately show ?thesis using u(1,2,3,5) by auto
  next
    case False
    then have "sts ! nat r = CONFIRMED" by (cases "sts ! nat r") auto
    then have "now ! nat r = CONFIRMED" using Cons.prems(2) n by (simp add: upgraded_def)
    moreover from Cons.IH [OF Cons.prems(1,2)] Cons.prems(3)
    obtain now' where u: "stored (w_database (snd (confirm_anchored scope (loaded_of hs sts) rs w))) scope hs ts now'"
      "upgraded sts now'" "w_anchor (snd (confirm_anchored scope (loaded_of hs sts) rs w)) = w_anchor w"
      "\<forall>i<length hs. now' ! i = (if int i \<in> set rs then CONFIRMED else now ! i)"
      "\<forall>scope'. scope' \<noteq> scope \<longrightarrow> view (w_database (snd (confirm_anchored scope (loaded_of hs sts) rs w))) scope' =
         view (w_database w) scope'"
      by auto
    ultimately have "\<forall>i<length hs. now' ! i = (if int i \<in> set (r # rs) then CONFIRMED else now ! i)" using n(4) by auto
    moreover have "confirm_anchored scope (loaded_of hs sts) (r # rs) w = confirm_anchored scope (loaded_of hs sts) rs w"
      using False by simp
    ultimately show ?thesis using u(1,2,3,5) by auto
  qed
qed

end
