(* ===== verification/Journal_Anchor.thy ===== *)
theory Journal_Anchor
  imports Journal_Steps
begin

text \<open>
  The external anchor as an interface, and what the journal keeps with respect to it. The locale
  \<open>trusted_anchor\<close> states what the journal relies on; \<open>consistent\<close> is the invariant of database and
  anchor together, and every operation preserves it, whatever it returns or raises and whatever its
  callbacks raise.
\<close>

section \<open>Agreement of a history with an external head\<close>

definition anchored :: "(resource_state \<times> checkpoint) list \<Rightarrow> anchor_status list \<Rightarrow> checkpoint option \<Rightarrow> bool" where
  "anchored hs sts external \<longleftrightarrow>
     (case external of
        None \<Rightarrow> CONFIRMED \<notin> set sts
      | Some c \<Rightarrow> \<exists>k<length hs. c = snd (hs ! k) \<and> (\<forall>i<length sts. sts ! i = CONFIRMED \<longrightarrow> i \<le> k))"

lemma confirmed_beyond:
  "list_ex (\<lambda>(r, st). int k < r \<and> st = CONFIRMED) (zip [0..int (length sts) - 1] sts) \<longleftrightarrow>
     (\<exists>i<length sts. k < i \<and> sts ! i = CONFIRMED)"
proof -
  have "zip [0..int (length sts) - 1] sts = map (\<lambda>i. (int i, sts ! i)) [0..<length sts]"
    by (rule nth_equalityI) (auto simp flip: map_int_upt)
  then show ?thesis by (auto simp: list_ex_iff)
qed

lemma verify_external_anchored:
  assumes h: "history scope hs ts" and n: "length sts = length hs"
  shows "verify_external (Some (loaded_of hs sts)) external scope = Inr () \<longleftrightarrow> anchored hs sts external"
proof (cases external)
  case None
  then show ?thesis by (simp add: verify_external_def anchored_def check_simps)
next
  case (Some c)
  have rev: "cp_revision (snd (hs ! k)) = int k" if "k < length hs" for k using history_revision [OF h that] by simp
  have id: "cp_scope (snd (hs ! k)) = p_scope (fst (last hs)) \<and> cp_budget_id (snd (hs ! k)) = p_budget_id (fst (last hs)) \<and>
      cp_epoch (snd (hs ! k)) = p_epoch (fst (last hs))" if "k < length hs" for k
    using history_identity [OF h nth_mem [OF that]] history_budget [OF h nth_mem [OF that]]
      history_budget [OF h last_member [OF h]] history_last(2) [OF h] by (simp add: state_budget_def)
  have last: "p_revision (fst (last hs)) = int (length hs) - 1" using history_last(1) [OF h] history_length [OF h] by simp
  show ?thesis
  proof
    assume "verify_external (Some (loaded_of hs sts)) external scope = Inr ()"
    then have c: "cp_revision c \<le> int (length hs) - 1" "map snd hs ! nat (cp_revision c) = c"
      and b: "\<not> list_ex (\<lambda>(r, st). cp_revision c < r \<and> st = CONFIRMED) (zip [0..int (length sts) - 1] sts)"
      using Some last by (auto simp: verify_external_def result_simps check_simps)
    let ?k = "nat (cp_revision c)"
    have k: "?k < length hs" using c(1) history_not_Nil [OF h] by (cases hs) auto
    then have "c = snd (hs ! ?k)" using c(2) by simp
    with rev [OF k] have "cp_revision c = int ?k" by simp
    with b confirmed_beyond [of ?k sts] have "\<not> (\<exists>i<length sts. ?k < i \<and> sts ! i = CONFIRMED)" by metis
    then have "\<forall>i<length sts. sts ! i = CONFIRMED \<longrightarrow> i \<le> ?k" by (meson not_less)
    with \<open>c = snd (hs ! ?k)\<close> k show "anchored hs sts external" by (simp add: anchored_def Some) blast
  next
    assume "anchored hs sts external"
    then obtain k where k: "k < length hs" "c = snd (hs ! k)" "\<forall>i<length sts. sts ! i = CONFIRMED \<longrightarrow> i \<le> k"
      by (auto simp: anchored_def Some)
    with rev [OF k(1)] id [OF k(1)] last confirmed_beyond [of k sts]
    show "verify_external (Some (loaded_of hs sts)) external scope = Inr ()"
      by (auto simp: verify_external_def Some check_simps result_simps not_less)
  qed
qed

text \<open>Database and anchor agree on a scope. When the anchor cannot be read, only the database
  matters.\<close>

definition keeps :: "'a trusted_anchor_store \<Rightarrow> 'a world \<Rightarrow> string \<Rightarrow> (resource_state \<times> checkpoint) list \<Rightarrow>
    resource_transition list \<Rightarrow> bool" where
  "keeps anchor w scope hs ts \<longleftrightarrow>
     (\<exists>sts. stored (w_database w) scope hs ts sts \<and>
        (\<forall>x. an_read anchor (w_anchor w) scope = Inr x \<longrightarrow> anchored hs sts x))"

definition consistent :: "'a trusted_anchor_store \<Rightarrow> 'a world \<Rightarrow> string \<Rightarrow> bool" where
  "consistent anchor w scope \<longleftrightarrow>
     absent (w_database w) scope \<and> (\<forall>x. an_read anchor (w_anchor w) scope = Inr x \<longrightarrow> x = None) \<or>
     (\<exists>hs ts. keeps anchor w scope hs ts)"

text \<open>What an operation on one scope leaves alone.\<close>

definition untouched :: "'a trusted_anchor_store \<Rightarrow> (string \<Rightarrow> 'k) \<Rightarrow> string \<Rightarrow> 'a world \<Rightarrow> 'a world \<Rightarrow> bool" where
  "untouched anchor key scope w w' \<longleftrightarrow>
     (\<forall>s. s \<noteq> scope \<longrightarrow> view (w_database w') s = view (w_database w) s) \<and>
     (\<forall>s. key s \<noteq> key scope \<longrightarrow> an_read anchor (w_anchor w') s = an_read anchor (w_anchor w) s)"

lemma untouched_refl [simp]: "untouched anchor key scope w w"
  by (simp add: untouched_def)

lemma untouched_trans: "untouched anchor key scope w w1 \<Longrightarrow> untouched anchor key scope w1 w2 \<Longrightarrow> untouched anchor key scope w w2"
  by (simp add: untouched_def)

lemma mark_confirmed_untouched: "untouched anchor key scope w (snd (mark_confirmed scope revision w))"
  by (simp add: untouched_def mark_confirmed_other)

lemma untouched_views:
  assumes "untouched anchor key scope w w'" and "key s \<noteq> key scope"
  shows "view (w_database w') s = view (w_database w) s" and "an_read anchor (w_anchor w') s = an_read anchor (w_anchor w) s"
  using assms by (auto simp: untouched_def)

lemma untouched_keeps:
  "untouched anchor key scope w w' \<Longrightarrow> key s \<noteq> key scope \<Longrightarrow> keeps anchor w' s hs ts \<longleftrightarrow> keeps anchor w s hs ts"
  by (simp add: keeps_def stored_def untouched_views)

lemma untouched_consistent:
  "untouched anchor key scope w w' \<Longrightarrow> key s \<noteq> key scope \<Longrightarrow> consistent anchor w' s \<longleftrightarrow> consistent anchor w s"
  by (simp add: consistent_def absent_def untouched_keeps untouched_views)

section \<open>What a decision commits\<close>

lemma decision_kinds:
  assumes s: "state_ok s" and c: "command_ok c" and d: "decide s c = Inr d"
  shows "d_replayed d \<Longrightarrow> submit s c = Inr s" and "\<not> d_replayed d \<Longrightarrow> \<exists>t. d_transitions d = [t] \<and> t_command t = c"
proof -
  have "d_replayed d \<and> d_transitions d = [] \<or> \<not> d_replayed d \<and> (\<exists>t. d_transitions d = [t] \<and> t_command t = c)"
  proof (cases "find (\<lambda>rec. cr_command_id rec = command_id c) (s_command_records s)")
    case None
    then have new: "command_id c \<notin> cr_command_id ` set (s_command_records s)" by (simp add: find_fresh)
    obtain a q where "decide s c = Inr (fresh_decision (step_transition s c a q))"
      by (rule decide_fresh_command [OF s c new])
    with d show ?thesis by (auto simp: fresh_decision_def)
  next
    case (Some rec)
    then show ?thesis using submit_replayed(1) [OF Some] d by (auto split: if_splits)
  qed
  then show "d_replayed d \<Longrightarrow> submit s c = Inr s" and "\<not> d_replayed d \<Longrightarrow> \<exists>t. d_transitions d = [t] \<and> t_command t = c"
    using d by (auto simp: submit_def evolve_all_def)
qed

text \<open>The transaction of \<^verbatim>\<open>apply\<close>: nothing for a replay, one transition otherwise.\<close>

lemma apply_body_stored:
  assumes st: "stored db scope hs ts sts" and c: "command_ok c"
    and b: "apply_body KERNEL scope c er external db = Inr (dd, db')"
  shows "dd_decision dd = d \<Longrightarrow> d_replayed d \<Longrightarrow> db' = db \<and> submit (fst (last hs)) c = Inr (fst (last hs))"
    and "\<not> d_replayed (dd_decision dd) \<Longrightarrow> \<exists>t. stored db' scope (hs @ [(dd_state dd, dd_checkpoint dd)]) (ts @ [t]) (sts @ [PENDING]) \<and>
      submit (fst (last hs)) c = Inr (dd_state dd) \<and> (\<forall>s. s \<noteq> scope \<longrightarrow> view db' s = view db s)"
proof -
  have h: "history scope hs ts" using st by (simp add: stored_def)
  note ok = reachable_ok [OF history_last(4) [OF h]]
  have load: "load_existing KERNEL db scope = Inr (loaded_of hs sts)"
    using load_stored [OF st] by (simp add: load_existing_def)
  obtain d where d: "decide (fst (last hs)) c = Inr d"
    and b': "(if d_replayed d then dd_decision dd = d \<and> db' = db
      else commit_transition KERNEL scope (loaded_of hs sts) d db = Inr (dd, db'))"
    using b load by (auto simp: apply_body_def Let_def result_simps split: if_splits)
  note kinds = decision_kinds [OF ok c d]
  show "\<not> d_replayed (dd_decision dd) \<Longrightarrow> \<exists>t. stored db' scope (hs @ [(dd_state dd, dd_checkpoint dd)]) (ts @ [t]) (sts @ [PENDING]) \<and>
      submit (fst (last hs)) c = Inr (dd_state dd) \<and> (\<forall>s. s \<noteq> scope \<longrightarrow> view db' s = view db s)"
  proof -
    assume n: "\<not> d_replayed (dd_decision dd)"
    then have "\<not> d_replayed d" using b' by auto
    then obtain t where t: "d_transitions d = [t]" "t_command t = c" using kinds(2) by blast
    note cs = commit_stored [OF st _ t(1), of dd db']
    with b' \<open>\<not> d_replayed d\<close> c t d show ?thesis by (auto simp: submit_def evolve_all_def)
  qed
  show "dd_decision dd = d' \<Longrightarrow> d_replayed d' \<Longrightarrow> db' = db \<and> submit (fst (last hs)) c = Inr (fst (last hs))" for d'
  proof (cases "d_replayed d")
    case False
    then obtain t where t: "d_transitions d = [t]" "t_command t = c" using kinds(2) by blast
    have "dd_decision dd = d" using commit_stored(3) [OF st _ t(1)] b' False c t by auto
    then show "dd_decision dd = d' \<Longrightarrow> d_replayed d' \<Longrightarrow> ?thesis" using False by simp
  qed (use kinds(1) b' in auto)
qed

section \<open>Operations as steps\<close>

text \<open>One complete operation of some process on the world: \<^verbatim>\<open>initialize\<close>, \<^verbatim>\<open>apply\<close> or
  \<^verbatim>\<open>reconcile_anchor\<close> by any journal opened on the anchor and the default kernel, returning or raising,
  with any callback (a callback that raises is a crash between the commit and the confirmation).\<close>

inductive journal_step :: "'a trusted_anchor_store \<Rightarrow> string set \<Rightarrow> 'a world \<Rightarrow> 'a world \<Rightarrow> bool"
  for anchor scopes where
  initialized: "open_journal (Some anchor) KERNEL inject = Inr j \<Longrightarrow> p_scope s \<in> scopes \<Longrightarrow>
    journal_initialize j s w = (r, w') \<Longrightarrow> journal_step anchor scopes w w'"
| applied: "open_journal (Some anchor) KERNEL inject = Inr j \<Longrightarrow> scope \<in> scopes \<Longrightarrow> command_ok c \<Longrightarrow>
    journal_apply j scope c er w = (r, w') \<Longrightarrow> journal_step anchor scopes w w'"
| reconciled: "open_journal (Some anchor) KERNEL inject = Inr j \<Longrightarrow> scope \<in> scopes \<Longrightarrow>
    reconcile_anchor j scope f w = (r, w') \<Longrightarrow> journal_step anchor scopes w w'"

lemma open_journal_Inr:
  "open_journal (Some anchor) KERNEL inject = Inr j \<longleftrightarrow>
     j = \<lparr>rj_trusted_anchor = Some anchor, rj_kernel = KERNEL, rj_failure_inject_after_commit = inject\<rparr>"
  by (auto simp: open_journal_def default_kernel_compatible)

lemma keeps_extends: "keeps anchor w s hs ts \<Longrightarrow> \<exists>hs' ts'. keeps anchor w s (hs @ hs') (ts @ ts')"
  by (metis append_Nil2)

section \<open>The interface\<close>

text \<open>What the journal relies on: a compare-and-set that returns has stored its checkpoint, one that
  raises leaves the head alone or the anchor unreadable, and heads of other scopes (by the key under
  which the anchor files them) do not move.\<close>

locale trusted_anchor =
  fixes anchor :: "'a trusted_anchor_store" and key :: "string \<Rightarrow> 'k"
  assumes returned: "an_compare_and_set anchor a e c = (Inr x, a') \<Longrightarrow> checkpoint_ok c \<Longrightarrow>
      x = c \<and> an_read anchor a' (cp_scope c) = Inr (Some c)"
    and raised: "an_compare_and_set anchor a e c = (Inl err, a') \<Longrightarrow> checkpoint_ok c \<Longrightarrow>
      an_read anchor a' (cp_scope c) = an_read anchor a (cp_scope c) \<or> (\<exists>m. an_read anchor a' (cp_scope c) = Inl m)"
    and elsewhere: "an_compare_and_set anchor a e c = (r, a') \<Longrightarrow> checkpoint_ok c \<Longrightarrow> key scope \<noteq> key (cp_scope c) \<Longrightarrow>
      an_read anchor a' scope = an_read anchor a scope"
begin

lemma publish_consistent:
  assumes "publish_pending anchor f scope (loaded_of hs sts) [int k..int (length hs) - 1] e w = (r, w')"
    and "stored (w_database w) scope hs ts now" and "\<forall>i<length hs. now ! i = CONFIRMED \<longrightarrow> i < k"
    and "\<forall>x. an_read anchor (w_anchor w) scope = Inr x \<longrightarrow> anchored hs now x"
  shows "\<exists>now'. stored (w_database w') scope hs ts now' \<and> upgraded now now' \<and>
      (\<forall>x. an_read anchor (w_anchor w') scope = Inr x \<longrightarrow> anchored hs now' x) \<and>
      untouched anchor key scope w w' \<and>
      (r \<in> range Inr \<longrightarrow> (\<forall>i<length hs. k \<le> i \<longrightarrow> now' ! i = CONFIRMED))"
  using assms
proof (induction "length hs - k" arbitrary: k e w now r w')
  case 0
  then have "[int k..int (length hs) - 1] = []" by simp
  with 0 show ?case by (intro exI [of _ now]) auto
next
  case (Suc n)
  then have k: "k < length hs" and n: "n = length hs - Suc k" by simp_all
  have h: "history scope hs ts" and len: "length now = length hs" using Suc.prems(2) by (auto simp: stored_def)
  let ?c = "snd (hs ! k)"
  have ok: "checkpoint_ok ?c" "cp_scope ?c = scope"
    using history_checkpoint_ok [OF h nth_mem [OF k]] history_identity [OF h nth_mem [OF k]] by auto
  have rs: "[int k..int (length hs) - 1] = int k # [int (Suc k)..int (length hs) - 1]"
    using k by (simp add: upto_rec1 add.commute)
  obtain stored_or a where cas: "an_compare_and_set anchor (w_anchor w) e ?c = (stored_or, a)" by force
  let ?w1 = "w\<lparr>w_anchor := a\<rparr>"
  have other: "untouched anchor key scope w ?w1"
    using elsewhere [OF cas ok(1)] ok(2) by (simp add: untouched_def)
  show ?case
  proof (cases stored_or)
    case (Inl err)
    then have "r = Inl err" "w' = ?w1" using Suc.prems(1) cas k by (simp_all add: rs)
    moreover have "\<forall>x. an_read anchor a scope = Inr x \<longrightarrow> anchored hs now x"
      using raised [OF _ ok(1), of "w_anchor w" e err a] cas Inl ok(2) Suc.prems(4) by auto
    ultimately show ?thesis using Suc.prems(2) other by (intro exI [of _ now]) auto
  next
    case (Inr x)
    then have x: "x = ?c" "an_read anchor a scope = Inr (Some ?c)"
      using returned [OF _ ok(1), of "w_anchor w" e x a] cas ok(2) by auto
    have here: "anchored hs now (Some ?c)" using k Suc.prems(3) len by (auto simp: anchored_def intro!: exI [of _ k])
    show ?thesis
    proof (cases "case f of None \<Rightarrow> Inr () | Some g \<Rightarrow> g ?c")
      case (Inl err)
      then have "r = Inl err" "w' = ?w1" using Suc.prems(1) cas Inr x k by (simp_all add: rs Let_def)
      then show ?thesis using Suc.prems(2) other x(2) here by (intro exI [of _ now]) auto
    next
      case (Inr u)
      let ?w2 = "snd (mark_confirmed scope (int k) ?w1)" and ?now = "now[k := CONFIRMED]"
      obtain r2 w3 where p3: "publish_pending anchor f scope (loaded_of hs sts) [int (Suc k)..int (length hs) - 1]
          (Some (cp_journal_head_sha256 ?c)) ?w2 = (r2, w3)" by force
      have w': "w' = w3" and r2: "r \<in> range Inr \<longleftrightarrow> r2 \<in> range Inr"
        using Suc.prems(1) cas \<open>stored_or = Inr x\<close> Inr x k p3
        by (cases r2; auto simp: rs Let_def case_prod_beta)+
      note p = p3 [folded w']
      have "stored (w_database ?w2) scope hs ts ?now"
        using mark_confirmed_stored [of ?w1 scope hs ts now k] Suc.prems(2) k by simp
      moreover have "\<forall>i<length hs. ?now ! i = CONFIRMED \<longrightarrow> i < Suc k"
        using Suc.prems(3) len by (auto simp: nth_list_update less_Suc_eq)
      moreover have "\<forall>x. an_read anchor (w_anchor ?w2) scope = Inr x \<longrightarrow> anchored hs ?now x"
        using x(2) k len Suc.prems(3) by (auto simp: anchored_def nth_list_update intro!: exI [of _ k])
      ultimately obtain now' where u: "stored (w_database w') scope hs ts now'" "upgraded ?now now'"
        "\<forall>x. an_read anchor (w_anchor w') scope = Inr x \<longrightarrow> anchored hs now' x"
        "untouched anchor key scope ?w2 w'"
        "r2 \<in> range Inr \<longrightarrow> (\<forall>i<length hs. Suc k \<le> i \<longrightarrow> now' ! i = CONFIRMED)"
        using Suc.hyps(1) [OF n p, of ?now] by auto
      have "upgraded now now'" 
        using upgraded_trans [OF upgraded_update [OF upgraded_refl] u(2)] .
      moreover have "now' ! k = CONFIRMED" using u(2) k len by (simp add: upgraded_def nth_list_update)
      moreover have "untouched anchor key scope w w'"
        using untouched_trans [OF untouched_trans [OF other mark_confirmed_untouched] u(4)] .
      ultimately show ?thesis
        using u r2 by (intro exI [of _ now']) (auto simp: le_eq_less_or_eq Suc_le_eq)
    qed
  qed
qed

lemma reconcile_stored:
  assumes j: "rj_trusted_anchor j = Some anchor" "rj_kernel j = KERNEL"
    and st: "stored (w_database w) scope hs ts sts" and ext: "\<forall>x. an_read anchor (w_anchor w) scope = Inr x \<longrightarrow> anchored hs sts x"
    and r: "reconcile_anchor j scope f w = (r, w')"
  shows "\<exists>now. stored (w_database w') scope hs ts now \<and> upgraded sts now \<and>
      (\<forall>x. an_read anchor (w_anchor w') scope = Inr x \<longrightarrow> anchored hs now x) \<and> untouched anchor key scope w w' \<and>
      (r \<in> range Inr \<longrightarrow> now = replicate (length hs) CONFIRMED)"
proof (cases "an_read anchor (w_anchor w) scope")
  case (Inl e)
  with r j st ext show ?thesis by (intro exI [of _ sts]) (auto simp: reconcile_anchor_def)
next
  case (Inr external)
  have h: "history scope hs ts" and len: "length sts = length hs" using st by (auto simp: stored_def)
  have last: "p_revision (fst (last hs)) = int (length hs) - 1" using history_last(1) [OF h] history_length [OF h] by simp
  have anc: "anchored hs sts external" using ext Inr by simp
  have load: "load_existing KERNEL (w_database w) scope = Inr (loaded_of hs sts)"
    using load_stored [OF st] by (simp add: load_existing_def)
  obtain k where k: "k \<le> length hs" "(case external of None \<Rightarrow> -1 | Some x \<Rightarrow> cp_revision x) = int k - 1"
    "\<forall>i<length hs. sts ! i = CONFIRMED \<longrightarrow> i < k"
  proof (cases external)
    case None
    with anc len that [of 0] show thesis by (auto simp: anchored_def in_set_conv_nth)
  next
    case (Some c)
    then obtain m where "m < length hs" "c = snd (hs ! m)" "\<forall>i<length sts. sts ! i = CONFIRMED \<longrightarrow> i \<le> m"
      using anc by (auto simp: anchored_def)
    with history_revision [OF h] Some len that [of "Suc m"] show thesis by (auto simp: less_Suc_eq_le)
  qed
  let ?rs = "[0..int k - 1]"
  obtain conf w1 where w1: "confirm_anchored scope (loaded_of hs sts) ?rs w = (conf, w1)" by force
  obtain now where u: "stored (w_database w1) scope hs ts now" "upgraded sts now" "w_anchor w1 = w_anchor w"
    "\<forall>i<length hs. now ! i = (if int i \<in> set ?rs then CONFIRMED else sts ! i)"
    "\<forall>s. s \<noteq> scope \<longrightarrow> view (w_database w1) s = view (w_database w) s"
    using confirm_anchored_stored [OF st upgraded_refl, of ?rs] w1 k(1) by auto
  have u': "untouched anchor key scope w w1" using u(3,5) by (simp add: untouched_def)
  have lenn: "length now = length hs" using u(1) by (simp add: stored_def)
  have upto: "\<forall>i<length hs. now ! i = CONFIRMED \<longleftrightarrow> i < k" using u(4) k(3) by auto
  have "anchored hs now external"
    using anc k upto lenn history_revision [OF h] by (cases external) (auto simp: anchored_def in_set_conv_nth)
  then have ext1: "\<forall>x. an_read anchor (w_anchor w1) scope = Inr x \<longrightarrow> anchored hs now x" using Inr u(3) by simp
  obtain r2 w2 where p: "publish_pending anchor f scope (loaded_of hs sts) [int k..int (length hs) - 1]
      (map_option cp_journal_head_sha256 external) w1 = (r2, w2)" by force
  have "w' = w2" "r \<in> range Inr \<Longrightarrow> r2 \<in> range Inr"
    using r j Inr load w1 p k(2) last verify_external_anchored [OF h len, THEN iffD2, OF anc]
    by (cases r2; auto simp: reconcile_anchor_def Let_def ebind_def split: sum.splits)+
  moreover obtain now' where "stored (w_database w2) scope hs ts now'" "upgraded now now'"
    "\<forall>x. an_read anchor (w_anchor w2) scope = Inr x \<longrightarrow> anchored hs now' x" "untouched anchor key scope w1 w2"
    "r2 \<in> range Inr \<longrightarrow> (\<forall>i<length hs. k \<le> i \<longrightarrow> now' ! i = CONFIRMED)"
    using publish_consistent [OF p u(1) _ ext1] upto by auto
  moreover from this have "now' = replicate (length hs) CONFIRMED" if "r2 \<in> range Inr"
    using that upto lenn by (intro nth_equalityI) (auto simp: upgraded_def not_less)
  moreover have "upgraded sts now'" using upgraded_trans [OF u(2) \<open>upgraded now now'\<close>] .
  ultimately show ?thesis using untouched_trans [OF u'] by blast
qed

text \<open>\<open>apply\<close>: at most one committed transition, the one that \<open>submit\<close> makes, whatever is raised
  after the commit.\<close>

lemma apply_stored:
  assumes j: "rj_trusted_anchor j = Some anchor" "rj_kernel j = KERNEL"
    and st: "stored (w_database w) scope hs ts sts" and ext: "\<forall>x. an_read anchor (w_anchor w) scope = Inr x \<longrightarrow> anchored hs sts x"
    and c: "command_ok c" and r: "journal_apply j scope c er w = (r, w')"
  shows "\<exists>hs' ts' now. stored (w_database w') scope hs' ts' now \<and>
      (\<forall>x. an_read anchor (w_anchor w') scope = Inr x \<longrightarrow> anchored hs' now x) \<and> untouched anchor key scope w w' \<and>
      (hs' = hs \<and> ts' = ts \<or> (\<exists>sc t. hs' = hs @ [sc] \<and> ts' = ts @ [t] \<and> submit (fst (last hs)) c = Inr (fst sc))) \<and>
      (r \<in> range Inr \<longrightarrow> submit (fst (last hs)) c = Inr (fst (last hs')) \<and> now = replicate (length hs') CONFIRMED)"
proof (cases "\<exists>e. r = Inl e \<and> w' = w")
  case True
  with st ext show ?thesis by (intro exI [of _ hs] exI [of _ ts] exI [of _ sts]) auto
next
  case False
  then obtain external where x: "ebind (case er of None \<Rightarrow> Inr ()
        | Some r \<Rightarrow> raise_if (r < 0) (journal_value_error ''expected_revision must be an integer >= 0''))
      (\<lambda>_. external_head j w scope) = Inr external"
    using r by (auto simp: journal_apply_def split: sum.splits)
  with False obtain dd db1 where b: "apply_body KERNEL scope c er external (w_database w) = Inr (dd, db1)"
    using r j by (auto simp: journal_apply_def transaction_def split: sum.splits prod.splits)
  let ?w1 = "w\<lparr>w_database := db1\<rparr>"
  obtain hs' ts' sts' where st': "stored db1 scope hs' ts' sts'" and ext': "\<forall>x. an_read anchor (w_anchor w) scope = Inr x \<longrightarrow> anchored hs' sts' x"
    and v: "\<forall>s. s \<noteq> scope \<longrightarrow> view db1 s = view (w_database w) s"
    and grow: "hs' = hs \<and> ts' = ts \<or> (\<exists>sc t. hs' = hs @ [sc] \<and> ts' = ts @ [t])"
    and sub: "submit (fst (last hs)) c = Inr (fst (last hs'))"
  proof (cases "d_replayed (dd_decision dd)")
    case True
    with apply_body_stored(1) [OF st c b] that [of hs ts sts] st ext show thesis by auto
  next
    case False
    from apply_body_stored(2) [OF st c b this] obtain t where
      t: "stored db1 scope (hs @ [(dd_state dd, dd_checkpoint dd)]) (ts @ [t]) (sts @ [PENDING])"
        "submit (fst (last hs)) c = Inr (dd_state dd)" "\<forall>s. s \<noteq> scope \<longrightarrow> view db1 s = view (w_database w) s" by blast
    have "anchored (hs @ [sc]) (sts @ [PENDING]) x" if "anchored hs sts x" for sc x
    proof (cases x)
      case (Some cp)
      then obtain k where "k < length hs" "cp = snd (hs ! k)" "\<forall>i<length sts. sts ! i = CONFIRMED \<longrightarrow> i \<le> k"
        using \<open>anchored hs sts x\<close> by (auto simp: anchored_def)
      with Some show ?thesis by (auto simp: anchored_def nth_append less_Suc_eq intro!: exI [of _ k])
    qed (use that in \<open>simp add: anchored_def\<close>)
    with that [OF t(1)] t(2,3) ext show thesis by auto
  qed
  have u: "untouched anchor key scope w ?w1" using v by (simp add: untouched_def)
  obtain ri wi where rec: "reconcile_anchor j scope None ?w1 = (ri, wi)" by force
  have cases': "(\<exists>e. r = Inl e) \<and> w' = ?w1 \<or> w' = wi \<and> (r \<in> range Inr \<longrightarrow> ri \<in> range Inr)"
    using r j b rec unfolding journal_apply_def x
    by (auto simp: transaction_def Let_def image_iff ebind_def split: sum.splits if_splits)
  then show ?thesis
  proof
    assume "(\<exists>e. r = Inl e) \<and> w' = ?w1"
    with st' ext' u grow sub show ?thesis by (intro exI [of _ hs'] exI [of _ ts'] exI [of _ sts']) auto
  next
    assume w': "w' = wi \<and> (r \<in> range Inr \<longrightarrow> ri \<in> range Inr)"
    obtain now where "stored (w_database wi) scope hs' ts' now" "\<forall>x. an_read anchor (w_anchor wi) scope = Inr x \<longrightarrow> anchored hs' now x"
      "untouched anchor key scope ?w1 wi" "ri \<in> range Inr \<longrightarrow> now = replicate (length hs') CONFIRMED"
      using reconcile_stored [OF j, of ?w1 scope hs' ts' sts' None ri wi] st' ext' rec by auto
    with w' grow sub untouched_trans [OF u] show ?thesis
      by (intro exI [of _ hs'] exI [of _ ts'] exI [of _ now]) auto
  qed
qed

lemma reconcile_keeps:
  assumes j: "rj_trusted_anchor j = Some anchor" "rj_kernel j = KERNEL" and k: "keeps anchor w scope hs ts"
    and r: "reconcile_anchor j scope f w = (r, w')"
  shows "keeps anchor w' scope hs ts" and "untouched anchor key scope w w'"
  using k reconcile_stored [OF j _ _ r] by (fastforce simp: keeps_def)+

lemma apply_keeps:
  assumes j: "rj_trusted_anchor j = Some anchor" "rj_kernel j = KERNEL" and k: "keeps anchor w scope hs ts"
    and c: "command_ok c" and r: "journal_apply j scope c er w = (r, w')"
  shows "\<exists>hs' ts'. keeps anchor w' scope (hs @ hs') (ts @ ts') \<and> untouched anchor key scope w w'"
proof -
  obtain sts where "stored (w_database w) scope hs ts sts" "\<forall>x. an_read anchor (w_anchor w) scope = Inr x \<longrightarrow> anchored hs sts x"
    using k by (auto simp: keeps_def)
  from apply_stored [OF j this c r] obtain hs' ts' where u: "keeps anchor w' scope hs' ts'" "untouched anchor key scope w w'"
    and grow: "hs' = hs \<and> ts' = ts \<or> (\<exists>sc t. hs' = hs @ [sc] \<and> ts' = ts @ [t])"
    unfolding keeps_def by metis
  from grow show ?thesis
  proof
    assume "hs' = hs \<and> ts' = ts"
    with u show ?thesis by (intro exI [of _ "[]"]) auto
  next
    assume "\<exists>sc t. hs' = hs @ [sc] \<and> ts' = ts @ [t]"
    with u show ?thesis by blast
  qed
qed

text \<open>Without a journal, \<^verbatim>\<open>apply\<close> and \<^verbatim>\<open>reconcile_anchor\<close> raise and do nothing.\<close>

lemma absent_unchanged:
  assumes j: "rj_trusted_anchor j = Some anchor" "rj_kernel j = KERNEL" and a: "absent (w_database w) scope"
  shows "reconcile_anchor j scope f w = (r, w') \<Longrightarrow> w' = w" and "journal_apply j scope c er w = (r', w'') \<Longrightarrow> w'' = w"
proof -
  have "\<exists>e. load_connection KERNEL (w_database w) scope False = Inl e"
    using a by (cases "require_journal_identifier scope ''resource scope''")
      (auto simp: load_connection_def absent_def view_def find_filter)
  then obtain e where e: "load_existing KERNEL (w_database w) scope = Inl e" by (auto simp: load_existing_def)
  then show "reconcile_anchor j scope f w = (r, w') \<Longrightarrow> w' = w"
    using j by (auto simp: reconcile_anchor_def ebind_def split: sum.splits)
  show "journal_apply j scope c er w = (r', w'') \<Longrightarrow> w'' = w"
    using j e by (auto simp: journal_apply_def transaction_def apply_body_def split: sum.splits)
qed

lemma initialize_keeps:
  assumes j: "rj_trusted_anchor j = Some anchor" "rj_kernel j = KERNEL" and k: "consistent anchor w (p_scope s)"
    and r: "journal_initialize j s w = (r, w')"
  shows "consistent anchor w' (p_scope s) \<and> untouched anchor key (p_scope s) w w' \<and>
    (\<forall>hs ts. keeps anchor w (p_scope s) hs ts \<longrightarrow> keeps anchor w' (p_scope s) hs ts)"
proof (cases "w' = w")
  case True
  with k show ?thesis by simp
next
  case False
  let ?scope = "p_scope s"
  obtain external db1 where g: "create (p_budget_id s) ?scope (p_epoch s) (p_hard_caps s) = Inr s"
    and x: "an_read anchor (w_anchor w) ?scope = Inr external"
    and b: "initialize_body KERNEL s external (w_database w) = Inr ((), db1)"
    and rec: "w' = snd (reconcile_anchor j ?scope None (w\<lparr>w_database := db1\<rparr>))"
    using False r j
    by (auto simp: journal_initialize_def external_head_def transaction_def Let_def case_prod_beta result_simps check_simps
        split: sum.splits prod.splits)
  have sc: "identifier_ok ?scope" using g by (simp add: create_Inr)
  let ?w1 = "w\<lparr>w_database := db1\<rparr>"
  have "\<exists>hs ts. keeps anchor ?w1 ?scope hs ts \<and> untouched anchor key ?scope w ?w1 \<and>
      (\<forall>hs' ts'. keeps anchor w ?scope hs' ts' \<longrightarrow> db1 = w_database w)"
  proof (cases "absent (w_database w) ?scope")
    case True
    then obtain c where c: "checkpoint_for s None None = Inr c"
      and ins: "ebind (insert_head (fst (genesis_rows s c)) (w_database w)) (insert_outbox (snd (genesis_rows s c))) = Inr db1"
      using b by (auto simp: initialize_body_def load_absent [OF True sc] case_prod_beta result_simps)
    have f: "founds ?scope (s, c)" using g c by (auto simp: founds_def)
    obtain db0 where "insert_head (fst (genesis_rows s c)) (w_database w) = Inr db0"
      "insert_outbox (snd (genesis_rows s c)) db0 = Inr db1"
      using ins by (auto simp: result_simps)
    note st = founded_stored [OF True f this]
    have nk: "\<not> keeps anchor w ?scope hs' ts'" for hs' ts' using True by (auto simp: keeps_def stored_def absent_def)
    then have "\<forall>x. an_read anchor (w_anchor w) ?scope = Inr x \<longrightarrow> anchored [(s, c)] [PENDING] x"
      using k by (auto simp: consistent_def anchored_def)
    with st(1) have "keeps anchor ?w1 ?scope [(s, c)] []" by (auto simp: keeps_def)
    moreover have "untouched anchor key ?scope w ?w1" using st(2) by (simp add: untouched_def)
    ultimately show ?thesis using nk by blast
  next
    case False
    with k obtain hs ts sts where st: "keeps anchor w ?scope hs ts" "stored (w_database w) ?scope hs ts sts"
      by (auto simp: consistent_def keeps_def)
    then have "db1 = w_database w"
      using b by (auto simp: initialize_body_def load_stored [OF st(2)] result_simps split: if_splits)
    with st(1) show ?thesis by auto
  qed
  then obtain hs ts where w1: "keeps anchor ?w1 ?scope hs ts" "untouched anchor key ?scope w ?w1"
    and same: "\<forall>hs' ts'. keeps anchor w ?scope hs' ts' \<longrightarrow> db1 = w_database w" by blast
  obtain ri where ri: "reconcile_anchor j ?scope None ?w1 = (ri, w')" using rec by (metis prod.collapse)
  note rk = reconcile_keeps [OF j _ ri]
  have "keeps anchor w' ?scope hs' ts'" if "keeps anchor w ?scope hs' ts'" for hs' ts'
  proof -
    have "?w1 = w" using same that by auto
    with rk(1) that show ?thesis by simp
  qed
  with rk [OF w1(1)] untouched_trans [OF w1(2)] show ?thesis by (auto simp: consistent_def)
qed

text \<open>The invariant, over any sequence of operations on scopes that the anchor files apart.\<close>

lemma step_frame:
  assumes inj: "inj_on key scopes" and st: "journal_step anchor scopes w w'" and s: "s \<in> scopes" and k: "\<forall>x\<in>scopes. consistent anchor w x"
  shows "consistent anchor w' s \<and> (\<forall>hs ts. keeps anchor w s hs ts \<longrightarrow> (\<exists>hs' ts'. keeps anchor w' s (hs @ hs') (ts @ ts')))"
proof -
  have goal: ?thesis
    if x: "x \<in> scopes" and u: "untouched anchor key x w w'" and c: "consistent anchor w' x"
      and e: "\<forall>hs ts. keeps anchor w x hs ts \<longrightarrow> (\<exists>hs' ts'. keeps anchor w' x (hs @ hs') (ts @ ts'))" for x
  proof (cases "s = x")
    case False
    then have "key s \<noteq> key x" using inj s x by (auto dest: inj_onD)
    with untouched_keeps [OF u] untouched_consistent [OF u] k s show ?thesis by (metis append_Nil2)
  qed (use c e in simp)
  from st show ?thesis
  proof cases
    case (initialized inject j state r)
    then have j: "rj_trusted_anchor j = Some anchor" "rj_kernel j = KERNEL" by (auto simp: open_journal_Inr)
    from initialize_keeps [OF j _ initialized(3)] k initialized(2) show ?thesis
      by (intro goal [OF initialized(2)]) (auto intro: keeps_extends)
  next
    case (applied inject j x c er r)
    then have j: "rj_trusted_anchor j = Some anchor" "rj_kernel j = KERNEL" by (auto simp: open_journal_Inr)
    show ?thesis
    proof (cases "absent (w_database w) x")
      case True
      then have "w' = w" using absent_unchanged(2) [OF j True applied(4)] by simp
      with k s show ?thesis by (auto intro: keeps_extends)
    next
      case False
      then obtain hs ts where hs: "keeps anchor w x hs ts" using k applied(2) by (auto simp: consistent_def)
      note ak = apply_keeps [OF j _ applied(3,4)]
      have "consistent anchor w' x" "untouched anchor key x w w'" using ak [OF hs] by (auto simp: consistent_def)
      with ak show ?thesis by (intro goal [OF applied(2)]) blast+
    qed
  next
    case (reconciled inject j x f r)
    then have j: "rj_trusted_anchor j = Some anchor" "rj_kernel j = KERNEL" by (auto simp: open_journal_Inr)
    show ?thesis
    proof (cases "absent (w_database w) x")
      case True
      then have "w' = w" using absent_unchanged(1) [OF j True reconciled(3)] by simp
      with k s show ?thesis by (auto intro: keeps_extends)
    next
      case False
      then obtain hs ts where hs: "keeps anchor w x hs ts" using k reconciled(2) by (auto simp: consistent_def)
      note rk = reconcile_keeps [OF j _ reconciled(3)]
      have "consistent anchor w' x" using rk(1) [OF hs] by (auto simp: consistent_def)
      with rk(1) rk(2) [OF hs] show ?thesis
        by (intro goal [OF reconciled(2)]) (auto intro: keeps_extends)
    qed
  qed
qed

lemma steps_consistent:
  assumes "(journal_step anchor scopes)\<^sup>*\<^sup>* w w'" and "inj_on key scopes" and "\<forall>s\<in>scopes. consistent anchor w s"
  shows "\<forall>s\<in>scopes. consistent anchor w' s"
  using assms by (induction rule: rtranclp_induct) (auto dest: step_frame)

lemma steps_keep:
  assumes "(journal_step anchor scopes)\<^sup>*\<^sup>* w w'" and inj: "inj_on key scopes" and c: "\<forall>s\<in>scopes. consistent anchor w s"
    and s: "s \<in> scopes" and k: "keeps anchor w s hs ts"
  shows "\<exists>hs' ts'. keeps anchor w' s (hs @ hs') (ts @ ts')"
  using assms(1)
proof (induction rule: rtranclp_induct)
  case base
  from k show ?case by (intro exI [of _ "[]"]) simp
next
  case (step y z)
  then obtain hs1 ts1 where "keeps anchor y s (hs @ hs1) (ts @ ts1)" by blast
  moreover have "\<forall>x\<in>scopes. consistent anchor y x" by (rule steps_consistent [OF step(1) inj c])
  ultimately obtain hs2 ts2 where "keeps anchor z s ((hs @ hs1) @ hs2) ((ts @ ts1) @ ts2)"
    using step_frame [OF inj step(2) s] by blast
  then show ?case by (metis append_assoc)
qed

end

end
