(* ===== verification/File_Anchor.thy ===== *)
theory File_Anchor
  imports Journal_Anchor
begin

text \<open>
  The signed append-only file anchor of \<^verbatim>\<open>lakatos/io/_resource_anchor.py\<close>. A directory is the list
  of its files, name and bytes; a file appears in it at once, by the \<^verbatim>\<open>link\<close> of the complete
  temporary. The locks make a read or a compare-and-set one step. The signature scheme
  (\<^verbatim>\<open>ed25519_public_key\<close>, \<^verbatim>\<open>ed25519_sign\<close> and \<^verbatim>\<open>ed25519_verify\<close> of
  \<^verbatim>\<open>lakatos/write_cert.py\<close>) is a parameter, and nothing is assumed of it: the anchor reads back
  what it wrote, so a scheme that does not verify its own signatures makes it raise.
\<close>

section \<open>Names and bytes\<close>

type_synonym directory = "(string \<times> byte list) list"

record signature_scheme =
  sg_public_key :: "byte list \<Rightarrow> byte list"
  sg_sign :: "byte list \<Rightarrow> byte list \<Rightarrow> byte list"
  sg_verify :: "byte list \<Rightarrow> byte list \<Rightarrow> byte list \<Rightarrow> bool"

record file_anchor =
  fa_scheme :: signature_scheme
  fa_signing_key :: "byte list option"
  fa_verify_key :: "byte list"

definition open_file_anchor :: "signature_scheme \<Rightarrow> byte list option \<Rightarrow> byte list option \<Rightarrow>
    journal_error + file_anchor" where
  "open_file_anchor scheme signing_key verify_key =
     (let derived = map_option (sg_public_key scheme) signing_key in
      ebind (run_checks
        [raise_if (signing_key = None \<and> verify_key = None)
           (journal_value_error ''an anchor signing_key or pinned verify_key is required''),
         raise_if (verify_key \<noteq> None \<and> derived \<noteq> None \<and> verify_key \<noteq> derived)
           (journal_value_error ''anchor signing key does not match the pinned verify key'')]) (\<lambda>_.
      case (case verify_key of Some k \<Rightarrow> Some k | None \<Rightarrow> derived) of
        None \<Rightarrow> Inl (journal_value_error ''an anchor signing_key or pinned verify_key is required'')
      | Some k \<Rightarrow>
          ebind (raise_if (length k \<noteq> 32) (journal_value_error ''anchor verify_key must contain 32 bytes'')) (\<lambda>_.
          Inr \<lparr>fa_scheme = scheme, fa_signing_key = signing_key, fa_verify_key = k\<rparr>)))"

definition bytes_hex :: "byte list \<Rightarrow> string" where
  "bytes_hex bs = concat (map (\<lambda>b. show_hex 2 (unat b)) bs)"

text \<open>\<^verbatim>\<open>bytes.fromhex\<close>: pairs of hexadecimal digits, white space between pairs.\<close>

definition is_hex_digit :: "char \<Rightarrow> bool" where
  "is_hex_digit c \<longleftrightarrow> c \<in> set ''0123456789abcdefABCDEF''"

definition ascii_space :: "char \<Rightarrow> bool" where
  "ascii_space c \<longleftrightarrow> code_point c \<in> {9, 10, 11, 12, 13, 32}"

fun bytes_fromhex :: "string \<Rightarrow> byte list option" where
  "bytes_fromhex [] = Some []"
| "bytes_fromhex [c] = (if ascii_space c then Some [] else None)"
| "bytes_fromhex (c # d # s) =
     (if ascii_space c then bytes_fromhex (d # s)
      else if is_hex_digit c \<and> is_hex_digit d
      then map_option (\<lambda>bs. of_nat (16 * hex_digit_value c + hex_digit_value d) # bs) (bytes_fromhex s)
      else None)"

definition scope_key :: "string \<Rightarrow> string" where
  "scope_key scope = sha256_hex (utf8_encode scope)"

definition checked_scope_key :: "string \<Rightarrow> journal_error + string" where
  "checked_scope_key scope = ebind (require_journal_identifier scope ''anchor scope'') (\<lambda>_. Inr (scope_key scope))"

definition revision_020d :: "int \<Rightarrow> string" where
  "revision_020d r = (let s = show_nat (nat r) in replicate (20 - length s) (CHR ''0'') @ s)"

definition record_name :: "checkpoint \<Rightarrow> string" where
  "record_name c =
     scope_key (cp_scope c) @ ''.'' @ revision_020d (cp_revision c) @ ''.'' @ cp_journal_head_sha256 c @ ''.json''"

text \<open>\<^verbatim>\<open>glob(f"{prefix}.*.json")\<close>\<close>

definition glob_record :: "string \<Rightarrow> string \<Rightarrow> bool" where
  "glob_record prefix name \<longleftrightarrow>
     (let p = prefix @ ''.'' in
      length p + 5 \<le> length name \<and> take (length p) name = p \<and> drop (length name - 5) name = ''.json'')"

section \<open>Reading\<close>

definition value_error_as :: "journal_error \<Rightarrow> journal_error + 'a \<Rightarrow> journal_error + 'a" where
  "value_error_as e r =
     (case r of
        Inl (JournalKernel (ValueError m)) \<Rightarrow> Inl e
      | Inl (JournalKernel (TypeError m)) \<Rightarrow> Inl e
      | Inl (TrustedAnchorCorruption m) \<Rightarrow> Inl e
      | other \<Rightarrow> other)"

definition want_hex :: "json_dict \<Rightarrow> string \<Rightarrow> journal_error + byte list" where
  "want_hex kvs k =
     ebind (want_str kvs k) (\<lambda>s.
     case bytes_fromhex s of
       Some bs \<Rightarrow> Inr bs
     | None \<Rightarrow> Inl (journal_value_error ''non-hexadecimal number found in fromhex()''))"

definition signing_bytes :: "checkpoint \<Rightarrow> byte list" where
  "signing_bytes c = utf8_encode ANCHOR_DOMAIN @ json_bytes (checkpoint_to_dict c)"

definition decode_record :: "file_anchor \<Rightarrow> string \<times> byte list \<Rightarrow> journal_error + checkpoint" where
  "decode_record fa file =
     (let (name, raw) = file in
      case (case utf8_decode raw of None \<Rightarrow> None | Some text \<Rightarrow> json_loads text) of
        None \<Rightarrow> Inl (TrustedAnchorCorruption (''anchor record is unreadable: '' @ name))
      | Some decoded \<Rightarrow>
          (case decoded of
             JObj envelope \<Rightarrow>
               if json_bytes (JObj envelope) \<noteq> raw
               then Inl (TrustedAnchorCorruption (''anchor record is not canonical: '' @ name))
               else value_error_as (TrustedAnchorCorruption (''anchor verification failed: '' @ name))
                 (ebind (expect_keys envelope {''checkpoint'', ''signature_algorithm'', ''signer_public_key'', ''signature''}
                    ''signed anchor'') (\<lambda>_.
                  ebind (raise_if (member envelope ''signature_algorithm'' \<noteq> JStr ''Ed25519'')
                    (journal_value_error ''unsupported anchor signature algorithm'')) (\<lambda>_.
                  ebind (want_hex envelope ''signer_public_key'') (\<lambda>signer.
                  ebind (want_hex envelope ''signature'') (\<lambda>signature.
                  ebind (raise_if (signer \<noteq> fa_verify_key fa)
                    (journal_value_error ''anchor signer is not the pinned authority'')) (\<lambda>_.
                  ebind (expect_mapping (member envelope ''checkpoint'') ''anchor checkpoint'') (\<lambda>v.
                  ebind (checkpoint_from_dict v) (\<lambda>c.
                  ebind (raise_if (\<not> sg_verify (fa_scheme fa) (fa_verify_key fa) (signing_bytes c) signature)
                    (journal_value_error ''anchor signature is invalid'')) (\<lambda>_.
                  ebind (raise_if (name \<noteq> record_name c)
                    (journal_value_error ''anchor filename does not match its signed checkpoint'')) (\<lambda>_.
                  Inr c))))))))))
           | _ \<Rightarrow> Inl (TrustedAnchorCorruption (''anchor record is not canonical: '' @ name))))"

text \<open>The dict \<^verbatim>\<open>by_revision\<close>, one checkpoint at a time.\<close>

definition put_revision :: "string \<Rightarrow> (int \<times> checkpoint) list \<Rightarrow> checkpoint \<Rightarrow>
    journal_error + (int \<times> checkpoint) list" where
  "put_revision scope by_revision c =
     ebind (raise_if (cp_scope c \<noteq> scope)
       (TrustedAnchorCorruption ''anchor scope hash collision or substitution'')) (\<lambda>_.
     case map_of by_revision (cp_revision c) of
       Some previous \<Rightarrow>
         if previous \<noteq> c
         then Inl (AnchorConflict (''external anchor fork at revision '' @ show_int (cp_revision c)))
         else Inr by_revision
     | None \<Rightarrow> Inr ((cp_revision c, c) # by_revision))"

fun check_chain :: "checkpoint option \<Rightarrow> checkpoint list \<Rightarrow> journal_error + unit" where
  "check_chain previous [] = Inr ()"
| "check_chain previous (c # cs) =
     ebind (case previous of
              None \<Rightarrow> raise_if (cp_previous_journal_head_sha256 c \<noteq> None)
                (TrustedAnchorCorruption ''external genesis has a predecessor'')
            | Some p \<Rightarrow> raise_if
                (cp_budget_id c \<noteq> cp_budget_id p \<or> cp_scope c \<noteq> cp_scope p \<or> cp_epoch c \<noteq> cp_epoch p \<or>
                 cp_previous_journal_head_sha256 c \<noteq> Some (cp_journal_head_sha256 p))
                (TrustedAnchorCorruption ''external anchor chain is not contiguous''))
       (\<lambda>_. check_chain (Some c) cs)"

definition assemble_chain :: "string \<Rightarrow> checkpoint list \<Rightarrow> journal_error + checkpoint list" where
  "assemble_chain scope checkpoints =
     (if checkpoints = [] then Inr []
      else
        ebind (fold_result (put_revision scope) [] checkpoints) (\<lambda>by_revision.
        let revisions = sort (map fst by_revision);
            ordered = map (\<lambda>r. the (map_of by_revision r)) revisions in
        ebind (raise_if (revisions \<noteq> [0..last revisions])
          (TrustedAnchorCorruption ''external anchor chain has a revision gap'')) (\<lambda>_.
        ebind (check_chain None ordered) (\<lambda>_. Inr ordered))))"

definition read_all_unlocked :: "file_anchor \<Rightarrow> directory \<Rightarrow> string \<Rightarrow> journal_error + checkpoint list" where
  "read_all_unlocked fa dir scope =
     ebind (checked_scope_key scope) (\<lambda>prefix.
     ebind (map_result (decode_record fa) (sort_key fst (filter (\<lambda>f. glob_record prefix (fst f)) dir))) (\<lambda>checkpoints.
     assemble_chain scope checkpoints))"

definition anchor_read :: "file_anchor \<Rightarrow> directory \<Rightarrow> string \<Rightarrow> journal_error + checkpoint option" where
  "anchor_read fa dir scope =
     ebind (read_all_unlocked fa dir scope) (\<lambda>cs. Inr (if cs = [] then None else Some (last cs)))"

section \<open>Compare and set\<close>

definition cas_predecessor :: "checkpoint option \<Rightarrow> string option \<Rightarrow> checkpoint \<Rightarrow> journal_error + unit" where
  "cas_predecessor current expected c =
     (case current of
        None \<Rightarrow> raise_if (expected \<noteq> None \<or> cp_revision c \<noteq> 0)
          (AnchorConflict ''external anchor genesis CAS predecessor mismatch'')
      | Some p \<Rightarrow> raise_if
          (Some (cp_journal_head_sha256 p) \<noteq> expected \<or> cp_previous_journal_head_sha256 c \<noteq> expected \<or>
           cp_revision c \<noteq> cp_revision p + 1 \<or> cp_budget_id c \<noteq> cp_budget_id p \<or> cp_epoch c \<noteq> cp_epoch p)
          (AnchorConflict ''external anchor predecessor CAS failed''))"

definition signed_envelope :: "file_anchor \<Rightarrow> byte list \<Rightarrow> checkpoint \<Rightarrow> json" where
  "signed_envelope fa signing_key c = JObj
     [(''checkpoint'', checkpoint_to_dict c),
      (''signature_algorithm'', JStr ''Ed25519''),
      (''signer_public_key'', JStr (bytes_hex (fa_verify_key fa))),
      (''signature'', JStr (bytes_hex (sg_sign (fa_scheme fa) signing_key (signing_bytes c))))]"

text \<open>The publication: the new file, or the one already there under its name; then the read back.\<close>

definition publish_record :: "file_anchor \<Rightarrow> directory \<Rightarrow> byte list \<Rightarrow> checkpoint \<Rightarrow>
    (journal_error + checkpoint) \<times> directory" where
  "publish_record fa dir raw c =
     (let name = record_name c in
      case (case map_of dir name of
              Some existing \<Rightarrow>
                ebind (decode_record fa (name, existing)) (\<lambda>found.
                ebind (raise_if (found \<noteq> c) (AnchorConflict ''external anchor identity was reused'')) (\<lambda>_.
                Inr (existing, dir)))
            | None \<Rightarrow> Inr (raw, dir @ [(name, raw)])) of
        Inl e \<Rightarrow> (Inl e, dir)
      | Inr (content, dir') \<Rightarrow>
          (ebind (decode_record fa (name, content)) (\<lambda>stored.
           ebind (raise_if (stored \<noteq> c) (TrustedAnchorCorruption ''external anchor exact readback diverged'')) (\<lambda>_.
           Inr stored)), dir'))"

definition compare_and_set :: "file_anchor \<Rightarrow> directory \<Rightarrow> string option \<Rightarrow> checkpoint \<Rightarrow>
    (journal_error + checkpoint) \<times> directory" where
  "compare_and_set fa dir expected c =
     (case fa_signing_key fa of
        None \<Rightarrow> (Inl (TrustedAnchorUnavailable ''anchor is configured for verification only''), dir)
      | Some signing_key \<Rightarrow>
          (case ebind (require_optional_sha256 expected ''expected anchor head'') (\<lambda>_.
                ebind (read_all_unlocked fa dir (cp_scope c)) (\<lambda>checkpoints.
                Inr (if checkpoints = [] then None else Some (last checkpoints)))) of
             Inl e \<Rightarrow> (Inl e, dir)
           | Inr current \<Rightarrow>
               if current = Some c then (Inr c, dir)
               else
                 (case cas_predecessor current expected c of
                    Inl e \<Rightarrow> (Inl e, dir)
                  | Inr _ \<Rightarrow> publish_record fa dir (json_bytes (signed_envelope fa signing_key c)) c)))"

definition file_anchor_store :: "file_anchor \<Rightarrow> directory trusted_anchor_store" where
  "file_anchor_store fa = \<lparr>an_read = anchor_read fa, an_compare_and_set = compare_and_set fa\<rparr>"

lemma file_anchor_store_simps [simp]:
  "an_read (file_anchor_store fa) = anchor_read fa" "an_compare_and_set (file_anchor_store fa) = compare_and_set fa"
  by (simp_all add: file_anchor_store_def)

section \<open>What a chain is\<close>

definition linked :: "checkpoint list \<Rightarrow> bool" where
  "linked cs \<longleftrightarrow>
     (\<forall>i<length cs. cp_revision (cs ! i) = int i) \<and> check_chain None cs = Inr ()"

lemma check_chain_append:
  "check_chain p (xs @ ys) = ebind (check_chain p xs) (\<lambda>_. check_chain (if xs = [] then p else Some (last xs)) ys)"
  by (induction xs arbitrary: p) (auto simp: ebind_assoc split: if_splits)

lemma put_revisions:
  assumes "fold_result (put_revision scope) by0 ds = Inr by'"
    and "distinct (map fst by0)" and "\<forall>(r, c)\<in>set by0. cp_revision c = r"
  shows "distinct (map fst by') \<and> (\<forall>(r, c)\<in>set by'. cp_revision c = r) \<and> snd ` set by' = snd ` set by0 \<union> set ds \<and>
    (\<forall>d\<in>set ds. cp_scope d = scope)"
  using assms
proof (induction ds arbitrary: by0)
  case (Cons d ds)
  then obtain by1 where p: "put_revision scope by0 d = Inr by1" "fold_result (put_revision scope) by1 ds = Inr by'"
    by (auto simp: result_simps)
  have "distinct (map fst by1) \<and> (\<forall>(r, c)\<in>set by1. cp_revision c = r) \<and> snd ` set by1 = insert d (snd ` set by0) \<and> cp_scope d = scope"
  proof (cases "map_of by0 (cp_revision d)")
    case None
    then have "by1 = (cp_revision d, d) # by0 \<and> cp_scope d = scope" "cp_revision d \<notin> fst ` set by0"
      using p(1) by (auto simp: put_revision_def result_simps check_simps map_of_eq_None_iff [symmetric])
    with Cons.prems(2,3) show ?thesis by auto
  next
    case (Some c)
    then have "(cp_revision d, c) \<in> set by0" by (rule map_of_SomeD)
    then show ?thesis using p(1) Cons.prems(2,3) Some
      by (auto simp: put_revision_def result_simps check_simps insert_absorb rev_image_eqI split: if_splits)
  qed
  with Cons.IH [OF p(2)] show ?case by auto
qed auto

lemma put_revisions_succeed:
  assumes "\<forall>d\<in>set ds. cp_scope d = scope" and "\<forall>(r, c)\<in>set by0. cp_revision c = r"
    and "inj_on cp_revision (snd ` set by0 \<union> set ds)"
  shows "\<exists>by'. fold_result (put_revision scope) by0 ds = Inr by'"
  using assms
proof (induction ds arbitrary: by0)
  case (Cons d ds)
  show ?case
  proof (cases "map_of by0 (cp_revision d)")
    case None
    then have p: "put_revision scope by0 d = Inr ((cp_revision d, d) # by0)"
      using Cons.prems(1) by (simp add: put_revision_def)
    with Cons.IH [of "(cp_revision d, d) # by0"] Cons.prems show ?thesis by (simp add: insert_commute Un_insert_left)
  next
    case (Some c)
    then have "(cp_revision d, c) \<in> set by0" by (rule map_of_SomeD)
    moreover from this have "cp_revision c = cp_revision d" "c \<in> snd ` set by0" using Cons.prems(2) by force+
    ultimately have "c = d" using Cons.prems(3) by (simp add: inj_on_def)
    with Some have p: "put_revision scope by0 d = Inr by0" using Cons.prems(1) by (simp add: put_revision_def)
    moreover have "inj_on cp_revision (snd ` set by0 \<union> set ds)"
      by (rule inj_on_subset [OF Cons.prems(3)]) auto
    ultimately show ?thesis using Cons.IH [of by0] Cons.prems by simp
  qed
qed simp

lemma linked_revisions: "linked cs \<Longrightarrow> map cp_revision cs = [0..int (length cs) - 1]"
  by (rule nth_equalityI) (auto simp: linked_def)

lemma linked_inj: "linked cs \<Longrightarrow> inj_on cp_revision (set cs)"
  by (auto simp: linked_def inj_on_def in_set_conv_nth)

text \<open>A read succeeds with \<open>cs\<close> when the records are exactly those of one chain of the scope, in
  whatever order the directory lists them.\<close>

lemma assemble_Inr:
  "assemble_chain scope ds = Inr cs \<longleftrightarrow> linked cs \<and> set ds = set cs \<and> (\<forall>d\<in>set ds. cp_scope d = scope)"
proof (cases "ds = []")
  case True
  then show ?thesis by (auto simp: assemble_chain_def linked_def)
next
  case False
  show ?thesis
  proof
    assume "assemble_chain scope ds = Inr cs"
    then obtain by' where by': "fold_result (put_revision scope) [] ds = Inr by'"
      and rs: "sort (map fst by') = [0..last (sort (map fst by'))]"
      and cs: "cs = map (\<lambda>r. the (map_of by' r)) (sort (map fst by'))" and ch: "check_chain None cs = Inr ()"
      using False by (auto simp: assemble_chain_def Let_def result_simps check_simps)
    note put = put_revisions [OF by']
    then have d: "distinct (map fst by')" by simp
    have val: "the (map_of by' r) = c" if "(r, c) \<in> set by'" for r c using d that by simp
    have "set cs = snd ` set by'" using val by (force simp: cs image_iff)
    moreover have "cp_revision (cs ! i) = int i" if "i < length cs" for i
    proof -
      let ?rs = "sort (map fst by')"
      have i: "i < length ?rs" using that by (simp add: cs)
      obtain m where m: "?rs = [0..m]" using rs by blast
      have "int i \<le> m" using i unfolding m by simp
      then have "?rs ! i = int i" unfolding m by simp
      moreover have "?rs ! i \<in> fst ` set by'" using i by (metis nth_mem set_sort set_map)
      ultimately show ?thesis using val put that by (fastforce simp: cs)
    qed
    ultimately show "linked cs \<and> set ds = set cs \<and> (\<forall>d\<in>set ds. cp_scope d = scope)"
      using put ch by (auto simp: linked_def)
  next
    assume a: "linked cs \<and> set ds = set cs \<and> (\<forall>d\<in>set ds. cp_scope d = scope)"
    then obtain by' where by': "fold_result (put_revision scope) [] ds = Inr by'"
      using put_revisions_succeed [of ds scope "[]"] linked_inj by auto
    note put = put_revisions [OF by']
    then have d: "distinct (map fst by')" and s: "snd ` set by' = set cs" and r: "\<forall>(r, c)\<in>set by'. cp_revision c = r"
      using a by auto
    have ne: "cs \<noteq> []" using False a by auto
    have "fst ` set by' = cp_revision ` (snd ` set by')" using r by (force simp: image_iff)
    also have "\<dots> = set [0..int (length cs) - 1]" unfolding s using linked_revisions a by (metis set_map)
    finally have "sort (map fst by') = [0..int (length cs) - 1]"
      using d by (intro sorted_distinct_set_unique) auto
    moreover have "map (\<lambda>r. the (map_of by' r)) [0..int (length cs) - 1] = cs"
    proof (rule nth_equalityI)
      fix i assume i: "i < length (map (\<lambda>r. the (map_of by' r)) [0..int (length cs) - 1])"
      then have "cs ! i \<in> snd ` set by'" using s by simp
      then obtain m where m: "(m, cs ! i) \<in> set by'" by auto
      moreover from this have "m = int i" using r a i by (auto simp: linked_def)
      ultimately have "(int i, cs ! i) \<in> set by'" by simp
      with d i show "map (\<lambda>r. the (map_of by' r)) [0..int (length cs) - 1] ! i = cs ! i" by simp
    qed simp
    moreover have "last [0..int (length cs) - 1] = int (length cs) - 1"
      using ne by (cases cs) (simp_all add: last_conv_nth)
    ultimately show "assemble_chain scope ds = Inr cs"
      using False by' a by (simp add: assemble_chain_def linked_def)
  qed
qed

section \<open>What a read sees\<close>

lemma map_result_defined: "(\<exists>ys. map_result f xs = Inr ys) \<longleftrightarrow> (\<forall>x\<in>set xs. \<exists>y. f x = Inr y)"
  by (induction xs) (auto simp: result_simps)

lemma map_result_set: "map_result f xs = Inr ys \<Longrightarrow> set ys = {y. \<exists>x\<in>set xs. f x = Inr y}"
  by (induction xs arbitrary: ys) (auto simp: result_simps)

definition records :: "file_anchor \<Rightarrow> directory \<Rightarrow> string \<Rightarrow> checkpoint set" where
  "records fa dir scope = {c. \<exists>f\<in>set dir. glob_record (scope_key scope) (fst f) \<and> decode_record fa f = Inr c}"

lemma read_all_Inr:
  "read_all_unlocked fa dir scope = Inr cs \<longleftrightarrow>
     identifier_ok scope \<and>
     (\<forall>f\<in>set dir. glob_record (scope_key scope) (fst f) \<longrightarrow> (\<exists>c. decode_record fa f = Inr c)) \<and>
     linked cs \<and> records fa dir scope = set cs \<and> (\<forall>c\<in>set cs. cp_scope c = scope)"
    (is "_ \<longleftrightarrow> ?R")
proof -
  let ?files = "sort_key fst (filter (\<lambda>f. glob_record (scope_key scope) (fst f)) dir)"
  have "read_all_unlocked fa dir scope = Inr cs \<longleftrightarrow>
      identifier_ok scope \<and> (\<exists>ds. map_result (decode_record fa) ?files = Inr ds \<and> assemble_chain scope ds = Inr cs)"
    by (auto simp: read_all_unlocked_def checked_scope_key_def result_simps check_simps)
  also have "\<dots> \<longleftrightarrow> ?R"
  proof -
    have "set ds = records fa dir scope" if "map_result (decode_record fa) ?files = Inr ds" for ds
      unfolding map_result_set [OF that] records_def set_sort set_filter by blast
    then show ?thesis
      using map_result_defined [of "decode_record fa" ?files] by (auto simp: assemble_Inr)
  qed
  finally show ?thesis .
qed

lemma anchor_read_Inr:
  "anchor_read fa dir scope = Inr x \<longleftrightarrow>
     (\<exists>cs. read_all_unlocked fa dir scope = Inr cs \<and> x = (if cs = [] then None else Some (last cs)))"
  by (auto simp: anchor_read_def result_simps)

lemma glob_record_name: "glob_record (scope_key (cp_scope c)) (record_name c)"
  by (simp add: glob_record_def record_name_def Let_def)

lemma glob_other_scope: "scope_key s \<noteq> scope_key (cp_scope c) \<Longrightarrow> \<not> glob_record (scope_key s) (record_name c)"
proof
  assume n: "scope_key s \<noteq> scope_key (cp_scope c)" and g: "glob_record (scope_key s) (record_name c)"
  have "length (scope_key x) = 64" for x using sha256_ok_sha256_hex by (simp add: scope_key_def sha256_ok_def)
  then have "take 64 (record_name c) = scope_key (cp_scope c)" "take 64 (take 65 (record_name c)) = scope_key s"
    using g by (simp_all add: record_name_def glob_record_def Let_def)
  with n show False by (simp add: min_def)
qed

section \<open>What is written is what is read\<close>

lemma value_error_as_Inr [result_simps]: "value_error_as e r = Inr a \<longleftrightarrow> r = Inr a"
  by (auto simp: value_error_as_def split: sum.splits journal_error.splits lk_error.splits)

lemma decode_written:
  assumes c: "checkpoint_ok c" and d: "decode_record fa (name, json_bytes (signed_envelope fa key c)) = Inr d"
  shows "d = c"
proof -
  let ?kvs = "[(''checkpoint'', checkpoint_to_dict c), (''signature_algorithm'', JStr ''Ed25519''),
      (''signer_public_key'', JStr (bytes_hex (fa_verify_key fa))),
      (''signature'', JStr (bytes_hex (sg_sign (fa_scheme fa) key (signing_bytes c))))]"
  have e: "signed_envelope fa key c = JObj ?kvs" by (simp add: signed_envelope_def)
  obtain kvs where k: "canonical (JObj ?kvs) = JObj kvs" and r: "reread ?kvs kvs"
    by (rule canonical_reread [of ?kvs]) simp
  obtain ci where ci: "canonical (JObj (checkpoint_items c)) = JObj ci" and rc: "reread (checkpoint_items c) ci"
    by (rule canonical_reread [of "checkpoint_items c"]) (simp add: checkpoint_items_def)
  have "json_loads (json_dumps (JObj ?kvs)) = Some (JObj kvs)"
    using json_loads_dumps [of "JObj ?kvs"] k checkpoint_keys_ok [of c] by simp
  moreover have "member kvs ''checkpoint'' = JObj ci"
    using ci unfolding reread_member [OF r] by (simp add: checkpoint_to_dict_def)
  moreover have "checkpoint_from_dict ci = Inr c" by (rule checkpoint_from_dict_Inr [OF rc c])
  ultimately show ?thesis
    using d by (auto simp: decode_record_def e json_bytes_def utf8_decode_encode expect_mapping_def result_simps split: if_splits)
qed

lemma decode_name: "decode_record fa (name, raw) = Inr d \<Longrightarrow> name = record_name d \<and> checkpoint_ok d"
  by (auto simp: decode_record_def result_simps check_simps split: option.splits json.splits if_splits
      dest: checkpoint_from_dict_ok)

section \<open>The anchor keeps the laws\<close>

lemma cas_predecessor_links:
  assumes "cas_predecessor (if cs = [] then None else Some (last cs)) e c = Inr ()" and "linked cs" and "checkpoint_ok c"
    and "\<forall>x\<in>set cs. cp_scope x = cp_scope c"
  shows "linked (cs @ [c])" and "cp_revision c = int (length cs)"
proof -
  show r: "cp_revision c = int (length cs)"
    using assms by (cases cs rule: rev_cases) (auto simp: cas_predecessor_def check_simps linked_def nth_append)
  have "check_chain (if cs = [] then None else Some (last cs)) [c] = Inr ()"
    using assms by (auto simp: cas_predecessor_def check_simps checkpoint_ok_def split: if_splits)
  with assms(2) r show "linked (cs @ [c])"
    by (auto simp: linked_def check_chain_append nth_append less_Suc_eq)
qed

text \<open>The three ways a compare-and-set ends.\<close>

lemma compare_and_set_cases:
  assumes "compare_and_set fa dir e c = (r, dir')" and c: "checkpoint_ok c"
  obtains (refused) err where "r = Inl err" "dir' = dir"
    | (current) "r = Inr c" "dir' = dir" "anchor_read fa dir (cp_scope c) = Inr (Some c)"
    | (written) cs key raw where "read_all_unlocked fa dir (cp_scope c) = Inr cs" "linked (cs @ [c])"
        "raw = json_bytes (signed_envelope fa key c)" "dir' = dir @ [(record_name c, raw)]"
        "r = Inr c \<and> decode_record fa (record_name c, raw) = Inr c \<or>
         r \<in> range Inl \<and> decode_record fa (record_name c, raw) \<in> range Inl"
proof (cases "r \<in> range Inl \<and> dir' = dir")
  case False
  then obtain key cs where k: "fa_signing_key fa = Some key" and cs: "read_all_unlocked fa dir (cp_scope c) = Inr cs"
    using assms(1)
    by (auto simp: compare_and_set_def image_iff ebind_def split: option.splits sum.splits)
  let ?current = "if cs = [] then None else Some (last cs)" and ?raw = "json_bytes (signed_envelope fa key c)"
  have lk: "linked cs" "records fa dir (cp_scope c) = set cs" "\<forall>x\<in>set cs. cp_scope x = cp_scope c"
    using cs by (auto simp: read_all_Inr)
  have step: "(if ?current = Some c then (Inr c, dir)
      else case cas_predecessor ?current e c of Inl e \<Rightarrow> (Inl e, dir) | Inr _ \<Rightarrow> publish_record fa dir ?raw c) = (r, dir')"
    using assms(1) k cs False by (auto simp: compare_and_set_def ebind_def split: sum.splits)
  show thesis
  proof (cases "?current = Some c")
    case True
    with step cs current show thesis by (auto simp: anchor_read_Inr)
  next
    case other: False
    then have p: "cas_predecessor ?current e c = Inr ()" and pub: "publish_record fa dir ?raw c = (r, dir')"
      using step False by (auto split: sum.splits)
    note link = cas_predecessor_links [OF p lk(1) c lk(3)]
    show thesis
    proof (cases "map_of dir (record_name c)")
      case (Some existing)
      show thesis
      proof (cases "decode_record fa (record_name c, existing) = Inr c")
        case True
        have "(record_name c, existing) \<in> set dir" using Some by (rule map_of_SomeD)
        then have "c \<in> set cs" using True lk(2) glob_record_name [of c] by (force simp: records_def)
        then have "cp_revision c < int (length cs)" using lk(1) by (auto simp: linked_def in_set_conv_nth)
        with link(2) show thesis by simp
      next
        case False
        with Some pub \<open>\<not> (r \<in> range Inl \<and> dir' = dir)\<close> show thesis
          by (auto simp: publish_record_def Let_def ebind_def raise_if_def split: sum.splits if_splits)
      qed
    next
      case None
      then have "dir' = dir @ [(record_name c, ?raw)]" and
        r: "r = ebind (decode_record fa (record_name c, ?raw)) (\<lambda>stored.
           ebind (raise_if (stored \<noteq> c) (TrustedAnchorCorruption ''external anchor exact readback diverged'')) (\<lambda>_. Inr stored))"
        using pub by (auto simp: publish_record_def Let_def)
      moreover have "r = Inr c \<and> decode_record fa (record_name c, ?raw) = Inr c \<or>
          r \<in> range Inl \<and> decode_record fa (record_name c, ?raw) \<in> range Inl"
        using decode_written [OF c, of fa "record_name c" key] r
        by (cases "decode_record fa (record_name c, ?raw)") auto
      ultimately show thesis using written [OF cs link(1) refl] by simp
    qed
  qed
qed (use refused in auto)

lemma records_append:
  "records fa (dir @ [(name, raw)]) scope = records fa dir scope \<union>
     (if glob_record (scope_key scope) name then {c. decode_record fa (name, raw) = Inr c} else {})"
  by (auto simp: records_def)

lemma read_all_append:
  assumes "read_all_unlocked fa dir (cp_scope c) = Inr cs" and "linked (cs @ [c])"
    and "decode_record fa (record_name c, raw) = Inr c"
  shows "read_all_unlocked fa (dir @ [(record_name c, raw)]) (cp_scope c) = Inr (cs @ [c])"
  using assms by (auto simp: read_all_Inr records_append glob_record_name)

interpretation file_store: trusted_anchor "file_anchor_store fa" scope_key for fa
proof
  fix a e c x a'
  assume "an_compare_and_set (file_anchor_store fa) a e c = (Inr x, a')" and c: "checkpoint_ok c"
  then have "compare_and_set fa a e c = (Inr x, a')" by simp
  then show "x = c \<and> an_read (file_anchor_store fa) a' (cp_scope c) = Inr (Some c)"
    using c
  proof (cases rule: compare_and_set_cases)
    case (written cs key raw)
    then have "decode_record fa (record_name c, raw) = Inr c" "x = c" by auto
    with read_all_append [OF written(1,2)] written(4) show ?thesis by (simp add: anchor_read_def)
  qed auto
next
  fix a e c err a'
  assume "an_compare_and_set (file_anchor_store fa) a e c = (Inl err, a')" and c: "checkpoint_ok c"
  then have "compare_and_set fa a e c = (Inl err, a')" by simp
  then show "an_read (file_anchor_store fa) a' (cp_scope c) = an_read (file_anchor_store fa) a (cp_scope c) \<or>
      (\<exists>m. an_read (file_anchor_store fa) a' (cp_scope c) = Inl m)"
    using c
  proof (cases rule: compare_and_set_cases)
    case (written cs key raw)
    then have "\<not> (\<exists>c'. decode_record fa (record_name c, raw) = Inr c')" by auto
    then have "\<not> (\<exists>xs. read_all_unlocked fa a' (cp_scope c) = Inr xs)"
      using written(4) by (auto simp: read_all_Inr glob_record_name)
    then show ?thesis by (auto simp: anchor_read_def ebind_def split: sum.split)
  qed auto
next
  fix a e c r a' scope
  assume "an_compare_and_set (file_anchor_store fa) a e c = (r, a')" and c: "checkpoint_ok c"
    and k: "scope_key scope \<noteq> scope_key (cp_scope c)"
  then have "compare_and_set fa a e c = (r, a')" by simp
  then show "an_read (file_anchor_store fa) a' scope = an_read (file_anchor_store fa) a scope"
    using c
  proof (cases rule: compare_and_set_cases)
    case (written cs key raw)
    then show ?thesis
      using glob_other_scope [OF k] identifier_ok_def
      by (simp add: anchor_read_def read_all_unlocked_def checked_scope_key_def ebind_assoc)
  qed auto
qed

end
