(* ===== verification/Journal_Live.thy ===== *)
theory Journal_Live
  imports File_Anchor
begin

text \<open>
  When the journal gets through. An anchor that accepts every checkpoint that follows its head lets
  \<^verbatim>\<open>reconcile_anchor\<close> publish and confirm the whole history and \<^verbatim>\<open>initialize\<close> found one; the file
  anchor is such an anchor when its key signs what its pinned key verifies.
\<close>

section \<open>Links between checkpoints\<close>

definition head_before :: "(resource_state \<times> checkpoint) list \<Rightarrow> nat \<Rightarrow> checkpoint option" where
  "head_before hs k = (if k = 0 then None else Some (snd (hs ! (k - 1))))"

definition follows :: "checkpoint option \<Rightarrow> string option \<Rightarrow> checkpoint \<Rightarrow> bool" where
  "follows current expected c \<longleftrightarrow>
     cas_predecessor current expected c = Inr () \<and> require_optional_sha256 expected ''expected anchor head'' = Inr () \<and>
     current \<noteq> Some c"

lemma history_previous:
  "history scope hs ts \<Longrightarrow> k < length hs \<Longrightarrow>
     cp_previous_journal_head_sha256 (snd (hs ! k)) = map_option cp_journal_head_sha256 (head_before hs k)"
proof (induction arbitrary: k rule: history.induct)
  case (genesis sc)
  then show ?case by (auto simp: founds_def head_before_def checkpoint_for_fields)
next
  case (commit hs ts t sc)
  have ne: "hs \<noteq> []" using commit(1) by auto
  show ?case
  proof (cases "k < length hs")
    case True
    with commit.IH [OF True] ne show ?thesis by (auto simp: nth_append head_before_def)
  next
    case False
    then have "k = length hs" using commit.prems by simp
    then show ?thesis using commit(2) ne
      by (auto simp: commits_def head_before_def nth_append last_conv_nth checkpoint_for_fields)
  qed
qed

lemma history_follows:
  assumes h: "history scope hs ts" and k: "k < length hs"
  shows "follows (head_before hs k) (map_option cp_journal_head_sha256 (head_before hs k)) (snd (hs ! k))"
proof (cases k)
  case 0
  with history_revision [OF h k] show ?thesis
    by (simp add: follows_def head_before_def cas_predecessor_def require_optional_sha256_def)
next
  case (Suc m)
  then have m: "m < length hs" using k by simp
  have "checkpoint_ok (snd (hs ! m))" by (rule history_checkpoint_ok [OF h nth_mem [OF m]])
  moreover have "cp_budget_id (snd (hs ! k)) = cp_budget_id (snd (hs ! m))" "cp_epoch (snd (hs ! k)) = cp_epoch (snd (hs ! m))"
    using history_identity [OF h nth_mem [OF k]] history_identity [OF h nth_mem [OF m]]
      history_budget [OF h nth_mem [OF k]] history_budget [OF h nth_mem [OF m]] by (simp_all add: state_budget_def)
  ultimately show ?thesis
    using history_revision [OF h k] history_revision [OF h m] history_previous [OF h k] Suc
    by (auto simp: follows_def head_before_def cas_predecessor_def check_simps checkpoint_ok_def)
qed

section \<open>Publishing a whole history\<close>

definition progresses :: "'a trusted_anchor_store \<Rightarrow> bool" where
  "progresses anchor \<longleftrightarrow>
     (\<forall>a e c current. an_read anchor a (cp_scope c) = Inr current \<longrightarrow> checkpoint_ok c \<longrightarrow> follows current e c \<longrightarrow>
        (\<exists>a'. an_compare_and_set anchor a e c = (Inr c, a')))"

context trusted_anchor
begin

lemma publish_live:
  assumes p: "progresses anchor" and h: "history scope hs ts" and "k \<le> length hs"
    and "an_read anchor (w_anchor w) scope = Inr (head_before hs k)"
  shows "\<exists>rs w'. publish_pending anchor None scope (loaded_of hs sts) [int k..int (length hs) - 1]
      (map_option cp_journal_head_sha256 (head_before hs k)) w = (Inr rs, w') \<and>
      an_read anchor (w_anchor w') scope = Inr (head_before hs (length hs))"
  using assms(3,4)
proof (induction "length hs - k" arbitrary: k w)
  case 0
  then have "k = length hs" by simp
  with 0 show ?case by auto
next
  case (Suc n)
  then have k: "k < length hs" and n: "n = length hs - Suc k" by simp_all
  let ?c = "snd (hs ! k)"
  have ok: "checkpoint_ok ?c" "cp_scope ?c = scope"
    using history_checkpoint_ok [OF h nth_mem [OF k]] history_identity [OF h nth_mem [OF k]] by auto
  obtain a where cas: "an_compare_and_set anchor (w_anchor w) (map_option cp_journal_head_sha256 (head_before hs k)) ?c = (Inr ?c, a)"
    using p history_follows [OF h k] Suc.prems(2) ok unfolding progresses_def by metis
  let ?w2 = "snd (mark_confirmed scope (int k) (w\<lparr>w_anchor := a\<rparr>))"
  have "an_read anchor (w_anchor ?w2) scope = Inr (head_before hs (Suc k))"
    using returned [OF cas ok(1)] ok(2) by (simp add: head_before_def)
  from Suc.hyps(1) [OF n _ this] k obtain rs w' where
    "publish_pending anchor None scope (loaded_of hs sts) [int (Suc k)..int (length hs) - 1]
      (map_option cp_journal_head_sha256 (head_before hs (Suc k))) ?w2 = (Inr rs, w')"
    "an_read anchor (w_anchor w') scope = Inr (head_before hs (length hs))" by auto
  moreover have "[int k..int (length hs) - 1] = int k # [int (Suc k)..int (length hs) - 1]"
    using k by (simp add: upto_rec1 add.commute)
  ultimately show ?case using cas k by (simp add: Let_def case_prod_beta head_before_def)
qed

lemma reconcile_live:
  assumes p: "progresses anchor" and j: "rj_trusted_anchor j = Some anchor" "rj_kernel j = KERNEL"
    and k: "keeps anchor w scope hs ts" and x: "an_read anchor (w_anchor w) scope = Inr external"
  shows "\<exists>res w'. reconcile_anchor j scope None w = (Inr res, w') \<and>
    rr_snapshot res = \<lparr>sn_state = fst (last hs), sn_checkpoint = snd (last hs), sn_anchor_status = CONFIRMED\<rparr> \<and>
    an_read anchor (w_anchor w') scope = Inr (Some (snd (last hs))) \<and>
    stored (w_database w') scope hs ts (replicate (length hs) CONFIRMED)"
proof -
  obtain sts where st: "stored (w_database w) scope hs ts sts" and ext: "\<forall>x. an_read anchor (w_anchor w) scope = Inr x \<longrightarrow> anchored hs sts x"
    using k by (auto simp: keeps_def)
  have h: "history scope hs ts" and len: "length sts = length hs" and ne: "hs \<noteq> []" using st by (auto simp: stored_def)
  have last: "p_revision (fst (last hs)) = int (length hs) - 1" using history_last(1) [OF h] history_length [OF h] by simp
  have anc: "anchored hs sts external" using ext x by simp
  have load: "load_existing KERNEL (w_database w) scope = Inr (loaded_of hs sts)"
    using load_stored [OF st] by (simp add: load_existing_def)
  obtain m where m: "m \<le> length hs" "(case external of None \<Rightarrow> -1 | Some x \<Rightarrow> cp_revision x) = int m - 1" "external = head_before hs m"
  proof (cases external)
    case None
    with that [of 0] show thesis by (simp add: head_before_def)
  next
    case (Some c)
    then obtain i where "i < length hs" "c = snd (hs ! i)" using anc by (auto simp: anchored_def)
    with history_revision [OF h] Some that [of "Suc i"] show thesis by (auto simp: head_before_def)
  qed
  obtain conf w1 where w1: "confirm_anchored scope (loaded_of hs sts) [0..int m - 1] w = (conf, w1)" by force
  have a1: "w_anchor w1 = w_anchor w"
    using confirm_anchored_stored [OF st upgraded_refl, of "[0..int m - 1]"] w1 m(1) by auto
  from publish_live [OF p h m(1), of w1 sts] x m(3) a1 obtain rs w2 where
    pub: "publish_pending anchor None scope (loaded_of hs sts) [int m..int (length hs) - 1]
      (map_option cp_journal_head_sha256 external) w1 = (Inr rs, w2)"
    and r2: "an_read anchor (w_anchor w2) scope = Inr (head_before hs (length hs))" by auto
  obtain r w' where rec: "reconcile_anchor j scope None w = (r, w')" by force
  have r: "r = ebind (journal_load j scope w2) (\<lambda>snapshot. Inr \<lparr>rr_confirmed_revisions = conf @ rs, rr_snapshot = snapshot\<rparr>)"
    and w': "w' = w2"
    using rec j x load w1 pub m(2) last verify_external_anchored [OF h len, THEN iffD2, OF anc]
    by (auto simp: reconcile_anchor_def Let_def)
  obtain now where now: "stored (w_database w2) scope hs ts now" "\<forall>x. an_read anchor (w_anchor w2) scope = Inr x \<longrightarrow> anchored hs now x"
    "r \<in> range Inr \<longrightarrow> now = replicate (length hs) CONFIRMED"
    using reconcile_stored [OF j st ext rec] w' by auto
  have "length now = length hs" using now(1) by (simp add: stored_def)
  moreover have "load_existing KERNEL (w_database w2) scope = Inr (loaded_of hs now)"
    using load_stored [OF now(1)] by (simp add: load_existing_def)
  moreover have "nat (int (length hs) - 1) = length hs - 1" by simp
  ultimately have jl: "journal_load j scope w2 = Inr \<lparr>sn_state = fst (last hs), sn_checkpoint = snd (last hs),
      sn_anchor_status = now ! (length hs - 1)\<rparr>"
    using j r2 now(2) verify_external_anchored [OF h, of now "head_before hs (length hs)"] last ne
    by (simp add: journal_load_def external_head_def loaded_checkpoint [OF h])
  with r have "r \<in> range Inr" by simp
  with now(3) have "now = replicate (length hs) CONFIRMED" by simp
  with rec r w' jl r2 now(1) ne show ?thesis by (simp add: head_before_def last_conv_nth)
qed

end

section \<open>Founding\<close>

lemma checkpoint_for_genesis:
  assumes "create b scope ep caps = Inr s"
  shows "\<exists>c. checkpoint_for s None None = Inr c"
proof -
  have "identifier_ok (p_budget_id s)" "identifier_ok (p_scope s)" "1 \<le> p_epoch s" "p_revision s = 0"
    using assms by (auto simp: create_Inr)
  then show ?thesis by (simp add: checkpoint_for_def Let_def mk_checkpoint_ok checkpoint_ok_def)
qed

lemma initialize_body_absent:
  assumes a: "absent db scope" and s: "create b scope ep caps = Inr s" and c: "checkpoint_for s None None = Inr c"
  shows "\<exists>db'. initialize_body KERNEL s None db = Inr ((), db') \<and> stored db' scope [(s, c)] [] [PENDING]"
proof -
  have p: "p_scope s = scope" "1 \<le> p_epoch s" "identifier_ok scope" using s by (auto simp: create_Inr)
  have no: "scope \<notin> h_scope ` set (db_heads db)" "\<forall>r\<in>set (db_outbox db). ob_scope r \<noteq> scope"
    using a by (auto simp: absent_def view_def filter_empty_conv)
  let ?db1 = "db\<lparr>db_heads := db_heads db @ [fst (genesis_rows s c)]\<rparr>"
  let ?db2 = "?db1\<lparr>db_outbox := db_outbox db @ [snd (genesis_rows s c)]\<rparr>"
  have i1: "insert_head (fst (genesis_rows s c)) db = Inr ?db1"
    using no p by (simp add: insert_head_def genesis_rows_def Let_def)
  have i2: "insert_outbox (snd (genesis_rows s c)) ?db1 = Inr ?db2"
    using no p by (auto simp: insert_outbox_def genesis_rows_def intent_row_def Let_def image_iff raise_if_def)
  have "founds scope (s, c)" using s c by (auto simp: founds_def)
  from founded_stored(1) [OF a this i1 i2] have "stored ?db2 scope [(s, c)] [] [PENDING]" .
  moreover have "initialize_body KERNEL s None db = Inr ((), ?db2)"
    using load_absent [OF a p(3)] p(1) c i1 i2
    by (simp add: initialize_body_def verify_external_def case_prod_beta)
  ultimately show ?thesis by blast
qed

context trusted_anchor
begin

lemma initialize_live:
  assumes p: "progresses anchor" and j: "rj_trusted_anchor j = Some anchor" "rj_kernel j = KERNEL"
    and a: "absent (w_database w) scope" and s: "create b scope ep caps = Inr s"
    and x: "an_read anchor (w_anchor w) scope = Inr None"
  shows "\<exists>c w'. checkpoint_for s None None = Inr c \<and>
    journal_initialize j s w = (Inr \<lparr>sn_state = s, sn_checkpoint = c, sn_anchor_status = CONFIRMED\<rparr>, w') \<and>
    stored (w_database w') scope [(s, c)] [] [CONFIRMED] \<and> an_read anchor (w_anchor w') scope = Inr (Some c)"
proof -
  obtain c where c: "checkpoint_for s None None = Inr c" using checkpoint_for_genesis [OF s] ..
  obtain db' where b: "initialize_body KERNEL s None (w_database w) = Inr ((), db')" "stored db' scope [(s, c)] [] [PENDING]"
    using initialize_body_absent [OF a s c] by blast
  have g: "p_scope s = scope" "p_revision s = 0" "create (p_budget_id s) scope (p_epoch s) (p_hard_caps s) = Inr s"
    using s by (auto simp: create_Inr)
  let ?w1 = "w\<lparr>w_database := db'\<rparr>"
  have k: "keeps anchor ?w1 scope [(s, c)] []" using b(2) x by (auto simp: keeps_def anchored_def)
  obtain res w' where "reconcile_anchor j scope None ?w1 = (Inr res, w')"
    "rr_snapshot res = \<lparr>sn_state = s, sn_checkpoint = c, sn_anchor_status = CONFIRMED\<rparr>"
    "an_read anchor (w_anchor w') scope = Inr (Some c)" "stored (w_database w') scope [(s, c)] [] [CONFIRMED]"
    using reconcile_live [OF p j k, of None] x by auto
  with c j x b(1) g show ?thesis
    by (auto simp: journal_initialize_def external_head_def transaction_def Let_def)
qed

end

section \<open>The file anchor gets through\<close>

lemma hex_char_facts:
  "hex_digit_value (hex_char d) = d mod 16" "is_hex_digit (hex_char d)" "\<not> ascii_space (hex_char d)"
proof -
  show "hex_digit_value (hex_char d) = d mod 16" using hex_digit_value_hex_char by simp
  have c: "hex_char d \<in> set ''0123456789abcdef''" by (rule hex_char_cases)
  then show "is_hex_digit (hex_char d)" by (auto simp: is_hex_digit_def)
  show "\<not> ascii_space (hex_char d)" using c by (auto simp: ascii_space_def)
qed

lemma bytes_fromhex_hex: "bytes_fromhex (bytes_hex bs) = Some bs"
proof (induction bs)
  case (Cons b bs)
  have "unat b < 256" using unsigned_less [of b] by simp
  then have "16 * (unat b div 16 mod 16) + unat b mod 16 = unat b" by simp
  moreover have "show_hex 2 (unat b) = [hex_char (unat b div 16), hex_char (unat b)]" by (simp add: numeral_2_eq_2)
  ultimately show ?case using Cons.IH by (simp add: bytes_hex_def hex_char_facts)
qed (simp add: bytes_hex_def)

text \<open>The key signs what the pinned key verifies.\<close>

definition signs :: "file_anchor \<Rightarrow> byte list \<Rightarrow> bool" where
  "signs fa key \<longleftrightarrow>
     fa_signing_key fa = Some key \<and>
     (\<forall>m. sg_verify (fa_scheme fa) (fa_verify_key fa) m (sg_sign (fa_scheme fa) key m))"

lemma decode_signed:
  assumes c: "checkpoint_ok c" and s: "signs fa key"
  shows "decode_record fa (record_name c, json_bytes (signed_envelope fa key c)) = Inr c"
proof -
  let ?kvs = "[(''checkpoint'', checkpoint_to_dict c), (''signature_algorithm'', JStr ''Ed25519''),
      (''signer_public_key'', JStr (bytes_hex (fa_verify_key fa))),
      (''signature'', JStr (bytes_hex (sg_sign (fa_scheme fa) key (signing_bytes c))))]"
  have e: "signed_envelope fa key c = JObj ?kvs" by (simp add: signed_envelope_def)
  obtain kvs where k: "canonical (JObj ?kvs) = JObj kvs" and r: "reread ?kvs kvs"
    by (rule canonical_reread [of ?kvs]) simp
  obtain ci where ci: "canonical (JObj (checkpoint_items c)) = JObj ci" and rc: "reread (checkpoint_items c) ci"
    by (rule canonical_reread [of "checkpoint_items c"]) (simp add: checkpoint_items_def)
  have "json_loads (json_dumps (JObj ?kvs)) = Some (JObj kvs)"
    using json_loads_dumps [of "JObj ?kvs"] k checkpoint_keys_ok [of c] by simp
  moreover have "json_bytes (JObj kvs) = json_bytes (JObj ?kvs)" using json_bytes_canonical [of "JObj ?kvs"] k by simp
  moreover have "member kvs ''checkpoint'' = JObj ci" "member kvs ''signature_algorithm'' = JStr ''Ed25519''"
    "member kvs ''signer_public_key'' = JStr (bytes_hex (fa_verify_key fa))"
    "member kvs ''signature'' = JStr (bytes_hex (sg_sign (fa_scheme fa) key (signing_bytes c)))"
    using ci unfolding reread_member [OF r] by (simp_all add: checkpoint_to_dict_def)
  moreover have "fst ` set kvs = {''checkpoint'', ''signature_algorithm'', ''signer_public_key'', ''signature''}"
    unfolding reread_keys [OF r] by simp
  moreover have "checkpoint_from_dict ci = Inr c" by (rule checkpoint_from_dict_Inr [OF rc c])
  moreover have "json_bytes (JObj ?kvs) = utf8_encode (json_dumps (JObj ?kvs))" by (simp only: json_bytes_def)
  ultimately show ?thesis
    using s unfolding decode_record_def e
    by (simp add: utf8_decode_encode expect_mapping_def expect_keys_def want_hex_def want_str_def bytes_fromhex_hex
        value_error_as_def signs_def del: json_dumps.simps)
qed

lemma revision_020d_digits: "list_all is_digit (revision_020d r)"
  using show_nat_digits [of "nat r"] by (auto simp: revision_020d_def Let_def list_all_iff is_digit_def)

lemma read_revision_020d: "read_nat (revision_020d r) = nat r"
proof -
  have "foldl (\<lambda>n c. 10 * n + digit_value c) 0 (replicate k (CHR ''0'') @ s) = foldl (\<lambda>n c. 10 * n + digit_value c) 0 s" for k s
    by (induction k) (simp_all add: digit_value_def)
  then show ?thesis using read_show_nat [of "nat r"] by (simp add: revision_020d_def read_nat_def Let_def)
qed

lemma record_name_revision:
  assumes "record_name c = record_name d" and "cp_scope c = cp_scope d"
  shows "nat (cp_revision c) = nat (cp_revision d)"
proof -
  have "takeWhile is_digit (revision_020d r @ CHR ''.'' # s) = revision_020d r" for r s
    using revision_020d_digits [of r] by (simp add: takeWhile_append list_all_iff is_digit_def)
  with assms have "revision_020d (cp_revision c) = revision_020d (cp_revision d)"
    unfolding record_name_def by (metis append_Cons append_Nil same_append_eq)
  then show ?thesis by (metis read_revision_020d)
qed

lemma compare_and_set_live:
  assumes s: "signs fa key" and c: "checkpoint_ok c" and x: "anchor_read fa dir (cp_scope c) = Inr current"
    and f: "follows current e c"
  shows "\<exists>dir'. compare_and_set fa dir e c = (Inr c, dir')"
proof -
  obtain cs where cs: "read_all_unlocked fa dir (cp_scope c) = Inr cs" and cur: "current = (if cs = [] then None else Some (last cs))"
    using x by (auto simp: anchor_read_Inr)
  have lk: "linked cs" "records fa dir (cp_scope c) = set cs" "\<forall>x\<in>set cs. cp_scope x = cp_scope c"
    and def: "\<forall>f\<in>set dir. glob_record (scope_key (cp_scope c)) (fst f) \<longrightarrow> (\<exists>c. decode_record fa f = Inr c)"
    using cs by (auto simp: read_all_Inr)
  have rev: "cp_revision c = int (length cs)"
    using cas_predecessor_links(2) [of cs e c] f lk c cur by (simp add: follows_def)
  have "map_of dir (record_name c) = None"
  proof (rule ccontr)
    assume "map_of dir (record_name c) \<noteq> None"
    then obtain raw where "(record_name c, raw) \<in> set dir" by (auto dest: map_of_SomeD)
    moreover from this obtain d where d: "decode_record fa (record_name c, raw) = Inr d"
      using def glob_record_name [of c] by fastforce
    ultimately have "d \<in> set cs" using lk(2) glob_record_name [of c] by (force simp: records_def)
    then have "cp_scope d = cp_scope c" "nat (cp_revision d) < length cs" using lk by (auto simp: linked_def in_set_conv_nth)
    with record_name_revision [of c d] decode_name [OF d] rev show False by simp
  qed
  then show ?thesis
    using s f c cs cur decode_signed [OF c s]
    by (auto simp: compare_and_set_def signs_def follows_def publish_record_def Let_def)
qed

lemma file_anchor_progresses: "signs fa key \<Longrightarrow> progresses (file_anchor_store fa)"
  using compare_and_set_live by (auto simp: progresses_def)

end
