(* ===== verification/Py_Digest.thy ===== *)
theory Py_Digest
  imports Py_Sha256
begin

text \<open>
  What a content hash commits to. No lemma assumes that SHA-256 is free of collisions: a statement that
  rests on it concludes with a collision between texts that it names.
\<close>

definition collision :: "byte list list \<Rightarrow> byte list list \<Rightarrow> bool" where
  "collision xs ys \<longleftrightarrow> (\<exists>x\<in>set xs. \<exists>y\<in>set ys. x \<noteq> y \<and> sha256_hex x = sha256_hex y)"

lemma same_digest: "sha256_hex x = sha256_hex y \<Longrightarrow> x \<in> set xs \<Longrightarrow> y \<in> set ys \<Longrightarrow> x = y \<or> collision xs ys"
  by (auto simp: collision_def)

lemma collision_mono: "collision xs ys \<Longrightarrow> set xs \<subseteq> set xs' \<Longrightarrow> set ys \<subseteq> set ys' \<Longrightarrow> collision xs' ys'"
  unfolding collision_def by blast

section \<open>Tags under a key\<close>

text \<open>
  \<^verbatim>\<open>hmac.new(key, message, hashlib.sha256)\<close>: two passes of SHA-256 under a key that is hashed when it is
  longer than a block and padded with zeros otherwise. Equal tags of different messages exhibit a
  collision in one of the passes.
\<close>

section \<open>The digest as bytes\<close>

definition word_bytes :: "32 word \<Rightarrow> byte list" where
  "word_bytes w = map (\<lambda>i. ucast (drop_bit (8 * i) w)) [3, 2, 1, 0]"

definition sha256_words :: "byte list \<Rightarrow> 32 word list" where
  "sha256_words m = state_words (foldl sha_compress sha_init (chunks 64 (sha_pad m)))"

definition sha256_digest :: "byte list \<Rightarrow> byte list" where
  "sha256_digest m = concat (map word_bytes (sha256_words m))"

lemma sha256_hex_words: "sha256_hex m = concat (map hex_of_word (sha256_words m))"
  by (simp add: sha256_hex_def sha256_words_def)

lemma length_sha256_words [simp]: "length (sha256_words m) = 8"
  by (simp add: sha256_words_def)

lemma length_word_bytes [simp]: "length (word_bytes w) = 4"
  by (simp add: word_bytes_def)

lemma length_sha256_digest [simp]: "length (sha256_digest m) = 32"
  by (simp add: sha256_digest_def length_concat comp_def sum_list_triv)

lemma word_bytes_inject: "word_bytes v = word_bytes w \<Longrightarrow> v = w"
proof -
  assume eq: "word_bytes v = word_bytes w"
  have octet: "bit x n \<longleftrightarrow> bit (ucast (drop_bit (8 * (n div 8)) x) :: byte) (n mod 8)" if "n < 32" for n and x :: "32 word"
    using that by (simp add: bit_simps)
  have parts: "ucast (drop_bit (8 * i) v) = (ucast (drop_bit (8 * i) w) :: byte)" if "i \<in> {0, 1, 2, 3}" for i
    using eq that by (auto simp: word_bytes_def)
  show "v = w"
  proof (rule bit_word_eqI)
    fix n assume "n < LENGTH(32)"
    then have n: "n < 32" by simp
    then have "n div 8 \<in> {0, 1, 2, 3}" by auto
    with parts octet [OF n, of v] octet [OF n, of w] show "bit v n = bit w n" by simp
  qed
qed

lemma concat_words_inject:
  "length xs = length ys \<Longrightarrow> concat (map word_bytes xs) = concat (map word_bytes ys) \<Longrightarrow> xs = ys"
  by (induction xs ys rule: list_induct2) (auto dest: word_bytes_inject)

lemma same_digest_bytes: "sha256_digest x = sha256_digest y \<Longrightarrow> sha256_hex x = sha256_hex y"
  unfolding sha256_digest_def sha256_hex_words by (drule concat_words_inject [rotated]) simp_all

section \<open>Tags\<close>

definition hmac_key :: "byte list \<Rightarrow> byte list" where
  "hmac_key key = (let k = (if 64 < length key then sha256_digest key else key) in k @ replicate (64 - length k) 0)"

definition hmac_inner :: "byte list \<Rightarrow> byte list \<Rightarrow> byte list" where
  "hmac_inner key message = map (xor 0x36) (hmac_key key) @ message"

definition hmac_outer :: "byte list \<Rightarrow> byte list \<Rightarrow> byte list" where
  "hmac_outer key message = map (xor 0x5C) (hmac_key key) @ sha256_digest (hmac_inner key message)"

definition hmac_sha256_hex :: "byte list \<Rightarrow> byte list \<Rightarrow> string" where
  "hmac_sha256_hex key message = sha256_hex (hmac_outer key message)"

lemma hmac_tag_shape: "length (hmac_sha256_hex key m) = 64" "str_lower (hmac_sha256_hex key m) = hmac_sha256_hex key m"
  "list_all (\<lambda>c. c \<in> set hexdigits) (hmac_sha256_hex key m)"
  by (simp_all add: hmac_sha256_hex_def)

definition hmac_texts :: "byte list \<Rightarrow> byte list \<Rightarrow> byte list list" where
  "hmac_texts key message = [hmac_inner key message, hmac_outer key message]"

lemma same_tag:
  assumes "hmac_sha256_hex key m = hmac_sha256_hex key m'"
  shows "m = m' \<or> collision (hmac_texts key m) (hmac_texts key m')"
proof -
  from assms have "hmac_outer key m = hmac_outer key m' \<or> collision (hmac_texts key m) (hmac_texts key m')"
    unfolding hmac_sha256_hex_def by (rule same_digest) (simp_all add: hmac_texts_def)
  then show ?thesis
  proof
    assume "hmac_outer key m = hmac_outer key m'"
    then have "sha256_digest (hmac_inner key m) = sha256_digest (hmac_inner key m')" by (simp add: hmac_outer_def)
    from same_digest [OF same_digest_bytes [OF this], of "hmac_texts key m" "hmac_texts key m'"]
    show ?thesis by (auto simp: hmac_texts_def hmac_inner_def)
  qed simp
qed

end
