(* ===== verification/Journal_Tamper.thy ===== *)
theory Journal_Tamper
  imports Journal_Live Resource_Kernel Py_Digest
begin

text \<open>
  What the hash chain commits to. The preimage of a journal head determines every field of its
  checkpoint, so two journals with the same head record the same checkpoints or exhibit two different
  preimages, both among their own, with the same SHA-256.
\<close>

section \<open>Preimages are injective\<close>

lemma json_opt_inject [simp]: "json_opt JStr x = json_opt JStr y \<longleftrightarrow> x = y"
  by (cases x; cases y; simp add: json_opt_def)

lemma vector_dict_inject: "canonical (vector_to_dict v) = canonical (vector_to_dict w) \<Longrightarrow> v = w"
  by (metis vector_from_json_canonical sum.inject(2))

definition budget_items :: "resource_budget \<Rightarrow> json_dict" where
  "budget_items b =
     [(''schema_version'', JStr (b_schema_version b)), (''budget_id'', JStr (b_budget_id b)),
      (''scope'', JStr (b_scope b)), (''epoch'', JInt (b_epoch b)), (''hard_caps'', vector_to_dict (b_hard_caps b))]"

lemma budget_dict_inject:
  assumes "canonical (budget_to_dict b) = canonical (budget_to_dict b')"
  shows "b = b'"
proof -
  have d: "budget_to_dict b = JObj (budget_items b)" for b by (simp add: budget_to_dict_def budget_items_def)
  have m: "map_option canonical (map_of (budget_items b) k) = map_option canonical (map_of (budget_items b') k)" for k
    by (rule canonical_members) (use assms in \<open>simp_all only: d\<close>, simp_all add: budget_items_def)
  have f: "b_schema_version b = b_schema_version b'" "b_budget_id b = b_budget_id b'" "b_scope b = b_scope b'"
    "b_epoch b = b_epoch b'"
    using m [of "''schema_version''"] m [of "''budget_id''"] m [of "''scope''"] m [of "''epoch''"]
    by (simp_all add: budget_items_def)
  have "b_hard_caps b = b_hard_caps b'"
    using m [of "''hard_caps''"] by (intro vector_dict_inject) (simp add: budget_items_def)
  with f show ?thesis by simp
qed

definition preimage_items :: "resource_budget \<Rightarrow> checkpoint \<Rightarrow> json_dict" where
  "preimage_items b c =
       [(''journal_schema_version'', JStr JOURNAL_SCHEMA_VERSION),
        (''codec_version'', JStr CODEC_VERSION),
        (''kernel_schema_version'', JStr SCHEMA_VERSION),
        (''engine_rule_sha256'', JStr ENGINE_RULE_SHA256),
        (''budget'', budget_to_dict b),
        (''revision'', JInt (cp_revision c)),
        (''state_sha256'', JStr (cp_state_sha256 c)),
        (''previous_journal_head_sha256'', json_opt JStr (cp_previous_journal_head_sha256 c)),
        (''command_id'', json_opt JStr (cp_command_id c)),
        (''command_sha256'', json_opt JStr (cp_command_sha256 c)),
        (''transition_sha256'', json_opt JStr (cp_transition_sha256 c)),
        (''receipt_sha256'', json_opt JStr (cp_receipt_sha256 c))]"

text \<open>The bytes whose SHA-256 is the checkpoint's journal head.\<close>

definition head_preimage :: "resource_budget \<Rightarrow> checkpoint \<Rightarrow> byte list" where
  "head_preimage b c =
     journal_head_preimage b (cp_revision c) (cp_state_sha256 c) (cp_previous_journal_head_sha256 c)
       (cp_command_id c) (cp_command_sha256 c) (cp_transition_sha256 c) (cp_receipt_sha256 c)"

lemma head_preimage_items: "head_preimage b c = utf8_encode JOURNAL_DOMAIN @ json_bytes (JObj (preimage_items b c))"
  by (simp only: head_preimage_def journal_head_preimage_def preimage_items_def)

lemma head_preimage_inject:
  assumes "head_preimage b c = head_preimage b' c'"
  shows "b = b'" and "cp_revision c = cp_revision c'" and "cp_state_sha256 c = cp_state_sha256 c'"
    and "cp_previous_journal_head_sha256 c = cp_previous_journal_head_sha256 c'"
    and "cp_command_id c = cp_command_id c'" and "cp_command_sha256 c = cp_command_sha256 c'"
    and "cp_transition_sha256 c = cp_transition_sha256 c'" and "cp_receipt_sha256 c = cp_receipt_sha256 c'"
proof -
  have e: "canonical (JObj (preimage_items b c)) = canonical (JObj (preimage_items b' c'))"
    using assms unfolding head_preimage_items same_append_eq json_bytes_inject .
  have d: "distinct (map fst (preimage_items b c))" for b c by (simp add: preimage_items_def)
  have m: "map_option canonical (map_of (preimage_items b c) k) = map_option canonical (map_of (preimage_items b' c') k)" for k
    by (rule canonical_members [OF e d d])
  show "b = b'" using m [of "''budget''"] by (intro budget_dict_inject) (simp add: preimage_items_def)
  show "cp_revision c = cp_revision c'" "cp_state_sha256 c = cp_state_sha256 c'"
    using m [of "''revision''"] m [of "''state_sha256''"] by (simp_all add: preimage_items_def)
  show "cp_previous_journal_head_sha256 c = cp_previous_journal_head_sha256 c'" "cp_command_id c = cp_command_id c'"
    using m [of "''previous_journal_head_sha256''"] m [of "''command_id''"] by (simp_all add: preimage_items_def)
  show "cp_command_sha256 c = cp_command_sha256 c'" "cp_transition_sha256 c = cp_transition_sha256 c'"
    using m [of "''command_sha256''"] m [of "''transition_sha256''"] by (simp_all add: preimage_items_def)
  show "cp_receipt_sha256 c = cp_receipt_sha256 c'" using m [of "''receipt_sha256''"] by (simp add: preimage_items_def)
qed

section \<open>Equal heads, equal histories\<close>

lemma history_head:
  assumes h: "history scope hs ts" and sc: "sc \<in> set hs"
  shows "cp_journal_head_sha256 (snd sc) = sha256_hex (head_preimage (state_budget (fst sc)) (snd sc))"
proof -
  have "\<exists>previous t. checkpoint_for (fst sc) previous t = Inr (snd sc)"
    using history_induct_members [OF h, where P = "\<lambda>sc. \<exists>previous t. checkpoint_for (fst sc) previous t = Inr (snd sc)"] sc
    by (auto simp: founds_def commits_def)
  then show ?thesis using checkpoint_for_fields by (auto simp: head_preimage_def)
qed

definition head_preimages :: "loaded_journal \<Rightarrow> byte list list" where
  "head_preimages l = map (head_preimage (state_budget (ld_state l))) (ld_checkpoints l)"

lemma same_checkpoint:
  assumes h: "history scope hs ts" "history scope' hs' ts'" and sc: "sc \<in> set hs" "sc' \<in> set hs'"
    and e: "cp_journal_head_sha256 (snd sc) = cp_journal_head_sha256 (snd sc')"
  shows "snd sc = snd sc' \<or>
    head_preimage (state_budget (fst sc)) (snd sc) \<noteq> head_preimage (state_budget (fst sc')) (snd sc') \<and>
    sha256_hex (head_preimage (state_budget (fst sc)) (snd sc)) = sha256_hex (head_preimage (state_budget (fst sc')) (snd sc'))"
proof (cases "head_preimage (state_budget (fst sc)) (snd sc) = head_preimage (state_budget (fst sc')) (snd sc')")
  case True
  note inj = head_preimage_inject [OF True]
  have ok: "checkpoint_ok (snd sc)" "checkpoint_ok (snd sc')" using h sc by (auto intro: history_checkpoint_ok)
  have "p_budget_id (fst sc) = p_budget_id (fst sc')" "p_scope (fst sc) = p_scope (fst sc')" "p_epoch (fst sc) = p_epoch (fst sc')"
    using inj(1) by (auto simp: state_budget_def)
  moreover have "p_scope (fst sc) = scope" "p_scope (fst sc') = scope'"
    using history_revision [OF h(1)] history_revision [OF h(2)] sc by (auto simp: in_set_conv_nth)
  ultimately have "snd sc = snd sc'"
    using inj e ok history_identity [OF h(1) sc(1)] history_identity [OF h(2) sc(2)]
    by (auto simp: checkpoint_ok_def)
  then show ?thesis ..
next
  case False
  then show ?thesis using e history_head [OF h(1) sc(1)] history_head [OF h(2) sc(2)] by simp
qed

lemma same_head_same_checkpoints:
  assumes "history scope hs ts" and "history scope' hs' ts'"
    and "cp_journal_head_sha256 (snd (last hs)) = cp_journal_head_sha256 (snd (last hs'))"
  shows "map snd hs = map snd hs' \<or>
    (\<exists>sc\<in>set hs. \<exists>sc'\<in>set hs'. head_preimage (state_budget (fst sc)) (snd sc) \<noteq> head_preimage (state_budget (fst sc')) (snd sc') \<and>
      sha256_hex (head_preimage (state_budget (fst sc)) (snd sc)) = sha256_hex (head_preimage (state_budget (fst sc')) (snd sc')))"
  using assms
proof (induction arbitrary: hs' ts' rule: history.induct)
  case (genesis sc)
  have h: "history scope [sc] []" using genesis(1) by (rule history.genesis)
  show ?case
  proof (cases "snd sc = snd (last hs')")
    case True
    then have "cp_revision (snd (last hs')) = 0" using genesis(1) history_last(3) [OF h] by simp
    then have "ts' = []" using history_last(3) [OF genesis(2)] by simp
    then obtain x where "hs' = [x]" using history_length [OF genesis(2)] by (auto simp: length_Suc_conv)
    with True show ?thesis by simp
  next
    case False
    with same_checkpoint [OF h genesis(2) _ last_member [OF genesis(2)], of sc] genesis(3) last_member [OF genesis(2)]
    show ?thesis by auto
  qed
next
  case (commit hs ts t sc)
  have h: "history scope (hs @ [sc]) (ts @ [t])" using commit(1,2) by (rule history.commit)
  note lm = last_member [OF commit(4)]
  show ?case
  proof (cases "snd sc = snd (last hs')")
    case True
    have "cp_revision (snd sc) \<noteq> 0" using history_last(3) [OF h] by simp
    with True have "ts' \<noteq> []" using history_last(3) [OF commit(4)] by auto
    with commit(4) obtain hs0 ts0 t0 sc0 where h0: "hs' = hs0 @ [sc0]" "history scope' hs0 ts0" "commits (last hs0) t0 sc0"
      by (cases rule: history.cases) auto
    have "cp_journal_head_sha256 (snd (last hs)) = cp_journal_head_sha256 (snd (last hs0))"
      using True commit(2) h0(1,3) by (auto simp: commits_def checkpoint_for_fields(6) dest!: checkpoint_for_fields(6))
    from commit.IH [OF h0(2) this] True h0(1) show ?thesis by auto
  next
    case False
    with same_checkpoint [OF h commit(4) _ lm, of sc] commit(5) lm show ?thesis by auto
  qed
qed

lemma history_budgets:
  "history scope hs ts \<Longrightarrow> sc \<in> set hs \<Longrightarrow> state_budget (fst sc) = state_budget (fst (last hs))"
  using history_budget [of scope hs ts sc] history_budget [of scope hs ts "last hs"] last_member [of scope hs ts] by simp

end
