(* ===== verification/Journal_Properties.thy ===== *)
theory Journal_Properties
  imports Journal_Tamper
begin

text \<open>
  The properties of the durable journal: what is loaded, what an operation leaves, what the external
  anchor detects, and when the journal gets through, over the signed file anchor.
\<close>

section \<open>Journals on the file anchor\<close>

definition empty_world :: "directory world" where
  "empty_world = \<lparr>w_database = empty_database, w_anchor = []\<rparr>"

lemma empty_consistent: "\<forall>s\<in>scopes. consistent (file_anchor_store fa) empty_world s"
proof -
  have "x = None" if "anchor_read fa [] s = Inr x" for x s
    using that by (auto simp: anchor_read_Inr read_all_Inr records_def)
  then show ?thesis
    by (auto simp: consistent_def empty_world_def absent_def view_def empty_database_def)
qed

lemma load_existing_Inr: "load_existing KERNEL db scope = Inr l \<longleftrightarrow> load_connection KERNEL db scope False = Inr (Some l)"
  by (cases "load_connection KERNEL db scope False") (auto simp: load_existing_def split: option.splits)

text \<open>A world that the operations reached, and a journal in it.\<close>

lemma loaded_keeps:
  assumes "(journal_step (file_anchor_store fa) scopes)\<^sup>*\<^sup>* empty_world w" and "inj_on scope_key scopes" and "scope \<in> scopes"
    and "load_existing KERNEL (w_database w) scope = Inr l"
  obtains hs ts sts where "stored (w_database w) scope hs ts sts" and "l = loaded_of hs sts"
    and "\<forall>x. anchor_read fa (w_anchor w) scope = Inr x \<longrightarrow> anchored hs sts x"
proof -
  have c: "consistent (file_anchor_store fa) w scope"
    using file_store.steps_consistent [OF assms(1,2) empty_consistent] assms(3) by blast
  have "\<not> absent (w_database w) scope"
    using assms(4) by (auto simp: load_existing_Inr load_connection_def absent_def view_def find_filter result_simps)
  with c obtain hs ts sts where k: "stored (w_database w) scope hs ts sts"
    "\<forall>x. anchor_read fa (w_anchor w) scope = Inr x \<longrightarrow> anchored hs sts x"
    by (auto simp: consistent_def keeps_def)
  with load_stored [OF k(1)] assms(4) that show thesis by (simp add: load_existing_Inr)
qed

lemma stored_load: "stored db scope hs ts sts \<Longrightarrow> load_existing KERNEL db scope = Inr (loaded_of hs sts)"
  by (simp add: load_existing_Inr load_stored)

section \<open>A sample journal\<close>

definition sample_scheme :: signature_scheme where
  "sample_scheme = \<lparr>sg_public_key = (\<lambda>_. replicate 32 7), sg_sign = (\<lambda>_ m. take 4 m),
     sg_verify = (\<lambda>k m s. k = replicate 32 7 \<and> s = take 4 m)\<rparr>"

definition sample_anchor :: file_anchor where
  "sample_anchor = \<lparr>fa_scheme = sample_scheme, fa_signing_key = Some [1], fa_verify_key = replicate 32 7\<rparr>"

lemma sample_anchor_opened: "open_file_anchor sample_scheme (Some [1]) None = Inr sample_anchor"
  by (simp add: open_file_anchor_def sample_scheme_def sample_anchor_def)

lemma sample_signs: "signs sample_anchor [1]"
  by (simp add: signs_def sample_anchor_def sample_scheme_def)

definition sample_journal :: "directory resource_journal" where
  "sample_journal = \<lparr>rj_trusted_anchor = Some (file_anchor_store sample_anchor), rj_kernel = KERNEL,
     rj_failure_inject_after_commit = None\<rparr>"

lemma sample_opened: "open_journal (Some (file_anchor_store sample_anchor)) KERNEL None = Inr sample_journal"
  by (simp add: open_journal_Inr sample_journal_def)

text \<open>The world after the sample budget was initialised.\<close>

lemma sample_world:
  obtains c w where "(journal_step (file_anchor_store sample_anchor) {''s''})\<^sup>*\<^sup>* empty_world w"
    and "stored (w_database w) ''s'' [(sample_state, c)] [] [CONFIRMED]"
    and "anchor_read sample_anchor (w_anchor w) ''s'' = Inr (Some c)" and "checkpoint_for sample_state None None = Inr c"
proof -
  have a: "absent (w_database empty_world) ''s''" by (simp add: empty_world_def absent_def view_def empty_database_def)
  have x: "anchor_read sample_anchor [] ''s'' = Inr None"
    by (simp add: anchor_read_Inr read_all_Inr records_def linked_def text_ok)
  from file_store.initialize_live [OF file_anchor_progresses [OF sample_signs], of sample_journal empty_world, OF _ _ a sample_created] x
  obtain c w where w: "checkpoint_for sample_state None None = Inr c"
    "journal_initialize sample_journal sample_state empty_world =
       (Inr \<lparr>sn_state = sample_state, sn_checkpoint = c, sn_anchor_status = CONFIRMED\<rparr>, w)"
    "stored (w_database w) ''s'' [(sample_state, c)] [] [CONFIRMED]" "anchor_read sample_anchor (w_anchor w) ''s'' = Inr (Some c)"
    by (auto simp: sample_journal_def empty_world_def)
  have "journal_step (file_anchor_store sample_anchor) {''s''} empty_world w"
    by (rule journal_step.initialized [OF sample_opened _ w(2)]) (simp add: sample_state_def)
  with that w show thesis by blast
qed

section \<open>What is loaded\<close>

text \<open>C14: Nothing but a reachable state is ever loaded. Whatever bytes the three tables hold, if the
  load of a scope succeeds under the default kernel, the state it returns is one that some sequence of
  constructible commands reaches from a created budget.\<close>

theorem loaded_state_is_reachable:
  assumes "load_connection DEFAULT_RESOURCE_KERNEL db scope allow_missing = Inr (Some l)"
  shows "reachable (ld_state l)"
proof -
  obtain hs ts sts where "history scope hs ts" "l = loaded_of hs sts" using load_history [OF assms] .
  with history_last(4) show ?thesis by simp
qed

theorem loaded_state_is_reachable_witness:
  "\<exists>db l. load_connection DEFAULT_RESOURCE_KERNEL db ''s'' False = Inr (Some l) \<and> reachable (ld_state l)"
proof -
  obtain c and w :: "directory world" where "stored (w_database w) ''s'' [(sample_state, c)] [] [CONFIRMED]" by (rule sample_world) blast
  note load = load_stored [OF this, of False]
  from load loaded_state_is_reachable [OF load] show ?thesis by (intro exI conjI)
qed

text \<open>C15: A decision survives the disk. The transition of any decision that the kernel takes on a
  well-formed state is read back from its canonical blob as the same transition.\<close>

theorem decided_transition_roundtrip:
  assumes "reachable s" and "command_ok c" and "decide s c = Inr d" and "t \<in> set (d_transitions d)"
  shows "transition_from_blob (transition_blob t) = Inr t"
  by (rule transition_blob_read [OF decided_transition_ok [OF reachable_ok [OF assms(1)] assms(2-4)]])

theorem decided_transition_roundtrip_witness:
  "\<exists>t. t_command t = RequestGrant sample_request \<and> transition_from_blob (transition_blob t) = Inr t"
proof -
  have c: "command_ok (RequestGrant sample_request)" using sample_request_ok by simp
  have "command_id (RequestGrant sample_request) \<notin> cr_command_id ` set (s_command_records sample_state)"
    by (simp add: sample_state_def)
  from decide_fresh_command [OF reachable_ok [OF sample_reachable] c this]
  obtain a q where d: "decide sample_state (RequestGrant sample_request) =
      Inr (fresh_decision (step_transition sample_state (RequestGrant sample_request) a q))" by blast
  from decided_transition_roundtrip [OF sample_reachable c d]
  show ?thesis
    by (intro exI [of _ "step_transition sample_state (RequestGrant sample_request) a q"]) (simp add: fresh_decision_def)
qed

section \<open>What an operation leaves\<close>

text \<open>C9: Applying a command is atomic and is the kernel's submission, across failures. In any world
  that operations (with any callbacks raising) have reached, after apply the journal loads; if apply
  returned, its state is the submission of the command to the state before; if it raised, it is that
  or the state before.\<close>

theorem apply_refines_submit:
  assumes "(journal_step (file_anchor_store fa) scopes)\<^sup>*\<^sup>* empty_world w" and "inj_on scope_key scopes" and "scope \<in> scopes"
    and "open_journal (Some (file_anchor_store fa)) DEFAULT_RESOURCE_KERNEL inject = Inr j"
    and "load_existing DEFAULT_RESOURCE_KERNEL (w_database w) scope = Inr l" and "command_ok c"
    and "journal_apply j scope c expected_revision w = (r, w')"
  shows "\<exists>l'. load_existing DEFAULT_RESOURCE_KERNEL (w_database w') scope = Inr l' \<and>
    (case r of
       Inl _ \<Rightarrow> ld_state l' = ld_state l \<or> submit (ld_state l) c = Inr (ld_state l')
     | Inr _ \<Rightarrow> submit (ld_state l) c = Inr (ld_state l'))"
proof -
  have j: "rj_trusted_anchor j = Some (file_anchor_store fa)" "rj_kernel j = KERNEL" using assms(4) by (auto simp: open_journal_Inr)
  obtain hs ts sts where st: "stored (w_database w) scope hs ts sts" and l: "l = loaded_of hs sts"
    and ext: "\<forall>x. anchor_read fa (w_anchor w) scope = Inr x \<longrightarrow> anchored hs sts x"
    using loaded_keeps [OF assms(1-3,5)] .
  obtain hs' ts' now where st': "stored (w_database w') scope hs' ts' now"
    and a: "hs' = hs \<and> ts' = ts \<or> (\<exists>sc t. hs' = hs @ [sc] \<and> ts' = ts @ [t] \<and> submit (fst (last hs)) c = Inr (fst sc))"
    and b: "r \<in> range Inr \<longrightarrow> submit (fst (last hs)) c = Inr (fst (last hs'))"
    using file_store.apply_stored [OF j st _ assms(6,7)] ext by auto
  show ?thesis
    using a b by (intro exI [of _ "loaded_of hs' now"] conjI stored_load [OF st'])
      (auto simp: l image_iff split: sum.splits)
qed

theorem apply_refines_submit_witness:
  "\<exists>w l l'. load_existing DEFAULT_RESOURCE_KERNEL (w_database w) ''s'' = Inr l \<and> ld_state l = sample_state \<and>
     load_existing DEFAULT_RESOURCE_KERNEL
       (w_database (snd (journal_apply sample_journal ''s'' (RequestGrant sample_request) None w))) ''s'' = Inr l' \<and>
     (ld_state l' = ld_state l \<or> submit (ld_state l) (RequestGrant sample_request) = Inr (ld_state l'))"
proof -
  obtain cp and w :: "directory world" where w: "(journal_step (file_anchor_store sample_anchor) {''s''})\<^sup>*\<^sup>* empty_world w"
    "stored (w_database w) ''s'' [(sample_state, cp)] [] [CONFIRMED]" by (rule sample_world) blast
  have i: "inj_on scope_key {''s''}" "''s'' \<in> {''s''}" by simp_all
  have c: "command_ok (RequestGrant sample_request)" using sample_request_ok by simp
  obtain r w' where r: "journal_apply sample_journal ''s'' (RequestGrant sample_request) None w = (r, w')" by force
  note load = stored_load [OF w(2)]
  let ?l = "loaded_of [(sample_state, cp)] [CONFIRMED]"
  obtain l' where "load_existing KERNEL (w_database w') ''s'' = Inr l'"
    "case r of Inl _ \<Rightarrow> ld_state l' = ld_state ?l \<or> submit (ld_state ?l) (RequestGrant sample_request) = Inr (ld_state l')
     | Inr _ \<Rightarrow> submit (ld_state ?l) (RequestGrant sample_request) = Inr (ld_state l')"
    using apply_refines_submit [OF w(1) i sample_opened load c r] by blast
  moreover from this(2) have "ld_state l' = ld_state ?l \<or> submit (ld_state ?l) (RequestGrant sample_request) = Inr (ld_state l')"
    by (cases r) simp_all
  ultimately show ?thesis using load r by (intro exI [of _ w] exI [of _ ?l] exI [of _ l']) simp
qed

text \<open>C13: History is never rewritten. Whatever operations follow, by whatever journals, however they
  fail, the checkpoints loaded before are a prefix of the checkpoints loaded after.\<close>

theorem history_only_grows:
  assumes "(journal_step (file_anchor_store fa) scopes)\<^sup>*\<^sup>* empty_world w" and "inj_on scope_key scopes" and "scope \<in> scopes"
    and "load_existing DEFAULT_RESOURCE_KERNEL (w_database w) scope = Inr l"
    and "(journal_step (file_anchor_store fa) scopes)\<^sup>*\<^sup>* w w'"
  shows "\<exists>l' more. load_existing DEFAULT_RESOURCE_KERNEL (w_database w') scope = Inr l' \<and>
    ld_checkpoints l' = ld_checkpoints l @ more"
proof -
  obtain hs ts sts where "stored (w_database w) scope hs ts sts" and l: "l = loaded_of hs sts"
    and "\<forall>x. anchor_read fa (w_anchor w) scope = Inr x \<longrightarrow> anchored hs sts x"
    using loaded_keeps [OF assms(1-4)] .
  then have "keeps (file_anchor_store fa) w scope hs ts" by (auto simp: keeps_def)
  from file_store.steps_keep [OF assms(5,2) file_store.steps_consistent [OF assms(1,2) empty_consistent] assms(3) this]
  obtain hs' ts' sts' where "stored (w_database w') scope (hs @ hs') (ts @ ts') sts'" by (auto simp: keeps_def)
  from stored_load [OF this] l show ?thesis by auto
qed

theorem history_only_grows_witness:
  "\<exists>w l l' more. load_existing DEFAULT_RESOURCE_KERNEL (w_database w) ''s'' = Inr l \<and>
     load_existing DEFAULT_RESOURCE_KERNEL
       (w_database (snd (journal_apply sample_journal ''s'' (RequestGrant sample_request) None w))) ''s'' = Inr l' \<and>
     ld_checkpoints l' = ld_checkpoints l @ more"
proof -
  obtain cp and w :: "directory world" where w: "(journal_step (file_anchor_store sample_anchor) {''s''})\<^sup>*\<^sup>* empty_world w"
    "stored (w_database w) ''s'' [(sample_state, cp)] [] [CONFIRMED]" by (rule sample_world) blast
  have i: "inj_on scope_key {''s''}" "''s'' \<in> {''s''}" by simp_all
  have c: "command_ok (RequestGrant sample_request)" using sample_request_ok by simp
  obtain r w' where r: "journal_apply sample_journal ''s'' (RequestGrant sample_request) None w = (r, w')" by force
  have "journal_step (file_anchor_store sample_anchor) {''s''} w w'" by (rule journal_step.applied [OF sample_opened i(2) c r])
  note steps = r_into_rtranclp [of "journal_step (file_anchor_store sample_anchor) {''s''}", OF this]
  note load = stored_load [OF w(2)]
  obtain l' more where "load_existing KERNEL (w_database w') ''s'' = Inr l'"
    "ld_checkpoints l' = ld_checkpoints (loaded_of [(sample_state, cp)] [CONFIRMED]) @ more"
    using history_only_grows [OF w(1) i load steps] by blast
  with load r show ?thesis
    by (intro exI [of _ w] exI [of _ "loaded_of [(sample_state, cp)] [CONFIRMED]"] exI [of _ l'] exI [of _ more]) simp
qed

section \<open>What the anchor detects\<close>

text \<open>C10: No false alarm. In every world that operations have reached from an empty database and an
  empty anchor directory, whatever crashed in between, the journal and the external head, if both can
  be read, pass the verification: every local confirmation is anchored, no anchored revision is missing
  locally, and the checkpoints agree.\<close>

theorem honest_journal_verifies:
  assumes "(journal_step (file_anchor_store fa) scopes)\<^sup>*\<^sup>* empty_world w" and "inj_on scope_key scopes" and "scope \<in> scopes"
    and "load_existing DEFAULT_RESOURCE_KERNEL (w_database w) scope = Inr l"
    and "anchor_read fa (w_anchor w) scope = Inr external"
  shows "verify_external (Some l) external scope = Inr ()"
proof -
  obtain hs ts sts where st: "stored (w_database w) scope hs ts sts" and l: "l = loaded_of hs sts"
    and "\<forall>x. anchor_read fa (w_anchor w) scope = Inr x \<longrightarrow> anchored hs sts x"
    using loaded_keeps [OF assms(1-4)] .
  then show ?thesis using verify_external_anchored [of scope hs ts sts external] assms(5) by (simp add: stored_def)
qed

theorem honest_journal_verifies_witness:
  "\<exists>l c. checkpoint_for sample_state None None = Inr c \<and> verify_external (Some l) (Some c) ''s'' = Inr ()"
proof -
  obtain cp and w :: "directory world" where w: "(journal_step (file_anchor_store sample_anchor) {''s''})\<^sup>*\<^sup>* empty_world w"
    "stored (w_database w) ''s'' [(sample_state, cp)] [] [CONFIRMED]"
    "anchor_read sample_anchor (w_anchor w) ''s'' = Inr (Some cp)" "checkpoint_for sample_state None None = Inr cp"
    by (rule sample_world) blast
  have i: "inj_on scope_key {''s''}" "''s'' \<in> {''s''}" by simp_all
  from honest_journal_verifies [OF w(1) i stored_load [OF w(2)] w(3)] w(4) show ?thesis by blast
qed

text \<open>C17: A head read too early is taken for tampering. The code reads the external head before it opens
  the snapshot of the database. If operations by other processes confirm a revision in between that is
  newer than that head, verifying the honest journal against it raises.\<close>

theorem stale_head_raises:
  assumes "(journal_step (file_anchor_store fa) scopes)\<^sup>*\<^sup>* empty_world w0"
    and "anchor_read fa (w_anchor w0) scope = Inr external"
    and "(journal_step (file_anchor_store fa) scopes)\<^sup>*\<^sup>* w0 w1" and "inj_on scope_key scopes" and "scope \<in> scopes"
    and "load_existing DEFAULT_RESOURCE_KERNEL (w_database w1) scope = Inr l"
    and "i < length (ld_anchor_statuses l)" and "ld_anchor_statuses l ! i = CONFIRMED"
    and "\<forall>c. external = Some c \<longrightarrow> cp_revision c < int i"
  shows "\<exists>e. verify_external (Some l) external scope = Inl e"
proof -
  have steps: "(journal_step (file_anchor_store fa) scopes)\<^sup>*\<^sup>* empty_world w1" using assms(1,3) by (rule rtranclp_trans)
  obtain hs ts sts where st: "stored (w_database w1) scope hs ts sts" and l: "l = loaded_of hs sts"
    using loaded_keeps [OF steps assms(4-6)] .
  have h: "history scope hs ts" and n: "length sts = length hs" using st by (auto simp: stored_def)
  have "\<not> anchored hs sts external"
  proof
    assume "anchored hs sts external"
    then show False
    proof (cases external)
      case None
      with \<open>anchored hs sts external\<close> assms(7,8) l show False by (auto simp: anchored_def in_set_conv_nth)
    next
      case (Some c)
      with \<open>anchored hs sts external\<close> assms(7,8) l obtain k where "k < length hs" "c = snd (hs ! k)" "i \<le> k"
        by (auto simp: anchored_def)
      with history_revision [OF h] assms(9) Some show False by fastforce
    qed
  qed
  then have "verify_external (Some l) external scope \<noteq> Inr ()" using verify_external_anchored [OF h n] l by simp
  then show ?thesis by (cases "verify_external (Some l) external scope") auto
qed

theorem stale_head_raises_witness:
  "\<exists>(w :: directory world) l cp e. load_existing DEFAULT_RESOURCE_KERNEL (w_database w) ''s'' = Inr l \<and>
     anchor_read sample_anchor (w_anchor w) ''s'' = Inr (Some cp) \<and> verify_external (Some l) (Some cp) ''s'' = Inr () \<and>
     verify_external (Some l) None ''s'' = Inl e"
proof -
  obtain cp and w :: "directory world" where w: "(journal_step (file_anchor_store sample_anchor) {''s''})\<^sup>*\<^sup>* empty_world w"
    "stored (w_database w) ''s'' [(sample_state, cp)] [] [CONFIRMED]"
    "anchor_read sample_anchor (w_anchor w) ''s'' = Inr (Some cp)"
    by (rule sample_world) blast
  have i: "inj_on scope_key {''s''}" "''s'' \<in> {''s''}" by simp_all
  have x: "anchor_read sample_anchor (w_anchor empty_world) ''s'' = Inr None"
    by (simp add: anchor_read_Inr read_all_Inr records_def linked_def text_ok empty_world_def)
  let ?l = "loaded_of [(sample_state, cp)] [CONFIRMED]"
  have "\<exists>e. verify_external (Some ?l) None ''s'' = Inl e"
    by (rule stale_head_raises [OF rtranclp.rtrancl_refl x w(1) i stored_load [OF w(2)], of 0]) simp_all
  moreover have "verify_external (Some ?l) (Some cp) ''s'' = Inr ()"
  proof -
    have "history ''s'' [(sample_state, cp)] []" using w(2) by (simp add: stored_def)
    from verify_external_anchored [OF this, of "[CONFIRMED]" "Some cp"] show ?thesis by (simp add: anchored_def)
  qed
  ultimately show ?thesis using stored_load [OF w(2)] w(3)
    by (intro exI [of _ w] exI [of _ ?l] exI [of _ cp]) auto
qed


text \<open>A chain of two checkpoints in the anchor, over the tables of the sample's genesis.\<close>

definition sample_next :: "checkpoint \<Rightarrow> checkpoint" where
  "sample_next c = c\<lparr>cp_revision := 1, cp_journal_head_sha256 := sample_hash,
     cp_previous_journal_head_sha256 := Some (cp_journal_head_sha256 c), cp_command_id := Some ''c1'',
     cp_command_sha256 := Some sample_hash, cp_transition_sha256 := Some sample_hash,
     cp_receipt_sha256 := Some sample_hash\<rparr>"


text \<open>C11: Equal heads mean equal histories. If two journals, loaded from any tables for any scopes, end
  in the same journal head, they record the same checkpoints, or among the preimages of their own heads
  there are two different ones with the same SHA-256.\<close>

theorem equal_heads_equal_histories:
  assumes "load_connection DEFAULT_RESOURCE_KERNEL db scope am = Inr (Some l)"
    and "load_connection DEFAULT_RESOURCE_KERNEL db' scope' am' = Inr (Some l')"
    and "cp_journal_head_sha256 (ld_checkpoint l) = cp_journal_head_sha256 (ld_checkpoint l')"
  shows "ld_checkpoints l = ld_checkpoints l' \<or> collision (head_preimages l) (head_preimages l')"
proof -
  obtain hs ts sts where h: "history scope hs ts" "l = loaded_of hs sts" using load_history [OF assms(1)] .
  obtain hs' ts' sts' where h': "history scope' hs' ts'" "l' = loaded_of hs' sts'" using load_history [OF assms(2)] .
  have e: "cp_journal_head_sha256 (snd (last hs)) = cp_journal_head_sha256 (snd (last hs'))"
    using assms(3) h h' by (simp add: loaded_checkpoint)
  have p: "head_preimage (state_budget (fst sc)) (snd sc) \<in> set (head_preimages l)" if "sc \<in> set hs" for sc
    using that history_budgets [OF h(1) that] by (auto simp: h(2) head_preimages_def)
  have p': "head_preimage (state_budget (fst sc)) (snd sc) \<in> set (head_preimages l')" if "sc \<in> set hs'" for sc
    using that history_budgets [OF h'(1) that] by (auto simp: h'(2) head_preimages_def)
  show ?thesis
  proof (cases "map snd hs = map snd hs'")
    case False
    with same_head_same_checkpoints [OF h(1) h'(1) e] obtain sc sc' where sc: "sc \<in> set hs" "sc' \<in> set hs'"
      "head_preimage (state_budget (fst sc)) (snd sc) \<noteq> head_preimage (state_budget (fst sc')) (snd sc')"
      "sha256_hex (head_preimage (state_budget (fst sc)) (snd sc)) = sha256_hex (head_preimage (state_budget (fst sc')) (snd sc'))"
      by blast
    with p [OF sc(1)] p' [OF sc(2)] show ?thesis unfolding collision_def by blast
  qed (simp add: h(2) h'(2))
qed

theorem equal_heads_equal_histories_witness:
  "\<exists>l l'. ld_state l = sample_state \<and> ld_anchor_statuses l \<noteq> ld_anchor_statuses l' \<and>
     (ld_checkpoints l = ld_checkpoints l' \<or> collision (head_preimages l) (head_preimages l'))"
proof -
  obtain cp and w :: "directory world" where w: "checkpoint_for sample_state None None = Inr cp" by (rule sample_world) blast
  obtain db where db: "stored db ''s'' [(sample_state, cp)] [] [PENDING]"
    using initialize_body_absent [OF _ sample_created w, of empty_database] by (auto simp: absent_def view_def empty_database_def)
  obtain cp' and w' :: "directory world" where w': "stored (w_database w') ''s'' [(sample_state, cp')] [] [CONFIRMED]"
    "checkpoint_for sample_state None None = Inr cp'" by (rule sample_world) blast
  have h: "history ''s'' [(sample_state, cp)] []" "history ''s'' [(sample_state, cp')] []" using db w'(1) by (auto simp: stored_def)
  have "cp_journal_head_sha256 (ld_checkpoint (loaded_of [(sample_state, cp)] [PENDING])) =
      cp_journal_head_sha256 (ld_checkpoint (loaded_of [(sample_state, cp')] [CONFIRMED]))"
    using w w'(2) by (simp add: loaded_checkpoint [OF h(1)] loaded_checkpoint [OF h(2)])
  from equal_heads_equal_histories [OF load_stored [OF db] load_stored [OF w'(1)] this] show ?thesis
    by (intro exI [of _ "loaded_of [(sample_state, cp)] [PENDING]"] exI [of _ "loaded_of [(sample_state, cp')] [CONFIRMED]"]) simp
qed

section \<open>When the journal gets through\<close>

text \<open>C12: Reconciliation catches up. When the anchor's key signs what its pinned key verifies and the
  anchor can be read, then in every world that operations have reached, reconcile_anchor returns, and
  the external head is then the local one, whatever was left unpublished or unconfirmed by crashes.\<close>

theorem reconcile_catches_up:
  assumes "(journal_step (file_anchor_store fa) scopes)\<^sup>*\<^sup>* empty_world w" and "inj_on scope_key scopes" and "scope \<in> scopes"
    and "load_existing DEFAULT_RESOURCE_KERNEL (w_database w) scope = Inr l"
    and "anchor_read fa (w_anchor w) scope = Inr external" and "signs fa key"
    and "open_journal (Some (file_anchor_store fa)) DEFAULT_RESOURCE_KERNEL inject = Inr j"
  shows "\<exists>confirmed w'. reconcile_anchor j scope None w =
      (Inr \<lparr>rr_confirmed_revisions = confirmed,
         rr_snapshot = \<lparr>sn_state = ld_state l, sn_checkpoint = ld_checkpoint l, sn_anchor_status = CONFIRMED\<rparr>\<rparr>, w') \<and>
    anchor_read fa (w_anchor w') scope = Inr (Some (ld_checkpoint l))"
proof -
  have j: "rj_trusted_anchor j = Some (file_anchor_store fa)" "rj_kernel j = KERNEL" using assms(7) by (auto simp: open_journal_Inr)
  obtain hs ts sts where st: "stored (w_database w) scope hs ts sts" and l: "l = loaded_of hs sts"
    and "\<forall>x. anchor_read fa (w_anchor w) scope = Inr x \<longrightarrow> anchored hs sts x"
    using loaded_keeps [OF assms(1-4)] .
  then have k: "keeps (file_anchor_store fa) w scope hs ts" by (auto simp: keeps_def)
  have h: "history scope hs ts" using st by (simp add: stored_def)
  have x: "an_read (file_anchor_store fa) (w_anchor w) scope = Inr external" using assms(5) by simp
  from file_store.reconcile_live [OF file_anchor_progresses [OF assms(6)] j k x] obtain res w' where
    r: "reconcile_anchor j scope None w = (Inr res, w')"
      "rr_snapshot res = \<lparr>sn_state = fst (last hs), sn_checkpoint = snd (last hs), sn_anchor_status = CONFIRMED\<rparr>"
      "anchor_read fa (w_anchor w') scope = Inr (Some (snd (last hs)))" by auto
  then show ?thesis
    using loaded_checkpoint [OF h] l by (intro exI [of _ "rr_confirmed_revisions res"] exI [of _ w']) (cases res, simp)
qed

theorem reconcile_catches_up_witness:
  "\<exists>w res w'. reconcile_anchor sample_journal ''s'' None w = (Inr res, w') \<and> sn_state (rr_snapshot res) = sample_state"
proof -
  obtain cp and w :: "directory world" where w: "(journal_step (file_anchor_store sample_anchor) {''s''})\<^sup>*\<^sup>* empty_world w"
    "stored (w_database w) ''s'' [(sample_state, cp)] [] [CONFIRMED]"
    "anchor_read sample_anchor (w_anchor w) ''s'' = Inr (Some cp)"
    by (rule sample_world) blast
  have i: "inj_on scope_key {''s''}" "''s'' \<in> {''s''}" by simp_all
  from reconcile_catches_up [OF w(1) i stored_load [OF w(2)] w(3) sample_signs sample_opened] show ?thesis by fastforce
qed

section \<open>Two limits of the code\<close>

text \<open>A stored transition whose command the replayed state already records is rejected by evolve, and
  the rejection, no ValueError, escapes the handler that reports corruption.\<close>

lemma reapplied_transition_escapes:
  assumes "transition_ok t" and "command_id (t_command t) \<in> cr_command_id ` set (s_command_records s)"
    and "jr_transition_blob row = transition_blob t" and "jr_command_id row = command_id (t_command t)"
    and "jr_command_sha256 row = t_command_sha256 t" and "jr_transition_sha256 row = t_transition_sha256 t"
    and "jr_receipt_sha256 row = t_receipt_sha256 t"
    and "jr_before_state_sha256 row = r_before_state_sha256 (t_receipt t)"
    and "jr_after_state_sha256 row = r_after_state_sha256 (t_receipt t)"
  shows "replay_row KERNEL (s, c) (jr_revision row) row =
    Inl (JournalKernel (invalid_transition ''command transition was already applied''))"
proof -
  have "evolve s t = Inl (invalid_transition ''command transition was already applied'')"
    using assms(2) by (auto simp: evolve_def list_ex_iff raise_if_def)
  with assms transition_blob_read [OF assms(1)] show ?thesis
    by (simp add: replay_row_def value_error_as_corruption_def)
qed

end
