(* ===== verification/Build_Model.thy ===== *)
theory Build_Model
  imports Resource_Model
begin

text \<open>
  \<^verbatim>\<open>lakatos/build_execution.py\<close>: the values that bind a local build before anything runs.
  Identities derived from the tree, the tag and the workload; the physical execution policy and
  the admission policy; the execution specification. Byte literals are the UTF-8 encoding of the
  same text; paths are POSIX paths, where an absolute path starts with a slash.
\<close>

section \<open>Constants\<close>

definition BUILD_EXECUTION_SCHEMA_VERSION :: string where
  "BUILD_EXECUTION_SCHEMA_VERSION = ''lakatotree.build-execution/v2''"

definition LEGACY_BUILD_EXECUTION_SCHEMA_VERSION :: string where
  "LEGACY_BUILD_EXECUTION_SCHEMA_VERSION = ''lakatotree.build-execution/v1''"

definition LOCAL_BUILD_ADAPTER :: string where
  "LOCAL_BUILD_ADAPTER = ''lakatotree.local-subprocess-build''"

definition LOCAL_BUILD_ADAPTER_VERSION :: string where
  "LOCAL_BUILD_ADAPTER_VERSION = ''1''"

definition DEADLINE_BOUND_LOCAL_BUILD_ADAPTER_VERSION :: string where
  "DEADLINE_BOUND_LOCAL_BUILD_ADAPTER_VERSION = ''2''"

definition BUILD_IDENTITY_SCHEMA_VERSION :: string where
  "BUILD_IDENTITY_SCHEMA_VERSION = ''lakatotree.harness-build-identity/v1''"

abbreviation NUL :: char where
  "NUL \<equiv> CHR 0x00"

abbreviation line_feed :: char where
  "line_feed \<equiv> CHR 0x0A"

definition WORKLOAD_DOMAIN :: string where
  "WORKLOAD_DOMAIN = ''lakatotree-local-build-workload'' @ [NUL] @ ''v2'' @ [line_feed]"

definition EVIDENCE_DOMAIN :: string where
  "EVIDENCE_DOMAIN = ''lakatotree-local-build-evidence'' @ [NUL] @ ''v1'' @ [line_feed]"

definition MEASUREMENT_DOMAIN :: string where
  "MEASUREMENT_DOMAIN = ''lakatotree-local-build-measurement'' @ [NUL] @ ''v1'' @ [line_feed]"

definition ENVIRONMENT_DOMAIN :: string where
  "ENVIRONMENT_DOMAIN = ''lakatotree-local-build-environment'' @ [NUL] @ ''v1'' @ [line_feed]"

definition EXECUTION_POLICY_DOMAIN :: string where
  "EXECUTION_POLICY_DOMAIN = ''lakatotree-build-execution-policy'' @ [NUL] @ ''v1'' @ [line_feed]"

definition ADMISSION_POLICY_DOMAIN :: string where
  "ADMISSION_POLICY_DOMAIN = ''lakatotree-build-admission-policy'' @ [NUL] @ ''v1'' @ [line_feed]"

definition SPLIT_STREAM_CAPTURE_STRATEGY :: string where
  "SPLIT_STREAM_CAPTURE_STRATEGY = ''stdout-ceil-stderr-floor-no-borrow/v1''"

definition HARDENED_BUILD_ENVIRONMENT_ALLOWLIST :: "string list" where
  "HARDENED_BUILD_ENVIRONMENT_ALLOWLIST =
     [''ARCHFLAGS'', ''CC'', ''CFLAGS'', ''CI'', ''CMAKE_BUILD_PARALLEL_LEVEL'', ''CMAKE_PREFIX_PATH'',
      ''CONDA_PREFIX'', ''CPPFLAGS'', ''CXX'', ''CXXFLAGS'', ''FORCE_COLOR'', ''GIT_AUTHOR_EMAIL'',
      ''GIT_AUTHOR_NAME'', ''GIT_COMMITTER_EMAIL'', ''GIT_COMMITTER_NAME'', ''GOFLAGS'', ''GOMODCACHE'',
      ''GOPATH'', ''LANG'', ''LC_ALL'', ''LC_CTYPE'', ''LDFLAGS'', ''MACOSX_DEPLOYMENT_TARGET'',
      ''MAKEFLAGS'', ''NODE_PATH'', ''NO_COLOR'', ''PATH'', ''PKG_CONFIG_PATH'', ''PYTHONHOME'',
      ''PYTHONPATH'', ''RUSTFLAGS'', ''SDKROOT'', ''TERM'', ''TMPDIR'', ''VIRTUAL_ENV'']"

section \<open>Validators\<close>

definition build_canonical_bytes :: "json \<Rightarrow> byte list" where
  "build_canonical_bytes v = json_bytes v"

definition domain_sha :: "string \<Rightarrow> json \<Rightarrow> string" where
  "domain_sha domain v = sha256_hex (utf8_encode domain @ build_canonical_bytes v)"

definition require_sha256 :: "string \<Rightarrow> string \<Rightarrow> lk_error + unit" where
  "require_sha256 v label =
     raise_if (length v \<noteq> 64 \<or> v \<noteq> str_lower v \<or> list_ex (\<lambda>c. c \<notin> set ''0123456789abcdef'') v)
       (ValueError (label @ '' must be a canonical lowercase SHA-256''))"

definition require_identifier :: "string \<Rightarrow> string \<Rightarrow> lk_error + unit" where
  "require_identifier v label =
     raise_if (v = [] \<or> 256 < length v \<or> \<not> str_isprintable v)
       (ValueError (label @ '' must be printable, non-empty, and <= 256 chars''))"

definition require_identity_component :: "string \<Rightarrow> string \<Rightarrow> lk_error + unit" where
  "require_identity_component v label = run_checks
     [raise_if (v = []) (ValueError (label @ '' must be non-empty text'')),
      raise_if (NUL \<in> set v) (ValueError (label @ '' must not contain NUL''))]"

definition require_utc :: "string \<Rightarrow> string \<Rightarrow> lk_error + instant" where
  "require_utc v label =
     (if \<not> rfc3339_shape v
      then Inl (ValueError (label @ '' must be an RFC3339 UTC timestamp ending in Z''))
      else case from_isoformat v of
        None \<Rightarrow> Inl (ValueError (label @ '' must be a valid RFC3339 UTC timestamp''))
      | Some i \<Rightarrow> Inr i)"

definition bounded_integer :: "int \<Rightarrow> string \<Rightarrow> int \<Rightarrow> int \<Rightarrow> lk_error + unit" where
  "bounded_integer v label least greatest =
     raise_if (\<not> (least \<le> v \<and> v \<le> greatest))
       (ValueError (label @ '' must be between '' @ show_int least @ '' and '' @ show_int greatest))"

definition is_absolute_path :: "string \<Rightarrow> bool" where
  "is_absolute_path p \<longleftrightarrow> p \<noteq> [] \<and> hd p = CHR ''/''"

text \<open>\<^verbatim>\<open>environment_sha256\<close>, on the items of the mapping.\<close>

fun check_environment :: "(string \<times> string) list \<Rightarrow> lk_error + unit" where
  "check_environment [] = Inr ()"
| "check_environment ((k, v) # kvs) =
     ebind (run_checks
       [raise_if (k = [] \<or> CHR ''='' \<in> set k \<or> NUL \<in> set k)
          (ValueError (''environment keys must be non-empty strings without '' @ repr_str ''='' @ '' or NUL'')),
        raise_if (NUL \<in> set v) (ValueError ''environment values must be strings without NUL'')])
     (\<lambda>_. check_environment kvs)"

definition environment_sha256 :: "(string \<times> string) list \<Rightarrow> lk_error + string" where
  "environment_sha256 env =
     ebind (check_environment env) (\<lambda>_. Inr (domain_sha ENVIRONMENT_DOMAIN (JObj (map (map_prod id JStr) env))))"

lemma require_identifier_Inr [check_simps]: "require_identifier v l = Inr u \<longleftrightarrow> identifier_ok v"
  by (auto simp: require_identifier_def identifier_ok_def raise_if_def)

lemma require_identity_component_Inr [check_simps]:
  "require_identity_component v l = Inr u \<longleftrightarrow> v \<noteq> [] \<and> NUL \<notin> set v"
  by (auto simp: require_identity_component_def check_simps result_simps)

lemma require_utc_Inr [check_simps]: "require_utc v l = Inr i \<longleftrightarrow> instant_ok v \<and> i = instant_of v"
  by (auto simp: require_utc_def instant_ok_def instant_of_def split: option.splits)

lemma bounded_integer_Inr [check_simps]: "bounded_integer v l a b = Inr u \<longleftrightarrow> a \<le> v \<and> v \<le> b"
  by (auto simp: bounded_integer_def check_simps)

definition hex64_ok :: "string \<Rightarrow> bool" where
  "hex64_ok v \<longleftrightarrow> length v = 64 \<and> v = str_lower v \<and> list_all (\<lambda>c. c \<in> set ''0123456789abcdef'') v"

lemma require_sha256_Inr [check_simps]: "require_sha256 v l = Inr u \<longleftrightarrow> hex64_ok v"
  by (auto simp: require_sha256_def hex64_ok_def raise_if_def list_ex_iff list_all_iff)

lemma hex64_ok_sha256_ok: "hex64_ok v \<Longrightarrow> sha256_ok v"
  using lower_hex_char unfolding hex64_ok_def sha256_ok_def list_all_iff by blast

section \<open>Identities\<close>

record identity_bundle =
  ib_identity_sha256 :: string
  ib_scope :: string
  ib_effect_id :: string
  ib_grant_id :: string
  ib_request_command_id :: string
  ib_work_id :: string
  ib_attempt_id :: string
  ib_budget_id :: string
  ib_permit_issuer :: string

definition post_init_identity :: "identity_bundle \<Rightarrow> lk_error + unit" where
  "post_init_identity b = run_checks
     [require_sha256 (ib_identity_sha256 b) ''identity_sha256'',
      require_identifier (ib_scope b) ''scope'',
      require_identifier (ib_effect_id b) ''effect_id'',
      require_identifier (ib_grant_id b) ''grant_id'',
      require_identifier (ib_request_command_id b) ''request_command_id'',
      require_identifier (ib_work_id b) ''work_id'',
      require_identifier (ib_attempt_id b) ''attempt_id'',
      require_identifier (ib_budget_id b) ''budget_id'',
      require_identifier (ib_permit_issuer b) ''permit_issuer'']"

definition identity_preimage :: "string \<Rightarrow> string \<Rightarrow> string \<Rightarrow> byte list" where
  "identity_preimage tree tag workload_sha256 = utf8_encode (tree @ [NUL] @ tag @ [NUL] @ workload_sha256)"

definition derive_identity :: "string \<Rightarrow> string \<Rightarrow> string \<Rightarrow> lk_error + identity_bundle" where
  "derive_identity tree tag workload_sha256 =
     ebind (run_checks
       [require_identity_component tree ''tree'',
        require_identity_component tag ''tag'',
        require_sha256 workload_sha256 ''workload_sha256'']) (\<lambda>_.
     let identity = sha256_hex (identity_preimage tree tag workload_sha256);
         scope = ''harness-build:'' @ sha256_hex (utf8_encode tree);
         b = \<lparr>ib_identity_sha256 = identity, ib_scope = scope,
              ib_effect_id = ''build:'' @ identity, ib_grant_id = ''grant:'' @ identity,
              ib_request_command_id = ''request:'' @ identity, ib_work_id = ''work:'' @ identity,
              ib_attempt_id = ''attempt:'' @ identity,
              ib_budget_id = ''budget:'' @ sha256_hex (utf8_encode scope),
              ib_permit_issuer = ''lakatotree:harness-build:'' @ take 24 identity\<rparr>
     in ebind (post_init_identity b) (\<lambda>_. Inr b))"

section \<open>The execution policy\<close>

record execution_policy =
  ep_shell :: string
  ep_output_tail_bytes :: int
  ep_max_output_bytes :: int
  ep_process_cleanup_grace_ms :: int
  ep_stream_capture_strategy :: string

definition post_init_execution_policy :: "execution_policy \<Rightarrow> lk_error + unit" where
  "post_init_execution_policy p = run_checks
     [raise_if (\<not> is_absolute_path (ep_shell p)) (ValueError ''shell must be an absolute path''),
      raise_if (NUL \<in> set (ep_shell p)) (ValueError ''shell cannot contain NUL''),
      bounded_integer (ep_output_tail_bytes p) ''output_tail_bytes'' 1 1048576,
      bounded_integer (ep_max_output_bytes p) ''max_output_bytes'' 1 1073741824,
      raise_if (ep_output_tail_bytes p > ep_max_output_bytes p)
        (ValueError ''output_tail_bytes cannot exceed max_output_bytes''),
      bounded_integer (ep_process_cleanup_grace_ms p) ''process_cleanup_grace_ms'' 1 60000,
      raise_if (ep_stream_capture_strategy p \<noteq> SPLIT_STREAM_CAPTURE_STRATEGY)
        (ValueError ''unsupported stream_capture_strategy'')]"

definition mk_execution_policy :: "execution_policy \<Rightarrow> lk_error + execution_policy" where
  "mk_execution_policy p = ebind (post_init_execution_policy p) (\<lambda>_. Inr p)"

definition execution_policy_to_dict :: "execution_policy \<Rightarrow> json" where
  "execution_policy_to_dict p = JObj
     [(''shell'', JStr (ep_shell p)),
      (''output_tail_bytes'', JInt (ep_output_tail_bytes p)),
      (''max_output_bytes'', JInt (ep_max_output_bytes p)),
      (''process_cleanup_grace_ms'', JInt (ep_process_cleanup_grace_ms p)),
      (''stream_capture_strategy'', JStr (ep_stream_capture_strategy p))]"

definition execution_policy_sha256 :: "execution_policy \<Rightarrow> string" where
  "execution_policy_sha256 p = domain_sha EXECUTION_POLICY_DOMAIN (execution_policy_to_dict p)"

definition DEFAULT_BUILD_EXECUTION_POLICY :: execution_policy where
  "DEFAULT_BUILD_EXECUTION_POLICY =
     \<lparr>ep_shell = ''/bin/sh'', ep_output_tail_bytes = 65536, ep_max_output_bytes = 16777216,
      ep_process_cleanup_grace_ms = 1000, ep_stream_capture_strategy = SPLIT_STREAM_CAPTURE_STRATEGY\<rparr>"

definition policy_reserved_compute_wall_ms :: "execution_policy \<Rightarrow> int \<Rightarrow> lk_error + int" where
  "policy_reserved_compute_wall_ms p timeout_seconds =
     ebind (bounded_integer timeout_seconds ''timeout_seconds'' 1 604800)
       (\<lambda>_. Inr (timeout_seconds * 1000 + ep_process_cleanup_grace_ms p))"

section \<open>The admission policy\<close>

record admission_policy =
  ap_maximum_timeout_seconds :: int
  ap_minimum_grant_ttl_seconds :: int
  ap_grant_ttl_slack_seconds :: int
  ap_target_sqlite_timeout_ms :: int
  ap_permit_ttl_seconds :: int
  ap_environment_allowlist :: "string list option"
  ap_maximum_manifest_json_bytes :: int
  ap_maximum_manifest_entries :: int
  ap_maximum_input_file_bytes :: int
  ap_maximum_input_bytes :: int

definition check_allowlist :: "string list option \<Rightarrow> lk_error + unit" where
  "check_allowlist al =
     (case al of
        None \<Rightarrow> Inr ()
      | Some keys \<Rightarrow> run_checks
          [raise_if (list_ex (\<lambda>k. k = [] \<or> CHR ''='' \<in> set k \<or> NUL \<in> set k) keys)
             (ValueError ''environment_allowlist contains an invalid key''),
           raise_if (sorted_list_of_set (set keys) \<noteq> keys)
             (ValueError ''environment_allowlist must be sorted and unique'')])"

definition post_init_admission_policy :: "admission_policy \<Rightarrow> lk_error + unit" where
  "post_init_admission_policy p = run_checks
     [bounded_integer (ap_maximum_timeout_seconds p) ''maximum_timeout_seconds'' 1 604800,
      bounded_integer (ap_minimum_grant_ttl_seconds p) ''minimum_grant_ttl_seconds'' 1 1209600,
      bounded_integer (ap_grant_ttl_slack_seconds p) ''grant_ttl_slack_seconds'' 0 604800,
      bounded_integer (ap_target_sqlite_timeout_ms p) ''target_sqlite_timeout_ms'' 1 300000,
      bounded_integer (ap_permit_ttl_seconds p) ''permit_ttl_seconds'' 1 300,
      check_allowlist (ap_environment_allowlist p),
      bounded_integer (ap_maximum_manifest_json_bytes p) ''maximum_manifest_json_bytes'' 128 67108864,
      bounded_integer (ap_maximum_manifest_entries p) ''maximum_manifest_entries'' 1 1000000,
      bounded_integer (ap_maximum_input_file_bytes p) ''maximum_input_file_bytes'' 1 1099511627776,
      bounded_integer (ap_maximum_input_bytes p) ''maximum_input_bytes'' 1 17592186044416]"

definition mk_admission_policy :: "admission_policy \<Rightarrow> lk_error + admission_policy" where
  "mk_admission_policy p = ebind (post_init_admission_policy p) (\<lambda>_. Inr p)"

definition admission_policy_to_dict :: "admission_policy \<Rightarrow> json" where
  "admission_policy_to_dict p = JObj
     [(''maximum_timeout_seconds'', JInt (ap_maximum_timeout_seconds p)),
      (''minimum_grant_ttl_seconds'', JInt (ap_minimum_grant_ttl_seconds p)),
      (''grant_ttl_slack_seconds'', JInt (ap_grant_ttl_slack_seconds p)),
      (''target_sqlite_timeout_ms'', JInt (ap_target_sqlite_timeout_ms p)),
      (''permit_ttl_seconds'', JInt (ap_permit_ttl_seconds p)),
      (''environment_allowlist'', json_opt (\<lambda>keys. JArr (map JStr keys)) (ap_environment_allowlist p)),
      (''maximum_manifest_json_bytes'', JInt (ap_maximum_manifest_json_bytes p)),
      (''maximum_manifest_entries'', JInt (ap_maximum_manifest_entries p)),
      (''maximum_input_file_bytes'', JInt (ap_maximum_input_file_bytes p)),
      (''maximum_input_bytes'', JInt (ap_maximum_input_bytes p))]"

definition admission_policy_sha256 :: "admission_policy \<Rightarrow> string" where
  "admission_policy_sha256 p = domain_sha ADMISSION_POLICY_DOMAIN (admission_policy_to_dict p)"

definition DEFAULT_BUILD_ADMISSION_POLICY :: admission_policy where
  "DEFAULT_BUILD_ADMISSION_POLICY =
     \<lparr>ap_maximum_timeout_seconds = 86400, ap_minimum_grant_ttl_seconds = 300, ap_grant_ttl_slack_seconds = 60,
      ap_target_sqlite_timeout_ms = 10000, ap_permit_ttl_seconds = 30, ap_environment_allowlist = None,
      ap_maximum_manifest_json_bytes = 8388608, ap_maximum_manifest_entries = 50000,
      ap_maximum_input_file_bytes = 1073741824, ap_maximum_input_bytes = 4294967296\<rparr>"

definition validate_timeout :: "admission_policy \<Rightarrow> int \<Rightarrow> lk_error + int" where
  "validate_timeout p timeout_seconds =
     ebind (raise_if (\<not> (1 \<le> timeout_seconds \<and> timeout_seconds \<le> ap_maximum_timeout_seconds p))
       (ValueError (''timeout_seconds must be positive and no greater than maximum_timeout_seconds='' @
         show_int (ap_maximum_timeout_seconds p))))
       (\<lambda>_. Inr timeout_seconds)"

definition grant_ttl_seconds :: "admission_policy \<Rightarrow> int \<Rightarrow> int \<Rightarrow> lk_error + int" where
  "grant_ttl_seconds p timeout_seconds cleanup_grace_ms =
     ebind (validate_timeout p timeout_seconds) (\<lambda>timeout.
     ebind (bounded_integer cleanup_grace_ms ''cleanup_grace_ms'' 1 60000) (\<lambda>_.
     let cleanup_seconds = (cleanup_grace_ms + 999) div 1000 in
     Inr (max (ap_minimum_grant_ttl_seconds p) (timeout + cleanup_seconds + ap_grant_ttl_slack_seconds p))))"

section \<open>The specification\<close>

record execution_spec =
  es_command :: string
  es_cwd :: string
  es_shell :: string
  es_timeout_seconds :: int
  es_environment_sha256 :: string
  es_input_manifest_sha256 :: string
  es_isolation_adapter :: string
  es_isolation_version :: string
  es_isolation_policy_sha256 :: string
  es_execution_policy_sha256 :: string
  es_process_cleanup_grace_ms :: int
  es_stream_capture_strategy :: string
  es_output_tail_bytes :: int
  es_max_output_bytes :: int
  es_provider_calls :: string
  es_schema_version :: string
  es_adapter :: string
  es_adapter_version :: string

definition check_spec_path :: "string \<Rightarrow> string \<Rightarrow> lk_error + unit" where
  "check_spec_path label v = run_checks
     [raise_if (\<not> is_absolute_path v) (ValueError (label @ '' must be an absolute path'')),
      raise_if (NUL \<in> set v) (ValueError (label @ '' cannot contain NUL''))]"

definition post_init_spec :: "execution_spec \<Rightarrow> lk_error + unit" where
  "post_init_spec s = run_checks
     [raise_if (es_schema_version s \<noteq> BUILD_EXECUTION_SCHEMA_VERSION) (ValueError ''unsupported build execution schema''),
      raise_if (es_command s = [] \<or> NUL \<in> set (es_command s))
        (ValueError ''command must be a non-empty string without NUL''),
      raise_if (length (utf8_encode (es_command s)) > 1048576)
        (ValueError ''command exceeds the 1 MiB build contract limit''),
      check_spec_path ''cwd'' (es_cwd s),
      check_spec_path ''shell'' (es_shell s),
      bounded_integer (es_timeout_seconds s) ''timeout_seconds'' 1 604800,
      raise_if (\<not> (1 \<le> es_output_tail_bytes s \<and> es_output_tail_bytes s \<le> 1048576))
        (ValueError ''output_tail_bytes must be between 1 and 1048576''),
      raise_if (\<not> (1 \<le> es_max_output_bytes s \<and> es_max_output_bytes s \<le> 1073741824))
        (ValueError ''max_output_bytes must be between 1 and 1073741824''),
      raise_if (es_output_tail_bytes s > es_max_output_bytes s)
        (ValueError ''output_tail_bytes cannot exceed max_output_bytes''),
      require_sha256 (es_environment_sha256 s) ''environment_sha256'',
      require_sha256 (es_input_manifest_sha256 s) ''input_manifest_sha256'',
      require_identifier (es_isolation_adapter s) ''isolation_adapter'',
      require_identifier (es_isolation_version s) ''isolation_version'',
      require_sha256 (es_isolation_policy_sha256 s) ''isolation_policy_sha256'',
      require_sha256 (es_execution_policy_sha256 s) ''execution_policy_sha256'',
      bounded_integer (es_process_cleanup_grace_ms s) ''process_cleanup_grace_ms'' 1 60000,
      raise_if (es_stream_capture_strategy s \<noteq> SPLIT_STREAM_CAPTURE_STRATEGY)
        (ValueError ''unsupported stream_capture_strategy''),
      require_identifier (es_adapter s) ''adapter'',
      require_identifier (es_adapter_version s) ''adapter_version'',
      raise_if (es_provider_calls s \<noteq> ''forbidden'')
        (ValueError ''the v1 local build adapter only meters provider-free subprocesses'')]"

definition mk_spec :: "execution_spec \<Rightarrow> lk_error + execution_spec" where
  "mk_spec s = ebind (post_init_spec s) (\<lambda>_. Inr s)"

definition spec_to_dict :: "execution_spec \<Rightarrow> json" where
  "spec_to_dict s = JObj
     [(''schema_version'', JStr (es_schema_version s)),
      (''adapter'', JStr (es_adapter s)),
      (''adapter_version'', JStr (es_adapter_version s)),
      (''command'', JStr (es_command s)),
      (''cwd'', JStr (es_cwd s)),
      (''shell'', JStr (es_shell s)),
      (''timeout_seconds'', JInt (es_timeout_seconds s)),
      (''environment_sha256'', JStr (es_environment_sha256 s)),
      (''input_manifest_sha256'', JStr (es_input_manifest_sha256 s)),
      (''isolation_adapter'', JStr (es_isolation_adapter s)),
      (''isolation_version'', JStr (es_isolation_version s)),
      (''isolation_policy_sha256'', JStr (es_isolation_policy_sha256 s)),
      (''execution_policy_sha256'', JStr (es_execution_policy_sha256 s)),
      (''process_cleanup_grace_ms'', JInt (es_process_cleanup_grace_ms s)),
      (''stream_capture_strategy'', JStr (es_stream_capture_strategy s)),
      (''output_tail_bytes'', JInt (es_output_tail_bytes s)),
      (''max_output_bytes'', JInt (es_max_output_bytes s)),
      (''provider_calls'', JStr (es_provider_calls s))]"

definition workload_preimage :: "execution_spec \<Rightarrow> byte list" where
  "workload_preimage s = utf8_encode WORKLOAD_DOMAIN @ build_canonical_bytes (spec_to_dict s)"

definition workload_sha256 :: "execution_spec \<Rightarrow> string" where
  "workload_sha256 s = sha256_hex (workload_preimage s)"

text \<open>\<^verbatim>\<open>BuildExecutionPolicy.make_spec\<close>: its arguments arrive in \<open>s\<close>, the policy sets the rest.\<close>

definition make_spec :: "execution_policy \<Rightarrow> execution_spec \<Rightarrow> lk_error + execution_spec" where
  "make_spec p s = mk_spec (s\<lparr>es_shell := ep_shell p, es_execution_policy_sha256 := execution_policy_sha256 p,
     es_process_cleanup_grace_ms := ep_process_cleanup_grace_ms p,
     es_stream_capture_strategy := ep_stream_capture_strategy p,
     es_output_tail_bytes := ep_output_tail_bytes p, es_max_output_bytes := ep_max_output_bytes p,
     es_provider_calls := ''forbidden'', es_schema_version := BUILD_EXECUTION_SCHEMA_VERSION\<rparr>)"

definition reserved_compute_wall_ms :: "execution_spec \<Rightarrow> int" where
  "reserved_compute_wall_ms s = es_timeout_seconds s * 1000 + es_process_cleanup_grace_ms s"

definition split_stream_budget :: "int \<Rightarrow> lk_error + (int \<times> int)" where
  "split_stream_budget n =
     ebind (bounded_integer n ''total_bytes'' 0 1073741824) (\<lambda>_. Inr ((n + 1) div 2, n div 2))"

end
