(* ===== verification/Build_Result.thy ===== *)
theory Build_Result
  imports Build_Model
begin

text \<open>
  The terminal evidence of a build, \<^verbatim>\<open>BuildExecutionResult\<close> and \<^verbatim>\<open>BuildRun\<close>.
  A result is rebuilt from stored JSON by \<^verbatim>\<open>from_dict\<close>, whose fields have any type, so the
  constructor's checks are stated on JSON values, the \<^verbatim>\<open>isinstance\<close> tests included. The
  one field whose type the constructor does not test, \<^verbatim>\<open>compute_wall_ms\<close>, is a JSON value
  in the record too: it is compared with the expected integer, and \<^verbatim>\<open>True\<close> equals 1.
\<close>

section \<open>Results\<close>

datatype terminal_status = EXITED | TIMED_OUT | OUTPUT_LIMIT_EXCEEDED | SPAWN_FAILED | INPUT_REJECTED

primrec terminal_status_value :: "terminal_status \<Rightarrow> string" where
  "terminal_status_value EXITED = ''EXITED''"
| "terminal_status_value TIMED_OUT = ''TIMED_OUT''"
| "terminal_status_value OUTPUT_LIMIT_EXCEEDED = ''OUTPUT_LIMIT_EXCEEDED''"
| "terminal_status_value SPAWN_FAILED = ''SPAWN_FAILED''"
| "terminal_status_value INPUT_REJECTED = ''INPUT_REJECTED''"

definition terminal_statuses :: "terminal_status list" where
  "terminal_statuses = [EXITED, TIMED_OUT, OUTPUT_LIMIT_EXCEEDED, SPAWN_FAILED, INPUT_REJECTED]"

text \<open>\<^verbatim>\<open>BuildTerminalStatus(value)\<close>. The text of Python's own \<^verbatim>\<open>ValueError\<close> is left out.\<close>

definition terminal_status_of :: "json \<Rightarrow> lk_error + terminal_status" where
  "terminal_status_of v =
     (case find (\<lambda>s. v = JStr (terminal_status_value s)) terminal_statuses of
        Some s \<Rightarrow> Inr s
      | None \<Rightarrow> Inl (ValueError ''not a valid BuildTerminalStatus''))"

record execution_result =
  er_effect_id :: string
  er_workload_sha256 :: string
  er_intent_sha256 :: string
  er_fence_token :: int
  er_status :: terminal_status
  er_returncode :: "int option"
  er_started_at :: string
  er_completed_at :: string
  er_elapsed_monotonic_ns :: int
  er_compute_wall_ms :: json
  er_stdout_sha256 :: string
  er_stderr_sha256 :: string
  er_stdout_bytes :: int
  er_stderr_bytes :: int
  er_output_tail :: string
  er_schema_version :: string
  er_measurement_method :: string

definition result_items :: "execution_result \<Rightarrow> (string \<times> json) list" where
  "result_items r =
     [(''schema_version'', JStr (er_schema_version r)),
      (''effect_id'', JStr (er_effect_id r)),
      (''workload_sha256'', JStr (er_workload_sha256 r)),
      (''intent_sha256'', JStr (er_intent_sha256 r)),
      (''fence_token'', JInt (er_fence_token r)),
      (''status'', JStr (terminal_status_value (er_status r))),
      (''returncode'', json_opt JInt (er_returncode r)),
      (''started_at'', JStr (er_started_at r)),
      (''completed_at'', JStr (er_completed_at r)),
      (''elapsed_monotonic_ns'', JInt (er_elapsed_monotonic_ns r)),
      (''compute_wall_ms'', er_compute_wall_ms r),
      (''stdout_sha256'', JStr (er_stdout_sha256 r)),
      (''stderr_sha256'', JStr (er_stderr_sha256 r)),
      (''stdout_bytes'', JInt (er_stdout_bytes r)),
      (''stderr_bytes'', JInt (er_stderr_bytes r)),
      (''output_tail'', JStr (er_output_tail r)),
      (''measurement_method'', JStr (er_measurement_method r))]"

definition result_to_dict :: "execution_result \<Rightarrow> json" where
  "result_to_dict r = JObj (result_items r)"

section \<open>Checks on values of any type\<close>

definition str_check :: "(string \<Rightarrow> lk_error + string) \<Rightarrow> lk_error \<Rightarrow> json \<Rightarrow> lk_error + string" where
  "str_check f e v = (case v of JStr s \<Rightarrow> f s | _ \<Rightarrow> Inl e)"

definition as_sha256 :: "json \<Rightarrow> string \<Rightarrow> lk_error + string" where
  "as_sha256 v label = str_check (\<lambda>s. ebind (require_sha256 s label) (\<lambda>_. Inr s))
     (ValueError (label @ '' must be a canonical lowercase SHA-256'')) v"

definition as_identifier :: "json \<Rightarrow> string \<Rightarrow> lk_error + string" where
  "as_identifier v label = str_check (\<lambda>s. ebind (require_identifier s label) (\<lambda>_. Inr s))
     (ValueError (label @ '' must be printable, non-empty, and <= 256 chars'')) v"

definition as_utc :: "json \<Rightarrow> string \<Rightarrow> lk_error + string" where
  "as_utc v label = str_check (\<lambda>s. ebind (require_utc s label) (\<lambda>_. Inr s))
     (ValueError (label @ '' must be an RFC3339 UTC timestamp ending in Z'')) v"

definition as_integer :: "json \<Rightarrow> string \<Rightarrow> int \<Rightarrow> lk_error + int" where
  "as_integer v label least =
     (case v of
        JInt i \<Rightarrow> ebind (raise_if (i < least) (ValueError (label @ '' must be an integer >= '' @ show_int least))) (\<lambda>_. Inr i)
      | _ \<Rightarrow> Inl (ValueError (label @ '' must be an integer >= '' @ show_int least)))"

text \<open>\<^verbatim>\<open>v == n\<close> for an integer \<^verbatim>\<open>n\<close>.\<close>

definition equals_int :: "json \<Rightarrow> int \<Rightarrow> bool" where
  "equals_int v n =
     (case v of JInt i \<Rightarrow> i = n | JBool b \<Rightarrow> (if b then 1 else 0) = n | _ \<Rightarrow> False)"

definition expected_wall_ms :: "int \<Rightarrow> int" where
  "expected_wall_ms elapsed_ns = (elapsed_ns + 999999) div 1000000"

text \<open>\<^verbatim>\<open>v not in {s, \<dots>}\<close>: looking up an unhashable value raises.\<close>

definition as_schema :: "json \<Rightarrow> lk_error + string" where
  "as_schema v =
     (case v of
        JStr s \<Rightarrow>
          ebind (raise_if (s \<noteq> BUILD_EXECUTION_SCHEMA_VERSION \<and> s \<noteq> LEGACY_BUILD_EXECUTION_SCHEMA_VERSION)
            (ValueError ''unsupported build execution result schema'')) (\<lambda>_. Inr s)
      | JArr _ \<Rightarrow> Inl (TypeError ''unhashable type: list'')
      | JObj _ \<Rightarrow> Inl (TypeError ''unhashable type: dict'')
      | _ \<Rightarrow> Inl (ValueError ''unsupported build execution result schema''))"

definition as_returncode :: "terminal_status \<Rightarrow> json \<Rightarrow> lk_error + int option" where
  "as_returncode st v =
     (if st = TIMED_OUT \<or> st = OUTPUT_LIMIT_EXCEEDED then
        (if v \<noteq> JNull then Inl (ValueError ''forced-stop result cannot claim a process return code'') else Inr None)
      else case v of
        JInt i \<Rightarrow> Inr (Some i)
      | _ \<Rightarrow> Inl (ValueError ''exited/spawn-failed result requires an integer return code''))"

definition as_output_tail :: "json \<Rightarrow> lk_error + string" where
  "as_output_tail v = str_check (\<lambda>s.
       ebind (raise_if (length (utf8_encode s) > 1048576)
         (ValueError ''output_tail exceeds the v1 1 MiB evidence limit'')) (\<lambda>_. Inr s))
     (ValueError ''output_tail must be text'') v"

text \<open>The constructor's arguments as they arrive, the converted status apart.\<close>

record raw_result =
  rw_schema_version :: json
  rw_effect_id :: json
  rw_workload_sha256 :: json
  rw_intent_sha256 :: json
  rw_fence_token :: json
  rw_returncode :: json
  rw_started_at :: json
  rw_completed_at :: json
  rw_elapsed_monotonic_ns :: json
  rw_compute_wall_ms :: json
  rw_stdout_bytes :: json
  rw_stderr_bytes :: json
  rw_stdout_sha256 :: json
  rw_stderr_sha256 :: json
  rw_output_tail :: json
  rw_measurement_method :: json

text \<open>
  \<^verbatim>\<open>cls(**fields)\<close>: the constructor with its checks, in their order, on the
  arguments it is given.
\<close>

definition construct_result :: "raw_result \<Rightarrow> terminal_status \<Rightarrow> lk_error + execution_result" where
  "construct_result w st =
     ebind (as_schema (rw_schema_version w)) (\<lambda>schema.
     ebind (as_identifier (rw_effect_id w) ''effect_id'') (\<lambda>effect.
     ebind (as_sha256 (rw_workload_sha256 w) ''workload_sha256'') (\<lambda>workload.
     ebind (as_sha256 (rw_intent_sha256 w) ''intent_sha256'') (\<lambda>intent.
     ebind (as_integer (rw_fence_token w) ''fence_token'' 1) (\<lambda>fence.
     ebind (raise_if (schema = LEGACY_BUILD_EXECUTION_SCHEMA_VERSION \<and> st = INPUT_REJECTED)
       (ValueError ''INPUT_REJECTED is available only in the v2 schema'')) (\<lambda>_.
     ebind (as_returncode st (rw_returncode w)) (\<lambda>code.
     ebind (as_utc (rw_started_at w) ''started_at'') (\<lambda>started.
     ebind (as_utc (rw_completed_at w) ''completed_at'') (\<lambda>completed.
     ebind (raise_if (instant_of completed < instant_of started)
       (ValueError ''completed_at cannot precede started_at'')) (\<lambda>_.
     ebind (as_integer (rw_elapsed_monotonic_ns w) ''elapsed_monotonic_ns'' 0) (\<lambda>elapsed.
     ebind (raise_if (\<not> equals_int (rw_compute_wall_ms w) (expected_wall_ms elapsed))
       (ValueError ''compute_wall_ms must be monotonic elapsed time rounded up'')) (\<lambda>_.
     ebind (as_integer (rw_stdout_bytes w) ''stdout_bytes'' 0) (\<lambda>out_bytes.
     ebind (as_integer (rw_stderr_bytes w) ''stderr_bytes'' 0) (\<lambda>err_bytes.
     ebind (as_sha256 (rw_stdout_sha256 w) ''stdout_sha256'') (\<lambda>out_sha.
     ebind (as_sha256 (rw_stderr_sha256 w) ''stderr_sha256'') (\<lambda>err_sha.
     ebind (as_output_tail (rw_output_tail w)) (\<lambda>tail.
     ebind (as_identifier (rw_measurement_method w) ''measurement_method'') (\<lambda>measure_method.
     Inr \<lparr>er_effect_id = effect, er_workload_sha256 = workload, er_intent_sha256 = intent, er_fence_token = fence,
       er_status = st, er_returncode = code, er_started_at = started, er_completed_at = completed,
       er_elapsed_monotonic_ns = elapsed, er_compute_wall_ms = rw_compute_wall_ms w, er_stdout_sha256 = out_sha,
       er_stderr_sha256 = err_sha, er_stdout_bytes = out_bytes, er_stderr_bytes = err_bytes, er_output_tail = tail,
       er_schema_version = schema, er_measurement_method = measure_method\<rparr>))))))))))))))))))"

definition field_of :: "(string \<times> json) list \<Rightarrow> string \<Rightarrow> json" where
  "field_of kvs k = (case map_of kvs k of None \<Rightarrow> JNull | Some v \<Rightarrow> v)"

definition raw_of :: "(string \<times> json) list \<Rightarrow> raw_result" where
  "raw_of kvs =
     \<lparr>rw_schema_version = field_of kvs ''schema_version'',
      rw_effect_id = field_of kvs ''effect_id'',
      rw_workload_sha256 = field_of kvs ''workload_sha256'',
      rw_intent_sha256 = field_of kvs ''intent_sha256'',
      rw_fence_token = field_of kvs ''fence_token'',
      rw_returncode = field_of kvs ''returncode'',
      rw_started_at = field_of kvs ''started_at'',
      rw_completed_at = field_of kvs ''completed_at'',
      rw_elapsed_monotonic_ns = field_of kvs ''elapsed_monotonic_ns'',
      rw_compute_wall_ms = field_of kvs ''compute_wall_ms'',
      rw_stdout_bytes = field_of kvs ''stdout_bytes'',
      rw_stderr_bytes = field_of kvs ''stderr_bytes'',
      rw_stdout_sha256 = field_of kvs ''stdout_sha256'',
      rw_stderr_sha256 = field_of kvs ''stderr_sha256'',
      rw_output_tail = field_of kvs ''output_tail'',
      rw_measurement_method = field_of kvs ''measurement_method''\<rparr>"

definition mk_result :: "execution_result \<Rightarrow> lk_error + execution_result" where
  "mk_result r = construct_result (raw_of (result_items r)) (er_status r)"

definition RESULT_FIELDS :: "string set" where
  "RESULT_FIELDS =
     {''schema_version'', ''effect_id'', ''workload_sha256'', ''intent_sha256'', ''fence_token'', ''status'',
      ''returncode'', ''started_at'', ''completed_at'', ''elapsed_monotonic_ns'', ''compute_wall_ms'',
      ''stdout_sha256'', ''stderr_sha256'', ''stdout_bytes'', ''stderr_bytes'', ''output_tail'', ''measurement_method''}"

definition result_from_dict :: "json \<Rightarrow> lk_error + execution_result" where
  "result_from_dict value =
     (case value of
        JObj kvs \<Rightarrow>
          if fst ` set kvs \<noteq> RESULT_FIELDS
          then Inl (ValueError ''build result fields diverged from the closed v1 schema'')
          else ebind (terminal_status_of (field_of kvs ''status'')) (\<lambda>st. construct_result (raw_of kvs) st)
      | _ \<Rightarrow> Inl (ValueError ''build result fields diverged from the closed v1 schema''))"

section \<open>Evidence and usage\<close>

definition evidence_sha256 :: "execution_result \<Rightarrow> string" where
  "evidence_sha256 r = domain_sha EVIDENCE_DOMAIN (result_to_dict r)"

text \<open>\<^verbatim>\<open>ResourceVector(compute_wall_ms=v)\<close>, whose constructor tests the type.\<close>

definition wall_vector :: "json \<Rightarrow> lk_error + resource_vector" where
  "wall_vector v =
     (case v of
        JInt i \<Rightarrow> mk_resource_vector i 0 0
      | _ \<Rightarrow> Inl (ValueError ''compute.wall_ms must be an integer >= 0''))"

definition measurement_value :: "execution_result \<Rightarrow> resource_vector \<Rightarrow> json" where
  "measurement_value r actual = JObj
     [(''schema_version'', JStr (er_schema_version r)),
      (''measurement_method'', JStr (er_measurement_method r)),
      (''effect_id'', JStr (er_effect_id r)),
      (''workload_sha256'', JStr (er_workload_sha256 r)),
      (''intent_sha256'', JStr (er_intent_sha256 r)),
      (''elapsed_monotonic_ns'', JInt (er_elapsed_monotonic_ns r)),
      (''actual'', vector_to_dict actual),
      (''evidence_sha256'', JStr (evidence_sha256 r))]"

definition result_usage :: "execution_result \<Rightarrow> lk_error + resource_usage" where
  "result_usage r =
     ebind (wall_vector (er_compute_wall_ms r)) (\<lambda>actual.
     mk_usage \<lparr>u_actual = actual, u_measured_at = er_completed_at r,
       u_measurement_sha256 = domain_sha MEASUREMENT_DOMAIN (measurement_value r actual),
       u_evidence_sha256 = evidence_sha256 r, u_schema_version = SCHEMA_VERSION\<rparr>)"

section \<open>Runs\<close>

record build_run =
  br_output :: string
  br_returncode :: int
  br_timed_out :: bool
  br_effect_id :: string
  br_workload_sha256 :: string
  br_intent_sha256 :: string
  br_dispatch_receipt_sha256 :: string
  br_evidence_sha256 :: string
  br_measurement_sha256 :: string
  br_settlement_receipt_sha256 :: string

definition post_init_run :: "build_run \<Rightarrow> lk_error + unit" where
  "post_init_run r = run_checks
     [require_identifier (br_effect_id r) ''effect_id'',
      require_sha256 (br_workload_sha256 r) ''workload_sha256'',
      require_sha256 (br_intent_sha256 r) ''intent_sha256'',
      require_sha256 (br_dispatch_receipt_sha256 r) ''dispatch_receipt_sha256'',
      require_sha256 (br_evidence_sha256 r) ''evidence_sha256'',
      require_sha256 (br_measurement_sha256 r) ''measurement_sha256'',
      require_sha256 (br_settlement_receipt_sha256 r) ''settlement_receipt_sha256'']"

definition mk_run :: "build_run \<Rightarrow> lk_error + build_run" where
  "mk_run r = ebind (post_init_run r) (\<lambda>_. Inr r)"

definition resource_provenance :: "build_run \<Rightarrow> (string \<times> string) list" where
  "resource_provenance r =
     [(''effect_id'', br_effect_id r), (''workload_sha256'', br_workload_sha256 r),
      (''intent_sha256'', br_intent_sha256 r), (''dispatch_receipt_sha256'', br_dispatch_receipt_sha256 r),
      (''evidence_sha256'', br_evidence_sha256 r), (''measurement_sha256'', br_measurement_sha256 r),
      (''settlement_receipt_sha256'', br_settlement_receipt_sha256 r)]"

end
