(* ===== verification/Build_Facts.thy ===== *)
theory Build_Facts
  imports Build_Result Json_Inject Resource_Fresh
begin

text \<open>
  What the build values guarantee: a result that the constructor accepts is the dict it was read
  from, its measured time is the elapsed time rounded up, and its usage is a well-formed
  \<^verbatim>\<open>ResourceUsage\<close>; a specification is determined by the bytes its identity is the hash of.
\<close>

section \<open>Fields\<close>

lemma field_of_simps:
  "field_of ((k, v) # kvs) l = (if l = k then v else field_of kvs l)" "field_of [] l = JNull"
  by (auto simp: field_of_def)

lemma field_of_absent: "k \<notin> fst ` set kvs \<Longrightarrow> field_of kvs k = JNull"
  by (simp add: field_of_def map_of_eq_None_iff [THEN iffD2])

lemma str_check_Inr: "str_check f e v = Inr s \<longleftrightarrow> (\<exists>t. v = JStr t \<and> f t = Inr s)"
  by (auto simp: str_check_def split: json.splits)

lemma as_checks_Inr [check_simps]:
  "as_sha256 v l = Inr s \<longleftrightarrow> v = JStr s \<and> hex64_ok s"
  "as_identifier v l = Inr s \<longleftrightarrow> v = JStr s \<and> identifier_ok s"
  "as_utc v l = Inr s \<longleftrightarrow> v = JStr s \<and> instant_ok s"
  by (auto simp: as_sha256_def as_identifier_def as_utc_def str_check_Inr ebind_eq_Inr check_simps)

lemma as_integer_Inr [check_simps]: "as_integer v l m = Inr i \<longleftrightarrow> v = JInt i \<and> m \<le> i"
  by (auto simp: as_integer_def ebind_eq_Inr check_simps split: json.splits)

lemma as_schema_Inr [check_simps]:
  "as_schema v = Inr s \<longleftrightarrow> v = JStr s \<and> (s = BUILD_EXECUTION_SCHEMA_VERSION \<or> s = LEGACY_BUILD_EXECUTION_SCHEMA_VERSION)"
  by (auto simp: as_schema_def ebind_eq_Inr check_simps split: json.splits)

definition forced_stop :: "terminal_status \<Rightarrow> bool" where
  "forced_stop st \<longleftrightarrow> st = TIMED_OUT \<or> st = OUTPUT_LIMIT_EXCEEDED"

lemma as_returncode_Inr [check_simps]:
  "as_returncode st v = Inr c \<longleftrightarrow> v = json_opt JInt c \<and> (c = None \<longleftrightarrow> forced_stop st)"
  by (auto simp: as_returncode_def forced_stop_def json_opt_def split: json.splits option.splits)

lemma as_output_tail_Inr [check_simps]: "as_output_tail v = Inr s \<longleftrightarrow> v = JStr s \<and> length (utf8_encode s) \<le> 1048576"
  by (auto simp: as_output_tail_def str_check_Inr ebind_eq_Inr check_simps)

lemma result_fields:
  "field_of (result_items r) ''schema_version'' = JStr (er_schema_version r)"
  "field_of (result_items r) ''effect_id'' = JStr (er_effect_id r)"
  "field_of (result_items r) ''workload_sha256'' = JStr (er_workload_sha256 r)"
  "field_of (result_items r) ''intent_sha256'' = JStr (er_intent_sha256 r)"
  "field_of (result_items r) ''fence_token'' = JInt (er_fence_token r)"
  "field_of (result_items r) ''status'' = JStr (terminal_status_value (er_status r))"
  "field_of (result_items r) ''returncode'' = json_opt JInt (er_returncode r)"
  "field_of (result_items r) ''started_at'' = JStr (er_started_at r)"
  "field_of (result_items r) ''completed_at'' = JStr (er_completed_at r)"
  "field_of (result_items r) ''elapsed_monotonic_ns'' = JInt (er_elapsed_monotonic_ns r)"
  "field_of (result_items r) ''compute_wall_ms'' = er_compute_wall_ms r"
  "field_of (result_items r) ''stdout_sha256'' = JStr (er_stdout_sha256 r)"
  "field_of (result_items r) ''stderr_sha256'' = JStr (er_stderr_sha256 r)"
  "field_of (result_items r) ''stdout_bytes'' = JInt (er_stdout_bytes r)"
  "field_of (result_items r) ''stderr_bytes'' = JInt (er_stderr_bytes r)"
  "field_of (result_items r) ''output_tail'' = JStr (er_output_tail r)"
  "field_of (result_items r) ''measurement_method'' = JStr (er_measurement_method r)"
  by (simp_all add: result_items_def field_of_simps)

definition raw_fields :: "execution_result \<Rightarrow> raw_result" where
  "raw_fields r =
     \<lparr>rw_schema_version = JStr (er_schema_version r),
      rw_effect_id = JStr (er_effect_id r),
      rw_workload_sha256 = JStr (er_workload_sha256 r),
      rw_intent_sha256 = JStr (er_intent_sha256 r),
      rw_fence_token = JInt (er_fence_token r),
      rw_returncode = json_opt JInt (er_returncode r),
      rw_started_at = JStr (er_started_at r),
      rw_completed_at = JStr (er_completed_at r),
      rw_elapsed_monotonic_ns = JInt (er_elapsed_monotonic_ns r),
      rw_compute_wall_ms = er_compute_wall_ms r,
      rw_stdout_bytes = JInt (er_stdout_bytes r),
      rw_stderr_bytes = JInt (er_stderr_bytes r),
      rw_stdout_sha256 = JStr (er_stdout_sha256 r),
      rw_stderr_sha256 = JStr (er_stderr_sha256 r),
      rw_output_tail = JStr (er_output_tail r),
      rw_measurement_method = JStr (er_measurement_method r)\<rparr>"

lemma raw_of_items: "raw_of (result_items r) = raw_fields r"
  unfolding raw_of_def raw_fields_def result_fields by (rule refl)

lemma in_result_fields:
  assumes "k \<in> RESULT_FIELDS" and "raw_of kvs = raw_of kvs'" and "field_of kvs ''status'' = field_of kvs' ''status''"
  shows "field_of kvs k = field_of kvs' k"
  using assms unfolding RESULT_FIELDS_def raw_of_def raw_result.iffs by (elim insertE) (simp_all only: empty_iff)

section \<open>Accepted results\<close>

definition result_ok :: "execution_result \<Rightarrow> bool" where
  "result_ok r \<longleftrightarrow>
     (er_schema_version r = BUILD_EXECUTION_SCHEMA_VERSION \<or> er_schema_version r = LEGACY_BUILD_EXECUTION_SCHEMA_VERSION) \<and>
     identifier_ok (er_effect_id r) \<and> hex64_ok (er_workload_sha256 r) \<and> hex64_ok (er_intent_sha256 r) \<and>
     1 \<le> er_fence_token r \<and> \<not> (er_schema_version r = LEGACY_BUILD_EXECUTION_SCHEMA_VERSION \<and> er_status r = INPUT_REJECTED) \<and>
     (er_returncode r = None \<longleftrightarrow> forced_stop (er_status r)) \<and> instant_ok (er_started_at r) \<and> instant_ok (er_completed_at r) \<and>
     instant_of (er_started_at r) \<le> instant_of (er_completed_at r) \<and> 0 \<le> er_elapsed_monotonic_ns r \<and>
     equals_int (er_compute_wall_ms r) (expected_wall_ms (er_elapsed_monotonic_ns r)) \<and>
     0 \<le> er_stdout_bytes r \<and> 0 \<le> er_stderr_bytes r \<and> hex64_ok (er_stdout_sha256 r) \<and> hex64_ok (er_stderr_sha256 r) \<and>
     length (utf8_encode (er_output_tail r)) \<le> 1048576 \<and> identifier_ok (er_measurement_method r)"

lemma json_opt_JInt_inject [simp]: "json_opt JInt c = json_opt JInt d \<longleftrightarrow> c = d"
  by (auto simp: json_opt_def split: option.splits)

lemma construct_result_Inr: "construct_result w st = Inr r \<longleftrightarrow> result_ok r \<and> er_status r = st \<and> w = raw_fields r"
proof
  assume "construct_result w st = Inr r"
  then show "result_ok r \<and> er_status r = st \<and> w = raw_fields r"
    unfolding construct_result_def ebind_eq_Inr check_simps
    by (elim exE conjE) (auto simp: result_ok_def raw_fields_def)
next
  assume "result_ok r \<and> er_status r = st \<and> w = raw_fields r"
  then show "construct_result w st = Inr r"
    unfolding construct_result_def ebind_eq_Inr check_simps
    by (cases r) (auto simp: result_ok_def raw_fields_def linorder_not_less)
qed

lemma result_items_keys: "fst ` set (result_items r) = RESULT_FIELDS"
  unfolding result_items_def RESULT_FIELDS_def by (simp only: list.set image_insert image_empty fst_conv)

lemma terminal_status_of_value [simp]: "terminal_status_of (JStr (terminal_status_value st)) = Inr st"
  by (cases st) (simp_all add: terminal_status_of_def terminal_statuses_def)

lemma terminal_status_of_Inr: "terminal_status_of v = Inr st \<Longrightarrow> v = JStr (terminal_status_value st)"
  by (auto simp: terminal_status_of_def terminal_statuses_def split: if_splits option.splits)

lemma mk_result_Inr: "mk_result r = Inr q \<longleftrightarrow> result_ok r \<and> q = r"
proof -
  have "raw_fields r = raw_fields q \<Longrightarrow> er_status q = er_status r \<Longrightarrow> q = r"
    by (intro execution_result.equality) (auto simp: raw_fields_def)
  then show ?thesis unfolding mk_result_def construct_result_Inr raw_of_items by auto
qed

text \<open>Two dicts agree when every lookup does.\<close>

definition same_dict :: "(string \<times> json) list \<Rightarrow> (string \<times> json) list \<Rightarrow> bool" where
  "same_dict kvs kvs' \<longleftrightarrow> fst ` set kvs = fst ` set kvs' \<and> (\<forall>k. field_of kvs k = field_of kvs' k)"

lemma result_from_dict_Inr:
  "result_from_dict j = Inr r \<longleftrightarrow> result_ok r \<and> (\<exists>kvs. j = JObj kvs \<and> same_dict kvs (result_items r))"
proof
  assume j: "result_from_dict j = Inr r"
  then obtain kvs st where k: "j = JObj kvs" "fst ` set kvs = RESULT_FIELDS" "terminal_status_of (field_of kvs ''status'') = Inr st"
    and c: "construct_result (raw_of kvs) st = Inr r"
    by (auto simp: result_from_dict_def ebind_eq_Inr split: json.splits if_splits)
  from c have r: "result_ok r" "er_status r = st" and f: "raw_of kvs = raw_of (result_items r)"
    by (simp_all add: construct_result_Inr raw_of_items)
  have s: "field_of kvs ''status'' = field_of (result_items r) ''status''"
    unfolding result_fields r(2) by (rule terminal_status_of_Inr [OF k(3)])
  have "field_of kvs l = field_of (result_items r) l" for l
  proof (cases "l \<in> RESULT_FIELDS")
    case True
    then show ?thesis by (rule in_result_fields [OF _ f s])
  next
    case False
    then show ?thesis using k(2) result_items_keys [of r] by (simp add: field_of_absent)
  qed
  with k(1,2) r show "result_ok r \<and> (\<exists>kvs. j = JObj kvs \<and> same_dict kvs (result_items r))"
    unfolding same_dict_def result_items_keys by blast
next
  assume "result_ok r \<and> (\<exists>kvs. j = JObj kvs \<and> same_dict kvs (result_items r))"
  then obtain kvs where r: "result_ok r" and k: "j = JObj kvs" "fst ` set kvs = RESULT_FIELDS"
    "field_of kvs = field_of (result_items r)" unfolding same_dict_def result_items_keys by blast
  have "raw_of kvs = raw_fields r" unfolding raw_of_items [symmetric] raw_of_def k(3) ..
  then have "construct_result (raw_of kvs) (er_status r) = Inr r" using r by (simp add: construct_result_Inr)
  moreover have "field_of kvs ''status'' = JStr (terminal_status_value (er_status r))"
    unfolding k(3) by (rule result_fields)
  ultimately show "result_from_dict j = Inr r"
    unfolding k(1) result_from_dict_def json.case k(2) by (simp only: terminal_status_of_value ebind_Inr simp_thms if_False)
qed

section \<open>Measured time\<close>

lemma expected_wall_ms_nonneg: "0 \<le> ns \<Longrightarrow> 0 \<le> expected_wall_ms ns"
  by (simp add: expected_wall_ms_def)

lemma expected_wall_ms_ceiling: "expected_wall_ms ns \<le> m \<longleftrightarrow> ns \<le> m * 1000000"
  unfolding expected_wall_ms_def by linarith

lemma result_usage_Inr:
  assumes "result_ok r" and "result_usage r = Inr u"
  shows "usage_ok u" "u_actual u = ResourceVector (nat (expected_wall_ms (er_elapsed_monotonic_ns r))) 0 0"
    "u_measured_at u = er_completed_at r"
proof -
  from assms(2) obtain v where v: "wall_vector (er_compute_wall_ms r) = Inr v"
    and u: "mk_usage \<lparr>u_actual = v, u_measured_at = er_completed_at r,
       u_measurement_sha256 = domain_sha MEASUREMENT_DOMAIN (measurement_value r v),
       u_evidence_sha256 = evidence_sha256 r, u_schema_version = SCHEMA_VERSION\<rparr> = Inr u"
    by (auto simp: result_usage_def ebind_eq_Inr)
  from u have "u = \<lparr>u_actual = v, u_measured_at = er_completed_at r,
       u_measurement_sha256 = domain_sha MEASUREMENT_DOMAIN (measurement_value r v),
       u_evidence_sha256 = evidence_sha256 r, u_schema_version = SCHEMA_VERSION\<rparr>" "usage_ok u"
    by (auto simp: mk_usage_def ebind_eq_Inr check_simps)
  moreover from v assms(1) have "v = ResourceVector (nat (expected_wall_ms (er_elapsed_monotonic_ns r))) 0 0"
    by (auto simp: wall_vector_def mk_resource_vector_def ebind_eq_Inr check_simps result_ok_def equals_int_def split: json.splits)
  ultimately show "usage_ok u" "u_actual u = ResourceVector (nat (expected_wall_ms (er_elapsed_monotonic_ns r))) 0 0"
    "u_measured_at u = er_completed_at r" by simp_all
qed

section \<open>Specifications\<close>

definition spec_items :: "execution_spec \<Rightarrow> (string \<times> json) list" where
  "spec_items s = (case spec_to_dict s of JObj kvs \<Rightarrow> kvs | _ \<Rightarrow> [])"

lemma spec_to_dict_items: "spec_to_dict s = JObj (spec_items s)"
  by (simp add: spec_items_def spec_to_dict_def)

lemma spec_items_distinct: "distinct (map fst (spec_items s))"
  by (simp add: spec_items_def spec_to_dict_def)

lemma spec_fields:
  "map_of (spec_items s) ''schema_version'' = Some (JStr (es_schema_version s))"
  "map_of (spec_items s) ''adapter'' = Some (JStr (es_adapter s))"
  "map_of (spec_items s) ''adapter_version'' = Some (JStr (es_adapter_version s))"
  "map_of (spec_items s) ''command'' = Some (JStr (es_command s))"
  "map_of (spec_items s) ''cwd'' = Some (JStr (es_cwd s))"
  "map_of (spec_items s) ''shell'' = Some (JStr (es_shell s))"
  "map_of (spec_items s) ''timeout_seconds'' = Some (JInt (es_timeout_seconds s))"
  "map_of (spec_items s) ''environment_sha256'' = Some (JStr (es_environment_sha256 s))"
  "map_of (spec_items s) ''input_manifest_sha256'' = Some (JStr (es_input_manifest_sha256 s))"
  "map_of (spec_items s) ''isolation_adapter'' = Some (JStr (es_isolation_adapter s))"
  "map_of (spec_items s) ''isolation_version'' = Some (JStr (es_isolation_version s))"
  "map_of (spec_items s) ''isolation_policy_sha256'' = Some (JStr (es_isolation_policy_sha256 s))"
  "map_of (spec_items s) ''execution_policy_sha256'' = Some (JStr (es_execution_policy_sha256 s))"
  "map_of (spec_items s) ''process_cleanup_grace_ms'' = Some (JInt (es_process_cleanup_grace_ms s))"
  "map_of (spec_items s) ''stream_capture_strategy'' = Some (JStr (es_stream_capture_strategy s))"
  "map_of (spec_items s) ''output_tail_bytes'' = Some (JInt (es_output_tail_bytes s))"
  "map_of (spec_items s) ''max_output_bytes'' = Some (JInt (es_max_output_bytes s))"
  "map_of (spec_items s) ''provider_calls'' = Some (JStr (es_provider_calls s))"
  by (simp_all add: spec_items_def spec_to_dict_def)

lemma spec_determined:
  assumes "\<And>k. map_option canonical (map_of (spec_items s) k) = map_option canonical (map_of (spec_items q) k)"
  shows "s = q"
  using assms [of "''schema_version''"] assms [of "''adapter''"] assms [of "''adapter_version''"] assms [of "''command''"]
    assms [of "''cwd''"] assms [of "''shell''"] assms [of "''timeout_seconds''"] assms [of "''environment_sha256''"]
    assms [of "''input_manifest_sha256''"] assms [of "''isolation_adapter''"] assms [of "''isolation_version''"]
    assms [of "''isolation_policy_sha256''"] assms [of "''execution_policy_sha256''"] assms [of "''process_cleanup_grace_ms''"]
    assms [of "''stream_capture_strategy''"] assms [of "''output_tail_bytes''"] assms [of "''max_output_bytes''"]
    assms [of "''provider_calls''"]
  unfolding spec_fields by (intro execution_spec.equality) simp_all

lemma workload_preimage_inject: "workload_preimage s = workload_preimage q \<longleftrightarrow> s = q"
proof
  assume "workload_preimage s = workload_preimage q"
  then have "canonical (JObj (spec_items s)) = canonical (JObj (spec_items q))"
    by (simp only: workload_preimage_def build_canonical_bytes_def append_same_eq same_append_eq json_bytes_inject spec_to_dict_items)
  then show "s = q" by (intro spec_determined canonical_members) (simp_all only: spec_items_distinct)
qed simp

section \<open>Identities\<close>

lemma identity_frame:
  assumes "a @ x # b = c @ x # d" and "x \<notin> set a" and "x \<notin> set c"
  shows "a = c \<and> b = d"
  using assms(1-3)
proof (induction a arbitrary: c)
  case Nil
  then show ?case by (cases c) auto
next
  case (Cons y a)
  then show ?case by (cases c) auto
qed

lemma identity_preimage_inject:
  assumes "NUL \<notin> set tree" and "NUL \<notin> set tag" and "NUL \<notin> set tree'" and "NUL \<notin> set tag'"
    and "identity_preimage tree tag w = identity_preimage tree' tag' w'"
  shows "tree = tree' \<and> tag = tag' \<and> w = w'"
proof -
  from assms(5) have "tree @ NUL # tag @ NUL # w = tree' @ NUL # tag' @ NUL # w'"
    by (simp add: identity_preimage_def utf8_encode_inject)
  from identity_frame [OF this assms(1,3)] have "tree = tree'" "tag @ NUL # w = tag' @ NUL # w'" by simp_all
  with identity_frame [OF this(2) assms(2,4)] show ?thesis by simp
qed

lemma sha256_hex64 [simp]: "hex64_ok (sha256_hex bs)"
proof -
  have "\<forall>c \<in> set (sha256_hex bs). c \<in> set ''0123456789abcdef''" using sha256_hex_chars by blast
  then show ?thesis unfolding hex64_ok_def list_all_iff by (simp only: length_sha256_hex str_lower_sha256_hex simp_thms)
qed

end
