(* ===== verification/Exec_Model.thy ===== *)
theory Exec_Model
  imports Resource_Evolve
begin

text \<open>
  The values of \<^verbatim>\<open>lakatos/resource_execution.py\<close>: the journal cut an adapter confirms
  (\<^verbatim>\<open>ResourceAuthority\<close>), the stable intent of a started workload, the short-lived permit,
  and the receipt of its effect, each with its constructor's checks. The module repeats the
  field validators with its own messages.
\<close>

section \<open>Constants and validators\<close>

definition EXECUTION_SCHEMA_VERSION :: string where
  "EXECUTION_SCHEMA_VERSION = ''lakatotree.resource-execution/v1''"

definition WORKLOAD_DISPATCH_OPERATION :: string where
  "WORKLOAD_DISPATCH_OPERATION = ''workload.dispatch/v1''"

definition DEFAULT_PERMIT_TTL_SECONDS :: int where
  "DEFAULT_PERMIT_TTL_SECONDS = 30"

definition MAX_PERMIT_TTL_SECONDS :: int where
  "MAX_PERMIT_TTL_SECONDS = 300"

definition exec_canonical_sha :: "json \<Rightarrow> string" where
  "exec_canonical_sha value = sha256_hex (json_bytes value)"

definition exec_identifier :: "string \<Rightarrow> string \<Rightarrow> lk_error + unit" where
  "exec_identifier v label =
     raise_if (v = [] \<or> 256 < length v \<or> \<not> str_isprintable v)
       (ValueError (label @ '' must be a printable non-empty string <= 256 chars''))"

definition exec_sha256 :: "string \<Rightarrow> string \<Rightarrow> lk_error + unit" where
  "exec_sha256 v label =
     raise_if (length v \<noteq> 64 \<or> v \<noteq> str_lower v \<or> list_ex (\<lambda>c. c \<notin> set hexdigits) v)
       (ValueError (label @ '' must be a lowercase hexadecimal SHA-256''))"

definition exec_integer :: "int \<Rightarrow> string \<Rightarrow> int \<Rightarrow> lk_error + unit" where
  "exec_integer v label least =
     raise_if (v < least) (ValueError (label @ '' must be an integer >= '' @ show_int least))"

definition exec_utc_instant :: "string \<Rightarrow> string \<Rightarrow> lk_error + instant" where
  "exec_utc_instant v label =
     (if \<not> rfc3339_shape v
      then Inl (ValueError (label @ '' must be an RFC3339 UTC timestamp ending in Z''))
      else case from_isoformat v of
        None \<Rightarrow> Inl (ValueError (label @ '' must be a valid RFC3339 UTC timestamp''))
      | Some i \<Rightarrow> Inr i)"

definition exec_utc_text :: "instant \<Rightarrow> string" where
  "exec_utc_text i = utc_text i"

lemma exec_identifier_Inr [check_simps]: "exec_identifier v l = Inr u \<longleftrightarrow> identifier_ok v"
  by (auto simp: exec_identifier_def identifier_ok_def raise_if_def)

lemma exec_sha256_Inr [check_simps]: "exec_sha256 v l = Inr u \<longleftrightarrow> sha256_ok v"
  by (auto simp: exec_sha256_def sha256_ok_def raise_if_def list_ex_iff list_all_iff)

lemma exec_integer_Inr [check_simps]: "exec_integer v l m = Inr u \<longleftrightarrow> m \<le> v"
  by (auto simp: exec_integer_def raise_if_def)

lemma exec_utc_instant_Inr [check_simps]:
  "exec_utc_instant v l = Inr i \<longleftrightarrow> instant_ok v \<and> i = instant_of v"
  by (auto simp: exec_utc_instant_def instant_ok_def instant_of_def split: option.splits)

section \<open>Authority\<close>

record resource_authority =
  au_budget_id :: string
  au_scope :: string
  au_epoch :: int
  au_revision :: int
  au_state_sha256 :: string
  au_checkpoint_sha256 :: string
  au_journal_head_sha256 :: string
  au_anchor_status :: string
  au_schema_version :: string

definition post_init_authority :: "resource_authority \<Rightarrow> lk_error + unit" where
  "post_init_authority a = run_checks
     [raise_if (au_schema_version a \<noteq> EXECUTION_SCHEMA_VERSION)
        (ValueError ''unsupported resource authority schema''),
      exec_identifier (au_budget_id a) ''authority.budget_id'',
      exec_identifier (au_scope a) ''authority.scope'',
      exec_integer (au_epoch a) ''authority.epoch'' 1,
      exec_integer (au_revision a) ''authority.revision'' 0,
      exec_sha256 (au_state_sha256 a) ''authority.state_sha256'',
      exec_sha256 (au_checkpoint_sha256 a) ''authority.checkpoint_sha256'',
      exec_sha256 (au_journal_head_sha256 a) ''authority.journal_head_sha256'',
      raise_if (au_anchor_status a \<notin> set [''PENDING'', ''CONFIRMED''])
        (ValueError ''authority.anchor_status must be PENDING or CONFIRMED'')]"

definition authority_to_dict :: "resource_authority \<Rightarrow> json" where
  "authority_to_dict a = JObj
     [(''schema_version'', JStr (au_schema_version a)),
      (''budget_id'', JStr (au_budget_id a)),
      (''scope'', JStr (au_scope a)),
      (''epoch'', JInt (au_epoch a)),
      (''revision'', JInt (au_revision a)),
      (''state_sha256'', JStr (au_state_sha256 a)),
      (''checkpoint_sha256'', JStr (au_checkpoint_sha256 a)),
      (''journal_head_sha256'', JStr (au_journal_head_sha256 a)),
      (''anchor_status'', JStr (au_anchor_status a))]"

section \<open>Intent references\<close>

record intent_reference =
  ir_effect_id :: string
  ir_budget_id :: string
  ir_scope :: string
  ir_epoch :: int
  ir_grant_id :: string
  ir_fence_token :: int
  ir_workload_sha256 :: string
  ir_estimate_sha256 :: string
  ir_adapter :: string
  ir_adapter_version :: string
  ir_start_command_sha256 :: string
  ir_start_receipt_sha256 :: string
  ir_intent_sha256 :: string
  ir_start_observed_at :: string
  ir_start_revision :: int
  ir_grant_expires_at :: string
  ir_operation :: string
  ir_schema_version :: string

definition post_init_reference :: "intent_reference \<Rightarrow> lk_error + unit" where
  "post_init_reference r =
     ebind (run_checks
       ([raise_if (ir_schema_version r \<noteq> EXECUTION_SCHEMA_VERSION)
          (ValueError ''unsupported workload-dispatch intent schema''),
        raise_if (ir_operation r \<noteq> WORKLOAD_DISPATCH_OPERATION)
          (ValueError ''unsupported workload-dispatch operation'')] @
       map (\<lambda>(label, value). exec_identifier value (''intent reference.'' @ label))
         [(''effect_id'', ir_effect_id r), (''budget_id'', ir_budget_id r), (''scope'', ir_scope r),
          (''grant_id'', ir_grant_id r), (''adapter'', ir_adapter r),
          (''adapter_version'', ir_adapter_version r)] @
       [exec_integer (ir_epoch r) ''intent reference.epoch'' 1,
        exec_integer (ir_fence_token r) ''intent reference.fence_token'' 1,
        exec_integer (ir_start_revision r) ''intent reference.start_revision'' 1] @
       map (\<lambda>(label, value). exec_sha256 value (''intent reference.'' @ label))
         [(''workload_sha256'', ir_workload_sha256 r), (''estimate_sha256'', ir_estimate_sha256 r),
          (''start_command_sha256'', ir_start_command_sha256 r),
          (''start_receipt_sha256'', ir_start_receipt_sha256 r), (''intent_sha256'', ir_intent_sha256 r)])) (\<lambda>_.
     ebind (exec_utc_instant (ir_start_observed_at r) ''intent reference.start_observed_at'') (\<lambda>started.
     ebind (exec_utc_instant (ir_grant_expires_at r) ''intent reference.grant_expires_at'') (\<lambda>expires.
     raise_if (started \<ge> expires) (ValueError ''dispatch intent must start before grant expiry''))))"

definition mk_reference :: "intent_reference \<Rightarrow> lk_error + intent_reference" where
  "mk_reference r = ebind (post_init_reference r) (\<lambda>_. Inr r)"

definition reference_items :: "intent_reference \<Rightarrow> (string \<times> json) list" where
  "reference_items r =
     [(''schema_version'', JStr (ir_schema_version r)),
      (''operation'', JStr (ir_operation r)),
      (''effect_id'', JStr (ir_effect_id r)),
      (''budget_id'', JStr (ir_budget_id r)),
      (''scope'', JStr (ir_scope r)),
      (''epoch'', JInt (ir_epoch r)),
      (''grant_id'', JStr (ir_grant_id r)),
      (''fence_token'', JInt (ir_fence_token r)),
      (''workload_sha256'', JStr (ir_workload_sha256 r)),
      (''estimate_sha256'', JStr (ir_estimate_sha256 r)),
      (''adapter'', JStr (ir_adapter r)),
      (''adapter_version'', JStr (ir_adapter_version r)),
      (''start_command_sha256'', JStr (ir_start_command_sha256 r)),
      (''start_receipt_sha256'', JStr (ir_start_receipt_sha256 r)),
      (''intent_sha256'', JStr (ir_intent_sha256 r)),
      (''start_observed_at'', JStr (ir_start_observed_at r)),
      (''start_revision'', JInt (ir_start_revision r)),
      (''grant_expires_at'', JStr (ir_grant_expires_at r))]"

definition reference_to_dict :: "intent_reference \<Rightarrow> json" where
  "reference_to_dict r = JObj (reference_items r)"

section \<open>Permits\<close>

text \<open>A permit is the fields of its intent and the authority it was minted under.\<close>

record dispatch_permit =
  pm_effect_id :: string
  pm_budget_id :: string
  pm_scope :: string
  pm_epoch :: int
  pm_grant_id :: string
  pm_fence_token :: int
  pm_workload_sha256 :: string
  pm_estimate_sha256 :: string
  pm_adapter :: string
  pm_adapter_version :: string
  pm_start_command_sha256 :: string
  pm_start_receipt_sha256 :: string
  pm_intent_sha256 :: string
  pm_start_observed_at :: string
  pm_start_revision :: int
  pm_authority_revision :: int
  pm_authority_state_sha256 :: string
  pm_authority_checkpoint_sha256 :: string
  pm_authority_journal_head_sha256 :: string
  pm_issued_at :: string
  pm_expires_at :: string
  pm_grant_expires_at :: string
  pm_operation :: string
  pm_schema_version :: string

definition permit_reference :: "dispatch_permit \<Rightarrow> intent_reference" where
  "permit_reference p =
     \<lparr>ir_effect_id = pm_effect_id p, ir_budget_id = pm_budget_id p, ir_scope = pm_scope p,
      ir_epoch = pm_epoch p, ir_grant_id = pm_grant_id p, ir_fence_token = pm_fence_token p,
      ir_workload_sha256 = pm_workload_sha256 p, ir_estimate_sha256 = pm_estimate_sha256 p,
      ir_adapter = pm_adapter p, ir_adapter_version = pm_adapter_version p,
      ir_start_command_sha256 = pm_start_command_sha256 p,
      ir_start_receipt_sha256 = pm_start_receipt_sha256 p, ir_intent_sha256 = pm_intent_sha256 p,
      ir_start_observed_at = pm_start_observed_at p, ir_start_revision = pm_start_revision p,
      ir_grant_expires_at = pm_grant_expires_at p, ir_operation = pm_operation p,
      ir_schema_version = pm_schema_version p\<rparr>"

text \<open>The property \<^verbatim>\<open>intent_reference\<close> constructs, so it can raise.\<close>

definition permit_intent_reference :: "dispatch_permit \<Rightarrow> lk_error + intent_reference" where
  "permit_intent_reference p = mk_reference (permit_reference p)"

definition post_init_permit :: "dispatch_permit \<Rightarrow> lk_error + unit" where
  "post_init_permit p =
     ebind (run_checks
       ([raise_if (pm_schema_version p \<noteq> EXECUTION_SCHEMA_VERSION)
          (ValueError ''unsupported workload-dispatch permit schema''),
        raise_if (pm_operation p \<noteq> WORKLOAD_DISPATCH_OPERATION)
          (ValueError ''unsupported workload-dispatch operation''),
        ebind (permit_intent_reference p) (\<lambda>_. Inr ()),
        exec_integer (pm_authority_revision p) ''permit.authority_revision'' 1,
        raise_if (pm_start_revision p > pm_authority_revision p)
          (ValueError ''permit start revision cannot exceed authority revision'')] @
       map (\<lambda>(label, value). exec_sha256 value (''permit.'' @ label))
         [(''authority_state_sha256'', pm_authority_state_sha256 p),
          (''authority_checkpoint_sha256'', pm_authority_checkpoint_sha256 p),
          (''authority_journal_head_sha256'', pm_authority_journal_head_sha256 p)])) (\<lambda>_.
     ebind (exec_utc_instant (pm_issued_at p) ''permit.issued_at'') (\<lambda>issued.
     ebind (exec_utc_instant (pm_start_observed_at p) ''permit.start_observed_at'') (\<lambda>start_observed.
     ebind (exec_utc_instant (pm_expires_at p) ''permit.expires_at'') (\<lambda>expires.
     ebind (exec_utc_instant (pm_grant_expires_at p) ''permit.grant_expires_at'') (\<lambda>grant_expires.
     run_checks
       [raise_if (issued \<ge> expires) (ValueError ''permit must be issued before its expiry''),
        raise_if (issued < start_observed) (ValueError ''permit cannot be issued before StartGrant''),
        raise_if (expires > grant_expires) (ValueError ''permit cannot outlive its resource grant''),
        raise_if (expires - issued > seconds MAX_PERMIT_TTL_SECONDS)
          (ValueError ''permit lifetime exceeds the closed maximum TTL'')])))))"

definition mk_permit :: "dispatch_permit \<Rightarrow> lk_error + dispatch_permit" where
  "mk_permit p = ebind (post_init_permit p) (\<lambda>_. Inr p)"

definition permit_to_dict :: "dispatch_permit \<Rightarrow> json" where
  "permit_to_dict p = JObj (reference_items (permit_reference p) @
     [(''authority_revision'', JInt (pm_authority_revision p)),
      (''authority_state_sha256'', JStr (pm_authority_state_sha256 p)),
      (''authority_checkpoint_sha256'', JStr (pm_authority_checkpoint_sha256 p)),
      (''authority_journal_head_sha256'', JStr (pm_authority_journal_head_sha256 p)),
      (''issued_at'', JStr (pm_issued_at p)),
      (''expires_at'', JStr (pm_expires_at p))])"

definition permit_sha256 :: "dispatch_permit \<Rightarrow> string" where
  "permit_sha256 p = exec_canonical_sha (permit_to_dict p)"

section \<open>Effect receipts\<close>

record dispatch_receipt =
  dr_effect_id :: string
  dr_workload_sha256 :: string
  dr_fence_token :: int
  dr_intent_sha256 :: string
  dr_completed_at :: string
  dr_evidence_sha256 :: string
  dr_operation :: string
  dr_schema_version :: string

definition post_init_dispatch_receipt :: "dispatch_receipt \<Rightarrow> lk_error + unit" where
  "post_init_dispatch_receipt r = run_checks
     ([raise_if (dr_schema_version r \<noteq> EXECUTION_SCHEMA_VERSION)
        (ValueError ''unsupported workload-dispatch receipt schema''),
      raise_if (dr_operation r \<noteq> WORKLOAD_DISPATCH_OPERATION)
        (ValueError ''unsupported workload-dispatch receipt operation''),
      exec_identifier (dr_effect_id r) ''dispatch receipt.effect_id'',
      exec_integer (dr_fence_token r) ''dispatch receipt.fence_token'' 1] @
     map (\<lambda>(label, value). exec_sha256 value (''dispatch receipt.'' @ label))
       [(''workload_sha256'', dr_workload_sha256 r), (''intent_sha256'', dr_intent_sha256 r),
        (''evidence_sha256'', dr_evidence_sha256 r)] @
     [ebind (exec_utc_instant (dr_completed_at r) ''dispatch receipt.completed_at'') (\<lambda>_. Inr ())])"

definition dispatch_receipt_to_dict :: "dispatch_receipt \<Rightarrow> json" where
  "dispatch_receipt_to_dict r = JObj
     [(''schema_version'', JStr (dr_schema_version r)),
      (''operation'', JStr (dr_operation r)),
      (''effect_id'', JStr (dr_effect_id r)),
      (''workload_sha256'', JStr (dr_workload_sha256 r)),
      (''fence_token'', JInt (dr_fence_token r)),
      (''intent_sha256'', JStr (dr_intent_sha256 r)),
      (''completed_at'', JStr (dr_completed_at r)),
      (''evidence_sha256'', JStr (dr_evidence_sha256 r))]"

definition dispatch_receipt_sha256 :: "dispatch_receipt \<Rightarrow> string" where
  "dispatch_receipt_sha256 r = exec_canonical_sha (dispatch_receipt_to_dict r)"

section \<open>What the constructors decide\<close>

definition reference_ok :: "intent_reference \<Rightarrow> bool" where
  "reference_ok r \<longleftrightarrow>
     ir_schema_version r = EXECUTION_SCHEMA_VERSION \<and> ir_operation r = WORKLOAD_DISPATCH_OPERATION \<and>
     identifier_ok (ir_effect_id r) \<and> identifier_ok (ir_budget_id r) \<and> identifier_ok (ir_scope r) \<and>
     identifier_ok (ir_grant_id r) \<and> identifier_ok (ir_adapter r) \<and> identifier_ok (ir_adapter_version r) \<and>
     1 \<le> ir_epoch r \<and> 1 \<le> ir_fence_token r \<and> 1 \<le> ir_start_revision r \<and>
     sha256_ok (ir_workload_sha256 r) \<and> sha256_ok (ir_estimate_sha256 r) \<and>
     sha256_ok (ir_start_command_sha256 r) \<and> sha256_ok (ir_start_receipt_sha256 r) \<and>
     sha256_ok (ir_intent_sha256 r) \<and>
     instant_ok (ir_start_observed_at r) \<and> instant_ok (ir_grant_expires_at r) \<and>
     instant_of (ir_start_observed_at r) < instant_of (ir_grant_expires_at r)"

lemma post_init_reference_Inr [check_simps]: "post_init_reference r = Inr u \<longleftrightarrow> reference_ok r"
  unfolding post_init_reference_def reference_ok_def ebind_eq_Inr run_checks_Inr
  by (auto simp: check_simps)

definition permit_ok :: "dispatch_permit \<Rightarrow> bool" where
  "permit_ok p \<longleftrightarrow>
     reference_ok (permit_reference p) \<and> 1 \<le> pm_authority_revision p \<and>
     pm_start_revision p \<le> pm_authority_revision p \<and>
     sha256_ok (pm_authority_state_sha256 p) \<and> sha256_ok (pm_authority_checkpoint_sha256 p) \<and>
     sha256_ok (pm_authority_journal_head_sha256 p) \<and>
     instant_ok (pm_issued_at p) \<and> instant_ok (pm_expires_at p) \<and>
     instant_of (pm_start_observed_at p) \<le> instant_of (pm_issued_at p) \<and>
     instant_of (pm_issued_at p) < instant_of (pm_expires_at p) \<and>
     instant_of (pm_expires_at p) \<le> instant_of (pm_grant_expires_at p) \<and>
     instant_of (pm_expires_at p) - instant_of (pm_issued_at p) \<le> seconds MAX_PERMIT_TTL_SECONDS"

lemma permit_reference_Inr: "ebind (permit_intent_reference p) (\<lambda>_. Inr ()) = Inr () \<longleftrightarrow> reference_ok (permit_reference p)"
  by (auto simp: permit_intent_reference_def mk_reference_def result_simps check_simps)

lemma permit_reference_ok:
  "reference_ok (permit_reference p) \<Longrightarrow>
     pm_schema_version p = EXECUTION_SCHEMA_VERSION \<and> pm_operation p = WORKLOAD_DISPATCH_OPERATION \<and>
     instant_ok (pm_start_observed_at p) \<and> instant_ok (pm_grant_expires_at p)"
  by (simp add: permit_reference_def reference_ok_def)

lemma post_init_permit_Inr [check_simps]: "post_init_permit p = Inr u \<longleftrightarrow> permit_ok p"
  unfolding post_init_permit_def permit_ok_def ebind_eq_Inr run_checks_Inr
  using permit_reference_ok [of p]
  by (auto simp: check_simps permit_reference_Inr)

end
