(* ===== verification/Exec_Dispatch.thy ===== *)
theory Exec_Dispatch
  imports Exec_Model
begin

text \<open>
  The operations of \<^verbatim>\<open>lakatos/resource_execution.py\<close>: checking an authority against a
  state, deriving the intent of a started workload from the journal, minting and revalidating
  permits, and recovering unresolved intents.
\<close>

section \<open>Authority and start intents\<close>

definition require_current_confirmed_authority :: "resource_state \<Rightarrow> resource_authority \<Rightarrow> lk_error + unit" where
  "require_current_confirmed_authority s a = run_checks
     [raise_if (au_anchor_status a \<noteq> ''CONFIRMED'')
        (UnconfirmedResourceAuthority (''resource authority is '' @ au_anchor_status a @ '', not CONFIRMED'')),
      raise_if ((p_budget_id s, p_scope s, p_epoch s) \<noteq> (au_budget_id a, au_scope a, au_epoch a))
        (StaleResourceAuthority ''resource authority budget identity diverged''),
      raise_if (p_revision s \<noteq> au_revision a)
        (StaleResourceAuthority ''resource authority revision diverged''),
      raise_if (state_sha256 s \<noteq> au_state_sha256 a)
        (StaleResourceAuthority ''resource authority state hash diverged'')]"

record start_material =
  sm_command :: grant_command
  sm_command_sha256 :: string
  sm_receipt_sha256 :: string
  sm_estimate_sha256 :: string
  sm_adapter :: string
  sm_adapter_version :: string
  sm_start_revision :: int
  sm_expires_at :: string

abbreviation invalid_intent :: "string \<Rightarrow> lk_error" where
  "invalid_intent m \<equiv> InvalidWorkloadDispatchIntent m"

text \<open>\<^verbatim>\<open>isinstance(record.transition.command, StartGrant)\<close>, with the command.\<close>

definition start_command :: "command_record \<Rightarrow> grant_command option" where
  "start_command rec = (case t_command (cr_transition rec) of StartGrant c \<Rightarrow> Some c | _ \<Rightarrow> None)"

definition request_command :: "command_record \<Rightarrow> request_grant option" where
  "request_command rec = (case t_command (cr_transition rec) of RequestGrant c \<Rightarrow> Some c | _ \<Rightarrow> None)"

text \<open>\<^verbatim>\<open>state.grant(\<dots>)\<close> with its \<^verbatim>\<open>RuntimeError\<close> turned into an invalid intent.\<close>

definition grant_or_absent :: "resource_state \<Rightarrow> string \<Rightarrow> lk_error + resource_grant" where
  "grant_or_absent s gid =
     (case find_grant s gid of Inl (Rejection _) \<Rightarrow> Inl (invalid_intent ''StartGrant grant is absent'') | other \<Rightarrow> other)"

text \<open>The accepted request of a grant: the first reserved \<^verbatim>\<open>RequestGrant\<close> record of its id.\<close>

definition accepted_request :: "resource_state \<Rightarrow> string \<Rightarrow> lk_error + request_grant" where
  "accepted_request s gid =
     (case find (\<lambda>rec. (case request_command rec of None \<Rightarrow> False
                        | Some c \<Rightarrow> rq_grant_id c = gid \<and> r_outcome (cr_receipt rec) = ''reserved''))
             (s_command_records s) of
        None \<Rightarrow> Inl (invalid_intent ''accepted grant request is absent'')
      | Some rec \<Rightarrow> (case request_command rec of
            None \<Rightarrow> Inl (invalid_intent ''accepted grant request is absent'') | Some c \<Rightarrow> Inr c))"

definition start_intent_material :: "resource_state \<Rightarrow> string \<Rightarrow> grant_status list \<Rightarrow> lk_error + start_material" where
  "start_intent_material s effect_id allowed =
     ebind (exec_identifier effect_id ''effect_id'') (\<lambda>_.
     ebind (case find (\<lambda>rec. cr_command_id rec = effect_id) (s_command_records s) of
         None \<Rightarrow> Inl (invalid_intent ''effect_id does not name a persisted StartGrant intent'')
       | Some rec \<Rightarrow> (case start_command rec of
           None \<Rightarrow> Inl (invalid_intent ''effect_id does not name a persisted StartGrant intent'')
         | Some c \<Rightarrow> Inr (rec, c))) (\<lambda>(rec, command).
     let receipt = cr_receipt rec in
     ebind (run_checks
       [raise_if (r_operation receipt \<noteq> ''start_grant'' \<or> r_outcome receipt \<noteq> ''in_use'')
          (invalid_intent ''persisted StartGrant was not accepted into IN_USE''),
        raise_if (r_command_id receipt \<noteq> gc_command_id command \<or>
            r_command_sha256 receipt \<noteq> cr_command_sha256 rec \<or>
            receipt_sha256 receipt \<noteq> cr_receipt_sha256 rec \<or> r_after_revision receipt < 1)
          (invalid_intent ''StartGrant journal binding diverged'')]) (\<lambda>_.
     ebind (grant_or_absent s (gc_grant_id command)) (\<lambda>grant.
     ebind (run_checks
       [raise_if (g_status grant \<notin> set allowed)
          (invalid_intent (''StartGrant grant status is not dispatch-valid: '' @ grant_status_value (g_status grant))),
        raise_if (g_started_at grant \<noteq> Some (gc_observed_at command))
          (invalid_intent ''grant start observation diverged''),
        raise_if (g_fence_token grant \<noteq> gc_fence_token command \<or> g_workload_sha256 grant \<noteq> gc_workload_sha256 command)
          (invalid_intent ''grant fence/workload binding diverged'')]) (\<lambda>_.
     ebind (accepted_request s (gc_grant_id command)) (\<lambda>request.
     ebind (raise_if (estimate_sha256 (rq_estimate request) \<noteq> g_estimate_sha256 grant)
       (invalid_intent ''grant estimate binding diverged'')) (\<lambda>_.
     Inr \<lparr>sm_command = command, sm_command_sha256 = cr_command_sha256 rec,
          sm_receipt_sha256 = cr_receipt_sha256 rec,
          sm_estimate_sha256 = estimate_sha256 (rq_estimate request),
          sm_adapter = e_adapter (rq_estimate request),
          sm_adapter_version = e_adapter_version (rq_estimate request),
          sm_start_revision = r_after_revision receipt, sm_expires_at = g_expires_at grant\<rparr>)))))))"

text \<open>\<^verbatim>\<open>expires_at or material.expires_at\<close>: an empty text counts as absent.\<close>

definition require_observation_window :: "start_material \<Rightarrow> string \<Rightarrow> string option \<Rightarrow> lk_error + unit" where
  "require_observation_window m observed_at expires_at =
     ebind (exec_utc_instant observed_at ''observed_at'') (\<lambda>observed.
     ebind (exec_utc_instant (gc_observed_at (sm_command m)) ''start observed_at'') (\<lambda>started.
     ebind (exec_utc_instant (case expires_at of Some (c # cs) \<Rightarrow> c # cs | _ \<Rightarrow> sm_expires_at m)
       ''dispatch expires_at'') (\<lambda>expires.
     run_checks
       [raise_if (observed < started) (invalid_intent ''dispatch observation precedes StartGrant''),
        raise_if (observed \<ge> expires)
          (ExpiredWorkloadDispatchPermit ''workload-dispatch authority expired before effect execution'')])))"

section \<open>Preflight\<close>

definition validate_start_grant_preflight :: "resource_state \<Rightarrow> grant_command \<Rightarrow> string \<Rightarrow> lk_error + (string \<times> string)" where
  "validate_start_grant_preflight s start observed_at =
     (case find (\<lambda>rec. cr_command_id rec = gc_command_id start) (s_command_records s) of
        Some existing \<Rightarrow>
          ebind (raise_if (t_command (cr_transition existing) \<noteq> StartGrant start)
            (Rejection (IdempotencyConflict (gc_command_id start)))) (\<lambda>_.
          ebind (start_intent_material s (gc_command_id start) [IN_USE]) (\<lambda>m.
          ebind (require_observation_window m observed_at None) (\<lambda>_.
          Inr (sm_adapter m, sm_adapter_version m))))
      | None \<Rightarrow>
          ebind (grant_or_absent s (gc_grant_id start)) (\<lambda>grant.
          ebind (run_checks
            [raise_if (g_status grant \<noteq> RESERVED)
               (invalid_intent (''cannot prepare dispatch from '' @ grant_status_value (g_status grant))),
             raise_if (g_fence_token grant \<noteq> gc_fence_token start \<or> g_workload_sha256 grant \<noteq> gc_workload_sha256 start)
               (invalid_intent ''StartGrant fence/workload binding diverged'')]) (\<lambda>_.
          ebind (exec_utc_instant observed_at ''observed_at'') (\<lambda>observed.
          ebind (exec_utc_instant (gc_observed_at start) ''start.observed_at'') (\<lambda>start_observed.
          ebind (raise_if (observed < start_observed)
            (invalid_intent ''preflight observation precedes StartGrant'')) (\<lambda>_.
          ebind (exec_utc_instant (g_expires_at grant) ''grant.expires_at'') (\<lambda>expires.
          ebind (raise_if (observed \<ge> expires)
            (ExpiredWorkloadDispatchPermit ''resource grant expired before StartGrant could become an effect intent'')) (\<lambda>_.
          ebind (accepted_request s (gc_grant_id start)) (\<lambda>request.
          ebind (raise_if (estimate_sha256 (rq_estimate request) \<noteq> g_estimate_sha256 grant)
            (invalid_intent ''grant estimate binding diverged'')) (\<lambda>_.
          Inr (e_adapter (rq_estimate request), e_adapter_version (rq_estimate request))))))))))))"

section \<open>Minting and revalidation\<close>

definition intent_sha256 :: "resource_state \<Rightarrow> start_material \<Rightarrow> string" where
  "intent_sha256 s m =
     (let c = sm_command m in exec_canonical_sha (JObj
       [(''schema_version'', JStr EXECUTION_SCHEMA_VERSION),
        (''operation'', JStr WORKLOAD_DISPATCH_OPERATION),
        (''effect_id'', JStr (gc_command_id c)),
        (''budget_id'', JStr (p_budget_id s)),
        (''scope'', JStr (p_scope s)),
        (''epoch'', JInt (p_epoch s)),
        (''grant_id'', JStr (gc_grant_id c)),
        (''fence_token'', JInt (gc_fence_token c)),
        (''workload_sha256'', JStr (gc_workload_sha256 c)),
        (''estimate_sha256'', JStr (sm_estimate_sha256 m)),
        (''adapter'', JStr (sm_adapter m)),
        (''adapter_version'', JStr (sm_adapter_version m)),
        (''start_command_sha256'', JStr (sm_command_sha256 m)),
        (''start_receipt_sha256'', JStr (sm_receipt_sha256 m)),
        (''start_observed_at'', JStr (gc_observed_at c)),
        (''start_revision'', JInt (sm_start_revision m)),
        (''grant_expires_at'', JStr (sm_expires_at m))]))"

text \<open>\<^verbatim>\<open>issued + timedelta(seconds=n)\<close> raises beyond the last instant a datetime holds.\<close>

definition add_seconds :: "instant \<Rightarrow> int \<Rightarrow> lk_error + instant" where
  "add_seconds i n =
     ebind (raise_if (i + seconds n > max_instant) (OverflowError ''date value out of range''))
       (\<lambda>_. Inr (i + seconds n))"

definition permit_of :: "resource_state \<Rightarrow> resource_authority \<Rightarrow> start_material \<Rightarrow> string \<Rightarrow> instant \<Rightarrow> dispatch_permit" where
  "permit_of s a m observed_at permit_expires =
     (let c = sm_command m in
      \<lparr>pm_effect_id = gc_command_id c, pm_budget_id = p_budget_id s, pm_scope = p_scope s,
       pm_epoch = p_epoch s, pm_grant_id = gc_grant_id c, pm_fence_token = gc_fence_token c,
       pm_workload_sha256 = gc_workload_sha256 c, pm_estimate_sha256 = sm_estimate_sha256 m,
       pm_adapter = sm_adapter m, pm_adapter_version = sm_adapter_version m,
       pm_start_command_sha256 = sm_command_sha256 m, pm_start_receipt_sha256 = sm_receipt_sha256 m,
       pm_intent_sha256 = intent_sha256 s m, pm_start_observed_at = gc_observed_at c,
       pm_start_revision = sm_start_revision m, pm_authority_revision = au_revision a,
       pm_authority_state_sha256 = au_state_sha256 a,
       pm_authority_checkpoint_sha256 = au_checkpoint_sha256 a,
       pm_authority_journal_head_sha256 = au_journal_head_sha256 a,
       pm_issued_at = observed_at, pm_expires_at = exec_utc_text permit_expires,
       pm_grant_expires_at = sm_expires_at m, pm_operation = WORKLOAD_DISPATCH_OPERATION,
       pm_schema_version = EXECUTION_SCHEMA_VERSION\<rparr>)"

definition mint_workload_dispatch_permit :: "resource_state \<Rightarrow> resource_authority \<Rightarrow> string \<Rightarrow> string \<Rightarrow> int \<Rightarrow>
    lk_error + dispatch_permit" where
  "mint_workload_dispatch_permit s a effect_id observed_at max_ttl_seconds =
     ebind (run_checks
       [require_current_confirmed_authority s a,
        exec_integer max_ttl_seconds ''max_ttl_seconds'' 1,
        raise_if (max_ttl_seconds > MAX_PERMIT_TTL_SECONDS) (ValueError ''max_ttl_seconds exceeds the closed maximum'')]) (\<lambda>_.
     ebind (start_intent_material s effect_id [IN_USE]) (\<lambda>m.
     ebind (require_observation_window m observed_at None) (\<lambda>_.
     ebind (exec_utc_instant observed_at ''observed_at'') (\<lambda>issued.
     ebind (exec_utc_instant (sm_expires_at m) ''grant expires_at'') (\<lambda>grant_expires.
     ebind (add_seconds issued max_ttl_seconds) (\<lambda>latest.
     mk_permit (permit_of s a m observed_at (min grant_expires latest))))))))"

definition revalidate_workload_dispatch_permit :: "resource_state \<Rightarrow> resource_authority \<Rightarrow> dispatch_permit \<Rightarrow> string \<Rightarrow>
    lk_error + dispatch_permit" where
  "revalidate_workload_dispatch_permit s a p observed_at =
     ebind (run_checks
       [require_current_confirmed_authority s a,
        raise_if ((pm_budget_id p, pm_scope p, pm_epoch p) \<noteq> (au_budget_id a, au_scope a, au_epoch a))
          (StaleWorkloadDispatchPermit ''permit budget identity is stale''),
        raise_if (pm_authority_revision p \<noteq> au_revision a \<or> pm_authority_state_sha256 p \<noteq> au_state_sha256 a \<or>
            pm_authority_checkpoint_sha256 p \<noteq> au_checkpoint_sha256 a \<or>
            pm_authority_journal_head_sha256 p \<noteq> au_journal_head_sha256 a)
          (StaleWorkloadDispatchPermit ''permit journal authority is stale'')]) (\<lambda>_.
     ebind (exec_utc_instant observed_at ''observed_at'') (\<lambda>observed.
     ebind (exec_utc_instant (pm_issued_at p) ''permit.issued_at'') (\<lambda>issued.
     ebind (raise_if (observed < issued) (invalid_intent ''dispatch observation precedes permit issue'')) (\<lambda>_.
     ebind (start_intent_material s (pm_effect_id p) [IN_USE]) (\<lambda>m.
     ebind (require_observation_window m observed_at (Some (pm_expires_at p))) (\<lambda>_.
     let c = sm_command m in
     ebind (raise_if
       ((pm_grant_id p, pm_fence_token p, pm_workload_sha256 p, pm_estimate_sha256 p, pm_adapter p,
         pm_adapter_version p, pm_start_command_sha256 p, pm_start_receipt_sha256 p, pm_intent_sha256 p,
         pm_start_observed_at p, pm_start_revision p, pm_grant_expires_at p) \<noteq>
        (gc_grant_id c, gc_fence_token c, gc_workload_sha256 c, sm_estimate_sha256 m, sm_adapter m,
         sm_adapter_version m, sm_command_sha256 m, sm_receipt_sha256 m, intent_sha256 s m,
         gc_observed_at c, sm_start_revision m, sm_expires_at m))
       (StaleWorkloadDispatchPermit ''permit StartGrant binding is stale'')) (\<lambda>_.
     Inr p)))))))"

section \<open>Recovery\<close>

definition RECOVERABLE_GRANT_STATUSES :: "grant_status list" where
  "RECOVERABLE_GRANT_STATUSES = [IN_USE, CANCEL_PENDING, RECONCILIATION_REQUIRED]"

definition reference_of :: "resource_state \<Rightarrow> start_material \<Rightarrow> intent_reference" where
  "reference_of s m =
     (let c = sm_command m in
      \<lparr>ir_effect_id = gc_command_id c, ir_budget_id = p_budget_id s, ir_scope = p_scope s,
       ir_epoch = p_epoch s, ir_grant_id = gc_grant_id c, ir_fence_token = gc_fence_token c,
       ir_workload_sha256 = gc_workload_sha256 c, ir_estimate_sha256 = sm_estimate_sha256 m,
       ir_adapter = sm_adapter m, ir_adapter_version = sm_adapter_version m,
       ir_start_command_sha256 = sm_command_sha256 m, ir_start_receipt_sha256 = sm_receipt_sha256 m,
       ir_intent_sha256 = intent_sha256 s m, ir_start_observed_at = gc_observed_at c,
       ir_start_revision = sm_start_revision m, ir_grant_expires_at = sm_expires_at m,
       ir_operation = WORKLOAD_DISPATCH_OPERATION, ir_schema_version = EXECUTION_SCHEMA_VERSION\<rparr>)"

definition derive_intent_reference :: "resource_state \<Rightarrow> string \<Rightarrow> lk_error + intent_reference" where
  "derive_intent_reference s effect_id =
     ebind (start_intent_material s effect_id RECOVERABLE_GRANT_STATUSES) (\<lambda>m. mk_reference (reference_of s m))"

text \<open>The loop over the journal skips records whose intent is invalid; another exception ends it.\<close>

fun recoverable_over :: "resource_state \<Rightarrow> command_record list \<Rightarrow> lk_error + string list" where
  "recoverable_over s [] = Inr []"
| "recoverable_over s (rec # recs) =
     (case start_command rec of
        None \<Rightarrow> recoverable_over s recs
      | Some c \<Rightarrow>
          if r_outcome (cr_receipt rec) \<noteq> ''in_use'' then recoverable_over s recs
          else case derive_intent_reference s (gc_command_id c) of
            Inl (InvalidWorkloadDispatchIntent m) \<Rightarrow> recoverable_over s recs
          | Inl e \<Rightarrow> Inl e
          | Inr _ \<Rightarrow> ebind (recoverable_over s recs) (\<lambda>ids. Inr (gc_command_id c # ids)))"

definition recoverable_effect_ids :: "resource_state \<Rightarrow> lk_error + string list" where
  "recoverable_effect_ids s = recoverable_over s (s_command_records s)"

definition validate_intent_reference :: "resource_state \<Rightarrow> intent_reference \<Rightarrow> lk_error + intent_reference" where
  "validate_intent_reference s r =
     ebind (derive_intent_reference s (ir_effect_id r)) (\<lambda>expected.
     ebind (raise_if (r \<noteq> expected) (invalid_intent ''stable dispatch intent binding diverged'')) (\<lambda>_. Inr r))"

definition validate_dispatch_receipt :: "intent_reference \<Rightarrow> dispatch_receipt \<Rightarrow> lk_error + dispatch_receipt" where
  "validate_dispatch_receipt r rc =
     ebind (raise_if
       ((dr_operation rc, dr_effect_id rc, dr_workload_sha256 rc, dr_fence_token rc, dr_intent_sha256 rc) \<noteq>
        (ir_operation r, ir_effect_id r, ir_workload_sha256 r, ir_fence_token r, ir_intent_sha256 r))
       (invalid_intent ''effect receipt binding diverged'')) (\<lambda>_.
     ebind (exec_utc_instant (dr_completed_at rc) ''receipt.completed_at'') (\<lambda>completed.
     ebind (exec_utc_instant (ir_start_observed_at r) ''intent reference.start_observed_at'') (\<lambda>started.
     ebind (raise_if (completed < started) (invalid_intent ''effect receipt predates StartGrant intent'')) (\<lambda>_.
     Inr rc))))"

end
