(* ===== verification/Exec_Invariant.thy ===== *)
theory Exec_Invariant
  imports Exec_Dispatch Resource_Journal
begin

text \<open>
  What the journal of a reachable state guarantees to the dispatch layer (\<open>journal_backs\<close>):
  every grant has one accepted request with its estimate, and every accepted start names a
  grant that still carries the start's time, fence and workload.
\<close>

section \<open>Accepted requests and starts\<close>

definition is_request_of :: "string \<Rightarrow> command_record \<Rightarrow> bool" where
  "is_request_of gid rec \<longleftrightarrow>
     (\<exists>c. t_command (cr_transition rec) = RequestGrant c \<and> rq_grant_id c = gid \<and> r_outcome (cr_receipt rec) = ''reserved'')"

definition is_start_of :: "grant_command \<Rightarrow> command_record \<Rightarrow> bool" where
  "is_start_of c rec \<longleftrightarrow> t_command (cr_transition rec) = StartGrant c \<and> r_outcome (cr_receipt rec) = ''in_use''"

lemma start_command_Some: "start_command rec = Some c \<longleftrightarrow> t_command (cr_transition rec) = StartGrant c"
  by (auto simp: start_command_def split: resource_command.splits)

lemma request_command_Some: "request_command rec = Some c \<longleftrightarrow> t_command (cr_transition rec) = RequestGrant c"
  by (auto simp: request_command_def split: resource_command.splits)

lemma request_predicate:
  "(case request_command rec of None \<Rightarrow> False
    | Some c \<Rightarrow> rq_grant_id c = gid \<and> r_outcome (cr_receipt rec) = ''reserved'') \<longleftrightarrow> is_request_of gid rec"
  by (cases "t_command (cr_transition rec)") (auto simp: is_request_of_def request_command_def)

lemma accepted_request_eq:
  "accepted_request s gid =
     (case find (is_request_of gid) (s_command_records s) of
        None \<Rightarrow> Inl (invalid_intent ''accepted grant request is absent'')
      | Some rec \<Rightarrow> (case t_command (cr_transition rec) of RequestGrant c \<Rightarrow> Inr c
          | _ \<Rightarrow> Inl (invalid_intent ''accepted grant request is absent'')))"
  unfolding accepted_request_def request_predicate
  by (cases "find (is_request_of gid) (s_command_records s)")
    (auto simp: request_command_def split: resource_command.split)

lemma accepted_request_Inr:
  "accepted_request s gid = Inr c \<longleftrightarrow>
     (\<exists>rec. find (is_request_of gid) (s_command_records s) = Some rec \<and> t_command (cr_transition rec) = RequestGrant c)"
  by (auto simp: accepted_request_eq split: option.splits resource_command.splits)

section \<open>The journal invariant\<close>

definition record_ok :: "command_record \<Rightarrow> bool" where
  "record_ok rec \<longleftrightarrow>
     command_ok (t_command (cr_transition rec)) \<and> cr_command_id rec = command_id (t_command (cr_transition rec)) \<and>
     cr_command_sha256 rec = command_hash (t_command (cr_transition rec)) \<and>
     r_command_id (cr_receipt rec) = cr_command_id rec \<and> r_command_sha256 (cr_receipt rec) = cr_command_sha256 rec \<and>
     receipt_sha256 (cr_receipt rec) = cr_receipt_sha256 rec \<and>
     r_operation (cr_receipt rec) = operation (t_command (cr_transition rec)) \<and> 1 \<le> r_after_revision (cr_receipt rec)"

definition grant_backed :: "resource_state \<Rightarrow> resource_grant \<Rightarrow> bool" where
  "grant_backed s g \<longleftrightarrow> (\<exists>c. accepted_request s (g_grant_id g) = Inr c \<and>
     estimate_sha256 (rq_estimate c) = g_estimate_sha256 g)"

definition start_backed :: "resource_state \<Rightarrow> grant_command \<Rightarrow> bool" where
  "start_backed s c \<longleftrightarrow> (\<exists>g \<in> set (p_grants s). g_grant_id g = gc_grant_id c \<and>
     g_fence_token g = gc_fence_token c \<and> g_workload_sha256 g = gc_workload_sha256 c \<and>
     g_started_at g = Some (gc_observed_at c) \<and> instant_of (gc_observed_at c) < instant_of (g_expires_at g))"

definition journal_backs :: "resource_state \<Rightarrow> bool" where
  "journal_backs s \<longleftrightarrow>
     (\<forall>rec \<in> set (s_command_records s). record_ok rec) \<and>
     (\<forall>g \<in> set (p_grants s). grant_backed s g) \<and>
     (\<forall>rec \<in> set (s_command_records s). \<forall>c. is_start_of c rec \<longrightarrow> start_backed s c) \<and>
     (\<forall>rec \<in> set (s_command_records s). \<forall>gid. is_request_of gid rec \<longrightarrow> gid \<in> g_grant_id ` set (p_grants s))"

lemma operation_names: "operation (StartGrant c) = ''start_grant''" "operation (RequestGrant r) = ''request_grant''"
  by (simp_all add: operation_def json_str_at_def base_dict_def)

lemma accepts_reserved: "accepts p c a \<Longrightarrow> a_outcome a = ''reserved'' \<longleftrightarrow> is_request c"
  by (erule accepts.cases)
    (auto simp: args_defs is_request_def settled_status_def str_lower_def lower_char_def)

lemma accepts_in_use: "accepts p c a \<Longrightarrow> a_outcome a = ''in_use'' \<longleftrightarrow> (\<exists>gc. c = StartGrant gc)"
  by (erule accepts.cases)
    (auto simp: args_defs settled_status_def str_lower_def lower_char_def)

lemma record_ok_step:
  assumes "command_ok c" and "0 \<le> p_revision p"
  shows "record_ok (record_of (step_transition p c a q))"
  using assms by (simp add: record_ok_def)

lemma find_request_append:
  "find P (xs @ [x]) = (case find P xs of Some y \<Rightarrow> Some y | None \<Rightarrow> if P x then Some x else None)"
  by (simp add: find_append split: option.splits)

lemma accepted_request_keeps:
  assumes "accepted_request s gid = Inr c" and "s_command_records t = s_command_records s @ recs"
  shows "accepted_request t gid = Inr c"
  using assms by (auto simp: accepted_request_Inr find_append)

lemma grant_backed_keeps:
  assumes "grant_backed s g" and "same_grant g g'" and "s_command_records t = s_command_records s @ recs"
  shows "grant_backed t g'"
  using assms accepted_request_keeps [OF _ assms(3)] by (auto simp: grant_backed_def same_grant_def)

lemma start_backed_keeps:
  assumes "start_backed s c" and "\<And>g. g \<in> set (p_grants s) \<Longrightarrow> \<exists>g' \<in> set (p_grants t). same_grant g g'"
  shows "start_backed t c"
proof -
  obtain g where g: "g \<in> set (p_grants s)" "g_grant_id g = gc_grant_id c" "g_fence_token g = gc_fence_token c"
    "g_workload_sha256 g = gc_workload_sha256 c" "g_started_at g = Some (gc_observed_at c)"
    "instant_of (gc_observed_at c) < instant_of (g_expires_at g)"
    using assms(1) by (auto simp: start_backed_def)
  obtain g' where "g' \<in> set (p_grants t)" "same_grant g g'" using assms(2) [OF g(1)] by auto
  with g show ?thesis by (auto simp: start_backed_def same_grant_def)
qed

lemma grants_change_same:
  assumes "gs' = gs \<or> grants_change c gs gs'" and "g \<in> set gs"
  shows "\<exists>g' \<in> set gs'. same_grant g g'"
proof (cases "g \<in> set gs'")
  case False
  with assms show ?thesis by (auto simp: grants_change_def grant_step_def)
qed (auto intro: bexI [of _ g])

lemma rejected_outcome: "a_outcome (rejected_args r) = ''rejected''"
  by (simp add: rejected_args_def decision_defaults_def)

lemma step_record_simps [simp]:
  "t_command (cr_transition (record_of (step_transition p c a q))) = c"
  "r_outcome (cr_receipt (record_of (step_transition p c a q))) = a_outcome a"
  by simp_all

lemma chosen_outcome:
  assumes "chosen p c a" and "a_outcome a \<noteq> ''rejected''"
  shows "accepts p c a"
  using assms rejected_outcome by (auto simp: chosen_def)

lemma new_grant_cases:
  assumes "gs' = gs \<or> grants_change c gs gs'" and "g \<in> set gs'"
  obtains "\<exists>g0 \<in> set gs. same_grant g0 g"
    | rc where "c = RequestGrant rc" "g = new_grant rc" "rq_grant_id rc \<notin> g_grant_id ` set gs"
proof (cases "g \<in> set gs")
  case True
  then show thesis using that(1) same_grant_refl by blast
next
  case False
  with assms have "grants_change c gs gs'" by auto
  then show thesis
    unfolding grants_change_def
  proof (elim disjE exE conjE)
    fix rc assume "c = RequestGrant rc" "gs' = gs @ [new_grant rc]" "rq_grant_id rc \<notin> g_grant_id ` set gs"
    then show thesis using that(2) False assms(2) by simp
  next
    fix as h bs h' assume "gs = as @ h # bs" "gs' = as @ h' # bs" "grant_step h h'"
    then have "same_grant h g" "h \<in> set gs" using False assms(2) by (auto simp: grant_step_def)
    then show thesis using that(1) by blast
  qed
qed

text \<open>The invariant is kept by a fresh command.\<close>

lemma journal_backs_step:
  assumes s: "state_ok s" and J: "journal_backs s" and c: "command_ok c" and ch: "chosen s c a" and q: "steps_to s c a q"
    and new: "command_id c \<notin> cr_command_id ` set (s_command_records s)"
  shows "journal_backs (extend_state s q (step_transition s c a q))"
proof -
  let ?rec = "record_of (step_transition s c a q)" and ?t = "extend_state s q (step_transition s c a q)"
  have l: "ledger_ok s" using s by (simp add: state_ok_def)
  have recs: "s_command_records ?t = s_command_records s @ [?rec]" and gs: "p_grants ?t = p_grants q"
    by (simp_all add: extend_state_def)
  have sub: "submit s c = Inr ?t" by (rule submit_fresh [OF s c new ch q])
  have old: "\<exists>g' \<in> set (p_grants ?t). same_grant g g'" if "g \<in> set (p_grants s)" for g
    using grants_change_same [OF submit_grants [OF s c sub] that] .
  have rec: "record_ok ?rec"
    by (rule record_ok_step [OF c]) (use l in \<open>simp add: ledger_ok_def identity_ok_def\<close>)
  have gs_req: "p_grants q = p_grants s @ [new_grant rc]" if "c = RequestGrant rc" "accepts s c a" for rc
    using that q by (auto simp: steps_to_def args_defs projected_grants_def is_request_def elim!: accepts_request)
  have ids: "g_grant_id ` set (p_grants s) \<subseteq> g_grant_id ` set (p_grants ?t)"
  proof
    fix i assume "i \<in> g_grant_id ` set (p_grants s)"
    then obtain g where g: "g \<in> set (p_grants s)" "i = g_grant_id g" by auto
    obtain g' where "g' \<in> set (p_grants ?t)" "same_grant g g'" using old [OF g(1)] ..
    with g(2) show "i \<in> g_grant_id ` set (p_grants ?t)" by (auto simp: same_grant_def intro!: image_eqI [of _ _ g'])
  qed
  have grants: "grant_backed ?t g" if gin: "g \<in> set (p_grants ?t)" for g
  proof (cases "\<exists>g0 \<in> set (p_grants s). same_grant g0 g")
    case True
    then show ?thesis using J grant_backed_keeps [OF _ _ recs] by (auto simp: journal_backs_def)
  next
    case False
    obtain rc where rc: "c = RequestGrant rc" "g = new_grant rc" "rq_grant_id rc \<notin> g_grant_id ` set (p_grants s)"
      by (rule new_grant_cases [OF submit_grants [OF s c sub] gin]) (use False in blast)+
    have "a_outcome a \<noteq> ''rejected''"
    proof
      assume "a_outcome a = ''rejected''"
      then have "\<not> accepts s c a" using accepts_outcome by blast
      then have "p_grants q = p_grants s" using ch refused_projection [OF _ q] by (auto simp: chosen_def)
      with False that gs show False by auto
    qed
    then have acc: "accepts s c a" by (rule chosen_outcome [OF ch])
    then have "is_request_of (rq_grant_id rc) ?rec"
      using accepts_reserved [OF acc] rc(1) by (simp add: is_request_of_def is_request_def)
    moreover have "find (is_request_of (rq_grant_id rc)) (s_command_records s) = None"
      using J rc(3) by (fastforce simp: journal_backs_def find_None_iff_list_all list_all_iff)
    ultimately have "find (is_request_of (rq_grant_id rc)) (s_command_records ?t) = Some ?rec"
      unfolding recs by (simp add: find_append)
    moreover have "t_command (cr_transition ?rec) = RequestGrant rc" unfolding rc(1) by simp
    ultimately have "accepted_request ?t (rq_grant_id rc) = Inr rc" by (auto simp: accepted_request_Inr)
    then show ?thesis by (simp add: grant_backed_def rc(2) new_grant_def)
  qed
  have starts: "start_backed ?t gc" if "is_start_of gc ?rec" for gc
  proof -
    have cc: "c = StartGrant gc" and o: "a_outcome a = ''in_use''" using that by (simp_all add: is_start_of_def)
    then have acc: "accepts s (StartGrant gc) a" using chosen_outcome [OF ch] by simp
    then obtain g where g: "a = start_args gc g" "binds s gc g" "instant_of (gc_observed_at gc) < instant_of (g_expires_at g)"
      by (auto elim: accepts_start)
    obtain as bs where sp: "p_grants s = as @ g # bs" "g_grant_id g = gc_grant_id gc" "gc_grant_id gc \<notin> g_grant_id ` set as"
      using binds_split [OF l g(2)] by metis
    have "projected_grants s c (Some (start_update gc g)) = Inr (as @ start_update gc g # bs)"
      by (rule projected_grants_replace [OF sp(1)]) (use sp cc in \<open>auto simp: start_update_def is_request_def\<close>)
    then have "start_update gc g \<in> set (p_grants q)" using q g(1) by (auto simp: steps_to_def args_defs)
    then show ?thesis using g(2,3) sp(2) unfolding start_backed_def gs
      by (intro bexI [of _ "start_update gc g"]) (simp_all add: start_update_def binds_def)
  qed
  have reqs: "gid \<in> g_grant_id ` set (p_grants ?t)" if rq: "is_request_of gid ?rec" for gid
  proof -
    obtain rc where rc: "c = RequestGrant rc" "rq_grant_id rc = gid" "a_outcome a = ''reserved''"
      using rq by (auto simp: is_request_of_def)
    then have "accepts s c a" using chosen_outcome [OF ch] by simp
    from gs_req [OF rc(1) this] gs rc(2) show ?thesis by (auto simp: new_grant_def)
  qed
  have "start_backed ?t gc" if "rec \<in> set (s_command_records s)" "is_start_of gc rec" for rec gc
    by (rule start_backed_keeps [where s = s, OF _ old]) (use J that in \<open>auto simp: journal_backs_def\<close>)
  moreover have "gid \<in> g_grant_id ` set (p_grants ?t)" if "rec \<in> set (s_command_records s)" "is_request_of gid rec" for rec gid
    using J that ids by (auto simp: journal_backs_def)
  moreover have "\<forall>rec \<in> set (s_command_records s). record_ok rec" using J by (simp add: journal_backs_def)
  ultimately show ?thesis
    unfolding journal_backs_def recs using rec grants starts reqs by auto
qed

lemma reachable_backs: "reachable s \<Longrightarrow> journal_backs s"
proof (induction rule: reachable.induct)
  case (created b sc ep caps s)
  then show ?case by (auto simp: create_Inr journal_backs_def)
next
  case (submitted s c s')
  from reachable_ok [OF submitted(1)] submitted(2) show ?case
  proof (cases rule: submit_cases)
    case (fresh a q)
    with journal_backs_step [OF reachable_ok [OF submitted(1)] submitted(4,2) fresh(2,3,1)] submitted(3) show ?thesis by simp
  qed (use submitted in auto)
qed

end
