(* ===== verification/Exec_Derive.thy ===== *)
theory Exec_Derive
  imports Exec_Invariant
begin

text \<open>
  What follows from \<open>journal_backs\<close> for the operations of the dispatch layer: an accepted
  start of a reachable state always has its intent material, so the derivation can fail only
  for the status of the grant; the intent of a start never changes; minting and revalidating
  permits succeed exactly within their windows.
\<close>

section \<open>The material of an accepted start\<close>

definition material_of :: "command_record \<Rightarrow> grant_command \<Rightarrow> resource_grant \<Rightarrow> request_grant \<Rightarrow> start_material" where
  "material_of rec c g rq =
     \<lparr>sm_command = c, sm_command_sha256 = cr_command_sha256 rec, sm_receipt_sha256 = cr_receipt_sha256 rec,
      sm_estimate_sha256 = g_estimate_sha256 g, sm_adapter = e_adapter (rq_estimate rq),
      sm_adapter_version = e_adapter_version (rq_estimate rq),
      sm_start_revision = r_after_revision (cr_receipt rec), sm_expires_at = g_expires_at g\<rparr>"

text \<open>A start, its record, its grant and its request, as a reachable state has them.\<close>

definition start_facts :: "resource_state \<Rightarrow> command_record \<Rightarrow> grant_command \<Rightarrow> resource_grant \<Rightarrow> request_grant \<Rightarrow> bool" where
  "start_facts s rec c g rq \<longleftrightarrow>
     rec \<in> set (s_command_records s) \<and> record_ok rec \<and> is_start_of c rec \<and>
     find (\<lambda>r. cr_command_id r = gc_command_id c) (s_command_records s) = Some rec \<and>
     find_grant s (gc_grant_id c) = Inr g \<and> g \<in> set (p_grants s) \<and> grant_ok g \<and> g_grant_id g = gc_grant_id c \<and>
     g_fence_token g = gc_fence_token c \<and> g_workload_sha256 g = gc_workload_sha256 c \<and>
     g_started_at g = Some (gc_observed_at c) \<and> instant_of (gc_observed_at c) < instant_of (g_expires_at g) \<and>
     accepted_request s (gc_grant_id c) = Inr rq \<and> estimate_sha256 (rq_estimate rq) = g_estimate_sha256 g \<and> request_ok rq"

lemma start_facts_exist:
  assumes "reachable s" and "rec \<in> set (s_command_records s)" and "is_start_of c rec"
  obtains g rq where "start_facts s rec c g rq"
proof -
  note J = reachable_backs [OF assms(1)] and s = reachable_ok [OF assms(1)]
  have rok: "record_ok rec" using J assms(2) by (simp add: journal_backs_def)
  have id: "cr_command_id rec = gc_command_id c" using rok assms(3) by (simp add: record_ok_def is_start_of_def)
  have f: "find (\<lambda>r. cr_command_id r = gc_command_id c) (s_command_records s) = Some rec"
    using find_distinct_key [of cr_command_id "s_command_records s" rec] s assms(2) id by (simp add: state_ok_def)
  have "start_backed s c" using J assms(2,3) by (auto simp: journal_backs_def)
  then obtain g where g: "g \<in> set (p_grants s)" "g_grant_id g = gc_grant_id c" "g_fence_token g = gc_fence_token c"
    "g_workload_sha256 g = gc_workload_sha256 c" "g_started_at g = Some (gc_observed_at c)"
    "instant_of (gc_observed_at c) < instant_of (g_expires_at g)"
    by (auto simp: start_backed_def)
  have fg: "find_grant s (gc_grant_id c) = Inr g" "grant_ok g"
    using find_distinct_key [of g_grant_id "p_grants s" g] s g(1,2)
    by (auto simp: find_grant_def state_ok_def ledger_ok_def list_all_iff)
  obtain rq where rq: "accepted_request s (gc_grant_id c) = Inr rq" "estimate_sha256 (rq_estimate rq) = g_estimate_sha256 g"
    using J g(1,2) by (auto simp: journal_backs_def grant_backed_def)
  obtain rr where "rr \<in> set (s_command_records s)" "t_command (cr_transition rr) = RequestGrant rq"
    using rq(1) find_SomeD by (fastforce simp: accepted_request_Inr)
  then have "request_ok rq" using J by (auto simp: journal_backs_def record_ok_def)
  with that [of g rq] assms(2,3) rok f g fg rq show thesis by (simp add: start_facts_def)
qed

lemma start_material_eq:
  assumes "start_facts s rec c g rq"
  shows "start_intent_material s (gc_command_id c) allowed =
    (if g_status g \<in> set allowed then Inr (material_of rec c g rq)
     else Inl (invalid_intent (''StartGrant grant status is not dispatch-valid: '' @ grant_status_value (g_status g))))"
proof -
  have idok: "exec_identifier (gc_command_id c) ''effect_id'' = Inr ()"
    using assms command_ok_ids [of "StartGrant c"]
    by (auto simp: start_facts_def record_ok_def is_start_of_def exec_identifier_Inr)
  have cmd: "start_command rec = Some c" using assms by (simp add: start_facts_def is_start_of_def start_command_Some)
  have f: "find (\<lambda>r. cr_command_id r = gc_command_id c) (s_command_records s) = Some rec"
    "grant_or_absent s (gc_grant_id c) = Inr g" "accepted_request s (gc_grant_id c) = Inr rq"
    using assms by (simp_all add: start_facts_def grant_or_absent_def)
  have r: "r_operation (cr_receipt rec) = ''start_grant''" "r_outcome (cr_receipt rec) = ''in_use''"
    "r_command_id (cr_receipt rec) = gc_command_id c" "r_command_sha256 (cr_receipt rec) = cr_command_sha256 rec"
    "receipt_sha256 (cr_receipt rec) = cr_receipt_sha256 rec" "\<not> r_after_revision (cr_receipt rec) < 1"
    using assms by (auto simp: start_facts_def record_ok_def is_start_of_def operation_names)
  have g: "g_started_at g = Some (gc_observed_at c)" "g_fence_token g = gc_fence_token c"
    "g_workload_sha256 g = gc_workload_sha256 c" "estimate_sha256 (rq_estimate rq) = g_estimate_sha256 g"
    using assms by (simp_all add: start_facts_def)
  show ?thesis
    unfolding start_intent_material_def
    by (simp add: idok f cmd r g Let_def material_of_def)
qed

lemma start_facts_unique:
  assumes "start_facts s rec c g rq" and "start_facts s rec' c' g' rq'" and "gc_command_id c = gc_command_id c'"
  shows "rec' = rec \<and> c' = c \<and> g' = g \<and> rq' = rq"
  using assms by (auto simp: start_facts_def is_start_of_def)

text \<open>Conversely, material comes only from an accepted start.\<close>

lemma start_material_Inr:
  assumes "reachable s" and "start_intent_material s effect_id allowed = Inr m"
  obtains rec c g rq where "start_facts s rec c g rq" "gc_command_id c = effect_id" "g_status g \<in> set allowed"
    "m = material_of rec c g rq"
proof -
  obtain rec c where f: "find (\<lambda>r. cr_command_id r = effect_id) (s_command_records s) = Some rec" "start_command rec = Some c"
    and o: "r_outcome (cr_receipt rec) = ''in_use''"
    using assms(2)
    by (auto simp: start_intent_material_def result_simps check_simps Let_def split: option.splits)
  from find_SomeD [OF f(1)] have rec: "rec \<in> set (s_command_records s)" "cr_command_id rec = effect_id" by auto
  have st: "is_start_of c rec" using f(2) o by (simp add: is_start_of_def start_command_Some)
  obtain g rq where sf: "start_facts s rec c g rq" by (rule start_facts_exist [OF assms(1) rec(1) st])
  have id: "gc_command_id c = effect_id" using sf rec(2) by (auto simp: start_facts_def record_ok_def is_start_of_def)
  from start_material_eq [OF sf, of allowed] assms(2) id that [OF sf id] show thesis by (auto split: if_splits)
qed

section \<open>Intent references\<close>

lemma exec_sha_ok [simp]: "sha256_ok (exec_canonical_sha j)" "sha256_ok (intent_sha256 s m)"
  by (simp_all add: exec_canonical_sha_def intent_sha256_def Let_def)

lemma reference_of_ok:
  assumes "state_ok s" and "start_facts s rec c g rq"
  shows "reference_ok (reference_of s (material_of rec c g rq))"
proof -
  have cmd: "grant_command_ok c"
    using assms(2) by (auto simp: start_facts_def record_ok_def is_start_of_def)
  have "record_ok rec" using assms(2) unfolding start_facts_def by blast
  then have r: "cr_command_sha256 rec = command_hash (t_command (cr_transition rec))"
    "receipt_sha256 (cr_receipt rec) = cr_receipt_sha256 rec" "1 \<le> r_after_revision (cr_receipt rec)"
    unfolding record_ok_def by blast+
  have sha: "sha256_ok (cr_command_sha256 rec)" "sha256_ok (cr_receipt_sha256 rec)"
    unfolding r(1) r(2) [symmetric] by simp_all
  have g: "grant_ok g" "instant_of (gc_observed_at c) < instant_of (g_expires_at g)" and rq: "estimate_ok (rq_estimate rq)"
    using assms(2) by (simp_all add: start_facts_def request_ok_def)
  have id: "identity_ok s" using assms(1) by (simp add: state_ok_def ledger_ok_def)
  from cmd sha r(3) g rq id show ?thesis
    unfolding reference_ok_def reference_of_def material_of_def Let_def
    by (simp add: identity_ok_def grant_command_ok_def estimate_ok_def grant_ok_def grant_times_ok_def)
qed

lemma derive_eq:
  assumes "state_ok s" and "start_facts s rec c g rq"
  shows "derive_intent_reference s (gc_command_id c) =
    (if g_status g \<in> set RECOVERABLE_GRANT_STATUSES then Inr (reference_of s (material_of rec c g rq))
     else Inl (invalid_intent (''StartGrant grant status is not dispatch-valid: '' @ grant_status_value (g_status g))))"
proof -
  have "mk_reference (reference_of s (material_of rec c g rq)) = Inr (reference_of s (material_of rec c g rq))"
    using reference_of_ok [OF assms] by (simp add: mk_reference_def post_init_reference_Inr ebind_eq_Inr)
  then show ?thesis by (simp add: derive_intent_reference_def start_material_eq [OF assms(2)])
qed

lemma derive_Inr:
  assumes "reachable s" and "derive_intent_reference s effect_id = Inr r"
  obtains rec c g rq where "start_facts s rec c g rq" "gc_command_id c = effect_id"
    "g_status g \<in> set RECOVERABLE_GRANT_STATUSES" "r = reference_of s (material_of rec c g rq)"
proof -
  obtain m where m: "start_intent_material s effect_id RECOVERABLE_GRANT_STATUSES = Inr m" "r = reference_of s m"
    using assms(2) by (auto simp: derive_intent_reference_def mk_reference_def result_simps)
  obtain rec c g rq where "start_facts s rec c g rq" "gc_command_id c = effect_id"
    "g_status g \<in> set RECOVERABLE_GRANT_STATUSES" "m = material_of rec c g rq"
    by (rule start_material_Inr [OF assms(1) m(1)])
  with m(2) show thesis by (auto intro: that)
qed

text \<open>The facts of a start hold in every later state, with the same record and request.\<close>

lemma later_reachable: "later s t \<Longrightarrow> reachable s \<Longrightarrow> reachable t"
  by (induction rule: later.induct) (auto intro: reachable.submitted)

lemma start_facts_later:
  assumes "reachable s" and "later s t" and "start_facts s rec c g rq"
  obtains g' where "start_facts t rec c g' rq" "same_grant g g'"
proof -
  note s = reachable_ok [OF assms(1)] and t = later_reachable [OF assms(2,1)]
  obtain recs where recs: "s_command_records t = s_command_records s @ recs"
    using later_records [OF assms(2) s] by blast
  have st: "rec \<in> set (s_command_records t)" "is_start_of c rec" using assms(3) recs by (auto simp: start_facts_def)
  obtain g' rq' where f: "start_facts t rec c g' rq'" by (rule start_facts_exist [OF t st])
  have "accepted_request t (gc_grant_id c) = Inr rq"
    using assms(3) by (intro accepted_request_keeps [OF _ recs]) (simp add: start_facts_def)
  then have rq: "rq' = rq" using f by (simp add: start_facts_def)
  obtain h where h: "h \<in> set (p_grants t)" "same_grant g h"
    using later_grant [OF assms(2) s, of g] assms(3) by (auto simp: start_facts_def)
  have "g_grant_id h = g_grant_id g'" using h(2) f assms(3) by (auto simp: start_facts_def same_grant_def)
  moreover have "distinct (map g_grant_id (p_grants t))" using reachable_ok [OF t] by (simp add: state_ok_def ledger_ok_def)
  ultimately have "h = g'" using h(1) f by (auto simp: start_facts_def distinct_map inj_on_def)
  with that f rq h(2) show thesis by simp
qed

lemma later_identity: "later s t \<Longrightarrow> state_ok s \<Longrightarrow> p_budget_id t = p_budget_id s \<and> p_scope t = p_scope s \<and> p_epoch t = p_epoch s"
proof (induction rule: later.induct)
  case (there t c u)
  then show ?case using submit_caps [OF later_ok [OF there(1,5)] there(2,3)] by auto
qed simp

lemma reference_stable:
  assumes "reachable s" and "later s t" and "start_facts s rec c g rq" and "same_grant g g'"
  shows "reference_of t (material_of rec c g' rq) = reference_of s (material_of rec c g rq)"
proof -
  have "p_budget_id t = p_budget_id s" "p_scope t = p_scope s" "p_epoch t = p_epoch s"
    using later_identity [OF assms(2) reachable_ok [OF assms(1)]] by auto
  moreover have "material_of rec c g' rq = material_of rec c g rq"
    using assms(4) by (simp add: material_of_def same_grant_def)
  ultimately show ?thesis by (simp add: reference_of_def intent_sha256_def Let_def)
qed

section \<open>Recovery\<close>

text \<open>An accepted start whose grant is not yet resolved.\<close>

definition unresolved :: "resource_state \<Rightarrow> command_record \<Rightarrow> bool" where
  "unresolved s rec =
     (case t_command (cr_transition rec) of
        StartGrant c \<Rightarrow> r_outcome (cr_receipt rec) = ''in_use'' \<and>
          (case find_grant s (gc_grant_id c) of Inl _ \<Rightarrow> False
           | Inr g \<Rightarrow> g_status g \<in> set RECOVERABLE_GRANT_STATUSES)
      | _ \<Rightarrow> False)"

lemma recoverable_over_eq:
  assumes "reachable s" and "set recs \<subseteq> set (s_command_records s)"
  shows "recoverable_over s recs = Inr (map cr_command_id (filter (unresolved s) recs))"
  using assms(2)
proof (induction recs)
  case (Cons rec recs)
  show ?case
  proof (cases "\<exists>c. is_start_of c rec")
    case True
    then obtain c where st: "is_start_of c rec" ..
    obtain g rq where f: "start_facts s rec c g rq"
      by (rule start_facts_exist [OF assms(1) _ st]) (use Cons.prems in simp)
    have id: "cr_command_id rec = gc_command_id c" using f by (auto simp: start_facts_def record_ok_def is_start_of_def)
    have u: "unresolved s rec \<longleftrightarrow> g_status g \<in> set RECOVERABLE_GRANT_STATUSES"
      using f st by (simp add: unresolved_def start_facts_def is_start_of_def)
    show ?thesis
      using Cons st id u derive_eq [OF reachable_ok [OF assms(1)] f]
      by (auto simp: is_start_of_def start_command_def)
  next
    case False
    then have "\<not> unresolved s rec" by (auto simp: unresolved_def is_start_of_def split: resource_command.splits)
    with False Cons show ?thesis
      by (auto simp: is_start_of_def start_command_def split: resource_command.splits)
  qed
qed simp

section \<open>Permits\<close>

lemma chained_revision: "chained h n recs h' \<Longrightarrow> rec \<in> set recs \<Longrightarrow> r_after_revision (cr_receipt rec) \<le> n + int (length recs)"
  by (induction recs arbitrary: h n) fastforce+

lemma record_revision:
  assumes "state_ok s" and "rec \<in> set (s_command_records s)"
  shows "r_after_revision (cr_receipt rec) \<le> p_revision s"
proof -
  have "chained (state_sha256 (genesis s)) (p_revision (genesis s)) (s_command_records s) (state_sha256 (proj s))"
    using assms(1) by (intro replay_chained) (simp add: state_ok_def replay_def)
  from chained_revision [OF this assms(2)] assms(1) show ?thesis by (simp add: genesis_def state_ok_def)
qed

lemma instant_ok_bounds:
  "instant_ok v \<Longrightarrow> seconds 86400 \<le> instant_of v"
  "instant_ok v \<Longrightarrow> instant_of v \<le> max_instant"
  using from_isoformat_bounds by (auto simp: instant_ok_def instant_of_def)

lemma instant_of_text:
  "seconds 86400 \<le> i \<Longrightarrow> i \<le> max_instant \<Longrightarrow> instant_ok (exec_utc_text i) \<and> instant_of (exec_utc_text i) = i"
  using read_utc_text [of i] by (simp add: exec_utc_text_def instant_ok_def instant_of_def)

lemma ebind_exec_utc_instant: "instant_ok v \<Longrightarrow> ebind (exec_utc_instant v l) f = f (instant_of v)"
  by (auto simp: exec_utc_instant_def instant_ok_def instant_of_def)

lemma current_authority:
  "require_current_confirmed_authority s a = Inr u \<longleftrightarrow>
     au_anchor_status a = ''CONFIRMED'' \<and> au_budget_id a = p_budget_id s \<and> au_scope a = p_scope s \<and>
     au_epoch a = p_epoch s \<and> au_revision a = p_revision s \<and> au_state_sha256 a = state_sha256 s"
  by (auto simp: require_current_confirmed_authority_def check_simps result_simps)

lemma post_init_authority_Inr [check_simps]:
  "post_init_authority a = Inr u \<longleftrightarrow>
     au_schema_version a = EXECUTION_SCHEMA_VERSION \<and> identifier_ok (au_budget_id a) \<and> identifier_ok (au_scope a) \<and>
     1 \<le> au_epoch a \<and> 0 \<le> au_revision a \<and> sha256_ok (au_state_sha256 a) \<and> sha256_ok (au_checkpoint_sha256 a) \<and>
     sha256_ok (au_journal_head_sha256 a) \<and> au_anchor_status a \<in> {''PENDING'', ''CONFIRMED''}"
  by (auto simp: post_init_authority_def check_simps result_simps)

lemma observation_window:
  assumes "instant_ok (gc_observed_at (sm_command m))" and "instant_ok obs" and "instant_ok (sm_expires_at m)"
    and "instant_of (gc_observed_at (sm_command m)) \<le> instant_of obs"
  shows "require_observation_window m obs None =
    (if instant_of obs < instant_of (sm_expires_at m) then Inr ()
     else Inl (ExpiredWorkloadDispatchPermit ''workload-dispatch authority expired before effect execution''))"
  using assms by (simp add: require_observation_window_def ebind_exec_utc_instant)

lemma material_sel [simp]:
  "sm_command (material_of rec c g rq) = c" "sm_expires_at (material_of rec c g rq) = g_expires_at g"
  "sm_start_revision (material_of rec c g rq) = r_after_revision (cr_receipt rec)"
  by (simp_all add: material_of_def)

lemma permit_of_sel [simp]:
  "permit_reference (permit_of s a m obs e) = reference_of s m"
  "pm_authority_revision (permit_of s a m obs e) = au_revision a"
  "pm_authority_state_sha256 (permit_of s a m obs e) = au_state_sha256 a"
  "pm_authority_checkpoint_sha256 (permit_of s a m obs e) = au_checkpoint_sha256 a"
  "pm_authority_journal_head_sha256 (permit_of s a m obs e) = au_journal_head_sha256 a"
  "pm_issued_at (permit_of s a m obs e) = obs" "pm_expires_at (permit_of s a m obs e) = exec_utc_text e"
  "pm_grant_expires_at (permit_of s a m obs e) = sm_expires_at m"
  "pm_start_observed_at (permit_of s a m obs e) = gc_observed_at (sm_command m)"
  "pm_start_revision (permit_of s a m obs e) = sm_start_revision m"
  "pm_effect_id (permit_of s a m obs e) = gc_command_id (sm_command m)"
  "pm_budget_id (permit_of s a m obs e) = p_budget_id s" "pm_scope (permit_of s a m obs e) = p_scope s"
  "pm_epoch (permit_of s a m obs e) = p_epoch s"
  by (simp_all add: permit_of_def reference_of_def permit_reference_def Let_def)

lemma start_facts_instants:
  assumes "start_facts s rec c g rq"
  shows "instant_ok (gc_observed_at c)" and "instant_ok (g_expires_at g)"
proof -
  have "record_ok rec" "is_start_of c rec" "grant_ok g" using assms unfolding start_facts_def by blast+
  then show "instant_ok (gc_observed_at c)" "instant_ok (g_expires_at g)"
    by (auto simp: record_ok_def is_start_of_def grant_command_ok_def grant_ok_def grant_times_ok_def)
qed

text \<open>Minting within the window yields the permit of the start, cut at the grant's expiry.\<close>

lemma mint_ok:
  assumes s: "state_ok s" and f: "start_facts s rec c g rq" and st: "g_status g = IN_USE"
    and au: "post_init_authority a = Inr ()" "require_current_confirmed_authority s a = Inr ()"
    and ttl: "1 \<le> n" "n \<le> MAX_PERMIT_TTL_SECONDS"
    and obs: "instant_ok obs" "instant_of (gc_observed_at c) \<le> instant_of obs" "instant_of obs < instant_of (g_expires_at g)"
      "instant_of obs + seconds n \<le> max_instant"
  defines "e \<equiv> min (instant_of (g_expires_at g)) (instant_of obs + seconds n)"
  shows "mint_workload_dispatch_permit s a (gc_command_id c) obs n = Inr (permit_of s a (material_of rec c g rq) obs e)"
    and "permit_ok (permit_of s a (material_of rec c g rq) obs e)"
    and "instant_of (pm_expires_at (permit_of s a (material_of rec c g rq) obs e)) = e"
proof -
  let ?m = "material_of rec c g rq" and ?p = "permit_of s a (material_of rec c g rq) obs e"
  note i = start_facts_instants [OF f]
  have sn: "0 < seconds n" "seconds n \<le> seconds MAX_PERMIT_TTL_SECONDS" using ttl by (simp_all add: seconds_def)
  have e: "seconds 86400 \<le> e" "e \<le> max_instant"
    using instant_ok_bounds [OF i(2)] instant_ok_bounds [OF obs(1)] obs(4) sn by (auto simp: e_def)
  note te = instant_of_text [OF e]
  show "instant_of (pm_expires_at ?p) = e" using te by simp
  have rec: "rec \<in> set (s_command_records s)" "1 \<le> r_after_revision (cr_receipt rec)"
    using f by (auto simp: start_facts_def record_ok_def)
  have pr: "r_after_revision (cr_receipt rec) \<le> au_revision a"
    using record_revision [OF s rec(1)] au(2) by (simp add: current_authority)
  show ok: "permit_ok ?p"
    unfolding permit_ok_def
    using reference_of_ok [OF s f] rec(2) pr au obs te i sn
    by (auto simp: post_init_authority_Inr e_def)
  have "start_intent_material s (gc_command_id c) [IN_USE] = Inr ?m"
    using start_material_eq [OF f, of "[IN_USE]"] st by simp
  moreover have "require_observation_window ?m obs None = Inr ()"
    using observation_window [of ?m obs] i obs by simp
  moreover have "mk_permit ?p = Inr ?p" using ok by (simp add: mk_permit_def post_init_permit_Inr ebind_eq_Inr)
  ultimately show "mint_workload_dispatch_permit s a (gc_command_id c) obs n = Inr ?p"
    using au ttl obs i
    by (simp add: mint_workload_dispatch_permit_def ebind_exec_utc_instant add_seconds_def e_def raise_if_def exec_integer_def)
qed

lemma mint_Inr:
  assumes "reachable s" and "mint_workload_dispatch_permit s a effect_id obs n = Inr p"
  obtains rec c g rq where "start_facts s rec c g rq" "gc_command_id c = effect_id" "g_status g = IN_USE"
    "require_current_confirmed_authority s a = Inr ()" "1 \<le> n" "n \<le> MAX_PERMIT_TTL_SECONDS" "instant_ok obs"
    "instant_of (gc_observed_at c) \<le> instant_of obs" "instant_of obs < instant_of (g_expires_at g)"
    "instant_of obs + seconds n \<le> max_instant"
    "p = permit_of s a (material_of rec c g rq) obs (min (instant_of (g_expires_at g)) (instant_of obs + seconds n))"
    "permit_ok p"
proof -
  from assms(2) obtain m where m: "start_intent_material s effect_id [IN_USE] = Inr m"
    and au: "require_current_confirmed_authority s a = Inr ()" and n: "1 \<le> n" "n \<le> MAX_PERMIT_TTL_SECONDS"
    and w: "require_observation_window m obs None = Inr ()" and obs: "instant_ok obs" "instant_ok (sm_expires_at m)"
    and le: "instant_of obs + seconds n \<le> max_instant"
    and p: "p = permit_of s a m obs (min (instant_of (sm_expires_at m)) (instant_of obs + seconds n))" "permit_ok p"
    by (auto simp: mint_workload_dispatch_permit_def result_simps check_simps add_seconds_def mk_permit_def)
  obtain rec c g rq where f: "start_facts s rec c g rq" "gc_command_id c = effect_id" "g_status g \<in> set [IN_USE]"
    "m = material_of rec c g rq"
    by (rule start_material_Inr [OF assms(1) m])
  have "instant_of (gc_observed_at c) \<le> instant_of obs" "instant_of obs < instant_of (g_expires_at g)"
    using w by (auto simp: require_observation_window_def result_simps check_simps f(4))
  with f au n obs le p show thesis by (intro that) auto
qed

lemma revalidate_minted:
  assumes s: "state_ok s" and f: "start_facts s rec c g rq" and st: "g_status g = IN_USE"
    and au: "require_current_confirmed_authority s a = Inr ()"
    and ok: "permit_ok (permit_of s a (material_of rec c g rq) obs e)" and t: "instant_ok t"
  shows "revalidate_workload_dispatch_permit s a (permit_of s a (material_of rec c g rq) obs e) t =
    (if instant_of t < instant_of obs
     then Inl (InvalidWorkloadDispatchIntent ''dispatch observation precedes permit issue'')
     else if instant_of t < instant_of (exec_utc_text e)
     then Inr (permit_of s a (material_of rec c g rq) obs e)
     else Inl (ExpiredWorkloadDispatchPermit ''workload-dispatch authority expired before effect execution''))"
proof -
  let ?m = "material_of rec c g rq" and ?p = "permit_of s a (material_of rec c g rq) obs e"
  have i: "instant_ok obs" "instant_ok (exec_utc_text e)" "instant_of (gc_observed_at c) \<le> instant_of obs"
    using ok by (auto simp: permit_ok_def)
  have m: "start_intent_material s (gc_command_id c) [IN_USE] = Inr ?m"
    using start_material_eq [OF f, of "[IN_USE]"] st by simp
  have ne: "exec_utc_text e \<noteq> []" using i(2) by (auto simp: instant_ok_def rfc3339_shape_def)
  have w: "require_observation_window ?m t (Some (exec_utc_text e)) =
      (if instant_of t < instant_of (exec_utc_text e) then Inr ()
       else Inl (ExpiredWorkloadDispatchPermit ''workload-dispatch authority expired before effect execution''))"
    if "\<not> instant_of t < instant_of obs"
    using that i t ne start_facts_instants [OF f]
    by (auto simp: require_observation_window_def ebind_exec_utc_instant neq_Nil_conv)
  have b: "pm_grant_id ?p = gc_grant_id c" "pm_fence_token ?p = gc_fence_token c" "pm_workload_sha256 ?p = gc_workload_sha256 c"
    "pm_estimate_sha256 ?p = sm_estimate_sha256 ?m" "pm_adapter ?p = sm_adapter ?m" "pm_adapter_version ?p = sm_adapter_version ?m"
    "pm_start_command_sha256 ?p = sm_command_sha256 ?m" "pm_start_receipt_sha256 ?p = sm_receipt_sha256 ?m"
    "pm_intent_sha256 ?p = intent_sha256 s ?m"
    by (simp_all add: permit_of_def Let_def)
  show ?thesis
    using au au [unfolded current_authority] i t m w b
    by (simp add: revalidate_workload_dispatch_permit_def ebind_exec_utc_instant ebind_raise_if Let_def)
qed

lemma revalidate_Inr:
  assumes "revalidate_workload_dispatch_permit s a p t = Inr p'"
  shows "p' = p" and "require_current_confirmed_authority s a = Inr ()"
    and "pm_authority_revision p = p_revision s" and "pm_authority_state_sha256 p = state_sha256 s"
    and "\<exists>m. start_intent_material s (pm_effect_id p) [IN_USE] = Inr m"
    and "pm_expires_at p \<noteq> [] \<Longrightarrow> instant_of (pm_issued_at p) \<le> instant_of t \<and> instant_of t < instant_of (pm_expires_at p)"
proof -
  from assms obtain m where r: "p' = p" "require_current_confirmed_authority s a = Inr ()"
    "pm_authority_revision p = au_revision a" "pm_authority_state_sha256 p = au_state_sha256 a"
    "start_intent_material s (pm_effect_id p) [IN_USE] = Inr m" "instant_of (pm_issued_at p) \<le> instant_of t"
    "require_observation_window m t (Some (pm_expires_at p)) = Inr ()"
    by (auto simp: revalidate_workload_dispatch_permit_def result_simps check_simps Let_def)
  show "p' = p" "require_current_confirmed_authority s a = Inr ()"
    "pm_authority_revision p = p_revision s" "pm_authority_state_sha256 p = state_sha256 s"
    "\<exists>m. start_intent_material s (pm_effect_id p) [IN_USE] = Inr m"
    using r by (auto simp: current_authority)
  show "instant_of (pm_issued_at p) \<le> instant_of t \<and> instant_of t < instant_of (pm_expires_at p)" if "pm_expires_at p \<noteq> []"
    using r(6,7) that by (auto simp: require_observation_window_def result_simps check_simps neq_Nil_conv)
qed

text \<open>Any further journal entry makes a permit stale.\<close>

lemma later_revision:
  assumes "later s t" and "state_ok s"
  shows "p_revision s \<le> p_revision t \<and> (p_revision t = p_revision s \<longrightarrow> s_command_records t = s_command_records s)"
proof -
  obtain recs where "s_command_records t = s_command_records s @ recs" using later_records [OF assms] by blast
  then show ?thesis using assms(2) later_ok [OF assms] by (simp add: state_ok_def)
qed

end
