(* ===== verification/Resource_Properties.thy ===== *)
theory Resource_Properties
  imports Resource_Journal Resource_Kernel
begin

text \<open>
  The properties of the resource coordinator, each over the functions of the code and the
  states reachable by \<open>create\<close> and \<open>submit\<close>, with its witness.
\<close>

lemma sample_command: "post_init_command (RequestGrant sample_request) = Inr ()"
  unfolding post_init_command_Inr by (simp add: sample_request_ok)

lemma sample_step:
  obtains a q t where "t = step_transition sample_state (RequestGrant sample_request) a q"
    "decide sample_state (RequestGrant sample_request) = Inr (fresh_decision t)"
    "submit sample_state (RequestGrant sample_request) = Inr (extend_state sample_state q t)"
    "evolve sample_state t = Inr (extend_state sample_state q t)" "reachable (extend_state sample_state q t)"
proof -
  let ?c = "RequestGrant sample_request"
  have c: "command_ok ?c" by (simp add: sample_request_ok)
  obtain a q where d: "decide sample_state ?c = Inr (fresh_decision (step_transition sample_state ?c a q))"
    and s: "submit sample_state ?c = Inr (extend_state sample_state q (step_transition sample_state ?c a q))"
    by (rule decide_fresh_command [OF reachable_ok [OF sample_reachable] c]) (simp add: sample_state_def)
  from d s have "evolve sample_state (step_transition sample_state ?c a q) =
      Inr (extend_state sample_state q (step_transition sample_state ?c a q))"
    by (auto simp: submit_def evolve_all_def result_simps)
  with that [OF refl d s] reachable.submitted [OF sample_reachable c s] show thesis by blast
qed

section \<open>Totality and the budget\<close>

text \<open>
  C1: On a reachable state every constructible command is either an idempotency conflict or
  is submitted successfully: \<open>decide\<close> returns a decision, \<open>evolve\<close> accepts its transition and
  the constructor \<^verbatim>\<open>ResourceState\<close>, which replays the whole journal from genesis, accepts
  the new state. No other exception is possible.
\<close>

theorem submit_total:
  assumes "reachable s" and "post_init_command c = Inr ()"
  shows "(\<exists>s'. submit s c = Inr s' \<and> reachable s' \<and> post_init_state s' = Inr ()) \<or>
    submit s c = Inl (Rejection (IdempotencyConflict (command_id c)))"
proof -
  have c: "command_ok c" using assms(2) by (simp add: post_init_command_Inr)
  from reachable_ok [OF assms(1)] c show ?thesis
  proof (cases rule: submit_cases)
    case (fresh a q)
    then show ?thesis using reachable.submitted [OF assms(1) c] post_init_state_ok by blast
  next
    case replay
    then show ?thesis using assms(1) post_init_state_ok [OF reachable_ok [OF assms(1)]] by blast
  qed simp
qed

theorem submit_total_witness:
  "(\<exists>s'. submit sample_state (RequestGrant sample_request) = Inr s' \<and> reachable s' \<and> post_init_state s' = Inr ()) \<or>
    submit sample_state (RequestGrant sample_request) =
      Inl (Rejection (IdempotencyConflict (command_id (RequestGrant sample_request))))"
  by (rule submit_total [OF sample_reachable sample_command])

text \<open>
  C2: Accounting. In every reachable state what is spent is the measured usage of the charged
  grants, the budget is frozen exactly when a grant is quarantined for overrun, and while it
  is active, spending and open reservations together stay within the hard caps on every axis.
\<close>

theorem budget_accounts:
  assumes "reachable s"
  shows "p_spent s = sum_list (map (\<lambda>g. if charged (g_status g) then g_actual g else 0) (p_grants s)) \<and>
    (p_status s = FROZEN \<longleftrightarrow> (\<exists>g. g \<in> set (p_grants s) \<and> g_status g = QUARANTINED_OVERRUN)) \<and>
    (p_status s = ACTIVE \<longrightarrow> p_spent s + reserved_total s \<le> p_hard_caps s)"
proof -
  have "ledger_ok s" using reachable_ok [OF assms] by (simp add: state_ok_def)
  then show ?thesis
    by (auto simp: ledger_ok_def charged_total_def reserved_total_eq quarantined_def list_ex_iff)
qed

theorem budget_accounts_witness:
  "p_spent sample_state = sum_list (map (\<lambda>g. if charged (g_status g) then g_actual g else 0) (p_grants sample_state)) \<and>
    p_status sample_state = ACTIVE \<and> p_spent sample_state + reserved_total sample_state \<le> p_hard_caps sample_state"
  using budget_accounts [OF sample_reachable] by (simp add: sample_state_def)

text \<open>
  C3: Refinement. Under the abstraction \<open>escrow_of\<close> every submitted command of a reachable
  state is one step of the abstract escrow (admit within the caps, settle within the
  reservation, overrun and freeze, release) or leaves it unchanged.
\<close>

theorem submit_refines_escrow:
  assumes "reachable s" and "post_init_command c = Inr ()" and "submit s c = Inr s'"
  shows "escrow_of s' = escrow_of s \<or> escrow_step (escrow_of s) (escrow_of s')"
proof -
  have "command_ok c" using assms(2) by (simp add: post_init_command_Inr)
  from submit_escrow [OF reachable_ok [OF assms(1)] this assms(3)] show ?thesis by auto
qed

theorem submit_refines_escrow_witness:
  "\<exists>s'. submit sample_state (RequestGrant sample_request) = Inr s' \<and>
     (escrow_of s' = escrow_of sample_state \<or> escrow_step (escrow_of sample_state) (escrow_of s'))"
  using sample_step submit_refines_escrow [OF sample_reachable sample_command] by metis

section \<open>Idempotency and the journal\<close>

text \<open>
  C4: Idempotent replay. Once a command has been submitted, then after any number of further
  commands, of which those that raise change nothing, submitting it again returns the receipt
  of the first decision, without a transition, and leaves the state as it is.
\<close>

theorem replay_is_idempotent:
  assumes "reachable s" and "post_init_command c = Inr ()" and "list_all (\<lambda>x. post_init_command x = Inr ()) cs"
    and "decide s c = Inr d" and "submit s c = Inr s'"
  shows "\<exists>d'. decide (serve_with decide evolve d_transitions s' cs) c = Inr d' \<and> d_transitions d' = [] \<and>
    decision_receipt d' = decision_receipt d \<and>
    submit (serve_with decide evolve d_transitions s' cs) c = Inr (serve_with decide evolve d_transitions s' cs)"
  using rk.answered_forever [OF reachable_ok [OF assms(1)] _ assms(4), of s' cs] assms(2,3,5)
  by (simp add: post_init_command_Inr submit_eq)

theorem replay_is_idempotent_witness:
  "\<exists>s' d d'. submit sample_state (RequestGrant sample_request) = Inr s' \<and>
     decide sample_state (RequestGrant sample_request) = Inr d \<and> decide s' (RequestGrant sample_request) = Inr d' \<and>
     decision_receipt d' = decision_receipt d"
proof -
  obtain a q t where t: "decide sample_state (RequestGrant sample_request) = Inr (fresh_decision t)"
    "submit sample_state (RequestGrant sample_request) = Inr (extend_state sample_state q t)"
    by (rule sample_step)
  from replay_is_idempotent [OF sample_reachable sample_command _ t, of "[]"] t show ?thesis
    by (auto simp: serve_with_def)
qed

text \<open>
  C5: The hash chain. In any state the constructor accepts with a non-empty journal, whether
  reached or loaded, the receipts are chained from the budget's genesis to the state: each
  one's before-hash is its predecessor's after-hash, revisions count up by one, and the last
  after-hash is the hash of the state.
\<close>

theorem journal_is_chained:
  assumes "post_init_state s = Inr ()" and "s_command_records s \<noteq> []"
  shows "chained (state_sha256 (genesis s)) 0 (s_command_records s) (state_sha256 s)"
proof -
  obtain p where p: "fold_result replay_record (genesis s) (s_command_records s) = Inr p" "state_sha256 p = state_sha256 s"
    using assms by (auto simp: post_init_state_Inr validate_retained_history_def result_simps check_simps)
  from replay_chained [OF p(1)] p(2) show ?thesis by (simp add: genesis_def)
qed

theorem journal_is_chained_witness:
  "\<exists>s. submit sample_state (RequestGrant sample_request) = Inr s \<and>
     chained (state_sha256 (genesis s)) 0 (s_command_records s) (state_sha256 s)"
proof -
  obtain q t where s: "submit sample_state (RequestGrant sample_request) = Inr (extend_state sample_state q t)"
    "reachable (extend_state sample_state q t)" by (rule sample_step)
  have "s_command_records (extend_state sample_state q t) \<noteq> []" by (simp add: extend_state_def)
  from journal_is_chained [OF post_init_state_ok [OF reachable_ok [OF s(2)]] this] s(1) show ?thesis by blast
qed

text \<open>
  C6: \<open>evolve\<close> accepts only what \<open>decide\<close> returns: a transition it applies, from any source, is
  the one transition of the decision of its command on that state, and its command id is new.
\<close>

theorem evolve_only_decided:
  assumes "evolve s t = Inr s'"
  shows "(\<exists>d. decide s (t_command t) = Inr d \<and> d_transitions d = [t]) \<and>
    command_id (t_command t) \<notin> cr_command_id ` set (s_command_records s) \<and>
    s_command_records s' = s_command_records s @ [record_of t]"
  using evolve_Inr_decided [OF assms] assms
  by (auto simp: evolve_def result_simps check_simps list_ex_iff mk_state_def)

theorem evolve_only_decided_witness:
  "\<exists>t s'. evolve sample_state t = Inr s' \<and> (\<exists>d. decide sample_state (t_command t) = Inr d \<and> d_transitions d = [t])"
  using sample_step evolve_only_decided by metis

section \<open>Admission\<close>

text \<open>The guards of each command over a well-formed ledger, in the caller's terms.\<close>

definition bound_to :: "resource_state \<Rightarrow> grant_command \<Rightarrow> (resource_grant \<Rightarrow> bool) \<Rightarrow> bool" where
  "bound_to s c P =
     (case find (\<lambda>g. g_grant_id g = gc_grant_id c) (p_grants s) of
        None \<Rightarrow> False
      | Some g \<Rightarrow> g_fence_token g = gc_fence_token c \<and> g_workload_sha256 g = gc_workload_sha256 c \<and>
          instant_of (g_last_observed_at g) \<le> instant_of (gc_observed_at c) \<and> P g)"

fun admissible :: "resource_state \<Rightarrow> resource_command \<Rightarrow> bool" where
  "admissible s (RequestGrant c) =
     (p_status s = ACTIVE \<and> rq_grant_id c \<notin> set (map g_grant_id (p_grants s)) \<and>
      instant_of (rq_observed_at c) < instant_of (rq_expires_at c) \<and>
      instant_of (rq_expires_at c) \<le> instant_of (e_valid_until (rq_estimate c)) \<and>
      p_spent s + reserved_total s + e_upper_bound (rq_estimate c) \<le> p_hard_caps s)"
| "admissible s (StartGrant c) =
     bound_to s c (\<lambda>g. g_status g = RESERVED \<and> instant_of (gc_observed_at c) < instant_of (g_expires_at g))"
| "admissible s (SettleGrant c u) =
     bound_to s c (\<lambda>g. g_status g \<in> set [IN_USE, CANCEL_PENDING, RECONCILIATION_REQUIRED] \<and>
       (case g_started_at g of None \<Rightarrow> False | Some t \<Rightarrow> instant_of t \<le> instant_of (u_measured_at u)) \<and>
       instant_of (u_measured_at u) \<le> instant_of (gc_observed_at c))"
| "admissible s (CancelGrant c reason) = bound_to s c (\<lambda>g. g_status g \<in> set [RESERVED, IN_USE])"
| "admissible s (DeadlineObserved c) =
     bound_to s c (\<lambda>g. g_status g \<in> set [RESERVED, IN_USE] \<and>
       instant_of (g_expires_at g) \<le> instant_of (gc_observed_at c))"
| "admissible s (UsageUnknown c reason) = bound_to s c (\<lambda>g. g_status g \<in> set [IN_USE, CANCEL_PENDING])"

lemma bound_to_iff: "bound_to s c P \<longleftrightarrow> (\<exists>g. binds s c g \<and> observes_after c g \<and> P g)"
  by (auto simp: bound_to_def binds_def observes_after_def split: option.splits)

lemma remaining_iff: "ledger_ok s \<Longrightarrow> p_status s = ACTIVE \<Longrightarrow>
    v \<le> remaining s \<longleftrightarrow> p_spent s + reserved_total s + v \<le> p_hard_caps s"
  by (simp add: remaining_def vector_le_minus_iff ledger_ok_def reserved_total_eq)

lemma accepts_iff_admissible: "ledger_ok s \<Longrightarrow> (\<exists>a. accepts s c a) \<longleftrightarrow> admissible s c"
proof (cases c)
  case (RequestGrant rc)
  assume l: "ledger_ok s"
  show ?thesis
    unfolding RequestGrant by (auto simp: accepts.simps remaining_iff [OF l])
next
  case (StartGrant gc)
  then show ?thesis by (auto simp: accepts.simps bound_to_iff)
next
  case (SettleGrant gc u)
  have "\<exists>a. accepts s c a" if "admissible s c"
  proof -
    from that SettleGrant obtain g t where g: "binds s gc g"
      "g_status g \<in> {IN_USE, CANCEL_PENDING, RECONCILIATION_REQUIRED}" "observes_after gc g" "g_started_at g = Some t"
      "instant_of t \<le> instant_of (u_measured_at u)" "instant_of (u_measured_at u) \<le> instant_of (gc_observed_at gc)"
      by (auto simp: bound_to_iff split: option.splits)
    show ?thesis
      unfolding SettleGrant using accepts.settle [OF g] accepts.overrun [OF g]
      by (cases "u_actual u \<le> g_reserved g") blast+
  qed
  moreover have "accepts s c a \<Longrightarrow> admissible s c" for a
    unfolding SettleGrant by (erule accepts_settle) (auto simp: bound_to_iff split: option.splits)
  ultimately show ?thesis by blast
next
  case (CancelGrant gc r)
  then show ?thesis by (auto simp: accepts.simps bound_to_iff)
next
  case (DeadlineObserved gc)
  then show ?thesis by (auto simp: accepts.simps bound_to_iff)
next
  case (UsageUnknown gc r)
  then show ?thesis by (auto simp: accepts.simps bound_to_iff)
qed

text \<open>
  C7: Exact admission. A constructible command with a new id on a reachable state gets a
  decision, and the decision is accepted exactly when the command's guards hold: a request
  exactly when the budget is active, the grant id unused, the times in order and the estimate's
  upper bound fits the caps beside spending and reservations on every axis.
\<close>

theorem accepted_exactly_when_admissible:
  assumes "reachable s" and "post_init_command c = Inr ()"
    and "command_id c \<notin> cr_command_id ` set (s_command_records s)"
  shows "\<exists>d. decide s c = Inr d \<and> (decision_accepted d \<longleftrightarrow> admissible s c)"
proof -
  have c: "command_ok c" using assms(2) by (simp add: post_init_command_Inr)
  note s = reachable_ok [OF assms(1)]
  obtain d where d: "decide s c = Inr d" using decide_fresh_command [OF s c assms(3)] by blast
  from accepted_iff [OF s c assms(3) d] accepts_iff_admissible [of s c] s d show ?thesis
    by (auto simp: state_ok_def)
qed

theorem accepted_exactly_when_admissible_witness:
  "\<exists>d. decide sample_state (RequestGrant sample_request) = Inr d \<and>
     (decision_accepted d \<longleftrightarrow> admissible sample_state (RequestGrant sample_request))"
  by (rule accepted_exactly_when_admissible [OF sample_reachable sample_command]) (simp add: sample_state_def)

text \<open>
  A refusal survives its receipt. When the guards raise a rejection on a reachable state,
  \<open>decide\<close> returns a durable decision instead, and \<^verbatim>\<open>raise_for_rejection\<close> raises exactly
  that rejection again from the stored receipt.
\<close>

theorem rejection_is_recoverable:
  assumes "reachable s" and "post_init_command c = Inr ()"
    and "command_id c \<notin> cr_command_id ` set (s_command_records s)"
    and "decide_fresh_accepted s c = Inl (Rejection r)"
  shows "\<exists>d. decide s c = Inr d \<and> \<not> decision_accepted d \<and> raise_for_rejection d = Inl (Rejection r)"
proof -
  have c: "command_ok c" using assms(2) by (simp add: post_init_command_Inr)
  note s = reachable_ok [OF assms(1)]
  obtain a q where a: "chosen s c a" "steps_to s c a q" and d: "decide s c = Inr (fresh_decision (step_transition s c a q))"
    using decide_fresh_command [OF s c assms(3)] by blast
  have "ledger_ok s" using s by (simp add: state_ok_def)
  then have "decision_of s c a \<noteq> Inl (Rejection r)" using steps_to_decision_of [OF _ c a(2)] by simp
  with a(1) assms(4) have r: "a = rejected_args r" "recoverable c r" by (auto simp: chosen_def)
  from r(1) have "a_outcome a = ''rejected''" by (simp add: rejected_args_def decision_defaults_def)
  with d recoverable_receipt [OF r(2), of s "state_sha256 q"] show ?thesis
    by (auto simp: decision_accepted_def raise_for_rejection_def decision_rejection_def r(1))
qed

definition sample_start :: grant_command where
  "sample_start = \<lparr>gc_command_id = ''c2'', gc_grant_id = ''g1'', gc_fence_token = 1,
     gc_workload_sha256 = sample_hash, gc_observed_at = sample_time 15\<rparr>"

lemma sample_start_command: "post_init_command (StartGrant sample_start) = Inr ()"
  unfolding post_init_command_Inr by (simp add: sample_start_def grant_command_ok_def text_ok)

theorem rejection_is_recoverable_witness:
  "\<exists>d. decide sample_state (StartGrant sample_start) = Inr d \<and> \<not> decision_accepted d \<and>
     raise_for_rejection d = Inl (Rejection (UnknownGrant ''g1''))"
  by (rule rejection_is_recoverable [OF sample_reachable sample_start_command])
    (simp_all add: sample_state_def sample_start_def decide_start_def bound_grant_def find_grant_def)

section \<open>Grants\<close>

lemma sample_reserved:
  obtains s where "reachable s" "p_grants s = [new_grant sample_request]" "cr_command_id ` set (s_command_records s) = {''c1''}"
proof -
  have "accepts sample_state (RequestGrant sample_request) (reserve_args sample_request)"
    by (rule accepts.reserve)
      (simp_all add: sample_state_def sample_request_def sample_estimate_def seconds_def remaining_def
        reserved_total_def less_eq_resource_vector_def minus_resource_vector_def)
  note acc = this
  have gs: "projected_grants sample_state (RequestGrant sample_request) (a_grant (reserve_args sample_request)) =
      Inr [new_grant sample_request]"
    by (simp add: projected_grants_def is_request_def args_defs sample_state_def)
  have c: "command_ok (RequestGrant sample_request)" by (simp add: sample_request_ok)
  have new: "command_id (RequestGrant sample_request) \<notin> cr_command_id ` set (s_command_records sample_state)"
    by (simp add: sample_state_def)
  obtain s where s: "submit sample_state (RequestGrant sample_request) = Inr s" "p_grants s = [new_grant sample_request]"
    "cr_command_id ` set (s_command_records s) =
      insert (command_id (RequestGrant sample_request)) (cr_command_id ` set (s_command_records sample_state))"
    by (rule accepted_submit [OF reachable_ok [OF sample_reachable] c new acc gs])
  have "cr_command_id ` set (s_command_records s) = {''c1''}"
    by (simp add: s(3) sample_state_def) (simp add: sample_request_def)
  with that reachable.submitted [OF sample_reachable c s(1)] s(2) show thesis by blast
qed

definition sample_cancel :: grant_command where
  "sample_cancel = sample_start\<lparr>gc_command_id := ''c3''\<rparr>"

lemma sample_cancelled:
  obtains s g where "reachable s" "g \<in> set (p_grants s)" "g_status g = CANCELLED_UNUSED"
proof -
  obtain s where s: "reachable s" "p_grants s = [new_grant sample_request]" "cr_command_id ` set (s_command_records s) = {''c1''}"
    by (rule sample_reserved)
  let ?g = "new_grant sample_request" and ?c = "CancelGrant sample_cancel ''done''"
  have c: "command_ok ?c"
    by (simp add: sample_cancel_def sample_start_def grant_command_ok_def text_ok)
  have "accepts s ?c (release_args sample_cancel ''cancelled_unused'' CANCELLED_UNUSED ?g)"
    by (rule accepts.cancel_unused)
      (simp_all add: binds_def observes_after_def s(2) sample_cancel_def sample_start_def new_grant_def
        sample_request_def sample_estimate_def seconds_def)
  note acc = this
  let ?h = "release_update sample_cancel CANCELLED_UNUSED ?g"
  have gs: "projected_grants s ?c (a_grant (release_args sample_cancel ''cancelled_unused'' CANCELLED_UNUSED ?g)) = Inr [?h]"
    by (simp add: projected_grants_def is_request_def args_defs s(2) release_update_def)
  have new: "command_id ?c \<notin> cr_command_id ` set (s_command_records s)"
    by (simp add: s(3)) (simp add: sample_cancel_def)
  obtain s' where s': "submit s ?c = Inr s'" "p_grants s' = [?h]"
    by (rule accepted_submit [OF reachable_ok [OF s(1)] c new acc gs])
  have "g_status ?h = CANCELLED_UNUSED" by (simp add: release_update_def)
  with that [OF reachable.submitted [OF s(1) c s'(1)], of ?h] s'(2) show thesis by simp
qed

text \<open>
  C8: Grants live by the life cycle. Along any later submissions a grant never disappears,
  keeps its identity, reservation, fence token, workload and recorded start, its observation
  time never goes back, and its status moves along the allowed transitions only.
\<close>

theorem grant_lifecycle:
  assumes "reachable s" and "later s t" and "g \<in> set (p_grants s)"
  shows "\<exists>g'. g' \<in> set (p_grants t) \<and> same_grant g g' \<and> lifecycle\<^sup>*\<^sup>* (g_status g) (g_status g')"
  using later_grant [OF assms(2) reachable_ok [OF assms(1)] assms(3)] by auto

theorem grant_lifecycle_witness:
  "\<exists>s g g'. reachable s \<and> g \<in> set (p_grants s) \<and> g' \<in> set (p_grants s) \<and> same_grant g g' \<and> lifecycle\<^sup>*\<^sup>* (g_status g) (g_status g')"
proof -
  obtain s where s: "reachable s" "p_grants s = [new_grant sample_request]" by (rule sample_reserved)
  then have g: "new_grant sample_request \<in> set (p_grants s)" by simp
  from grant_lifecycle [OF s(1) later.here g] g s(1) show ?thesis by blast
qed

text \<open>
  A closed grant is final: once settled, quarantined, cancelled unused or expired unused,
  it stays in every later state exactly as it is.
\<close>

theorem closed_grant_is_final:
  assumes "reachable s" and "later s t" and "g \<in> set (p_grants s)" and "\<not> holds_reservation (g_status g)"
  shows "g \<in> set (p_grants t)"
  using later_terminal [OF assms(2) reachable_ok [OF assms(1)] assms(3)] assms(4) by (simp add: terminal_def)

theorem closed_grant_is_final_witness: "\<exists>s g. reachable s \<and> \<not> holds_reservation (g_status g) \<and> g \<in> set (p_grants s)"
proof -
  obtain s g where s: "reachable s" "g \<in> set (p_grants s)" "g_status g = CANCELLED_UNUSED" by (rule sample_cancelled)
  then have "\<not> holds_reservation (g_status g)" by (simp add: holds_reservation_def)
  from s this closed_grant_is_final [OF s(1) later.here s(2) this] show ?thesis by blast
qed

text \<open>
  What is spent is never unspent, a frozen budget is never thawed, the caps never move,
  and the journal is only appended to.
\<close>

theorem budget_is_monotone:
  assumes "reachable s" and "later s t"
  shows "p_spent s \<le> p_spent t \<and> (p_status t = ACTIVE \<longrightarrow> p_status s = ACTIVE) \<and> p_hard_caps t = p_hard_caps s \<and>
    (\<exists>recs. s_command_records t = s_command_records s @ recs)"
  using later_mono [OF assms(2) reachable_ok [OF assms(1)]] later_records [OF assms(2) reachable_ok [OF assms(1)]]
  by (cases "p_status s") auto

theorem budget_is_monotone_witness:
  "\<exists>s. later sample_state s \<and> s_command_records s \<noteq> [] \<and> p_spent sample_state \<le> p_spent s \<and>
    p_hard_caps s = p_hard_caps sample_state"
proof -
  obtain q t where s: "submit sample_state (RequestGrant sample_request) = Inr (extend_state sample_state q t)"
    by (rule sample_step)
  have "later sample_state (extend_state sample_state q t)"
    by (rule later.there [OF later.here _ s]) (simp add: sample_request_ok)
  from this budget_is_monotone [OF sample_reachable this] show ?thesis by (auto simp: extend_state_def)
qed

section \<open>Settlement\<close>

lemma settlement_outcome:
  assumes "reachable s" and "post_init_command (SettleGrant c u) = Inr ()"
    and "gc_command_id c \<notin> cr_command_id ` set (s_command_records s)"
    and "admissible s (SettleGrant c u)"
  shows "\<exists>s' d g. submit s (SettleGrant c u) = Inr s' \<and> decide s (SettleGrant c u) = Inr d \<and>
    find_grant s (gc_grant_id c) = Inr g \<and> p_spent s' = p_spent s + u_actual u \<and>
    r_reserved (decision_receipt d) = g_reserved g \<and> r_actual (decision_receipt d) = u_actual u \<and>
    (if exceeds (u_actual u) (g_reserved g) = []
     then r_released (decision_receipt d) + u_actual u = g_reserved g \<and> p_status s' = p_status s
     else r_failure_dimensions (decision_receipt d) = exceeds (u_actual u) (g_reserved g) \<and> p_status s' = FROZEN)"
proof -
  let ?c = "SettleGrant c u"
  have c: "command_ok ?c" using assms(2) unfolding post_init_command_Inr .
  note s = reachable_ok [OF assms(1)]
  then have l: "ledger_ok s" by (simp add: state_ok_def)
  obtain a where a: "accepts s ?c a" using accepts_iff_admissible [OF l] assms(4) by blast
  have ch: "chosen s ?c a" using a accepts_complete [OF l c a] by (simp add: chosen_def)
  obtain q where q: "steps_to s ?c a q" using accepts_steps [OF l c a] ..
  have new: "command_id ?c \<notin> cr_command_id ` set (s_command_records s)" using assms(3) by simp
  have d: "decide s ?c = Inr (fresh_decision (step_transition s ?c a q))"
    using iffD2 [OF find_fresh new] chosen_decision [OF l c ch q] by (simp add: decide_def)
  have s': "submit s ?c = Inr (extend_state s q (step_transition s ?c a q))" by (rule submit_fresh [OF s c new ch q])
  from q have "p_spent q = p_spent s + a_spent_delta a" "p_status q = (if a_freeze_budget a then FROZEN else p_status s)"
    by (auto simp: steps_to_def)
  with a d s' show ?thesis
    by (elim accepts_settle)
      (auto simp: extend_state_def find_grant_def binds_def args_defs exceeds_Nil_iff vector_minus_add)
qed

text \<open>
  Settlement. An accepted settlement of a reachable state with a new command id charges
  the measured usage once and closes one grant. Within the reservation the receipt's released
  and actual amounts add up to the reservation and the budget's status stays; beyond it the
  budget freezes and the receipt names exactly the axes on which usage exceeded the reservation.
\<close>

theorem settlement_conserves:
  assumes "reachable s" and "post_init_command (SettleGrant c u) = Inr ()"
    and "gc_command_id c \<notin> cr_command_id ` set (s_command_records s)"
    and "admissible s (SettleGrant c u)"
  shows "\<exists>s' d g. submit s (SettleGrant c u) = Inr s' \<and> decide s (SettleGrant c u) = Inr d \<and>
    find_grant s (gc_grant_id c) = Inr g \<and> p_spent s' = p_spent s + u_actual u \<and>
    r_reserved (decision_receipt d) = g_reserved g \<and> r_actual (decision_receipt d) = u_actual u \<and>
    (if exceeds (u_actual u) (g_reserved g) = []
     then r_released (decision_receipt d) + u_actual u = g_reserved g \<and> p_status s' = p_status s
     else r_failure_dimensions (decision_receipt d) = exceeds (u_actual u) (g_reserved g) \<and> p_status s' = FROZEN)"
  by (rule settlement_outcome [OF assms])

definition sample_usage :: resource_usage where
  "sample_usage = \<lparr>u_actual = ResourceVector 4 0 0, u_measured_at = sample_time 16,
     u_measurement_sha256 = sample_hash, u_evidence_sha256 = sample_hash, u_schema_version = SCHEMA_VERSION\<rparr>"

definition sample_settle :: grant_command where
  "sample_settle = sample_start\<lparr>gc_command_id := ''c4'', gc_observed_at := sample_time 17\<rparr>"

lemma sample_started:
  obtains s where "reachable s" "p_grants s = [start_update sample_start (new_grant sample_request)]"
    "cr_command_id ` set (s_command_records s) = {''c1'', ''c2''}"
proof -
  obtain s where s: "reachable s" "p_grants s = [new_grant sample_request]" "cr_command_id ` set (s_command_records s) = {''c1''}"
    by (rule sample_reserved)
  let ?g = "new_grant sample_request" and ?c = "StartGrant sample_start"
  have c: "command_ok ?c" using sample_start_command unfolding post_init_command_Inr .
  have acc: "accepts s ?c (start_args sample_start ?g)"
    by (rule accepts.start)
      (simp_all add: binds_def observes_after_def s(2) sample_start_def new_grant_def
        sample_request_def sample_estimate_def seconds_def)
  have gs: "projected_grants s ?c (a_grant (start_args sample_start ?g)) = Inr [start_update sample_start ?g]"
    by (simp add: projected_grants_def is_request_def args_defs s(2) start_update_def)
  have new: "command_id ?c \<notin> cr_command_id ` set (s_command_records s)"
    by (simp add: s(3)) (simp add: sample_start_def)
  obtain s' where s': "submit s ?c = Inr s'" "p_grants s' = [start_update sample_start ?g]"
    "cr_command_id ` set (s_command_records s') = insert (command_id ?c) (cr_command_id ` set (s_command_records s))"
    by (rule accepted_submit [OF reachable_ok [OF s(1)] c new acc gs])
  have "cr_command_id ` set (s_command_records s') = {''c1'', ''c2''}"
    by (simp add: s'(3) s(3) insert_commute) (simp add: sample_start_def insert_commute)
  with that [OF reachable.submitted [OF s(1) c s'(1)] s'(2)] show thesis by simp
qed

theorem settlement_conserves_witness:
  "\<exists>s s' d. submit s (SettleGrant sample_settle sample_usage) = Inr s' \<and>
     decide s (SettleGrant sample_settle sample_usage) = Inr d \<and> p_spent s' = p_spent s + u_actual sample_usage"
proof -
  obtain s where s: "reachable s" "p_grants s = [start_update sample_start (new_grant sample_request)]"
    "cr_command_id ` set (s_command_records s) = {''c1'', ''c2''}"
    by (rule sample_started)
  have c: "post_init_command (SettleGrant sample_settle sample_usage) = Inr ()"
    unfolding post_init_command_Inr
    by (simp add: sample_settle_def sample_start_def sample_usage_def grant_command_ok_def usage_ok_def text_ok)
  have "admissible s (SettleGrant sample_settle sample_usage)"
    by (simp add: bound_to_def s(2) sample_settle_def sample_start_def sample_usage_def start_update_def
        new_grant_def sample_request_def sample_estimate_def seconds_def)
  moreover have "gc_command_id sample_settle \<notin> cr_command_id ` set (s_command_records s)"
    by (simp add: s(3)) (simp add: sample_settle_def)
  ultimately show ?thesis using settlement_conserves [OF s(1) c] by blast
qed

end
