(* ===== verification/Exec_Properties.thy ===== *)
theory Exec_Properties
  imports Exec_Derive Resource_Properties
begin

text \<open>The properties of the workload-dispatch authority, with their witnesses.\<close>

section \<open>A started workload\<close>

lemma sample_started_facts:
  obtains s rec g rq where "reachable s" "start_facts s rec sample_start g rq" "g_status g = IN_USE"
    "g = start_update sample_start (new_grant sample_request)" "cr_command_id ` set (s_command_records s) = {''c1'', ''c2''}"
proof -
  obtain s where s: "reachable s" "p_grants s = [new_grant sample_request]" "cr_command_id ` set (s_command_records s) = {''c1''}"
    by (rule sample_reserved)
  let ?g = "new_grant sample_request" and ?c = "StartGrant sample_start"
  have c: "command_ok ?c" using sample_start_command unfolding post_init_command_Inr .
  have acc: "accepts s ?c (start_args sample_start ?g)"
    by (rule accepts.start)
      (simp_all add: binds_def observes_after_def s(2) sample_start_def new_grant_def
        sample_request_def sample_estimate_def seconds_def)
  have l: "ledger_ok s" using reachable_ok [OF s(1)] by (simp add: state_ok_def)
  have new: "command_id ?c \<notin> cr_command_id ` set (s_command_records s)"
    by (simp add: s(3)) (simp add: sample_start_def)
  have ch: "chosen s ?c (start_args sample_start ?g)" using acc accepts_complete [OF l c acc] by (simp add: chosen_def)
  obtain q where q: "steps_to s ?c (start_args sample_start ?g) q" using accepts_steps [OF l c acc] ..
  let ?t = "extend_state s q (step_transition s ?c (start_args sample_start ?g) q)"
  have sub: "submit s ?c = Inr ?t" by (rule submit_fresh [OF reachable_ok [OF s(1)] c new ch q])
  have t: "reachable ?t" by (rule reachable.submitted [OF s(1) c sub])
  have gs: "p_grants ?t = [start_update sample_start ?g]"
    using q by (auto simp: steps_to_def extend_state_def projected_grants_def is_request_def args_defs s(2) start_update_def)
  have rec: "record_of (step_transition s ?c (start_args sample_start ?g) q) \<in> set (s_command_records ?t)"
    by (simp add: extend_state_def)
  have st: "is_start_of sample_start (record_of (step_transition s ?c (start_args sample_start ?g) q))"
    by (simp add: is_start_of_def args_defs)
  obtain g rq where f: "start_facts ?t (record_of (step_transition s ?c (start_args sample_start ?g) q)) sample_start g rq"
    by (rule start_facts_exist [OF t rec st])
  then have "g = start_update sample_start ?g" using gs by (auto simp: start_facts_def)
  moreover have "cr_command_id ` set (s_command_records ?t) = {''c1'', ''c2''}"
    by (simp add: extend_state_def s(3) insert_commute) (simp add: sample_start_def insert_commute)
  ultimately show thesis using that [OF t f] by (simp add: start_update_def)
qed

section \<open>Intents\<close>

text \<open>
  The journal backs every accepted start. On a reachable state the recovery identity of an
  accepted \<^verbatim>\<open>StartGrant\<close> can be derived exactly while its grant is in use, cancel-pending or
  awaiting reconciliation; no binding to the record, the grant, the fence, the workload, the
  start time or the accepted request can be missing, and the only error names the status.
\<close>

theorem accepted_start_is_derivable:
  assumes "reachable s" and "rec \<in> set (s_command_records s)"
    and "t_command (cr_transition rec) = StartGrant c" and "r_outcome (cr_receipt rec) = ''in_use''"
  shows "\<exists>g. find_grant s (gc_grant_id c) = Inr g \<and>
    (if g_status g \<in> {IN_USE, CANCEL_PENDING, RECONCILIATION_REQUIRED}
     then \<exists>r. derive_intent_reference s (gc_command_id c) = Inr r \<and> ir_effect_id r = gc_command_id c \<and>
       ir_workload_sha256 r = gc_workload_sha256 c \<and> ir_fence_token r = gc_fence_token c
     else derive_intent_reference s (gc_command_id c) = Inl (InvalidWorkloadDispatchIntent
       (''StartGrant grant status is not dispatch-valid: '' @ grant_status_value (g_status g))))"
proof -
  have "is_start_of c rec" using assms(3,4) by (simp add: is_start_of_def)
  then obtain g rq where f: "start_facts s rec c g rq" by (rule start_facts_exist [OF assms(1,2)])
  from derive_eq [OF reachable_ok [OF assms(1)] f] f show ?thesis
    by (auto simp: RECOVERABLE_GRANT_STATUSES_def start_facts_def reference_of_def material_of_def Let_def)
qed

theorem accepted_start_is_derivable_witness:
  "\<exists>s r. reachable s \<and> derive_intent_reference s (gc_command_id sample_start) = Inr r \<and>
     ir_effect_id r = gc_command_id sample_start"
proof -
  obtain s rec g rq where s: "reachable s" "start_facts s rec sample_start g rq" "g_status g = IN_USE"
    by (rule sample_started_facts)
  then have "rec \<in> set (s_command_records s)" "t_command (cr_transition rec) = StartGrant sample_start"
    "r_outcome (cr_receipt rec) = ''in_use''" "find_grant s (gc_grant_id sample_start) = Inr g"
    by (simp_all add: start_facts_def is_start_of_def)
  with accepted_start_is_derivable [OF s(1) this(1-3)] s show ?thesis by auto
qed

text \<open>
  C22: Recovery finds every unresolved start and nothing else, in journal order: the ids
  discovered on a reachable state are those of the accepted \<^verbatim>\<open>StartGrant\<close> records whose grant
  is still in use, cancel-pending or awaiting reconciliation, and discovery never raises.
\<close>

theorem recovery_is_exact:
  assumes "reachable s"
  shows "recoverable_effect_ids s = Inr (map cr_command_id (filter (unresolved s) (s_command_records s)))"
  using recoverable_over_eq [OF assms subset_refl] by (simp add: recoverable_effect_ids_def)

theorem recovery_is_exact_witness: "recoverable_effect_ids sample_state = Inr []"
  using recovery_is_exact [OF sample_reachable] by (simp add: sample_state_def)

text \<open>
  The identity is stable. As long as it can be derived at all, a start's reference is the
  same in every later state, whatever was submitted in between, so a reference taken before a
  restart still validates.
\<close>

theorem reference_is_stable:
  assumes "reachable s" and "later s t" and "derive_intent_reference s effect_id = Inr r"
    and "derive_intent_reference t effect_id = Inr r'"
  shows "r' = r \<and> validate_intent_reference t r = Inr r"
proof -
  note t = later_reachable [OF assms(2,1)]
  obtain rec c g rq where f: "start_facts s rec c g rq" "gc_command_id c = effect_id" "r = reference_of s (material_of rec c g rq)"
    by (rule derive_Inr [OF assms(1,3)])
  obtain g' where f': "start_facts t rec c g' rq" "same_grant g g'" by (rule start_facts_later [OF assms(1,2) f(1)])
  have "r' = reference_of t (material_of rec c g' rq)"
    using derive_eq [OF reachable_ok [OF t] f'(1)] assms(4) f(2) by (simp split: if_splits)
  then have eq: "r' = r" using reference_stable [OF assms(1,2) f(1) f'(2)] f(3) by simp
  have "ir_effect_id r = effect_id" using f by (simp add: reference_of_def material_of_def Let_def)
  with eq assms(4) show ?thesis by (simp add: validate_intent_reference_def)
qed

theorem reference_is_stable_witness:
  "\<exists>s r. reachable s \<and> derive_intent_reference s (gc_command_id sample_start) = Inr r \<and> validate_intent_reference s r = Inr r"
proof -
  obtain s rec g rq where s: "reachable s" "start_facts s rec sample_start g rq" "g_status g = IN_USE"
    by (rule sample_started_facts)
  have d: "derive_intent_reference s (gc_command_id sample_start) = Inr (reference_of s (material_of rec sample_start g rq))"
    using derive_eq [OF reachable_ok [OF s(1)] s(2)] s(3) by (simp add: RECOVERABLE_GRANT_STATUSES_def)
  from reference_is_stable [OF s(1) later.here d d] d s(1) show ?thesis by blast
qed

section \<open>Permits\<close>

text \<open>
  Permits are short and bounded. A permit minted on a reachable state names an accepted
  start whose grant is in use, carries the current state hash and revision, is issued at the
  observation, lasts at most the requested time and never more than 300 seconds, and never
  outlives its grant: its expiry is the earlier of the two, exactly.
\<close>

theorem minted_permit_is_bounded:
  assumes "reachable s" and "mint_workload_dispatch_permit s a effect_id obs n = Inr p"
  shows "\<exists>g. find_grant s (pm_grant_id p) = Inr g \<and> g_status g = IN_USE \<and> pm_effect_id p = effect_id \<and>
    pm_authority_state_sha256 p = state_sha256 s \<and> pm_authority_revision p = p_revision s \<and>
    pm_issued_at p = obs \<and> 1 \<le> n \<and> n \<le> 300 \<and>
    instant_of (pm_expires_at p) = min (instant_of (g_expires_at g)) (instant_of obs + seconds n) \<and>
    instant_of (pm_issued_at p) < instant_of (pm_expires_at p) \<and> post_init_permit p = Inr ()"
proof -
  obtain rec c g rq where f: "start_facts s rec c g rq" "gc_command_id c = effect_id" "g_status g = IN_USE"
    and au: "require_current_confirmed_authority s a = Inr ()" and n: "1 \<le> n" "n \<le> MAX_PERMIT_TTL_SECONDS"
    and obs: "instant_ok obs" "instant_of obs + seconds n \<le> max_instant"
    and p: "p = permit_of s a (material_of rec c g rq) obs (min (instant_of (g_expires_at g)) (instant_of obs + seconds n))"
      "permit_ok p"
    by (rule mint_Inr [OF assms])
  have "seconds 86400 \<le> min (instant_of (g_expires_at g)) (instant_of obs + seconds n)"
    "min (instant_of (g_expires_at g)) (instant_of obs + seconds n) \<le> max_instant"
    using instant_ok_bounds [OF obs(1)] instant_ok_bounds [OF start_facts_instants(2) [OF f(1)]] n obs
    by (auto simp: seconds_def)
  from instant_of_text [OF this] have e: "instant_of (pm_expires_at p) =
      min (instant_of (g_expires_at g)) (instant_of obs + seconds n)" by (simp add: p(1))
  have "pm_grant_id p = gc_grant_id c" by (simp add: p(1) permit_of_def Let_def)
  with f au [unfolded current_authority] n p e show ?thesis
    by (auto simp: start_facts_def MAX_PERMIT_TTL_SECONDS_def permit_ok_def post_init_permit_Inr)
qed

definition sample_authority :: "resource_state \<Rightarrow> resource_authority" where
  "sample_authority s = \<lparr>au_budget_id = p_budget_id s, au_scope = p_scope s, au_epoch = p_epoch s,
     au_revision = p_revision s, au_state_sha256 = state_sha256 s, au_checkpoint_sha256 = sample_hash,
     au_journal_head_sha256 = sample_hash, au_anchor_status = ''CONFIRMED'', au_schema_version = EXECUTION_SCHEMA_VERSION\<rparr>"

lemma sample_minted:
  obtains s p where "reachable s" "mint_workload_dispatch_permit s (sample_authority s) (gc_command_id sample_start) (sample_time 16) 2 = Inr p"
    "cr_command_id ` set (s_command_records s) = {''c1'', ''c2''}"
proof -
  obtain s rec g rq where s: "reachable s" "start_facts s rec sample_start g rq" "g_status g = IN_USE"
    "g = start_update sample_start (new_grant sample_request)" "cr_command_id ` set (s_command_records s) = {''c1'', ''c2''}"
    by (rule sample_started_facts)
  have "ledger_ok s" using reachable_ok [OF s(1)] by (simp add: state_ok_def)
  then have au: "post_init_authority (sample_authority s) = Inr ()"
    by (simp add: post_init_authority_Inr sample_authority_def ledger_ok_def identity_ok_def)
  have cur: "require_current_confirmed_authority s (sample_authority s) = Inr ()"
    by (simp add: current_authority sample_authority_def)
  have "mint_workload_dispatch_permit s (sample_authority s) (gc_command_id sample_start) (sample_time 16) 2 =
      Inr (permit_of s (sample_authority s) (material_of rec sample_start g rq) (sample_time 16)
        (min (instant_of (g_expires_at g)) (instant_of (sample_time 16) + seconds 2)))"
    by (rule mint_ok(1) [OF reachable_ok [OF s(1)] s(2,3) au cur])
      (simp_all add: s(4) start_update_def new_grant_def sample_start_def sample_request_def seconds_def
        MAX_PERMIT_TTL_SECONDS_def max_instant_value)
  with that s(1,5) show thesis by blast
qed

theorem minted_permit_is_bounded_witness:
  "\<exists>s p. mint_workload_dispatch_permit s (sample_authority s) (gc_command_id sample_start) (sample_time 16) 2 = Inr p \<and>
     instant_of (pm_issued_at p) < instant_of (pm_expires_at p) \<and> post_init_permit p = Inr ()"
proof -
  obtain s p where s: "reachable s" "mint_workload_dispatch_permit s (sample_authority s) (gc_command_id sample_start) (sample_time 16) 2 = Inr p"
    by (rule sample_minted)
  from minted_permit_is_bounded [OF s] s(2) show ?thesis by blast
qed

text \<open>
  Minting succeeds whenever it may. For an accepted start in use, a well-formed confirmed
  authority of exactly this state, a time limit of 1 to 300 seconds and an observation from the
  start until before the grant's expiry, a permit is minted; the one exception is an expiry
  beyond the last representable instant.
\<close>

theorem mint_succeeds:
  assumes "reachable s" and "derive_intent_reference s effect_id = Inr r"
    and "find_grant s (ir_grant_id r) = Inr g" and "g_status g = IN_USE"
    and "post_init_authority a = Inr ()" and "require_current_confirmed_authority s a = Inr ()"
    and "1 \<le> n" and "n \<le> 300" and "instant_ok obs"
    and "instant_of (ir_start_observed_at r) \<le> instant_of obs" and "instant_of obs < instant_of (g_expires_at g)"
  shows "if instant_of obs + seconds n \<le> max_instant
    then \<exists>p. mint_workload_dispatch_permit s a effect_id obs n = Inr p \<and> permit_intent_reference p = Inr r
    else mint_workload_dispatch_permit s a effect_id obs n = Inl (OverflowError ''date value out of range'')"
proof -
  obtain rec c g' rq where f: "start_facts s rec c g' rq" "gc_command_id c = effect_id" "r = reference_of s (material_of rec c g' rq)"
    by (rule derive_Inr [OF assms(1,2)])
  have g: "g' = g" using f assms(3) by (simp add: start_facts_def reference_of_def material_of_def Let_def)
  note s = reachable_ok [OF assms(1)]
  have obs: "instant_of (gc_observed_at c) \<le> instant_of obs" using assms(10) f(3) by (simp add: reference_of_def material_of_def Let_def)
  show ?thesis
  proof (cases "instant_of obs + seconds n \<le> max_instant")
    case True
    let ?p = "permit_of s a (material_of rec c g rq) obs (min (instant_of (g_expires_at g)) (instant_of obs + seconds n))"
    have "mint_workload_dispatch_permit s a effect_id obs n = Inr ?p"
      using mint_ok(1) [OF s f(1) [unfolded g] assms(4-7) _ assms(9) obs assms(11) True] assms(8) f(2)
      by (simp add: MAX_PERMIT_TTL_SECONDS_def)
    moreover have "permit_intent_reference ?p = Inr r"
      using reference_of_ok [OF s f(1)] f(3) g
      by (simp add: permit_intent_reference_def mk_reference_def post_init_reference_Inr ebind_eq_Inr)
    ultimately show ?thesis using True by auto
  next
    case False
    have "start_intent_material s effect_id [IN_USE] = Inr (material_of rec c g rq)"
      using start_material_eq [OF f(1), of "[IN_USE]"] assms(4) f(2) g by simp
    moreover have "require_observation_window (material_of rec c g rq) obs None = Inr ()"
      using observation_window [of "material_of rec c g rq" obs] start_facts_instants [OF f(1)] assms(9,11) obs g by simp
    ultimately show ?thesis
      using False assms(6-9) start_facts_instants(2) [OF f(1)] g
      by (simp add: mint_workload_dispatch_permit_def ebind_exec_utc_instant add_seconds_def raise_if_def exec_integer_def
          MAX_PERMIT_TTL_SECONDS_def)
  qed
qed

lemma sample_derived:
  obtains s r g where "reachable s" "derive_intent_reference s (gc_command_id sample_start) = Inr r"
    "find_grant s (ir_grant_id r) = Inr g" "g_status g = IN_USE" "ir_start_observed_at r = sample_time 15"
    "g_expires_at g = sample_time 20"
proof -
  obtain s rec g rq where s: "reachable s" "start_facts s rec sample_start g rq" "g_status g = IN_USE"
    "g = start_update sample_start (new_grant sample_request)"
    by (rule sample_started_facts)
  have "derive_intent_reference s (gc_command_id sample_start) = Inr (reference_of s (material_of rec sample_start g rq))"
    using derive_eq [OF reachable_ok [OF s(1)] s(2)] s(3) by (simp add: RECOVERABLE_GRANT_STATUSES_def)
  moreover have "find_grant s (ir_grant_id (reference_of s (material_of rec sample_start g rq))) = Inr g"
    using s(2) by (simp add: start_facts_def reference_of_def material_of_def Let_def)
  moreover have "ir_start_observed_at (reference_of s (material_of rec sample_start g rq)) = sample_time 15"
    by (simp add: reference_of_def material_of_def Let_def sample_start_def)
  moreover have "g_expires_at g = sample_time 20"
    by (simp add: s(4) start_update_def new_grant_def sample_request_def)
  ultimately show thesis using that s(1,3) by blast
qed

lemma sample_authority_ok:
  assumes "reachable s"
  shows "post_init_authority (sample_authority s) = Inr ()"
    and "require_current_confirmed_authority s (sample_authority s) = Inr ()"
proof -
  have "ledger_ok s" using reachable_ok [OF assms] by (simp add: state_ok_def)
  then show "post_init_authority (sample_authority s) = Inr ()"
    by (simp add: post_init_authority_Inr sample_authority_def ledger_ok_def identity_ok_def)
  show "require_current_confirmed_authority s (sample_authority s) = Inr ()"
    by (simp add: current_authority sample_authority_def)
qed

theorem mint_succeeds_witness:
  "\<exists>s p r. derive_intent_reference s (gc_command_id sample_start) = Inr r \<and>
     mint_workload_dispatch_permit s (sample_authority s) (gc_command_id sample_start) (sample_time 16) 2 = Inr p \<and>
     permit_intent_reference p = Inr r"
proof -
  obtain s r g where s: "reachable s" "derive_intent_reference s (gc_command_id sample_start) = Inr r"
    "find_grant s (ir_grant_id r) = Inr g" "g_status g = IN_USE" "ir_start_observed_at r = sample_time 15"
    "g_expires_at g = sample_time 20" by (rule sample_derived)
  have "instant_of (sample_time 16) + seconds 2 \<le> max_instant" by (simp add: seconds_def max_instant_value)
  then show ?thesis
    using mint_succeeds [OF s(1-4) sample_authority_ok [OF s(1)], of 2 "sample_time 16"] s(2,5,6) by (auto simp: seconds_def)
qed

text \<open>
  C23: Revalidation is exact. Against the state and authority it was minted under, a permit is
  accepted at exactly the instants from its issue until before its expiry; earlier the
  observation is refused as preceding the issue, later the permit has expired.
\<close>

theorem revalidation_is_exact:
  assumes "reachable s" and "mint_workload_dispatch_permit s a effect_id obs n = Inr p" and "instant_ok t"
  shows "revalidate_workload_dispatch_permit s a p t =
    (if instant_of t < instant_of (pm_issued_at p)
     then Inl (InvalidWorkloadDispatchIntent ''dispatch observation precedes permit issue'')
     else if instant_of t < instant_of (pm_expires_at p) then Inr p
     else Inl (ExpiredWorkloadDispatchPermit ''workload-dispatch authority expired before effect execution''))"
proof -
  obtain rec c g rq where f: "start_facts s rec c g rq" "g_status g = IN_USE"
    and au: "require_current_confirmed_authority s a = Inr ()"
    and p: "p = permit_of s a (material_of rec c g rq) obs (min (instant_of (g_expires_at g)) (instant_of obs + seconds n))"
      "permit_ok p"
    by (rule mint_Inr [OF assms(1,2)])
  show ?thesis
    unfolding p(1) permit_of_sel
    by (rule revalidate_minted [OF reachable_ok [OF assms(1)] f au p(2) [unfolded p(1)] assms(3)])
qed

theorem revalidation_is_exact_witness:
  "\<exists>s p. mint_workload_dispatch_permit s (sample_authority s) (gc_command_id sample_start) (sample_time 16) 2 = Inr p \<and>
     revalidate_workload_dispatch_permit s (sample_authority s) p (sample_time 16) = Inr p"
proof -
  obtain s p where s: "reachable s" "mint_workload_dispatch_permit s (sample_authority s) (gc_command_id sample_start) (sample_time 16) 2 = Inr p"
    by (rule sample_minted)
  have "\<not> instant_of (sample_time 16) < instant_of (pm_issued_at p)" "instant_of (sample_time 16) < instant_of (pm_expires_at p)"
    by (rule mint_Inr [OF s]; simp only: permit_ok_def permit_of_sel; simp)+
  then show ?thesis using revalidation_is_exact [OF s, of "sample_time 16"] s(2) by auto
qed

text \<open>
  A permit dies with its state. Once anything more has been recorded in the journal, no
  authority for the new state revalidates a permit minted before.
\<close>

theorem permit_is_stale_after_change:
  assumes "reachable s" and "mint_workload_dispatch_permit s a effect_id obs n = Inr p" and "later s t"
    and "s_command_records t \<noteq> s_command_records s"
  shows "revalidate_workload_dispatch_permit t a' p obs' \<noteq> Inr p'"
proof
  assume r: "revalidate_workload_dispatch_permit t a' p obs' = Inr p'"
  have "pm_authority_revision p = p_revision t" by (rule revalidate_Inr(3) [OF r])
  moreover have "pm_authority_revision p = p_revision s"
    by (rule mint_Inr [OF assms(1,2)]) (simp add: current_authority)
  ultimately show False using later_revision [OF assms(3) reachable_ok [OF assms(1)]] assms(4) by simp
qed

theorem permit_is_stale_after_change_witness:
  "\<exists>s p t. mint_workload_dispatch_permit s (sample_authority s) (gc_command_id sample_start) (sample_time 16) 2 = Inr p \<and>
     later s t \<and> revalidate_workload_dispatch_permit t (sample_authority t) p (sample_time 16) \<noteq> Inr p"
proof -
  obtain s p where s: "reachable s" "mint_workload_dispatch_permit s (sample_authority s) (gc_command_id sample_start) (sample_time 16) 2 = Inr p"
    "cr_command_id ` set (s_command_records s) = {''c1'', ''c2''}"
    by (rule sample_minted)
  let ?c = "RequestGrant (sample_request\<lparr>rq_command_id := ''c9''\<rparr>)"
  have c: "command_ok ?c" using sample_request_ok by (simp add: request_ok_def text_ok)
  have "command_id ?c \<notin> cr_command_id ` set (s_command_records s)" by (simp add: s(3))
  then obtain a q where t: "submit s ?c = Inr (extend_state s q (step_transition s ?c a q))"
    by (rule decide_fresh_command [OF reachable_ok [OF s(1)] c])
  have l: "later s (extend_state s q (step_transition s ?c a q))" by (rule later.there [OF later.here c t])
  have "s_command_records (extend_state s q (step_transition s ?c a q)) \<noteq> s_command_records s" by (simp add: extend_state_def)
  from permit_is_stale_after_change [OF s(1,2) l this] s(2) l show ?thesis by blast
qed

end
