(* ===== verification/Build_Properties.thy ===== *)
theory Build_Properties
  imports Build_Facts Exec_Properties
begin

text \<open>The properties of the build contracts, with their witnesses; the last joins them to the resource kernel.\<close>

section \<open>Identity\<close>

lemma printable_sha256_hex: "list_all printable_char (sha256_hex bs)"
proof -
  have "printable_char c" if "c \<in> set ''0123456789abcdef''" for c using that by (auto simp: printable_char_def)
  then show ?thesis unfolding list_all_iff using sha256_hex_chars by blast
qed

lemma identity_fields_ok:
  "list_all printable_char p \<Longrightarrow> p \<noteq> [] \<Longrightarrow> length p \<le> 192 \<Longrightarrow> identifier_ok (p @ sha256_hex bs)"
  "list_all printable_char p \<Longrightarrow> p \<noteq> [] \<Longrightarrow> length p \<le> 192 \<Longrightarrow> identifier_ok (p @ take n (sha256_hex bs))"
proof -
  have "list_all printable_char (take n (sha256_hex bs))"
    using printable_sha256_hex [of bs] unfolding list_all_iff by (meson in_set_takeD)
  then show "list_all printable_char p \<Longrightarrow> p \<noteq> [] \<Longrightarrow> length p \<le> 192 \<Longrightarrow> identifier_ok (p @ sha256_hex bs)"
    "list_all printable_char p \<Longrightarrow> p \<noteq> [] \<Longrightarrow> length p \<le> 192 \<Longrightarrow> identifier_ok (p @ take n (sha256_hex bs))"
    using printable_sha256_hex [of bs] by (simp_all add: identifier_ok_def str_isprintable_def)
qed

lemma identity_checked:
  "post_init_identity \<lparr>ib_identity_sha256 = sha256_hex bs, ib_scope = ''harness-build:'' @ sha256_hex cs,
     ib_effect_id = ''build:'' @ sha256_hex bs, ib_grant_id = ''grant:'' @ sha256_hex bs,
     ib_request_command_id = ''request:'' @ sha256_hex bs, ib_work_id = ''work:'' @ sha256_hex bs,
     ib_attempt_id = ''attempt:'' @ sha256_hex bs, ib_budget_id = ''budget:'' @ sha256_hex ds,
     ib_permit_issuer = ''lakatotree:harness-build:'' @ take 24 (sha256_hex bs)\<rparr> = Inr ()"
  unfolding post_init_identity_def run_checks_Inr identity_bundle.simps list.pred_inject require_sha256_Inr require_identifier_Inr
  by (intro conjI sha256_hex64 identity_fields_ok TrueI; simp add: printable_char_def)

lemma derive_identity_Inr:
  "(\<exists>b. derive_identity tree tag w = Inr b) \<longleftrightarrow> tree \<noteq> [] \<and> NUL \<notin> set tree \<and> tag \<noteq> [] \<and> NUL \<notin> set tag \<and> hex64_ok w"
  unfolding derive_identity_def Let_def identity_checked ebind_eq_Inr by (auto simp: check_simps result_simps)

text \<open>
  A workload identity is taken of bytes that determine the specification: two specifications
  with the same canonical bytes are equal, so builds with the same identity are the same build or
  collide under SHA-256.
\<close>

theorem workload_bytes_determine_spec:
  "workload_preimage s = workload_preimage q \<longleftrightarrow> s = q"
  by (rule workload_preimage_inject)

text \<open>
  Deriving the durable identifiers of a build succeeds exactly for a non-empty tree and tag
  without NUL and a well-formed workload hash, and the NUL-delimited bytes it hashes determine all
  three, so distinct builds never share the bytes of their identity.
\<close>

theorem identity_framing_is_unambiguous:
  assumes "derive_identity tree tag w = Inr b"
  shows "tree \<noteq> [] \<and> NUL \<notin> set tree \<and> tag \<noteq> [] \<and> NUL \<notin> set tag \<and> hex64_ok w \<and>
    ((\<exists>b'. derive_identity tree' tag' w' = Inr b') \<and> identity_preimage tree' tag' w' = identity_preimage tree tag w
      \<longleftrightarrow> tree' = tree \<and> tag' = tag \<and> w' = w)"
proof -
  have ok: "tree \<noteq> [] \<and> NUL \<notin> set tree \<and> tag \<noteq> [] \<and> NUL \<notin> set tag \<and> hex64_ok w"
    using derive_identity_Inr assms by blast
  moreover have "tree' = tree \<and> tag' = tag \<and> w' = w"
    if "\<exists>b'. derive_identity tree' tag' w' = Inr b'" "identity_preimage tree' tag' w' = identity_preimage tree tag w"
    using identity_preimage_inject [OF _ _ _ _ that(2)] that(1) ok unfolding derive_identity_Inr by blast
  ultimately show ?thesis using assms by blast
qed

theorem identity_framing_is_unambiguous_witness:
  "\<exists>b. derive_identity ''t'' ''g'' sample_hash = Inr b \<and> identity_preimage ''t'' ''h'' sample_hash \<noteq> identity_preimage ''t'' ''g'' sample_hash"
proof -
  have h: "hex64_ok sample_hash" by code_simp
  have "\<exists>b. derive_identity ''t'' ''g'' sample_hash = Inr b" unfolding derive_identity_Inr using h by simp
  then obtain b where b: "derive_identity ''t'' ''g'' sample_hash = Inr b" by blast
  have "\<exists>b. derive_identity ''t'' ''h'' sample_hash = Inr b" unfolding derive_identity_Inr using h by simp
  with identity_framing_is_unambiguous [OF b, of "''t''" "''h''" sample_hash] b show ?thesis by simp
qed

section \<open>Results\<close>

text \<open>
  A stored result is what was stored. If \<^verbatim>\<open>from_dict\<close> accepts a value, the value is
  a dict with the same entries as the \<^verbatim>\<open>to_dict\<close> of the result, reading that
  \<^verbatim>\<open>to_dict\<close> again gives the same result, and the constructor accepts it.
\<close>

theorem result_dict_roundtrip:
  assumes "result_from_dict j = Inr r"
  shows "(\<exists>kvs. j = JObj kvs \<and> same_dict kvs (result_items r)) \<and>
    result_from_dict (result_to_dict r) = Inr r \<and> mk_result r = Inr r"
proof -
  from assms have r: "result_ok r" "\<exists>kvs. j = JObj kvs \<and> same_dict kvs (result_items r)"
    unfolding result_from_dict_Inr by blast+
  have "same_dict (result_items r) (result_items r)" by (simp add: same_dict_def)
  then have "result_from_dict (result_to_dict r) = Inr r"
    unfolding result_from_dict_Inr result_to_dict_def using r(1) by blast
  with r show ?thesis unfolding mk_result_Inr by blast
qed

definition sample_result :: execution_result where
  "sample_result =
     \<lparr>er_effect_id = ''build:1'', er_workload_sha256 = sample_hash, er_intent_sha256 = sample_hash, er_fence_token = 1,
      er_status = EXITED, er_returncode = Some 0, er_started_at = sample_time 15, er_completed_at = sample_time 16,
      er_elapsed_monotonic_ns = 3500000, er_compute_wall_ms = JInt 4, er_stdout_sha256 = sample_hash,
      er_stderr_sha256 = sample_hash, er_stdout_bytes = 0, er_stderr_bytes = 0, er_output_tail = [],
      er_schema_version = BUILD_EXECUTION_SCHEMA_VERSION, er_measurement_method = ''m''\<rparr>"

lemma sample_result_ok: "result_ok sample_result"
proof -
  have "hex64_ok sample_hash" by code_simp
  then show ?thesis
    by (simp add: result_ok_def sample_result_def text_ok forced_stop_def seconds_def expected_wall_ms_def equals_int_def
        utf8_encode_def LEGACY_BUILD_EXECUTION_SCHEMA_VERSION_def BUILD_EXECUTION_SCHEMA_VERSION_def)
qed

lemma sample_result_read: "result_from_dict (result_to_dict sample_result) = Inr sample_result"
  unfolding result_from_dict_Inr result_to_dict_def using sample_result_ok by (simp add: same_dict_def)

theorem result_dict_roundtrip_witness:
  "result_from_dict (result_to_dict sample_result) = Inr sample_result \<and> mk_result sample_result = Inr sample_result"
  using result_dict_roundtrip [OF sample_result_read] by blast

text \<open>
  The one field whose type the constructor leaves unchecked: a stored \<^verbatim>\<open>true\<close> passes for
  one millisecond, and the accepted result has no usage to settle with.
\<close>

lemma boolean_time_has_no_usage:
  "\<exists>r. result_from_dict (result_to_dict r) = Inr r \<and> result_usage r = Inl (ValueError ''compute.wall_ms must be an integer >= 0'')"
proof -
  let ?r = "sample_result\<lparr>er_elapsed_monotonic_ns := 1, er_compute_wall_ms := JBool True\<rparr>"
  have "result_ok ?r" using sample_result_ok by (simp add: result_ok_def equals_int_def expected_wall_ms_def)
  then have "result_from_dict (result_to_dict ?r) = Inr ?r"
    unfolding result_from_dict_Inr result_to_dict_def by (simp add: same_dict_def)
  moreover have "result_usage ?r = Inl (ValueError ''compute.wall_ms must be an integer >= 0'')"
    by (simp add: result_usage_def wall_vector_def)
  ultimately show ?thesis by blast
qed

section \<open>Time\<close>

lemma post_init_admission_Inr:
  assumes "post_init_admission_policy p = Inr ()"
  shows "1 \<le> ap_maximum_timeout_seconds p" "ap_maximum_timeout_seconds p \<le> 604800" "1 \<le> ap_minimum_grant_ttl_seconds p"
    "ap_minimum_grant_ttl_seconds p \<le> 1209600" "0 \<le> ap_grant_ttl_slack_seconds p" "ap_grant_ttl_slack_seconds p \<le> 604800"
  using assms by (simp_all add: post_init_admission_policy_def check_simps result_simps)

lemma post_init_spec_times:
  assumes "post_init_spec s = Inr ()"
  shows "1 \<le> es_timeout_seconds s" "es_timeout_seconds s \<le> 604800"
    "1 \<le> es_process_cleanup_grace_ms s" "es_process_cleanup_grace_ms s \<le> 60000"
  using assms by (simp_all add: post_init_spec_def check_simps result_simps)

text \<open>
  C39: A grant outlives its build. For a valid policy and a valid specification the admission
  policy names a time to live exactly if the timeout is within the policy's maximum; that time
  covers the reserved compute time, clean-up included, plus the policy's slack, is at least the
  policy's minimum, and never exceeds 1209660 seconds.
\<close>

theorem grant_outlives_build:
  assumes "post_init_admission_policy p = Inr ()" and "post_init_spec s = Inr ()"
  shows "case grant_ttl_seconds p (es_timeout_seconds s) (es_process_cleanup_grace_ms s) of
      Inl e \<Rightarrow> ap_maximum_timeout_seconds p < es_timeout_seconds s
    | Inr ttl \<Rightarrow> es_timeout_seconds s \<le> ap_maximum_timeout_seconds p \<and>
        reserved_compute_wall_ms s + ap_grant_ttl_slack_seconds p * 1000 \<le> ttl * 1000 \<and>
        ap_minimum_grant_ttl_seconds p \<le> ttl \<and> ttl \<le> 1209660"
proof -
  note p = post_init_admission_Inr [OF assms(1)] and s = post_init_spec_times [OF assms(2)]
  let ?g = "es_process_cleanup_grace_ms s" and ?t = "es_timeout_seconds s"
  have grace: "?g \<le> (?g + 999) div 1000 * 1000" "(?g + 999) div 1000 \<le> 60" using s by linarith+
  show ?thesis
  proof (cases "?t \<le> ap_maximum_timeout_seconds p")
    case True
    then have "grant_ttl_seconds p ?t ?g = Inr (max (ap_minimum_grant_ttl_seconds p) (?t + (?g + 999) div 1000 + ap_grant_ttl_slack_seconds p))"
      using s by (simp add: grant_ttl_seconds_def validate_timeout_def bounded_integer_def Let_def)
    then show ?thesis using True grace p s by (auto simp: reserved_compute_wall_ms_def max_def)
  next
    case False
    then have "\<exists>e. grant_ttl_seconds p ?t ?g = Inl e"
      by (auto simp: grant_ttl_seconds_def validate_timeout_def)
    then show ?thesis using False by auto
  qed
qed

definition sample_spec :: execution_spec where
  "sample_spec =
     \<lparr>es_command = ''make'', es_cwd = ''/w'', es_shell = ''/bin/sh'', es_timeout_seconds = 600, es_environment_sha256 = sample_hash,
      es_input_manifest_sha256 = sample_hash, es_isolation_adapter = ''none'', es_isolation_version = ''1'',
      es_isolation_policy_sha256 = sample_hash, es_execution_policy_sha256 = sample_hash, es_process_cleanup_grace_ms = 1000,
      es_stream_capture_strategy = SPLIT_STREAM_CAPTURE_STRATEGY, es_output_tail_bytes = 65536, es_max_output_bytes = 16777216,
      es_provider_calls = ''forbidden'', es_schema_version = BUILD_EXECUTION_SCHEMA_VERSION, es_adapter = LOCAL_BUILD_ADAPTER,
      es_adapter_version = LOCAL_BUILD_ADAPTER_VERSION\<rparr>"

lemma sample_spec_ok: "post_init_spec sample_spec = Inr ()"
proof -
  have h: "hex64_ok sample_hash" by code_simp
  have a: "identifier_ok LOCAL_BUILD_ADAPTER" "identifier_ok LOCAL_BUILD_ADAPTER_VERSION"
    by (simp_all add: LOCAL_BUILD_ADAPTER_def LOCAL_BUILD_ADAPTER_VERSION_def text_ok)
  have c: "length (utf8_encode ''make'') = 4" by (simp add: utf8_encode_def utf8_char_def Let_def)
  show ?thesis
    using h a c by (simp add: post_init_spec_def sample_spec_def check_simps result_simps check_spec_path_def is_absolute_path_def text_ok)
qed

theorem grant_outlives_build_witness:
  "\<exists>ttl. grant_ttl_seconds DEFAULT_BUILD_ADMISSION_POLICY (es_timeout_seconds sample_spec) (es_process_cleanup_grace_ms sample_spec) = Inr ttl \<and>
     reserved_compute_wall_ms sample_spec \<le> ttl * 1000"
proof -
  have p: "post_init_admission_policy DEFAULT_BUILD_ADMISSION_POLICY = Inr ()"
    by (simp add: post_init_admission_policy_def DEFAULT_BUILD_ADMISSION_POLICY_def check_simps result_simps check_allowlist_def)
  have "ap_maximum_timeout_seconds DEFAULT_BUILD_ADMISSION_POLICY = 86400" "es_timeout_seconds sample_spec = 600"
    "ap_grant_ttl_slack_seconds DEFAULT_BUILD_ADMISSION_POLICY = 60"
    by (simp_all add: DEFAULT_BUILD_ADMISSION_POLICY_def sample_spec_def)
  with grant_outlives_build [OF p sample_spec_ok] show ?thesis
    by (cases "grant_ttl_seconds DEFAULT_BUILD_ADMISSION_POLICY (es_timeout_seconds sample_spec) (es_process_cleanup_grace_ms sample_spec)") auto
qed

section \<open>Settlement\<close>

lemma result_usage_total:
  assumes "result_ok r" and "er_compute_wall_ms r = JInt i"
  shows "\<exists>u. result_usage r = Inr u"
proof -
  have i: "i = expected_wall_ms (er_elapsed_monotonic_ns r)" "0 \<le> er_elapsed_monotonic_ns r" "instant_ok (er_completed_at r)"
    using assms by (simp_all add: result_ok_def equals_int_def)
  then have "0 \<le> i" using expected_wall_ms_nonneg by simp
  then have "wall_vector (er_compute_wall_ms r) = Inr (ResourceVector (nat i) 0 0)"
    by (simp add: wall_vector_def mk_resource_vector_def assms(2) check_integer_def)
  moreover have "sha256_ok (domain_sha d j)" for d j unfolding domain_sha_def by (intro hex64_ok_sha256_ok sha256_hex64)
  ultimately show ?thesis
    unfolding result_usage_def by (simp add: mk_usage_def ebind_eq_Inr check_simps usage_ok_def i evidence_sha256_def)
qed

text \<open>
  C40: A build within its reservation settles without harm. When an accepted result whose elapsed
  time is within the compute reservation of its grant is settled by an admissible command with a
  new identity, the submission succeeds, the budget keeps its status, and it is charged the
  elapsed time rounded up to milliseconds and no tokens.
\<close>

theorem build_settles_within_reservation:
  assumes "reachable s" and "result_from_dict j = Inr r" and "result_usage r = Inr u"
    and "find_grant s (gc_grant_id c) = Inr g"
    and "er_elapsed_monotonic_ns r \<le> int (compute_wall_ms (g_reserved g)) * 1000000"
    and "post_init_grant_command c = Inr ()" and "gc_command_id c \<notin> cr_command_id ` set (s_command_records s)"
    and "admissible s (SettleGrant c u)"
  shows "\<exists>s'. submit s (SettleGrant c u) = Inr s' \<and> p_status s' = p_status s \<and>
    p_spent s' = p_spent s + ResourceVector (nat (expected_wall_ms (er_elapsed_monotonic_ns r))) 0 0"
proof -
  have r: "result_ok r" using assms(2) unfolding result_from_dict_Inr by blast
  note u = result_usage_Inr [OF r assms(3)]
  have "post_init_command (SettleGrant c u) = Inr ()"
    using assms(6) iffD2 [OF post_init_usage_Inr u(1)] by simp
  from settlement_outcome [OF assms(1) this assms(7,8)] assms(4) obtain s' where s':
    "submit s (SettleGrant c u) = Inr s'" "p_spent s' = p_spent s + u_actual u"
    "exceeds (u_actual u) (g_reserved g) = [] \<Longrightarrow> p_status s' = p_status s" by (auto split: if_splits)
  have "u_actual u \<le> g_reserved g"
    using assms(5) expected_wall_ms_ceiling [of "er_elapsed_monotonic_ns r" "int (compute_wall_ms (g_reserved g))"]
    by (simp add: u(2) less_eq_resource_vector_def nat_le_iff)
  with s' u(2) show ?thesis by (simp add: exceeds_Nil_iff)
qed

theorem build_settles_within_reservation_witness:
  "\<exists>s u s'. result_usage sample_result = Inr u \<and> submit s (SettleGrant sample_settle u) = Inr s' \<and> p_status s' = p_status s"
proof -
  obtain s where s: "reachable s" "p_grants s = [start_update sample_start (new_grant sample_request)]"
    "cr_command_id ` set (s_command_records s) = {''c1'', ''c2''}" by (rule sample_started)
  obtain u where u: "result_usage sample_result = Inr u"
    using result_usage_total [OF sample_result_ok] by (auto simp: sample_result_def)
  have g: "find_grant s (gc_grant_id sample_settle) = Inr (start_update sample_start (new_grant sample_request))"
    by (simp add: find_grant_def s(2) sample_settle_def sample_start_def start_update_def new_grant_def sample_request_def)
  have e: "er_elapsed_monotonic_ns sample_result \<le>
    int (compute_wall_ms (g_reserved (start_update sample_start (new_grant sample_request)))) * 1000000"
    by (simp add: sample_result_def start_update_def new_grant_def sample_request_def sample_estimate_def)
  have c: "post_init_grant_command sample_settle = Inr ()"
    by (simp add: post_init_grant_command_def check_simps sample_settle_def sample_start_def text_ok ebind_eq_Inr)
  have n: "gc_command_id sample_settle \<notin> cr_command_id ` set (s_command_records s)"
    by (simp add: s(3)) (simp add: sample_settle_def)
  have "u_measured_at u = sample_time 16" using result_usage_Inr(3) [OF sample_result_ok u] by (simp add: sample_result_def)
  then have a: "admissible s (SettleGrant sample_settle u)"
    by (simp add: bound_to_def s(2) sample_settle_def sample_start_def start_update_def
        new_grant_def sample_request_def sample_estimate_def seconds_def)
  from build_settles_within_reservation [OF s(1) sample_result_read u g e c n a] u show ?thesis by blast
qed

end
