(* ===== verification/Verdict_Registry.thy ===== *)
theory Verdict_Registry
  imports Py_Text Py_Sha256
begin

text \<open>
  The verdict vocabulary of \<^verbatim>\<open>lakatos/verdicts.py\<close>: the registries, the sets the
  consumers classify by, and the membership predicates. A \<^verbatim>\<open>frozenset\<close> of words is a
  \<open>string set\<close>, a tuple a list.
\<close>

section \<open>The registries\<close>

definition SCRIPTED_VERDICTS :: "string set" where
  "SCRIPTED_VERDICTS = {''progressive'', ''partial'', ''equivalent'', ''rejected''}"

definition ADMIN_VERDICTS :: "string set" where
  "ADMIN_VERDICTS =
     {''CANONICAL'', ''canonical_stage'', ''former_canonical'', ''proof'', ''superseded'',
      ''CANONICAL_KNOWLEDGE'', ''repurposed_measurement''}"

definition KNOWLEDGE_VERDICTS :: "string set" where
  "KNOWLEDGE_VERDICTS = {''CANONICAL_KNOWLEDGE''}"

definition ENGINE_VERDICTS :: "string set" where
  "ENGINE_VERDICTS =
     {''progressive'', ''progressive_conditional'', ''progressive_unverified'', ''degenerating'',
      ''withdrawn'', ''different_programme'', ''ambiguous''}"

definition REBUILD_VERDICTS :: "string set" where
  "REBUILD_VERDICTS =
     {''rebuildable'', ''rebuildable_static'', ''progressive_conditional'', ''metric_mismatch'',
      ''env_drift'', ''step_failed''}"

definition VERDICT_REGISTRY :: "string set" where
  "VERDICT_REGISTRY = SCRIPTED_VERDICTS \<union> ADMIN_VERDICTS \<union> ENGINE_VERDICTS \<union> REBUILD_VERDICTS"

section \<open>Progress and its consumers\<close>

definition PROGRESS_VERDICTS :: "string set" where
  "PROGRESS_VERDICTS = {''progressive'', ''progressive_conditional'', ''CANONICAL'', ''former_canonical''}"

definition NONPROGRESSIVE_VERDICTS :: "string set" where
  "NONPROGRESSIVE_VERDICTS =
     {''rejected'', ''partial'', ''equivalent'', ''degenerating'', ''withdrawn'', ''different_programme''}"

definition CONFIRMED_NOVEL_PROGRESS :: "string set" where
  "CONFIRMED_NOVEL_PROGRESS = {''progressive''}"

definition QUESTION_ANSWER_VERDICTS :: "string set" where
  "QUESTION_ANSWER_VERDICTS = {''progressive'', ''rejected''}"

definition CANONICAL_STATE_VERDICTS :: "string set" where
  "CANONICAL_STATE_VERDICTS = {''CANONICAL'', ''canonical_stage''}"

definition SCORED_PROGRESS_VERDICTS :: "string set" where
  "SCORED_PROGRESS_VERDICTS = {''progressive'', ''progressive_conditional''}"

definition FRONTIER_EXPLANATION_VERDICTS :: "string set" where
  "FRONTIER_EXPLANATION_VERDICTS =
     {''partial'', ''rejected'', ''degenerating'', ''ambiguous'', ''metric_mismatch'', ''env_drift'',
      ''step_failed''}"

definition FRONTIER_PROGRESS_VERDICTS :: "string set" where
  "FRONTIER_PROGRESS_VERDICTS = {''CANONICAL'', ''progressive'', ''progressive_conditional''}"

definition TESTED_CORE_VERDICTS :: "string set" where
  "TESTED_CORE_VERDICTS = {''CANONICAL'', ''progressive''}"

definition DEMOTABLE_PROGRESS_VERDICTS :: "string list" where
  "DEMOTABLE_PROGRESS_VERDICTS = [''progressive'', ''progressive_conditional'', ''progressive_unverified'']"

definition SERIES_PROGRESS_VERDICTS :: "string set" where
  "SERIES_PROGRESS_VERDICTS = {''progressive''}"

definition SERIES_NONPROGRESS_VERDICTS :: "string set" where
  "SERIES_NONPROGRESS_VERDICTS = {''partial'', ''equivalent'', ''rejected'', ''degenerating''}"

definition SERIES_OFF_AXIS_VERDICTS :: "string set" where
  "SERIES_OFF_AXIS_VERDICTS = {''different_programme'', ''withdrawn''}"

definition SERIES_NEUTRAL_VERDICTS :: "string set" where
  "SERIES_NEUTRAL_VERDICTS = {''progressive_unverified''}"

definition SERIES_KNOWN_VERDICTS :: "string set" where
  "SERIES_KNOWN_VERDICTS =
     SERIES_PROGRESS_VERDICTS \<union> SERIES_NONPROGRESS_VERDICTS \<union> SERIES_OFF_AXIS_VERDICTS \<union> SERIES_NEUTRAL_VERDICTS"

definition REJECTING_VERDICTS :: "string set" where
  "REJECTING_VERDICTS = {''rejected'', ''degenerating'', ''withdrawn''}"

definition STANDING_VERDICTS :: "string set" where
  "STANDING_VERDICTS =
     {''progressive'', ''progressive_conditional'', ''progressive_unverified'', ''partial'', ''CANONICAL''}"

definition SCRIPTED_DIALECTICAL_VERDICTS :: "string set" where
  "SCRIPTED_DIALECTICAL_VERDICTS = {''progressive_unverified''}"

definition METRIC_IMPROVED_FAMILY_VERDICTS :: "string list" where
  "METRIC_IMPROVED_FAMILY_VERDICTS = [''progressive'', ''progressive_unverified'', ''partial'']"

definition DIALECTIC_OVERRIDE_VERDICTS :: "string list" where
  "DIALECTIC_OVERRIDE_VERDICTS = [''degenerating'', ''withdrawn'', ''different_programme'']"

definition PNR_CONDITIONAL_SOURCE_VERDICTS :: "string list" where
  "PNR_CONDITIONAL_SOURCE_VERDICTS = [''progressive'', ''progressive_unverified'']"

section \<open>Membership predicates\<close>

definition is_progress_verdict :: "string \<Rightarrow> bool" where
  "is_progress_verdict v \<longleftrightarrow> v \<in> PROGRESS_VERDICTS"

definition is_nonprogressive_verdict :: "string \<Rightarrow> bool" where
  "is_nonprogressive_verdict v \<longleftrightarrow> v \<in> NONPROGRESSIVE_VERDICTS"

definition str_startswith :: "string \<Rightarrow> string \<Rightarrow> bool" where
  "str_startswith s p \<longleftrightarrow> take (length p) s = p"

definition is_admin_verdict :: "string \<Rightarrow> bool" where
  "is_admin_verdict v \<longleftrightarrow> v \<in> ADMIN_VERDICTS \<or> str_startswith v ''repurposed_''"

definition is_scripted_verdict :: "string \<Rightarrow> bool" where
  "is_scripted_verdict v \<longleftrightarrow> v \<in> SCRIPTED_VERDICTS"

definition is_engine_verdict :: "string \<Rightarrow> bool" where
  "is_engine_verdict v \<longleftrightarrow> v \<in> ENGINE_VERDICTS \<or> v \<in> REBUILD_VERDICTS"

definition is_self_report_blocked_verdict :: "string \<Rightarrow> bool" where
  "is_self_report_blocked_verdict v \<longleftrightarrow>
     is_scripted_verdict v \<or> is_engine_verdict v \<or> v \<in> PROGRESS_VERDICTS"

definition is_registered_verdict :: "string \<Rightarrow> bool" where
  "is_registered_verdict v \<longleftrightarrow> v \<in> VERDICT_REGISTRY"

lemmas registry_defs =
  SCRIPTED_VERDICTS_def ADMIN_VERDICTS_def KNOWLEDGE_VERDICTS_def ENGINE_VERDICTS_def
  REBUILD_VERDICTS_def VERDICT_REGISTRY_def PROGRESS_VERDICTS_def NONPROGRESSIVE_VERDICTS_def
  CONFIRMED_NOVEL_PROGRESS_def QUESTION_ANSWER_VERDICTS_def CANONICAL_STATE_VERDICTS_def
  SCORED_PROGRESS_VERDICTS_def FRONTIER_EXPLANATION_VERDICTS_def FRONTIER_PROGRESS_VERDICTS_def
  TESTED_CORE_VERDICTS_def DEMOTABLE_PROGRESS_VERDICTS_def SERIES_PROGRESS_VERDICTS_def
  SERIES_NONPROGRESS_VERDICTS_def SERIES_OFF_AXIS_VERDICTS_def SERIES_NEUTRAL_VERDICTS_def
  SERIES_KNOWN_VERDICTS_def REJECTING_VERDICTS_def STANDING_VERDICTS_def
  SCRIPTED_DIALECTICAL_VERDICTS_def METRIC_IMPROVED_FAMILY_VERDICTS_def
  DIALECTIC_OVERRIDE_VERDICTS_def PNR_CONDITIONAL_SOURCE_VERDICTS_def

lemmas verdict_predicates =
  is_progress_verdict_def is_nonprogressive_verdict_def is_admin_verdict_def is_scripted_verdict_def
  is_engine_verdict_def is_self_report_blocked_verdict_def is_registered_verdict_def

end
