(* ===== verification/Argue.thy ===== *)
theory Argue
  imports Py_Text Verdict_Registry
begin

text \<open>
  \<^verbatim>\<open>lakatos/verdict/argue.py\<close>: abstract argumentation frameworks. An argument is a
  string, a framework a set of arguments and a list of attacks. The dictionary
  \<^verbatim>\<open>attackers\<close> is a map; \<^verbatim>\<open>attackers.get(a, set())\<close> is \<open>attackers_of\<close>. The
  loop of \<^verbatim>\<open>grounded_extension\<close> is a \<open>partial_function\<close>, so that its termination is a
  statement about it.
\<close>

section \<open>The grounded extension\<close>

type_synonym attackers = "string \<Rightarrow> string set option"

definition attackers_of :: "attackers \<Rightarrow> string \<Rightarrow> string set" where
  "attackers_of att a = (case att a of None \<Rightarrow> {} | Some S \<Rightarrow> S)"

definition defended :: "string \<Rightarrow> string set \<Rightarrow> attackers \<Rightarrow> bool" where
  "defended arg S att \<longleftrightarrow> (\<forall>atk \<in> attackers_of att arg. S \<inter> attackers_of att atk \<noteq> {})"

fun add_attacks :: "(string \<times> string) list \<Rightarrow> attackers \<Rightarrow> attackers" where
  "add_attacks [] att = att"
| "add_attacks ((u, v) # es) att =
     add_attacks es (case att v of None \<Rightarrow> att | Some S \<Rightarrow> att(v \<mapsto> insert u S))"

definition attackers_dict :: "string set \<Rightarrow> (string \<times> string) list \<Rightarrow> attackers" where
  "attackers_dict arguments attacks = add_attacks attacks (\<lambda>a. if a \<in> arguments then Some {} else None)"

partial_function (option) grounded_loop :: "string set \<Rightarrow> attackers \<Rightarrow> string set \<Rightarrow> string set option" where
  "grounded_loop arguments att S =
     (let nxt = Set.filter (\<lambda>a. defended a S att) arguments
      in if nxt = S then Some S else grounded_loop arguments att nxt)"

definition grounded_extension :: "string set \<Rightarrow> (string \<times> string) list \<Rightarrow> string set option" where
  "grounded_extension arguments attacks = grounded_loop arguments (attackers_dict arguments attacks) {}"

definition verdict_stands :: "string \<Rightarrow> string set \<Rightarrow> (string \<times> string) list \<Rightarrow> bool option" where
  "verdict_stands verdict_arg arguments attacks =
     map_option (\<lambda>E. verdict_arg \<in> E) (grounded_extension arguments attacks)"

definition grounded_extension_agrees :: "string set \<Rightarrow> (string \<times> string) list \<Rightarrow> string set \<Rightarrow> bool option" where
  "grounded_extension_agrees arguments attacks ext =
     map_option (\<lambda>E. E = ext) (grounded_extension arguments attacks)"

section \<open>Assembling the framework of a node\<close>

record arg_row =
  ar_id :: "string option"
  ar_attacks :: "string option"
  ar_by :: "string option"

definition verdict_argument :: "string \<Rightarrow> string" where
  "verdict_argument tag = ''verdict:'' @ tag"

definition short_id :: "string \<Rightarrow> string" where
  "short_id i = last (str_split_on (CHR ''/'') i)"

definition actor :: "arg_row \<Rightarrow> string" where
  "actor a = str_strip (case ar_by a of None \<Rightarrow> [] | Some b \<Rightarrow> b)"

text \<open>The rows with an identity, as \<^verbatim>\<open>(id, short, target, by)\<close>; a target may be absent.\<close>

record norm_row =
  no_id :: string
  no_short :: string
  no_target :: "string option"
  no_by :: string

fun normalize_rows :: "string \<Rightarrow> arg_row list \<Rightarrow> norm_row list" where
  "normalize_rows tag [] = []"
| "normalize_rows tag (a # as) =
     (case ar_id a of
        None \<Rightarrow> normalize_rows tag as
      | Some i \<Rightarrow>
          if i = [] then normalize_rows tag as
          else \<lparr>no_id = i, no_short = short_id i,
                 no_target = (if ar_attacks a = Some tag then Some (verdict_argument tag) else ar_attacks a),
                 no_by = actor a\<rparr> # normalize_rows tag as)"

text \<open>\<^verbatim>\<open>by_of\<close>: each row sets the entry of its short name and then that of its full one.\<close>

definition by_of :: "norm_row list \<Rightarrow> string \<Rightarrow> string option" where
  "by_of rows = foldl (\<lambda>m r. m(no_short r \<mapsto> no_by r, no_id r \<mapsto> no_by r)) Map.empty rows"

definition get_by :: "norm_row list \<Rightarrow> string option \<Rightarrow> string option" where
  "get_by rows t = (case t of None \<Rightarrow> None | Some x \<Rightarrow> by_of rows x)"

text \<open>An attack of a row without target is kept as one on the absent argument, which no framework has.\<close>

definition self_defence :: "string \<Rightarrow> norm_row list \<Rightarrow> norm_row \<Rightarrow> bool" where
  "self_defence tag rows r \<longleftrightarrow>
     no_target r \<noteq> Some (verdict_argument tag) \<and> no_by r \<noteq> [] \<and> get_by rows (no_target r) = Some (no_by r)"

definition assembled_attacks :: "string \<Rightarrow> norm_row list \<Rightarrow> (string \<times> string option) list" where
  "assembled_attacks tag rows =
     map (\<lambda>r. (no_short r, no_target r)) (filter (\<lambda>r. \<not> self_defence tag rows r) rows)"

definition assemble_af :: "string \<Rightarrow> arg_row list \<Rightarrow> string set \<times> (string \<times> string option) list" where
  "assemble_af tag arg_rows =
     (let rows = normalize_rows tag arg_rows
      in (insert (verdict_argument tag) (set (map no_short rows)), assembled_attacks tag rows))"

text \<open>An attack on \<^verbatim>\<open>None\<close> hits no argument: \<^verbatim>\<open>if v in attackers\<close> drops it.\<close>

fun present_attacks :: "(string \<times> string option) list \<Rightarrow> (string \<times> string) list" where
  "present_attacks [] = []"
| "present_attacks ((u, Some v) # es) = (u, v) # present_attacks es"
| "present_attacks ((u, None) # es) = present_attacks es"

definition node_stands :: "string \<Rightarrow> arg_row list \<Rightarrow> bool option" where
  "node_stands tag arg_rows =
     (case assemble_af tag arg_rows of
        (arguments, attacks) \<Rightarrow> verdict_stands (verdict_argument tag) arguments (present_attacks attacks))"

section \<open>Exchange with external solvers\<close>

definition registered_edges :: "string set \<Rightarrow> (string \<times> string) list \<Rightarrow> (string \<times> string) list" where
  "registered_edges arguments attacks = filter (\<lambda>(u, v). u \<in> arguments \<and> v \<in> arguments) attacks"

definition pair_key :: "string \<times> string \<Rightarrow> string list" where
  "pair_key e = [fst e, snd e]"

definition to_tgf :: "string set \<Rightarrow> (string \<times> string) list \<Rightarrow> string" where
  "to_tgf arguments attacks =
     str_join [CHR 0x0A]
       (sorted_list_of_set arguments @ [''#''] @
        map (\<lambda>(u, v). u @ '' '' @ v) (sort_key pair_key (registered_edges arguments attacks)))"

definition to_apx :: "string set \<Rightarrow> (string \<times> string) list \<Rightarrow> string" where
  "to_apx arguments attacks =
     str_join [CHR 0x0A]
       (map (\<lambda>a. ''arg('' @ a @ '').'') (sorted_list_of_set arguments) @
        map (\<lambda>(u, v). ''att('' @ u @ '','' @ v @ '').'') (sort_key pair_key (registered_edges arguments attacks)))"

text \<open>The tokens between runs of separators \<^verbatim>\<open>[\s,\[\]()]+\<close>.\<close>

definition is_separator :: "char \<Rightarrow> bool" where
  "is_separator c \<longleftrightarrow> is_space c \<or> c \<in> set '',[]()''"

function tokens :: "string \<Rightarrow> string list" where
  "tokens [] = []"
| "tokens (c # s) =
     (if is_separator c then tokens s
      else (c # takeWhile (\<lambda>d. \<not> is_separator d) s) # tokens (dropWhile (\<lambda>d. \<not> is_separator d) s))"
  by pat_completeness auto

termination
  by (relation "measure length") (auto simp: less_Suc_eq_le length_dropWhile_le)

definition parse_extension :: "string \<Rightarrow> string set" where
  "parse_extension txt = set (filter (\<lambda>t. t \<notin> {''w'', ''NO'', ''YES''}) (tokens (str_strip txt)))"

section \<open>Explaining acceptance\<close>

datatype explanation =
    Accepted "(string \<times> string list) list"
  | Rejected_by "string list"
  | Undecided

definition explain :: "string set \<Rightarrow> attackers \<Rightarrow> string \<Rightarrow> explanation" where
  "explain ext att a =
     (let accepted_attackers = sorted_list_of_set (attackers_of att a \<inter> ext) in
      if a \<in> ext then
        Accepted (map (\<lambda>atk. (atk, sorted_list_of_set (ext \<inter> attackers_of att atk)))
          (sorted_list_of_set (attackers_of att a)))
      else if accepted_attackers \<noteq> [] then Rejected_by accepted_attackers
      else Undecided)"

definition acceptance_explanation ::
    "string set \<Rightarrow> (string \<times> string) list \<Rightarrow> (string \<Rightarrow> explanation option) option" where
  "acceptance_explanation arguments attacks =
     (let att = attackers_dict arguments (filter (\<lambda>(u, v). u \<in> arguments) attacks) in
      map_option (\<lambda>ext a. if a \<in> arguments then Some (explain ext att a) else None)
        (grounded_extension arguments attacks))"

end
