(* ===== verification/Argue_Facts.thy ===== *)
theory Argue_Facts
  imports Argue
begin

text \<open>
  Dung's semantics for \<open>Argue\<close>: the loop of \<^verbatim>\<open>grounded_extension\<close> ends in the least
  fixed point of the characteristic function, which is free of conflicts; what the assembled
  framework of a node attacks; reading back what a solver prints.
\<close>

section \<open>The attack relation of a dictionary\<close>

lemma attackers_of_upd: "attackers_of (att(w \<mapsto> S)) v = (if v = w then S else attackers_of att v)"
  "att w = Some T \<Longrightarrow> attackers_of att w = T"
  by (simp_all add: attackers_of_def)

lemma attackers_of_add_attacks:
  "attackers_of (add_attacks es att) v = (if att v = None then {} else attackers_of att v \<union> {u. (u, v) \<in> set es})"
proof (induction es arbitrary: att)
  case Nil
  then show ?case by (simp add: attackers_of_def)
next
  case (Cons e es)
  obtain u w where e: "e = (u, w)" by (cases e)
  show ?case
  proof (cases "att w")
    case None
    then show ?thesis by (auto simp: e Cons.IH)
  next
    case (Some S)
    then show ?thesis by (auto simp: e Cons.IH attackers_of_upd)
  qed
qed

lemma attackers_of_dict: "attackers_of (attackers_dict A es) a = (if a \<in> A then {u. (u, a) \<in> set es} else {})"
  by (auto simp: attackers_dict_def attackers_of_add_attacks) (simp_all add: attackers_of_def)

section \<open>The characteristic function\<close>

text \<open>
  Dung's characteristic function on the attacks whose target is an argument: an attacker that is
  no argument itself cannot be attacked back.
\<close>

definition attack_relation :: "string set \<Rightarrow> (string \<times> string) list \<Rightarrow> (string \<times> string) set" where
  "attack_relation arguments attacks = {(u, v) \<in> set attacks. v \<in> arguments}"

definition acceptable :: "string set \<Rightarrow> (string \<times> string) set \<Rightarrow> string set \<Rightarrow> string set" where
  "acceptable arguments R S = {a \<in> arguments. \<forall>b. (b, a) \<in> R \<longrightarrow> (\<exists>c \<in> S. (c, b) \<in> R)}"

lemma mono_acceptable: "mono (acceptable A R)"
  by (rule monoI) (fastforce simp: acceptable_def)

definition conflict_free :: "(string \<times> string) set \<Rightarrow> string set \<Rightarrow> bool" where
  "conflict_free R S \<longleftrightarrow> (\<forall>a \<in> S. \<forall>b \<in> S. (a, b) \<notin> R)"

lemma filter_defended: "Set.filter (\<lambda>a. defended a S (attackers_dict A es)) A = acceptable A (attack_relation A es) S"
  by (force simp: defended_def attackers_of_dict acceptable_def attack_relation_def split: if_splits)

lemma grounded_loop_unfold:
  "grounded_loop A (attackers_dict A es) S =
    (if acceptable A (attack_relation A es) S = S then Some S
     else grounded_loop A (attackers_dict A es) (acceptable A (attack_relation A es) S))"
  by (subst grounded_loop.simps) (simp only: filter_defended Let_def)

text \<open>The loop ends, since its set grows inside the arguments; what a round keeps, the result has.\<close>

lemma grounded_loop_invariant:
  assumes "finite A" and "S \<subseteq> acceptable A (attack_relation A es) S" and "I S"
    and "\<And>T. I T \<Longrightarrow> T \<subseteq> acceptable A (attack_relation A es) T \<Longrightarrow> I (acceptable A (attack_relation A es) T)"
  shows "\<exists>E. grounded_loop A (attackers_dict A es) S = Some E \<and> acceptable A (attack_relation A es) E = E \<and> I E"
  using assms(2,3)
proof (induction "card A - card S" arbitrary: S rule: less_induct)
  case less
  let ?F = "acceptable A (attack_relation A es)"
  show ?case
  proof (cases "?F S = S")
    case True
    then have "grounded_loop A (attackers_dict A es) S = Some S" by (subst grounded_loop_unfold) simp
    with True less.prems(2) show ?thesis by blast
  next
    case False
    with less.prems(1) have grow: "S \<subset> ?F S" by blast
    have sub: "?F S \<subseteq> A" by (auto simp: acceptable_def)
    have "finite (?F S)" by (rule finite_subset [OF sub assms(1)])
    with grow have "card S < card (?F S)" by (rule psubset_card_mono [rotated])
    moreover have "card (?F S) \<le> card A" by (rule card_mono [OF assms(1) sub])
    ultimately have dec: "card A - card (?F S) < card A - card S" by simp
    have "?F S \<subseteq> ?F (?F S)" by (rule monoD [OF mono_acceptable less.prems(1)])
    from less.hyps [OF dec this assms(4) [OF less.prems(2,1)]]
    obtain E where "grounded_loop A (attackers_dict A es) (?F S) = Some E" "?F E = E" "I E" by blast
    moreover have "grounded_loop A (attackers_dict A es) S = grounded_loop A (attackers_dict A es) (?F S)"
      by (subst grounded_loop_unfold) (simp only: False if_False)
    ultimately show ?thesis by (intro exI [of _ E]) (simp only: simp_thms)
  qed
qed

lemma conflict_free_acceptable:
  assumes "conflict_free R S" and "S \<subseteq> acceptable A R S"
  shows "conflict_free R (acceptable A R S)"
  unfolding conflict_free_def
proof (intro ballI notI)
  fix a b assume a: "a \<in> acceptable A R S" and b: "b \<in> acceptable A R S" and "(a, b) \<in> R"
  then obtain c where c: "c \<in> S" "(c, a) \<in> R" unfolding acceptable_def by blast
  with a obtain d where d: "d \<in> S" "(d, c) \<in> R" unfolding acceptable_def by blast
  with c(1) assms(1) show False by (simp add: conflict_free_def)
qed

lemma grounded_extension_facts:
  assumes "finite A"
  obtains E where "grounded_extension A es = Some E" "E = lfp (acceptable A (attack_relation A es))"
    "acceptable A (attack_relation A es) E = E" "conflict_free (attack_relation A es) E"
proof -
  let ?F = "acceptable A (attack_relation A es)"
  have "\<exists>E. grounded_loop A (attackers_dict A es) {} = Some E \<and> ?F E = E \<and>
    (E \<subseteq> lfp ?F \<and> conflict_free (attack_relation A es) E)"
  proof (rule grounded_loop_invariant [OF assms, where I = "\<lambda>T. T \<subseteq> lfp ?F \<and> conflict_free (attack_relation A es) T"])
    show "{} \<subseteq> ?F {}" "{} \<subseteq> lfp ?F \<and> conflict_free (attack_relation A es) {}"
      by (simp_all add: conflict_free_def)
    fix T assume I: "T \<subseteq> lfp ?F \<and> conflict_free (attack_relation A es) T" and "T \<subseteq> ?F T"
    then have "conflict_free (attack_relation A es) (?F T)" by (intro conflict_free_acceptable) simp_all
    moreover from I have "?F T \<subseteq> ?F (lfp ?F)" by (intro monoD [OF mono_acceptable]) simp
    then have "?F T \<subseteq> lfp ?F" unfolding lfp_fixpoint [OF mono_acceptable] .
    ultimately show "?F T \<subseteq> lfp ?F \<and> conflict_free (attack_relation A es) (?F T)" by simp
  qed
  then obtain E where E: "grounded_loop A (attackers_dict A es) {} = Some E" "?F E = E" "E \<subseteq> lfp ?F"
    "conflict_free (attack_relation A es) E" by blast
  from E(2) have "lfp ?F \<subseteq> E" by (intro lfp_lowerbound) simp
  with E(3) have "E = lfp ?F" by blast
  with E show ?thesis by (intro that [of E]) (simp_all add: grounded_extension_def)
qed

section \<open>The framework of a node\<close>

lemma set_present_attacks: "(u, v) \<in> set (present_attacks es) \<longleftrightarrow> (u, Some v) \<in> set es"
  by (induction es rule: present_attacks.induct) auto

definition node_arguments :: "string \<Rightarrow> arg_row list \<Rightarrow> string set" where
  "node_arguments tag rows = insert (verdict_argument tag) (set (map no_short (normalize_rows tag rows)))"

definition node_attacks :: "string \<Rightarrow> arg_row list \<Rightarrow> (string \<times> string) set" where
  "node_attacks tag rows =
     {(u, v). \<exists>r \<in> set (normalize_rows tag rows). \<not> self_defence tag (normalize_rows tag rows) r \<and>
        u = no_short r \<and> no_target r = Some v \<and> v \<in> node_arguments tag rows}"

lemma node_stands_iff:
  obtains E where "node_stands tag rows = Some (verdict_argument tag \<in> E)"
    "acceptable (node_arguments tag rows) (node_attacks tag rows) E = E"
    "conflict_free (node_attacks tag rows) E" "E = lfp (acceptable (node_arguments tag rows) (node_attacks tag rows))"
proof -
  let ?es = "present_attacks (assembled_attacks tag (normalize_rows tag rows))"
  have "finite (node_arguments tag rows)" by (simp add: node_arguments_def)
  then obtain E where E: "grounded_extension (node_arguments tag rows) ?es = Some E"
    "E = lfp (acceptable (node_arguments tag rows) (attack_relation (node_arguments tag rows) ?es))"
    "acceptable (node_arguments tag rows) (attack_relation (node_arguments tag rows) ?es) E = E"
    "conflict_free (attack_relation (node_arguments tag rows) ?es) E"
    by (rule grounded_extension_facts)
  have rel: "attack_relation (node_arguments tag rows) ?es = node_attacks tag rows"
    by (auto simp: attack_relation_def node_attacks_def set_present_attacks assembled_attacks_def)
  have "node_stands tag rows = Some (verdict_argument tag \<in> E)"
    using E(1) by (simp add: node_stands_def assemble_af_def Let_def verdict_stands_def node_arguments_def)
  with E show ?thesis unfolding rel by (intro that)
qed

section \<open>Reading tokens\<close>

definition token_ok :: "string \<Rightarrow> bool" where
  "token_ok t \<longleftrightarrow> t \<noteq> [] \<and> list_all (\<lambda>c. \<not> is_separator c) t"

lemma tokens_separator: "is_separator c \<Longrightarrow> tokens (c # s) = tokens s"
  by simp

lemma tokens_token:
  assumes "token_ok t" and "s = [] \<or> is_separator (hd s)"
  shows "tokens (t @ s) = t # tokens s"
proof -
  from assms(1) obtain c u where t: "t = c # u" "\<not> is_separator c" "list_all (\<lambda>c. \<not> is_separator c) u"
    by (cases t) (auto simp: token_ok_def)
  then have "takeWhile (\<lambda>d. \<not> is_separator d) (u @ s) = u" "dropWhile (\<lambda>d. \<not> is_separator d) (u @ s) = s"
    using assms(2) by (cases s; auto simp: list_all_iff)+
  with t show ?thesis by simp
qed

lemma tokens_join:
  assumes "\<forall>t \<in> set ts. token_ok t" and "s = [] \<or> is_separator (hd s)"
  shows "tokens (str_join '','' ts @ s) = ts @ tokens s"
  using assms(1)
proof (induction ts rule: induct_list012)
  case 1
  then show ?case by simp
next
  case (2 t)
  with assms(2) show ?case by (simp add: tokens_token)
next
  case (3 t u ts)
  have "tokens (t @ '','' @ str_join '','' (u # ts) @ s) = t # tokens ('','' @ str_join '','' (u # ts) @ s)"
    using 3(3) by (intro tokens_token) (auto simp: is_separator_def)
  also have "tokens ('','' @ str_join '','' (u # ts) @ s) = tokens (str_join '','' (u # ts) @ s)"
    by (simp add: is_separator_def)
  finally show ?case using 3 by simp
qed

definition print_extension :: "string list \<Rightarrow> string" where
  "print_extension ts = ''['' @ str_join '','' ts @ '']''"

lemma str_strip_bracket: "str_strip (''['' @ s @ '']'') = ''['' @ s @ '']''"
  by (simp add: str_strip_def is_space_def)

lemma tokens_print: "\<forall>t \<in> set ts. token_ok t \<Longrightarrow> tokens (print_extension ts) = ts"
  using tokens_join [of ts "'']''"] by (simp add: print_extension_def is_separator_def)

lemma parse_print_extension:
  "\<forall>t \<in> set ts. token_ok t \<and> t \<notin> {''w'', ''NO'', ''YES''} \<Longrightarrow> parse_extension (print_extension ts) = set ts"
  unfolding parse_extension_def
  by (subst print_extension_def, subst str_strip_bracket, fold print_extension_def) (auto simp: tokens_print)

end
