(* ===== verification/Argue_Properties.thy ===== *)
theory Argue_Properties
  imports Argue_Facts
begin

text \<open>The properties of the argumentation layer, with their witnesses.\<close>

text \<open>
  C24: The loop of \<^verbatim>\<open>grounded_extension\<close> ends on every framework, and what it returns
  is the least fixed point of Dung's characteristic function: the grounded extension.
\<close>

theorem grounded_is_least_fixed_point:
  "grounded_extension (set arguments) attacks =
     Some (lfp (acceptable (set arguments) (attack_relation (set arguments) attacks)))"
  by (rule grounded_extension_facts [of "set arguments" attacks]) simp_all

section \<open>Explanations\<close>

lemma attackers_of_registered:
  "attackers_of (attackers_dict A (filter (\<lambda>(u, v). u \<in> A) es)) a = {u \<in> A. (u, a) \<in> attack_relation A es}"
  by (auto simp: attackers_of_dict attack_relation_def)

lemma finite_registered: "finite {u \<in> set xs. P u}"
  by simp

lemma sorted_list_of_registered:
  "set (sorted_list_of_set {u \<in> set xs. P u}) = {u \<in> set xs. P u}"
  by simp

text \<open>
  The explanation of a framework agrees with the extension and names its grounds. An
  argument is explained as accepted exactly when it stands, and then each of its registered
  attackers is listed with accepted arguments that attack it; a rejected one is listed with
  accepted attackers; an undecided one has none.
\<close>

theorem explanation_names_its_grounds:
  assumes "acceptance_explanation (set arguments) attacks = Some X" and "a \<in> set arguments"
  shows "case X a of
      None \<Rightarrow> False
    | Some (Accepted ds) \<Rightarrow> verdict_stands a (set arguments) attacks = Some True \<and>
        set (map fst ds) = {b \<in> set arguments. (b, a) \<in> set attacks} \<and>
        list_all (\<lambda>(b, cs). cs \<noteq> [] \<and>
          list_all (\<lambda>c. verdict_stands c (set arguments) attacks = Some True \<and> (c, b) \<in> set attacks) cs) ds
    | Some (Rejected_by bs) \<Rightarrow> verdict_stands a (set arguments) attacks = Some False \<and> bs \<noteq> [] \<and>
        list_all (\<lambda>b. verdict_stands b (set arguments) attacks = Some True \<and> (b, a) \<in> set attacks) bs
    | Some Undecided \<Rightarrow> verdict_stands a (set arguments) attacks = Some False \<and>
        list_all (\<lambda>b. verdict_stands b (set arguments) attacks = Some True \<longrightarrow> (b, a) \<notin> set attacks) arguments"
proof -
  let ?A = "set arguments" and ?R = "attack_relation (set arguments) attacks"
  obtain E where E: "grounded_extension ?A attacks = Some E" "acceptable ?A ?R E = E" "conflict_free ?R E"
    by (rule grounded_extension_facts [of ?A attacks]) simp_all
  have st: "verdict_stands b ?A attacks = Some v \<longleftrightarrow> v = (b \<in> E)" for b v
    using E(1) by (auto simp: verdict_stands_def)
  have sub: "E \<subseteq> ?A" using E(2) by (auto simp: acceptable_def)
  have fin: "finite E" by (rule finite_subset [OF sub]) simp
  have X: "X a = Some (explain E (attackers_dict ?A (filter (\<lambda>(u, v). u \<in> ?A) attacks)) a)"
    using assms E(1) by (auto simp: acceptance_explanation_def Let_def)
  have att: "attackers_of (attackers_dict ?A (filter (\<lambda>(u, v). u \<in> ?A) attacks)) b = {u \<in> ?A. (u, b) \<in> ?R}" for b
    by (rule attackers_of_registered)
  have ra: "(u, a) \<in> ?R \<longleftrightarrow> (u, a) \<in> set attacks" for u using assms(2) by (simp add: attack_relation_def)
  show ?thesis
  proof (cases "a \<in> E")
    case True
    then have ctr: "\<exists>c \<in> E. (c, b) \<in> ?R" if "(b, a) \<in> ?R" for b
      using E(2) that by (subst (asm) E(2) [symmetric]) (auto simp: acceptable_def)
    have ctr': "E \<inter> {u \<in> ?A. (u, b) \<in> ?R} \<noteq> {}" if "(b, a) \<in> set attacks" for b
      using ctr [of b] sub that by (auto simp: ra)
    have fin2: "finite (E \<inter> {u \<in> ?A. (u, b) \<in> ?R})" for b using fin by simp
    show ?thesis
      unfolding X explain_def Let_def att option.case
      using True ctr' fin2 by (auto simp: st list_all_iff ra sorted_list_of_set_eq_Nil_iff) (auto simp: attack_relation_def)
  next
    case False
    have fin1: "finite ({u \<in> ?A. (u, a) \<in> ?R} \<inter> E)" using fin by simp
    show ?thesis
      unfolding X explain_def Let_def att option.case
      using False fin1 by (auto simp: st list_all_iff ra sorted_list_of_set_eq_Nil_iff)
  qed
qed

definition sample_arguments :: "string list" where
  "sample_arguments = [''verdict:t'', ''doubt'', ''rebuttal'']"

definition sample_attacks :: "(string \<times> string) list" where
  "sample_attacks = [(''doubt'', ''verdict:t''), (''rebuttal'', ''doubt'')]"

theorem explanation_names_its_grounds_witness:
  "\<exists>X ds. acceptance_explanation (set sample_arguments) sample_attacks = Some X \<and>
     X ''rebuttal'' = Some (Accepted ds) \<and> ds = []"
proof -
  obtain E where E: "grounded_extension (set sample_arguments) sample_attacks = Some E"
    by (rule grounded_extension_facts [of "set sample_arguments" sample_attacks]) simp_all
  then obtain X where X: "acceptance_explanation (set sample_arguments) sample_attacks = Some X"
    by (auto simp: acceptance_explanation_def Let_def)
  have in_args: "''rebuttal'' \<in> set sample_arguments" by (simp add: sample_arguments_def)
  note c = explanation_names_its_grounds [OF X in_args]
  have "''rebuttal'' \<in> E"
  proof -
    obtain E' where E': "grounded_extension (set sample_arguments) sample_attacks = Some E'"
      "acceptable (set sample_arguments) (attack_relation (set sample_arguments) sample_attacks) E' = E'"
      by (rule grounded_extension_facts [of "set sample_arguments" sample_attacks]) simp_all
    have "''rebuttal'' \<in> acceptable (set sample_arguments) (attack_relation (set sample_arguments) sample_attacks) E'"
      using in_args by (simp add: acceptable_def attack_relation_def sample_attacks_def)
    with E E' show ?thesis by simp
  qed
  with E have "verdict_stands ''rebuttal'' (set sample_arguments) sample_attacks = Some True"
    by (simp add: verdict_stands_def)
  with c obtain ds where ds: "X ''rebuttal'' = Some (Accepted ds)"
    "set (map fst ds) = {b \<in> set sample_arguments. (b, ''rebuttal'') \<in> set sample_attacks}"
    by (auto split: option.splits explanation.splits)
  then have "ds = []" by (simp add: sample_attacks_def)
  with X ds show ?thesis by blast
qed

section \<open>Independence\<close>

text \<open>
  C25: A doubt is answered only by somebody else. If the verdict of a node stands although a
  recorded argument attacks it, then another argument attacks the doubt whose actor is unnamed or
  differs from the actor the framework records for the doubt: nobody clears their own doubt.
\<close>

theorem standing_needs_independent_rebuttal:
  assumes "node_stands tag rows = Some True"
    and "d \<in> set (normalize_rows tag rows)" and "no_target d = Some (verdict_argument tag)"
  shows "\<exists>c \<in> set (normalize_rows tag rows). no_target c = Some (no_short d) \<and>
    (no_by c = [] \<or> by_of (normalize_rows tag rows) (no_short d) \<noteq> Some (no_by c))"
proof -
  let ?rows = "normalize_rows tag rows" and ?A = "node_arguments tag rows" and ?R = "node_attacks tag rows"
  obtain E where E: "node_stands tag rows = Some (verdict_argument tag \<in> E)" "acceptable ?A ?R E = E" "conflict_free ?R E"
    by (rule node_stands_iff)
  from E(1) assms(1) have v: "verdict_argument tag \<in> E" by simp
  have "(no_short d, verdict_argument tag) \<in> ?R"
    using assms(2,3) by (auto simp: node_attacks_def self_defence_def node_arguments_def)
  with v E(2) obtain c where c: "c \<in> E" "(c, no_short d) \<in> ?R"
    by (subst (asm) E(2) [symmetric]) (auto simp: acceptable_def)
  then obtain r where r: "r \<in> set ?rows" "\<not> self_defence tag ?rows r" "no_target r = Some (no_short d)"
    by (auto simp: node_attacks_def)
  have "no_short d \<noteq> verdict_argument tag"
    using c v E(3) by (auto simp: conflict_free_def)
  with r have "no_by r = [] \<or> by_of ?rows (no_short d) \<noteq> Some (no_by r)"
    by (auto simp: self_defence_def get_by_def)
  with r show ?thesis by blast
qed

definition sample_rows :: "arg_row list" where
  "sample_rows =
     [\<lparr>ar_id = Some ''tree/doubt'', ar_attacks = Some ''t'', ar_by = Some ''ann''\<rparr>,
      \<lparr>ar_id = Some ''tree/rebuttal'', ar_attacks = Some ''doubt'', ar_by = Some ''bob''\<rparr>]"

lemma sample_normal:
  "normalize_rows ''t'' sample_rows =
     [\<lparr>no_id = ''tree/doubt'', no_short = ''doubt'', no_target = Some ''verdict:t'', no_by = ''ann''\<rparr>,
      \<lparr>no_id = ''tree/rebuttal'', no_short = ''rebuttal'', no_target = Some ''doubt'', no_by = ''bob''\<rparr>]"
  by (simp add: sample_rows_def short_id_def actor_def str_strip_def is_space_def verdict_argument_def)

lemma sample_stands: "node_stands ''t'' sample_rows = Some True"
proof -
  obtain E where E: "node_stands ''t'' sample_rows = Some (verdict_argument ''t'' \<in> E)"
    "acceptable (node_arguments ''t'' sample_rows) (node_attacks ''t'' sample_rows) E = E"
    by (rule node_stands_iff)
  have A: "node_arguments ''t'' sample_rows = {''verdict:t'', ''doubt'', ''rebuttal''}"
    by (simp add: node_arguments_def sample_normal verdict_argument_def)
  have R: "(u, v) \<in> node_attacks ''t'' sample_rows \<longleftrightarrow> (u, v) \<in> {(''doubt'', ''verdict:t''), (''rebuttal'', ''doubt'')}" for u v
    by (auto simp: node_attacks_def A sample_normal self_defence_def verdict_argument_def get_by_def by_of_def)
  have "''rebuttal'' \<in> E" by (subst E(2) [symmetric]) (simp add: acceptable_def A R)
  then have "''verdict:t'' \<in> E" by (subst E(2) [symmetric]) (simp add: acceptable_def A R)
  with E(1) show ?thesis by (simp add: verdict_argument_def)
qed

theorem standing_needs_independent_rebuttal_witness:
  "\<exists>c \<in> set (normalize_rows ''t'' sample_rows). no_target c = Some ''doubt'' \<and>
     (no_by c = [] \<or> by_of (normalize_rows ''t'' sample_rows) ''doubt'' \<noteq> Some (no_by c))"
proof -
  let ?d = "\<lparr>no_id = ''tree/doubt'', no_short = ''doubt'', no_target = Some ''verdict:t'', no_by = ''ann''\<rparr>"
  have "?d \<in> set (normalize_rows ''t'' sample_rows)" "no_target ?d = Some (verdict_argument ''t'')"
    by (simp_all add: sample_normal verdict_argument_def)
  from standing_needs_independent_rebuttal [OF sample_stands this] show ?thesis by simp
qed

section \<open>Exchange\<close>

text \<open>
  An extension survives the exchange with a solver: printed as a bracketed list and read back
  it is the same set, as long as its names are tokens of the format, so the cross-check of the
  grounded extension against its own printed form agrees.
\<close>

theorem extension_roundtrip:
  assumes "\<forall>t \<in> set ts. token_ok t \<and> t \<notin> {''w'', ''NO'', ''YES''}"
    and "grounded_extension arguments attacks = Some (set ts)"
  shows "parse_extension (print_extension ts) = set ts \<and>
    grounded_extension_agrees arguments attacks (parse_extension (print_extension ts)) = Some True"
  using assms by (simp_all add: parse_print_extension grounded_extension_agrees_def)

theorem extension_roundtrip_witness:
  "\<exists>ts. grounded_extension_agrees {''a'', ''b''} [(''a'', ''b'')] (parse_extension (print_extension ts)) = Some True"
proof -
  obtain E where E: "grounded_extension {''a'', ''b''} [(''a'', ''b'')] = Some E"
    "acceptable {''a'', ''b''} (attack_relation {''a'', ''b''} [(''a'', ''b'')]) E = E"
    by (rule grounded_extension_facts [of "{''a'', ''b''}" "[(''a'', ''b'')]"]) simp_all
  have R: "attack_relation {''a'', ''b''} [(''a'', ''b'')] = {(''a'', ''b'')}" by (auto simp: attack_relation_def)
  have "x \<in> E \<longleftrightarrow> x = ''a''" for x by (subst E(2) [symmetric]) (auto simp: acceptable_def R)
  then have "E = set [''a'']" by auto
  with E(1) have g: "grounded_extension {''a'', ''b''} [(''a'', ''b'')] = Some (set [''a''])" by (simp only:)
  have "\<forall>t \<in> set [''a'']. token_ok t \<and> t \<notin> {''w'', ''NO'', ''YES''}"
    by (simp add: token_ok_def is_separator_def is_space_def)
  from extension_roundtrip [OF this g] show ?thesis by (intro exI [of _ "[''a'']"]) (rule conjunct2)
qed

text \<open>
  The export drops an attack whose attacker is not registered, the evaluation keeps it: the
  exported framework can have another extension than the one evaluated.
\<close>

lemma export_changes_extension:
  "\<exists>E. grounded_extension {''a''} [(''x'', ''a'')] = Some E \<and> ''a'' \<notin> E \<and>
     registered_edges {''a''} [(''x'', ''a'')] = [] \<and> grounded_extension {''a''} [] = Some {''a''}"
proof -
  obtain E where E: "grounded_extension {''a''} [(''x'', ''a'')] = Some E"
    "acceptable {''a''} (attack_relation {''a''} [(''x'', ''a'')]) E = E"
    by (rule grounded_extension_facts [of "{''a''}" "[(''x'', ''a'')]"]) simp_all
  have "''a'' \<notin> E" by (subst E(2) [symmetric]) (auto simp: acceptable_def attack_relation_def)
  moreover obtain F where F: "grounded_extension {''a''} [] = Some F" "acceptable {''a''} (attack_relation {''a''} []) F = F"
    by (rule grounded_extension_facts [of "{''a''}" "[]"]) simp_all
  have "F = {''a''}" by (subst F(2) [symmetric]) (auto simp: acceptable_def attack_relation_def)
  ultimately show ?thesis using E(1) F(1) by (simp add: registered_edges_def)
qed

end
