(* ===== verification/Verdict_Force.thy ===== *)
theory Verdict_Force
  imports Verdict_Registry
begin

text \<open>
  Receipt or self-report: the source vocabulary, \<^verbatim>\<open>normalize_source\<close>,
  \<^verbatim>\<open>force_of\<close>, \<^verbatim>\<open>force_of_row\<close>, the partition and
  neutralisation of unreceipted rows, the assurance level of a row, and the comment seal, of
  \<^verbatim>\<open>lakatos/verdicts.py\<close>.

  A node row is a \<^verbatim>\<open>dict\<close>; where the code distinguishes an absent key from
  \<^verbatim>\<open>None\<close>, the field has type \<open>string option option\<close> and \<open>None\<close> means the key is
  absent. Where it does not, absent and \<^verbatim>\<open>None\<close> are both \<open>None\<close>. Measured values are
  only tested for \<^verbatim>\<open>None\<close> here, so their type is a parameter.
\<close>

section \<open>Sources\<close>

datatype verdict_error =
    IndexError string
  | DanglingHead "string option"
  | ChainCycle string
  | BrokenLink string
  | InvalidQuestionTransition string
  | IllegalNodeTransition string

definition FORCEFUL_SOURCES :: "string set" where
  "FORCEFUL_SOURCES = {''scripted'', ''engine'', ''reproducible'', ''human''}"

definition MUTATION_PROTECTED_SOURCES :: "string set" where
  "MUTATION_PROTECTED_SOURCES = FORCEFUL_SOURCES \<union> {''admin''}"

definition INCONCLUSIVE_SOURCES :: "string set" where
  "INCONCLUSIVE_SOURCES = {''pre_receipt'', ''prehistory''}"

definition STRUCTURAL_SOURCES :: "string set" where
  "STRUCTURAL_SOURCES = {''admin'', ''kg_bootstrap'', ''conjecture''}"

definition SOURCE_ALIASES :: "(string \<times> string) list" where
  "SOURCE_ALIASES =
     [(''dogfood'', ''scripted''), (''cloc-measured'', ''reproducible''), (''measured'', ''reproducible'')]"

definition CANONICAL_HEADS :: "string set" where
  "CANONICAL_HEADS = FORCEFUL_SOURCES \<union> INCONCLUSIVE_SOURCES \<union> STRUCTURAL_SOURCES"

lemmas source_defs =
  FORCEFUL_SOURCES_def MUTATION_PROTECTED_SOURCES_def INCONCLUSIVE_SOURCES_def
  STRUCTURAL_SOURCES_def SOURCE_ALIASES_def CANONICAL_HEADS_def

text \<open>The three strings \<^verbatim>\<open>force_of\<close> returns.\<close>

datatype force = COUNTS | INCONCLUSIVE | SELF_REPORT

text \<open>\<^verbatim>\<open>not x\<close> for a value that is \<^verbatim>\<open>None\<close> or a string.\<close>

definition falsy :: "string option \<Rightarrow> bool" where
  "falsy x \<longleftrightarrow> x = None \<or> x = Some []"

definition head_token :: "string \<Rightarrow> verdict_error + string" where
  "head_token raw =
     (case str_words (str_strip raw) of
        [] \<Rightarrow> Inl (IndexError ''list index out of range'')
      | w # _ \<Rightarrow> Inr (str_rstrip (set '':()'') (str_lower w)))"

definition normalize_source :: "string option \<Rightarrow> verdict_error + string option" where
  "normalize_source raw =
     (case raw of
        None \<Rightarrow> Inr None
      | Some [] \<Rightarrow> Inr (Some [])
      | Some s \<Rightarrow>
          if s \<in> CANONICAL_HEADS then Inr (Some s)
          else ebind (head_token s) (\<lambda>head.
            case map_of SOURCE_ALIASES head of
              Some t \<Rightarrow> Inr (Some t)
            | None \<Rightarrow> if head \<in> CANONICAL_HEADS then Inr (Some head) else Inr (Some head)))"

text \<open>\<^verbatim>\<open>x in S\<close> for a value that may be \<^verbatim>\<open>None\<close>.\<close>

definition is_in :: "string option \<Rightarrow> string set \<Rightarrow> bool" where
  "is_in x S \<longleftrightarrow> (case x of None \<Rightarrow> False | Some s \<Rightarrow> s \<in> S)"

text \<open>The source argument is \<open>None\<close> when the caller omits it (\<^verbatim>\<open>_SOURCE_ABSENT\<close>).\<close>

definition force_of :: "string option \<Rightarrow> string option option \<Rightarrow> verdict_error + force" where
  "force_of verdict source =
     (case source of
        None \<Rightarrow> Inr SELF_REPORT
      | Some raw \<Rightarrow>
          if falsy raw \<and> is_in verdict PROGRESS_VERDICTS then Inr INCONCLUSIVE
          else ebind (normalize_source raw) (\<lambda>src.
            if is_in src FORCEFUL_SOURCES then Inr COUNTS
            else if is_in src INCONCLUSIVE_SOURCES then Inr INCONCLUSIVE
            else Inr SELF_REPORT))"

section \<open>Rows\<close>

record 'n node_row =
  nr_tag :: string
  nr_verdict :: "string option"
  nr_verdict_source :: "string option option"
  nr_current_receipt_sha :: "string option option"
  nr_measurement_grade :: "string option"
  nr_replay_status :: "string option"
  nr_metric_value :: "'n option"
  nr_novel_confirmed :: bool
  nr_judged_at :: "string option"
  nr_pred_registered_at :: "string option"
  nr_pred_metric :: "string option"
  nr_pred_baseline :: "'n option"
  nr_measurement_lock_bound :: bool
  nr_assurance_tier_resolved :: "string option"
  nr_attested_by_did :: "string option"
  nr_engine_rule_sha :: "string option"
  nr_comment :: "string option"
  nr_comment_sha_at_verdict :: "string option"

text \<open>\<^verbatim>\<open>row.get(key)\<close> of a field whose absence is kept apart.\<close>

definition got :: "string option option \<Rightarrow> string option" where
  "got f = (case f of None \<Rightarrow> None | Some v \<Rightarrow> v)"

definition force_of_row :: "'n node_row \<Rightarrow> verdict_error + force" where
  "force_of_row row =
     ebind (force_of (nr_verdict row) (nr_verdict_source row)) (\<lambda>base.
       if base = COUNTS \<and> nr_current_receipt_sha row \<noteq> None \<and> falsy (got (nr_current_receipt_sha row))
       then Inr INCONCLUSIVE
       else if base = COUNTS \<and> nr_measurement_grade row = Some ''client_asserted''
               \<and> nr_replay_status row \<noteq> Some ''verified''
       then Inr INCONCLUSIVE
       else if base \<noteq> COUNTS \<and> nr_measurement_grade row = Some ''server_regenerated''
               \<and> nr_replay_status row = Some ''verified'' \<and> \<not> falsy (got (nr_current_receipt_sha row))
       then Inr COUNTS
       else Inr base)"

text \<open>\<^verbatim>\<open>[r['tag'] for r in nodes if p(r)]\<close> where \<open>p\<close> may raise.\<close>

fun tags_where :: "('n node_row \<Rightarrow> verdict_error + bool) \<Rightarrow> 'n node_row list \<Rightarrow> verdict_error + string list" where
  "tags_where p [] = Inr []"
| "tags_where p (r # rs) =
     ebind (p r) (\<lambda>b. ebind (tags_where p rs) (\<lambda>ts. Inr (if b then nr_tag r # ts else ts)))"

definition is_inconclusive :: "'n node_row \<Rightarrow> verdict_error + bool" where
  "is_inconclusive r = ebind (force_of_row r) (\<lambda>f. Inr (f = INCONCLUSIVE))"

definition is_refuted :: "'n node_row \<Rightarrow> verdict_error + bool" where
  "is_refuted r =
     (if nr_replay_status r = Some ''mismatch'' then ebind (force_of_row r) (\<lambda>f. Inr (f = COUNTS))
      else Inr False)"

definition partition_unreceipted :: "'n node_row list \<Rightarrow> verdict_error + (string list \<times> string list)" where
  "partition_unreceipted nodes =
     ebind (tags_where is_inconclusive nodes) (\<lambda>inconclusive.
     ebind (tags_where is_refuted nodes) (\<lambda>refuted. Inr (inconclusive, refuted)))"

definition neutral :: "'n node_row \<Rightarrow> 'n node_row" where
  "neutral r = r\<lparr>nr_verdict := Some ''_inconclusive_unscored'', nr_novel_confirmed := False, nr_metric_value := None\<rparr>"

definition neutralize_unreceipted :: "'n node_row list \<Rightarrow> bool \<Rightarrow> verdict_error + 'n node_row list" where
  "neutralize_unreceipted nodes lenient =
     (if lenient then Inr nodes
      else ebind (partition_unreceipted nodes) (\<lambda>(inc, ref).
        let neut = set inc \<union> set ref in
        if neut = {} then Inr nodes
        else Inr (map (\<lambda>r. if nr_tag r \<notin> neut then r else neutral r) nodes)))"

section \<open>Assurance levels\<close>

definition VAL_LEVELS :: "string list" where
  "VAL_LEVELS = [''client_asserted'', ''receipted'', ''replay_verified'', ''attested_witnessed'']"

record assurance =
  as_val :: nat
  as_basis :: "string list"

text \<open>\<^verbatim>\<open>x in xs\<close> guarded by the truth of both, for an optional set.\<close>

definition listed_in :: "string option \<Rightarrow> string set option \<Rightarrow> bool" where
  "listed_in x xs \<longleftrightarrow> (case xs of None \<Rightarrow> False | Some S \<Rightarrow> S \<noteq> {} \<and> is_in x S)"

definition verdict_assurance ::
    "'n node_row \<Rightarrow> string set option \<Rightarrow> bool option \<Rightarrow> string set option \<Rightarrow> bool \<Rightarrow> verdict_error + assurance" where
  "verdict_assurance row tree_attestors chain_ok engine_rule_floor temporal_witness =
     (if chain_ok = Some False then Inr \<lparr>as_val = 0, as_basis = [''receipt_chain_broken'']\<rparr>
      else if nr_replay_status row = Some ''mismatch'' then Inr \<lparr>as_val = 0, as_basis = [''replay_refuted'']\<rparr>
      else ebind (force_of_row row) (\<lambda>force.
        if force \<noteq> COUNTS then
          Inr \<lparr>as_val = 0, as_basis =
            [if nr_verdict_source row = None then ''legacy_no_receipt''
             else if nr_measurement_grade row = Some ''client_asserted'' then ''client_asserted_unverified''
             else ''no_receipt'']\<rparr>
        else if \<not> (nr_measurement_grade row = Some ''server_regenerated'' \<and> nr_replay_status row = Some ''verified'') then
          Inr \<lparr>as_val = 1, as_basis =
            (if nr_measurement_grade row = Some ''attested'' then [''attested_unreplayed''] else [])\<rparr>
        else if \<not> nr_measurement_lock_bound row then
          Inr \<lparr>as_val = 1, as_basis = [''measurement_lock_unbound'']\<rparr>
        else if nr_assurance_tier_resolved row = Some ''anchored'' \<and> \<not> falsy (nr_attested_by_did row)
             \<and> listed_in (nr_attested_by_did row) tree_attestors
             \<and> listed_in (nr_engine_rule_sha row) engine_rule_floor \<and> temporal_witness then
          Inr \<lparr>as_val = 3, as_basis = []\<rparr>
        else Inr \<lparr>as_val = 2, as_basis = []\<rparr>))"

definition format_verdict_with_val :: "string option \<Rightarrow> assurance \<Rightarrow> string option" where
  "format_verdict_with_val verdict a =
     (case verdict of
        None \<Rightarrow> None
      | Some v \<Rightarrow>
          if v = [] \<or> \<not> is_self_report_blocked_verdict v then Some v
          else
            let label = VAL_LEVELS ! as_val a;
                extra = (if as_basis a \<noteq> [] then '','' @ str_join '','' (as_basis a) else [])
            in Some (v @ ''@L'' @ show_nat (as_val a) @ ''('' @ label @ extra @ '')''))"

section \<open>The comment seal\<close>

definition comment_seal_sha :: "string option \<Rightarrow> string" where
  "comment_seal_sha txt = sha256_hex (utf8_encode (case txt of None \<Rightarrow> [] | Some t \<Rightarrow> t))"

definition comment_drift :: "'n node_row \<Rightarrow> bool option" where
  "comment_drift row =
     (if falsy (nr_comment_sha_at_verdict row) then None
      else Some (Some (comment_seal_sha (nr_comment row)) \<noteq> nr_comment_sha_at_verdict row))"

end
