(* ===== verification/Verdict_Facts.thy ===== *)
theory Verdict_Facts
  imports Verdict_Force
begin

text \<open>
  What \<^verbatim>\<open>force_of_row\<close>, neutralisation and the assurance level compute: when they raise,
  which rows count, and what is left of a row that does not.
\<close>

section \<open>When the source is readable\<close>

definition unreadable :: "string option \<Rightarrow> bool" where
  "unreadable raw \<longleftrightarrow> (\<exists>s. raw = Some s \<and> s \<noteq> [] \<and> str_blank s)"

definition source_readable :: "'n node_row \<Rightarrow> bool" where
  "source_readable r \<longleftrightarrow> (case nr_verdict_source r of None \<Rightarrow> True | Some raw \<Rightarrow> \<not> unreadable raw)"

lemma head_token_Inl: "head_token s = Inl e \<longleftrightarrow> str_blank s \<and> e = IndexError ''list index out of range''"
  using str_words_Nil [of "str_strip s"] by (auto simp: head_token_def str_blank_strip split: list.split)

lemma head_token_Inr: "\<not> str_blank s \<Longrightarrow> \<exists>h. head_token s = Inr h"
  using str_words_Nil [of "str_strip s"] by (auto simp: head_token_def str_blank_strip split: list.split)

lemma heads_not_blank: "s \<in> CANONICAL_HEADS \<Longrightarrow> \<not> str_blank s"
  by (auto simp: source_defs str_blank_def is_space_def)

lemma normalize_source_Inl:
  "normalize_source raw = Inl e \<longleftrightarrow> unreadable raw \<and> e = IndexError ''list index out of range''"
  by (auto simp: normalize_source_def unreadable_def ebind_eq_Inl head_token_Inl heads_not_blank
        split: option.split list.split if_splits)

lemma normalize_source_readable: "\<not> unreadable raw \<Longrightarrow> \<exists>t. normalize_source raw = Inr t"
  using normalize_source_Inl [of raw] by (cases "normalize_source raw") auto

lemma unreadable_falsy: "falsy raw \<Longrightarrow> \<not> unreadable raw"
  by (auto simp: falsy_def unreadable_def)

lemma force_of_Inl:
  "force_of v src = Inl e \<longleftrightarrow> (\<exists>raw. src = Some raw \<and> unreadable raw) \<and> e = IndexError ''list index out of range''"
  by (auto simp: force_of_def ebind_eq_Inl normalize_source_Inl unreadable_falsy split: option.split if_splits)

lemma force_of_row_Inl:
  "force_of_row r = Inl e \<longleftrightarrow> \<not> source_readable r \<and> e = IndexError ''list index out of range''"
  by (auto simp: force_of_row_def ebind_eq_Inl force_of_Inl source_readable_def split: option.splits if_splits)

lemma force_of_row_readable: "(\<exists>f. force_of_row r = Inr f) \<longleftrightarrow> source_readable r"
  using force_of_row_Inl [of r] by (cases "force_of_row r") auto

section \<open>When a row counts\<close>

definition forceful :: "'n node_row \<Rightarrow> bool" where
  "forceful r \<longleftrightarrow> (\<exists>raw t. nr_verdict_source r = Some raw \<and> normalize_source raw = Inr (Some t) \<and> t \<in> FORCEFUL_SOURCES)"

definition replay_sealed :: "'n node_row \<Rightarrow> bool" where
  "replay_sealed r \<longleftrightarrow>
     nr_measurement_grade r = Some ''server_regenerated'' \<and> nr_replay_status r = Some ''verified'' \<and>
     \<not> falsy (got (nr_current_receipt_sha r))"

definition receipt_missing :: "'n node_row \<Rightarrow> bool" where
  "receipt_missing r \<longleftrightarrow> nr_current_receipt_sha r \<noteq> None \<and> falsy (got (nr_current_receipt_sha r))"

definition unverified_claim :: "'n node_row \<Rightarrow> bool" where
  "unverified_claim r \<longleftrightarrow> nr_measurement_grade r = Some ''client_asserted'' \<and> nr_replay_status r \<noteq> Some ''verified''"

lemma falsy_normalize: "falsy raw \<Longrightarrow> normalize_source raw = Inr raw"
  by (auto simp: falsy_def normalize_source_def)

lemma forceful_not_Nil: "[] \<notin> FORCEFUL_SOURCES" "[] \<notin> INCONCLUSIVE_SOURCES"
  by (simp_all add: source_defs)

lemma force_of_COUNTS:
  "force_of v src = Inr COUNTS \<longleftrightarrow>
     (\<exists>raw t. src = Some raw \<and> normalize_source raw = Inr (Some t) \<and> t \<in> FORCEFUL_SOURCES)"
proof (cases src)
  case None
  then show ?thesis by (simp add: force_of_def)
next
  case (Some raw)
  have "falsy raw \<Longrightarrow> \<not> (\<exists>t. normalize_source raw = Inr (Some t) \<and> t \<in> FORCEFUL_SOURCES)"
    by (auto simp: falsy_normalize) (auto simp: falsy_def forceful_not_Nil)
  with Some show ?thesis
    by (auto simp: force_of_def ebind_eq_Inr is_in_def split: option.splits)
qed

lemma force_of_row_COUNTS:
  "force_of_row r = Inr COUNTS \<longleftrightarrow>
     source_readable r \<and> (forceful r \<and> \<not> receipt_missing r \<and> \<not> unverified_claim r \<or> replay_sealed r)"
proof (cases "force_of (nr_verdict r) (nr_verdict_source r)")
  case (Inl e)
  then have "\<not> source_readable r" by (auto simp: force_of_Inl source_readable_def)
  with Inl show ?thesis by (simp add: force_of_row_def)
next
  case (Inr base)
  have rd: "source_readable r"
    using Inr force_of_Inl [of "nr_verdict r" "nr_verdict_source r"] by (auto simp: source_readable_def split: option.split)
  have f: "base = COUNTS \<longleftrightarrow> forceful r"
    using Inr force_of_COUNTS [of "nr_verdict r" "nr_verdict_source r"] by (auto simp: forceful_def)
  have sealed: "replay_sealed r \<Longrightarrow> \<not> receipt_missing r \<and> \<not> unverified_claim r"
    by (auto simp: replay_sealed_def receipt_missing_def unverified_claim_def)
  show ?thesis
  proof (cases "forceful r")
    case True
    with f have "base = COUNTS" by simp
    with Inr True rd sealed show ?thesis
      by (auto simp: force_of_row_def receipt_missing_def unverified_claim_def)
  next
    case False
    with f have "base \<noteq> COUNTS" by simp
    with Inr False rd show ?thesis by (auto simp: force_of_row_def replay_sealed_def)
  qed
qed

section \<open>Neutralisation\<close>

lemma tags_where_Inr:
  "tags_where p rs = Inr ts \<longleftrightarrow>
     (\<forall>r \<in> set rs. \<exists>b. p r = Inr b) \<and> ts = map nr_tag (filter (\<lambda>r. p r = Inr True) rs)"
proof (induction rs arbitrary: ts)
  case Nil
  then show ?case by auto
next
  case (Cons r rs)
  show ?case by (cases "p r") (auto simp: ebind_eq_Inr Cons.IH)
qed

definition all_readable :: "'n node_row list \<Rightarrow> bool" where
  "all_readable nodes \<longleftrightarrow> (\<forall>r \<in> set nodes. source_readable r)"

lemma is_inconclusive_Inr: "is_inconclusive r = Inr b \<longleftrightarrow> source_readable r \<and> b = (force_of_row r = Inr INCONCLUSIVE)"
  using force_of_row_readable [of r] by (cases "force_of_row r") (auto simp: is_inconclusive_def)

definition credited :: "'n node_row \<Rightarrow> bool" where
  "credited r \<longleftrightarrow> force_of_row r \<noteq> Inr INCONCLUSIVE \<and>
     \<not> (nr_replay_status r = Some ''mismatch'' \<and> force_of_row r = Inr COUNTS)"

lemma is_refuted_True: "is_refuted r = Inr True \<longleftrightarrow> nr_replay_status r = Some ''mismatch'' \<and> force_of_row r = Inr COUNTS"
  by (auto simp: is_refuted_def ebind_eq_Inr)

lemma is_refuted_readable: "source_readable r \<Longrightarrow> \<exists>b. is_refuted r = Inr b"
  unfolding force_of_row_readable [symmetric] by (auto simp: is_refuted_def)

definition uncredited_tags :: "'n node_row list \<Rightarrow> string set" where
  "uncredited_tags nodes = nr_tag ` {r \<in> set nodes. \<not> credited r}"

lemma neutralize_Inr:
  assumes "all_readable nodes"
  shows "neutralize_unreceipted nodes False =
    Inr (map (\<lambda>r. if nr_tag r \<in> uncredited_tags nodes then neutral r else r) nodes)"
proof -
  let ?inc = "map nr_tag (filter (\<lambda>r. is_inconclusive r = Inr True) nodes)"
  let ?ref = "map nr_tag (filter (\<lambda>r. is_refuted r = Inr True) nodes)"
  have rd: "r \<in> set nodes \<Longrightarrow> source_readable r" for r using assms by (simp add: all_readable_def)
  have "tags_where is_inconclusive nodes = Inr ?inc"
    unfolding tags_where_Inr using rd by (auto simp: is_inconclusive_Inr)
  moreover have "tags_where is_refuted nodes = Inr ?ref"
    unfolding tags_where_Inr using rd is_refuted_readable by blast
  ultimately have part: "partition_unreceipted nodes = Inr (?inc, ?ref)" by (simp add: partition_unreceipted_def)
  have un: "set ?inc \<union> set ?ref = uncredited_tags nodes"
    using rd by (auto simp: uncredited_tags_def credited_def is_inconclusive_Inr is_refuted_True image_iff)
  show ?thesis
  proof (cases "uncredited_tags nodes = {}")
    case True
    with un part show ?thesis by (simp add: neutralize_unreceipted_def Let_def)
  next
    case False
    have "neutralize_unreceipted nodes False = Inr (map (\<lambda>r. if nr_tag r \<notin> uncredited_tags nodes then r else neutral r) nodes)"
      using False un by (simp only: neutralize_unreceipted_def part ebind_Inr prod.case Let_def if_False)
    moreover have "map (\<lambda>r. if nr_tag r \<notin> uncredited_tags nodes then r else neutral r) nodes =
      map (\<lambda>r. if nr_tag r \<in> uncredited_tags nodes then neutral r else r) nodes" by (rule map_cong) auto
    ultimately show ?thesis by simp
  qed
qed

lemma neutral_sel [simp]:
  "nr_tag (neutral r) = nr_tag r" "nr_verdict (neutral r) = Some ''_inconclusive_unscored''"
  "nr_novel_confirmed (neutral r) = False" "nr_metric_value (neutral r) = None"
  "nr_verdict_source (neutral r) = nr_verdict_source r" "nr_replay_status (neutral r) = nr_replay_status r"
  "nr_current_receipt_sha (neutral r) = nr_current_receipt_sha r"
  "nr_measurement_grade (neutral r) = nr_measurement_grade r" "source_readable (neutral r) = source_readable r"
  by (simp_all add: neutral_def source_readable_def)

lemma neutral_idem [simp]: "neutral (neutral r) = neutral r"
  by (simp add: neutral_def)

end
