(* ===== verification/Node_State.thy ===== *)
theory Node_State
  imports Verdict_Facts
begin

text \<open>
  \<^verbatim>\<open>lakatos/node_state.py\<close>: the lifecycle state of a node, derived from its row, and the
  table of legal transitions.
\<close>

datatype node_state =
    DRAFT | PREDICTED | MEASURED | JUDGED_SCRIPTED | NODE_INCONCLUSIVE | CANONICAL_CANDIDATE
  | CANONICAL | FORMER_CANONICAL | REJECTED | DIFFERENT_PROGRAMME | ADMINISTRATIVE

primrec node_state_value :: "node_state \<Rightarrow> string" where
  "node_state_value DRAFT = ''DRAFT''"
| "node_state_value PREDICTED = ''PREDICTED''"
| "node_state_value MEASURED = ''MEASURED''"
| "node_state_value JUDGED_SCRIPTED = ''JUDGED_SCRIPTED''"
| "node_state_value NODE_INCONCLUSIVE = ''INCONCLUSIVE''"
| "node_state_value CANONICAL_CANDIDATE = ''CANONICAL_CANDIDATE''"
| "node_state_value CANONICAL = ''CANONICAL''"
| "node_state_value FORMER_CANONICAL = ''FORMER_CANONICAL''"
| "node_state_value REJECTED = ''REJECTED''"
| "node_state_value DIFFERENT_PROGRAMME = ''DIFFERENT_PROGRAMME''"
| "node_state_value ADMINISTRATIVE = ''ADMINISTRATIVE''"

definition DRAFT_VERDICTS :: "string option set" where
  "DRAFT_VERDICTS = {Some '''', Some ''proof'', None}"

definition derive_node_state :: "'n node_row \<Rightarrow> verdict_error + node_state" where
  "derive_node_state row =
     (let verdict = nr_verdict row in
      ebind (force_of_row row) (\<lambda>force.
        if verdict = Some ''CANONICAL'' then Inr CANONICAL
        else if verdict = Some ''former_canonical'' then Inr FORMER_CANONICAL
        else if verdict = Some ''different_programme'' then Inr DIFFERENT_PROGRAMME
        else if force = INCONCLUSIVE then Inr NODE_INCONCLUSIVE
        else if is_in verdict REJECTING_VERDICTS then Inr REJECTED
        else if force = COUNTS then
          (if is_in verdict PROGRESS_VERDICTS \<and> nr_novel_confirmed row then Inr CANONICAL_CANDIDATE
           else Inr JUDGED_SCRIPTED)
        else if \<not> falsy (nr_judged_at row) \<or> nr_metric_value row \<noteq> None then Inr MEASURED
        else if \<not> falsy (nr_pred_registered_at row) \<or> \<not> falsy (nr_pred_metric row) \<or> nr_pred_baseline row \<noteq> None
        then Inr PREDICTED
        else if verdict \<notin> DRAFT_VERDICTS \<or> \<not> falsy (got (nr_verdict_source row)) then Inr ADMINISTRATIVE
        else Inr DRAFT))"

definition derive_state_value :: "'n node_row \<Rightarrow> verdict_error + string" where
  "derive_state_value row = ebind (derive_node_state row) (\<lambda>s. Inr (node_state_value s))"

primrec ALLOWED_TRANSITIONS :: "node_state \<Rightarrow> node_state set" where
  "ALLOWED_TRANSITIONS DRAFT = {DRAFT, PREDICTED, CANONICAL, ADMINISTRATIVE}"
| "ALLOWED_TRANSITIONS PREDICTED =
     {PREDICTED, MEASURED, JUDGED_SCRIPTED, NODE_INCONCLUSIVE, CANONICAL_CANDIDATE, REJECTED, DIFFERENT_PROGRAMME}"
| "ALLOWED_TRANSITIONS MEASURED =
     {MEASURED, JUDGED_SCRIPTED, NODE_INCONCLUSIVE, CANONICAL_CANDIDATE, REJECTED, DIFFERENT_PROGRAMME}"
| "ALLOWED_TRANSITIONS JUDGED_SCRIPTED =
     {JUDGED_SCRIPTED, CANONICAL_CANDIDATE, CANONICAL, FORMER_CANONICAL, ADMINISTRATIVE}"
| "ALLOWED_TRANSITIONS NODE_INCONCLUSIVE =
     {NODE_INCONCLUSIVE, PREDICTED, JUDGED_SCRIPTED, CANONICAL_CANDIDATE, CANONICAL, REJECTED, DIFFERENT_PROGRAMME}"
| "ALLOWED_TRANSITIONS CANONICAL_CANDIDATE =
     {CANONICAL_CANDIDATE, CANONICAL, FORMER_CANONICAL, REJECTED, DIFFERENT_PROGRAMME, ADMINISTRATIVE}"
| "ALLOWED_TRANSITIONS CANONICAL = {CANONICAL, FORMER_CANONICAL}"
| "ALLOWED_TRANSITIONS FORMER_CANONICAL = {FORMER_CANONICAL, ADMINISTRATIVE}"
| "ALLOWED_TRANSITIONS REJECTED = {REJECTED, ADMINISTRATIVE}"
| "ALLOWED_TRANSITIONS DIFFERENT_PROGRAMME = {DIFFERENT_PROGRAMME, ADMINISTRATIVE}"
| "ALLOWED_TRANSITIONS ADMINISTRATIVE = {ADMINISTRATIVE, PREDICTED}"

definition transition_allowed :: "node_state \<Rightarrow> node_state \<Rightarrow> bool" where
  "transition_allowed before after \<longleftrightarrow> after \<in> ALLOWED_TRANSITIONS before"

definition assert_transition_allowed :: "node_state \<Rightarrow> node_state \<Rightarrow> verdict_error + unit" where
  "assert_transition_allowed before after =
     raise_if (\<not> transition_allowed before after)
       (IllegalNodeTransition (''illegal node state transition: '' @ node_state_value before @ '' -> '' @ node_state_value after))"

section \<open>Life histories\<close>

text \<open>A sequence of states each of whose steps passes the assertion.\<close>

fun legal_history :: "node_state list \<Rightarrow> bool" where
  "legal_history (s # t # ss) \<longleftrightarrow> assert_transition_allowed s t = Inr () \<and> legal_history (t # ss)"
| "legal_history _ \<longleftrightarrow> True"

lemma assert_transition_Inr: "assert_transition_allowed s t = Inr u \<longleftrightarrow> t \<in> ALLOWED_TRANSITIONS s"
  by (simp add: assert_transition_allowed_def transition_allowed_def check_simps)

lemma legal_history_Cons:
  "legal_history (s # ss) \<longleftrightarrow> ss = [] \<or> hd ss \<in> ALLOWED_TRANSITIONS s \<and> legal_history ss"
  by (cases ss) (auto simp: assert_transition_Inr)

lemma no_return_to_draft: "DRAFT \<in> ALLOWED_TRANSITIONS s \<longleftrightarrow> s = DRAFT"
  by (cases s) auto

text \<open>The states whose node has lost its standing: the way back leads through a new prediction.\<close>

definition fallen :: "node_state \<Rightarrow> bool" where
  "fallen s \<longleftrightarrow> s \<in> {FORMER_CANONICAL, REJECTED, DIFFERENT_PROGRAMME, ADMINISTRATIVE}"

lemma fallen_step: "t \<in> ALLOWED_TRANSITIONS s \<Longrightarrow> fallen s \<Longrightarrow> fallen t \<or> t = PREDICTED"
  by (cases s) (auto simp: fallen_def)

lemma fallen_history:
  "legal_history (s # ss) \<Longrightarrow> fallen s \<Longrightarrow> PREDICTED \<notin> set ss \<Longrightarrow> list_all fallen ss"
proof (induction ss arbitrary: s)
  case Nil
  then show ?case by simp
next
  case (Cons t ss)
  from Cons.prems(1) have "t \<in> ALLOWED_TRANSITIONS s" "legal_history (t # ss)" by (simp_all add: legal_history_Cons)
  with Cons fallen_step [of t s] show ?case by auto
qed

lemma canonical_history:
  "legal_history (CANONICAL # ss) \<Longrightarrow> FORMER_CANONICAL \<notin> set ss \<Longrightarrow> list_all (\<lambda>s. s = CANONICAL) ss"
proof (induction ss)
  case Nil
  then show ?case by simp
next
  case (Cons t ss)
  from Cons.prems have "t = CANONICAL" by (auto simp: legal_history_Cons)
  with Cons show ?case by (simp add: legal_history_Cons)
qed

lemma candidate_facts:
  assumes "derive_node_state r = Inr CANONICAL_CANDIDATE"
  shows "force_of_row r = Inr COUNTS" "is_in (nr_verdict r) PROGRESS_VERDICTS" "nr_novel_confirmed r"
  using assms by (auto simp: derive_node_state_def Let_def ebind_eq_Inr split: if_splits)

lemma derive_node_state_readable: "(\<exists>s. derive_node_state r = Inr s) \<longleftrightarrow> source_readable r"
  unfolding force_of_row_readable [symmetric]
  by (cases "force_of_row r") (auto simp: derive_node_state_def Let_def)

lemma credited_or_neutral:
  assumes "neutralize_unreceipted nodes False = Inr ns" and "all_readable nodes" and "q \<in> set ns"
  shows "credited q \<and> (\<exists>r \<in> set nodes. q = r) \<or> (\<exists>r \<in> set nodes. q = neutral r)"
proof -
  from assms(1) neutralize_Inr [OF assms(2)]
  have "ns = map (\<lambda>r. if nr_tag r \<in> uncredited_tags nodes then neutral r else r) nodes" by simp
  with assms(3) obtain r where r: "r \<in> set nodes" "q = (if nr_tag r \<in> uncredited_tags nodes then neutral r else r)"
    by auto
  then show ?thesis by (auto simp: uncredited_tags_def)
qed

end
