(* ===== verification/Frontier_State.thy ===== *)
theory Frontier_State
  imports Verdict_Force
begin

text \<open>
  \<^verbatim>\<open>lakatos/frontier_state.py\<close>: the reducer of a frontier question's life, and the state
  machine \<^verbatim>\<open>docs/data/frontier_question_fsm.v1.json\<close> that the module names as its
  authoritative semantics.
\<close>

section \<open>The reducer\<close>

datatype question_state = Q_OPEN | Q_CLOSED

datatype question_event = E_OPEN | E_CLOSE | E_ADJUDICATED | E_REATTRIBUTE

datatype question_effect = UPDATE_METADATA | RECORD_CLOSURE | APPEND_CLOSER

primrec question_state_value :: "question_state \<Rightarrow> string" where
  "question_state_value Q_OPEN = ''OPEN''"
| "question_state_value Q_CLOSED = ''CLOSED''"

primrec question_event_value :: "question_event \<Rightarrow> string" where
  "question_event_value E_OPEN = ''OPEN''"
| "question_event_value E_CLOSE = ''CLOSE''"
| "question_event_value E_ADJUDICATED = ''ADJUDICATED''"
| "question_event_value E_REATTRIBUTE = ''REATTRIBUTE''"

record question_transition =
  qt_state :: question_state
  qt_effects :: "question_effect list"
  qt_transition_id :: string

definition transition_changed :: "question_transition \<Rightarrow> bool" where
  "transition_changed t \<longleftrightarrow> qt_effects t \<noteq> []"

definition QUESTION_TRANSITIONS :: "((question_state \<times> question_event) \<times> question_transition) list" where
  "QUESTION_TRANSITIONS =
     [((Q_OPEN, E_OPEN),
         \<lparr>qt_state = Q_OPEN, qt_effects = [UPDATE_METADATA], qt_transition_id = ''refresh-open''\<rparr>),
      ((Q_OPEN, E_CLOSE),
         \<lparr>qt_state = Q_CLOSED, qt_effects = [RECORD_CLOSURE], qt_transition_id = ''close''\<rparr>),
      ((Q_CLOSED, E_CLOSE),
         \<lparr>qt_state = Q_CLOSED, qt_effects = [], qt_transition_id = ''duplicate-close''\<rparr>),
      ((Q_CLOSED, E_ADJUDICATED),
         \<lparr>qt_state = Q_CLOSED, qt_effects = [], qt_transition_id = ''duplicate-adjudication''\<rparr>)]"

definition valid_receipt_sha :: "string option \<Rightarrow> bool" where
  "valid_receipt_sha receipt_sha \<longleftrightarrow>
     (case receipt_sha of None \<Rightarrow> False
      | Some s \<Rightarrow> length s = 64 \<and> list_all (\<lambda>c. c \<in> set ''0123456789abcdef'') s)"

definition MIN_CLOSURE_ASSURANCE :: int where
  "MIN_CLOSURE_ASSURANCE = 2"

text \<open>The keyword arguments of \<^verbatim>\<open>step\<close>: what an adjudication carries.\<close>

record evidence =
  ev_verdict :: "string option"
  ev_receipt_sha :: "string option"
  ev_assurance_level :: "int option"
  ev_qualitative_self_report :: bool

definition receipt_backed_conclusive :: "evidence \<Rightarrow> bool" where
  "receipt_backed_conclusive ev \<longleftrightarrow>
     valid_receipt_sha (ev_receipt_sha ev) \<and> is_in (ev_verdict ev) QUESTION_ANSWER_VERDICTS \<and>
     (case ev_assurance_level ev of None \<Rightarrow> False | Some n \<Rightarrow> n \<ge> MIN_CLOSURE_ASSURANCE) \<and>
     \<not> ev_qualitative_self_report ev"

definition table_step :: "question_state \<Rightarrow> question_event \<Rightarrow> verdict_error + question_transition" where
  "table_step s e =
     (case map_of QUESTION_TRANSITIONS (s, e) of
        Some t \<Rightarrow> Inr t
      | None \<Rightarrow> Inl (InvalidQuestionTransition
          (''invalid frontier transition: '' @ question_state_value s @ '' + '' @ question_event_value e)))"

definition question_step :: "question_state \<Rightarrow> question_event \<Rightarrow> evidence \<Rightarrow> verdict_error + question_transition" where
  "question_step s e ev =
     (if e = E_ADJUDICATED then
        (if \<not> valid_receipt_sha (ev_receipt_sha ev) then
           Inl (InvalidQuestionTransition
             ''ADJUDICATED requires a lowercase sha256 receipt identity; self-report cannot close a question'')
         else if s = Q_OPEN then
           (if receipt_backed_conclusive ev then
              Inr \<lparr>qt_state = Q_CLOSED, qt_effects = [RECORD_CLOSURE], qt_transition_id = ''adjudication-close''\<rparr>
            else Inr \<lparr>qt_state = Q_OPEN, qt_effects = [], qt_transition_id = ''adjudication-retain-open''\<rparr>)
         else table_step s e)
      else if e = E_REATTRIBUTE then
        (if \<not> valid_receipt_sha (ev_receipt_sha ev) then
           Inl (InvalidQuestionTransition
             ''REATTRIBUTE requires a lowercase sha256 receipt identity; self-report cannot reattribute a closed question'')
         else if s = Q_OPEN then
           Inl (InvalidQuestionTransition
             ''REATTRIBUTE is only valid on CLOSED; use CLOSE or ADJUDICATED on OPEN'')
         else if receipt_backed_conclusive ev then
           Inr \<lparr>qt_state = Q_CLOSED, qt_effects = [APPEND_CLOSER], qt_transition_id = ''reattribute-append''\<rparr>
         else Inr \<lparr>qt_state = Q_CLOSED, qt_effects = [], qt_transition_id = ''reattribute-retain''\<rparr>)
      else table_step s e)"

section \<open>The published state machine\<close>

record fsm_row =
  fr_id :: string
  fr_from :: question_state
  fr_event :: question_event
  fr_to :: question_state
  fr_guarded :: bool
  fr_effects :: "question_effect list"

definition fsm_rows :: "fsm_row list" where
  "fsm_rows =
     [\<lparr>fr_id = ''refresh-open'', fr_from = Q_OPEN, fr_event = E_OPEN, fr_to = Q_OPEN, fr_guarded = False,
         fr_effects = [UPDATE_METADATA]\<rparr>,
      \<lparr>fr_id = ''close'', fr_from = Q_OPEN, fr_event = E_CLOSE, fr_to = Q_CLOSED, fr_guarded = False,
         fr_effects = [RECORD_CLOSURE]\<rparr>,
      \<lparr>fr_id = ''duplicate-close'', fr_from = Q_CLOSED, fr_event = E_CLOSE, fr_to = Q_CLOSED, fr_guarded = False,
         fr_effects = []\<rparr>,
      \<lparr>fr_id = ''adjudication-close'', fr_from = Q_OPEN, fr_event = E_ADJUDICATED, fr_to = Q_CLOSED, fr_guarded = True,
         fr_effects = [RECORD_CLOSURE]\<rparr>,
      \<lparr>fr_id = ''adjudication-retain-open'', fr_from = Q_OPEN, fr_event = E_ADJUDICATED, fr_to = Q_OPEN,
         fr_guarded = False, fr_effects = []\<rparr>,
      \<lparr>fr_id = ''duplicate-adjudication'', fr_from = Q_CLOSED, fr_event = E_ADJUDICATED, fr_to = Q_CLOSED,
         fr_guarded = False, fr_effects = []\<rparr>,
      \<lparr>fr_id = ''reattribute-append'', fr_from = Q_CLOSED, fr_event = E_REATTRIBUTE, fr_to = Q_CLOSED, fr_guarded = True,
         fr_effects = [APPEND_CLOSER]\<rparr>,
      \<lparr>fr_id = ''reattribute-retain'', fr_from = Q_CLOSED, fr_event = E_REATTRIBUTE, fr_to = Q_CLOSED,
         fr_guarded = False, fr_effects = []\<rparr>]"

text \<open>
  An event with a receipt is admitted when its receipt identity matches the schema's pattern;
  then the first row, in the order of priorities, whose guard holds is taken; without one the
  event is rejected.
\<close>

definition fsm_admits :: "question_event \<Rightarrow> evidence \<Rightarrow> bool" where
  "fsm_admits e ev \<longleftrightarrow>
     (if e = E_ADJUDICATED \<or> e = E_REATTRIBUTE then valid_receipt_sha (ev_receipt_sha ev) else True)"

definition fsm_enabled :: "question_state \<Rightarrow> question_event \<Rightarrow> evidence \<Rightarrow> fsm_row \<Rightarrow> bool" where
  "fsm_enabled s e ev row \<longleftrightarrow>
     fr_from row = s \<and> fr_event row = e \<and> (if fr_guarded row then receipt_backed_conclusive ev else True)"

definition fsm_step :: "question_state \<Rightarrow> question_event \<Rightarrow> evidence \<Rightarrow> fsm_row option" where
  "fsm_step s e ev = (if fsm_admits e ev then find (fsm_enabled s e ev) fsm_rows else None)"

definition row_transition :: "fsm_row \<Rightarrow> question_transition" where
  "row_transition row = \<lparr>qt_state = fr_to row, qt_effects = fr_effects row, qt_transition_id = fr_id row\<rparr>"

section \<open>Runs\<close>

text \<open>Events reduced one at a time, with the effects commanded on the way.\<close>

fun question_run :: "question_state \<Rightarrow> (question_event \<times> evidence) list \<Rightarrow>
    verdict_error + (question_state \<times> question_effect list)" where
  "question_run s [] = Inr (s, [])"
| "question_run s ((e, ev) # es) =
     ebind (question_step s e ev) (\<lambda>t.
     ebind (question_run (qt_state t) es) (\<lambda>(s', effs). Inr (s', qt_effects t @ effs)))"

lemma question_step_cases:
  assumes "question_step s e ev = Inr t"
  obtains
    (refresh) "s = Q_OPEN" "e = E_OPEN" "qt_state t = Q_OPEN" "qt_effects t = [UPDATE_METADATA]"
  | (close) "s = Q_OPEN" "e = E_CLOSE" "qt_state t = Q_CLOSED" "qt_effects t = [RECORD_CLOSURE]"
  | (adjudicate) "s = Q_OPEN" "e = E_ADJUDICATED" "receipt_backed_conclusive ev" "qt_state t = Q_CLOSED"
      "qt_effects t = [RECORD_CLOSURE]"
  | (retain) "s = Q_OPEN" "e = E_ADJUDICATED" "\<not> receipt_backed_conclusive ev" "qt_state t = Q_OPEN" "qt_effects t = []"
  | (again) "s = Q_CLOSED" "e = E_CLOSE \<or> e = E_ADJUDICATED" "qt_state t = Q_CLOSED" "qt_effects t = []"
  | (append) "s = Q_CLOSED" "e = E_REATTRIBUTE" "receipt_backed_conclusive ev" "qt_state t = Q_CLOSED"
      "qt_effects t = [APPEND_CLOSER]"
  | (keep) "s = Q_CLOSED" "e = E_REATTRIBUTE" "\<not> receipt_backed_conclusive ev" "qt_state t = Q_CLOSED" "qt_effects t = []"
  using assms
  by (cases s; cases e) (auto simp: question_step_def table_step_def QUESTION_TRANSITIONS_def split: if_splits)

lemma closed_step: "question_step Q_CLOSED e ev = Inr t \<Longrightarrow> qt_state t = Q_CLOSED \<and> RECORD_CLOSURE \<notin> set (qt_effects t)"
  by (erule question_step_cases) auto

lemma closed_run: "question_run Q_CLOSED es = Inr (s, effs) \<Longrightarrow> s = Q_CLOSED \<and> RECORD_CLOSURE \<notin> set effs"
proof (induction es arbitrary: s effs)
  case Nil
  then show ?case by simp
next
  case (Cons x es)
  obtain e ev where x: "x = (e, ev)" by (cases x)
  from Cons.prems x obtain t effs' where t: "question_step Q_CLOSED e ev = Inr t"
    and r: "question_run (qt_state t) es = Inr (s, effs')" and effs: "effs = qt_effects t @ effs'"
    by (auto simp: ebind_eq_Inr)
  from closed_step [OF t] Cons.IH [of s effs'] r effs show ?case by auto
qed

lemma open_run_count:
  "question_run Q_OPEN es = Inr (s, effs) \<Longrightarrow>
     length (filter (\<lambda>f. f = RECORD_CLOSURE) effs) = (if s = Q_CLOSED then 1 else 0)"
proof (induction es arbitrary: s effs)
  case Nil
  then show ?case by auto
next
  case (Cons x es)
  obtain e ev where x: "x = (e, ev)" by (cases x)
  from Cons.prems x obtain t effs' where t: "question_step Q_OPEN e ev = Inr t"
    and r: "question_run (qt_state t) es = Inr (s, effs')" and effs: "effs = qt_effects t @ effs'"
    by (auto simp: ebind_eq_Inr)
  show ?case
  proof (cases "qt_state t")
    case Q_OPEN
    from t have "RECORD_CLOSURE \<notin> set (qt_effects t)" by (rule question_step_cases) (use Q_OPEN in auto)
    then have "filter (\<lambda>f. f = RECORD_CLOSURE) (qt_effects t) = []" by (auto simp: filter_empty_conv)
    with Cons.IH [of s effs'] r Q_OPEN effs show ?thesis by simp
  next
    case Q_CLOSED
    from t have "qt_effects t = [RECORD_CLOSURE]" by (rule question_step_cases) (use Q_CLOSED in auto)
    moreover from closed_run [of es s effs'] r Q_CLOSED have "s = Q_CLOSED" "RECORD_CLOSURE \<notin> set effs'" by auto
    moreover from this(2) have "filter (\<lambda>f. f = RECORD_CLOSURE) effs' = []" by (auto simp: filter_empty_conv)
    ultimately show ?thesis using effs by simp
  qed
qed

lemma question_run_append:
  "question_run s (es @ fs) =
     ebind (question_run s es) (\<lambda>(s', effs). ebind (question_run s' fs) (\<lambda>(s'', effs'). Inr (s'', effs @ effs')))"
proof (induction es arbitrary: s)
  case Nil
  then show ?case by (cases "question_run s fs") auto
next
  case (Cons x es)
  obtain e ev where x: "x = (e, ev)" by (cases x)
  show ?case
    by (cases "question_step s e ev") (auto simp: x Cons.IH ebind_assoc ebind_def split: sum.splits)
qed

end
