(* ===== verification/Verdict_Chain.thy ===== *)
theory Verdict_Chain
  imports Verdict_Force
begin

text \<open>
  \<^verbatim>\<open>fold_receipt_chain\<close> of \<^verbatim>\<open>lakatos/verdicts.py\<close>: the current verdict of
  a node is the head of its receipt chain, accepted only when following the links from the head
  reaches the genesis receipt. \<open>reaches_genesis\<close> is the chain as a relation; the loop decides
  it, and always ends.
\<close>

section \<open>The loop\<close>

record receipt =
  rc_receipt_sha :: string
  rc_prev_receipt_sha :: "string option"
  rc_verdict :: "string option"
  rc_verdict_source :: "string option"

record folded =
  fd_verdict :: "string option"
  fd_verdict_source :: "string option"
  fd_from_receipt :: bool

text \<open>\<^verbatim>\<open>{r['receipt_sha']: r for r in receipts}\<close>: of two entries with one key the last stays.\<close>

type_synonym by_sha = "(string \<times> receipt) list"

definition by_receipt_sha :: "receipt list \<Rightarrow> by_sha" where
  "by_receipt_sha receipts = rev (map (\<lambda>r. (rc_receipt_sha r, r)) receipts)"

text \<open>The loop \<^verbatim>\<open>while cur is not None\<close> with its set of visited identities.\<close>

function walk_chain :: "by_sha \<Rightarrow> string set \<Rightarrow> string option \<Rightarrow> verdict_error + unit" where
  "walk_chain idx seen None = Inr ()"
| "walk_chain idx seen (Some cur) =
     (if cur \<in> seen then Inl (ChainCycle cur)
      else case map_of idx cur of
        None \<Rightarrow> Inl (BrokenLink cur)
      | Some r \<Rightarrow> walk_chain idx (insert cur seen) (rc_prev_receipt_sha r))"
  by pat_completeness auto

termination
proof (relation "measure (\<lambda>(idx, seen, _). card (fst ` set idx - seen))")
  fix idx :: by_sha and seen cur r
  assume new: "cur \<notin> seen" and found: "map_of idx cur = Some r"
  from found have "cur \<in> fst ` set idx" by (force dest: map_of_SomeD)
  with new have "fst ` set idx - insert cur seen \<subset> fst ` set idx - seen" by blast
  then have "card (fst ` set idx - insert cur seen) < card (fst ` set idx - seen)"
    by (rule psubset_card_mono [rotated]) simp
  then show "((idx, insert cur seen, rc_prev_receipt_sha r), (idx, seen, Some cur))
    \<in> measure (\<lambda>(idx, seen, _). card (fst ` set idx - seen))" by simp
qed simp

definition fold_receipt_chain ::
    "receipt list \<Rightarrow> string option \<Rightarrow> string option \<Rightarrow> string option \<Rightarrow> verdict_error + folded" where
  "fold_receipt_chain receipts head_sha cache_verdict cache_source =
     (let idx = by_receipt_sha receipts in
      if falsy head_sha \<and> idx = [] then
        Inr \<lparr>fd_verdict = cache_verdict, fd_verdict_source = cache_source, fd_from_receipt = False\<rparr>
      else case head_sha of
        None \<Rightarrow> Inl (DanglingHead head_sha)
      | Some h \<Rightarrow>
          (case map_of idx h of
             None \<Rightarrow> Inl (DanglingHead head_sha)
           | Some head \<Rightarrow>
               ebind (walk_chain idx {} head_sha) (\<lambda>_.
                 Inr \<lparr>fd_verdict = rc_verdict head, fd_verdict_source = rc_verdict_source head, fd_from_receipt = True\<rparr>)))"

section \<open>The chain as a relation\<close>

inductive reaches_genesis :: "by_sha \<Rightarrow> string option \<Rightarrow> bool" for idx where
  genesis: "reaches_genesis idx None"
| link: "map_of idx cur = Some r \<Longrightarrow> reaches_genesis idx (rc_prev_receipt_sha r) \<Longrightarrow> reaches_genesis idx (Some cur)"

inductive_simps reaches_genesis_Some: "reaches_genesis idx (Some cur)"

text \<open>One step back along the chain, and the identities met on the way.\<close>

inductive met_from :: "by_sha \<Rightarrow> string option \<Rightarrow> string \<Rightarrow> bool" for idx where
  here: "met_from idx (Some cur) cur"
| behind: "map_of idx cur = Some r \<Longrightarrow> met_from idx (rc_prev_receipt_sha r) x \<Longrightarrow> met_from idx (Some cur) x"

inductive_simps met_from_None: "met_from idx None x"
inductive_simps met_from_Some: "met_from idx (Some cur) x"

text \<open>Nothing on a chain that ends leads back to where it came from.\<close>

lemma met_from_trans: "met_from idx p x \<Longrightarrow> met_from idx (Some x) y \<Longrightarrow> met_from idx p y"
  by (induction rule: met_from.induct) (auto intro: met_from.intros)

lemma reaches_genesis_acyclic:
  assumes "reaches_genesis idx p" and "p = Some cur" and "map_of idx cur = Some r"
  shows "\<not> met_from idx (rc_prev_receipt_sha r) cur"
  using assms
proof (induction arbitrary: cur r rule: reaches_genesis.induct)
  case genesis
  then show ?case by simp
next
  case (link c q)
  then have eq: "c = cur" "q = r" by auto
  show ?case
  proof
    assume m: "met_from idx (rc_prev_receipt_sha r) cur"
    then obtain c' where c': "rc_prev_receipt_sha r = Some c'" by (cases "rc_prev_receipt_sha r") (auto simp: met_from_None)
    from link.hyps(2) eq c' obtain r' where r': "map_of idx c' = Some r'" by (auto simp: reaches_genesis_Some)
    have "met_from idx (rc_prev_receipt_sha r') c'"
    proof (cases "c' = cur")
      case True
      with r' link.prems m c' show ?thesis by auto
    next
      case False
      with m c' r' have "met_from idx (rc_prev_receipt_sha r') cur" by (simp add: met_from_Some)
      moreover have "met_from idx (Some cur) c'" using link.prems(2) c' met_from.here [of idx c']
        by (auto intro: met_from.behind)
      ultimately show ?thesis by (rule met_from_trans)
    qed
    with link.IH [of c' r'] eq c' r' show False by simp
  qed
qed

lemma walk_chain_sound: "walk_chain idx seen p = Inr u \<Longrightarrow> reaches_genesis idx p"
  by (induction idx seen p rule: walk_chain.induct)
    (auto intro: reaches_genesis.intros split: if_splits option.splits)

lemma walk_chain_complete:
  assumes "reaches_genesis idx p" and "\<forall>x \<in> seen. \<not> met_from idx p x"
  shows "walk_chain idx seen p = Inr ()"
  using assms
proof (induction arbitrary: seen rule: reaches_genesis.induct)
  case genesis
  then show ?case by simp
next
  case (link cur r)
  have "\<not> met_from idx (rc_prev_receipt_sha r) cur"
    by (rule reaches_genesis_acyclic [OF reaches_genesis.link [OF link.hyps] refl link.hyps(1)])
  then have "\<forall>x \<in> insert cur seen. \<not> met_from idx (rc_prev_receipt_sha r) x"
    using link.prems link.hyps(1) by (auto intro: met_from.behind)
  moreover have "cur \<notin> seen" using link.prems by (auto intro: met_from.here)
  ultimately show ?case using link.IH link.hyps(1) by simp
qed

lemma walk_chain_iff: "walk_chain idx {} p = Inr () \<longleftrightarrow> reaches_genesis idx p"
  using walk_chain_sound walk_chain_complete by blast

lemma walk_chain_result: "walk_chain idx {} p = Inr u \<longleftrightarrow> reaches_genesis idx p"
  using walk_chain_iff [of idx p] by simp

section \<open>Appending a receipt\<close>

text \<open>New receipts have new identities, so a chain that ended still ends.\<close>

lemma map_of_append_new: "k \<notin> fst ` set as \<Longrightarrow> map_of (as @ bs) k = map_of bs k"
  by (induction as) auto

lemma reaches_genesis_extend:
  assumes "reaches_genesis idx p" and "rc_receipt_sha n \<notin> fst ` set idx"
  shows "reaches_genesis ((rc_receipt_sha n, n) # idx) p"
  using assms(1)
proof induction
  case genesis
  show ?case by (rule reaches_genesis.genesis)
next
  case (link cur r)
  from link.hyps(1) have "cur \<in> fst ` set idx" by (force dest: map_of_SomeD)
  with assms(2) have "cur \<noteq> rc_receipt_sha n" by blast
  then have "map_of ((rc_receipt_sha n, n) # idx) cur = Some r" using link.hyps(1) by simp
  then show ?case using link.IH by (rule reaches_genesis.link)
qed

lemma by_receipt_sha_snoc: "by_receipt_sha (rs @ [n]) = (rc_receipt_sha n, n) # by_receipt_sha rs"
  by (simp add: by_receipt_sha_def)

lemma fst_by_receipt_sha: "fst ` set (by_receipt_sha rs) = rc_receipt_sha ` set rs"
  by (force simp: by_receipt_sha_def)

lemma by_receipt_sha_Nil: "by_receipt_sha rs = [] \<longleftrightarrow> rs = []"
  by (simp add: by_receipt_sha_def)

lemma fold_from_receipt:
  "fold_receipt_chain rs h cv cs = Inr f \<and> fd_from_receipt f \<longleftrightarrow>
     (\<exists>sha head. h = Some sha \<and> map_of (by_receipt_sha rs) sha = Some head \<and>
        reaches_genesis (by_receipt_sha rs) (rc_prev_receipt_sha head) \<and>
        f = \<lparr>fd_verdict = rc_verdict head, fd_verdict_source = rc_verdict_source head, fd_from_receipt = True\<rparr>)"
  (is "?L \<longleftrightarrow> ?R")
proof
  assume ?L
  then show ?R
    by (auto simp: fold_receipt_chain_def Let_def ebind_eq_Inr dest: walk_chain_sound
        split: if_splits option.splits)
next
  assume ?R
  then obtain sha head where f: "h = Some sha" "map_of (by_receipt_sha rs) sha = Some head"
    "reaches_genesis (by_receipt_sha rs) (rc_prev_receipt_sha head)"
    "f = \<lparr>fd_verdict = rc_verdict head, fd_verdict_source = rc_verdict_source head, fd_from_receipt = True\<rparr>" by blast
  from f(2,3) have "reaches_genesis (by_receipt_sha rs) (Some sha)" by (rule reaches_genesis.link)
  then have w: "walk_chain (by_receipt_sha rs) {} (Some sha) = Inr ()" by (simp only: walk_chain_iff)
  have "by_receipt_sha rs \<noteq> []" using f(2) by auto
  then have "\<not> (falsy (Some sha) \<and> by_receipt_sha rs = [])" by simp
  then show ?L using f w by (simp add: fold_receipt_chain_def Let_def)
qed

end
