(* ===== verification/Verdict_Properties.thy ===== *)
theory Verdict_Properties
  imports Node_State Frontier_State Verdict_Chain
begin

text \<open>The properties of verdict sources, receipt chains, node states and frontier questions.\<close>

section \<open>Receipt or self-report\<close>

text \<open>
  Reading the force of a row fails in exactly one case: its source is a non-empty string of
  whitespace, which is no token at all, and then the failure is the \<^verbatim>\<open>IndexError\<close> of
  taking the first word of nothing.
\<close>

theorem force_fails_only_on_blank_source:
  "force_of_row r = Inl e \<longleftrightarrow>
     (\<exists>s. nr_verdict_source r = Some (Some s) \<and> s \<noteq> [] \<and> str_blank s) \<and>
     e = IndexError ''list index out of range''"
  unfolding force_of_row_Inl by (auto simp: source_readable_def unreadable_def split: option.split)

text \<open>
  What counts as evidence. A row counts exactly when its source is readable and either the
  source is one of the four that carry force, its receipt pointer, where the row has one, is not
  empty and its value is not a client's unverified assertion, or the server regenerated the value,
  the replay verified it and a receipt is recorded.
\<close>

theorem counts_exactly:
  "force_of_row r = Inr COUNTS \<longleftrightarrow>
     (case nr_verdict_source r of None \<Rightarrow> True | Some raw \<Rightarrow> \<not> unreadable raw) \<and>
     ((\<exists>raw t. nr_verdict_source r = Some raw \<and> normalize_source raw = Inr (Some t) \<and> t \<in> FORCEFUL_SOURCES) \<and>
      \<not> (nr_current_receipt_sha r \<noteq> None \<and> falsy (got (nr_current_receipt_sha r))) \<and>
      \<not> (nr_measurement_grade r = Some ''client_asserted'' \<and> nr_replay_status r \<noteq> Some ''verified'')
      \<or>
      nr_measurement_grade r = Some ''server_regenerated'' \<and> nr_replay_status r = Some ''verified'' \<and>
      \<not> falsy (got (nr_current_receipt_sha r)))"
  unfolding force_of_row_COUNTS source_readable_def forceful_def receipt_missing_def unverified_claim_def
    replay_sealed_def by (rule refl)

lemma neutralize_reads: "neutralize_unreceipted nodes False = Inr ns \<Longrightarrow> all_readable nodes"
  unfolding neutralize_unreceipted_def partition_unreceipted_def all_readable_def
  by (auto simp: ebind_eq_Inr tags_where_Inr is_inconclusive_Inr)

lemma neutral_shows_nothing:
  "\<not> is_in (nr_verdict (neutral r)) PROGRESS_VERDICTS \<and> \<not> nr_novel_confirmed (neutral r) \<and> nr_metric_value (neutral r) = None"
  by (simp add: is_in_def PROGRESS_VERDICTS_def)

lemma uncredited_neutralized:
  assumes "ns = map (\<lambda>r. if nr_tag r \<in> uncredited_tags nodes then neutral r else r) nodes"
  shows "uncredited_tags ns \<subseteq> uncredited_tags nodes"
  unfolding assms by (auto simp: uncredited_tags_def split: if_splits)

lemma neutralize_twice:
  assumes "neutralize_unreceipted nodes False = Inr ns"
  shows "neutralize_unreceipted ns False = Inr ns"
proof -
  have rd: "all_readable nodes" by (rule neutralize_reads [OF assms])
  have ns: "ns = map (\<lambda>r. if nr_tag r \<in> uncredited_tags nodes then neutral r else r) nodes"
    using assms neutralize_Inr [OF rd] by simp
  have "all_readable ns" using rd by (auto simp: all_readable_def ns)
  moreover have "map (\<lambda>r. if nr_tag r \<in> uncredited_tags ns then neutral r else r) ns = ns"
  proof (rule map_idI)
    fix r assume r: "r \<in> set ns"
    show "(if nr_tag r \<in> uncredited_tags ns then neutral r else r) = r"
    proof (cases "nr_tag r \<in> uncredited_tags ns")
      case True
      with uncredited_neutralized [OF ns] have "nr_tag r \<in> uncredited_tags nodes" by blast
      with r ns obtain q where "r = neutral q" by auto
      then show ?thesis by simp
    qed simp
  qed
  ultimately show ?thesis by (simp add: neutralize_Inr)
qed

text \<open>
  Neutralisation leaves no credit behind. A row of the neutralised list that still shows a
  progress verdict, a confirmed novelty or a measured value is credited: its force is not
  inconclusive, and it is not a counted value that its replay refuted. Every row keeps its place
  and its tag, and neutralising again changes nothing.
\<close>

theorem neutral_rows_carry_no_credit:
  assumes "neutralize_unreceipted nodes False = Inr ns"
  shows "map nr_tag ns = map nr_tag nodes \<and> neutralize_unreceipted ns False = Inr ns \<and>
    (\<forall>r \<in> set ns. is_in (nr_verdict r) PROGRESS_VERDICTS \<or> nr_novel_confirmed r \<or> nr_metric_value r \<noteq> None \<longrightarrow>
       force_of_row r \<noteq> Inr INCONCLUSIVE \<and> (nr_replay_status r = Some ''mismatch'' \<longrightarrow> force_of_row r \<noteq> Inr COUNTS))"
proof (intro conjI ballI impI)
  have rd: "all_readable nodes" by (rule neutralize_reads [OF assms])
  have ns: "ns = map (\<lambda>r. if nr_tag r \<in> uncredited_tags nodes then neutral r else r) nodes"
    using assms neutralize_Inr [OF rd] by simp
  show "map nr_tag ns = map nr_tag nodes" by (auto simp: ns)
  show "neutralize_unreceipted ns False = Inr ns" by (rule neutralize_twice [OF assms])
  fix r assume r: "r \<in> set ns"
    and shown: "is_in (nr_verdict r) PROGRESS_VERDICTS \<or> nr_novel_confirmed r \<or> nr_metric_value r \<noteq> None"
  from credited_or_neutral [OF assms rd r] consider "credited r" | q where "r = neutral q" by blast
  then have "credited r"
  proof cases
    case 2
    with shown neutral_shows_nothing [of q] show ?thesis by simp
  qed
  then show "force_of_row r \<noteq> Inr INCONCLUSIVE" "nr_replay_status r = Some ''mismatch'' \<Longrightarrow> force_of_row r \<noteq> Inr COUNTS"
    by (simp_all add: credited_def)
qed

definition sample_row :: "int node_row" where
  "sample_row =
     \<lparr>nr_tag = ''n1'', nr_verdict = Some ''progressive'', nr_verdict_source = Some (Some ''scripted''),
      nr_current_receipt_sha = Some (Some ''r1''), nr_measurement_grade = Some ''server_regenerated'',
      nr_replay_status = Some ''verified'', nr_metric_value = Some 3, nr_novel_confirmed = True,
      nr_judged_at = Some ''2026-01-01'', nr_pred_registered_at = Some ''2025-12-01'', nr_pred_metric = Some ''loc'',
      nr_pred_baseline = Some 5, nr_measurement_lock_bound = True, nr_assurance_tier_resolved = Some ''anchored'',
      nr_attested_by_did = Some ''did:1'', nr_engine_rule_sha = Some ''e1'', nr_comment = None,
      nr_comment_sha_at_verdict = None\<rparr>"

definition unreceipted_row :: "int node_row" where
  "unreceipted_row = sample_row\<lparr>nr_tag := ''n2'', nr_verdict_source := Some None, nr_replay_status := None\<rparr>"

lemma sample_row_counts: "force_of_row sample_row = Inr COUNTS"
  by (simp add: force_of_row_def force_of_def sample_row_def normalize_source_def source_defs is_in_def falsy_def got_def)

lemma unreceipted_row_inconclusive: "force_of_row unreceipted_row = Inr INCONCLUSIVE"
  by (simp add: force_of_row_def force_of_def sample_row_def unreceipted_row_def is_in_def falsy_def PROGRESS_VERDICTS_def)

theorem neutral_rows_carry_no_credit_witness:
  "neutralize_unreceipted [sample_row, unreceipted_row] False = Inr [sample_row, neutral unreceipted_row] \<and>
   neutralize_unreceipted [sample_row, neutral unreceipted_row] False = Inr [sample_row, neutral unreceipted_row]"
proof -
  have tags: "nr_tag sample_row = ''n1''" "nr_tag unreceipted_row = ''n2''" "nr_replay_status sample_row = Some ''verified''"
    by (simp_all add: sample_row_def unreceipted_row_def)
  have "neutralize_unreceipted [sample_row, unreceipted_row] False = Inr [sample_row, neutral unreceipted_row]"
    using tags sample_row_counts unreceipted_row_inconclusive
    by (simp add: neutralize_unreceipted_def partition_unreceipted_def is_inconclusive_def is_refuted_def)
  with neutral_rows_carry_no_credit [OF this] show ?thesis by simp
qed

lemma ladder_levels:
  assumes "verdict_assurance r attestors chain_ok floor witness = Inr a"
  shows "as_val a \<le> 3 \<and>
    (1 \<le> as_val a \<longleftrightarrow> chain_ok \<noteq> Some False \<and> nr_replay_status r \<noteq> Some ''mismatch'' \<and> force_of_row r = Inr COUNTS) \<and>
    (2 \<le> as_val a \<longleftrightarrow> chain_ok \<noteq> Some False \<and> force_of_row r = Inr COUNTS \<and>
       nr_measurement_grade r = Some ''server_regenerated'' \<and> nr_replay_status r = Some ''verified'' \<and> nr_measurement_lock_bound r) \<and>
    (as_val a = 3 \<longleftrightarrow> 2 \<le> as_val a \<and> nr_assurance_tier_resolved r = Some ''anchored'' \<and>
       \<not> falsy (nr_attested_by_did r) \<and> listed_in (nr_attested_by_did r) attestors \<and>
       listed_in (nr_engine_rule_sha r) floor \<and> witness)"
proof -
  consider (broken) "chain_ok = Some False" | (refuted) "chain_ok \<noteq> Some False" "nr_replay_status r = Some ''mismatch''"
    | (read) f where "chain_ok \<noteq> Some False" "nr_replay_status r \<noteq> Some ''mismatch''" "force_of_row r = Inr f"
    using assms by (auto simp: verdict_assurance_def ebind_eq_Inr split: if_splits)
  then show ?thesis
  proof cases
    case broken
    with assms show ?thesis by (auto simp: verdict_assurance_def)
  next
    case refuted
    with assms show ?thesis by (auto simp: verdict_assurance_def)
  next
    case read
    note d = assms [unfolded verdict_assurance_def]
    show ?thesis
    proof (cases "f = COUNTS")
      case False
      with d read show ?thesis by auto
    next
      case counts: True
      show ?thesis
      proof (cases "nr_measurement_grade r = Some ''server_regenerated'' \<and> nr_replay_status r = Some ''verified''")
        case False
        with d read counts have "as_val a = 1" by auto
        with False read counts show ?thesis by auto
      next
        case sealed: True
        show ?thesis
        proof (cases "nr_measurement_lock_bound r")
          case False
          with d read counts sealed have "as_val a = 1" by auto
          with False read counts sealed show ?thesis by simp
        next
          case True
          with d read counts sealed show ?thesis by (auto split: if_splits)
        qed
      qed
    qed
  qed
qed

lemma level_two:
  assumes "verdict_assurance r attestors chain_ok floor witness = Inr a"
  shows "2 \<le> as_val a \<longleftrightarrow> chain_ok \<noteq> Some False \<and> force_of_row r = Inr COUNTS \<and>
    nr_measurement_grade r = Some ''server_regenerated'' \<and> nr_replay_status r = Some ''verified'' \<and> nr_measurement_lock_bound r"
  using ladder_levels [OF assms] by blast

text \<open>
  The assurance ladder. The level is at most three. It is at least one exactly for a counting
  row whose chain is not known to be broken and whose replay did not refute it; at least two
  exactly if moreover the server regenerated the value, the replay verified it and the receipt
  binds the measurement lock; three only with a listed attestor, a listed engine rule and a
  temporal witness.
\<close>

theorem assurance_ladder:
  assumes "verdict_assurance r attestors chain_ok floor witness = Inr a"
  shows "as_val a \<le> 3 \<and>
    (1 \<le> as_val a \<longleftrightarrow> chain_ok \<noteq> Some False \<and> nr_replay_status r \<noteq> Some ''mismatch'' \<and> force_of_row r = Inr COUNTS) \<and>
    (2 \<le> as_val a \<longleftrightarrow> chain_ok \<noteq> Some False \<and> force_of_row r = Inr COUNTS \<and>
       nr_measurement_grade r = Some ''server_regenerated'' \<and> nr_replay_status r = Some ''verified'' \<and> nr_measurement_lock_bound r) \<and>
    (as_val a = 3 \<longleftrightarrow> 2 \<le> as_val a \<and> nr_assurance_tier_resolved r = Some ''anchored'' \<and>
       \<not> falsy (nr_attested_by_did r) \<and> listed_in (nr_attested_by_did r) attestors \<and>
       listed_in (nr_engine_rule_sha r) floor \<and> witness)"
  by (rule ladder_levels [OF assms])

theorem assurance_ladder_witness:
  "\<exists>a. verdict_assurance sample_row (Some {''did:1''}) (Some True) (Some {''e1''}) True = Inr a \<and> as_val a = 3"
proof -
  have facts: "nr_measurement_grade sample_row = Some ''server_regenerated''" "nr_replay_status sample_row = Some ''verified''"
    "nr_measurement_lock_bound sample_row" "nr_assurance_tier_resolved sample_row = Some ''anchored''"
    "\<not> falsy (nr_attested_by_did sample_row)" "listed_in (nr_attested_by_did sample_row) (Some {''did:1''})"
    "listed_in (nr_engine_rule_sha sample_row) (Some {''e1''})"
    by (simp_all add: sample_row_def falsy_def listed_in_def is_in_def)
  then have a: "verdict_assurance sample_row (Some {''did:1''}) (Some True) (Some {''e1''}) True = Inr \<lparr>as_val = 3, as_basis = []\<rparr>"
    by (simp add: verdict_assurance_def sample_row_counts)
  from assurance_ladder [OF a] have "3 \<le> as_val \<lparr>as_val = 3, as_basis = []\<rparr>" by simp
  with a show ?thesis by auto
qed

section \<open>Receipt chains\<close>


text \<open>
  Receipts are only ever added. A receipt with a new identity that links to the current head
  becomes the head, with its own verdict, and every chain that could be folded before still folds
  to the same verdict.
\<close>

theorem appended_receipt_extends_chain:
  assumes "fold_receipt_chain rs (Some h) cv cs = Inr f" and "rc_receipt_sha n \<notin> rc_receipt_sha ` set rs"
    and "rc_prev_receipt_sha n = Some h" and "rs \<noteq> []"
  shows "fold_receipt_chain (rs @ [n]) (Some (rc_receipt_sha n)) cv' cs' =
      Inr \<lparr>fd_verdict = rc_verdict n, fd_verdict_source = rc_verdict_source n, fd_from_receipt = True\<rparr> \<and>
    fold_receipt_chain (rs @ [n]) (Some h) cv cs = Inr f"
proof -
  from assms(1,4) have fr: "fd_from_receipt f"
    by (auto simp: fold_receipt_chain_def by_receipt_sha_Nil Let_def ebind_eq_Inr split: option.splits)
  with assms(1) fold_from_receipt [of rs "Some h" cv cs f] obtain head where head:
    "map_of (by_receipt_sha rs) h = Some head" "reaches_genesis (by_receipt_sha rs) (rc_prev_receipt_sha head)"
    "f = \<lparr>fd_verdict = rc_verdict head, fd_verdict_source = rc_verdict_source head, fd_from_receipt = True\<rparr>" by auto
  have new: "rc_receipt_sha n \<notin> fst ` set (by_receipt_sha rs)" using assms(2) by (simp add: fst_by_receipt_sha)
  have old: "reaches_genesis (by_receipt_sha (rs @ [n])) p" if "reaches_genesis (by_receipt_sha rs) p" for p
    unfolding by_receipt_sha_snoc by (rule reaches_genesis_extend [OF that new])
  have "h \<in> fst ` set (by_receipt_sha rs)" using head(1) by (force dest: map_of_SomeD)
  with new have "h \<noteq> rc_receipt_sha n" by blast
  with head(1) have h: "map_of (by_receipt_sha (rs @ [n])) h = Some head" by (simp add: by_receipt_sha_snoc)
  have n: "map_of (by_receipt_sha (rs @ [n])) (rc_receipt_sha n) = Some n" by (simp add: by_receipt_sha_snoc)
  have "reaches_genesis (by_receipt_sha rs) (Some h)" by (rule reaches_genesis.link [OF head(1,2)])
  then have "reaches_genesis (by_receipt_sha (rs @ [n])) (rc_prev_receipt_sha n)" using old assms(3) by simp
  with n fold_from_receipt [of "rs @ [n]" "Some (rc_receipt_sha n)" cv' cs'
      "\<lparr>fd_verdict = rc_verdict n, fd_verdict_source = rc_verdict_source n, fd_from_receipt = True\<rparr>"]
  have "fold_receipt_chain (rs @ [n]) (Some (rc_receipt_sha n)) cv' cs' =
      Inr \<lparr>fd_verdict = rc_verdict n, fd_verdict_source = rc_verdict_source n, fd_from_receipt = True\<rparr>" by auto
  moreover have "fold_receipt_chain (rs @ [n]) (Some h) cv cs = Inr f"
    using h old [OF head(2)] head(3) fold_from_receipt [of "rs @ [n]" "Some h" cv cs f] by auto
  ultimately show ?thesis ..
qed

definition sample_receipt :: "string \<Rightarrow> string option \<Rightarrow> string \<Rightarrow> receipt" where
  "sample_receipt sha prev v =
     \<lparr>rc_receipt_sha = sha, rc_prev_receipt_sha = prev, rc_verdict = Some v, rc_verdict_source = Some ''scripted''\<rparr>"

theorem appended_receipt_extends_chain_witness:
  "fold_receipt_chain [sample_receipt ''a'' None ''partial'', sample_receipt ''b'' (Some ''a'') ''progressive'']
     (Some ''b'') None None =
   Inr \<lparr>fd_verdict = Some ''progressive'', fd_verdict_source = Some ''scripted'', fd_from_receipt = True\<rparr>"
proof -
  have "fold_receipt_chain [sample_receipt ''a'' None ''partial''] (Some ''a'') None None =
    Inr \<lparr>fd_verdict = Some ''partial'', fd_verdict_source = Some ''scripted'', fd_from_receipt = True\<rparr>"
    by (simp add: fold_receipt_chain_def by_receipt_sha_def sample_receipt_def falsy_def Let_def)
  from appended_receipt_extends_chain [OF this, of "sample_receipt ''b'' (Some ''a'') ''progressive''" None None]
  show ?thesis by (simp add: sample_receipt_def)
qed

section \<open>Node states\<close>

text \<open>
  A node is a candidate for canonical standing only on evidence: its verdict is one of
  progress with its novelty confirmed, and its row counts. So no row of a neutralised list that
  had to be neutralised is derived as a candidate.
\<close>

theorem candidates_are_evidenced:
  assumes "neutralize_unreceipted nodes False = Inr ns" and "r \<in> set ns"
    and "derive_node_state r = Inr CANONICAL_CANDIDATE"
  shows "r \<in> set nodes \<and> force_of_row r = Inr COUNTS \<and> nr_replay_status r \<noteq> Some ''mismatch'' \<and>
    is_in (nr_verdict r) PROGRESS_VERDICTS \<and> nr_novel_confirmed r"
proof -
  note c = candidate_facts [OF assms(3)]
  from credited_or_neutral [OF assms(1) neutralize_reads [OF assms(1)] assms(2)]
  consider "credited r" "r \<in> set nodes" | q where "r = neutral q" by blast
  then show ?thesis
  proof cases
    case 1
    with c show ?thesis by (auto simp: credited_def)
  next
    case 2
    with c(2) neutral_shows_nothing [of q] show ?thesis by simp
  qed
qed

theorem candidates_are_evidenced_witness:
  "derive_node_state sample_row = Inr CANONICAL_CANDIDATE \<and> is_in (nr_verdict sample_row) PROGRESS_VERDICTS \<and> nr_novel_confirmed sample_row"
proof -
  have d: "derive_node_state sample_row = Inr CANONICAL_CANDIDATE"
    by (simp add: derive_node_state_def sample_row_counts)
      (simp add: sample_row_def is_in_def REJECTING_VERDICTS_def PROGRESS_VERDICTS_def)
  have "nr_replay_status sample_row = Some ''verified''" by (simp add: sample_row_def)
  then have "neutralize_unreceipted [sample_row] False = Inr [sample_row]"
    by (simp add: neutralize_unreceipted_def partition_unreceipted_def is_inconclusive_def is_refuted_def sample_row_counts)
  from candidates_are_evidenced [OF this _ d] d show ?thesis by simp
qed

text \<open>
  The way back is through a new prediction. In a history whose every step passes the
  transition check, a node that was demoted, rejected, moved to another programme or filed as
  administrative stays in one of these states until it is predicted again; a canonical node leaves
  its state only by losing its title; and no state leads back to the draft.
\<close>

theorem fallen_nodes_return_by_prediction:
  assumes "legal_history (s # ss)"
  shows "(fallen s \<and> PREDICTED \<notin> set ss \<longrightarrow> list_all fallen ss) \<and>
    (s = CANONICAL \<and> FORMER_CANONICAL \<notin> set ss \<longrightarrow> list_all (\<lambda>t. t = CANONICAL) ss) \<and>
    (s \<noteq> DRAFT \<longrightarrow> DRAFT \<notin> set ss)"
proof (intro conjI impI)
  show "fallen s \<and> PREDICTED \<notin> set ss \<Longrightarrow> list_all fallen ss" using fallen_history assms by blast
  show "s = CANONICAL \<and> FORMER_CANONICAL \<notin> set ss \<Longrightarrow> list_all (\<lambda>t. t = CANONICAL) ss"
    using canonical_history assms by blast
  show "s \<noteq> DRAFT \<Longrightarrow> DRAFT \<notin> set ss" using assms
  proof (induction ss arbitrary: s)
    case Nil
    then show ?case by simp
  next
    case (Cons t ss)
    then have "t \<in> ALLOWED_TRANSITIONS s" "legal_history (t # ss)" by (simp_all add: legal_history_Cons)
    moreover from this(1) Cons.prems(1) have "t \<noteq> DRAFT" using no_return_to_draft by blast
    ultimately show ?case using Cons.IH by simp
  qed
qed

theorem fallen_nodes_return_by_prediction_witness:
  "fallen REJECTED \<and> PREDICTED \<notin> set [ADMINISTRATIVE, ADMINISTRATIVE] \<and> list_all fallen [ADMINISTRATIVE, ADMINISTRATIVE]"
proof -
  have "legal_history (REJECTED # [ADMINISTRATIVE, ADMINISTRATIVE])" by (simp add: legal_history_Cons)
  from fallen_nodes_return_by_prediction [OF this] show ?thesis by (simp add: fallen_def)
qed

section \<open>Frontier questions\<close>


text \<open>
  A question is closed once. Over any run of accepted events a closed question stays closed,
  and the closure is recorded exactly once if the run closes the question and never otherwise.
\<close>

theorem question_closes_once:
  assumes "question_run s es = Inr (s', effs)"
  shows "length (filter (\<lambda>f. f = RECORD_CLOSURE) effs) = (if s = Q_OPEN \<and> s' = Q_CLOSED then 1 else 0) \<and>
    (s = Q_CLOSED \<longrightarrow> s' = Q_CLOSED)"
proof (cases s)
  case Q_OPEN
  with open_run_count [of es s' effs] assms show ?thesis by simp
next
  case Q_CLOSED
  with assms have "s' = Q_CLOSED" "RECORD_CLOSURE \<notin> set effs" using closed_run by auto
  moreover from this(2) have "filter (\<lambda>f. f = RECORD_CLOSURE) effs = []" by (auto simp: filter_empty_conv)
  ultimately show ?thesis using Q_CLOSED by simp
qed

definition sample_sha :: string where
  "sample_sha = replicate 64 (CHR ''a'')"

definition sample_evidence :: evidence where
  "sample_evidence =
     \<lparr>ev_verdict = Some ''rejected'', ev_receipt_sha = Some sample_sha, ev_assurance_level = Some 2, ev_qualitative_self_report = False\<rparr>"

lemma sample_conclusive: "receipt_backed_conclusive sample_evidence" "valid_receipt_sha (ev_receipt_sha sample_evidence)"
  by (simp_all add: receipt_backed_conclusive_def sample_evidence_def valid_receipt_sha_def sample_sha_def is_in_def
      QUESTION_ANSWER_VERDICTS_def MIN_CLOSURE_ASSURANCE_def list_all_iff)

theorem question_closes_once_witness:
  "\<exists>effs. question_run Q_OPEN [(E_OPEN, sample_evidence), (E_ADJUDICATED, sample_evidence), (E_CLOSE, sample_evidence)] =
     Inr (Q_CLOSED, effs) \<and> length (filter (\<lambda>f. f = RECORD_CLOSURE) effs) = 1"
proof -
  have "question_run Q_OPEN [(E_OPEN, sample_evidence), (E_ADJUDICATED, sample_evidence), (E_CLOSE, sample_evidence)] =
    Inr (Q_CLOSED, [UPDATE_METADATA, RECORD_CLOSURE])"
    using sample_conclusive by (simp add: question_step_def table_step_def QUESTION_TRANSITIONS_def)
  from question_closes_once [OF this] this show ?thesis by simp
qed

text \<open>
  C33: Self-report cannot close. When the assurance level handed to the reducer is the one computed
  from the node's row, an adjudication that closes an open question carries a conclusive verdict
  and a receipt identity, and its row has a value the server regenerated, a verified replay, a
  bound measurement lock and a chain not known to be broken.
\<close>

theorem closing_needs_replayed_evidence:
  assumes "verdict_assurance r attestors chain_ok floor witness = Inr a"
    and "ev_assurance_level ev = Some (int (as_val a))"
    and "question_step Q_OPEN E_ADJUDICATED ev = Inr t" and "qt_state t = Q_CLOSED"
  shows "is_in (ev_verdict ev) {''progressive'', ''rejected''} \<and> valid_receipt_sha (ev_receipt_sha ev) \<and>
    \<not> ev_qualitative_self_report ev \<and> chain_ok \<noteq> Some False \<and> force_of_row r = Inr COUNTS \<and>
    nr_measurement_grade r = Some ''server_regenerated'' \<and> nr_replay_status r = Some ''verified'' \<and> nr_measurement_lock_bound r"
proof -
  from assms(3) have c: "receipt_backed_conclusive ev" by (rule question_step_cases) (use assms(4) in auto)
  then have "2 \<le> as_val a" using assms(2) by (simp add: receipt_backed_conclusive_def MIN_CLOSURE_ASSURANCE_def)
  with level_two [OF assms(1)] have "chain_ok \<noteq> Some False \<and> force_of_row r = Inr COUNTS \<and>
    nr_measurement_grade r = Some ''server_regenerated'' \<and> nr_replay_status r = Some ''verified'' \<and> nr_measurement_lock_bound r"
    by blast
  with c show ?thesis by (auto simp: receipt_backed_conclusive_def QUESTION_ANSWER_VERDICTS_def)
qed

theorem closing_needs_replayed_evidence_witness:
  "\<exists>a t. verdict_assurance sample_row None None None False = Inr a \<and>
     question_step Q_OPEN E_ADJUDICATED (sample_evidence\<lparr>ev_assurance_level := Some (int (as_val a))\<rparr>) = Inr t \<and>
     qt_state t = Q_CLOSED \<and> nr_replay_status sample_row = Some ''verified''"
proof -
  have "nr_measurement_grade sample_row = Some ''server_regenerated''" "nr_replay_status sample_row = Some ''verified''"
    "nr_measurement_lock_bound sample_row" by (simp_all add: sample_row_def)
  then have a: "verdict_assurance sample_row None None None False = Inr \<lparr>as_val = 2, as_basis = []\<rparr>"
    by (simp add: verdict_assurance_def sample_row_counts)
  let ?ev = "sample_evidence\<lparr>ev_assurance_level := Some (int (as_val \<lparr>as_val = 2, as_basis = []\<rparr>))\<rparr>"
  have lvl: "ev_assurance_level ?ev = Some (int (as_val \<lparr>as_val = 2, as_basis = []\<rparr>))" by simp
  have "?ev = sample_evidence" by (simp add: sample_evidence_def)
  then obtain t where t: "question_step Q_OPEN E_ADJUDICATED ?ev = Inr t" "qt_state t = Q_CLOSED"
    using sample_conclusive by (simp add: question_step_def)
  from closing_needs_replayed_evidence [OF a lvl t] a t show ?thesis by blast
qed

text \<open>
  Every question can be answered. In whatever state earlier events have left a question,
  delivering a close command, or an adjudication backed by a conclusive receipt, is accepted and
  leaves it closed.
\<close>

theorem delivered_answer_closes:
  assumes "question_run s es = Inr (s', effs)"
    and "e = E_CLOSE \<or> e = E_ADJUDICATED \<and> receipt_backed_conclusive ev"
  shows "\<exists>effs'. question_run s (es @ [(e, ev)]) = Inr (Q_CLOSED, effs')"
proof -
  have "\<exists>t. question_step s' e ev = Inr t \<and> qt_state t = Q_CLOSED"
    using assms(2) by (cases s')
      (auto simp: question_step_def table_step_def QUESTION_TRANSITIONS_def receipt_backed_conclusive_def)
  then obtain t where "question_step s' e ev = Inr t" "qt_state t = Q_CLOSED" by blast
  then show ?thesis by (simp add: question_run_append assms(1))
qed

theorem delivered_answer_closes_witness:
  "\<exists>effs'. question_run Q_OPEN ([(E_OPEN, sample_evidence)] @ [(E_ADJUDICATED, sample_evidence)]) = Inr (Q_CLOSED, effs')"
proof -
  have "question_run Q_OPEN [(E_OPEN, sample_evidence)] = Inr (Q_OPEN, [UPDATE_METADATA])"
    by (simp add: question_step_def table_step_def QUESTION_TRANSITIONS_def)
  from delivered_answer_closes [OF this, of E_ADJUDICATED sample_evidence] sample_conclusive show ?thesis by simp
qed

end
