(* ===== verification/Py_Float.thy ===== *)
theory Py_Float
  imports LT_Prelude "HOL-Library.Log_Nat"
begin

text \<open>
  Python's \<^verbatim>\<open>float\<close>: the binary64 numbers of IEEE 754, as CPython computes with them.

  A finite float is the rational it denotes; the two zeros are one value, since no code modelled
  here tells them apart. Subtraction and addition are the exact result rounded to the nearest
  binary64 number, ties to the even significand, with gradual underflow down to
  \<open>2 ^ -1074\<close> and overflow to an infinity. A comparison with a NaN is false.

  The main fact is \<open>fsub_pos_iff\<close>: a computed difference is positive exactly when the operands
  are in that order, so a test of the sign of a difference is a test of the order.
\<close>

section \<open>Rounding\<close>

datatype pyfloat = PFin rat | PInf bool | PNaN

text \<open>The largest \<open>k\<close> with \<open>2 ^ k \<le> x\<close>, for positive \<open>x\<close>.\<close>

definition floor_log2 :: "rat \<Rightarrow> int" where
  "floor_log2 x =
     (let (p, q) = quotient_of x; k = bitlen p - bitlen q
      in if 2 powi k \<le> x then k else k - 1)"

definition round_half_even :: "rat \<Rightarrow> int" where
  "round_half_even y =
     (let n = \<lfloor>y\<rfloor>; d = y - of_int n
      in if d < 1 / 2 then n else if 1 / 2 < d then n + 1 else if even n then n else n + 1)"

text \<open>The exponent of the least subnormal number.\<close>

definition least_exponent :: int where
  "least_exponent = - 1074"

text \<open>The exponent of the unit in the last place of a binary64 number of the magnitude of \<open>x\<close>.\<close>

definition ulp_exponent :: "rat \<Rightarrow> int" where
  "ulp_exponent x = max (floor_log2 x - 52) least_exponent"

definition round_magnitude :: "rat \<Rightarrow> rat" where
  "round_magnitude x =
     (let e = ulp_exponent x in of_int (round_half_even (x * 2 powi (- e))) * 2 powi e)"

definition fl_round :: "rat \<Rightarrow> pyfloat" where
  "fl_round x =
     (if x = 0 then PFin 0
      else let r = round_magnitude \<bar>x\<bar>
           in if 2 powi 1024 \<le> r then PInf (x < 0) else PFin (if x < 0 then - r else r))"

section \<open>Operations\<close>

fun fl_isfinite :: "pyfloat \<Rightarrow> bool" where
  "fl_isfinite (PFin x) = True"
| "fl_isfinite _ = False"

fun fl_neg :: "pyfloat \<Rightarrow> pyfloat" where
  "fl_neg (PFin x) = PFin (- x)"
| "fl_neg (PInf s) = PInf (\<not> s)"
| "fl_neg PNaN = PNaN"

fun fl_abs :: "pyfloat \<Rightarrow> pyfloat" where
  "fl_abs (PFin x) = PFin \<bar>x\<bar>"
| "fl_abs (PInf s) = PInf False"
| "fl_abs PNaN = PNaN"

fun fl_add :: "pyfloat \<Rightarrow> pyfloat \<Rightarrow> pyfloat" where
  "fl_add (PFin x) (PFin y) = fl_round (x + y)"
| "fl_add (PFin x) (PInf s) = PInf s"
| "fl_add (PInf s) (PFin x) = PInf s"
| "fl_add (PInf s) (PInf t) = (if s = t then PInf s else PNaN)"
| "fl_add _ _ = PNaN"

definition fl_sub :: "pyfloat \<Rightarrow> pyfloat \<Rightarrow> pyfloat" where
  "fl_sub a b = fl_add a (fl_neg b)"

fun fl_mul :: "pyfloat \<Rightarrow> pyfloat \<Rightarrow> pyfloat" where
  "fl_mul (PFin x) (PFin y) = fl_round (x * y)"
| "fl_mul (PFin x) (PInf s) = (if x = 0 then PNaN else PInf (s \<noteq> (x < 0)))"
| "fl_mul (PInf s) (PFin x) = (if x = 0 then PNaN else PInf (s \<noteq> (x < 0)))"
| "fl_mul (PInf s) (PInf t) = PInf (s \<noteq> t)"
| "fl_mul _ _ = PNaN"

fun fl_less :: "pyfloat \<Rightarrow> pyfloat \<Rightarrow> bool" where
  "fl_less (PFin x) (PFin y) = (x < y)"
| "fl_less (PFin x) (PInf s) = (\<not> s)"
| "fl_less (PInf s) (PFin x) = s"
| "fl_less (PInf s) (PInf t) = (s \<and> \<not> t)"
| "fl_less _ _ = False"

fun fl_eq :: "pyfloat \<Rightarrow> pyfloat \<Rightarrow> bool" where
  "fl_eq (PFin x) (PFin y) = (x = y)"
| "fl_eq (PInf s) (PInf t) = (s = t)"
| "fl_eq _ _ = False"

definition fl_le :: "pyfloat \<Rightarrow> pyfloat \<Rightarrow> bool" where
  "fl_le a b \<longleftrightarrow> fl_less a b \<or> fl_eq a b"

text \<open>\<^verbatim>\<open>min(a, b)\<close> and \<^verbatim>\<open>max(a, b)\<close> keep the first argument unless the second is
  strictly smaller, or larger; a NaN in second place is ignored.\<close>

definition fl_min :: "pyfloat \<Rightarrow> pyfloat \<Rightarrow> pyfloat" where
  "fl_min a b = (if fl_less b a then b else a)"

definition fl_max :: "pyfloat \<Rightarrow> pyfloat \<Rightarrow> pyfloat" where
  "fl_max a b = (if fl_less a b then b else a)"

text \<open>A decimal literal \<open>n / d\<close> of the source.\<close>

definition fl_literal :: "int \<Rightarrow> int \<Rightarrow> pyfloat" where
  "fl_literal n d = fl_round (of_int n / of_int d)"

text \<open>A value a Python variable can hold.\<close>

fun is_binary64 :: "pyfloat \<Rightarrow> bool" where
  "is_binary64 (PFin x) = (fl_round x = PFin x)"
| "is_binary64 _ = True"

section \<open>Facts about rounding\<close>

lemma fl_round_zero [simp]: "fl_round 0 = PFin 0"
  by (simp add: fl_round_def)

lemma fl_le_refl: "fl_le a a \<longleftrightarrow> a \<noteq> PNaN"
  by (cases a) (auto simp: fl_le_def)

lemma fl_le_fin [simp]: "fl_le (PFin x) (PFin y) \<longleftrightarrow> x \<le> y"
  by (auto simp: fl_le_def)

lemma fl_nan_compare [simp]:
  "\<not> fl_less PNaN a" "\<not> fl_less a PNaN" "\<not> fl_le PNaN a" "\<not> fl_le a PNaN"
  by (cases a; simp add: fl_le_def)+

lemma pos_powi [simp]: "(0::rat) < 2 powi k"
  by (simp add: zero_less_power_int)

lemma powi_mono: "a \<le> b \<Longrightarrow> (2::rat) powi a \<le> 2 powi b"
  by (rule power_int_increasing) simp_all

lemma powi_cancel [simp]: "(2::rat) powi (- k) * 2 powi k = 1"
  by (simp flip: power_int_add)

lemma floor_log2_le:
  assumes "0 < x"
  shows "2 powi (floor_log2 x) \<le> x"
proof -
  obtain p q where pq: "quotient_of x = (p, q)" by force
  let ?k = "bitlen p - bitlen q"
  have q: "0 < q" using pq by (rule quotient_of_denom_pos)
  have x: "x = of_int p / of_int q" using pq by (rule quotient_of_div)
  have p: "0 < p" using assms q by (simp add: x zero_less_divide_iff)
  have bp: "1 \<le> bitlen p" and bq: "1 \<le> bitlen q"
    using p q by (metis bitlen_eq_zero_iff bitlen_nonneg int_one_le_iff_zero_less le_less not_le)+
  have "(2::rat) powi (bitlen p - 1) = of_int (2 ^ nat (bitlen p - 1))"
    using bp by (simp add: power_int_def)
  also have "\<dots> \<le> of_int p" using bitlen_bounds [OF p] by (simp only: of_int_le_iff)
  finally have lp: "(2::rat) powi (bitlen p - 1) \<le> of_int p" .
  have "of_int q < (of_int (2 ^ nat (bitlen q)) :: rat)"
    using bitlen_bounds [OF q] by (simp only: of_int_less_iff)
  also have "\<dots> = 2 powi (bitlen q)" using bq by (simp add: power_int_def)
  finally have uq: "of_int q < (2::rat) powi (bitlen q)" .
  have "(2::rat) powi (?k - 1) = 2 powi (bitlen p - 1) / 2 powi (bitlen q)"
    by (simp add: power_int_diff [symmetric] algebra_simps)
  also have "\<dots> \<le> of_int p / of_int q"
    using lp uq q p by (intro frac_le) simp_all
  finally have "2 powi (?k - 1) \<le> x" by (simp add: x)
  then show ?thesis by (auto simp: floor_log2_def pq Let_def)
qed

lemma round_half_even_int [simp]: "round_half_even (of_int k) = k"
  by (simp add: round_half_even_def)

lemma round_half_even_ge_floor: "\<lfloor>y\<rfloor> \<le> round_half_even y"
  by (simp add: round_half_even_def Let_def)

lemma round_half_even_nonneg: "0 \<le> y \<Longrightarrow> 0 \<le> round_half_even y"
  using round_half_even_ge_floor [of y] by (simp add: order_trans [of 0 "\<lfloor>y\<rfloor>"])

lemma round_magnitude_nonneg: "0 \<le> x \<Longrightarrow> 0 \<le> round_magnitude x"
  by (simp add: round_magnitude_def Let_def round_half_even_nonneg less_imp_le)

text \<open>Every rounded number, and every difference of two, is a multiple of the least subnormal.\<close>

definition on_grid :: "rat \<Rightarrow> bool" where
  "on_grid x \<longleftrightarrow> (\<exists>k. x = of_int k * 2 powi least_exponent)"

lemma on_grid_minus: "on_grid x \<Longrightarrow> on_grid (- x)"
  unfolding on_grid_def by (metis minus_mult_left of_int_minus)

lemma on_grid_diff: "on_grid x \<Longrightarrow> on_grid y \<Longrightarrow> on_grid (x - y)"
  unfolding on_grid_def by (metis left_diff_distrib of_int_diff)

lemma on_grid_scaled:
  assumes "least_exponent \<le> e"
  shows "on_grid (of_int n * 2 powi e)"
proof -
  have "(2::rat) powi e = 2 powi (e - least_exponent) * 2 powi least_exponent"
    by (simp flip: power_int_add)
  also have "(2::rat) powi (e - least_exponent) = of_int (2 ^ nat (e - least_exponent))"
    using assms by (simp add: power_int_def)
  finally have "of_int n * (2::rat) powi e
      = of_int (n * 2 ^ nat (e - least_exponent)) * 2 powi least_exponent" by simp
  then show ?thesis unfolding on_grid_def by blast
qed

lemma on_grid_round: "fl_round x = PFin r \<Longrightarrow> on_grid r"
proof -
  assume "fl_round x = PFin r"
  moreover have "on_grid (round_magnitude y)" for y
    by (simp add: round_magnitude_def Let_def on_grid_scaled ulp_exponent_def)
  moreover have "on_grid 0" by (auto simp: on_grid_def)
  ultimately show ?thesis
    by (auto simp: fl_round_def Let_def on_grid_minus split: if_splits)
qed

lemma on_grid_binary64: "is_binary64 (PFin x) \<Longrightarrow> on_grid x"
  by (simp add: on_grid_round)

lemma round_magnitude_pos:
  assumes "0 < x" and "on_grid x"
  shows "0 < round_magnitude x"
proof -
  let ?e = "ulp_exponent x"
  have "0 < round_half_even (x * 2 powi (- ?e))"
  proof (cases "?e = least_exponent")
    case True
    from assms(2) obtain k where k: "x = of_int k * 2 powi least_exponent" by (auto simp: on_grid_def)
    have y: "x * 2 powi (- ?e) = of_int k"
      unfolding True by (simp add: k mult.assoc flip: power_int_add)
    have "(0::rat) < of_int k"
    proof -
      have "0 < x * 2 powi (- ?e)" using assms(1) by (rule mult_pos_pos) simp
      then show ?thesis by (simp only: y)
    qed
    then show ?thesis unfolding y round_half_even_int by (simp only: of_int_0_less_iff)
  next
    case False
    then have e: "?e = floor_log2 x - 52" by (auto simp: ulp_exponent_def max_def split: if_splits)
    have "(1::rat) \<le> 2 powi (floor_log2 x) * 2 powi (- ?e)"
      by (simp add: e flip: power_int_add)
    also have "\<dots> \<le> x * 2 powi (- ?e)"
      using floor_log2_le [OF assms(1)] by (simp add: mult_right_mono less_imp_le)
    finally have "1 \<le> \<lfloor>x * 2 powi (- ?e)\<rfloor>" by simp
    with round_half_even_ge_floor [of "x * 2 powi (- ?e)"] show ?thesis by linarith
  qed
  then show ?thesis by (simp add: round_magnitude_def Let_def)
qed

text \<open>Rounding keeps the sign, of every number in the weak and of a grid number in the strict sense.\<close>

lemma fl_round_pos:
  "fl_less (PFin 0) (fl_round x) \<Longrightarrow> 0 < x"
  using round_magnitude_nonneg [of "\<bar>x\<bar>"]
  by (auto simp: fl_round_def Let_def split: if_splits)

lemma fl_round_pos_grid:
  assumes "on_grid x"
  shows "fl_less (PFin 0) (fl_round x) \<longleftrightarrow> 0 < x"
proof
  assume "0 < x"
  then show "fl_less (PFin 0) (fl_round x)"
    using round_magnitude_pos [OF _ assms] by (simp add: fl_round_def Let_def)
qed (rule fl_round_pos)

lemma fl_round_neg: "fl_round (- x) = fl_neg (fl_round x)"
  by (auto simp: fl_round_def Let_def)

lemma fl_less_neg: "fl_less (fl_neg a) (fl_neg b) \<longleftrightarrow> fl_less b a"
  by (cases a; cases b) auto

lemma fl_neg_zero: "fl_neg (PFin 0) = PFin 0"
  by simp

lemma fl_sub_swap: "fl_sub (PFin y) (PFin x) = fl_neg (fl_sub (PFin x) (PFin y))"
  by (simp add: fl_sub_def flip: fl_round_neg)

theorem fsub_pos_iff:
  assumes "is_binary64 (PFin x)" and "is_binary64 (PFin y)"
  shows "fl_less (PFin 0) (fl_sub (PFin x) (PFin y)) \<longleftrightarrow> y < x"
  using fl_round_pos_grid [OF on_grid_diff [OF assms [THEN on_grid_binary64]]]
  by (simp add: fl_sub_def)

corollary fsub_neg_iff:
  assumes "is_binary64 (PFin x)" and "is_binary64 (PFin y)"
  shows "fl_less (fl_sub (PFin x) (PFin y)) (PFin 0) \<longleftrightarrow> x < y"
proof -
  have "fl_less (fl_sub (PFin x) (PFin y)) (PFin 0)
      \<longleftrightarrow> fl_less (PFin 0) (fl_sub (PFin y) (PFin x))"
    by (metis fl_less_neg fl_neg_zero fl_sub_swap)
  then show ?thesis using fsub_pos_iff [OF assms(2,1)] by simp
qed

lemma fl_sub_not_nan: "fl_sub (PFin x) (PFin y) \<noteq> PNaN"
  by (simp add: fl_sub_def fl_round_def Let_def)

text \<open>A number with a significand of at most 53 bits and an exponent in range rounds to itself.\<close>

lemma of_int_less_powi53: "n < 2 ^ 53 \<Longrightarrow> (of_int n :: rat) < 2 powi 53"
proof -
  assume "n < 2 ^ 53"
  then have "(of_int n :: rat) < of_int (2 ^ 53)" by (simp only: of_int_less_iff)
  also have "(of_int (2 ^ 53) :: rat) = 2 powi 53" by (simp add: power_int_def)
  finally show ?thesis .
qed

lemma round_magnitude_exact:
  assumes "0 < n" and "n < 2 ^ 53" and "least_exponent \<le> e"
  shows "round_magnitude (of_int n * 2 powi e) = of_int n * 2 powi e"
proof -
  let ?x = "of_int n * (2::rat) powi e"
  let ?u = "ulp_exponent ?x"
  have pos: "0 < ?x" using assms(1) by simp
  have "(of_int n :: rat) < 2 powi 53" using assms(2) by (rule of_int_less_powi53)
  then have "?x < 2 powi 53 * 2 powi e" by simp
  also have "\<dots> = 2 powi (53 + e)" by (simp add: power_int_add)
  finally have "2 powi (floor_log2 ?x) < (2::rat) powi (53 + e)"
    using floor_log2_le [OF pos] by (rule le_less_trans [rotated])
  then have "floor_log2 ?x < 53 + e" using powi_mono not_le by (metis leD)
  then have u: "?u \<le> e" using assms(3) by (simp add: ulp_exponent_def)
  have "?x * 2 powi (- ?u) = of_int n * 2 powi (e - ?u)"
    by (simp add: mult.assoc flip: power_int_add)
  also have "(2::rat) powi (e - ?u) = of_int (2 ^ nat (e - ?u))" using u by (simp add: power_int_def)
  finally have i: "?x * 2 powi (- ?u) = of_int (n * 2 ^ nat (e - ?u))" by simp
  have "round_magnitude ?x = ?x * 2 powi (- ?u) * 2 powi ?u"
    unfolding round_magnitude_def Let_def i round_half_even_int ..
  then show ?thesis by (simp only: mult.assoc powi_cancel mult_1_right)
qed

lemma fl_round_exact:
  assumes "\<bar>n\<bar> < 2 ^ 53" and "least_exponent \<le> e" and "e \<le> 971"
  shows "fl_round (of_int n * 2 powi e) = PFin (of_int n * 2 powi e)"
proof (cases "n = 0")
  case False
  have "\<bar>of_int n * (2::rat) powi e\<bar> = of_int \<bar>n\<bar> * 2 powi e" by (simp add: abs_mult)
  moreover have "round_magnitude (of_int \<bar>n\<bar> * 2 powi e) = of_int \<bar>n\<bar> * 2 powi e"
    using assms False by (intro round_magnitude_exact) simp_all
  moreover have "of_int \<bar>n\<bar> * (2::rat) powi e < 2 powi 1024"
  proof -
    have "(of_int \<bar>n\<bar> :: rat) < 2 powi 53"
      using assms(1) by (rule of_int_less_powi53)
    then have "of_int \<bar>n\<bar> * (2::rat) powi e < 2 powi 53 * 2 powi e" by simp
    also have "\<dots> = 2 powi (53 + e)" by (simp add: power_int_add)
    also have "\<dots> \<le> 2 powi 1024" using assms(3) by (intro powi_mono) simp
    finally show ?thesis .
  qed
  ultimately show ?thesis
    by (auto simp: fl_round_def Let_def not_le mult_less_0_iff abs_if)
qed simp

lemma fl_round_int:
  assumes "\<bar>n\<bar> < 2 ^ 53"
  shows "fl_round (of_int n) = PFin (of_int n)"
proof -
  have "fl_round (of_int n * 2 powi 0) = PFin (of_int n * 2 powi 0)"
    using assms by (rule fl_round_exact) (simp_all add: least_exponent_def)
  then show ?thesis by (simp only: power_int_0_right mult_1_right)
qed

lemma fl_round_half:
  assumes "\<bar>n\<bar> < 2 ^ 53"
  shows "fl_round (of_int n / 2) = PFin (of_int n / 2)"
proof -
  have "(2::rat) powi (- 1) = 1 / 2" by (simp add: power_int_def)
  then have "(of_int n :: rat) / 2 = of_int n * 2 powi (- 1)" by simp
  moreover have "fl_round (of_int n * 2 powi (- 1)) = PFin (of_int n * 2 powi (- 1))"
    using assms by (rule fl_round_exact) (simp_all add: least_exponent_def)
  ultimately show ?thesis by (simp only:)
qed

end
