(* ===== verification/Py_Repr.thy ===== *)
theory Py_Repr
  imports Py_Float Json_Inject
begin

text \<open>
  The text of a \<^verbatim>\<open>float\<close>: \<^verbatim>\<open>repr\<close>, which \<^verbatim>\<open>json.dumps\<close> prints,
  and \<^verbatim>\<open>float(str)\<close>, which reads it back. A zero is printed with its sign, so a float is here
  a sign and a magnitude. \<^verbatim>\<open>repr\<close> is the shortest decimal that rounds to the float, of
  those the nearest: each length from 1 to 17 digits is tried in turn, and both neighbours of the float at
  that length. Seventeen digits are always enough; the exact expansion that closes the search makes the
  function total without that fact.
\<close>

datatype signed_float = SFin bool rat | SInf bool | SNaN

definition signed_round :: "bool \<Rightarrow> rat \<Rightarrow> signed_float" where
  "signed_round neg q = (case fl_round q of PFin r \<Rightarrow> SFin neg r | PInf _ \<Rightarrow> SInf neg | PNaN \<Rightarrow> SNaN)"

section \<open>The digits\<close>

text \<open>The largest \<open>k\<close> with \<open>10 ^ k \<le> x\<close>, for positive \<open>x\<close>.\<close>

definition floor_log10 :: "rat \<Rightarrow> int" where
  "floor_log10 x =
     (let (p, q) = quotient_of x; k = int (length (show_int p)) - int (length (show_int q))
      in if 10 powi k \<le> x then k else k - 1)"

text \<open>A candidate \<open>c * 10 ^ k\<close>.\<close>

type_synonym decimal = "nat \<times> int"

definition decimal_rat :: "decimal \<Rightarrow> rat" where
  "decimal_rat d = of_nat (fst d) * 10 powi (snd d)"

definition reads_back :: "rat \<Rightarrow> decimal \<Rightarrow> bool" where
  "reads_back x d \<longleftrightarrow> 0 < fst d \<and> fl_round (decimal_rat d) = PFin x"

definition nearest_decimal :: "rat \<Rightarrow> nat \<Rightarrow> decimal option" where
  "nearest_decimal x digits =
     (let k = floor_log10 x - int digits + 1; c = nat \<lfloor>x * 10 powi (- k)\<rfloor>;
          lo = (c, k); hi = (c + 1, k); dl = x - decimal_rat lo; dh = decimal_rat hi - x in
      if reads_back x lo \<and> (reads_back x hi \<longrightarrow> dl < dh \<or> dl = dh \<and> even c) then Some lo
      else if reads_back x hi then Some hi
      else None)"

definition GRID_BITS :: nat where
  "GRID_BITS = 1074"

definition exact_decimal :: "rat \<Rightarrow> decimal" where
  "exact_decimal x = (nat \<lfloor>x * 2 powi int GRID_BITS\<rfloor> * 5 ^ GRID_BITS, - int GRID_BITS)"

definition shortest_decimal :: "rat \<Rightarrow> decimal" where
  "shortest_decimal x =
     (case find (\<lambda>n. nearest_decimal x n \<noteq> None) [1..<18] of
        Some n \<Rightarrow> the (nearest_decimal x n)
      | None \<Rightarrow> exact_decimal x)"

fun strip_zeros :: "nat \<Rightarrow> int \<Rightarrow> decimal" where
  "strip_zeros c k = (if 0 < c \<and> c mod 10 = 0 then strip_zeros (c div 10) (k + 1) else (c, k))"

declare strip_zeros.simps [simp del]

section \<open>Printing\<close>

abbreviation (input) ZERO :: char where "ZERO \<equiv> CHR ''0''"

definition exponent_text :: "int \<Rightarrow> string" where
  "exponent_text e =
     (let t = show_nat (nat \<bar>e\<bar>) in
      ''e'' @ (if e < 0 then ''-'' else ''+'') @ (if length t < 2 then ZERO # t else t))"

definition decimal_text :: "decimal \<Rightarrow> string" where
  "decimal_text d =
     (let s = show_nat (fst d); n = int (length s); point = n + snd d in
      if point \<le> - 4 \<or> 16 < point then
        [hd s] @ (if tl s = [] then [] else ''.'' @ tl s) @ exponent_text (point - 1)
      else if point \<le> 0 then ''0.'' @ replicate (nat (- point)) ZERO @ s
      else if n \<le> point then s @ replicate (nat (snd d)) ZERO @ ''.0''
      else take (nat point) s @ ''.'' @ drop (nat point) s)"

definition magnitude_repr :: "rat \<Rightarrow> string" where
  "magnitude_repr m =
     (if m = 0 then ''0.0'' else let (c, k) = shortest_decimal m in decimal_text (strip_zeros c k))"

fun float_repr :: "signed_float \<Rightarrow> string" where
  "float_repr (SFin neg m) = (if neg then ''-'' else []) @ magnitude_repr m"
| "float_repr (SInf neg) = (if neg then ''-inf'' else ''inf'')"
| "float_repr SNaN = ''nan''"

text \<open>\<^verbatim>\<open>json.dumps\<close> names the values that are not finite differently.\<close>

fun json_float :: "signed_float \<Rightarrow> string" where
  "json_float (SFin neg m) = float_repr (SFin neg m)"
| "json_float (SInf neg) = (if neg then ''-Infinity'' else ''Infinity'')"
| "json_float SNaN = ''NaN''"

section \<open>Reading\<close>

definition split_at :: "(char \<Rightarrow> bool) \<Rightarrow> string \<Rightarrow> string \<times> string option" where
  "split_at p s =
     (takeWhile (\<lambda>c. \<not> p c) s,
      case dropWhile (\<lambda>c. \<not> p c) s of [] \<Rightarrow> None | _ # t \<Rightarrow> Some t)"

definition all_digits :: "string \<Rightarrow> bool" where
  "all_digits s = list_all is_digit s"

definition read_exponent :: "string option \<Rightarrow> int option" where
  "read_exponent t =
     (case t of
        None \<Rightarrow> Some 0
      | Some s \<Rightarrow>
          (let (neg, u) = (case s of c # u \<Rightarrow> if c = CHR ''-'' then (True, u) else if c = CHR ''+'' then (False, u) else (False, s)
                           | [] \<Rightarrow> (False, s))
           in if u \<noteq> [] \<and> all_digits u then Some (if neg then - int (read_nat u) else int (read_nat u)) else None))"

definition read_decimal :: "string \<Rightarrow> rat option" where
  "read_decimal s =
     (let (mantissa, ex) = split_at (\<lambda>c. c = CHR ''e'' \<or> c = CHR ''E'') s;
          (whole, fraction) = split_at (\<lambda>c. c = CHR ''.'') mantissa;
          f = (case fraction of None \<Rightarrow> [] | Some f \<Rightarrow> f) in
      case read_exponent ex of
        None \<Rightarrow> None
      | Some e \<Rightarrow>
          if all_digits whole \<and> all_digits f \<and> whole @ f \<noteq> []
          then Some (decimal_rat (read_nat (whole @ f), e - int (length f)))
          else None)"

definition read_unsigned :: "bool \<Rightarrow> string \<Rightarrow> signed_float option" where
  "read_unsigned neg s =
     (if str_lower s = ''inf'' \<or> str_lower s = ''infinity'' then Some (SInf neg)
      else if str_lower s = ''nan'' then Some SNaN
      else map_option (signed_round neg) (read_decimal s))"

text \<open>Blank characters around the number are dropped; an underscore is dropped between two digits
  and refused elsewhere.\<close>

definition float_blank :: "char \<Rightarrow> bool" where
  "float_blank c =
     (let n = code_point c in 9 \<le> n \<and> n \<le> 13 \<or> 28 \<le> n \<and> n \<le> 32 \<or> n = 133 \<or> n = 160)"

definition float_strip :: "string \<Rightarrow> string" where
  "float_strip s = rev (dropWhile float_blank (rev (dropWhile float_blank s)))"

fun drop_underscores :: "char \<Rightarrow> string \<Rightarrow> string option" where
  "drop_underscores prev [] = (if prev = CHR ''_'' then None else Some [])"
| "drop_underscores prev (c # cs) =
     (if c = CHR ''_'' then (if is_digit prev then drop_underscores c cs else None)
      else if prev = CHR ''_'' \<and> \<not> is_digit c then None
      else map_option (\<lambda>t. c # t) (drop_underscores c cs))"

definition float_of_str :: "string \<Rightarrow> signed_float option" where
  "float_of_str text =
     (case drop_underscores (CHR '' '') (float_strip text) of
        None \<Rightarrow> None
      | Some s \<Rightarrow>
          (case s of
             [] \<Rightarrow> None
           | c # t \<Rightarrow>
               if c = CHR ''-'' then read_unsigned True t
               else if c = CHR ''+'' then read_unsigned False t
               else read_unsigned False s))"

text \<open>\<^verbatim>\<open>float(int)\<close>, which overflows where the text would be read as an infinity.\<close>

definition float_of_int :: "int \<Rightarrow> signed_float option" where
  "float_of_int i =
     (case fl_round (of_int \<bar>i\<bar>) of PFin r \<Rightarrow> Some (SFin (i < 0) r) | _ \<Rightarrow> None)"

end
