(* ===== verification/Receipt_Blob.thy ===== *)
theory Receipt_Blob
  imports Py_Repr Verdict_Chain "HOL-Library.AList"
begin

text \<open>
  The content-addressed receipts of \<^verbatim>\<open>lakatos/verdicts.py\<close>: the bytes a verdict receipt and a
  prediction receipt are hashed from, and the recomputation that tells by which encoding a stored hash
  was made. A receipt is a dict, an association list with distinct keys; a float is a value of its own
  and stands for itself, never inside a list or a dict.
\<close>

section \<open>Field values\<close>

datatype field_value = FJson json | FFloat signed_float

type_synonym field_map = "(string \<times> field_value) list"

abbreviation FNone :: field_value where "FNone \<equiv> FJson JNull"

abbreviation FText :: "string \<Rightarrow> field_value" where "FText s \<equiv> FJson (JStr s)"

text \<open>\<^verbatim>\<open>fields.get(key)\<close>.\<close>

definition get_field :: "field_map \<Rightarrow> string \<Rightarrow> field_value" where
  "get_field entries key = (case map_of entries key of None \<Rightarrow> FNone | Some v \<Rightarrow> v)"

primrec value_dumps :: "field_value \<Rightarrow> string" where
  "value_dumps (FJson j) = json_dumps j"
| "value_dumps (FFloat x) = json_float x"

text \<open>\<^verbatim>\<open>json.dumps(payload, sort_keys=True, separators=(',', ':'), ensure_ascii=False)\<close>.\<close>

definition payload_dumps :: "field_map \<Rightarrow> string" where
  "payload_dumps payload =
     ''{'' @ str_join '',''
        (map json_member (sort_key fst (map (map_prod id value_dumps) payload))) @ ''}''"

section \<open>Field sets\<close>

definition RECEIPT_FIELDS_V1 :: "string list" where
  "RECEIPT_FIELDS_V1 =
     [''tree'', ''tag'', ''target_id'', ''verdict'', ''verdict_source'', ''metric_name'', ''metric_value'',
      ''novel_confirmed'', ''lakatos_status'', ''judged_at'', ''judge_script_sha'', ''prev_receipt_sha'',
      ''measurement_grade'']"

definition RECEIPT_FIELDS_V2 :: "string list" where
  "RECEIPT_FIELDS_V2 = RECEIPT_FIELDS_V1 @ [''engine_rule_sha'']"

definition RECEIPT_FIELDS_V3 :: "string list" where
  "RECEIPT_FIELDS_V3 = RECEIPT_FIELDS_V2 @ [''comment_sha'']"

definition RECEIPT_FIELDS_V4 :: "string list" where
  "RECEIPT_FIELDS_V4 = RECEIPT_FIELDS_V3 @ [''replay_status'', ''replay_reason'', ''regenerated_metric'']"

definition RECEIPT_ARTIFACT_IDENTITY_FIELDS :: "string list" where
  "RECEIPT_ARTIFACT_IDENTITY_FIELDS =
     [''judge_script_path'', ''result_path'', ''result_sha256'', ''measurement_lock_sha'',
      ''source_script_path'', ''source_result_path'']"

definition RECEIPT_FIELDS_V5 :: "string list" where
  "RECEIPT_FIELDS_V5 = RECEIPT_FIELDS_V4 @
     [''judge_script_path'', ''result_path'', ''result_sha256'', ''measurement_lock_sha'',
      ''source_script_path'', ''source_result_path'']"

definition RECEIPT_FIELDS_V6 :: "string list" where
  "RECEIPT_FIELDS_V6 = RECEIPT_FIELDS_V5 @ [''history_payload_sha256'']"

definition RECEIPT_FIELDS_V7 :: "string list" where
  "RECEIPT_FIELDS_V7 = RECEIPT_FIELDS_V6 @ [''prediction_temporal_commitment_sha256'']"

definition RECEIPT_FIELDS_PRE_AG3 :: "string list" where
  "RECEIPT_FIELDS_PRE_AG3 = filter (\<lambda>f. f \<noteq> ''measurement_grade'') RECEIPT_FIELDS_V1"

definition RECEIPT_FIELDSET_LINEAGE :: "(string \<times> string list) list" where
  "RECEIPT_FIELDSET_LINEAGE = [(''pre-ag3'', RECEIPT_FIELDS_PRE_AG3)]"

definition PREDICTION_RECEIPT_FIELDS_V1 :: "string list" where
  "PREDICTION_RECEIPT_FIELDS_V1 =
     [''receipt_kind'', ''tree'', ''tag'', ''metric_name'', ''direction'', ''baseline_value'', ''noise_band'',
      ''scale_type'', ''novel_prediction'', ''novel_metric'', ''novel_direction'', ''novel_threshold'',
      ''judge_script_sha'', ''closes_question'', ''credence'', ''baseline_lineage'',
      ''registered_at'', ''prev_receipt_sha'']"

definition PREDICTION_RECEIPT_FIELDS_V2 :: "string list" where
  "PREDICTION_RECEIPT_FIELDS_V2 = PREDICTION_RECEIPT_FIELDS_V1 @ [''anchor_bundle_sha256'']"

definition PREDICTION_RECEIPT_FIELDS_V3 :: "string list" where
  "PREDICTION_RECEIPT_FIELDS_V3 = PREDICTION_RECEIPT_FIELDS_V2 @ [''history_payload_sha256'']"

definition PREDICTION_NUMERIC_FIELDS :: "string list" where
  "PREDICTION_NUMERIC_FIELDS = [''baseline_value'', ''noise_band'', ''novel_threshold'', ''credence'']"

section \<open>Normalisation\<close>

definition finite_or_none :: "signed_float option \<Rightarrow> field_value" where
  "finite_or_none x = (case x of Some (SFin neg m) \<Rightarrow> FFloat (SFin neg m) | _ \<Rightarrow> FNone)"

fun coerce_metric_value :: "field_value \<Rightarrow> field_value" where
  "coerce_metric_value (FFloat x) = finite_or_none (Some x)"
| "coerce_metric_value (FJson (JBool b)) = FFloat (SFin False (if b then 1 else 0))"
| "coerce_metric_value (FJson (JInt i)) = finite_or_none (float_of_int i)"
| "coerce_metric_value (FJson (JStr s)) = finite_or_none (float_of_str s)"
| "coerce_metric_value (FJson _) = FNone"

text \<open>\<^verbatim>\<open>repr\<close> of a value without floats.\<close>

primrec py_repr :: "json \<Rightarrow> string" where
  "py_repr JNull = ''None''"
| "py_repr (JBool b) = (if b then ''True'' else ''False'')"
| "py_repr (JInt i) = show_int i"
| "py_repr (JStr s) = repr_str s"
| "py_repr (JArr xs) = ''['' @ str_join '', '' (map py_repr xs) @ '']''"
| "py_repr (JObj kvs) =
     ''{'' @ str_join '', '' (map (\<lambda>kv. repr_str (fst kv) @ '': '' @ snd kv) (map (map_prod id py_repr) kvs)) @ ''}''"

fun coerce_judged_at :: "field_value \<Rightarrow> field_value" where
  "coerce_judged_at (FFloat x) = FText (float_repr x)"
| "coerce_judged_at (FJson JNull) = FNone"
| "coerce_judged_at (FJson (JStr s)) = FText s"
| "coerce_judged_at (FJson j) = FText (py_repr j)"

section \<open>Verdict receipts\<close>

text \<open>The test of each generation: is its field given, or, with an explicit field set, listed.\<close>

definition receipt_has :: "field_map \<Rightarrow> string list option \<Rightarrow> string \<Rightarrow> bool" where
  "receipt_has entries fieldset key =
     (case fieldset of None \<Rightarrow> get_field entries key \<noteq> FNone | Some fs \<Rightarrow> key \<in> set fs)"

definition receipt_generation :: "field_map \<Rightarrow> string list option \<Rightarrow> nat" where
  "receipt_generation entries fieldset =
     (let has = receipt_has entries fieldset in
      if has ''prediction_temporal_commitment_sha256'' then 7
      else if has ''history_payload_sha256'' then 6
      else if list_ex has RECEIPT_ARTIFACT_IDENTITY_FIELDS then 5
      else if has ''replay_status'' then 4
      else if has ''comment_sha'' then 3
      else if has ''engine_rule_sha'' then 2
      else 1)"

definition generation_fields :: "nat \<Rightarrow> string list" where
  "generation_fields n =
     (if n = 7 then RECEIPT_FIELDS_V7 else if n = 6 then RECEIPT_FIELDS_V6 else if n = 5 then RECEIPT_FIELDS_V5
      else if n = 4 then RECEIPT_FIELDS_V4 else if n = 3 then RECEIPT_FIELDS_V3
      else if n = 2 then RECEIPT_FIELDS_V2 else RECEIPT_FIELDS_V1)"

definition receipt_keys :: "field_map \<Rightarrow> string list option \<Rightarrow> string list" where
  "receipt_keys entries fieldset =
     (case fieldset of None \<Rightarrow> generation_fields (receipt_generation entries None) | Some fs \<Rightarrow> remdups fs)"

definition receipt_payload :: "field_map \<Rightarrow> string list option \<Rightarrow> field_map" where
  "receipt_payload entries fieldset =
     (let p0 = map (\<lambda>k. (k, get_field entries k)) (receipt_keys entries fieldset);
          p1 = AList.update ''metric_value'' (coerce_metric_value (get_field p0 ''metric_value'')) p0;
          p2 = (if ''regenerated_metric'' \<in> fst ` set p1
                then AList.update ''regenerated_metric'' (coerce_metric_value (get_field p1 ''regenerated_metric'')) p1
                else p1)
      in AList.update ''judged_at'' (coerce_judged_at (get_field p2 ''judged_at'')) p2)"

definition receipt_header :: "string \<Rightarrow> nat \<Rightarrow> string" where
  "receipt_header kind generation = kind @ [CHR 0x00] @ ''v'' @ show_nat generation @ [CHR 0x0A]"

definition canonical_receipt_blob :: "field_map \<Rightarrow> string list option \<Rightarrow> byte list" where
  "canonical_receipt_blob entries fieldset =
     utf8_encode (receipt_header ''verdict-receipt'' (receipt_generation entries fieldset)) @
     utf8_encode (payload_dumps (receipt_payload entries fieldset))"

definition receipt_content_sha :: "field_map \<Rightarrow> string list option \<Rightarrow> string" where
  "receipt_content_sha entries fieldset = sha256_hex (canonical_receipt_blob entries fieldset)"

section \<open>Prediction receipts\<close>

definition prediction_generation :: "field_map \<Rightarrow> nat" where
  "prediction_generation entries =
     (if get_field entries ''history_payload_sha256'' \<noteq> FNone then 3
      else if get_field entries ''anchor_bundle_sha256'' \<noteq> FNone then 2 else 1)"

definition prediction_keys :: "field_map \<Rightarrow> string list" where
  "prediction_keys entries =
     (let n = prediction_generation entries in
      if n = 3 then PREDICTION_RECEIPT_FIELDS_V3
      else if n = 2 then PREDICTION_RECEIPT_FIELDS_V2 else PREDICTION_RECEIPT_FIELDS_V1)"

definition prediction_payload :: "field_map \<Rightarrow> field_map" where
  "prediction_payload entries =
     (let p0 = map (\<lambda>k. (k, get_field entries k)) (prediction_keys entries);
          p1 = foldl (\<lambda>p k. AList.update k (coerce_metric_value (get_field p k)) p) p0 PREDICTION_NUMERIC_FIELDS
      in AList.update ''registered_at'' (coerce_judged_at (get_field p1 ''registered_at'')) p1)"

definition canonical_prediction_blob :: "field_map \<Rightarrow> byte list" where
  "canonical_prediction_blob entries =
     utf8_encode (receipt_header ''prediction-receipt'' (prediction_generation entries)) @
     utf8_encode (payload_dumps (prediction_payload entries))"

definition prediction_content_sha :: "field_map \<Rightarrow> string" where
  "prediction_content_sha entries = sha256_hex (canonical_prediction_blob entries)"

section \<open>Which encoding\<close>

definition is_prediction_receipt :: "field_map \<Rightarrow> bool" where
  "is_prediction_receipt receipt \<longleftrightarrow> get_field receipt ''receipt_kind'' = FText ''prediction''"

definition match_receipt_encoding :: "field_map \<Rightarrow> string \<Rightarrow> string option" where
  "match_receipt_encoding receipt stored_sha =
     (if is_prediction_receipt receipt then
        (if prediction_content_sha receipt = stored_sha then Some ''current'' else None)
      else if receipt_content_sha receipt None = stored_sha then Some ''current''
      else map_option fst
        (find (\<lambda>(label, fs). receipt_content_sha receipt (Some fs) = stored_sha) RECEIPT_FIELDSET_LINEAGE))"

section \<open>History payloads\<close>

text \<open>The seals of the history rows, whose printer refuses floats that are not finite.\<close>

fun value_finite :: "field_value \<Rightarrow> bool" where
  "value_finite (FFloat (SFin _ _)) = True"
| "value_finite (FFloat _) = False"
| "value_finite (FJson _) = True"

definition verdict_history_payload_sha :: "field_map \<Rightarrow> string option" where
  "verdict_history_payload_sha payload =
     (if list_all (value_finite \<circ> snd) payload
      then Some (sha256_hex (utf8_encode (receipt_header ''verdict-history-payload'' 1) @ utf8_encode (payload_dumps payload)))
      else None)"

definition prediction_history_payload_sha :: "field_map \<Rightarrow> string option" where
  "prediction_history_payload_sha payload =
     (if list_all (value_finite \<circ> snd) payload
      then Some (sha256_hex (utf8_encode (receipt_header ''prediction-history-payload'' 1) @ utf8_encode (payload_dumps payload)))
      else None)"

end
