(* ===== verification/Receipt_Graph.thy ===== *)
theory Receipt_Graph
  imports Receipt_Blob
begin

text \<open>
  \<^verbatim>\<open>server/contexts/tree/receipt_chain.py\<close>: the validation of the stored receipt graph. Two
  queries give what is stored, every physical receipt with its owners and every node with its bound
  receipts; the validator accepts them only when the receipts of each node are one chain from its head
  to a genesis. What the queries return is untyped, so an entry of a row is a JSON value, and a receipt
  or an owner is absent where the row holds something that is no dict.
\<close>

section \<open>Equality of stored values\<close>

text \<open>\<^verbatim>\<open>==\<close> of two dicts: numbers by value, whatever their type; a NaN equals nothing.\<close>

primrec json_plain :: "json \<Rightarrow> json" where
  "json_plain JNull = JNull"
| "json_plain (JBool b) = JInt (if b then 1 else 0)"
| "json_plain (JInt i) = JInt i"
| "json_plain (JStr s) = JStr s"
| "json_plain (JArr xs) = JArr (map json_plain xs)"
| "json_plain (JObj kvs) = JObj (map (map_prod id json_plain) kvs)"

fun value_eq :: "field_value \<Rightarrow> field_value \<Rightarrow> bool" where
  "value_eq (FJson j) (FJson k) \<longleftrightarrow> canonical (json_plain j) = canonical (json_plain k)"
| "value_eq (FFloat (SFin s m)) (FFloat (SFin t n)) \<longleftrightarrow> (if s then - m else m) = (if t then - n else n)"
| "value_eq (FFloat (SInf s)) (FFloat (SInf t)) \<longleftrightarrow> s = t"
| "value_eq (FFloat (SFin s m)) (FJson j) \<longleftrightarrow>
     (case json_plain j of JInt i \<Rightarrow> (if s then - m else m) = of_int i | _ \<Rightarrow> False)"
| "value_eq (FJson j) (FFloat (SFin s m)) \<longleftrightarrow>
     (case json_plain j of JInt i \<Rightarrow> (if s then - m else m) = of_int i | _ \<Rightarrow> False)"
| "value_eq _ _ \<longleftrightarrow> False"

definition entries_eq :: "field_map \<Rightarrow> field_map \<Rightarrow> bool" where
  "entries_eq e f \<longleftrightarrow> fst ` set e = fst ` set f \<and> list_all (\<lambda>(k, _). value_eq (get_field e k) (get_field f k)) e"

section \<open>Rows\<close>

record receipt_owner =
  ow_node_element_id :: json
  ow_tree :: json
  ow_tag :: json

record identity_row =
  ir_receipt_element_id :: json
  ir_receipt_sha :: json
  ir_receipt :: "field_map option"
  ir_all_bindings :: json
  ir_owners :: "receipt_owner option list option"

record bound_receipt =
  bd_receipt_element_id :: json
  bd_receipt :: "field_map option"

record graph_node =
  gn_node_element_id :: json
  gn_tree :: json
  gn_tag :: json
  gn_tree_incarnation_id :: json
  gn_current_receipt_sha :: json
  gn_pred_receipt_sha :: json
  gn_receipts :: "bound_receipt option list option"

datatype graph_error = ReceiptGraphError string | ReceiptGraphFold verdict_error

text \<open>The string that a JSON value is, and that if it is not empty.\<close>

definition text_value :: "json \<Rightarrow> string option" where
  "text_value v = (case v of JStr s \<Rightarrow> Some s | _ \<Rightarrow> None)"

definition nonempty_text :: "json \<Rightarrow> string option" where
  "nonempty_text v = (case v of JStr s \<Rightarrow> if s = [] then None else Some s | _ \<Rightarrow> None)"

definition sha_text :: "string \<Rightarrow> bool" where
  "sha_text s \<longleftrightarrow> length s = 64 \<and> list_all (\<lambda>c. c \<in> set ''0123456789abcdef'') s"

definition sha_value :: "json \<Rightarrow> string option" where
  "sha_value v = (case v of JStr s \<Rightarrow> if sha_text s then Some s else None | _ \<Rightarrow> None)"

section \<open>Physical receipts\<close>

record graph_state =
  gs_physical_by_element :: "(string \<times> field_map) list"
  gs_owner_by_element :: "(string \<times> (string \<times> string \<times> string)) list"
  gs_sha_to_elements :: "(string \<times> string set) list"
  gs_receipt_by_sha :: "(string \<times> field_map) list"

definition initial_graph_state :: graph_state where
  "initial_graph_state = \<lparr>gs_physical_by_element = [], gs_owner_by_element = [], gs_sha_to_elements = [], gs_receipt_by_sha = []\<rparr>"

definition record_receipt :: "graph_state \<Rightarrow> string \<Rightarrow> field_map \<Rightarrow> string \<Rightarrow> receipt_owner \<Rightarrow> graph_error + graph_state" where
  "record_receipt st element_id receipt receipt_sha owner =
     (case (nonempty_text (ow_node_element_id owner), nonempty_text (ow_tree owner), nonempty_text (ow_tag owner)) of
        (Some owner_element_id, Some tree, Some tag) \<Rightarrow>
          ebind (run_checks
            [raise_if (get_field receipt ''tree'' \<noteq> FText tree \<or> get_field receipt ''tag'' \<noteq> FText tag)
               (ReceiptGraphError ''receipt scope disagrees with its owner''),
             raise_if (match_receipt_encoding receipt receipt_sha = None)
               (ReceiptGraphError ''receipt content hash does not rederive''),
             raise_if (element_id \<in> fst ` set (gs_physical_by_element st))
               (ReceiptGraphError ''receipt physical element is duplicated'')]) (\<lambda>_.
          Inr \<lparr>gs_physical_by_element = AList.update element_id receipt (gs_physical_by_element st),
               gs_owner_by_element = AList.update element_id (owner_element_id, tree, tag) (gs_owner_by_element st),
               gs_sha_to_elements = AList.map_default receipt_sha {element_id} (insert element_id) (gs_sha_to_elements st),
               gs_receipt_by_sha = AList.update receipt_sha receipt (gs_receipt_by_sha st)\<rparr>)
      | _ \<Rightarrow> Inl (ReceiptGraphError ''receipt owner is not one tree-scoped node''))"

definition admit_identity :: "graph_state \<Rightarrow> identity_row \<Rightarrow> graph_error + graph_state" where
  "admit_identity st row =
     (case (nonempty_text (ir_receipt_element_id row), ir_receipt row, sha_value (ir_receipt_sha row), ir_owners row) of
        (Some element_id, Some receipt, Some receipt_sha, Some [Some owner]) \<Rightarrow>
          ebind (raise_if (get_field receipt ''receipt_sha'' \<noteq> FText receipt_sha \<or> ir_all_bindings row \<noteq> JInt 1)
            (ReceiptGraphError ''receipt physical identity is malformed'')) (\<lambda>_.
          record_receipt st element_id receipt receipt_sha owner)
      | _ \<Rightarrow> Inl (ReceiptGraphError ''receipt physical identity is malformed''))"

definition admit_identities :: "identity_row list \<Rightarrow> graph_error + graph_state" where
  "admit_identities rows =
     ebind (fold_result admit_identity initial_graph_state rows) (\<lambda>st.
     ebind (raise_if (list_ex (\<lambda>(_, elements). card elements \<noteq> 1) (gs_sha_to_elements st))
       (ReceiptGraphError ''receipt sha identifies multiple physical nodes'')) (\<lambda>_.
     Inr st))"

section \<open>The chain of a node\<close>

text \<open>What the fold reads of a receipt. A link that is neither a string nor absent leads to no receipt,
  as the empty string does, and so does its hash.\<close>

definition field_link :: "field_value \<Rightarrow> string option" where
  "field_link v = (case v of FJson JNull \<Rightarrow> None | FJson (JStr s) \<Rightarrow> Some s | _ \<Rightarrow> Some [])"

definition field_text :: "field_value \<Rightarrow> string option" where
  "field_text v = (case v of FJson (JStr s) \<Rightarrow> Some s | _ \<Rightarrow> None)"

definition chain_receipt :: "field_map \<Rightarrow> receipt" where
  "chain_receipt e =
     \<lparr>rc_receipt_sha = (case field_text (get_field e ''receipt_sha'') of Some s \<Rightarrow> s | None \<Rightarrow> []),
      rc_prev_receipt_sha = field_link (get_field e ''prev_receipt_sha''),
      rc_verdict = field_text (get_field e ''verdict''),
      rc_verdict_source = field_text (get_field e ''verdict_source'')\<rparr>"

text \<open>The second walk, which keeps the hashes it visits, head first.\<close>

function head_to_genesis :: "by_sha \<Rightarrow> string set \<Rightarrow> string option \<Rightarrow> graph_error + string list" where
  "head_to_genesis idx ancestors None = Inr []"
| "head_to_genesis idx ancestors (Some cursor) =
     (if cursor \<in> ancestors then Inl (ReceiptGraphError ''receipt ancestry cannot reach genesis'')
      else case map_of idx cursor of
        None \<Rightarrow> Inl (ReceiptGraphError ''receipt ancestry cannot reach genesis'')
      | Some r \<Rightarrow> ebind (head_to_genesis idx (insert cursor ancestors) (rc_prev_receipt_sha r)) (\<lambda>rest. Inr (cursor # rest)))"
  by pat_completeness auto

termination
proof (relation "measure (\<lambda>(idx, seen, _). card (fst ` set idx - seen))")
  fix idx :: by_sha and seen cur r
  assume new: "cur \<notin> seen" and found: "map_of idx cur = Some r"
  from found have "cur \<in> fst ` set idx" by (force dest: map_of_SomeD)
  with new have "fst ` set idx - insert cur seen \<subset> fst ` set idx - seen" by blast
  then have "card (fst ` set idx - insert cur seen) < card (fst ` set idx - seen)"
    by (rule psubset_card_mono [rotated]) simp
  then show "((idx, insert cur seen, rc_prev_receipt_sha r), (idx, seen, Some cur))
    \<in> measure (\<lambda>(idx, seen, _). card (fst ` set idx - seen))" by simp
qed simp

section \<open>The prefix seal\<close>

definition RECEIPT_GRAPH_PREFIX_SCHEMA :: string where
  "RECEIPT_GRAPH_PREFIX_SCHEMA = ''lakatotree-receipt-graph-prefix/v1''"

definition receipt_graph_prefix_body :: "string \<Rightarrow> string \<Rightarrow> string \<Rightarrow> string \<Rightarrow> string \<Rightarrow> string list \<Rightarrow> json" where
  "receipt_graph_prefix_body tree_incarnation_id tree tag prediction_sha verdict_sha chain = JObj
     [(''schema_version'', JStr RECEIPT_GRAPH_PREFIX_SCHEMA), (''tree_incarnation_id'', JStr tree_incarnation_id),
      (''tree'', JStr tree), (''tag'', JStr tag), (''prediction_receipt_sha256'', JStr prediction_sha),
      (''verdict_receipt_sha256'', JStr verdict_sha), (''chain'', JArr (map JStr chain))]"

definition receipt_graph_prefix_blob :: "string \<Rightarrow> string \<Rightarrow> string \<Rightarrow> string \<Rightarrow> string \<Rightarrow> string list \<Rightarrow> byte list" where
  "receipt_graph_prefix_blob tree_incarnation_id tree tag prediction_sha verdict_sha chain =
     utf8_encode (''lakatotree-receipt-graph-prefix/v1'' @ [CHR 0x00]) @
     json_bytes (receipt_graph_prefix_body tree_incarnation_id tree tag prediction_sha verdict_sha chain)"

definition receipt_graph_prefix_sha256 :: "string \<Rightarrow> string \<Rightarrow> string \<Rightarrow> string \<Rightarrow> string \<Rightarrow> string list \<Rightarrow> string" where
  "receipt_graph_prefix_sha256 tree_incarnation_id tree tag prediction_sha verdict_sha chain =
     sha256_hex (receipt_graph_prefix_blob tree_incarnation_id tree tag prediction_sha verdict_sha chain)"

text \<open>\<^verbatim>\<open>str(value or "legacy-unbound")\<close>.\<close>

definition incarnation_text :: "json \<Rightarrow> string" where
  "incarnation_text v =
     (if v \<in> {JNull, JBool False, JInt 0, JStr [], JArr [], JObj []} then ''legacy-unbound''
      else case v of JStr s \<Rightarrow> s | _ \<Rightarrow> py_repr v)"

section \<open>The index\<close>

type_synonym scope_id = "string \<times> string"

record receipt_chain_index =
  ix_ancestors_by_scope :: "(scope_id \<times> string set) list"
  ix_ordered_ancestry_by_scope :: "(scope_id \<times> string list) list"
  ix_current_by_scope :: "(scope_id \<times> string option) list"
  ix_prediction_by_scope :: "(scope_id \<times> string option) list"
  ix_graph_sha256_by_scope :: "(scope_id \<times> string option) list"
  ix_tree_incarnation_by_scope :: "(scope_id \<times> string option) list"
  ix_receipt_by_sha :: "(string \<times> field_map) list"

text \<open>What the loop over the nodes carries: the sets of what it has seen, and the index so far.\<close>

record node_loop =
  nl_seen_nodes :: "string set"
  nl_seen_scopes :: "scope_id set"
  nl_seen_receipt_elements :: "string set"
  nl_index :: receipt_chain_index

definition bind_receipt :: "graph_state \<Rightarrow> (string \<times> string \<times> string) \<Rightarrow> string set \<times> field_map list \<Rightarrow>
    bound_receipt option \<Rightarrow> graph_error + string set \<times> field_map list" where
  "bind_receipt st owner acc item =
     (case item of
        None \<Rightarrow> Inl (ReceiptGraphError ''bound receipt row is malformed'')
      | Some b \<Rightarrow>
          (case (text_value (bd_receipt_element_id b), bd_receipt b) of
             (Some element_id, Some receipt) \<Rightarrow>
               ebind (raise_if (element_id \<in> fst acc \<or>
                   (case map_of (gs_physical_by_element st) element_id of
                      None \<Rightarrow> True | Some p \<Rightarrow> \<not> entries_eq p receipt) \<or>
                   map_of (gs_owner_by_element st) element_id \<noteq> Some owner)
                 (ReceiptGraphError ''node receipt binding is not exact'')) (\<lambda>_.
               Inr (insert element_id (fst acc), snd acc @ [receipt]))
           | _ \<Rightarrow> Inl (ReceiptGraphError ''node receipt binding is not exact'')))"

text \<open>The pointers of a node: absent, or a hash.\<close>

definition pointer :: "json \<Rightarrow> string \<Rightarrow> graph_error + string option" where
  "pointer v message =
     (if v = JNull then Inr None
      else case sha_value v of None \<Rightarrow> Inl (ReceiptGraphError message) | Some s \<Rightarrow> Inr (Some s))"

definition node_chain :: "field_map list \<Rightarrow> string option \<Rightarrow> string option \<Rightarrow> graph_error + string list" where
  "node_chain receipts current prediction =
     (let rows = map chain_receipt receipts; idx = by_receipt_sha rows in
      ebind (run_checks
        [raise_if (current = None \<and> receipts \<noteq> []) (ReceiptGraphError ''receipts exist without a current head''),
         raise_if (current \<noteq> None \<and> receipts = []) (ReceiptGraphError ''current head has no bound receipt'')]) (\<lambda>_.
      ebind (case fold_receipt_chain rows current None None of
               Inl e \<Rightarrow> Inl (ReceiptGraphFold e) | Inr _ \<Rightarrow> Inr ()) (\<lambda>_.
      ebind (head_to_genesis idx {} current) (\<lambda>path.
      ebind (raise_if (set path \<noteq> fst ` set idx)
        (ReceiptGraphError ''bound receipt side branch is unreachable from head'')) (\<lambda>_.
      ebind (case prediction of
               None \<Rightarrow> Inr ()
             | Some p \<Rightarrow> raise_if (p \<notin> set path \<or>
                 (case map_of (rev (map (\<lambda>e. (rc_receipt_sha (chain_receipt e), e)) receipts)) p of
                    None \<Rightarrow> True | Some pred \<Rightarrow> \<not> is_prediction_receipt pred))
                 (ReceiptGraphError ''prediction pointer is not an ancestor receipt'')) (\<lambda>_.
      Inr path))))))"

definition graph_seal :: "graph_node \<Rightarrow> scope_id \<Rightarrow> string option \<Rightarrow> string option \<Rightarrow> string list \<Rightarrow> string option" where
  "graph_seal row scope current prediction ordered =
     (case (current, prediction) of
        (Some c, Some p) \<Rightarrow> Some (receipt_graph_prefix_sha256 (incarnation_text (gn_tree_incarnation_id row))
          (fst scope) (snd scope) p c ordered)
      | _ \<Rightarrow> None)"

definition admit_node :: "graph_state \<Rightarrow> node_loop \<Rightarrow> graph_node \<Rightarrow> graph_error + node_loop" where
  "admit_node st nl row =
     (case (nonempty_text (gn_node_element_id row), nonempty_text (gn_tree row), nonempty_text (gn_tag row), gn_receipts row) of
        (Some element, Some tree, Some tag, Some bound) \<Rightarrow>
          let scope = (tree, tag) in
          ebind (raise_if (element \<in> nl_seen_nodes nl \<or> scope \<in> nl_seen_scopes nl)
            (ReceiptGraphError ''receipt-chain node identity is ambiguous'')) (\<lambda>_.
          ebind (fold_result (bind_receipt st (element, tree, tag)) ({}, []) bound) (\<lambda>(local_elements, receipts).
          ebind (pointer (gn_current_receipt_sha row) ''current receipt pointer is malformed'') (\<lambda>current.
          ebind (pointer (gn_pred_receipt_sha row) ''prediction receipt pointer is malformed'') (\<lambda>prediction.
          ebind (node_chain receipts current prediction) (\<lambda>path.
          let ordered = rev path; ix = nl_index nl in
          Inr \<lparr>nl_seen_nodes = insert element (nl_seen_nodes nl),
               nl_seen_scopes = insert scope (nl_seen_scopes nl),
               nl_seen_receipt_elements = nl_seen_receipt_elements nl \<union> local_elements,
               nl_index = ix\<lparr>
                 ix_ancestors_by_scope := ix_ancestors_by_scope ix @ [(scope, set path)],
                 ix_ordered_ancestry_by_scope := ix_ordered_ancestry_by_scope ix @ [(scope, ordered)],
                 ix_current_by_scope := ix_current_by_scope ix @ [(scope, current)],
                 ix_prediction_by_scope := ix_prediction_by_scope ix @ [(scope, prediction)],
                 ix_graph_sha256_by_scope := ix_graph_sha256_by_scope ix @ [(scope, graph_seal row scope current prediction ordered)],
                 ix_tree_incarnation_by_scope := ix_tree_incarnation_by_scope ix @ [(scope, nonempty_text (gn_tree_incarnation_id row))]\<rparr>\<rparr>)))))
      | _ \<Rightarrow> Inl (ReceiptGraphError ''receipt-chain node row is malformed''))"

definition initial_node_loop :: "graph_state \<Rightarrow> node_loop" where
  "initial_node_loop st =
     \<lparr>nl_seen_nodes = {}, nl_seen_scopes = {}, nl_seen_receipt_elements = {},
      nl_index = \<lparr>ix_ancestors_by_scope = [], ix_ordered_ancestry_by_scope = [], ix_current_by_scope = [],
        ix_prediction_by_scope = [], ix_graph_sha256_by_scope = [], ix_tree_incarnation_by_scope = [],
        ix_receipt_by_sha = gs_receipt_by_sha st\<rparr>\<rparr>"

definition validate_receipt_graph :: "graph_node list \<Rightarrow> identity_row list \<Rightarrow> graph_error + receipt_chain_index" where
  "validate_receipt_graph node_rows identity_rows =
     ebind (admit_identities identity_rows) (\<lambda>st.
     ebind (fold_result (admit_node st) (initial_node_loop st) node_rows) (\<lambda>nl.
     ebind (raise_if (nl_seen_receipt_elements nl \<noteq> fst ` set (gs_physical_by_element st))
       (ReceiptGraphError ''orphan receipt is not represented by one node chain'')) (\<lambda>_.
     Inr (nl_index nl))))"

end
