(* ===== verification/Py_Repr_Facts.thy ===== *)
theory Py_Repr_Facts
  imports Py_Repr
begin

text \<open>
  \<^verbatim>\<open>repr\<close> of a finite float reads back as that float, sign of zero included; so texts of
  different floats differ. Rounding is idempotent, so whatever the code computed or read is a float whose
  text this holds for.
\<close>

section \<open>Rounding is idempotent\<close>

lemma floor_log2_upper:
  assumes "0 < x"
  shows "x < 2 powi (floor_log2 x + 1)"
proof -
  obtain p q where pq: "quotient_of x = (p, q)" by force
  let ?k = "bitlen p - bitlen q"
  have q: "0 < q" using pq by (rule quotient_of_denom_pos)
  have x: "x = of_int p / of_int q" using pq by (rule quotient_of_div)
  have p: "0 < p" using assms q by (simp add: x zero_less_divide_iff)
  have bp: "1 \<le> bitlen p" and bq: "1 \<le> bitlen q"
    using p q by (metis bitlen_eq_zero_iff bitlen_nonneg int_one_le_iff_zero_less le_less not_le)+
  have "of_int p < (of_int (2 ^ nat (bitlen p)) :: rat)"
    using bitlen_bounds [OF p] by (simp only: of_int_less_iff)
  also have "\<dots> = 2 powi (bitlen p)" using bp by (simp add: power_int_def)
  finally have up: "of_int p < (2::rat) powi (bitlen p)" .
  have "(2::rat) powi (bitlen q - 1) = of_int (2 ^ nat (bitlen q - 1))"
    using bq by (simp add: power_int_def)
  also have "\<dots> \<le> of_int q" using bitlen_bounds [OF q] by (simp only: of_int_le_iff)
  finally have lq: "(2::rat) powi (bitlen q - 1) \<le> of_int q" .
  have "x < 2 powi (bitlen p) / 2 powi (bitlen q - 1)"
    unfolding x using up lq q p by (intro frac_less) simp_all
  also have "\<dots> = 2 powi (?k + 1)" by (simp add: power_int_diff [symmetric] algebra_simps)
  finally show ?thesis by (auto simp: floor_log2_def pq Let_def)
qed

lemma round_half_even_le: "y < of_int n \<Longrightarrow> round_half_even y \<le> n"
proof -
  assume "y < of_int n"
  then have "\<lfloor>y\<rfloor> < n" by (simp add: floor_less_iff)
  then show ?thesis by (simp add: round_half_even_def Let_def)
qed

lemma round_magnitude_shape:
  assumes "0 < x"
  obtains n e where "round_magnitude x = of_int n * 2 powi e" "0 \<le> n" "n \<le> 2 ^ 53" "least_exponent \<le> e"
proof
  let ?e = "ulp_exponent x"
  show "round_magnitude x = of_int (round_half_even (x * 2 powi (- ?e))) * 2 powi ?e"
    by (simp add: round_magnitude_def Let_def)
  show "0 \<le> round_half_even (x * 2 powi (- ?e))" using assms by (intro round_half_even_nonneg) (simp add: less_imp_le)
  show "least_exponent \<le> ?e" by (simp add: ulp_exponent_def)
  have "x < 2 powi (53 + ?e)"
  proof -
    have "floor_log2 x + 1 \<le> 53 + ?e" by (simp add: ulp_exponent_def)
    then show ?thesis using floor_log2_upper [OF assms] powi_mono by (meson less_le_trans)
  qed
  then have "x * 2 powi (- ?e) < 2 powi (53 + ?e) * 2 powi (- ?e)" by simp
  also have "\<dots> = 2 powi 53" by (simp flip: power_int_add)
  also have "(2::rat) powi 53 = of_int (2 ^ 53)" by (simp add: power_int_def)
  finally show "round_half_even (x * 2 powi (- ?e)) \<le> 2 ^ 53" by (rule round_half_even_le)
qed

lemma round_magnitude_idem:
  assumes "0 < x"
  shows "round_magnitude (round_magnitude x) = round_magnitude x"
proof -
  obtain n e where n: "round_magnitude x = of_int n * 2 powi e" "0 \<le> n" "n \<le> 2 ^ 53" "least_exponent \<le> e"
    by (rule round_magnitude_shape [OF assms])
  consider "n = 0" | "0 < n" "n < 2 ^ 53" | "n = 2 ^ 53" using n(2,3) by fastforce
  then show ?thesis
  proof cases
    case 1
    have "round_magnitude 0 = 0" using round_half_even_int [of 0] by (simp add: round_magnitude_def Let_def)
    with 1 n(1) show ?thesis by simp
  next
    case 2
    with n show ?thesis by (simp add: round_magnitude_exact)
  next
    case 3
    have "of_int n * (2::rat) powi e = of_int (2 ^ 52) * 2 powi (e + 1)"
      unfolding 3 by (simp add: power_int_add)
    with n(1,4) round_magnitude_exact [of "2 ^ 52" "e + 1"] show ?thesis by simp
  qed
qed

definition is_double :: "rat \<Rightarrow> bool" where
  "is_double m \<longleftrightarrow> 0 \<le> m \<and> fl_round m = PFin m"

lemma fl_round_double:
  assumes "fl_round x = PFin r" and "0 \<le> x"
  shows "is_double r"
proof (cases "x = 0")
  case False
  with assms have x: "0 < x" by simp
  with assms have r: "r = round_magnitude x" "r < 2 powi 1024"
    by (auto simp: fl_round_def Let_def not_le split: if_splits)
  have "0 \<le> r" using x by (simp add: r(1) round_magnitude_nonneg)
  moreover have "fl_round r = PFin r"
    using r round_magnitude_idem [OF x] \<open>0 \<le> r\<close> by (simp add: fl_round_def Let_def)
  ultimately show ?thesis by (simp add: is_double_def)
qed (use assms in \<open>simp add: is_double_def\<close>)

section \<open>The digits of a float\<close>

lemma strip_zeros_rat: "decimal_rat (strip_zeros c k) = decimal_rat (c, k)"
proof (induction c k rule: strip_zeros.induct)
  case (1 c k)
  show ?case
  proof (cases "0 < c \<and> c mod 10 = 0")
    case True
    then have "c = 10 * (c div 10)" by auto
    then have "(of_nat c :: rat) = 10 * of_nat (c div 10)" by (metis of_nat_mult of_nat_numeral)
    with 1 True show ?thesis by (subst strip_zeros.simps) (simp add: decimal_rat_def power_int_add)
  next
    case False
    then have "strip_zeros c k = (c, k)" by (subst strip_zeros.simps) auto
    then show ?thesis by simp
  qed
qed

lemma strip_zeros_pos: "0 < c \<Longrightarrow> 0 < fst (strip_zeros c k)"
proof (induction c k rule: strip_zeros.induct)
  case (1 c k)
  then have "c mod 10 = 0 \<Longrightarrow> 0 < c div 10" by auto
  with 1 show ?case by (subst strip_zeros.simps) auto
qed

lemma nearest_decimal_reads_back: "nearest_decimal x n = Some d \<Longrightarrow> reads_back x d"
  by (auto simp: nearest_decimal_def Let_def split: if_splits)

lemma exact_scaled:
  assumes "x = of_int j * 2 powi (- int N)" and "0 < x"
  shows "0 < nat \<lfloor>x * 2 powi (int N)\<rfloor> * 5 ^ N \<and> decimal_rat (nat \<lfloor>x * 2 powi (int N)\<rfloor> * 5 ^ N, - int N) = x"
proof -
  have s: "x * 2 powi (int N) = of_int j" unfolding assms(1) mult.assoc powi_cancel mult_1_right ..
  have "0 < x * 2 powi (int N)" using assms(2) by simp
  then have j: "0 < j" unfolding s by simp
  have "(10::rat) powi (- int N) * 5 ^ N = 2 powi (- int N)"
  proof -
    have "(10::rat) ^ N = 2 ^ N * 5 ^ N" by (simp flip: power_mult_distrib)
    then show ?thesis by (simp only: power_int_minus power_int_of_nat) simp
  qed
  then have "of_int j * (5 ^ N * (10::rat) powi (- int N)) = x" by (simp add: assms(1) mult.commute)
  with j show ?thesis unfolding s by (simp add: decimal_rat_def mult.assoc)
qed

lemma exact_decimal_rat:
  assumes "on_grid x" and "0 < x"
  shows "0 < fst (exact_decimal x) \<and> decimal_rat (exact_decimal x) = x"
proof -
  have "least_exponent = - int GRID_BITS" by (simp add: least_exponent_def GRID_BITS_def)
  then obtain j where "x = of_int j * 2 powi (- int GRID_BITS)" using assms(1) by (auto simp: on_grid_def)
  from exact_scaled [OF this assms(2)] show ?thesis by (simp only: exact_decimal_def fst_conv)
qed

lemma shortest_reads_back:
  assumes "is_double x" and "0 < x"
  shows "reads_back x (shortest_decimal x)"
proof (cases "find (\<lambda>n. nearest_decimal x n \<noteq> None) [1..<18]")
  case None
  have "fl_round x = PFin x" using assms(1) by (simp add: is_double_def)
  with exact_decimal_rat [OF on_grid_round [OF this] assms(2)] None show ?thesis
    by (simp add: shortest_decimal_def reads_back_def del: upt_rec_numeral)
next
  case (Some n)
  then have "nearest_decimal x n \<noteq> None" by (blast dest: find_SomeD)
  with Some nearest_decimal_reads_back [of x n] show ?thesis
    by (auto simp: shortest_decimal_def simp del: upt_rec_numeral)
qed

section \<open>Reading what was printed\<close>

lemma read_nat_append: "read_nat (s @ t) = read_nat s * 10 ^ length t + read_nat t"
proof (induction t rule: rev_induct)
  case (snoc c t)
  show ?case unfolding append_assoc [symmetric] read_nat_snoc snoc.IH by (simp add: read_nat_snoc)
qed (simp add: read_nat_def)

lemma read_nat_zeros [simp]: "read_nat (replicate n ZERO) = 0"
  by (induction n) (simp_all add: read_nat_def digit_value_def)

lemma read_nat_zero_Cons: "read_nat (ZERO # s) = read_nat s"
  using read_nat_append [of "[ZERO]" s] by (simp add: read_nat_def digit_value_def)

lemma all_digits_simps [simp]:
  "all_digits []" "all_digits (c # s) \<longleftrightarrow> is_digit c \<and> all_digits s" "all_digits (s @ t) \<longleftrightarrow> all_digits s \<and> all_digits t"
  "all_digits (replicate n ZERO)" "all_digits (show_nat m)"
  using show_nat_digits [of m] by (auto simp: all_digits_def is_digit_def list_all_iff)

lemma all_digits_parts: "all_digits s \<Longrightarrow> all_digits (take n s) \<and> all_digits (drop n s) \<and> all_digits (tl s)"
  using all_digits_simps(3) [of "take n s" "drop n s"] by (cases s) (simp_all del: all_digits_simps(3))

lemma digit_not_mark: "is_digit c \<Longrightarrow> c \<noteq> CHR ''e'' \<and> c \<noteq> CHR ''E'' \<and> c \<noteq> CHR ''.'' \<and> c \<noteq> CHR ''-'' \<and> c \<noteq> CHR ''+'' \<and> c \<noteq> CHR ''_''"
  by (auto simp: is_digit_def)

lemma split_at_none: "list_all (\<lambda>c. \<not> p c) s \<Longrightarrow> split_at p s = (s, None)"
  by (induction s) (auto simp: split_at_def)

lemma split_at_some: "list_all (\<lambda>c. \<not> p c) s \<Longrightarrow> p c \<Longrightarrow> split_at p (s @ c # t) = (s, Some t)"
  by (induction s) (auto simp: split_at_def)

lemma digits_no_mark:
  "all_digits s \<Longrightarrow> list_all (\<lambda>c. \<not> (c = CHR ''e'' \<or> c = CHR ''E'')) s \<and> list_all (\<lambda>c. c \<noteq> CHR ''.'') s"
  using digit_not_mark by (auto simp: all_digits_def list_all_iff)

text \<open>A number without and with an exponent.\<close>

lemma read_plain:
  assumes "all_digits w" and "all_digits f" and "w \<noteq> []"
  shows "read_decimal (w @ ''.'' @ f) = Some (decimal_rat (read_nat (w @ f), - int (length f)))"
proof -
  have "split_at (\<lambda>c. c = CHR ''e'' \<or> c = CHR ''E'') (w @ ''.'' @ f) = (w @ ''.'' @ f, None)"
    using assms(1,2) [THEN digits_no_mark] by (intro split_at_none) simp
  moreover have "split_at (\<lambda>c. c = CHR ''.'') (w @ ''.'' @ f) = (w, Some f)"
    using split_at_some [of "\<lambda>c. c = CHR ''.''" w "CHR ''.''" f] digits_no_mark [OF assms(1)] by simp
  ultimately show ?thesis using assms by (simp add: read_decimal_def read_exponent_def)
qed

lemma read_exponent_signed:
  assumes "u \<noteq> []" and "all_digits u"
  shows "read_exponent (Some ((if neg then CHR ''-'' else CHR ''+'') # u)) =
    Some (if neg then - int (read_nat u) else int (read_nat u))"
  using assms by (simp add: read_exponent_def)

lemma read_exponent_text: "read_exponent (Some (tl (exponent_text e))) = Some e"
proof -
  let ?t = "show_nat (nat \<bar>e\<bar>)"
  let ?u = "if length ?t < 2 then ZERO # ?t else ?t"
  have t: "tl (exponent_text e) = (if e < 0 then CHR ''-'' else CHR ''+'') # ?u"
    by (simp add: exponent_text_def Let_def)
  have u: "?u \<noteq> []" "all_digits ?u" "read_nat ?u = nat \<bar>e\<bar>"
    by (auto simp: read_nat_zero_Cons is_digit_def)
  have "read_exponent (Some (tl (exponent_text e))) = Some (if e < 0 then - int (read_nat ?u) else int (read_nat ?u))"
    unfolding t by (rule read_exponent_signed [OF u(1,2)])
  then show ?thesis unfolding u(3) by simp
qed

lemma read_scientific:
  assumes "all_digits w" and "all_digits f" and "w \<noteq> []"
  shows "read_decimal (w @ (if f = [] then [] else ''.'' @ f) @ exponent_text e)
    = Some (decimal_rat (read_nat (w @ f), e - int (length f)))"
proof -
  let ?m = "w @ (if f = [] then [] else ''.'' @ f)"
  have ex: "exponent_text e = CHR ''e'' # tl (exponent_text e)" by (simp add: exponent_text_def Let_def)
  have "list_all (\<lambda>c. \<not> (c = CHR ''e'' \<or> c = CHR ''E'')) ?m"
    using assms(1,2) [THEN digits_no_mark] by simp
  then have "split_at (\<lambda>c. c = CHR ''e'' \<or> c = CHR ''E'') (?m @ exponent_text e) = (?m, Some (tl (exponent_text e)))"
    by (subst ex) (rule split_at_some, simp_all)
  moreover have "split_at (\<lambda>c. c = CHR ''.'') ?m = (w, if f = [] then None else Some f)"
    using split_at_some [of "\<lambda>c. c = CHR ''.''" w "CHR ''.''" f] split_at_none [of "\<lambda>c. c = CHR ''.''" w]
      digits_no_mark [OF assms(1)] by auto
  ultimately show ?thesis using assms read_exponent_text by (simp add: read_decimal_def)
qed

lemma read_decimal_text:
  assumes "0 < fst d"
  shows "read_decimal (decimal_text d) = Some (decimal_rat d)"
proof -
  obtain c k where d: "d = (c, k)" by force
  let ?s = "show_nat c" and ?n = "int (length (show_nat c))"
  let ?p = "?n + k"
  have s: "all_digits ?s" "?s \<noteq> []" "read_nat ?s = c" by simp_all
  have scale: "decimal_rat (c * 10 ^ j, - int i) = decimal_rat (c, int j - int i)" for i j
    by (simp add: decimal_rat_def power_int_diff power_int_minus field_simps)
  consider (sci) "?p \<le> - 4 \<or> 16 < ?p" | (small) "- 4 < ?p" "?p \<le> 0" | (whole) "0 < ?p" "?p \<le> 16" "?n \<le> ?p"
    | (mixed) "0 < ?p" "?p \<le> 16" "?p < ?n" by linarith
  then show ?thesis
  proof cases
    case sci
    have "read_decimal ([hd ?s] @ (if tl ?s = [] then [] else ''.'' @ tl ?s) @ exponent_text (?p - 1))
      = Some (decimal_rat (read_nat ([hd ?s] @ tl ?s), ?p - 1 - int (length (tl ?s))))"
      using all_digits_parts [OF s(1)] s by (intro read_scientific) (cases ?s, auto)+
    moreover have "int (length (tl ?s)) = ?n - 1" using s(2) by (cases ?s) auto
    ultimately show ?thesis using sci s by (simp add: d decimal_text_def Let_def)
  next
    case small
    have "read_decimal (''0'' @ ''.'' @ (replicate (nat (- ?p)) ZERO @ ?s))
      = Some (decimal_rat (read_nat (''0'' @ (replicate (nat (- ?p)) ZERO @ ?s)), - int (length (replicate (nat (- ?p)) ZERO @ ?s))))"
      by (intro read_plain) (simp_all add: is_digit_def)
    with small show ?thesis by (simp add: d decimal_text_def Let_def read_nat_zero_Cons read_nat_append)
  next
    case whole
    have "read_decimal ((?s @ replicate (nat k) ZERO) @ ''.'' @ ''0'')
      = Some (decimal_rat (read_nat ((?s @ replicate (nat k) ZERO) @ ''0''), - int (length ''0'')))"
      by (intro read_plain) (simp_all add: is_digit_def)
    moreover have "read_nat ((?s @ replicate (nat k) ZERO) @ ''0'') = c * 10 ^ Suc (nat k)"
      unfolding read_nat_append by (simp add: read_nat_zero_Cons read_nat_def [of "[]"])
    ultimately show ?thesis using whole scale [of "Suc (nat k)" 1] by (simp add: d decimal_text_def Let_def)
  next
    case mixed
    have "read_decimal (take (nat ?p) ?s @ ''.'' @ drop (nat ?p) ?s)
      = Some (decimal_rat (read_nat (take (nat ?p) ?s @ drop (nat ?p) ?s), - int (length (drop (nat ?p) ?s))))"
      using all_digits_parts [OF s(1)] mixed s(2) by (intro read_plain) auto
    moreover have "- int (length (drop (nat ?p) ?s)) = k" using mixed by auto
    ultimately show ?thesis using mixed s by (simp add: d decimal_text_def Let_def)
  qed
qed

section \<open>The round trip\<close>

lemma magnitude_reads_back:
  assumes "is_double m"
  shows "\<exists>q. read_decimal (magnitude_repr m) = Some q \<and> fl_round q = PFin m"
proof (cases "m = 0")
  case True
  have "read_decimal (''0'' @ ''.'' @ ''0'') = Some (decimal_rat (read_nat (''0'' @ ''0''), - int (length ''0'')))"
    by (intro read_plain) (simp_all add: is_digit_def)
  with True show ?thesis by (simp add: magnitude_repr_def decimal_rat_def read_nat_def digit_value_def)
next
  case False
  with assms have m: "0 < m" by (simp add: is_double_def)
  obtain c k where d: "shortest_decimal m = (c, k)" by force
  from shortest_reads_back [OF assms m] have r: "0 < c" "fl_round (decimal_rat (c, k)) = PFin m"
    by (simp_all add: d reads_back_def)
  from read_decimal_text [OF strip_zeros_pos [OF r(1)], of k] r(2) False show ?thesis
    by (simp add: magnitude_repr_def d strip_zeros_rat)
qed

definition float_char :: "char \<Rightarrow> bool" where
  "float_char c \<longleftrightarrow> is_digit c \<or> c \<in> {CHR ''.'', CHR ''e'', CHR ''-'', CHR ''+''}"

lemma all_digits_float: "all_digits s \<Longrightarrow> list_all float_char s"
  by (auto simp: all_digits_def list_all_iff float_char_def)

lemma exponent_text_chars: "list_all float_char (exponent_text e)"
  using all_digits_float [OF all_digits_simps(5) [of "nat \<bar>e\<bar>"]]
  by (auto simp: exponent_text_def Let_def float_char_def is_digit_def)

lemma decimal_text_chars:
  "list_all float_char (decimal_text d) \<and> decimal_text d \<noteq> [] \<and> is_digit (hd (decimal_text d)) \<and>
   (CHR ''.'' \<in> set (decimal_text d) \<or> CHR ''e'' \<in> set (decimal_text d))"
proof -
  let ?s = "show_nat (fst d)"
  have s: "all_digits ?s" "?s \<noteq> []" by simp_all
  have h: "is_digit (hd ?s)" "is_digit (hd (take n ?s)) \<or> n = 0" for n
    using s by (cases ?s; cases n; simp)+
  have marks: "float_char (CHR ''.'')" "float_char ZERO" "is_digit ZERO" "float_char (hd ?s)"
    "CHR ''e'' \<in> set (exponent_text e)" for e
    using h(1) by (simp_all add: float_char_def is_digit_def exponent_text_def Let_def)
  have p: "list_all float_char (take n ?s)" "list_all float_char (drop n ?s)" "list_all float_char (tl ?s)" "list_all float_char ?s" for n
    using all_digits_parts [OF s(1)] s(1) by (auto intro: all_digits_float)
  have z: "list_all float_char (replicate n ZERO)" for n by (simp add: list_all_iff marks)
  have t: "0 < n \<Longrightarrow> hd (take n ?s @ u) = hd ?s \<and> take n ?s \<noteq> []" "hd (?s @ u) = hd ?s" for n u
    using s(2) by (cases ?s; cases n; simp)+
  consider "int (length ?s) + snd d \<le> - 4 \<or> 16 < int (length ?s) + snd d"
    | "\<not> (int (length ?s) + snd d \<le> - 4 \<or> 16 < int (length ?s) + snd d)" "int (length ?s) + snd d \<le> 0"
    | "\<not> (int (length ?s) + snd d \<le> - 4 \<or> 16 < int (length ?s) + snd d)" "\<not> int (length ?s) + snd d \<le> 0"
      "int (length ?s) \<le> int (length ?s) + snd d"
    | "\<not> (int (length ?s) + snd d \<le> - 4 \<or> 16 < int (length ?s) + snd d)" "\<not> int (length ?s) + snd d \<le> 0"
      "\<not> int (length ?s) \<le> int (length ?s) + snd d" by blast
  then show ?thesis
  proof cases
    case 1
    then show ?thesis using h(1) marks p exponent_text_chars by (simp add: decimal_text_def Let_def)
  next
    case 2
    then show ?thesis using marks p z by (simp add: decimal_text_def Let_def)
  next
    case 3
    then show ?thesis using h(1) marks p z t(2) by (simp add: decimal_text_def Let_def)
  next
    case 4
    then show ?thesis using h(1) marks p t(1) [of "nat (int (length ?s) + snd d)"] by (simp add: decimal_text_def Let_def)
  qed
qed

lemma magnitude_chars:
  "list_all float_char (magnitude_repr m) \<and> magnitude_repr m \<noteq> [] \<and> is_digit (hd (magnitude_repr m)) \<and>
   (CHR ''.'' \<in> set (magnitude_repr m) \<or> CHR ''e'' \<in> set (magnitude_repr m))"
proof (cases "m = 0")
  case True
  then show ?thesis by (simp add: magnitude_repr_def float_char_def is_digit_def)
next
  case False
  obtain c k where "shortest_decimal m = (c, k)" by force
  with False decimal_text_chars [of "strip_zeros c k"] show ?thesis by (simp add: magnitude_repr_def)
qed

lemma float_char_plain: "float_char c \<Longrightarrow> \<not> float_blank c \<and> c \<noteq> CHR ''_''"
  by (auto simp: float_char_def float_blank_def is_digit_def Let_def)

lemma float_strip_plain: "list_all float_char s \<Longrightarrow> float_strip s = s"
proof -
  have d: "dropWhile float_blank u = u" if "list_all float_char u" for u
    using that float_char_plain by (cases u) auto
  assume "list_all float_char s"
  moreover from this have "list_all float_char (rev s)" by (simp add: list_all_iff)
  ultimately show ?thesis by (simp add: float_strip_def d)
qed

lemma drop_underscores_plain:
  "list_all float_char s \<Longrightarrow> prev \<noteq> CHR ''_'' \<Longrightarrow> drop_underscores prev s = Some s"
  using float_char_plain by (induction s arbitrary: prev) auto

theorem float_repr_roundtrip:
  assumes "is_double m"
  shows "float_of_str (float_repr (SFin neg m)) = Some (SFin neg m)"
proof -
  let ?s = "magnitude_repr m"
  note c = magnitude_chars [of m]
  obtain q where q: "read_decimal ?s = Some q" "fl_round q = PFin m" using magnitude_reads_back [OF assms] by blast
  obtain h t where s: "?s = h # t" "is_digit h" using c by (cases ?s) auto
  then have h: "lower_char h = h" "h \<noteq> CHR ''i''" "h \<noteq> CHR ''n''" "h \<noteq> CHR ''-''" "h \<noteq> CHR ''+''"
    by (auto simp: lower_char_def is_digit_def Let_def)
  from h(1-3) have "str_lower ?s \<noteq> ''inf''" "str_lower ?s \<noteq> ''infinity''" "str_lower ?s \<noteq> ''nan''"
    unfolding s(1) str_lower_def by simp_all
  then have u: "read_unsigned n ?s = Some (SFin n m)" for n
    using q by (simp add: read_unsigned_def signed_round_def)
  have f: "list_all float_char (float_repr (SFin neg m))" using c by (simp add: float_char_def)
  have "drop_underscores (CHR '' '') (float_strip (float_repr (SFin neg m))) = Some (float_repr (SFin neg m))"
    unfolding float_strip_plain [OF f] by (rule drop_underscores_plain [OF f]) simp
  then have "float_of_str (float_repr (SFin neg m)) =
      (case float_repr (SFin neg m) of [] \<Rightarrow> None
       | c # t \<Rightarrow> if c = CHR ''-'' then read_unsigned True t else if c = CHR ''+'' then read_unsigned False t
           else read_unsigned False (float_repr (SFin neg m)))"
    by (simp only: float_of_str_def option.case)
  also have "\<dots> = Some (SFin neg m)"
  proof -
    have "float_repr (SFin neg m) = (if neg then CHR ''-'' # ?s else ?s)" by simp
    then show ?thesis
      using u [of neg] h by (cases neg) (simp_all only: list.case if_True if_False s(1) refl simp_thms)
  qed
  finally show ?thesis .
qed

corollary float_repr_inject:
  assumes "is_double m" and "is_double m'" and "float_repr (SFin neg m) = float_repr (SFin neg' m')"
  shows "neg = neg' \<and> m = m'"
proof -
  have "Some (SFin neg m) = Some (SFin neg' m')"
    unfolding float_repr_roundtrip [OF assms(1), symmetric] float_repr_roundtrip [OF assms(2), symmetric] assms(3) ..
  then show ?thesis by simp
qed

end
