(* ===== verification/Receipt_Facts.thy ===== *)
theory Receipt_Facts
  imports Receipt_Blob Py_Repr_Facts Py_Digest
begin

text \<open>
  The bytes of a receipt determine what it seals: kind, generation and every field of the generation,
  the values up to the order in which the members of their objects were inserted. So a stored hash that
  another content reproduces exhibits a collision.
\<close>

section \<open>A payload is read back from its text\<close>

primrec value_norm :: "field_value \<Rightarrow> field_value" where
  "value_norm (FJson j) = FJson (canonical j)"
| "value_norm (FFloat x) = FFloat x"

text \<open>The floats a variable can hold.\<close>

fun field_ok :: "field_value \<Rightarrow> bool" where
  "field_ok (FFloat (SFin neg m)) = is_double m"
| "field_ok _ = True"

definition entries_ok :: "field_map \<Rightarrow> bool" where
  "entries_ok entries \<longleftrightarrow> list_all (field_ok \<circ> snd) entries"

definition plain_char :: "char \<Rightarrow> bool" where
  "plain_char c \<longleftrightarrow> c \<notin> {CHR '','', CHR '']'', CHR ''}'', CHR '':''}"

lemma plain_prefix:
  assumes "a @ r = b @ s" and "list_all plain_char a" and "list_all plain_char b" and "stops r" and "stops s"
  shows "a = b \<and> r = s"
proof -
  have "takeWhile plain_char (t @ u) = t" if "list_all plain_char t" "stops u" for t u
  proof -
    have "takeWhile plain_char u = []" using that(2) by (cases u) (auto simp: stops_def plain_char_def)
    with that(1) show ?thesis by (simp add: takeWhile_append2 list_all_iff)
  qed
  with assms have "a = b" by metis
  with assms(1) show ?thesis by simp
qed

lemma float_char_is_plain: "list_all float_char s \<Longrightarrow> list_all plain_char s"
  by (auto simp: list_all_iff float_char_def plain_char_def is_digit_def)

lemma json_float_chars: "list_all plain_char (json_float x) \<and> json_float x \<noteq> []"
proof (cases x)
  case (SFin neg m)
  have "plain_char (CHR ''-'')" by (simp add: plain_char_def)
  with SFin show ?thesis using magnitude_chars [of m] float_char_is_plain [of "magnitude_repr m"] by simp
qed (simp_all add: plain_char_def)

text \<open>What a float's text shows that no text of an integer, and of no other value, does.\<close>

definition float_mark :: "string \<Rightarrow> bool" where
  "float_mark s \<longleftrightarrow> CHR ''.'' \<in> set s \<or> CHR ''e'' \<in> set s \<or> CHR ''I'' \<in> set s \<or> hd s = CHR ''N''"

lemma json_float_mark: "float_mark (json_float x)"
proof (cases x)
  case (SFin neg m)
  then show ?thesis using magnitude_chars [of m] by (auto simp: float_mark_def)
qed (simp_all add: float_mark_def)

lemma json_float_hd: "char_shape (hd (json_float x)) \<in> {0, 7}"
proof (cases x)
  case (SFin neg m)
  have "char_shape (hd (magnitude_repr m)) = 0" using magnitude_chars [of m] by (intro char_shape_number) (simp add: number_char_def)
  moreover have "char_shape (CHR ''-'') = 0" by (simp add: char_shape_def number_char_def)
  ultimately show ?thesis using SFin by (cases neg) simp_all
qed (simp_all add: char_shape_def number_char_def is_digit_def)

lemma show_int_no_mark: "\<not> float_mark (show_int i)"
proof -
  have n: "\<not> number_char (CHR ''.'')" "\<not> number_char (CHR ''e'')" "\<not> number_char (CHR ''I'')" "\<not> number_char (CHR ''N'')"
    by (simp_all add: number_char_def is_digit_def)
  have "\<forall>c\<in>set (show_int i). number_char c" using show_int_chars [of i] by (simp only: list_all_iff)
  moreover have "hd (show_int i) \<in> set (show_int i)" using show_int_not_Nil by (rule hd_in_set)
  ultimately show ?thesis unfolding float_mark_def using n by metis
qed

lemma show_int_plain: "list_all plain_char (show_int i)"
  using show_int_chars [of i] by (auto simp: list_all_iff plain_char_def number_char_def is_digit_def)

lemma float_not_json:
  assumes "json_float x @ r = json_dumps j @ s" and "stops r" and "stops s"
  shows False
proof -
  have "hd (json_float x) = hd (json_dumps j)"
    using assms(1) json_float_chars [of x] dumps_shape [of j] by (metis hd_append2)
  then have "shape j \<in> {0, 7}" using json_float_hd [of x] dumps_shape [of j] by simp
  then obtain i where j: "j = JInt i" by (cases j) (auto split: if_splits)
  with plain_prefix [OF assms(1) _ _ assms(2,3)] json_float_chars [of x] show_int_plain [of i]
  have "json_float x = show_int i" by simp
  with json_float_mark [of x] show_int_no_mark [of i] show False by simp
qed

definition float_kind :: "signed_float \<Rightarrow> nat" where
  "float_kind x = (case x of SFin _ _ \<Rightarrow> 0 | SInf neg \<Rightarrow> if neg then 2 else 1 | SNaN \<Rightarrow> 3)"

definition text_kind :: "string \<Rightarrow> nat" where
  "text_kind s = (if CHR ''I'' \<in> set s then (if hd s = CHR ''-'' then 2 else 1) else if hd s = CHR ''N'' then 3 else 0)"

lemma text_kind_float: "text_kind (json_float x) = float_kind x"
proof (cases x)
  case (SFin neg m)
  have "CHR ''I'' \<notin> set (magnitude_repr m)" "hd (magnitude_repr m) \<noteq> CHR ''N''"
    using magnitude_chars [of m] by (auto simp: list_all_iff float_char_def is_digit_def)
  with SFin show ?thesis by (cases neg) (simp_all add: text_kind_def float_kind_def)
qed (simp_all add: text_kind_def float_kind_def)

lemma json_float_inject:
  assumes "field_ok (FFloat x)" and "field_ok (FFloat y)" and "json_float x = json_float y"
  shows "x = y"
proof -
  have k: "float_kind x = float_kind y" using assms(3) by (simp only: text_kind_float [symmetric])
  show ?thesis
  proof (cases x)
    case x: (SFin neg m)
    with k obtain neg' m' where y: "y = SFin neg' m'" by (cases y) (auto simp: float_kind_def split: if_splits)
    from assms(3) have "float_repr (SFin neg m) = float_repr (SFin neg' m')" unfolding x y json_float.simps .
    with assms(1,2) float_repr_inject [of m m' neg neg'] show ?thesis unfolding x y field_ok.simps by blast
  qed (use k in \<open>cases y; simp add: float_kind_def split: if_splits\<close>)+
qed

text \<open>A printer of every value, that of the code on the values that occur.\<close>

definition shown :: "field_value \<Rightarrow> string" where
  "shown v = (if field_ok v then value_dumps v else ''?'')"

definition shown_norm :: "field_value \<Rightarrow> field_value" where
  "shown_norm v = (if field_ok v then value_norm v else FFloat (SFin False (- 1)))"

lemma char_shape_mark: "char_shape (CHR ''?'') = 7"
  by (simp add: char_shape_def number_char_def is_digit_def)

lemma shown_not_closing: "shown v \<noteq> [] \<and> hd (shown v) \<notin> {CHR '']'', CHR ''}''}"
proof (cases v)
  case (FJson j)
  then show ?thesis using dumps_not_closing [of j] by (simp add: shown_def)
next
  case (FFloat x)
  have "plain_char (hd (json_float x))" using json_float_chars [of x] by (cases "json_float x") auto
  with FFloat json_float_chars [of x] show ?thesis by (auto simp: shown_def plain_char_def)
qed

lemma shown_readable: "readable shown shown_norm v"
  unfolding readable_def
proof (intro conjI allI impI)
  show "shown v \<noteq> []" "hd (shown v) \<notin> {CHR '']'', CHR ''}''}" using shown_not_closing [of v] by simp_all
  fix w r s assume st: "stops r" "stops s" and eq: "shown v @ r = shown w @ s"
  have q: "list_all plain_char ''?''" "\<not> float_mark ''?''" by (simp_all add: plain_char_def float_mark_def)
  have jq: "json_dumps j @ t \<noteq> ''?'' @ u" for j t u
  proof
    assume "json_dumps j @ t = ''?'' @ u"
    then have "hd (json_dumps j) = CHR ''?''" using dumps_shape [of j] by (cases "json_dumps j") auto
    then have "shape j = 7" using dumps_shape [of j] char_shape_mark by simp
    then show False by (cases j) (auto split: if_splits)
  qed
  have fq: "json_float x @ t = ''?'' @ u \<Longrightarrow> stops t \<Longrightarrow> stops u \<Longrightarrow> False" for x t u
    using plain_prefix [of "json_float x" t "''?''" u] json_float_chars [of x] json_float_mark [of x] q by simp
  consider (jj) j k where "v = FJson j" "w = FJson k" | (jf) j y where "v = FJson j" "w = FFloat y"
    | (fj) x k where "v = FFloat x" "w = FJson k" | (ff) x y where "v = FFloat x" "w = FFloat y"
    by (cases v; cases w) auto
  then have "shown_norm v = shown_norm w \<and> r = s"
  proof cases
    case jj
    with eq have "json_dumps j @ r = json_dumps k @ s" by (simp add: shown_def)
    with st dumps_readable [of j] have "canonical j = canonical k \<and> r = s" unfolding readable_def by blast
    with jj show ?thesis by (simp add: shown_norm_def)
  next
    case jf
    with eq st float_not_json [of y s j r] jq [of j r s] show ?thesis by (auto simp: shown_def split: if_splits)
  next
    case fj
    with eq st float_not_json [of x r k s] jq [of k s r] show ?thesis by (auto simp: shown_def split: if_splits)
  next
    case ff
    show ?thesis
    proof (cases "field_ok v \<and> field_ok w")
      case True
      with ff eq have e: "json_float x @ r = json_float y @ s" by (simp add: shown_def)
      with plain_prefix [OF e] json_float_chars st have "json_float x = json_float y" "r = s" by auto
      with True ff json_float_inject [of x y] show ?thesis by (simp add: shown_norm_def)
    next
      case False
      with ff eq st fq [of x r s] fq [of y s r] show ?thesis by (auto simp: shown_def shown_norm_def split: if_splits)
    qed
  qed
  then show "shown_norm v = shown_norm w" "r = s" by simp_all
qed

definition member_shown :: "string \<times> field_value \<Rightarrow> string" where
  "member_shown kv = json_quote (fst kv) @ '':'' @ shown (snd kv)"

lemma member_shown_not_closing: "member_shown kv \<noteq> [] \<and> hd (member_shown kv) \<notin> {CHR '']'', CHR ''}''}"
  by (simp add: member_shown_def json_quote_def)

lemma member_shown_readable: "readable member_shown (map_prod id shown_norm) kv"
  unfolding readable_def
proof (intro conjI allI impI)
  show "member_shown kv \<noteq> []" "hd (member_shown kv) \<notin> {CHR '']'', CHR ''}''}"
    using member_shown_not_closing [of kv] by simp_all
  fix kv' r s assume st: "stops r" "stops s" and eq: "member_shown kv @ r = member_shown kv' @ s"
  then have "fst kv = fst kv' \<and> '':'' @ shown (snd kv) @ r = '':'' @ shown (snd kv') @ s"
    by (intro json_quote_prefix) (simp add: member_shown_def)
  then have k: "fst kv = fst kv'" and v: "shown (snd kv) @ r = shown (snd kv') @ s" by simp_all
  from shown_readable [of "snd kv"] st v have "shown_norm (snd kv) = shown_norm (snd kv') \<and> r = s"
    unfolding readable_def by blast
  with k show "map_prod id shown_norm kv = map_prod id shown_norm kv'" "r = s" by (simp_all add: map_prod_def split_def)
qed

text \<open>What a payload seals.\<close>

definition sealed_members :: "field_map \<Rightarrow> field_map" where
  "sealed_members payload = map (map_prod id value_norm) (sort_key fst payload)"

lemma payload_dumps_shown:
  assumes "entries_ok payload"
  shows "payload_dumps payload = ''{'' @ str_join '','' (map member_shown (sort_key fst payload)) @ ''}''"
    and "map (map_prod id shown_norm) (sort_key fst payload) = sealed_members payload"
proof -
  have ok: "field_ok (snd kv)" if "kv \<in> set (sort_key fst payload)" for kv
    using that assms by (auto simp: entries_ok_def list_all_iff)
  have "map json_member (sort_key fst (map (map_prod id value_dumps) payload))
      = map (json_member \<circ> map_prod id value_dumps) (sort_key fst payload)"
    by (simp only: sort_key_map_prod map_map)
  also have "\<dots> = map member_shown (sort_key fst payload)"
    by (rule map_cong) (use ok in \<open>auto simp: json_member_def member_shown_def shown_def\<close>)
  finally show "payload_dumps payload = ''{'' @ str_join '','' (map member_shown (sort_key fst payload)) @ ''}''"
    by (simp only: payload_dumps_def)
  show "map (map_prod id shown_norm) (sort_key fst payload) = sealed_members payload"
    unfolding sealed_members_def by (rule map_cong) (use ok in \<open>auto simp: shown_norm_def map_prod_def\<close>)
qed

lemma payload_dumps_inject:
  assumes "entries_ok p" and "entries_ok q" and "payload_dumps p = payload_dumps q"
  shows "sealed_members p = sealed_members q"
proof -
  have "str_join '','' (map member_shown (sort_key fst p)) @ CHR ''}'' # [] =
      str_join '','' (map member_shown (sort_key fst q)) @ CHR ''}'' # []"
    using assms(3) unfolding payload_dumps_shown(1) [OF assms(1)] payload_dumps_shown(1) [OF assms(2)] by simp
  moreover have "list_all (readable member_shown (map_prod id shown_norm)) (sort_key fst p)"
    unfolding list_all_iff by (intro ballI member_shown_readable)
  ultimately have "map (map_prod id shown_norm) (sort_key fst p) = map (map_prod id shown_norm) (sort_key fst q)"
    using readable_join [of member_shown "map_prod id shown_norm" "sort_key fst p" "CHR ''}''" "[]" "sort_key fst q" "[]"]
      member_shown_not_closing by simp
  then show ?thesis by (simp only: payload_dumps_shown(2) [OF assms(1)] payload_dumps_shown(2) [OF assms(2)])
qed

lemma sealed_member:
  assumes "sealed_members p = sealed_members q" and "distinct (map fst p)" and "distinct (map fst q)"
  shows "map_option value_norm (map_of p k) = map_option value_norm (map_of q k)"
proof -
  have "map_of (sealed_members r) k = map_option value_norm (map_of r k)" if "distinct (map fst r)" for r
  proof -
    have "map_of (map (map_prod id value_norm) xs) k = map_option value_norm (map_of xs k)" for xs
      by (induction xs) auto
    moreover have "map_of (sort_key fst r) = map_of r"
      using that map_of_inject_set [of "sort_key fst r" r] by (simp add: distinct_map)
    ultimately show ?thesis by (simp add: sealed_members_def)
  qed
  with assms show ?thesis by metis
qed

section \<open>Headers\<close>

lemma utf8_encode_append: "utf8_encode (s @ t) = utf8_encode s @ utf8_encode t"
  by (simp add: utf8_encode_def)

lemma receipt_header_inject:
  assumes "receipt_header k n @ x = receipt_header k m @ y"
  shows "n = m \<and> x = y"
proof -
  from assms have e: "show_nat n @ CHR 0x0A # x = show_nat m @ CHR 0x0A # y" by (simp add: receipt_header_def)
  have "takeWhile is_digit (show_nat j @ CHR 0x0A # z) = show_nat j" for j z
    using show_nat_digits [of j] by (simp add: takeWhile_append2 list_all_iff is_digit_def)
  then have "show_nat n = show_nat m" using e by metis
  with e show ?thesis by (simp add: show_nat_inject)
qed

lemma receipt_header_domains: "receipt_header ''verdict-receipt'' n @ x \<noteq> receipt_header ''prediction-receipt'' m @ y"
  by (simp add: receipt_header_def)

section \<open>Normalised values are floats\<close>

lemma get_field_ok: "entries_ok entries \<Longrightarrow> field_ok (get_field entries k)"
  by (auto simp: get_field_def entries_ok_def list_all_iff dest!: map_of_SomeD split: option.splits)

lemma entries_ok_update: "entries_ok al \<Longrightarrow> field_ok v \<Longrightarrow> entries_ok (AList.update k v al)"
  by (induction al) (auto simp: entries_ok_def)

lemma signed_round_ok: "0 \<le> q \<Longrightarrow> field_ok (FFloat (signed_round neg q))"
  using fl_round_double [of q] by (cases "fl_round q") (auto simp: signed_round_def)

lemma read_unsigned_ok: "read_unsigned neg s = Some x \<Longrightarrow> field_ok (FFloat x)"
proof -
  have "0 \<le> q" if "read_decimal s = Some q" for q
    using that by (auto simp: read_decimal_def decimal_rat_def split: prod.splits option.splits if_splits)
  then show "read_unsigned neg s = Some x \<Longrightarrow> field_ok (FFloat x)"
    using signed_round_ok by (auto simp: read_unsigned_def split: if_splits)
qed

lemma float_of_str_ok: "float_of_str s = Some x \<Longrightarrow> field_ok (FFloat x)"
  by (auto simp: float_of_str_def read_unsigned_ok split: option.splits list.splits if_splits)

lemma float_of_int_ok: "float_of_int i = Some x \<Longrightarrow> field_ok (FFloat x)"
  using fl_round_double [of "of_int \<bar>i\<bar>"] by (auto simp: float_of_int_def split: pyfloat.splits)

lemma finite_or_none_ok: "(\<And>x. r = Some x \<Longrightarrow> field_ok (FFloat x)) \<Longrightarrow> field_ok (finite_or_none r)"
  by (auto simp: finite_or_none_def split: option.splits signed_float.splits)

lemma coerce_metric_ok: "field_ok v \<Longrightarrow> field_ok (coerce_metric_value v)"
proof (induction v rule: coerce_metric_value.induct)
  case (2 b)
  have "fl_round 1 = PFin 1" using fl_round_int [of 1] by simp
  then show ?case by (simp add: is_double_def)
next
  case (1 x)
  then show ?case unfolding coerce_metric_value.simps by (intro finite_or_none_ok) simp
qed (simp_all add: finite_or_none_ok float_of_str_ok float_of_int_ok)

lemma coerce_judged_ok: "field_ok (coerce_judged_at v)"
  by (cases v rule: coerce_judged_at.cases) simp_all

lemma receipt_payload_ok: "entries_ok entries \<Longrightarrow> entries_ok (receipt_payload entries fieldset)"
proof -
  assume "entries_ok entries"
  then have "entries_ok (map (\<lambda>k. (k, get_field entries k)) ks)" for ks
    by (simp add: entries_ok_def list_all_iff get_field_ok [unfolded entries_ok_def list_all_iff comp_def])
  then show ?thesis
    by (simp add: receipt_payload_def Let_def entries_ok_update coerce_metric_ok coerce_judged_ok get_field_ok)
qed

lemma prediction_payload_ok: "entries_ok entries \<Longrightarrow> entries_ok (prediction_payload entries)"
proof -
  assume "entries_ok entries"
  then have "entries_ok (map (\<lambda>k. (k, get_field entries k)) ks)" for ks
    by (simp add: entries_ok_def list_all_iff get_field_ok [unfolded entries_ok_def list_all_iff comp_def])
  moreover have "entries_ok p \<Longrightarrow> entries_ok (foldl (\<lambda>p k. AList.update k (coerce_metric_value (get_field p k)) p) p ks)" for p ks
    by (induction ks arbitrary: p) (simp_all add: entries_ok_update coerce_metric_ok get_field_ok)
  ultimately show ?thesis
    by (simp add: prediction_payload_def Let_def entries_ok_update coerce_judged_ok)
qed

section \<open>What a receipt seals\<close>

datatype sealed =
    SealedVerdict nat field_map
  | SealedPrediction nat field_map

definition sealed_verdict :: "field_map \<Rightarrow> string list option \<Rightarrow> sealed" where
  "sealed_verdict entries fieldset =
     SealedVerdict (receipt_generation entries fieldset) (sealed_members (receipt_payload entries fieldset))"

definition sealed_prediction :: "field_map \<Rightarrow> sealed" where
  "sealed_prediction entries =
     SealedPrediction (prediction_generation entries) (sealed_members (prediction_payload entries))"

lemma receipt_blob_inject:
  assumes "entries_ok f" and "entries_ok g" and "canonical_receipt_blob f fs = canonical_receipt_blob g gs"
  shows "sealed_verdict f fs = sealed_verdict g gs"
proof -
  from assms(3) have "receipt_header ''verdict-receipt'' (receipt_generation f fs) @ payload_dumps (receipt_payload f fs) =
      receipt_header ''verdict-receipt'' (receipt_generation g gs) @ payload_dumps (receipt_payload g gs)"
    by (simp only: canonical_receipt_blob_def utf8_encode_append [symmetric] utf8_encode_inject)
  note h = receipt_header_inject [OF this]
  have "sealed_members (receipt_payload f fs) = sealed_members (receipt_payload g gs)"
    by (rule payload_dumps_inject [OF receipt_payload_ok [OF assms(1)] receipt_payload_ok [OF assms(2)] h [THEN conjunct2]])
  then show ?thesis by (simp only: sealed_verdict_def h [THEN conjunct1])
qed

lemma prediction_blob_inject:
  assumes "entries_ok f" and "entries_ok g" and "canonical_prediction_blob f = canonical_prediction_blob g"
  shows "sealed_prediction f = sealed_prediction g"
proof -
  from assms(3) have "receipt_header ''prediction-receipt'' (prediction_generation f) @ payload_dumps (prediction_payload f) =
      receipt_header ''prediction-receipt'' (prediction_generation g) @ payload_dumps (prediction_payload g)"
    by (simp only: canonical_prediction_blob_def utf8_encode_append [symmetric] utf8_encode_inject)
  note h = receipt_header_inject [OF this]
  have "sealed_members (prediction_payload f) = sealed_members (prediction_payload g)"
    by (rule payload_dumps_inject [OF prediction_payload_ok [OF assms(1)] prediction_payload_ok [OF assms(2)] h [THEN conjunct2]])
  then show ?thesis by (simp only: sealed_prediction_def h [THEN conjunct1])
qed

lemma receipt_blob_domains: "canonical_receipt_blob f fs \<noteq> canonical_prediction_blob g"
  unfolding canonical_receipt_blob_def canonical_prediction_blob_def utf8_encode_append [symmetric] utf8_encode_inject
  by (rule receipt_header_domains)

section \<open>Reading a payload\<close>

lemma get_field_update: "get_field (AList.update k v al) k' = (if k' = k then v else get_field al k')"
  by (simp add: get_field_def update_conv')

lemma fst_update: "fst ` set (AList.update k v al) = insert k (fst ` set al)"
  by (induction al) auto

lemma fst_entries: "fst ` set (map (\<lambda>k. (k, f k)) ks) = set ks"
  by force

lemma get_field_entries: "get_field (map (\<lambda>k. (k, get_field e k)) ks) k = (if k \<in> set ks then get_field e k else FNone)"
  by (simp add: get_field_def map_of_map_restrict restrict_map_def)

lemma payload_distinct:
  "distinct ks \<Longrightarrow> distinct (map fst (map (\<lambda>k. (k, get_field e k)) ks))"
  by (simp add: comp_def)

lemmas generation_lists = RECEIPT_FIELDS_V1_def RECEIPT_FIELDS_V2_def RECEIPT_FIELDS_V3_def RECEIPT_FIELDS_V4_def
  RECEIPT_FIELDS_V5_def RECEIPT_FIELDS_V6_def RECEIPT_FIELDS_V7_def

lemma distinct_fields:
  "distinct RECEIPT_FIELDS_V7" "distinct RECEIPT_FIELDS_V6" "distinct RECEIPT_FIELDS_V5" "distinct RECEIPT_FIELDS_V4"
  "distinct RECEIPT_FIELDS_V3" "distinct RECEIPT_FIELDS_V2" "distinct RECEIPT_FIELDS_V1"
proof -
  show d: "distinct RECEIPT_FIELDS_V7" by code_simp
  have "\<exists>xs. RECEIPT_FIELDS_V7 = RECEIPT_FIELDS_V6 @ xs" "\<exists>xs. RECEIPT_FIELDS_V6 = RECEIPT_FIELDS_V5 @ xs"
    "\<exists>xs. RECEIPT_FIELDS_V5 = RECEIPT_FIELDS_V4 @ xs" "\<exists>xs. RECEIPT_FIELDS_V4 = RECEIPT_FIELDS_V3 @ xs"
    "\<exists>xs. RECEIPT_FIELDS_V3 = RECEIPT_FIELDS_V2 @ xs" "\<exists>xs. RECEIPT_FIELDS_V2 = RECEIPT_FIELDS_V1 @ xs"
    unfolding RECEIPT_FIELDS_V7_def RECEIPT_FIELDS_V6_def RECEIPT_FIELDS_V5_def RECEIPT_FIELDS_V4_def
      RECEIPT_FIELDS_V3_def RECEIPT_FIELDS_V2_def by blast+
  with d show "distinct RECEIPT_FIELDS_V6" "distinct RECEIPT_FIELDS_V5" "distinct RECEIPT_FIELDS_V4"
    "distinct RECEIPT_FIELDS_V3" "distinct RECEIPT_FIELDS_V2" "distinct RECEIPT_FIELDS_V1" by (metis distinct_append)+
qed

lemma distinct_prediction_keys: "distinct (prediction_keys e)"
proof -
  have "distinct PREDICTION_RECEIPT_FIELDS_V3" by code_simp
  then show ?thesis
    by (auto simp: prediction_keys_def Let_def PREDICTION_RECEIPT_FIELDS_V3_def PREDICTION_RECEIPT_FIELDS_V2_def)
qed

lemma distinct_receipt_keys: "distinct (receipt_keys e fs)"
  by (simp add: receipt_keys_def generation_fields_def distinct_fields split: option.splits)

text \<open>The common fields of the generations.\<close>

lemma generation_fields_V1: "set RECEIPT_FIELDS_V1 \<subseteq> set (generation_fields n)"
  unfolding generation_fields_def RECEIPT_FIELDS_V7_def RECEIPT_FIELDS_V6_def RECEIPT_FIELDS_V5_def
    RECEIPT_FIELDS_V4_def RECEIPT_FIELDS_V3_def RECEIPT_FIELDS_V2_def by (simp only: set_append split: if_split) blast

definition COERCED_FIELDS :: "string set" where
  "COERCED_FIELDS = {''metric_value'', ''regenerated_metric'', ''judged_at''}"

lemma receipt_payload_distinct: "distinct (map fst (receipt_payload e fs))"
  unfolding receipt_payload_def Let_def
  by (auto simp del: map_map intro!: distinct_update payload_distinct distinct_receipt_keys)

lemma prediction_payload_distinct: "distinct (map fst (prediction_payload e))"
proof -
  have "distinct (map fst p) \<Longrightarrow> distinct (map fst (foldl (\<lambda>p k. AList.update k (coerce_metric_value (get_field p k)) p) p ks))" for p ks
    by (induction ks arbitrary: p) (simp_all add: distinct_update)
  then show ?thesis unfolding prediction_payload_def Let_def
    by (auto simp del: map_map intro!: distinct_update payload_distinct distinct_prediction_keys)
qed

lemma receipt_payload_keys:
  "fst ` set (receipt_payload e fs) = set (receipt_keys e fs) \<union> {''metric_value'', ''judged_at''}"
proof -
  have "fst ` set (AList.update ''judged_at'' w
      (if ''regenerated_metric'' \<in> fst ` set (AList.update ''metric_value'' v p0)
       then AList.update ''regenerated_metric'' u (AList.update ''metric_value'' v p0)
       else AList.update ''metric_value'' v p0))
    = fst ` set p0 \<union> {''metric_value'', ''judged_at''}" for p0 :: field_map and v u w
    unfolding fst_update by (cases "''regenerated_metric'' \<in> fst ` set p0") (simp_all add: fst_update insert_absorb insert_commute)
  then show ?thesis unfolding receipt_payload_def Let_def by (simp only: fst_entries)
qed

lemma receipt_payload_get:
  "k \<notin> COERCED_FIELDS \<Longrightarrow> get_field (receipt_payload e fs) k = (if k \<in> set (receipt_keys e fs) then get_field e k else FNone)"
  by (simp add: receipt_payload_def Let_def get_field_update get_field_entries COERCED_FIELDS_def)

definition prediction_coerced :: "string set" where
  "prediction_coerced = insert ''registered_at'' (set PREDICTION_NUMERIC_FIELDS)"

lemma prediction_payload_get:
  assumes "k \<notin> prediction_coerced"
  shows "get_field (prediction_payload e) k = (if k \<in> set (prediction_keys e) then get_field e k else FNone)"
proof -
  have "k \<notin> set ks \<Longrightarrow> get_field (foldl (\<lambda>p k. AList.update k (coerce_metric_value (get_field p k)) p) p ks) k = get_field p k" for p ks
    by (induction ks arbitrary: p) (simp_all add: get_field_update)
  with assms show ?thesis
    by (simp add: prediction_payload_def Let_def prediction_coerced_def get_field_update get_field_entries)
qed

lemma sealed_members_get:
  assumes "sealed_members p = sealed_members q" and "distinct (map fst p)" and "distinct (map fst q)"
  shows "value_norm (get_field p k) = value_norm (get_field q k)"
proof (cases "map_of p k")
  case None
  with sealed_member [OF assms, of k] have "map_of q k = None" by (cases "map_of q k") simp_all
  with None show ?thesis by (simp add: get_field_def)
next
  case (Some v)
  with sealed_member [OF assms, of k] obtain w where "map_of q k = Some w" "value_norm v = value_norm w"
    by (cases "map_of q k") simp_all
  with Some show ?thesis by (simp add: get_field_def)
qed

lemma sealed_members_keys: "sealed_members p = sealed_members q \<Longrightarrow> fst ` set p = fst ` set q"
proof -
  have "fst ` set (sealed_members r) = fst ` set r" for r by (force simp: sealed_members_def)
  then show "sealed_members p = sealed_members q \<Longrightarrow> fst ` set p = fst ` set q" by metis
qed

section \<open>What a matched hash commits to\<close>

text \<open>The bytes that were hashed, and the payload they print, for the encoding of a label.\<close>

definition labelled_fieldset :: "string \<Rightarrow> string list option" where
  "labelled_fieldset label = (if label = ''current'' then None else map_of RECEIPT_FIELDSET_LINEAGE label)"

definition matched_payload :: "field_map \<Rightarrow> string \<Rightarrow> field_map" where
  "matched_payload e label =
     (if is_prediction_receipt e then prediction_payload e else receipt_payload e (labelled_fieldset label))"

definition matched_blob :: "field_map \<Rightarrow> string \<Rightarrow> byte list" where
  "matched_blob e label =
     (if is_prediction_receipt e then canonical_prediction_blob e
      else canonical_receipt_blob e (labelled_fieldset label))"

lemma matched_labels: "match_receipt_encoding e sha = Some label \<Longrightarrow> label = ''current'' \<or> label = ''pre-ag3'' \<and> \<not> is_prediction_receipt e"
  by (auto simp: match_receipt_encoding_def RECEIPT_FIELDSET_LINEAGE_def split: if_splits)

lemma match_receipt_sha: "match_receipt_encoding e sha = Some label \<Longrightarrow> sha256_hex (matched_blob e label) = sha"
  by (auto simp: match_receipt_encoding_def matched_blob_def labelled_fieldset_def RECEIPT_FIELDSET_LINEAGE_def
      prediction_content_sha_def receipt_content_sha_def split: if_splits)

lemma matched_blob_inject:
  assumes "entries_ok f" and "entries_ok g" and "label \<in> {''current'', ''pre-ag3''}" and "label' \<in> {''current'', ''pre-ag3''}"
    and "label = ''pre-ag3'' \<Longrightarrow> \<not> is_prediction_receipt f" and "label' = ''pre-ag3'' \<Longrightarrow> \<not> is_prediction_receipt g"
    and "matched_blob f label = matched_blob g label'"
  shows "label = label' \<and> is_prediction_receipt f = is_prediction_receipt g \<and>
    sealed_members (matched_payload f label) = sealed_members (matched_payload g label')"
proof -
  have kind: "is_prediction_receipt f = is_prediction_receipt g"
    using assms(7) receipt_blob_domains [of f _ g] receipt_blob_domains [of g _ f] by (auto simp: matched_blob_def split: if_splits)
  show ?thesis
  proof (cases "is_prediction_receipt f")
    case True
    with kind assms(5,6,7) have "label \<noteq> ''pre-ag3''" "label' \<noteq> ''pre-ag3''" "canonical_prediction_blob f = canonical_prediction_blob g"
      by (auto simp: matched_blob_def)
    with prediction_blob_inject [OF assms(1,2)] True kind assms(3,4) show ?thesis
      by (auto simp: sealed_prediction_def matched_payload_def)
  next
    case False
    with kind assms(7) have "canonical_receipt_blob f (labelled_fieldset label) = canonical_receipt_blob g (labelled_fieldset label')"
      by (simp add: matched_blob_def)
    from receipt_blob_inject [OF assms(1,2) this] have
      s: "sealed_members (receipt_payload f (labelled_fieldset label)) = sealed_members (receipt_payload g (labelled_fieldset label'))"
      by (simp add: sealed_verdict_def)
    have grade: "''measurement_grade'' \<in> fst ` set (receipt_payload e (labelled_fieldset l)) \<longleftrightarrow> l = ''current''"
      if "l \<in> {''current'', ''pre-ag3''}" for e l
    proof -
      have "''measurement_grade'' \<in> set (generation_fields n)" for n
        using generation_fields_V1 [of n] by (auto simp: RECEIPT_FIELDS_V1_def)
      with that show ?thesis
        by (auto simp: receipt_payload_keys receipt_keys_def labelled_fieldset_def RECEIPT_FIELDSET_LINEAGE_def RECEIPT_FIELDS_PRE_AG3_def)
    qed
    have "label = ''current'' \<longleftrightarrow> label' = ''current''"
      using grade [OF assms(3), of f] grade [OF assms(4), of g] sealed_members_keys [OF s] by simp
    with assms(3,4) have "label = label'" by auto
    with s False kind show ?thesis by (simp add: matched_payload_def)
  qed
qed

text \<open>Two contents under one stored hash.\<close>

definition same_sealed :: "string \<Rightarrow> field_map \<Rightarrow> field_map \<Rightarrow> bool" where
  "same_sealed sha f g \<longleftrightarrow> is_prediction_receipt f = is_prediction_receipt g \<and>
     (\<exists>label. match_receipt_encoding f sha = Some label \<and> match_receipt_encoding g sha = Some label \<and>
        (\<forall>k. value_norm (get_field (matched_payload f label) k) = value_norm (get_field (matched_payload g label) k)))"

definition receipt_preimages :: "field_map \<Rightarrow> byte list list" where
  "receipt_preimages e = [matched_blob e ''current'', matched_blob e ''pre-ag3'']"

lemma matched_payload_distinct: "distinct (map fst (matched_payload e label))"
  by (simp add: matched_payload_def prediction_payload_distinct receipt_payload_distinct)

lemma matched_same:
  assumes "entries_ok f" and "entries_ok g" and "match_receipt_encoding f sha \<noteq> None" and "match_receipt_encoding g sha \<noteq> None"
  shows "same_sealed sha f g \<or> collision (receipt_preimages f) (receipt_preimages g)"
proof -
  obtain l l' where l: "match_receipt_encoding f sha = Some l" "match_receipt_encoding g sha = Some l'" using assms(3,4) by blast
  note ll = matched_labels [OF l(1)] matched_labels [OF l(2)]
  have "sha256_hex (matched_blob f l) = sha256_hex (matched_blob g l')" by (simp only: match_receipt_sha [OF l(1)] match_receipt_sha [OF l(2)])
  moreover have "matched_blob f l \<in> set (receipt_preimages f)" "matched_blob g l' \<in> set (receipt_preimages g)"
    using ll by (auto simp: receipt_preimages_def)
  ultimately consider "matched_blob f l = matched_blob g l'" | "collision (receipt_preimages f) (receipt_preimages g)"
    using same_digest by blast
  then show ?thesis
  proof cases
    case 1
    from ll have "l \<in> {''current'', ''pre-ag3''}" "l' \<in> {''current'', ''pre-ag3''}" by auto
    from matched_blob_inject [OF assms(1,2) this _ _ 1] ll have s: "l = l'" "is_prediction_receipt f = is_prediction_receipt g"
      "sealed_members (matched_payload f l) = sealed_members (matched_payload g l')" by auto
    have "value_norm (get_field (matched_payload f l) k) = value_norm (get_field (matched_payload g l) k)" for k
      using sealed_members_get [OF s(3) matched_payload_distinct matched_payload_distinct] s(1) by simp
    with s l show ?thesis unfolding same_sealed_def by auto
  qed simp
qed

text \<open>The fields that every encoding seals as they are.\<close>

lemma prediction_keys_V1: "set PREDICTION_RECEIPT_FIELDS_V1 \<subseteq> set (prediction_keys e)"
  unfolding prediction_keys_def Let_def PREDICTION_RECEIPT_FIELDS_V3_def PREDICTION_RECEIPT_FIELDS_V2_def
  by (simp only: set_append split: if_split) blast

lemma matched_payload_common:
  assumes "match_receipt_encoding e sha = Some label" and "k \<in> {''tree'', ''tag'', ''prev_receipt_sha''}"
  shows "get_field (matched_payload e label) k = get_field e k"
proof (cases "is_prediction_receipt e")
  case True
  have "k \<in> set PREDICTION_RECEIPT_FIELDS_V1" using assms(2) by (auto simp: PREDICTION_RECEIPT_FIELDS_V1_def)
  moreover have "k \<notin> prediction_coerced" using assms(2) by (auto simp: prediction_coerced_def PREDICTION_NUMERIC_FIELDS_def)
  ultimately show ?thesis using True prediction_keys_V1 [of e] by (auto simp: matched_payload_def prediction_payload_get)
next
  case False
  have v: "k \<in> set RECEIPT_FIELDS_PRE_AG3" "k \<in> set RECEIPT_FIELDS_V1" "k \<notin> COERCED_FIELDS"
    using assms(2) by (auto simp: RECEIPT_FIELDS_PRE_AG3_def RECEIPT_FIELDS_V1_def COERCED_FIELDS_def)
  have "k \<in> set (receipt_keys e (labelled_fieldset label))"
    using matched_labels [OF assms(1)] v(1,2) generation_fields_V1 [of "receipt_generation e None"]
    by (auto simp: receipt_keys_def labelled_fieldset_def RECEIPT_FIELDSET_LINEAGE_def)
  with False v(3) show ?thesis by (simp add: matched_payload_def receipt_payload_get)
qed

lemma same_sealed_common:
  "same_sealed sha f g \<Longrightarrow> k \<in> {''tree'', ''tag'', ''prev_receipt_sha''} \<Longrightarrow> value_norm (get_field f k) = value_norm (get_field g k)"
  unfolding same_sealed_def using matched_payload_common [of f sha _ k] matched_payload_common [of g sha _ k] by metis

section \<open>What a receipt does not seal\<close>

lemma receipt_generation_cong:
  assumes "\<forall>k\<in>set RECEIPT_FIELDS_V7. get_field e k = get_field f k"
  shows "receipt_generation e None = receipt_generation f None"
proof -
  have "receipt_has e None k = receipt_has f None k" if "k \<in> set RECEIPT_FIELDS_V7" for k
    using assms that by (simp add: receipt_has_def)
  note h = this
  have s: "set RECEIPT_ARTIFACT_IDENTITY_FIELDS \<subseteq> set RECEIPT_FIELDS_V7"
    unfolding RECEIPT_FIELDS_V7_def RECEIPT_FIELDS_V6_def RECEIPT_FIELDS_V5_def RECEIPT_ARTIFACT_IDENTITY_FIELDS_def
    by (simp only: set_append) blast
  have m: "''prediction_temporal_commitment_sha256'' \<in> set RECEIPT_FIELDS_V7" "''history_payload_sha256'' \<in> set RECEIPT_FIELDS_V7"
    "''replay_status'' \<in> set RECEIPT_FIELDS_V7" "''comment_sha'' \<in> set RECEIPT_FIELDS_V7" "''engine_rule_sha'' \<in> set RECEIPT_FIELDS_V7"
    by (simp_all add: RECEIPT_FIELDS_V7_def RECEIPT_FIELDS_V6_def RECEIPT_FIELDS_V5_def RECEIPT_FIELDS_V4_def
        RECEIPT_FIELDS_V3_def RECEIPT_FIELDS_V2_def)
  have "list_ex (receipt_has e None) RECEIPT_ARTIFACT_IDENTITY_FIELDS = list_ex (receipt_has f None) RECEIPT_ARTIFACT_IDENTITY_FIELDS"
    using h s by (force simp: list_ex_iff)
  with m [THEN h] have "receipt_has e None ''prediction_temporal_commitment_sha256'' = receipt_has f None ''prediction_temporal_commitment_sha256''"
    "receipt_has e None ''history_payload_sha256'' = receipt_has f None ''history_payload_sha256''"
    "list_ex (receipt_has e None) RECEIPT_ARTIFACT_IDENTITY_FIELDS = list_ex (receipt_has f None) RECEIPT_ARTIFACT_IDENTITY_FIELDS"
    "receipt_has e None ''replay_status'' = receipt_has f None ''replay_status''"
    "receipt_has e None ''comment_sha'' = receipt_has f None ''comment_sha''"
    "receipt_has e None ''engine_rule_sha'' = receipt_has f None ''engine_rule_sha''" by simp_all
  then show ?thesis by (simp only: receipt_generation_def Let_def)
qed

lemma generation_fields_V7: "set (generation_fields n) \<subseteq> set RECEIPT_FIELDS_V7"
  unfolding generation_fields_def RECEIPT_FIELDS_V7_def RECEIPT_FIELDS_V6_def RECEIPT_FIELDS_V5_def
    RECEIPT_FIELDS_V4_def RECEIPT_FIELDS_V3_def RECEIPT_FIELDS_V2_def by (simp only: set_append split: if_split) blast

lemma receipt_content_cong:
  assumes "\<forall>k\<in>set RECEIPT_FIELDS_V7. get_field e k = get_field f k"
  shows "receipt_content_sha e None = receipt_content_sha f None"
proof -
  note g = receipt_generation_cong [OF assms]
  have k: "receipt_keys e None = receipt_keys f None" by (simp only: receipt_keys_def option.case g)
  have "\<forall>k\<in>set (receipt_keys f None). get_field e k = get_field f k"
    using assms generation_fields_V7 by (auto simp: receipt_keys_def)
  then have m: "map (\<lambda>k. (k, get_field e k)) (receipt_keys f None) = map (\<lambda>k. (k, get_field f k)) (receipt_keys f None)" by simp
  have "receipt_payload e None = receipt_payload f None" by (simp only: receipt_payload_def Let_def k m)
  then show ?thesis by (simp only: receipt_content_sha_def canonical_receipt_blob_def g)
qed

lemma prediction_content_cong:
  assumes "\<forall>k\<in>set PREDICTION_RECEIPT_FIELDS_V3. get_field e k = get_field f k"
  shows "prediction_content_sha e = prediction_content_sha f"
proof -
  have g: "prediction_generation e = prediction_generation f"
    using assms by (simp add: prediction_generation_def PREDICTION_RECEIPT_FIELDS_V3_def PREDICTION_RECEIPT_FIELDS_V2_def)
  have k: "prediction_keys e = prediction_keys f" by (simp only: prediction_keys_def g)
  have "set (prediction_keys f) \<subseteq> set PREDICTION_RECEIPT_FIELDS_V3"
    unfolding prediction_keys_def Let_def PREDICTION_RECEIPT_FIELDS_V3_def PREDICTION_RECEIPT_FIELDS_V2_def
    by (simp only: set_append split: if_split) blast
  with assms have "map (\<lambda>k. (k, get_field e k)) (prediction_keys f) = map (\<lambda>k. (k, get_field f k)) (prediction_keys f)" by auto
  then have "prediction_payload e = prediction_payload f" by (simp only: prediction_payload_def Let_def k)
  then show ?thesis by (simp only: prediction_content_sha_def canonical_prediction_blob_def g)
qed

text \<open>A prediction receipt carries no verdict, but the fold of a chain reads one of its head: what is
  written there changes no hash.\<close>

lemma prediction_verdict_is_not_sealed:
  assumes "is_prediction_receipt e"
  shows "match_receipt_encoding (AList.update ''verdict'' v e) sha = match_receipt_encoding e sha"
proof -
  have "''verdict'' \<notin> set PREDICTION_RECEIPT_FIELDS_V3"
    by (simp add: PREDICTION_RECEIPT_FIELDS_V3_def PREDICTION_RECEIPT_FIELDS_V2_def PREDICTION_RECEIPT_FIELDS_V1_def)
  then have "prediction_content_sha (AList.update ''verdict'' v e) = prediction_content_sha e"
    by (intro prediction_content_cong) (auto simp: get_field_update)
  with assms show ?thesis by (simp add: match_receipt_encoding_def is_prediction_receipt_def get_field_update)
qed

end
