(* ===== verification/Receipt_Graph_Facts.thy ===== *)
theory Receipt_Graph_Facts
  imports Receipt_Graph Receipt_Facts
begin

text \<open>
  What an accepted receipt graph is: the physical receipts are content-true and have distinct hashes
  (\<open>physical_ok\<close>), and the receipts bound to a node are the receipts of one path from its head to a
  genesis receipt (\<open>linked_path\<close>). Along that path the head's hash determines everything, up to a
  collision.
\<close>

section \<open>Stored values\<close>

lemma canonical_text: "canonical j = JStr s \<longleftrightarrow> j = JStr s" "canonical j = JNull \<longleftrightarrow> j = JNull"
  by (cases j; simp)+

lemma plain_text: "json_plain j = JStr s \<longleftrightarrow> j = JStr s" "json_plain j = JNull \<longleftrightarrow> j = JNull"
  by (cases j; simp)+

lemma value_eq_float: "value_eq (FText s) (FFloat x) \<longleftrightarrow> False" "value_eq (FFloat x) (FText s) \<longleftrightarrow> False"
  "value_eq FNone (FFloat x) \<longleftrightarrow> False" "value_eq (FFloat x) FNone \<longleftrightarrow> False"
  by (cases x; simp)+

lemma value_eq_text: "value_eq (FText s) v \<longleftrightarrow> v = FText s" "value_eq v (FText s) \<longleftrightarrow> v = FText s"
  "value_eq FNone v \<longleftrightarrow> v = FNone" "value_eq v FNone \<longleftrightarrow> v = FNone"
proof -
  have c: "JStr s = canonical j \<longleftrightarrow> canonical j = JStr s" "JNull = canonical j \<longleftrightarrow> canonical j = JNull" for j by auto
  show "value_eq (FText s) v \<longleftrightarrow> v = FText s" by (cases v) (simp_all add: value_eq_float c canonical_text plain_text)
  show "value_eq v (FText s) \<longleftrightarrow> v = FText s" by (cases v) (simp_all add: value_eq_float canonical_text plain_text)
  show "value_eq FNone v \<longleftrightarrow> v = FNone" by (cases v) (simp_all add: value_eq_float c canonical_text plain_text)
  show "value_eq v FNone \<longleftrightarrow> v = FNone" by (cases v) (simp_all add: value_eq_float canonical_text plain_text)
qed

lemma value_eq_link: "value_eq v w \<Longrightarrow> field_link v = field_link w \<and> field_text v = field_text w"
proof -
  assume e: "value_eq v w"
  consider "v = FNone" | s where "v = FText s" | (other) "v \<noteq> FNone" "\<forall>s. v \<noteq> FText s" by blast
  then show ?thesis
  proof cases
    case other
    with e value_eq_text have "w \<noteq> FNone" "\<forall>s. w \<noteq> FText s" by auto
    then have "field_link u = Some [] \<and> field_text u = None" if "u = v \<or> u = w" for u
      using that other by (auto simp: field_link_def field_text_def split: field_value.splits json.splits)
    then show ?thesis by simp
  qed (use e value_eq_text in auto)
qed

lemma entries_eq_get:
  assumes "entries_eq e f"
  shows "field_link (get_field e k) = field_link (get_field f k) \<and> field_text (get_field e k) = field_text (get_field f k)"
proof (cases "k \<in> fst ` set e")
  case True
  then obtain v where "(k, v) \<in> set e" by auto
  with assms have "value_eq (get_field e k) (get_field f k)" by (force simp: entries_eq_def list_all_iff)
  then show ?thesis by (rule value_eq_link)
next
  case False
  with assms have "map_of e k = None" "map_of f k = None" by (simp_all add: entries_eq_def map_of_eq_None_iff)
  then show ?thesis by (simp add: get_field_def)
qed

lemma field_link_simps [simp]: "field_link FNone = None" "field_link (FText s) = Some s"
  "field_text FNone = None" "field_text (FText s) = Some s"
  by (simp_all add: field_link_def field_text_def)

lemma field_text_Some: "field_text v = Some s \<longleftrightarrow> v = FText s"
  by (auto simp: field_text_def split: field_value.splits json.splits)

lemma field_link_text: "field_link v = Some s \<Longrightarrow> s \<noteq> [] \<Longrightarrow> v = FText s"
  by (auto simp: field_link_def split: field_value.splits json.splits)

lemma field_link_None: "field_link v = None \<longleftrightarrow> v = FNone"
  by (auto simp: field_link_def split: field_value.splits json.splits)

lemma nonempty_text_Some: "nonempty_text v = Some s \<longleftrightarrow> v = JStr s \<and> s \<noteq> []"
  by (auto simp: nonempty_text_def split: json.splits)

lemma sha_value_Some: "sha_value v = Some s \<longleftrightarrow> v = JStr s \<and> sha_text s"
  by (auto simp: sha_value_def split: json.splits)

lemma sha_text_nonempty: "sha_text s \<Longrightarrow> s \<noteq> []"
  by (auto simp: sha_text_def)

lemma pointer_Inr: "pointer v m = Inr p \<longleftrightarrow> v = JNull \<and> p = None \<or> (\<exists>s. v = JStr s \<and> sha_text s \<and> p = Some s)"
  by (auto simp: pointer_def sha_value_def split: json.splits)

section \<open>Physical receipts\<close>

text \<open>A receipt stored under a hash that its content rederives, in the scope of its owner.\<close>

definition receipt_true :: "field_map \<Rightarrow> string \<Rightarrow> string \<times> string \<times> string \<Rightarrow> bool" where
  "receipt_true e sha owner \<longleftrightarrow>
     get_field e ''receipt_sha'' = FText sha \<and> sha_text sha \<and> match_receipt_encoding e sha \<noteq> None \<and>
     get_field e ''tree'' = FText (fst (snd owner)) \<and> get_field e ''tag'' = FText (snd (snd owner))"

definition physical_ok :: "graph_state \<Rightarrow> bool" where
  "physical_ok st \<longleftrightarrow>
     (\<forall>el. map_of (gs_physical_by_element st) el = None \<longleftrightarrow> map_of (gs_owner_by_element st) el = None) \<and>
     (\<forall>el e. map_of (gs_physical_by_element st) el = Some e \<longrightarrow>
        (\<exists>sha owner els. map_of (gs_owner_by_element st) el = Some owner \<and> receipt_true e sha owner \<and>
           map_of (gs_sha_to_elements st) sha = Some els \<and> el \<in> els)) \<and>
     (\<forall>sha els. map_of (gs_sha_to_elements st) sha = Some els \<longrightarrow> finite els) \<and>
     (\<forall>sha e. map_of (gs_receipt_by_sha st) sha = Some e \<longrightarrow>
        (\<exists>el. map_of (gs_physical_by_element st) el = Some e \<and> get_field e ''receipt_sha'' = FText sha)) \<and>
     (\<forall>el e sha. map_of (gs_physical_by_element st) el = Some e \<longrightarrow> get_field e ''receipt_sha'' = FText sha \<longrightarrow>
        map_of (gs_receipt_by_sha st) sha \<noteq> None)"

lemma map_of_map_default:
  "map_of (AList.map_default k v f al) = (map_of al)(k \<mapsto> (case map_of al k of None \<Rightarrow> v | Some x \<Rightarrow> f x))"
  by (induction al) (auto simp: fun_eq_iff)

lemma initial_physical_ok: "physical_ok initial_graph_state"
  by (simp add: physical_ok_def initial_graph_state_def)

lemma record_receipt_ok:
  assumes ok: "physical_ok st" and "record_receipt st el e sha owner = Inr st'" and "sha_text sha" and g: "get_field e ''receipt_sha'' = FText sha"
  shows "physical_ok st'"
proof -
  obtain o1 tree tag where o: "nonempty_text (ow_node_element_id owner) = Some o1" "nonempty_text (ow_tree owner) = Some tree"
    "nonempty_text (ow_tag owner) = Some tag" and c: "get_field e ''tree'' = FText tree" "get_field e ''tag'' = FText tag"
    "match_receipt_encoding e sha \<noteq> None" and new: "map_of (gs_physical_by_element st) el = None"
    and st': "st' = \<lparr>gs_physical_by_element = AList.update el e (gs_physical_by_element st),
      gs_owner_by_element = AList.update el (o1, tree, tag) (gs_owner_by_element st),
      gs_sha_to_elements = AList.map_default sha {el} (insert el) (gs_sha_to_elements st),
      gs_receipt_by_sha = AList.update sha e (gs_receipt_by_sha st)\<rparr>"
    using assms(2) by (auto simp: record_receipt_def result_simps check_simps map_of_eq_None_iff split: option.splits)
  let ?P = "map_of (gs_physical_by_element st)" and ?O = "map_of (gs_owner_by_element st)"
    and ?S = "map_of (gs_sha_to_elements st)" and ?R = "map_of (gs_receipt_by_sha st)"
  let ?E = "case ?S sha of None \<Rightarrow> {el} | Some x \<Rightarrow> insert el x"
  have m: "map_of (gs_physical_by_element st') = ?P(el \<mapsto> e)" "map_of (gs_owner_by_element st') = ?O(el \<mapsto> (o1, tree, tag))"
    "map_of (gs_sha_to_elements st') = ?S(sha \<mapsto> ?E)" "map_of (gs_receipt_by_sha st') = ?R(sha \<mapsto> e)"
    by (simp_all add: st' update_conv' map_of_map_default)
  have t: "receipt_true e sha (o1, tree, tag)" using c assms(3) g by (simp add: receipt_true_def)
  have fin: "\<forall>s els. ?S s = Some els \<longrightarrow> finite els" using ok by (simp add: physical_ok_def)
  then have fe: "finite ?E" by (auto split: option.splits)
  have inE: "el \<in> ?E" "\<And>els l. ?S sha = Some els \<Longrightarrow> l \<in> els \<Longrightarrow> l \<in> ?E" by (auto split: option.splits)
  have "\<exists>s w els. (?O(el \<mapsto> (o1, tree, tag))) l = Some w \<and> receipt_true x s w \<and> (?S(sha \<mapsto> ?E)) s = Some els \<and> l \<in> els"
    if "(?P(el \<mapsto> e)) l = Some x" for l x
  proof (cases "l = el")
    case True
    with that t inE(1) show ?thesis by auto
  next
    case False
    with that have "?P l = Some x" by simp
    with ok obtain s w els where "?O l = Some w" "receipt_true x s w" "?S s = Some els" "l \<in> els"
      unfolding physical_ok_def by blast
    with False inE(2) [of els l] show ?thesis by (intro exI [of _ s] exI [of _ w]) auto
  qed
  moreover have "\<exists>l. (?P(el \<mapsto> e)) l = Some x \<and> get_field x ''receipt_sha'' = FText s" if "(?R(sha \<mapsto> e)) s = Some x" for s x
  proof (cases "s = sha")
    case True
    with that g show ?thesis by auto
  next
    case False
    with that have "?R s = Some x" by simp
    with ok obtain l where "?P l = Some x" "get_field x ''receipt_sha'' = FText s" unfolding physical_ok_def by blast
    with new show ?thesis by (intro exI [of _ l]) auto
  qed
  moreover have "(?R(sha \<mapsto> e)) s \<noteq> None" if "(?P(el \<mapsto> e)) l = Some x" "get_field x ''receipt_sha'' = FText s" for l x s
    using that ok g by (auto simp: physical_ok_def split: if_splits)
  moreover have "(?P(el \<mapsto> e)) l = None \<longleftrightarrow> (?O(el \<mapsto> (o1, tree, tag))) l = None" for l
    using ok by (simp add: physical_ok_def)
  moreover have "finite els" if "(?S(sha \<mapsto> ?E)) s = Some els" for s els
    using that fin fe by (cases "s = sha") auto
  ultimately show ?thesis unfolding physical_ok_def m by blast
qed

lemma admit_identities_ok:
  assumes "admit_identities rows = Inr st"
  shows "physical_ok st"
    and "map_of (gs_physical_by_element st) a = Some e \<Longrightarrow> map_of (gs_physical_by_element st) b = Some f \<Longrightarrow>
      get_field e ''receipt_sha'' = get_field f ''receipt_sha'' \<Longrightarrow> a = b"
proof -
  from assms have f: "fold_result admit_identity initial_graph_state rows = Inr st"
    and one: "\<forall>(s, els) \<in> set (gs_sha_to_elements st). card els = 1"
    by (auto simp: admit_identities_def result_simps check_simps list_ex_iff)
  show ok: "physical_ok st"
  proof (rule fold_result_invariant [OF f, where I = physical_ok])
    show "physical_ok initial_graph_state" by (rule initial_physical_ok)
    fix s x t assume "physical_ok s" and "admit_identity s x = Inr t"
    then show "physical_ok t"
      by (auto simp: admit_identity_def result_simps check_simps sha_value_Some split: option.splits list.splits
          intro: record_receipt_ok)
  qed
  assume a: "map_of (gs_physical_by_element st) a = Some e" and b: "map_of (gs_physical_by_element st) b = Some f"
    and eq: "get_field e ''receipt_sha'' = get_field f ''receipt_sha''"
  from ok a obtain sha w els where s: "receipt_true e sha w" "map_of (gs_sha_to_elements st) sha = Some els" "a \<in> els"
    unfolding physical_ok_def by blast
  from ok b obtain sha' w' els' where s': "receipt_true f sha' w'" "map_of (gs_sha_to_elements st) sha' = Some els'" "b \<in> els'"
    unfolding physical_ok_def by blast
  from s(1) s'(1) eq have "sha' = sha" by (simp add: receipt_true_def)
  with s s' have "b \<in> els" by simp
  moreover have "card els = 1" using one s(2) by (auto dest: map_of_SomeD)
  ultimately show "a = b" using s(3) by (auto simp: card_1_singleton_iff)
qed

lemma physical_receipt:
  assumes "physical_ok st" and "map_of (gs_physical_by_element st) el = Some e"
  obtains sha owner where "map_of (gs_owner_by_element st) el = Some owner" "receipt_true e sha owner"
  using assms unfolding physical_ok_def by blast

lemma physical_by_sha:
  assumes "admit_identities rows = Inr st" and "map_of (gs_physical_by_element st) el = Some e" and "get_field e ''receipt_sha'' = FText sha"
  shows "map_of (gs_receipt_by_sha st) sha = Some e"
proof -
  note ok = admit_identities_ok(1) [OF assms(1)]
  with assms(2,3) obtain f where f: "map_of (gs_receipt_by_sha st) sha = Some f" unfolding physical_ok_def by blast
  with ok obtain b where b: "map_of (gs_physical_by_element st) b = Some f" "get_field f ''receipt_sha'' = FText sha"
    unfolding physical_ok_def by blast
  with admit_identities_ok(2) [OF assms(1,2) b(1)] assms(3) have "el = b" by simp
  with b(1) assms(2) f show ?thesis by simp
qed

section \<open>Bound receipts\<close>

text \<open>The receipts bound to a node, each next to the element that it is.\<close>

definition bound_ok :: "graph_state \<Rightarrow> string \<times> string \<times> string \<Rightarrow> string list \<Rightarrow> field_map list \<Rightarrow> bool" where
  "bound_ok st owner els rs \<longleftrightarrow> distinct els \<and>
     list_all2 (\<lambda>el r. map_of (gs_owner_by_element st) el = Some owner \<and>
       (\<exists>p. map_of (gs_physical_by_element st) el = Some p \<and> entries_eq p r)) els rs"

lemma bind_receipt_ok:
  assumes "fold_result (bind_receipt st owner) acc bound = Inr (L, rs)" and "bound_ok st owner els (snd acc)" and "set els = fst acc"
  shows "\<exists>els'. bound_ok st owner els' rs \<and> set els' = L \<and> length rs = length (snd acc) + length bound"
  using assms
proof (induction bound arbitrary: acc els)
  case Nil
  then show ?case by (intro exI [of _ els]) auto
next
  case (Cons item bound)
  from Cons.prems(1) obtain acc' where a: "bind_receipt st owner acc item = Inr acc'"
    "fold_result (bind_receipt st owner) acc' bound = Inr (L, rs)" by (auto simp: result_simps)
  from a(1) obtain el r p where b: "el \<notin> fst acc" "map_of (gs_physical_by_element st) el = Some p" "entries_eq p r"
    "map_of (gs_owner_by_element st) el = Some owner" "acc' = (insert el (fst acc), snd acc @ [r])"
    by (auto simp: bind_receipt_def result_simps check_simps split: option.splits)
  with Cons.prems(2,3) have "bound_ok st owner (els @ [el]) (snd acc')" "set (els @ [el]) = fst acc'"
    by (auto simp: bound_ok_def intro: list_all2_appendI)
  from Cons.IH [OF a(2) this] b(5) show ?case by auto
qed

lemma bound_receipts:
  assumes "fold_result (bind_receipt st owner) ({}, []) bound = Inr (L, rs)"
  obtains els where "bound_ok st owner els rs" "set els = L" "length rs = length bound"
  using bind_receipt_ok [OF assms, of "[]"] by (auto simp: bound_ok_def)

lemma bound_receipt_physical:
  assumes st: "admit_identities ids = Inr st" and b: "bound_ok st owner els rs" and i: "i < length rs"
  obtains p sha where "map_of (gs_physical_by_element st) (els ! i) = Some p" "receipt_true p sha owner"
    "rc_receipt_sha (chain_receipt (rs ! i)) = sha" "map_of (gs_receipt_by_sha st) sha = Some p"
    "rc_prev_receipt_sha (chain_receipt (rs ! i)) = field_link (get_field p ''prev_receipt_sha'')"
proof -
  from b i obtain p where p: "map_of (gs_physical_by_element st) (els ! i) = Some p" "entries_eq p (rs ! i)"
    "map_of (gs_owner_by_element st) (els ! i) = Some owner"
    by (auto simp: bound_ok_def list_all2_conv_all_nth)
  from physical_receipt [OF admit_identities_ok(1) [OF st] p(1)] p(3) obtain sha where t: "receipt_true p sha owner" by auto
  then have g: "get_field p ''receipt_sha'' = FText sha" by (simp add: receipt_true_def)
  have "field_text (get_field (rs ! i) ''receipt_sha'') = Some sha"
    using entries_eq_get [OF p(2), of "''receipt_sha''", THEN conjunct2] by (simp only: g field_link_simps)
  then have "rc_receipt_sha (chain_receipt (rs ! i)) = sha" by (simp add: chain_receipt_def)
  moreover have "rc_prev_receipt_sha (chain_receipt (rs ! i)) = field_link (get_field p ''prev_receipt_sha'')"
    using entries_eq_get [OF p(2), of "''prev_receipt_sha''"] by (simp add: chain_receipt_def)
  ultimately show thesis using that p(1) t physical_by_sha [OF st p(1) g] by blast
qed

lemma bound_shas_distinct:
  assumes st: "admit_identities ids = Inr st" and b: "bound_ok st owner els rs"
  shows "distinct (map (\<lambda>r. rc_receipt_sha (chain_receipt r)) rs)"
  unfolding distinct_conv_nth
proof (intro allI impI)
  fix i j assume i: "i < length (map (\<lambda>r. rc_receipt_sha (chain_receipt r)) rs)"
    and j: "j < length (map (\<lambda>r. rc_receipt_sha (chain_receipt r)) rs)" and n: "i \<noteq> j"
  then have ij: "i < length rs" "j < length rs" by simp_all
  obtain p sha where p: "map_of (gs_physical_by_element st) (els ! i) = Some p" "receipt_true p sha owner"
    "rc_receipt_sha (chain_receipt (rs ! i)) = sha" by (rule bound_receipt_physical [OF st b ij(1)])
  obtain q sha' where q: "map_of (gs_physical_by_element st) (els ! j) = Some q" "receipt_true q sha' owner"
    "rc_receipt_sha (chain_receipt (rs ! j)) = sha'" by (rule bound_receipt_physical [OF st b ij(2)])
  have "els ! i \<noteq> els ! j" using b ij n by (auto simp: bound_ok_def distinct_conv_nth list_all2_conv_all_nth)
  with admit_identities_ok(2) [OF st p(1) q(1)] p(2) q(2) have "sha \<noteq> sha'" by (auto simp: receipt_true_def)
  with p(3) q(3) ij show "map (\<lambda>r. rc_receipt_sha (chain_receipt r)) rs ! i \<noteq> map (\<lambda>r. rc_receipt_sha (chain_receipt r)) rs ! j"
    by simp
qed

section \<open>The path of a node\<close>

fun linked_path :: "(string \<Rightarrow> field_map option) \<Rightarrow> string option \<Rightarrow> string list \<Rightarrow> bool" where
  "linked_path look None [] \<longleftrightarrow> True"
| "linked_path look (Some c) (x # xs) \<longleftrightarrow> c = x \<and>
     (case look x of None \<Rightarrow> False | Some e \<Rightarrow> linked_path look (field_link (get_field e ''prev_receipt_sha'')) xs)"
| "linked_path look _ _ \<longleftrightarrow> False"

lemma linked_path_nth:
  "linked_path look cur path \<Longrightarrow> i < length path \<Longrightarrow>
    \<exists>e. look (path ! i) = Some e \<and>
      field_link (get_field e ''prev_receipt_sha'') = (if Suc i < length path then Some (path ! Suc i) else None)"
proof (induction look cur path arbitrary: i rule: linked_path.induct)
  case (2 look c x xs)
  from 2(2) obtain e where e: "look x = Some e" "linked_path look (field_link (get_field e ''prev_receipt_sha'')) xs"
    by (auto split: option.splits)
  show ?case
  proof (cases i)
    case 0
    have "field_link (get_field e ''prev_receipt_sha'') = (if xs = [] then None else Some (xs ! 0))"
      using e(2) by (cases xs; cases "field_link (get_field e ''prev_receipt_sha'')") auto
    with e(1) 0 show ?thesis by auto
  next
    case (Suc j)
    with 2(1) [OF e(1,2), of j] 2(3) show ?thesis by (cases "Suc j < length xs") simp_all
  qed
qed auto

lemma linked_path_head: "linked_path look cur path \<Longrightarrow> cur = (if path = [] then None else Some (hd path))"
  by (cases cur; cases path) auto

lemma head_to_genesis_linked:
  assumes "head_to_genesis idx anc cur = Inr path"
    and "\<forall>s r. map_of idx s = Some r \<longrightarrow> (\<exists>e. look s = Some e \<and> field_link (get_field e ''prev_receipt_sha'') = rc_prev_receipt_sha r)"
  shows "linked_path look cur path \<and> distinct path \<and> set path \<inter> anc = {}"
  using assms
proof (induction idx anc cur arbitrary: path rule: head_to_genesis.induct)
  case (2 idx anc cur)
  from 2(2) obtain r rest where r: "cur \<notin> anc" "map_of idx cur = Some r"
    "head_to_genesis idx (insert cur anc) (rc_prev_receipt_sha r) = Inr rest" "path = cur # rest"
    by (auto simp: result_simps split: if_splits option.splits)
  from 2(3) r(2) obtain e where e: "look cur = Some e" "field_link (get_field e ''prev_receipt_sha'') = rc_prev_receipt_sha r" by blast
  from 2(1) [OF r(1,2,3) 2(3)] e r(1,4) show ?case by auto
qed simp

lemma node_chain_path:
  assumes st: "admit_identities ids = Inr st" and b: "bound_ok st owner els rs"
    and n: "node_chain rs current prediction = Inr path"
  shows "linked_path (map_of (gs_receipt_by_sha st)) current path" "distinct path" "length path = length rs"
    "\<forall>x\<in>set path. \<exists>e. map_of (gs_receipt_by_sha st) x = Some e \<and> receipt_true e x owner"
    "\<forall>el\<in>set els. \<exists>p x. map_of (gs_physical_by_element st) el = Some p \<and> receipt_true p x owner \<and> x \<in> set path"
proof -
  let ?sha = "\<lambda>r. rc_receipt_sha (chain_receipt r)"
  let ?idx = "by_receipt_sha (map chain_receipt rs)"
  from n have h: "head_to_genesis ?idx {} current = Inr path" and s: "set path = fst ` set ?idx"
    by (auto simp: node_chain_def Let_def result_simps check_simps)
  have idx: "set ?idx = (\<lambda>r. (?sha r, chain_receipt r)) ` set rs" by (simp add: by_receipt_sha_def image_image)
  have l: "\<exists>e. map_of (gs_receipt_by_sha st) x = Some e \<and> receipt_true e x owner \<and> field_link (get_field e ''prev_receipt_sha'') = rc_prev_receipt_sha r"
    if m: "(x, r) \<in> set ?idx" for x r
  proof -
    from m obtain i where i: "i < length rs" "x = ?sha (rs ! i)" "r = chain_receipt (rs ! i)"
      unfolding idx by (auto simp: in_set_conv_nth)
    obtain p sha where "receipt_true p sha owner" "?sha (rs ! i) = sha" "map_of (gs_receipt_by_sha st) sha = Some p"
      "rc_prev_receipt_sha (chain_receipt (rs ! i)) = field_link (get_field p ''prev_receipt_sha'')"
      by (rule bound_receipt_physical [OF st b i(1)])
    with i show ?thesis by auto
  qed
  have look: "\<forall>x r. map_of ?idx x = Some r \<longrightarrow> (\<exists>e. map_of (gs_receipt_by_sha st) x = Some e \<and>
      field_link (get_field e ''prev_receipt_sha'') = rc_prev_receipt_sha r)" using l by (blast dest: map_of_SomeD)
  from head_to_genesis_linked [OF h look] show p: "linked_path (map_of (gs_receipt_by_sha st)) current path" "distinct path" by simp_all
  show "\<forall>x\<in>set path. \<exists>e. map_of (gs_receipt_by_sha st) x = Some e \<and> receipt_true e x owner"
    unfolding s using l by fastforce
  have sp: "set path = ?sha ` set rs" unfolding s idx by force
  have "length path = card (?sha ` set rs)" using distinct_card [OF p(2)] sp by simp
  also have "\<dots> = length rs" using distinct_card [OF bound_shas_distinct [OF st b]] by simp
  finally show "length path = length rs" .
  show "\<forall>el\<in>set els. \<exists>p x. map_of (gs_physical_by_element st) el = Some p \<and> receipt_true p x owner \<and> x \<in> set path"
  proof
    fix el assume "el \<in> set els"
    then obtain i where i: "i < length rs" "el = els ! i" using b by (auto simp: in_set_conv_nth bound_ok_def dest: list_all2_lengthD)
    obtain p sha where "map_of (gs_physical_by_element st) (els ! i) = Some p" "receipt_true p sha owner" "?sha (rs ! i) = sha"
      by (rule bound_receipt_physical [OF st b i(1)])
    with i sp show "\<exists>p x. map_of (gs_physical_by_element st) el = Some p \<and> receipt_true p x owner \<and> x \<in> set path" by force
  qed
qed

section \<open>The loop over the nodes\<close>

text \<open>What the loop records of a row.\<close>

definition pointer_json :: "string option \<Rightarrow> json" where
  "pointer_json p = (case p of None \<Rightarrow> JNull | Some s \<Rightarrow> JStr s)"

definition recorded :: "graph_state \<Rightarrow> graph_node \<Rightarrow> scope_id \<Rightarrow> string list \<Rightarrow> string list \<Rightarrow> receipt_chain_index \<Rightarrow> bool" where
  "recorded st row scope els path ix \<longleftrightarrow>
     (\<exists>element bound rs current prediction.
        gn_tree row = JStr (fst scope) \<and> gn_tag row = JStr (snd scope) \<and> gn_receipts row = Some bound \<and>
        gn_current_receipt_sha row = pointer_json current \<and> gn_pred_receipt_sha row = pointer_json prediction \<and>
        bound_ok st (element, scope) els rs \<and> length rs = length bound \<and> node_chain rs current prediction = Inr path \<and>
        map_of (ix_ancestors_by_scope ix) scope = Some (set path) \<and>
        map_of (ix_ordered_ancestry_by_scope ix) scope = Some (rev path) \<and>
        map_of (ix_current_by_scope ix) scope = Some current \<and>
        map_of (ix_graph_sha256_by_scope ix) scope = Some (graph_seal row scope current prediction (rev path)))"

definition index_keys :: "receipt_chain_index \<Rightarrow> scope_id set \<Rightarrow> bool" where
  "index_keys ix scopes \<longleftrightarrow>
     fst ` set (ix_ancestors_by_scope ix) = scopes \<and> fst ` set (ix_ordered_ancestry_by_scope ix) = scopes \<and>
     fst ` set (ix_current_by_scope ix) = scopes \<and> fst ` set (ix_graph_sha256_by_scope ix) = scopes"

definition nodes_ok :: "graph_state \<Rightarrow> graph_node list \<Rightarrow> node_loop \<Rightarrow> bool" where
  "nodes_ok st rows nl \<longleftrightarrow>
     index_keys (nl_index nl) (nl_seen_scopes nl) \<and>
     ix_receipt_by_sha (nl_index nl) = gs_receipt_by_sha st \<and>
     (\<forall>row\<in>set rows. \<exists>scope els path. recorded st row scope els path (nl_index nl) \<and> set els \<subseteq> nl_seen_receipt_elements nl) \<and>
     (\<forall>el\<in>nl_seen_receipt_elements nl. \<exists>row\<in>set rows. \<exists>scope els path. recorded st row scope els path (nl_index nl) \<and> el \<in> set els) \<and>
     (\<forall>scope\<in>nl_seen_scopes nl. \<exists>row\<in>set rows. \<exists>els path. recorded st row scope els path (nl_index nl))"

lemma map_of_new: "k \<notin> fst ` set xs \<Longrightarrow> map_of (xs @ [(k, v)]) k = Some v"
  by (simp add: map_add_def map_of_eq_None_iff [THEN iffD2])

lemma map_of_kept: "map_of xs k = Some v \<Longrightarrow> map_of (xs @ ys) k = Some v"
  by (simp add: map_add_def map_of_append)

lemma pointer_json_Inr: "pointer v m = Inr p \<Longrightarrow> v = pointer_json p"
  by (auto simp: pointer_Inr pointer_json_def)

lemma recorded_grows:
  assumes "recorded st x scope es q ix"
    and "\<And>v. map_of (ix_ancestors_by_scope ix) scope = Some v \<Longrightarrow> map_of (ix_ancestors_by_scope ix') scope = Some v"
    and "\<And>v. map_of (ix_ordered_ancestry_by_scope ix) scope = Some v \<Longrightarrow> map_of (ix_ordered_ancestry_by_scope ix') scope = Some v"
    and "\<And>v. map_of (ix_current_by_scope ix) scope = Some v \<Longrightarrow> map_of (ix_current_by_scope ix') scope = Some v"
    and "\<And>v. map_of (ix_graph_sha256_by_scope ix) scope = Some v \<Longrightarrow> map_of (ix_graph_sha256_by_scope ix') scope = Some v"
  shows "recorded st x scope es q ix'"
  using assms(1) unfolding recorded_def by (elim exE conjE) (intro exI conjI assms(2-5), assumption+)

lemma admit_node_ok:
  assumes "nodes_ok st rows nl" and "admit_node st nl row = Inr nl'"
  shows "nodes_ok st (rows @ [row]) nl'"
proof -
  obtain element tree tag bound L rs current prediction path where
    r: "gn_tree row = JStr tree" "gn_tag row = JStr tag" "gn_receipts row = Some bound" "(tree, tag) \<notin> nl_seen_scopes nl"
    and b: "fold_result (bind_receipt st (element, tree, tag)) ({}, []) bound = Inr (L, rs)"
    and p: "pointer (gn_current_receipt_sha row) ''current receipt pointer is malformed'' = Inr current"
      "pointer (gn_pred_receipt_sha row) ''prediction receipt pointer is malformed'' = Inr prediction"
    and n: "node_chain rs current prediction = Inr path"
    and nl': "nl' = \<lparr>nl_seen_nodes = insert element (nl_seen_nodes nl), nl_seen_scopes = insert (tree, tag) (nl_seen_scopes nl),
       nl_seen_receipt_elements = nl_seen_receipt_elements nl \<union> L,
       nl_index = (nl_index nl)\<lparr>
         ix_ancestors_by_scope := ix_ancestors_by_scope (nl_index nl) @ [((tree, tag), set path)],
         ix_ordered_ancestry_by_scope := ix_ordered_ancestry_by_scope (nl_index nl) @ [((tree, tag), rev path)],
         ix_current_by_scope := ix_current_by_scope (nl_index nl) @ [((tree, tag), current)],
         ix_prediction_by_scope := ix_prediction_by_scope (nl_index nl) @ [((tree, tag), prediction)],
         ix_graph_sha256_by_scope := ix_graph_sha256_by_scope (nl_index nl) @
           [((tree, tag), graph_seal row (tree, tag) current prediction (rev path))],
         ix_tree_incarnation_by_scope := ix_tree_incarnation_by_scope (nl_index nl) @
           [((tree, tag), nonempty_text (gn_tree_incarnation_id row))]\<rparr>\<rparr>"
    using assms(2)
    by (auto simp: admit_node_def Let_def result_simps check_simps nonempty_text_Some split: option.splits)
  obtain els where els: "bound_ok st (element, tree, tag) els rs" "set els = L" "length rs = length bound"
    by (rule bound_receipts [OF b])
  have keys: "index_keys (nl_index nl) (nl_seen_scopes nl)" using assms(1) by (simp add: nodes_ok_def)
  with r(4) have fresh: "(tree, tag) \<notin> fst ` set (ix_ancestors_by_scope (nl_index nl))"
    "(tree, tag) \<notin> fst ` set (ix_ordered_ancestry_by_scope (nl_index nl))"
    "(tree, tag) \<notin> fst ` set (ix_current_by_scope (nl_index nl))"
    "(tree, tag) \<notin> fst ` set (ix_graph_sha256_by_scope (nl_index nl))" by (simp_all only: index_keys_def simp_thms)
  have new: "recorded st row (tree, tag) els path (nl_index nl')"
    unfolding recorded_def using r els n p [THEN pointer_json_Inr] fresh [THEN map_of_new]
    by (intro exI [of _ element] exI [of _ bound] exI [of _ rs] exI [of _ current] exI [of _ prediction])
      (simp add: nl' del: map_of_append)
  have old: "recorded st x scope es q (nl_index nl')" if "recorded st x scope es q (nl_index nl)" for x scope es q
    by (rule recorded_grows [OF that]) (simp_all add: nl' map_of_kept del: map_of_append)
  have "index_keys (nl_index nl') (nl_seen_scopes nl')" using keys by (simp add: index_keys_def nl')
  moreover have "ix_receipt_by_sha (nl_index nl') = gs_receipt_by_sha st" using assms(1) by (simp add: nodes_ok_def nl')
  moreover have "\<exists>scope es q. recorded st x scope es q (nl_index nl') \<and> set es \<subseteq> nl_seen_receipt_elements nl'" if "x \<in> set (rows @ [row])" for x
  proof (cases "x = row")
    case True
    with new els(2) show ?thesis by (intro exI [of _ "(tree, tag)"] exI [of _ els] exI [of _ path]) (simp add: nl')
  next
    case False
    with that have "x \<in> set rows" by simp
    with assms(1) obtain scope es q where "recorded st x scope es q (nl_index nl)" "set es \<subseteq> nl_seen_receipt_elements nl"
      unfolding nodes_ok_def by blast
    with old show ?thesis by (intro exI [of _ scope] exI [of _ es] exI [of _ q]) (auto simp: nl')
  qed
  moreover have "\<exists>x\<in>set (rows @ [row]). \<exists>scope es q. recorded st x scope es q (nl_index nl') \<and> el \<in> set es"
    if "el \<in> nl_seen_receipt_elements nl'" for el
  proof (cases "el \<in> L")
    case True
    with new els(2) show ?thesis by auto
  next
    case False
    with that have "el \<in> nl_seen_receipt_elements nl" by (simp add: nl')
    with assms(1) obtain x scope es q where x: "x \<in> set rows" "recorded st x scope es q (nl_index nl)" "el \<in> set es"
      unfolding nodes_ok_def by blast
    with old [OF x(2)] show ?thesis by (intro bexI [of _ x]) (blast, simp)
  qed
  moreover have "\<exists>x\<in>set (rows @ [row]). \<exists>es q. recorded st x scope es q (nl_index nl')" if "scope \<in> nl_seen_scopes nl'" for scope
  proof (cases "scope = (tree, tag)")
    case True
    with new show ?thesis by auto
  next
    case False
    with that have "scope \<in> nl_seen_scopes nl" by (simp add: nl')
    with assms(1) obtain x es q where x: "x \<in> set rows" "recorded st x scope es q (nl_index nl)" unfolding nodes_ok_def by blast
    with old [OF x(2)] show ?thesis by (intro bexI [of _ x]) (blast, simp)
  qed
  ultimately show ?thesis unfolding nodes_ok_def by blast
qed

lemma admit_nodes_ok: "fold_result (admit_node st) (initial_node_loop st) rows = Inr nl \<Longrightarrow> nodes_ok st rows nl"
proof (induction rows arbitrary: nl rule: rev_induct)
  case Nil
  then show ?case by (auto simp: nodes_ok_def index_keys_def initial_node_loop_def)
next
  case (snoc row rows)
  then obtain m where "fold_result (admit_node st) (initial_node_loop st) rows = Inr m" "admit_node st m row = Inr nl"
    by (auto simp: fold_result_append result_simps)
  with snoc.IH admit_node_ok show ?case by blast
qed

lemma validated:
  assumes "validate_receipt_graph rows ids = Inr ix"
  obtains st nl where "admit_identities ids = Inr st" "nodes_ok st rows nl" "ix = nl_index nl"
    "nl_seen_receipt_elements nl = fst ` set (gs_physical_by_element st)"
proof -
  from assms obtain st nl where "admit_identities ids = Inr st" "fold_result (admit_node st) (initial_node_loop st) rows = Inr nl"
    "nl_seen_receipt_elements nl = fst ` set (gs_physical_by_element st)" "nl_index nl = ix"
    by (auto simp: validate_receipt_graph_def result_simps check_simps)
  with admit_nodes_ok [OF this(2)] that show thesis by blast
qed

text \<open>What the index says of a node is the path of its receipts.\<close>

lemma recorded_path:
  assumes st: "admit_identities ids = Inr st" and r: "recorded st row scope els path ix" and ix: "ix_receipt_by_sha ix = gs_receipt_by_sha st"
  obtains current where "gn_current_receipt_sha row = pointer_json current" "linked_path (map_of (ix_receipt_by_sha ix)) current path"
    "distinct path" "length path = length (the (gn_receipts row))"
    "\<forall>x\<in>set path. \<exists>e element. map_of (ix_receipt_by_sha ix) x = Some e \<and> receipt_true e x (element, scope)"
    "\<forall>el\<in>set els. \<exists>p x element. map_of (gs_physical_by_element st) el = Some p \<and> receipt_true p x (element, scope) \<and> x \<in> set path"
proof -
  obtain element bound rs current prediction where
    "gn_current_receipt_sha row = pointer_json current" "gn_receipts row = Some bound" "length rs = length bound"
    "bound_ok st (element, scope) els rs" "node_chain rs current prediction = Inr path"
    using r unfolding recorded_def by blast
  note c = this
  note p = node_chain_path [OF st c(4,5)]
  show thesis
  proof (rule that [OF c(1)])
    show "linked_path (map_of (ix_receipt_by_sha ix)) current path" using p(1) ix by simp
    show "distinct path" by (rule p(2))
    show "length path = length (the (gn_receipts row))" using p(3) c(2,3) by simp
    show "\<forall>x\<in>set path. \<exists>e element. map_of (ix_receipt_by_sha ix) x = Some e \<and> receipt_true e x (element, scope)"
      unfolding ix using p(4) by blast
    show "\<forall>el\<in>set els. \<exists>p x element. map_of (gs_physical_by_element st) el = Some p \<and> receipt_true p x (element, scope) \<and> x \<in> set path"
      using p(5) by blast
  qed
qed

section \<open>Two graphs with one head\<close>

definition index_preimages :: "receipt_chain_index \<Rightarrow> byte list list" where
  "index_preimages ix = concat (map (\<lambda>(_, e). receipt_preimages e) (ix_receipt_by_sha ix))"

definition index_values_ok :: "receipt_chain_index \<Rightarrow> bool" where
  "index_values_ok ix \<longleftrightarrow> list_all (\<lambda>(_, e). entries_ok e) (ix_receipt_by_sha ix)"

lemma field_link_norm: "field_link (value_norm v) = field_link v"
proof (cases v)
  case (FJson j)
  then show ?thesis by (cases j) (simp_all add: field_link_def)
qed (simp add: field_link_def)

lemma norm_text: "value_norm v = FText s \<longleftrightarrow> v = FText s"
  by (cases v) (simp_all add: canonical_text)

lemma same_sealed_scope:
  assumes "same_sealed x e f" and "receipt_true e x (el, scope)" and "receipt_true f x (el', scope')"
  shows "scope = scope'"
proof -
  have "value_norm (get_field e ''tree'') = value_norm (get_field f ''tree'')" "value_norm (get_field e ''tag'') = value_norm (get_field f ''tag'')"
    using same_sealed_common [OF assms(1)] by blast+
  with assms(2,3) show ?thesis by (simp add: receipt_true_def prod_eq_iff)
qed

lemma paths_agree:
  assumes "linked_path look cur p" and "linked_path look' cur p'"
    and "\<And>x e f. x \<in> set p \<Longrightarrow> x \<in> set p' \<Longrightarrow> look x = Some e \<Longrightarrow> look' x = Some f \<Longrightarrow>
      field_link (get_field e ''prev_receipt_sha'') = field_link (get_field f ''prev_receipt_sha'')"
  shows "p = p'"
  using assms
proof (induction p arbitrary: cur p')
  case Nil
  then have "cur = None" by (cases cur) auto
  with Nil(2) show ?case by (cases p') auto
next
  case (Cons x xs)
  then have c: "cur = Some x" by (cases cur) auto
  with Cons.prems(1) obtain e where e: "look x = Some e" "linked_path look (field_link (get_field e ''prev_receipt_sha'')) xs"
    by (auto split: option.splits)
  from c Cons.prems(2) obtain f ys where f: "p' = x # ys" "look' x = Some f"
    "linked_path look' (field_link (get_field f ''prev_receipt_sha'')) ys"
    by (cases p') (auto split: option.splits)
  from Cons.prems(3) [of x e f] e f have "field_link (get_field f ''prev_receipt_sha'') = field_link (get_field e ''prev_receipt_sha'')" by simp
  with f(3) have "linked_path look' (field_link (get_field e ''prev_receipt_sha'')) ys" by simp
  from Cons.IH [OF e(2) this] Cons.prems(3) f(1) have "xs = ys" by auto
  with f(1) show ?case by simp
qed

lemma index_receipts:
  assumes "index_values_ok ix" and "map_of (ix_receipt_by_sha ix) x = Some e"
  shows "entries_ok e" and "set (receipt_preimages e) \<subseteq> set (index_preimages ix)"
proof -
  have m: "(x, e) \<in> set (ix_receipt_by_sha ix)" using assms(2) by (rule map_of_SomeD)
  with assms(1) show "entries_ok e" by (auto simp: index_values_ok_def list_all_iff)
  from m show "set (receipt_preimages e) \<subseteq> set (index_preimages ix)" by (auto simp: index_preimages_def)
qed

text \<open>The path of a scope, from the index.\<close>

lemma scope_path:
  assumes "validate_receipt_graph rows ids = Inr ix" and "map_of (ix_ordered_ancestry_by_scope ix) scope = Some chain"
  obtains current row where "row \<in> set rows" "map_of (ix_current_by_scope ix) scope = Some current"
    "linked_path (map_of (ix_receipt_by_sha ix)) current (rev chain)" "distinct chain"
    "\<forall>x\<in>set chain. \<exists>e element. map_of (ix_receipt_by_sha ix) x = Some e \<and> receipt_true e x (element, scope)"
proof -
  from validated [OF assms(1)] obtain st nl where st: "admit_identities ids = Inr st" and nl: "nodes_ok st rows nl" and ix: "ix = nl_index nl" by blast
  then have r: "ix_receipt_by_sha ix = gs_receipt_by_sha st" by (simp add: nodes_ok_def)
  have "fst ` set (ix_ordered_ancestry_by_scope ix) = nl_seen_scopes nl" using nl unfolding nodes_ok_def index_keys_def ix by blast
  with assms(2) have "scope \<in> nl_seen_scopes nl" by (force dest: map_of_SomeD)
  with nl obtain row els path where row: "row \<in> set rows" and rec: "recorded st row scope els path ix"
    unfolding nodes_ok_def ix by blast
  then have c: "chain = rev path" and "\<exists>cur. map_of (ix_current_by_scope ix) scope = Some cur \<and> gn_current_receipt_sha row = pointer_json cur"
    using assms(2) unfolding recorded_def by auto
  then obtain cur where cur: "map_of (ix_current_by_scope ix) scope = Some cur" "gn_current_receipt_sha row = pointer_json cur" by blast
  obtain cur' where p: "gn_current_receipt_sha row = pointer_json cur'" "linked_path (map_of (ix_receipt_by_sha ix)) cur' path"
    "distinct path" "\<forall>x\<in>set path. \<exists>e element. map_of (ix_receipt_by_sha ix) x = Some e \<and> receipt_true e x (element, scope)"
    by (rule recorded_path [OF st rec r])
  from cur(2) p(1) have "cur' = cur" by (auto simp: pointer_json_def split: option.splits)
  with p c row cur that show thesis by simp
qed

lemma one_head_one_history:
  assumes "validate_receipt_graph rows ids = Inr ix" and "validate_receipt_graph rows' ids' = Inr ix'"
    and "index_values_ok ix" and "index_values_ok ix'" and nc: "\<not> collision (index_preimages ix) (index_preimages ix')"
    and "map_of (ix_ordered_ancestry_by_scope ix) scope = Some chain" and "map_of (ix_ordered_ancestry_by_scope ix') scope' = Some chain'"
    and "map_of (ix_current_by_scope ix) scope = Some (Some h)" and "map_of (ix_current_by_scope ix') scope' = Some (Some h)"
  shows "scope = scope' \<and> chain = chain' \<and> (\<forall>x\<in>set chain. \<exists>e f. map_of (ix_receipt_by_sha ix) x = Some e \<and>
    map_of (ix_receipt_by_sha ix') x = Some f \<and> same_sealed x e f)"
proof -
  from scope_path [OF assms(1,6)] assms(8) obtain
    a: "linked_path (map_of (ix_receipt_by_sha ix)) (Some h) (rev chain)"
      "\<forall>x\<in>set chain. \<exists>e element. map_of (ix_receipt_by_sha ix) x = Some e \<and> receipt_true e x (element, scope)" by auto
  from scope_path [OF assms(2,7)] assms(9) obtain
    b: "linked_path (map_of (ix_receipt_by_sha ix')) (Some h) (rev chain')"
      "\<forall>x\<in>set chain'. \<exists>e element. map_of (ix_receipt_by_sha ix') x = Some e \<and> receipt_true e x (element, scope')" by auto
  have same: "same_sealed x e f" if "x \<in> set chain" "x \<in> set chain'" "map_of (ix_receipt_by_sha ix) x = Some e" "map_of (ix_receipt_by_sha ix') x = Some f" for x e f
  proof -
    have "match_receipt_encoding e x \<noteq> None" "match_receipt_encoding f x \<noteq> None"
      using a(2) b(2) that by (auto simp: receipt_true_def)
    with matched_same index_receipts(1) [OF assms(3) that(3)] index_receipts(1) [OF assms(4) that(4)]
    have "same_sealed x e f \<or> collision (receipt_preimages e) (receipt_preimages f)" by blast
    with collision_mono index_receipts(2) [OF assms(3) that(3)] index_receipts(2) [OF assms(4) that(4)] nc show ?thesis by blast
  qed
  have "rev chain = rev chain'"
  proof (rule paths_agree [OF a(1) b(1)])
    fix x e f assume "x \<in> set (rev chain)" "x \<in> set (rev chain')" "map_of (ix_receipt_by_sha ix) x = Some e" "map_of (ix_receipt_by_sha ix') x = Some f"
    then have "same_sealed x e f" by (intro same) simp_all
    then have "value_norm (get_field e ''prev_receipt_sha'') = value_norm (get_field f ''prev_receipt_sha'')"
      by (rule same_sealed_common) simp
    then show "field_link (get_field e ''prev_receipt_sha'') = field_link (get_field f ''prev_receipt_sha'')"
      using field_link_norm [of "get_field e ''prev_receipt_sha''"] field_link_norm [of "get_field f ''prev_receipt_sha''"] by simp
  qed
  then have c: "chain = chain'" by simp
  have all: "\<exists>e f. map_of (ix_receipt_by_sha ix) x = Some e \<and> map_of (ix_receipt_by_sha ix') x = Some f \<and> same_sealed x e f"
    if x: "x \<in> set chain" for x
  proof -
    obtain e where e: "map_of (ix_receipt_by_sha ix) x = Some e" using a(2) x by blast
    obtain f where f: "map_of (ix_receipt_by_sha ix') x = Some f" using b(2) x c by blast
    with e same [OF x _ e f] x c show ?thesis by simp
  qed
  have "rev chain \<noteq> []" "h = hd (rev chain)" using linked_path_head [OF a(1)] by (simp_all split: if_splits)
  then have h: "h \<in> set chain" using hd_in_set [of "rev chain"] by simp
  obtain e f where ef: "map_of (ix_receipt_by_sha ix) h = Some e" "map_of (ix_receipt_by_sha ix') h = Some f" "same_sealed h e f"
    using all [OF h] by blast
  obtain el where t: "receipt_true e h (el, scope)" using a(2) h ef(1) by fastforce
  obtain el' where t': "receipt_true f h (el', scope')" using b(2) h c ef(2) by fastforce
  from same_sealed_scope [OF ef(3) t t'] c all show ?thesis by blast
qed

end
