(* ===== verification/Ledger_Properties.thy ===== *)
theory Ledger_Properties
  imports Receipt_Graph_Facts
begin

text \<open>The properties of verdict receipts and of the receipt graph.\<close>

section \<open>A sample ledger\<close>

definition sample_content :: field_map where
  "sample_content = [(''tree'', FText ''t''), (''tag'', FText ''a''), (''verdict'', FText ''rejected''), (''verdict_source'', FText ''engine'')]"

definition sample_receipt :: "string \<Rightarrow> field_map" where
  "sample_receipt sha = sample_content @ [(''receipt_sha'', FText sha)]"

definition sample_head :: string where
  "sample_head = receipt_content_sha sample_content None"

lemma sample_fields:
  "get_field (sample_receipt s) ''tree'' = FText ''t''" "get_field (sample_receipt s) ''tag'' = FText ''a''"
  "get_field (sample_receipt s) ''receipt_sha'' = FText s" "get_field (sample_receipt s) ''prev_receipt_sha'' = FNone"
  "get_field (sample_receipt s) ''receipt_kind'' = FNone"
  by (simp_all add: sample_receipt_def sample_content_def get_field_def)

lemma sample_ok: "entries_ok (sample_receipt s)"
  by (simp add: entries_ok_def sample_receipt_def sample_content_def)

lemma get_field_snoc: "k \<noteq> k' \<Longrightarrow> get_field (e @ [(k', v)]) k = get_field e k"
  by (simp add: get_field_def map_add_def split: option.splits)

lemma sample_match: "match_receipt_encoding (sample_receipt s) sample_head = Some ''current''"
proof -
  have new: "''receipt_sha'' \<notin> set RECEIPT_FIELDS_V7" by (simp add: generation_lists)
  have "receipt_content_sha (sample_receipt s) None = sample_head"
    unfolding sample_head_def sample_receipt_def
  proof (intro receipt_content_cong ballI get_field_snoc)
    show "k \<noteq> ''receipt_sha''" if "k \<in> set RECEIPT_FIELDS_V7" for k
    proof
      assume "k = ''receipt_sha''"
      with that have "''receipt_sha'' \<in> set RECEIPT_FIELDS_V7" by (simp only:)
      with new show False by (rule notE)
    qed
  qed
  then show ?thesis by (simp add: match_receipt_encoding_def is_prediction_receipt_def sample_fields)
qed

lemma sample_head_sha: "sha_text sample_head"
proof -
  have "\<forall>c\<in>set (sha256_hex b). c \<in> set ''0123456789abcdef''" for b using sha256_hex_chars by blast
  then show ?thesis
    unfolding sha_text_def sample_head_def receipt_content_sha_def list_all_iff by (simp only: length_sha256_hex simp_thms)
qed

definition sample_owner :: receipt_owner where
  "sample_owner = \<lparr>ow_node_element_id = JStr ''n1'', ow_tree = JStr ''t'', ow_tag = JStr ''a''\<rparr>"

definition sample_identity :: identity_row where
  "sample_identity = \<lparr>ir_receipt_element_id = JStr ''r1'', ir_receipt_sha = JStr sample_head,
     ir_receipt = Some (sample_receipt sample_head), ir_all_bindings = JInt 1, ir_owners = Some [Some sample_owner]\<rparr>"

definition sample_node :: graph_node where
  "sample_node = \<lparr>gn_node_element_id = JStr ''n1'', gn_tree = JStr ''t'', gn_tag = JStr ''a'', gn_tree_incarnation_id = JNull,
     gn_current_receipt_sha = JStr sample_head, gn_pred_receipt_sha = JNull,
     gn_receipts = Some [Some \<lparr>bd_receipt_element_id = JStr ''r1'', bd_receipt = Some (sample_receipt sample_head)\<rparr>]\<rparr>"

definition sample_graph_state :: graph_state where
  "sample_graph_state = \<lparr>gs_physical_by_element = [(''r1'', sample_receipt sample_head)],
     gs_owner_by_element = [(''r1'', (''n1'', ''t'', ''a''))], gs_sha_to_elements = [(sample_head, {''r1''})],
     gs_receipt_by_sha = [(sample_head, sample_receipt sample_head)]\<rparr>"

lemma sample_identities: "admit_identities [sample_identity] = Inr sample_graph_state"
  using sample_head_sha
  by (simp add: admit_identities_def admit_identity_def sample_identity_def sample_owner_def initial_graph_state_def
      record_receipt_def nonempty_text_def sha_value_def sample_fields sample_match sample_graph_state_def)

lemma sample_chain: "node_chain [sample_receipt sample_head] (Some sample_head) None = Inr [sample_head]"
  using sha_text_nonempty [OF sample_head_sha]
  by (simp add: node_chain_def by_receipt_sha_def chain_receipt_def sample_fields fold_receipt_chain_def)

lemma sample_self_eq: "entries_eq (sample_receipt s) (sample_receipt s)"
  by (simp add: entries_eq_def sample_receipt_def sample_content_def get_field_def)

definition sample_index :: receipt_chain_index where
  "sample_index = \<lparr>ix_ancestors_by_scope = [((''t'', ''a''), {sample_head})],
     ix_ordered_ancestry_by_scope = [((''t'', ''a''), [sample_head])], ix_current_by_scope = [((''t'', ''a''), Some sample_head)],
     ix_prediction_by_scope = [((''t'', ''a''), None)], ix_graph_sha256_by_scope = [((''t'', ''a''), None)],
     ix_tree_incarnation_by_scope = [((''t'', ''a''), None)], ix_receipt_by_sha = [(sample_head, sample_receipt sample_head)]\<rparr>"

lemma sample_graph: "validate_receipt_graph [sample_node] [sample_identity] = Inr sample_index"
proof -
  have b: "fold_result (bind_receipt sample_graph_state (''n1'', ''t'', ''a'')) ({}, [])
      [Some \<lparr>bd_receipt_element_id = JStr ''r1'', bd_receipt = Some (sample_receipt sample_head)\<rparr>] =
      Inr ({''r1''}, [sample_receipt sample_head])"
    by (simp add: bind_receipt_def text_value_def sample_graph_state_def sample_self_eq)
  have p: "pointer (JStr sample_head) m = Inr (Some sample_head)" "pointer JNull m = Inr None" for m
    using sample_head_sha by (simp_all add: pointer_Inr)
  have n: "nonempty_text (JStr ''n1'') = Some ''n1''" "nonempty_text (JStr ''t'') = Some ''t''" "nonempty_text (JStr ''a'') = Some ''a''"
    "nonempty_text JNull = None" by (simp_all add: nonempty_text_def)
  have g: "gs_receipt_by_sha sample_graph_state = [(sample_head, sample_receipt sample_head)]" by (simp add: sample_graph_state_def)
  have "admit_node sample_graph_state (initial_node_loop sample_graph_state) sample_node =
    Inr \<lparr>nl_seen_nodes = {''n1''}, nl_seen_scopes = {(''t'', ''a'')}, nl_seen_receipt_elements = {''r1''}, nl_index = sample_index\<rparr>"
    unfolding admit_node_def sample_node_def initial_node_loop_def
    by (simp add: n b p g sample_chain graph_seal_def sample_index_def Let_def del: fold_result.simps)
  then show ?thesis
    by (simp add: validate_receipt_graph_def sample_identities) (simp add: sample_graph_state_def)
qed

section \<open>What a hash commits to\<close>

text \<open>C27: A receipt is tamper-evident. If two contents rederive one stored hash, by whatever encodings,
  they are of the same kind and encoding and agree on every field the encoding seals, the link to the
  previous receipt among them, or the bytes that were hashed exhibit a collision of SHA-256.\<close>

theorem receipt_is_tamper_evident:
  assumes "entries_ok f" and "entries_ok g"
    and "match_receipt_encoding f sha = Some label" and "match_receipt_encoding g sha = Some label'"
  shows "label = label' \<and> is_prediction_receipt f = is_prediction_receipt g \<and>
      (\<forall>k. value_norm (get_field (matched_payload f label) k) = value_norm (get_field (matched_payload g label) k)) \<and>
      (\<forall>k\<in>{''tree'', ''tag'', ''prev_receipt_sha''}. value_norm (get_field f k) = value_norm (get_field g k)) \<or>
    collision (receipt_preimages f) (receipt_preimages g)"
proof -
  from matched_same [OF assms(1,2)] assms(3,4)
  have "same_sealed sha f g \<or> collision (receipt_preimages f) (receipt_preimages g)" by simp
  then show ?thesis
  proof
    assume s: "same_sealed sha f g"
    note c = same_sealed_common [OF s]
    from s assms(3,4) c show ?thesis unfolding same_sealed_def by auto
  qed blast
qed

theorem receipt_is_tamper_evident_witness:
  "collision (receipt_preimages (sample_receipt ''x'')) (receipt_preimages (sample_receipt ''y'')) \<or>
   value_norm (get_field (sample_receipt ''x'') ''tag'') = FText ''a''"
  using receipt_is_tamper_evident [OF sample_ok sample_ok sample_match sample_match, of "''x''" "''y''"] by (auto simp: sample_fields)

section \<open>What an accepted graph is\<close>

text \<open>C28: In an accepted graph the receipts of a node are one chain. The ancestry the index gives for the
  node starts at a genesis receipt and ends at the node's head; it has no repetition and exactly as many
  members as the node has bound receipts; each member is a stored receipt whose content rederives its
  hash, which names the node's tree and tag, and which links to the member before it.\<close>

theorem valid_graph_is_one_chain_per_node:
  assumes "validate_receipt_graph rows ids = Inr ix" and "row \<in> set rows"
  shows "\<exists>tree tag chain. gn_tree row = JStr tree \<and> gn_tag row = JStr tag \<and>
    map_of (ix_ordered_ancestry_by_scope ix) (tree, tag) = Some chain \<and> distinct chain \<and>
    gn_current_receipt_sha row = (if chain = [] then JNull else JStr (last chain)) \<and>
    length (the (gn_receipts row)) = length chain \<and>
    (\<forall>i<length chain. \<exists>e. map_of (ix_receipt_by_sha ix) (chain ! i) = Some e \<and>
       match_receipt_encoding e (chain ! i) \<noteq> None \<and> get_field e ''tree'' = FText tree \<and> get_field e ''tag'' = FText tag \<and>
       get_field e ''prev_receipt_sha'' = (if i = 0 then FNone else FText (chain ! (i - 1))))"
proof -
  from validated [OF assms(1)] obtain st nl where st: "admit_identities ids = Inr st" and nl: "nodes_ok st rows nl" and ix: "ix = nl_index nl" by blast
  then have r: "ix_receipt_by_sha ix = gs_receipt_by_sha st" by (simp add: nodes_ok_def)
  from nl assms(2) obtain scope els path where rec: "recorded st row scope els path ix" unfolding nodes_ok_def ix by blast
  obtain cur where p: "gn_current_receipt_sha row = pointer_json cur" "linked_path (map_of (ix_receipt_by_sha ix)) cur path"
    "distinct path" "length path = length (the (gn_receipts row))"
    "\<forall>x\<in>set path. \<exists>e element. map_of (ix_receipt_by_sha ix) x = Some e \<and> receipt_true e x (element, scope)"
    by (rule recorded_path [OF st rec r])
  have head: "gn_current_receipt_sha row = (if rev path = [] then JNull else JStr (last (rev path)))"
    using linked_path_head [OF p(2)] p(1) by (simp add: pointer_json_def last_rev)
  have each: "\<exists>e. map_of (ix_receipt_by_sha ix) (rev path ! i) = Some e \<and>
       match_receipt_encoding e (rev path ! i) \<noteq> None \<and> get_field e ''tree'' = FText (fst scope) \<and> get_field e ''tag'' = FText (snd scope) \<and>
       get_field e ''prev_receipt_sha'' = (if i = 0 then FNone else FText (rev path ! (i - 1)))" if i: "i < length (rev path)" for i
  proof -
    let ?j = "length path - Suc i"
    have j: "?j < length path" "rev path ! i = path ! ?j" using i by (simp_all add: rev_nth)
    obtain e where e: "map_of (ix_receipt_by_sha ix) (path ! ?j) = Some e"
      "field_link (get_field e ''prev_receipt_sha'') = (if Suc ?j < length path then Some (path ! Suc ?j) else None)"
      using linked_path_nth [OF p(2) j(1)] by blast
    have "path ! ?j \<in> set path" using j(1) by (rule nth_mem)
    with p(5) e(1) obtain el where t: "receipt_true e (path ! ?j) (el, scope)" by (metis option.inject)
    have "get_field e ''prev_receipt_sha'' = (if i = 0 then FNone else FText (rev path ! (i - 1)))"
    proof (cases "i = 0")
      case True
      with e(2) i show ?thesis by (simp add: field_link_None)
    next
      case False
      then have k: "Suc ?j < length path" "rev path ! (i - 1) = path ! Suc ?j" using i by (simp_all add: rev_nth Suc_diff_Suc)
      obtain e' el' where "receipt_true e' (path ! Suc ?j) (el', scope)" using p(5) k(1) by (meson nth_mem)
      then have "path ! Suc ?j \<noteq> []" using sha_text_nonempty by (auto simp: receipt_true_def)
      with e(2) k False field_link_text show ?thesis by simp
    qed
    with t e(1) j(2) show ?thesis by (auto simp: receipt_true_def)
  qed
  have "gn_tree row = JStr (fst scope)" "gn_tag row = JStr (snd scope)" "map_of (ix_ordered_ancestry_by_scope ix) scope = Some (rev path)"
    using rec unfolding recorded_def by blast+
  with head each p(3,4) show ?thesis by (intro exI [of _ "fst scope"] exI [of _ "snd scope"] exI [of _ "rev path"]) simp
qed

theorem valid_graph_is_one_chain_per_node_witness:
  "\<exists>chain. map_of (ix_ordered_ancestry_by_scope sample_index) (''t'', ''a'') = Some chain \<and> length chain = 1 \<and> last chain = sample_head"
  using valid_graph_is_one_chain_per_node [OF sample_graph, of sample_node] by (auto simp: sample_node_def split: if_splits)

text \<open>No receipt of an accepted graph is outside the chains. Every stored hash of the index is in the
  ancestry of exactly one tree and tag.\<close>

theorem every_receipt_is_in_one_chain:
  assumes "validate_receipt_graph rows ids = Inr ix" and "map_of (ix_receipt_by_sha ix) sha = Some e"
  shows "\<exists>!scope. \<exists>chain. map_of (ix_ordered_ancestry_by_scope ix) scope = Some chain \<and> sha \<in> set chain"
proof -
  from validated [OF assms(1)] obtain st nl where st: "admit_identities ids = Inr st" and nl: "nodes_ok st rows nl" and ix: "ix = nl_index nl"
    and all: "nl_seen_receipt_elements nl = fst ` set (gs_physical_by_element st)" by blast
  then have r: "ix_receipt_by_sha ix = gs_receipt_by_sha st" by (simp add: nodes_ok_def)
  have one: "get_field e ''tree'' = FText (fst scope) \<and> get_field e ''tag'' = FText (snd scope)"
    if c: "map_of (ix_ordered_ancestry_by_scope ix) scope = Some chain" "sha \<in> set chain" for scope chain
  proof -
    have "\<forall>x\<in>set chain. \<exists>e element. map_of (ix_receipt_by_sha ix) x = Some e \<and> receipt_true e x (element, scope)"
      by (rule scope_path [OF assms(1) c(1)]) blast
    with c(2) assms(2) show ?thesis by (fastforce simp: receipt_true_def)
  qed
  from admit_identities_ok(1) [OF st] assms(2) obtain el where el: "map_of (gs_physical_by_element st) el = Some e"
    "get_field e ''receipt_sha'' = FText sha" unfolding r physical_ok_def by blast
  then have "el \<in> nl_seen_receipt_elements nl" unfolding all by (force dest: map_of_SomeD)
  with nl obtain row scope els path where rec: "recorded st row scope els path ix" "el \<in> set els"
    unfolding nodes_ok_def ix by blast
  have "\<forall>el\<in>set els. \<exists>p x element. map_of (gs_physical_by_element st) el = Some p \<and> receipt_true p x (element, scope) \<and> x \<in> set path"
    by (rule recorded_path [OF st rec(1) r]) blast
  with rec(2) el have "sha \<in> set path" by (force simp: receipt_true_def)
  moreover have "map_of (ix_ordered_ancestry_by_scope ix) scope = Some (rev path)" using rec(1) unfolding recorded_def by blast
  ultimately have here: "\<exists>chain. map_of (ix_ordered_ancestry_by_scope ix) scope = Some chain \<and> sha \<in> set chain" by auto
  show ?thesis
  proof (rule ex1I [of _ scope])
    show "\<exists>chain. map_of (ix_ordered_ancestry_by_scope ix) scope = Some chain \<and> sha \<in> set chain" by (rule here)
    fix scope' assume "\<exists>chain. map_of (ix_ordered_ancestry_by_scope ix) scope' = Some chain \<and> sha \<in> set chain"
    then obtain chain where "map_of (ix_ordered_ancestry_by_scope ix) scope' = Some chain" "sha \<in> set chain" by blast
    note a = one [OF this]
    from here obtain chain where "map_of (ix_ordered_ancestry_by_scope ix) scope = Some chain" "sha \<in> set chain" by blast
    from one [OF this] a show "scope' = scope" by (simp add: prod_eq_iff)
  qed
qed

theorem every_receipt_is_in_one_chain_witness:
  "\<exists>!scope. \<exists>chain. map_of (ix_ordered_ancestry_by_scope sample_index) scope = Some chain \<and> sample_head \<in> set chain"
  by (rule every_receipt_is_in_one_chain [OF sample_graph]) (simp add: sample_index_def)

text \<open>C29: A head determines its history. If two accepted graphs, of whatever stores, give one head to a
  node each, the nodes are of the same tree and tag, their ancestries are the same hashes in the same
  order, and every receipt of them seals the same content, or the receipts of the two graphs exhibit a
  collision of SHA-256.\<close>

theorem head_determines_history:
  assumes "validate_receipt_graph rows ids = Inr ix" and "validate_receipt_graph rows' ids' = Inr ix'"
    and "index_values_ok ix" and "index_values_ok ix'"
    and "map_of (ix_ordered_ancestry_by_scope ix) scope = Some chain" and "map_of (ix_ordered_ancestry_by_scope ix') scope' = Some chain'"
    and "map_of (ix_current_by_scope ix) scope = Some (Some h)" and "map_of (ix_current_by_scope ix') scope' = Some (Some h)"
  shows "scope = scope' \<and> chain = chain' \<and>
      (\<forall>x\<in>set chain. \<exists>e f. map_of (ix_receipt_by_sha ix) x = Some e \<and> map_of (ix_receipt_by_sha ix') x = Some f \<and> same_sealed x e f) \<or>
    collision (index_preimages ix) (index_preimages ix')"
  using one_head_one_history [OF assms(1-4) _ assms(5-8)] by blast

theorem head_determines_history_witness:
  "(\<exists>e f. map_of (ix_receipt_by_sha sample_index) sample_head = Some e \<and> map_of (ix_receipt_by_sha sample_index) sample_head = Some f \<and>
     same_sealed sample_head e f) \<or> collision (index_preimages sample_index) (index_preimages sample_index)"
proof -
  have "index_values_ok sample_index" by (simp add: index_values_ok_def sample_index_def sample_ok)
  from head_determines_history [OF sample_graph sample_graph this this, of "(''t'', ''a'')" "[sample_head]" "(''t'', ''a'')" "[sample_head]" sample_head]
  show ?thesis by (simp add: sample_index_def)
qed

section \<open>A limit of the code\<close>

text \<open>The fold of a chain whose head is a prediction receipt returns the verdict written there, although
  the receipt seals none: any verdict can be written without the hash noticing.\<close>

lemma unsealed_verdict_is_folded:
  assumes "is_prediction_receipt e" and "match_receipt_encoding e sha = Some ''current''" and "sha \<noteq> []"
    and "get_field e ''receipt_sha'' = FText sha" and "get_field e ''prev_receipt_sha'' = FNone"
  shows "match_receipt_encoding (AList.update ''verdict'' (FText v) e) sha = Some ''current'' \<and>
    (\<exists>r. fold_receipt_chain [chain_receipt (AList.update ''verdict'' (FText v) e)] (Some sha) cv cs = Inr r \<and>
       fd_verdict r = Some v \<and> fd_from_receipt r)"
  using assms by (simp add: prediction_verdict_is_not_sealed fold_receipt_chain_def by_receipt_sha_def chain_receipt_def get_field_update)

end
