(* ===== verification/Stale_Canonical.thy ===== *)
theory Stale_Canonical
  imports Receipt_Graph Node_State Resource_Checks "HOL-Library.Sublist"
begin

text \<open>
  \<^verbatim>\<open>lakatos/stale_canonical.py\<close>: the pure planning of a sweep that demotes the CANONICAL heads
  whose sealed engine rule is no longer in the floor, and the service operation that runs it
  (\<^verbatim>\<open>demote_stale_canonical\<close> of \<^verbatim>\<open>judgement_service.py\<close>). The decider and the planner are
  supplied from outside; whatever they propose is checked against what was observed. The store, the
  clock and the policies are arguments of the operation.
\<close>

section \<open>Validators\<close>

definition SWEEP_SCHEMA_VERSION :: string where
  "SWEEP_SCHEMA_VERSION = ''lakatotree.stale-canonical-sweep-plan/v1''"

definition FORMER_CANONICAL_VERDICT :: string where
  "FORMER_CANONICAL_VERDICT = ''former_canonical''"

definition ENGINE_VERDICT_SOURCE :: string where
  "ENGINE_VERDICT_SOURCE = ''engine''"

definition require_non_empty_text :: "string \<Rightarrow> string \<Rightarrow> lk_error + unit" where
  "require_non_empty_text v name = raise_if (v = []) (ValueError (name @ '' must be a non-empty string''))"

definition require_lowercase_sha256 :: "string \<Rightarrow> string \<Rightarrow> lk_error + unit" where
  "require_lowercase_sha256 v name = raise_if (\<not> sha_text v) (ValueError (name @ '' must be a lowercase SHA-256''))"

text \<open>The groups of the pattern: year, month, day, hour, minute, second, and the offset of a zone that has one.\<close>

definition digits_of :: "string \<Rightarrow> nat \<Rightarrow> nat \<Rightarrow> string" where
  "digits_of s k n = take n (drop k s)"

definition rfc3339_shape :: "string \<Rightarrow> bool" where
  "rfc3339_shape s \<longleftrightarrow> 19 \<le> length s \<and>
     list_all is_digit (digits_of s 0 4) \<and> s ! 4 = CHR ''-'' \<and> list_all is_digit (digits_of s 5 2) \<and> s ! 7 = CHR ''-'' \<and>
     list_all is_digit (digits_of s 8 2) \<and> s ! 10 = CHR ''T'' \<and> list_all is_digit (digits_of s 11 2) \<and> s ! 13 = CHR '':'' \<and>
     list_all is_digit (digits_of s 14 2) \<and> s ! 16 = CHR '':'' \<and> list_all is_digit (digits_of s 17 2)"

definition after_fraction :: "string \<Rightarrow> string option" where
  "after_fraction s =
     (case s of
        c # t \<Rightarrow> if c = CHR ''.'' then (if takeWhile is_digit t = [] then None else Some (dropWhile is_digit t)) else Some s
      | [] \<Rightarrow> Some s)"

definition zone_offset :: "string \<Rightarrow> (nat \<times> nat) option option" where
  "zone_offset z =
     (if z = ''Z'' then Some None
      else if length z = 6 \<and> z ! 0 \<in> {CHR ''+'', CHR ''-''} \<and> list_all is_digit (digits_of z 1 2) \<and> z ! 3 = CHR '':'' \<and>
        list_all is_digit (digits_of z 4 2)
      then Some (Some (read_nat (digits_of z 1 2), read_nat (digits_of z 4 2)))
      else None)"

definition rfc3339_valid :: "string \<Rightarrow> (nat \<times> nat) option \<Rightarrow> bool" where
  "rfc3339_valid s offset =
     (let year = read_nat (digits_of s 0 4); month = read_nat (digits_of s 5 2); day = read_nat (digits_of s 8 2);
          hour = read_nat (digits_of s 11 2); minute = read_nat (digits_of s 14 2); second = read_nat (digits_of s 17 2);
          leap_year = (year mod 4 = 0 \<and> (year mod 100 \<noteq> 0 \<or> year mod 400 = 0));
          days_in_month = [31, if leap_year then 29 else 28, 31, 30, 31, 30, 31, 31, 30, 31, 30, 31] in
      1 \<le> year \<and> 1 \<le> month \<and> month \<le> 12 \<and> 1 \<le> day \<and> day \<le> days_in_month ! (month - 1) \<and>
      hour \<le> 23 \<and> minute \<le> 59 \<and> second \<le> 59 \<and>
      (case offset of None \<Rightarrow> True | Some (h, m) \<Rightarrow> h \<le> 23 \<and> m \<le> 59))"

definition require_rfc3339 :: "string \<Rightarrow> string \<Rightarrow> lk_error + unit" where
  "require_rfc3339 v name =
     (case (if rfc3339_shape v then (case after_fraction (drop 19 v) of None \<Rightarrow> None | Some z \<Rightarrow> zone_offset z) else None) of
        None \<Rightarrow> Inl (ValueError (name @ '' must be an RFC3339 timestamp''))
      | Some offset \<Rightarrow> raise_if (\<not> rfc3339_valid v offset) (ValueError (name @ '' must be an RFC3339 timestamp'')))"

text \<open>The cursor into \<^verbatim>\<open>whole\<close> is what is left of it.\<close>

fun is_ordered_subset :: "'a list \<Rightarrow> 'a list \<Rightarrow> bool" where
  "is_ordered_subset [] whole = True"
| "is_ordered_subset (item # items) whole =
     (case dropWhile (\<lambda>x. x \<noteq> item) whole of [] \<Rightarrow> False | _ # rest \<Rightarrow> is_ordered_subset items rest)"

section \<open>Snapshots and decisions\<close>

record head_snapshot =
  hs_tag :: string
  hs_previous_receipt_sha :: "string option"
  hs_sealed_engine_rule_sha :: "string option"
  hs_valid_until_rebutted :: bool

definition post_init_head :: "head_snapshot \<Rightarrow> lk_error + head_snapshot" where
  "post_init_head h = ebind (require_non_empty_text (hs_tag h) ''tag'') (\<lambda>_. Inr h)"

record sweep_decision =
  sd_schema_version :: string
  sd_tree :: string
  sd_dry_run :: bool
  sd_floor_size :: int
  sd_canonical_total :: int
  sd_candidates :: "head_snapshot list"
  sd_skipped_locked :: "string list"

definition post_init_sweep_decision :: "sweep_decision \<Rightarrow> lk_error + sweep_decision" where
  "post_init_sweep_decision d = ebind (run_checks
     [raise_if (sd_schema_version d \<noteq> SWEEP_SCHEMA_VERSION) (ValueError (''unsupported stale sweep schema: '' @ sd_schema_version d)),
      raise_if (sd_floor_size d < 0) (ValueError ''floor_size must be a non-negative integer''),
      raise_if (sd_canonical_total d < 0) (ValueError ''canonical_total must be a non-negative integer''),
      raise_if (sd_canonical_total d < int (length (sd_candidates d)) + int (length (sd_skipped_locked d)))
        (ValueError ''stale partition exceeds canonical_total''),
      raise_if (list_ex (\<lambda>t. t = []) (sd_skipped_locked d)) (ValueError ''skipped_locked must contain non-empty strings'')])
     (\<lambda>_. Inr d)"

definition is_stale :: "string list \<Rightarrow> head_snapshot \<Rightarrow> bool" where
  "is_stale effective_floor h \<longleftrightarrow> hs_sealed_engine_rule_sha h \<notin> Some ` set effective_floor"

definition decide_stale_canonical_sweep :: "string \<Rightarrow> head_snapshot list \<Rightarrow> string list \<Rightarrow> bool \<Rightarrow> lk_error + sweep_decision" where
  "decide_stale_canonical_sweep tree heads effective_floor dry_run =
     (let stale = filter (is_stale effective_floor) heads in
      post_init_sweep_decision
        \<lparr>sd_schema_version = SWEEP_SCHEMA_VERSION, sd_tree = tree, sd_dry_run = dry_run,
         sd_floor_size = int (length effective_floor), sd_canonical_total = int (length heads),
         sd_candidates = filter hs_valid_until_rebutted stale,
         sd_skipped_locked = map hs_tag (filter (\<lambda>h. \<not> hs_valid_until_rebutted h) stale)\<rparr>)"

definition validate_stale_canonical_sweep_decision :: "sweep_decision \<Rightarrow> string \<Rightarrow> head_snapshot list \<Rightarrow> string list \<Rightarrow> bool \<Rightarrow>
    lk_error + sweep_decision" where
  "validate_stale_canonical_sweep_decision proposed tree heads effective_floor dry_run =
     ebind (decide_stale_canonical_sweep tree heads effective_floor dry_run) (\<lambda>expected.
     ebind (raise_if
       (\<not> (sd_schema_version proposed = sd_schema_version expected \<and> sd_tree proposed = sd_tree expected \<and>
            sd_dry_run proposed = sd_dry_run expected \<and> sd_floor_size proposed = sd_floor_size expected \<and>
            sd_canonical_total proposed = sd_canonical_total expected \<and>
            sd_skipped_locked proposed = sd_skipped_locked expected) \<or>
        \<not> is_ordered_subset (sd_candidates proposed) (sd_candidates expected))
       (ValueError ''stale sweep decision does not match observed heads'')) (\<lambda>_.
     Inr proposed))"

section \<open>Drafts\<close>

record demotion_draft =
  df_schema_version :: string
  df_tree :: string
  df_tag :: string
  df_previous_receipt_sha :: "string option"
  df_sealed_engine_rule_sha :: "string option"
  df_expected_valid_until_rebutted :: bool
  df_node_state :: string
  df_verdict :: string
  df_verdict_source :: string

text \<open>\<^verbatim>\<open>_validate_demotion_payload\<close>, which drafts and plans share.\<close>

definition validate_demotion_payload :: "string \<Rightarrow> string \<Rightarrow> string \<Rightarrow> string \<Rightarrow> string \<Rightarrow> lk_error + unit" where
  "validate_demotion_payload schema tag state verdict verdict_source = run_checks
     [raise_if (schema \<noteq> SWEEP_SCHEMA_VERSION) (ValueError (''unsupported stale sweep schema: '' @ schema)),
      require_non_empty_text tag ''tag'',
      raise_if (state \<noteq> node_state_value FORMER_CANONICAL) (ValueError ''stale demotion plan has an invalid node_state''),
      raise_if (verdict \<noteq> FORMER_CANONICAL_VERDICT) (ValueError ''stale demotion plan has an invalid verdict''),
      raise_if (verdict_source \<noteq> ENGINE_VERDICT_SOURCE) (ValueError ''stale demotion plan has an invalid verdict_source'')]"

definition post_init_draft :: "demotion_draft \<Rightarrow> lk_error + demotion_draft" where
  "post_init_draft d = ebind (validate_demotion_payload (df_schema_version d) (df_tag d) (df_node_state d) (df_verdict d)
     (df_verdict_source d)) (\<lambda>_. Inr d)"

definition draft_of :: "sweep_decision \<Rightarrow> head_snapshot \<Rightarrow> demotion_draft" where
  "draft_of d h =
     \<lparr>df_schema_version = SWEEP_SCHEMA_VERSION, df_tree = sd_tree d, df_tag = hs_tag h,
      df_previous_receipt_sha = hs_previous_receipt_sha h, df_sealed_engine_rule_sha = hs_sealed_engine_rule_sha h,
      df_expected_valid_until_rebutted = hs_valid_until_rebutted h, df_node_state = node_state_value FORMER_CANONICAL,
      df_verdict = FORMER_CANONICAL_VERDICT, df_verdict_source = ENGINE_VERDICT_SOURCE\<rparr>"

definition draft_stale_canonical_demotions :: "sweep_decision \<Rightarrow> lk_error + demotion_draft list" where
  "draft_stale_canonical_demotions d =
     ebind (raise_if (sd_dry_run d) (ValueError ''cannot plan demotion effects for a dry-run decision'')) (\<lambda>_.
     map_result (\<lambda>h. post_init_draft (draft_of d h)) (sd_candidates d))"

definition validate_stale_canonical_demotion_drafts :: "sweep_decision \<Rightarrow> demotion_draft list \<Rightarrow> lk_error + demotion_draft list" where
  "validate_stale_canonical_demotion_drafts d proposed =
     ebind (draft_stale_canonical_demotions d) (\<lambda>expected.
     ebind (raise_if (\<not> is_ordered_subset proposed expected)
       (ValueError ''demotion draft does not match the observed decision'')) (\<lambda>_.
     Inr proposed))"

section \<open>Plans\<close>

record demotion_plan =
  pl_schema_version :: string
  pl_tree :: string
  pl_tag :: string
  pl_previous_receipt_sha :: "string option"
  pl_sealed_engine_rule_sha :: "string option"
  pl_expected_valid_until_rebutted :: bool
  pl_judged_at :: string
  pl_receipt_sha :: string
  pl_engine_rule_sha :: string
  pl_node_state :: string
  pl_verdict :: string
  pl_verdict_source :: string

definition optional_text :: "string option \<Rightarrow> field_value" where
  "optional_text v = (case v of None \<Rightarrow> FNone | Some s \<Rightarrow> FText s)"

definition demotion_fields :: "string \<Rightarrow> string \<Rightarrow> string \<Rightarrow> string \<Rightarrow> string \<Rightarrow> string option \<Rightarrow> string \<Rightarrow> field_map" where
  "demotion_fields tree tag verdict verdict_source judged_at previous engine_rule =
     [(''tree'', FText tree), (''tag'', FText tag), (''target_id'', FNone), (''verdict'', FText verdict),
      (''verdict_source'', FText verdict_source), (''metric_name'', FNone), (''metric_value'', FNone),
      (''novel_confirmed'', FNone), (''lakatos_status'', FNone), (''judged_at'', FText judged_at),
      (''judge_script_sha'', FNone), (''prev_receipt_sha'', optional_text previous), (''engine_rule_sha'', FText engine_rule)]"

definition post_init_plan :: "demotion_plan \<Rightarrow> lk_error + demotion_plan" where
  "post_init_plan p = ebind (run_checks
     [validate_demotion_payload (pl_schema_version p) (pl_tag p) (pl_node_state p) (pl_verdict p) (pl_verdict_source p),
      require_rfc3339 (pl_judged_at p) ''judged_at'',
      require_lowercase_sha256 (pl_receipt_sha p) ''receipt_sha'',
      require_lowercase_sha256 (pl_engine_rule_sha p) ''engine_rule_sha'',
      raise_if (pl_receipt_sha p \<noteq> receipt_content_sha (demotion_fields (pl_tree p) (pl_tag p) (pl_verdict p) (pl_verdict_source p)
          (pl_judged_at p) (pl_previous_receipt_sha p) (pl_engine_rule_sha p)) None)
        (ValueError ''receipt_sha does not match demotion content'')])
     (\<lambda>_. Inr p)"

definition plan_of :: "string \<Rightarrow> string \<Rightarrow> demotion_draft \<Rightarrow> demotion_plan" where
  "plan_of judged_at engine_rule d =
     \<lparr>pl_schema_version = SWEEP_SCHEMA_VERSION, pl_tree = df_tree d, pl_tag = df_tag d,
      pl_previous_receipt_sha = df_previous_receipt_sha d, pl_sealed_engine_rule_sha = df_sealed_engine_rule_sha d,
      pl_expected_valid_until_rebutted = df_expected_valid_until_rebutted d, pl_judged_at = judged_at,
      pl_receipt_sha = receipt_content_sha (demotion_fields (df_tree d) (df_tag d) (df_verdict d) (df_verdict_source d)
        judged_at (df_previous_receipt_sha d) engine_rule) None,
      pl_engine_rule_sha = engine_rule, pl_node_state = df_node_state d, pl_verdict = df_verdict d,
      pl_verdict_source = df_verdict_source d\<rparr>"

definition seal_stale_canonical_demotions :: "sweep_decision \<Rightarrow> demotion_draft list \<Rightarrow> string \<Rightarrow> string \<Rightarrow>
    lk_error + demotion_plan list" where
  "seal_stale_canonical_demotions d drafts judged_at engine_rule =
     ebind (validate_stale_canonical_demotion_drafts d drafts) (\<lambda>selected.
     map_result (\<lambda>draft. post_init_plan (plan_of judged_at engine_rule draft)) selected)"

definition plan_stale_canonical_demotions :: "sweep_decision \<Rightarrow> string \<Rightarrow> string \<Rightarrow> lk_error + demotion_plan list" where
  "plan_stale_canonical_demotions d judged_at engine_rule =
     ebind (draft_stale_canonical_demotions d) (\<lambda>drafts. seal_stale_canonical_demotions d drafts judged_at engine_rule)"

definition validate_stale_canonical_demotion_plans :: "sweep_decision \<Rightarrow> demotion_plan list \<Rightarrow> string \<Rightarrow> string \<Rightarrow>
    lk_error + demotion_plan list" where
  "validate_stale_canonical_demotion_plans d proposed judged_at engine_rule =
     ebind (plan_stale_canonical_demotions d judged_at engine_rule) (\<lambda>expected.
     ebind (raise_if (\<not> is_ordered_subset proposed expected)
       (ValueError ''demotion plan does not match the observed decision'')) (\<lambda>_.
     Inr proposed))"

record sweep_projection =
  sp_tree :: string
  sp_dry_run :: bool
  sp_floor_size :: int
  sp_canonical_total :: int
  sp_candidates :: "(string \<times> string option) list"
  sp_skipped_locked :: "string list"
  sp_demoted :: "string list"

definition project_stale_canonical_sweep :: "sweep_decision \<Rightarrow> string list \<Rightarrow> sweep_projection" where
  "project_stale_canonical_sweep d demoted =
     \<lparr>sp_tree = sd_tree d, sp_dry_run = sd_dry_run d, sp_floor_size = sd_floor_size d,
      sp_canonical_total = sd_canonical_total d,
      sp_candidates = map (\<lambda>h. (hs_tag h, hs_sealed_engine_rule_sha h)) (sd_candidates d),
      sp_skipped_locked = sd_skipped_locked d, sp_demoted = demoted\<rparr>"

section \<open>The service operation\<close>

text \<open>What the operation uses of its service, over a state \<open>'w\<close> of the store: the floor, the readiness
  of the ledger, the query of the CANONICAL rows, the two policies, the projection of pending
  predecessors, the clock, the compare-and-set write of one plan (which tells whether it applied), and
  the history.\<close>

record 'w sweep_service =
  sw_rule_floor :: "'w \<Rightarrow> string list"
  sw_require_ledger_ready :: "'w \<Rightarrow> lk_error + unit"
  sw_canonical_rows :: "'w \<Rightarrow> string \<Rightarrow> head_snapshot list"
  sw_stale_sweep_decider :: "string \<Rightarrow> head_snapshot list \<Rightarrow> string list \<Rightarrow> bool \<Rightarrow> lk_error + sweep_decision"
  sw_stale_demotion_planner :: "sweep_decision \<Rightarrow> lk_error + demotion_draft list"
  sw_project_pending :: "string \<Rightarrow> string \<Rightarrow> 'w \<Rightarrow> (lk_error + unit) \<times> 'w"
  sw_utc_now :: "'w \<Rightarrow> string"
  sw_ledger_write :: "demotion_plan \<Rightarrow> 'w \<Rightarrow> (lk_error + bool) \<times> 'w"
  sw_hist :: "demotion_plan \<Rightarrow> int \<Rightarrow> 'w \<Rightarrow> (lk_error + unit) \<times> 'w"

fun project_all :: "'w sweep_service \<Rightarrow> demotion_draft list \<Rightarrow> 'w \<Rightarrow> (lk_error + unit) \<times> 'w" where
  "project_all sv [] w = (Inr (), w)"
| "project_all sv (d # ds) w =
     (case sw_project_pending sv (df_tree d) (df_tag d) w of
        (Inl e, w1) \<Rightarrow> (Inl e, w1)
      | (Inr _, w1) \<Rightarrow> project_all sv ds w1)"

fun write_plans :: "'w sweep_service \<Rightarrow> int \<Rightarrow> demotion_plan list \<Rightarrow> 'w \<Rightarrow> (lk_error + string list) \<times> 'w" where
  "write_plans sv floor_size [] w = (Inr [], w)"
| "write_plans sv floor_size (p # ps) w =
     (case sw_ledger_write sv p w of
        (Inl e, w1) \<Rightarrow> (Inl e, w1)
      | (Inr applied, w1) \<Rightarrow>
          (case (if applied then sw_hist sv p floor_size w1 else (Inr (), w1)) of
             (Inl e, w2) \<Rightarrow> (Inl e, w2)
           | (Inr _, w2) \<Rightarrow>
               (case write_plans sv floor_size ps w2 of
                  (Inl e, w3) \<Rightarrow> (Inl e, w3)
                | (Inr demoted, w3) \<Rightarrow> (Inr (if applied then pl_tag p # demoted else demoted), w3))))"

definition observe_sweep :: "'w sweep_service \<Rightarrow> string \<Rightarrow> bool \<Rightarrow> 'w \<Rightarrow> lk_error + sweep_decision" where
  "observe_sweep sv tree dry_run w =
     (let fl = remdups (sw_rule_floor sv w) in
      ebind (if dry_run then Inr () else sw_require_ledger_ready sv w) (\<lambda>_.
      ebind (map_result post_init_head (sw_canonical_rows sv w tree)) (\<lambda>heads.
      ebind (sw_stale_sweep_decider sv tree heads fl dry_run) (\<lambda>proposed.
      validate_stale_canonical_sweep_decision proposed tree heads fl dry_run))))"

definition demote_stale_canonical :: "'w sweep_service \<Rightarrow> string \<Rightarrow> string \<Rightarrow> bool \<Rightarrow> 'w \<Rightarrow> (lk_error + sweep_projection) \<times> 'w" where
  "demote_stale_canonical sv engine_rule tree dry_run w =
     (case observe_sweep sv tree dry_run w of
        Inl e \<Rightarrow> (Inl e, w)
      | Inr decision \<Rightarrow>
          if dry_run then (Inr (project_stale_canonical_sweep decision []), w)
          else
            (case ebind (sw_stale_demotion_planner sv decision) (validate_stale_canonical_demotion_drafts decision) of
               Inl e \<Rightarrow> (Inl e, w)
             | Inr drafts \<Rightarrow>
                 if drafts = [] then (Inr (project_stale_canonical_sweep decision []), w)
                 else
                   (case project_all sv drafts w of
                      (Inl e, w1) \<Rightarrow> (Inl e, w1)
                    | (Inr _, w1) \<Rightarrow>
                        (case seal_stale_canonical_demotions decision drafts (sw_utc_now sv w1) engine_rule of
                           Inl e \<Rightarrow> (Inl e, w1)
                         | Inr plans \<Rightarrow>
                             (case write_plans sv (sd_floor_size decision) plans w1 of
                                (Inl e, w2) \<Rightarrow> (Inl e, w2)
                              | (Inr demoted, w2) \<Rightarrow> (Inr (project_stale_canonical_sweep decision demoted), w2))))))"

end
