(* ===== verification/Stale_Properties.thy ===== *)
theory Stale_Properties
  imports Stale_Canonical Receipt_Facts
begin

text \<open>
  Stale-CANONICAL sweeps: the greedy comparison of the validators decides the subsequence relation, so a
  policy can leave effects out and nothing else; every write of a sweep demotes a head that was observed
  stale and unlocked, and the receipt it mints extends the node's chain.
\<close>

section \<open>Ordered subsets are subsequences\<close>

lemma subseq_skip: "x \<notin> set us \<Longrightarrow> subseq (x # xs) (us @ zs) \<longleftrightarrow> subseq (x # xs) zs"
  by (induction us) auto

lemma ordered_subset_subseq: "is_ordered_subset xs ys \<longleftrightarrow> subseq xs ys"
proof (induction xs arbitrary: ys)
  case (Cons x xs)
  have split: "ys = takeWhile (\<lambda>y. y \<noteq> x) ys @ dropWhile (\<lambda>y. y \<noteq> x) ys" by simp
  have skip: "x \<notin> set (takeWhile (\<lambda>y. y \<noteq> x) ys)" by (auto dest: set_takeWhileD)
  show ?case
  proof (cases "dropWhile (\<lambda>y. y \<noteq> x) ys")
    case Nil
    then have "x \<notin> set ys" by auto
    then have "\<not> subseq (x # xs) ys" using subseq_skip [of x ys xs "[]"] by simp
    then show ?thesis by (simp only: is_ordered_subset.simps Nil list.case simp_thms)
  next
    case (Cons z zs)
    then have z: "z = x" by (metis (full_types) dropWhile_eq_Cons_conv)
    have "subseq (x # xs) ys \<longleftrightarrow> subseq (x # xs) (dropWhile (\<lambda>y. y \<noteq> x) ys)"
      using subseq_skip [OF skip] split by metis
    also have "\<dots> \<longleftrightarrow> subseq xs zs" by (simp add: Cons z)
    finally show ?thesis using Cons Cons.IH by simp
  qed
qed simp

lemma subseq_set: "subseq xs ys \<Longrightarrow> x \<in> set xs \<Longrightarrow> x \<in> set ys"
  by (induction rule: list_emb.induct) auto

section \<open>What the stages return\<close>

lemma map_result_id: "(\<And>x y. f x = Inr y \<Longrightarrow> y = g x) \<Longrightarrow> map_result f xs = Inr ys \<Longrightarrow> ys = map g xs"
  by (induction xs arbitrary: ys) (auto simp: result_simps)

lemma post_init_head_Inr: "post_init_head h = Inr h' \<Longrightarrow> h' = h"
  by (auto simp: post_init_head_def result_simps)

lemma post_init_draft_Inr: "post_init_draft d = Inr d' \<Longrightarrow> d' = d"
  by (auto simp: post_init_draft_def result_simps)

lemma post_init_plan_Inr: "post_init_plan p = Inr p' \<Longrightarrow> p' = p"
  by (auto simp: post_init_plan_def result_simps)

lemma decided_sweep:
  assumes "decide_stale_canonical_sweep tree heads fl dry_run = Inr d"
  shows "sd_tree d = tree" "sd_dry_run d = dry_run" "sd_candidates d = filter (\<lambda>h. is_stale fl h \<and> hs_valid_until_rebutted h) heads"
  using assms by (auto simp: decide_stale_canonical_sweep_def post_init_sweep_decision_def Let_def result_simps filter_filter conj_commute)

lemma accepted_sweep:
  assumes "validate_stale_canonical_sweep_decision d tree heads fl dry_run = Inr d'"
  shows "d' = d" "sd_tree d = tree" "sd_dry_run d = dry_run"
    "subseq (sd_candidates d) (filter (\<lambda>h. is_stale fl h \<and> hs_valid_until_rebutted h) heads)"
  using assms decided_sweep [of tree heads fl dry_run]
  by (auto simp: validate_stale_canonical_sweep_decision_def result_simps check_simps ordered_subset_subseq)

lemma drafted: "draft_stale_canonical_demotions d = Inr ds \<Longrightarrow> \<not> sd_dry_run d \<and> ds = map (draft_of d) (sd_candidates d)"
  by (auto simp: draft_stale_canonical_demotions_def result_simps check_simps dest: map_result_id [rotated] post_init_draft_Inr)

lemma accepted_drafts:
  "validate_stale_canonical_demotion_drafts d ds = Inr ds' \<Longrightarrow> ds' = ds \<and> \<not> sd_dry_run d \<and> subseq ds (map (draft_of d) (sd_candidates d))"
  using drafted [of d] by (auto simp: validate_stale_canonical_demotion_drafts_def result_simps check_simps ordered_subset_subseq)

lemma sealed_plans:
  assumes "seal_stale_canonical_demotions d ds judged_at engine_rule = Inr ps"
  shows "\<not> sd_dry_run d" "subseq ds (map (draft_of d) (sd_candidates d))" "ps = map (plan_of judged_at engine_rule) ds"
proof -
  from assms obtain ds' where v: "validate_stale_canonical_demotion_drafts d ds = Inr ds'"
    and m: "map_result (\<lambda>draft. post_init_plan (plan_of judged_at engine_rule draft)) ds' = Inr ps"
    by (auto simp: seal_stale_canonical_demotions_def result_simps)
  from accepted_drafts [OF v] show "\<not> sd_dry_run d" "subseq ds (map (draft_of d) (sd_candidates d))" by simp_all
  from map_result_id [OF _ m, of "plan_of judged_at engine_rule"] accepted_drafts [OF v] post_init_plan_Inr
  show "ps = map (plan_of judged_at engine_rule) ds" by auto
qed

section \<open>Writes\<close>

text \<open>A plan that demotes an observed head: stale, not locked, and expected as it was observed.\<close>

definition demotes :: "string \<Rightarrow> head_snapshot \<Rightarrow> demotion_plan \<Rightarrow> bool" where
  "demotes tree h p \<longleftrightarrow>
     pl_tree p = tree \<and> pl_tag p = hs_tag h \<and> pl_previous_receipt_sha p = hs_previous_receipt_sha h \<and>
     pl_sealed_engine_rule_sha p = hs_sealed_engine_rule_sha h \<and> pl_expected_valid_until_rebutted p \<and>
     pl_node_state p = node_state_value FORMER_CANONICAL \<and> pl_verdict p = FORMER_CANONICAL_VERDICT \<and>
     pl_verdict_source p = ENGINE_VERDICT_SOURCE \<and>
     pl_receipt_sha p = receipt_content_sha (demotion_fields tree (hs_tag h) FORMER_CANONICAL_VERDICT ENGINE_VERDICT_SOURCE
       (pl_judged_at p) (hs_previous_receipt_sha h) (pl_engine_rule_sha p)) None"

lemma sealed_plan_demotes:
  assumes "validate_stale_canonical_sweep_decision d tree heads fl dry_run = Inr d"
    and "seal_stale_canonical_demotions d ds judged_at engine_rule = Inr ps" and "p \<in> set ps"
  shows "\<exists>h\<in>set heads. is_stale fl h \<and> hs_valid_until_rebutted h \<and> demotes tree h p"
proof -
  note s = sealed_plans [OF assms(2)] and a = accepted_sweep [OF assms(1)]
  from assms(3) s(3) obtain x where x: "x \<in> set ds" "p = plan_of judged_at engine_rule x" by auto
  from subseq_set [OF s(2) x(1)] obtain h where h: "h \<in> set (sd_candidates d)" "x = draft_of d h" by auto
  from subseq_set [OF a(4) h(1)] have o: "h \<in> set heads" "is_stale fl h" "hs_valid_until_rebutted h" by auto
  have "demotes tree h p" using o(3) a(2) by (simp add: demotes_def x(2) h(2) plan_of_def draft_of_def)
  with o show ?thesis by blast
qed

lemma project_all_invariant:
  assumes "project_all sv ds w = (r, w')" and "I w" and "\<And>t g v. I v \<Longrightarrow> I (snd (sw_project_pending sv t g v))"
  shows "I w'"
  using assms
proof (induction ds arbitrary: w)
  case (Cons d ds)
  obtain r1 w1 where p: "sw_project_pending sv (df_tree d) (df_tag d) w = (r1, w1)" by force
  with Cons.prems(2,3) have "I w1" by (metis snd_conv)
  with Cons p show ?case by (cases r1) auto
qed simp

lemma write_plans_invariant:
  assumes "write_plans sv n ps w = (r, w')" and "I w"
    and "\<And>p v. p \<in> set ps \<Longrightarrow> I v \<Longrightarrow> I (snd (sw_ledger_write sv p v))" and "\<And>p v. I v \<Longrightarrow> I (snd (sw_hist sv p n v))"
  shows "I w'"
  using assms
proof (induction ps arbitrary: w r)
  case (Cons p ps)
  obtain r1 w1 where a: "sw_ledger_write sv p w = (r1, w1)" by force
  with Cons.prems(2,3) have i1: "I w1" by (metis list.set_intros(1) snd_conv)
  show ?case
  proof (cases r1)
    case (Inl e)
    with a i1 Cons.prems(1) show ?thesis by simp
  next
    case (Inr applied)
    obtain r2 w2 where b: "(if applied then sw_hist sv p n w1 else (Inr (), w1)) = (r2, w2)" by force
    have i2: "I w2" using b i1 Cons.prems(4) [of w1 p] by (auto split: if_splits)
    show ?thesis
    proof (cases r2)
      case (Inl e)
      with a b i2 \<open>r1 = Inr applied\<close> Cons.prems(1) show ?thesis by simp
    next
      case (Inr u)
      obtain r3 w3 where c: "write_plans sv n ps w2 = (r3, w3)" by force
      have "w3 = w'" using Cons.prems(1) a b c Inr \<open>r1 = Inr applied\<close> by (cases r3) auto
      with c have "write_plans sv n ps w2 = (r3, w')" by simp
      from Cons.IH [OF this i2] Cons.prems(3,4) show ?thesis by simp
    qed
  qed
qed simp

lemma observed_sweep:
  assumes "observe_sweep sv tree dry_run w = Inr d"
  shows "validate_stale_canonical_sweep_decision d tree (sw_canonical_rows sv w tree) (remdups (sw_rule_floor sv w)) dry_run = Inr d"
proof -
  from assms obtain heads proposed where o: "map_result post_init_head (sw_canonical_rows sv w tree) = Inr heads"
    "validate_stale_canonical_sweep_decision proposed tree heads (remdups (sw_rule_floor sv w)) dry_run = Inr d"
    by (auto simp: observe_sweep_def Let_def result_simps)
  have "heads = sw_canonical_rows sv w tree" using map_result_id [OF _ o(1), of id] post_init_head_Inr by auto
  with o(2) accepted_sweep(1) [OF o(2)] show ?thesis by simp
qed

text \<open>The states a sweep can leave behind: the old one, the one after the projections, or the one after writes.\<close>

lemma sweep_cases:
  assumes "demote_stale_canonical sv engine_rule tree dry_run w = (r, w')" and "w' \<noteq> w"
  obtains (projected) ds r1 where "\<not> dry_run" "project_all sv ds w = (r1, w')"
  | (wrote) d ds u w1 ps r2 where "\<not> dry_run" "observe_sweep sv tree dry_run w = Inr d" "project_all sv ds w = (Inr u, w1)"
      "seal_stale_canonical_demotions d ds (sw_utc_now sv w1) engine_rule = Inr ps"
      "write_plans sv (sd_floor_size d) ps w1 = (r2, w')"
  using assms unfolding demote_stale_canonical_def by (simp split: sum.splits if_splits prod.splits)

text \<open>C30: A sweep demotes nothing but stale, unlocked heads that it observed, whatever its policies propose.
  A dry run changes nothing. Otherwise any invariant of the store is kept that the projection of pending
  predecessors, the history and those writes keep that demote, in the tree, an observed CANONICAL head
  whose sealed engine rule is not in the floor and which no human locked, on the condition that the head
  and the lock are still as observed, with a receipt of the demotion's content.\<close>

theorem sweep_demotes_only_stale_unlocked_heads:
  assumes "demote_stale_canonical sv engine_rule tree dry_run w = (r, w')" and "I w"
    and "\<And>t g v. I v \<Longrightarrow> I (snd (sw_project_pending sv t g v))" and "\<And>p n v. I v \<Longrightarrow> I (snd (sw_hist sv p n v))"
    and "\<And>p h v. h \<in> set (sw_canonical_rows sv w tree) \<Longrightarrow> is_stale (sw_rule_floor sv w) h \<Longrightarrow> hs_valid_until_rebutted h \<Longrightarrow>
      demotes tree h p \<Longrightarrow> I v \<Longrightarrow> I (snd (sw_ledger_write sv p v))"
  shows "I w' \<and> (dry_run \<longrightarrow> w' = w)"
proof (cases "w' = w")
  case True
  with assms(2) show ?thesis by simp
next
  case False
  with assms(1) show ?thesis
  proof (cases rule: sweep_cases)
    case projected
    with project_all_invariant [OF projected(2) assms(2,3)] show ?thesis by blast
  next
    case (wrote d ds u w1 ps r2)
    have "I w'"
    proof (rule write_plans_invariant [OF wrote(5) project_all_invariant [OF wrote(3) assms(2,3)] _ assms(4)])
      fix p v assume "p \<in> set ps" "I v"
      from sealed_plan_demotes [OF observed_sweep [OF wrote(2)] wrote(4) this(1)] \<open>I v\<close> assms(5)
      show "I (snd (sw_ledger_write sv p v))" by (auto simp: is_stale_def)
    qed
    with wrote(1) show ?thesis by blast
  qed
qed

definition sample_sweep :: "string list sweep_service" where
  "sample_sweep = \<lparr>sw_rule_floor = (\<lambda>_. [''r2'']), sw_require_ledger_ready = (\<lambda>_. Inr ()),
     sw_canonical_rows = (\<lambda>_ _. [\<lparr>hs_tag = ''a'', hs_previous_receipt_sha = None, hs_sealed_engine_rule_sha = Some ''r1'',
       hs_valid_until_rebutted = True\<rparr>]),
     sw_stale_sweep_decider = decide_stale_canonical_sweep, sw_stale_demotion_planner = draft_stale_canonical_demotions,
     sw_project_pending = (\<lambda>_ _ w. (Inr (), w)), sw_utc_now = (\<lambda>_. ''2026-01-01T00:00:00Z''),
     sw_ledger_write = (\<lambda>p w. (Inr True, pl_tag p # w)), sw_hist = (\<lambda>_ _ w. (Inr (), w))\<rparr>"

theorem sweep_demotes_only_stale_unlocked_heads_witness:
  "\<exists>r w'. demote_stale_canonical sample_sweep (sha256_hex []) ''t'' False [] = (r, w') \<and> set w' \<subseteq> {''a''}"
proof -
  obtain r w' where d: "demote_stale_canonical sample_sweep (sha256_hex []) ''t'' False [] = (r, w')" by force
  have "set w' \<subseteq> {''a''} \<and> (False \<longrightarrow> w' = [])"
    by (rule sweep_demotes_only_stale_unlocked_heads [OF d, where I = "\<lambda>w. set w \<subseteq> {''a''}"])
      (simp_all add: sample_sweep_def demotes_def)
  with d show ?thesis by blast
qed

section \<open>The receipt of a demotion\<close>

text \<open>The stored receipt of a plan: what the write sets, and the hash.\<close>

definition demotion_receipt :: "demotion_plan \<Rightarrow> field_map" where
  "demotion_receipt p = demotion_fields (pl_tree p) (pl_tag p) (pl_verdict p) (pl_verdict_source p) (pl_judged_at p)
     (pl_previous_receipt_sha p) (pl_engine_rule_sha p) @ [(''receipt_sha'', FText (pl_receipt_sha p))]"

lemma demotion_receipt_fields:
  "get_field (demotion_receipt p) ''receipt_sha'' = FText (pl_receipt_sha p)"
  "get_field (demotion_receipt p) ''prev_receipt_sha'' = optional_text (pl_previous_receipt_sha p)"
  "get_field (demotion_receipt p) ''verdict'' = FText (pl_verdict p)"
  "get_field (demotion_receipt p) ''verdict_source'' = FText (pl_verdict_source p)"
  "get_field (demotion_receipt p) ''receipt_kind'' = FNone"
  by (simp_all add: demotion_receipt_def demotion_fields_def get_field_def)

lemma get_field_extra: "k \<noteq> k' \<Longrightarrow> get_field (e @ [(k', v)]) k = get_field e k"
  by (simp add: get_field_def map_add_def split: option.splits)

lemma receipt_sha_not_sealed: "receipt_content_sha (e @ [(''receipt_sha'', v)]) None = receipt_content_sha e None"
proof -
  have new: "''receipt_sha'' \<notin> set RECEIPT_FIELDS_V7" by (simp add: generation_lists)
  show ?thesis
  proof (intro receipt_content_cong ballI get_field_extra)
    show "k \<noteq> ''receipt_sha''" if "k \<in> set RECEIPT_FIELDS_V7" for k
    proof
      assume "k = ''receipt_sha''"
      with that have "''receipt_sha'' \<in> set RECEIPT_FIELDS_V7" by (simp only:)
      with new show False by (rule notE)
    qed
  qed
qed

lemma optional_text_link: "field_link (optional_text v) = v"
  by (cases v) (simp_all add: optional_text_def field_link_def)

lemma demotion_chain_receipt:
  "chain_receipt (demotion_receipt p) = \<lparr>rc_receipt_sha = pl_receipt_sha p, rc_prev_receipt_sha = pl_previous_receipt_sha p,
     rc_verdict = Some (pl_verdict p), rc_verdict_source = Some (pl_verdict_source p)\<rparr>"
  by (simp add: chain_receipt_def demotion_receipt_fields optional_text_link field_text_def)

lemma demotion_receipt_matches:
  assumes "demotes tree h p"
  shows "match_receipt_encoding (demotion_receipt p) (pl_receipt_sha p) = Some ''current''"
proof -
  have "receipt_content_sha (demotion_receipt p) None = pl_receipt_sha p"
    using assms unfolding demotion_receipt_def receipt_sha_not_sealed by (simp add: demotes_def)
  then show ?thesis by (simp add: match_receipt_encoding_def is_prediction_receipt_def demotion_receipt_fields)
qed


lemma folded_reaches_genesis:
  assumes "fold_receipt_chain rs h cv cs = Inr f" and "h \<noteq> Some []"
  shows "reaches_genesis (by_receipt_sha rs) h"
proof (cases h)
  case None
  show ?thesis unfolding None by (rule reaches_genesis.genesis)
next
  case (Some sha)
  with assms show ?thesis
    by (auto simp: fold_receipt_chain_def falsy_def Let_def ebind_eq_Inr dest: walk_chain_sound split: if_splits option.splits
        simp del: walk_chain.simps)
qed

lemma former_canonical_state:
  assumes "nr_verdict row = Some FORMER_CANONICAL_VERDICT" and "nr_verdict_source row = Some (Some ENGINE_VERDICT_SOURCE)"
  shows "derive_node_state row = Inr FORMER_CANONICAL"
proof -
  have "force_of (Some ''former_canonical'') (Some (Some ''engine'')) = Inr COUNTS" by code_simp
  with assms show ?thesis
    by (simp add: derive_node_state_def force_of_row_def FORMER_CANONICAL_VERDICT_def ENGINE_VERDICT_SOURCE_def got_def Let_def)
qed

text \<open>A sweep of one stale head, with the default policies.\<close>

definition sample_stale_head :: head_snapshot where
  "sample_stale_head = \<lparr>hs_tag = ''a'', hs_previous_receipt_sha = None, hs_sealed_engine_rule_sha = Some ''r1'',
     hs_valid_until_rebutted = True\<rparr>"

definition sample_decision :: sweep_decision where
  "sample_decision = \<lparr>sd_schema_version = SWEEP_SCHEMA_VERSION, sd_tree = ''t'', sd_dry_run = False, sd_floor_size = 1,
     sd_canonical_total = 1, sd_candidates = [sample_stale_head], sd_skipped_locked = []\<rparr>"

lemma sample_decided: "validate_stale_canonical_sweep_decision sample_decision ''t'' [sample_stale_head] [''r2''] False = Inr sample_decision"
  by (simp add: validate_stale_canonical_sweep_decision_def decide_stale_canonical_sweep_def post_init_sweep_decision_def
      is_stale_def sample_decision_def sample_stale_head_def check_simps)

lemma sample_plan_sealed:
  "seal_stale_canonical_demotions sample_decision [draft_of sample_decision sample_stale_head] ''2026-01-01T00:00:00Z'' (sha256_hex []) =
     Inr [plan_of ''2026-01-01T00:00:00Z'' (sha256_hex []) (draft_of sample_decision sample_stale_head)]"
proof -
  have s: "sha_text (sha256_hex b)" for b using sha256_hex_chars length_sha256_hex by (fastforce simp: sha_text_def list_all_iff)
  have t: "require_rfc3339 ''2026-01-01T00:00:00Z'' ''judged_at'' = Inr ()" by code_simp
  show ?thesis
    by (simp add: seal_stale_canonical_demotions_def validate_stale_canonical_demotion_drafts_def draft_stale_canonical_demotions_def
        sample_decision_def sample_stale_head_def draft_of_def post_init_draft_def validate_demotion_payload_def
        require_non_empty_text_def plan_of_def post_init_plan_def t require_lowercase_sha256_def s receipt_content_sha_def check_simps)
qed

text \<open>C31: The receipt a sweep seals for a head extends that head's chain. If the receipts of the node fold
  from the observed head, the new receipt, whose hash is not stored yet, rederives its hash in the
  current encoding and makes the chain with it fold from the new hash to the engine's former-canonical
  verdict. A row that carries the folded verdict is derived to be a former canonical node, which is a
  legal step from CANONICAL.\<close>

theorem demotion_receipt_extends_chain:
  assumes "validate_stale_canonical_sweep_decision d tree heads fl False = Inr d"
    and "seal_stale_canonical_demotions d ds judged_at engine_rule = Inr ps" and "p \<in> set ps"
    and "fold_receipt_chain rs (pl_previous_receipt_sha p) cv cs = Inr f" and "pl_previous_receipt_sha p \<noteq> Some []"
    and "pl_receipt_sha p \<notin> rc_receipt_sha ` set rs"
  shows "match_receipt_encoding (demotion_receipt p) (pl_receipt_sha p) = Some ''current'' \<and>
    (\<exists>r. fold_receipt_chain (rs @ [chain_receipt (demotion_receipt p)]) (Some (pl_receipt_sha p)) cv' cs' = Inr r \<and>
       fd_from_receipt r \<and> fd_verdict r = Some FORMER_CANONICAL_VERDICT \<and> fd_verdict_source r = Some ENGINE_VERDICT_SOURCE \<and>
       (\<forall>row. nr_verdict row = fd_verdict r \<longrightarrow> nr_verdict_source row = Some (fd_verdict_source r) \<longrightarrow>
          derive_node_state (row :: rat node_row) = Inr FORMER_CANONICAL)) \<and>
    assert_transition_allowed CANONICAL FORMER_CANONICAL = Inr ()"
proof -
  from sealed_plan_demotes [OF assms(1-3)] obtain h where dm: "demotes tree h p" by blast
  then have v: "pl_verdict p = FORMER_CANONICAL_VERDICT" "pl_verdict_source p = ENGINE_VERDICT_SOURCE" by (simp_all add: demotes_def)
  define n where "n = chain_receipt (demotion_receipt p)"
  have n: "rc_receipt_sha n = pl_receipt_sha p" "rc_prev_receipt_sha n = pl_previous_receipt_sha p"
    "rc_verdict n = Some FORMER_CANONICAL_VERDICT" "rc_verdict_source n = Some ENGINE_VERDICT_SOURCE"
    by (simp_all add: n_def demotion_chain_receipt v)
  have "reaches_genesis (by_receipt_sha rs) (pl_previous_receipt_sha p)" by (rule folded_reaches_genesis [OF assms(4,5)])
  then have "reaches_genesis (by_receipt_sha (rs @ [n])) (rc_prev_receipt_sha n)"
    using assms(6) by (simp add: n by_receipt_sha_snoc fst_by_receipt_sha reaches_genesis_extend [of _ _ n, unfolded n])
  then have "fold_receipt_chain (rs @ [n]) (Some (pl_receipt_sha p)) cv' cs' =
    Inr \<lparr>fd_verdict = Some FORMER_CANONICAL_VERDICT, fd_verdict_source = Some ENGINE_VERDICT_SOURCE, fd_from_receipt = True\<rparr>"
    using fold_from_receipt [of "rs @ [n]" "Some (pl_receipt_sha p)" cv' cs'
        "\<lparr>fd_verdict = Some FORMER_CANONICAL_VERDICT, fd_verdict_source = Some ENGINE_VERDICT_SOURCE, fd_from_receipt = True\<rparr>"]
    by (simp add: by_receipt_sha_snoc n)
  then show ?thesis
    using demotion_receipt_matches [OF dm] by (simp add: n_def assert_transition_Inr former_canonical_state)
qed

theorem demotion_receipt_extends_chain_witness:
  "\<exists>p r. fold_receipt_chain [chain_receipt (demotion_receipt p)] (Some (pl_receipt_sha p)) None None = Inr r \<and>
     fd_verdict r = Some ''former_canonical''"
proof -
  let ?p = "plan_of ''2026-01-01T00:00:00Z'' (sha256_hex []) (draft_of sample_decision sample_stale_head)"
  have p: "pl_previous_receipt_sha ?p = None" by (simp add: plan_of_def draft_of_def sample_stale_head_def)
  have "fold_receipt_chain [] (pl_previous_receipt_sha ?p) None None =
    Inr \<lparr>fd_verdict = None, fd_verdict_source = None, fd_from_receipt = False\<rparr>"
    by (simp add: p fold_receipt_chain_def by_receipt_sha_def falsy_def)
  from demotion_receipt_extends_chain [OF sample_decided sample_plan_sealed _ this, where cv' = None and cs' = None] p
  obtain r where "fold_receipt_chain [chain_receipt (demotion_receipt ?p)] (Some (pl_receipt_sha ?p)) None None = Inr r"
    "fd_verdict r = Some FORMER_CANONICAL_VERDICT" by auto
  then show ?thesis unfolding FORMER_CANONICAL_VERDICT_def by blast
qed

section \<open>A limit of the code\<close>

text \<open>An empty predecessor pointer is sealed as it is, and the fold then looks for a receipt of that name.\<close>

lemma empty_link_breaks_chain:
  assumes "demotes tree h p" and "hs_previous_receipt_sha h = Some []" and "[] \<notin> rc_receipt_sha ` set rs"
    and "pl_receipt_sha p \<noteq> []"
  shows "fold_receipt_chain (rs @ [chain_receipt (demotion_receipt p)]) (Some (pl_receipt_sha p)) cv cs = Inl (BrokenLink [])"
proof -
  have prev: "pl_previous_receipt_sha p = Some []" using assms(1,2) by (simp add: demotes_def)
  have "map_of (by_receipt_sha rs) [] = None" using assms(3) fst_by_receipt_sha [of rs] by (simp add: map_of_eq_None_iff)
  then show ?thesis
    using assms(4) by (simp add: fold_receipt_chain_def by_receipt_sha_snoc demotion_chain_receipt prev)
qed

end
