(* ===== verification/Judge.thy ===== *)
theory Judge
  imports Py_Float Verdict_Registry
begin

text \<open>
  The verdict rule, \<^verbatim>\<open>lakatos/verdict/judge.py\<close>: the registered prediction with the
  checks of its constructor, the structured novel target, and \<^verbatim>\<open>judge\<close>.

  Metric values are binary64 numbers (\<open>Py_Float\<close>). The \<^verbatim>\<open>reason\<close> of a verdict is a
  rendering of the facts collected in \<open>judge_reason\<close>; the record keeps the facts and leaves the
  wording out. The exceptions are the constructors of \<open>judge_error\<close>, one per
  \<^verbatim>\<open>raise\<close>.
\<close>

section \<open>Predictions\<close>

datatype judge_error =
    BadScaleType | NominalScale | OrdinalNoiseBand | NegativeNoiseBand | BaselineNotFinite
  | BadDirection
  | PredictionLocked
  | WitnessWithoutGate | WitnessWithoutTarget | PredictionMissing | MeasuredNotFinite
  | NovelMeasuredMissing bool | NovelMeasuredNotFinite

definition SCALE_TYPES :: "string list" where
  "SCALE_TYPES = [''ratio'', ''interval'', ''ordinal'', ''nominal'']"

record prediction =
  pd_metric_name :: string
  pd_direction :: string
  pd_baseline_value :: pyfloat
  pd_noise_band :: pyfloat
  pd_novel_prediction :: string
  pd_closes_question :: string
  pd_scale_type :: string

definition post_init_prediction :: "prediction \<Rightarrow> judge_error + unit" where
  "post_init_prediction p = run_checks
     [raise_if (pd_scale_type p \<notin> set SCALE_TYPES) BadScaleType,
      raise_if (pd_scale_type p = ''nominal'') NominalScale,
      raise_if (pd_scale_type p = ''ordinal'' \<and> \<not> fl_eq (pd_noise_band p) (PFin 0)) OrdinalNoiseBand,
      raise_if (fl_less (pd_noise_band p) (PFin 0)) NegativeNoiseBand,
      raise_if (\<not> fl_isfinite (pd_baseline_value p)) BaselineNotFinite,
      raise_if (pd_direction p \<notin> {''lower'', ''higher''}) BadDirection]"

record novel_target =
  nt_metric_name :: string
  nt_direction :: string
  nt_threshold :: pyfloat
  nt_novelty_sense :: string

definition corroborated :: "novel_target \<Rightarrow> pyfloat \<Rightarrow> bool" where
  "corroborated t measured =
     (if nt_direction t = ''lower'' then fl_le measured (nt_threshold t)
      else fl_le (nt_threshold t) measured)"

definition check_registration :: "bool \<Rightarrow> judge_error + unit" where
  "check_registration already_judged = raise_if already_judged PredictionLocked"

section \<open>The verdict\<close>

text \<open>What the \<^verbatim>\<open>reason\<close> string of a verdict shows.\<close>

record judge_reason =
  jr_noise_band :: pyfloat
  jr_sense :: "string option"
  jr_same_source :: bool
  jr_cross_unproved :: bool
  jr_witness :: "string option"

record judgement =
  jd_verdict :: string
  jd_delta :: pyfloat
  jd_improved :: bool
  jd_novel :: bool
  jd_reason :: judge_reason

definition improves :: "prediction \<Rightarrow> pyfloat \<Rightarrow> bool" where
  "improves p delta =
     (if pd_direction p = ''lower'' then fl_less delta (fl_neg (pd_noise_band p))
      else fl_less (pd_noise_band p) delta)"

definition within_noise :: "prediction \<Rightarrow> pyfloat \<Rightarrow> bool" where
  "within_noise p delta = fl_le (fl_abs delta) (pd_noise_band p)"

text \<open>\<^verbatim>\<open>measured_sha and novel_sha and novel_sha != measured_sha\<close>.\<close>

definition distinct_source :: "string \<Rightarrow> string \<Rightarrow> bool" where
  "distinct_source measured_sha novel_sha \<longleftrightarrow>
     measured_sha \<noteq> [] \<and> novel_sha \<noteq> [] \<and> novel_sha \<noteq> measured_sha"

text \<open>The structured corroboration: whether the target is hit, and the demotion of a hit on the
  predicted metric itself without a source of its own.\<close>

definition structured_novelty ::
  "prediction \<Rightarrow> novel_target option \<Rightarrow> pyfloat option \<Rightarrow> string \<Rightarrow> string \<Rightarrow> judge_error + bool \<times> bool" where
  "structured_novelty p target novel_measured measured_sha novel_sha =
     (case target of
        None \<Rightarrow> Inr (False, False)
      | Some t \<Rightarrow>
          (case novel_measured of
             None \<Rightarrow> Inl (NovelMeasuredMissing (nt_metric_name t = pd_metric_name p))
           | Some x \<Rightarrow>
               ebind (raise_if (\<not> fl_isfinite x) NovelMeasuredNotFinite) (\<lambda>_.
                 let hit = corroborated t x;
                     noindep = hit \<and> nt_metric_name t = pd_metric_name p
                               \<and> \<not> distinct_source measured_sha novel_sha
                 in Inr (hit \<and> \<not> noindep, noindep))))"

text \<open>The opt-in gate on a hit on another metric: \<open>(novel, unproved, licensed)\<close>.\<close>

definition cross_metric_gate ::
  "prediction \<Rightarrow> novel_target option \<Rightarrow> bool \<Rightarrow> string \<Rightarrow> string \<Rightarrow> bool \<Rightarrow> string \<Rightarrow> bool \<times> bool \<times> bool" where
  "cross_metric_gate p target novel measured_sha novel_sha require_independent witness =
     (case target of
        None \<Rightarrow> (novel, False, False)
      | Some t \<Rightarrow>
          if require_independent \<and> novel \<and> nt_metric_name t \<noteq> pd_metric_name p
             \<and> \<not> distinct_source measured_sha novel_sha
          then if witness \<noteq> [] then (novel, False, True) else (False, True, False)
          else (novel, False, False))"

definition metric_verdict :: "bool \<Rightarrow> bool \<Rightarrow> bool \<Rightarrow> string" where
  "metric_verdict improved novel in_band =
     (if improved \<and> novel then ''progressive''
      else if improved then ''partial''
      else if in_band then ''equivalent''
      else ''rejected'')"

definition judge ::
  "prediction option \<Rightarrow> pyfloat \<Rightarrow> novel_target option \<Rightarrow> pyfloat option \<Rightarrow> string \<Rightarrow> string \<Rightarrow> bool \<Rightarrow> string
     \<Rightarrow> judge_error + judgement" where
  "judge pred measured target novel_measured measured_sha novel_sha require_independent independence_witness =
     (let witness = str_strip independence_witness in
      ebind (raise_if (independence_witness \<noteq> [] \<and> \<not> require_independent) WitnessWithoutGate) (\<lambda>_.
      ebind (raise_if (independence_witness \<noteq> [] \<and> target = None) WitnessWithoutTarget) (\<lambda>_.
      case pred of
        None \<Rightarrow> Inl PredictionMissing
      | Some p \<Rightarrow>
          ebind (raise_if (\<not> fl_isfinite measured) MeasuredNotFinite) (\<lambda>_.
          let delta = fl_sub measured (pd_baseline_value p);
              improved = improves p delta;
              in_band = within_noise p delta
          in ebind (structured_novelty p target novel_measured measured_sha novel_sha) (\<lambda>(hit, noindep).
          let (novel, unproved, licensed) =
                cross_metric_gate p target hit measured_sha novel_sha require_independent witness
          in Inr \<lparr> jd_verdict = metric_verdict improved novel in_band, jd_delta = delta,
                   jd_improved = improved, jd_novel = novel,
                   jd_reason = \<lparr> jr_noise_band = pd_noise_band p,
                                 jr_sense = map_option nt_novelty_sense target,
                                 jr_same_source = noindep, jr_cross_unproved = unproved,
                                 jr_witness = (if licensed then Some witness else None) \<rparr> \<rparr>)))))"

section \<open>Facts\<close>

text \<open>What a novelty claim needs: a target that is hit by a finite independent measurement.\<close>

definition independent_hit ::
  "prediction \<Rightarrow> novel_target option \<Rightarrow> pyfloat option \<Rightarrow> string \<Rightarrow> string \<Rightarrow> bool \<Rightarrow> string \<Rightarrow> bool" where
  "independent_hit p target novel_measured measured_sha novel_sha require_independent witness =
     (case (target, novel_measured) of
        (Some t, Some x) \<Rightarrow>
          corroborated t x \<and>
          (distinct_source measured_sha novel_sha
           \<or> nt_metric_name t \<noteq> pd_metric_name p \<and> (\<not> require_independent \<or> \<not> str_blank witness))
      | _ \<Rightarrow> False)"

lemma str_strip_Nil: "str_strip s = [] \<longleftrightarrow> str_blank s"
proof
  assume "str_strip s = []"
  then have "str_blank (str_strip s)" by (simp add: str_blank_def)
  then show "str_blank s" by (simp only: str_blank_strip)
next
  assume "str_blank s"
  then have "dropWhile is_space s = []" by (simp only: dropWhile_blank)
  then show "str_strip s = []" by (simp only: str_strip_def rev.simps dropWhile.simps)
qed

lemma post_init_prediction_iff:
  "post_init_prediction p = Inr () \<longleftrightarrow>
     pd_scale_type p \<in> {''ratio'', ''interval'', ''ordinal''}
     \<and> (pd_scale_type p = ''ordinal'' \<longrightarrow> fl_eq (pd_noise_band p) (PFin 0))
     \<and> \<not> fl_less (pd_noise_band p) (PFin 0)
     \<and> fl_isfinite (pd_baseline_value p)
     \<and> pd_direction p \<in> {''lower'', ''higher''}"
  by (auto simp: post_init_prediction_def result_simps check_simps SCALE_TYPES_def)

lemma judge_success:
  assumes "judge (Some p) m target nm ms ns g w = Inr j"
  shows "fl_isfinite m \<and> jd_delta j = fl_sub m (pd_baseline_value p)
    \<and> jd_improved j = improves p (jd_delta j)
    \<and> jd_novel j = independent_hit p target nm ms ns g w
    \<and> jd_verdict j = metric_verdict (jd_improved j) (jd_novel j) (within_noise p (jd_delta j))"
  using assms
  by (auto simp: judge_def Let_def result_simps check_simps structured_novelty_def
      cross_metric_gate_def independent_hit_def str_strip_Nil
      split: option.splits if_splits prod.splits)

lemma metric_verdict_progressive [simp]:
  "metric_verdict i n w = ''progressive'' \<longleftrightarrow> i \<and> n"
  by (simp add: metric_verdict_def)

text \<open>The prediction's order: \<open>a\<close> is a strictly better value than \<open>b\<close>.\<close>

definition better :: "prediction \<Rightarrow> pyfloat \<Rightarrow> pyfloat \<Rightarrow> bool" where
  "better p a b = (if pd_direction p = ''lower'' then fl_less a b else fl_less b a)"

lemma fl_finite_cases: "fl_isfinite a \<Longrightarrow> \<exists>x. a = PFin x"
  by (cases a) auto

lemma fl_less_trans: "fl_less a b \<Longrightarrow> fl_less b c \<Longrightarrow> fl_less a c"
  by (cases a; cases b; cases c) auto

lemma not_less_zero: "\<not> fl_less b (PFin 0) \<Longrightarrow> b = PNaN \<or> fl_less (PFin 0) b \<or> b = PFin 0"
  by (cases b) auto

lemma improves_better:
  assumes p: "post_init_prediction p = Inr ()" and i: "improves p (fl_sub m (pd_baseline_value p))"
    and m: "fl_isfinite m" "is_binary64 m" and b: "is_binary64 (pd_baseline_value p)"
  shows "better p m (pd_baseline_value p)"
proof -
  from p have f: "fl_isfinite (pd_baseline_value p)" and nb: "\<not> fl_less (pd_noise_band p) (PFin 0)"
    by (simp_all add: post_init_prediction_iff)
  obtain x y where xy: "m = PFin x" "pd_baseline_value p = PFin y"
    using m(1) f by (meson fl_finite_cases)
  let ?d = "fl_sub (PFin x) (PFin y)"
  have pos: "fl_less (PFin 0) ?d \<longleftrightarrow> y < x" and neg: "fl_less ?d (PFin 0) \<longleftrightarrow> x < y"
    using m(2) b by (simp_all only: xy fsub_pos_iff fsub_neg_iff)
  from not_less_zero [OF nb] show ?thesis
  proof (elim disjE)
    assume "pd_noise_band p = PNaN"
    with i show ?thesis by (simp add: improves_def split: if_splits)
  next
    assume z: "fl_less (PFin 0) (pd_noise_band p)"
    then have n: "fl_less (fl_neg (pd_noise_band p)) (PFin 0)"
      by (metis fl_less_neg fl_neg_zero)
    show ?thesis
    proof (cases "pd_direction p = ''lower''")
      case True
      with i have "fl_less ?d (fl_neg (pd_noise_band p))" by (simp add: improves_def xy)
      then have "fl_less ?d (PFin 0)" using n by (rule fl_less_trans)
      with True show ?thesis by (simp add: better_def xy neg)
    next
      case False
      with i have "fl_less (pd_noise_band p) ?d" by (simp add: improves_def xy)
      with z have "fl_less (PFin 0) ?d" by (rule fl_less_trans)
      with False show ?thesis by (simp add: better_def xy pos)
    qed
  next
    assume "pd_noise_band p = PFin 0"
    with i show ?thesis unfolding improves_def better_def xy by (simp add: pos neg split: if_splits)
  qed
qed

text \<open>With no noise band the computed difference decides the order exactly.\<close>

lemma zero_band_improves:
  assumes z: "pd_noise_band p = PFin 0"
    and m: "fl_isfinite m" "is_binary64 m" and b: "fl_isfinite (pd_baseline_value p)" "is_binary64 (pd_baseline_value p)"
  shows "improves p (fl_sub m (pd_baseline_value p)) \<longleftrightarrow> better p m (pd_baseline_value p)"
    and "within_noise p (fl_sub m (pd_baseline_value p)) \<longleftrightarrow> m = pd_baseline_value p"
proof -
  obtain x y where xy: "m = PFin x" "pd_baseline_value p = PFin y"
    using m(1) b(1) by (meson fl_finite_cases)
  let ?d = "fl_sub (PFin x) (PFin y)"
  have pos: "fl_less (PFin 0) ?d \<longleftrightarrow> y < x" and neg: "fl_less ?d (PFin 0) \<longleftrightarrow> x < y"
    using m(2) b(2) by (simp_all only: xy fsub_pos_iff fsub_neg_iff)
  show "improves p (fl_sub m (pd_baseline_value p)) \<longleftrightarrow> better p m (pd_baseline_value p)"
    by (simp add: improves_def better_def xy z pos neg)
  have "fl_le (fl_abs ?d) (PFin 0) \<longleftrightarrow> \<not> fl_less (PFin 0) ?d \<and> \<not> fl_less ?d (PFin 0)"
    using fl_sub_not_nan [of x y] by (cases ?d) (auto simp: fl_le_def)
  then show "within_noise p (fl_sub m (pd_baseline_value p)) \<longleftrightarrow> m = pd_baseline_value p"
    by (auto simp: within_noise_def xy z pos neg)
qed

text \<open>A band that is not a number passes the constructor's checks and rejects every measurement.\<close>

lemma nan_band_rejects:
  assumes "pd_noise_band p = PNaN" and "judge (Some p) m target nm ms ns g w = Inr j"
  shows "jd_verdict j = ''rejected''"
  using judge_success [OF assms(2)] assms(1)
  by (simp add: improves_def within_noise_def metric_verdict_def)

lemma judge_verdict_scripted:
  "judge (Some p) m target nm ms ns g w = Inr j \<Longrightarrow> jd_verdict j \<in> SCRIPTED_VERDICTS"
  by (drule judge_success) (simp add: metric_verdict_def SCRIPTED_VERDICTS_def)

end
