(* ===== verification/Engine_Foundation.thy ===== *)
theory Engine_Foundation
  imports LT_Prelude
begin

text \<open>
  The foundation of a research project, \<^verbatim>\<open>lakatos/engine.py\<close>: requirements, the map
  of them, the default map of a new project and the gate; and
  \<^verbatim>\<open>lakatos/verdict/cert_gate.py\<close>, which keeps a requirement satisfied only while its
  evidence is certified.

  A \<^verbatim>\<open>FoundationMap\<close> is its dict, an association list in insertion order. The
  exceptions of the module are \<open>engine_error\<close>.
\<close>

section \<open>Gate results and requirements\<close>

datatype engine_error = EValueError string | EKeyError string

record gate_result =
  gr_passed :: bool
  gr_reasons :: "string list"

definition gate_pass :: gate_result where
  "gate_pass = \<lparr> gr_passed = True, gr_reasons = [] \<rparr>"

definition gate_fail :: "string list \<Rightarrow> gate_result" where
  "gate_fail reasons = \<lparr> gr_passed = False, gr_reasons = reasons \<rparr>"

datatype knowledge_kind =
    THEORY | DOMAIN | DATA | METRIC | METHOD | TOOL | TRUST | REPRODUCIBILITY | HUMAN_PROTOCOL

fun kind_value :: "knowledge_kind \<Rightarrow> string" where
  "kind_value THEORY = ''theory''"
| "kind_value DOMAIN = ''domain''"
| "kind_value DATA = ''data''"
| "kind_value METRIC = ''metric''"
| "kind_value METHOD = ''method''"
| "kind_value TOOL = ''tool''"
| "kind_value TRUST = ''trust''"
| "kind_value REPRODUCIBILITY = ''reproducibility''"
| "kind_value HUMAN_PROTOCOL = ''human_protocol''"

record research_project =
  rp_name :: string
  rp_goal :: string
  rp_root_artifacts :: "string list"

record foundation_requirement =
  fr_name :: string
  fr_kind :: knowledge_kind
  fr_question :: string
  fr_why_needed :: string
  fr_acceptance_criteria :: "string list"
  fr_evidence_refs :: "string list"
  fr_status :: string
  fr_optional :: bool
  fr_owner :: string
  fr_risk_if_missing :: string

definition satisfied :: "foundation_requirement \<Rightarrow> bool" where
  "satisfied r =
     (if fr_optional r \<and> fr_status r = ''waived'' then True
      else fr_status r = ''satisfied'' \<and> fr_evidence_refs r \<noteq> [])"

section \<open>The map\<close>

type_synonym foundation_map = "(string \<times> foundation_requirement) list"

definition fmap_add :: "foundation_map \<Rightarrow> foundation_requirement \<Rightarrow> engine_error + foundation_map" where
  "fmap_add m r =
     (if fr_name r \<in> set (map fst m)
      then Inl (EValueError (''foundation requirement already exists: '' @ fr_name r))
      else Inr (m @ [(fr_name r, r)]))"

definition requirements :: "foundation_map \<Rightarrow> foundation_requirement list" where
  "requirements m = map snd m"

definition gaps :: "foundation_map \<Rightarrow> foundation_requirement list" where
  "gaps m = filter (\<lambda>r. \<not> satisfied r) (map snd m)"

text \<open>\<^verbatim>\<open>d[k] = d.get(k, 0) + 1\<close>.\<close>

fun count_up :: "string \<Rightarrow> (string \<times> nat) list \<Rightarrow> (string \<times> nat) list" where
  "count_up k [] = [(k, 1)]"
| "count_up k ((k', n) # kvs) = (if k = k' then (k, Suc n) # kvs else (k', n) # count_up k kvs)"

record foundation_summary =
  fs_required :: nat
  fs_satisfied :: nat
  fs_gaps :: "string list"
  fs_by_kind :: "(string \<times> nat) list"

definition summary :: "foundation_map \<Rightarrow> foundation_summary" where
  "summary m =
     \<lparr> fs_required = length (requirements m),
       fs_satisfied = length (requirements m) - length (gaps m),
       fs_gaps = map fr_name (gaps m),
       fs_by_kind = fold (\<lambda>r. count_up (kind_value (fr_kind r))) (requirements m) [] \<rparr>"

definition needed :: "string \<Rightarrow> knowledge_kind \<Rightarrow> string \<Rightarrow> string \<Rightarrow> string list \<Rightarrow> foundation_requirement" where
  "needed name kind question why criteria =
     \<lparr> fr_name = name, fr_kind = kind, fr_question = question, fr_why_needed = why,
       fr_acceptance_criteria = criteria, fr_evidence_refs = [], fr_status = ''needed'',
       fr_optional = False, fr_owner = [], fr_risk_if_missing = [] \<rparr>"

definition default_requirements :: "foundation_requirement list" where
  "default_requirements =
     [needed ''research-program-theory'' THEORY
        ''what counts as progressive, degenerating, or merely partial?''
        ''prevents the tree from becoming an absolute narrative''
        [''verdict vocabulary'', ''revision rule'', ''non-absolute current best''],
      needed ''domain-ontology'' DOMAIN
        ''what entities, observations, and interventions exist in this project?''
        ''prevents project-specific facts from leaking into the framework''
        [''entity vocabulary'', ''scope boundary'', ''unknown list''],
      needed ''root-data-contract'' DATA
        ''what raw/root artifacts anchor the research?''
        ''makes all derived results replayable from roots''
        [''root artifact ids'', ''content hashes'', ''stale policy''],
      needed ''metric-contract'' METRIC
        ''which metrics judge branches and where do metric relabels break continuity?''
        ''prevents relabel events from masquerading as progress''
        [''metric_name'', ''direction'', ''noise_band'', ''relabel rule''],
      needed ''trust-and-provenance-contract'' TRUST
        ''which sources and observations are trusted enough for each claim tier?''
        ''prevents internet observations from silently becoming extracted claims''
        [''credibility tier'', ''source refs'', ''corroboration rule''],
      needed ''reproducibility-contract'' REPRODUCIBILITY
        ''how can final artifacts be regenerated from root artifacts?''
        ''keeps buffers temporary and final claims replayable''
        [''lineage DAG'', ''producer sha'', ''rebuild plan''],
      needed ''human-agent-protocol'' HUMAN_PROTOCOL
        ''what can humans decide, what can agents build, and how are doubts recorded?''
        ''keeps critique, construction, and sigma judgement separate''
        [''critique channel'', ''closure events'', ''conflict rule'']]"

text \<open>\<^verbatim>\<open>d[k] = f(d[k])\<close> for a key that is present.\<close>

definition at_key :: "string \<Rightarrow> ('a \<Rightarrow> 'a) \<Rightarrow> (string \<times> 'a) list \<Rightarrow> (string \<times> 'a) list" where
  "at_key k f kvs = map (\<lambda>(k', v). (k', if k' = k then f v else v)) kvs"

definition default_for_project :: "research_project \<Rightarrow> engine_error + foundation_map" where
  "default_for_project project =
     ebind (fold_result fmap_add [] default_requirements) (\<lambda>fmap.
       Inr (if rp_root_artifacts project \<noteq> []
            then at_key ''root-data-contract''
                   (\<lambda>r. r\<lparr> fr_evidence_refs := rp_root_artifacts project, fr_status := ''satisfied'' \<rparr>) fmap
            else fmap))"

definition foundation_gate :: "foundation_map \<Rightarrow> gate_result" where
  "foundation_gate m =
     (let gs = gaps m in if gs = [] then gate_pass else gate_fail (map fr_name gs))"

section \<open>Certified foundations\<close>

definition is_evidence_backed :: "foundation_requirement \<Rightarrow> bool" where
  "is_evidence_backed r \<longleftrightarrow> fr_status r = ''satisfied'' \<and> fr_evidence_refs r \<noteq> []"

text \<open>The callback \<open>evidence_ok\<close> is injected by the server.\<close>

definition demote_uncertified :: "(string \<Rightarrow> bool) \<Rightarrow> foundation_requirement \<Rightarrow> foundation_requirement" where
  "demote_uncertified evidence_ok r =
     (if is_evidence_backed r \<and> \<not> list_all evidence_ok (fr_evidence_refs r)
      then r\<lparr> fr_status := ''needed'' \<rparr> else r)"

definition certified_foundation :: "foundation_map \<Rightarrow> (string \<Rightarrow> bool) \<Rightarrow> engine_error + foundation_map" where
  "certified_foundation fmap evidence_ok =
     fold_result (\<lambda>out r. fmap_add out (demote_uncertified evidence_ok r)) [] (requirements fmap)"

section \<open>Facts\<close>

text \<open>What \<open>fmap_add\<close> maintains: a key names its requirement, once.\<close>

definition fmap_ok :: "foundation_map \<Rightarrow> bool" where
  "fmap_ok m \<longleftrightarrow> distinct (map fst m) \<and> list_all (\<lambda>(k, r). fr_name r = k) m"

lemma fmap_ok_keys: "fmap_ok m \<Longrightarrow> map fst m = map fr_name (requirements m)"
  by (auto simp: fmap_ok_def requirements_def list_all_iff)

lemma fmap_add_ok: "fmap_ok m \<Longrightarrow> fmap_add m r = Inr m' \<Longrightarrow> fmap_ok m'"
  by (auto simp: fmap_ok_def fmap_add_def split: if_splits)

lemma fmap_add_all:
  "fmap_ok m \<Longrightarrow> distinct (map fst m @ map fr_name rs) \<Longrightarrow>
     fold_result fmap_add m rs = Inr (m @ map (\<lambda>r. (fr_name r, r)) rs)"
  by (induction rs arbitrary: m) (auto simp: fmap_add_def fmap_ok_def)

lemma fold_result_map:
  "fold_result (\<lambda>s x. f s (g x)) s xs = fold_result f s (map g xs)"
  by (induction xs arbitrary: s) simp_all

lemma name_demote [simp]: "fr_name (demote_uncertified ok r) = fr_name r"
  by (simp add: demote_uncertified_def)

lemma satisfied_demote:
  "satisfied (demote_uncertified ok r) \<longleftrightarrow>
     satisfied r \<and> (fr_optional r \<and> fr_status r = ''waived'' \<or> list_all ok (fr_evidence_refs r))"
  by (auto simp: satisfied_def demote_uncertified_def is_evidence_backed_def)

lemma certified_foundation_total:
  assumes "fmap_ok m"
  shows "certified_foundation m ok
       = Inr (map (\<lambda>r. (fr_name r, demote_uncertified ok r)) (requirements m))"
proof -
  have "distinct (map fr_name (requirements m))"
    using assms by (simp add: fmap_ok_keys [symmetric]) (simp add: fmap_ok_def)
  then show ?thesis
    unfolding certified_foundation_def fold_result_map
    by (subst fmap_add_all) (simp_all add: fmap_ok_def comp_def)
qed

lemma foundation_gate_passes:
  "gr_passed (foundation_gate m) \<longleftrightarrow> list_all satisfied (requirements m)"
  by (auto simp: foundation_gate_def gaps_def requirements_def Let_def gate_pass_def gate_fail_def
      filter_empty_conv list_all_iff)

lemma foundation_gate_names_gaps:
  "gr_reasons (foundation_gate m) = map fr_name (gaps m)"
  by (simp add: foundation_gate_def gate_pass_def gate_fail_def Let_def)

lemma summary_counts:
  "fs_satisfied (summary m) = length (filter satisfied (requirements m))"
  using sum_length_filter_compl [of satisfied "map snd m"]
  by (simp add: summary_def requirements_def gaps_def)

end
