(* ===== verification/Engine_Gates.thy ===== *)
theory Engine_Gates
  imports Engine_Foundation Py_Float
begin

text \<open>
  The gates and the in-memory models of \<^verbatim>\<open>lakatos/engine.py\<close>: source credibility and
  its promotion gate, the Lakatos gate, the research frame, the ledger of internet observations,
  the tree of nodes and the evidence test of a shell act; with
  \<^verbatim>\<open>evidence_weight\<close> of \<^verbatim>\<open>lakatos/trust.py\<close>.

  Time stamps are only stored here; their type is a parameter. Dicts are association lists in
  insertion order.
\<close>

section \<open>Credibility\<close>

text \<open>\<^verbatim>\<open>max(0.0, min(1.0, float(value)))\<close>.\<close>

definition clamp01 :: "pyfloat \<Rightarrow> pyfloat" where
  "clamp01 v = fl_max (PFin 0) (fl_min (PFin 1) v)"

definition evidence_weight :: "pyfloat option \<Rightarrow> pyfloat \<Rightarrow> pyfloat" where
  "evidence_weight source_trust floor_weight =
     (let st = (case source_trust of None \<Rightarrow> PFin 0 | Some t \<Rightarrow> t)
      in fl_add floor_weight (fl_mul (fl_sub (PFin 1) floor_weight) (clamp01 st)))"

datatype credibility_tier = EXTRACTED | INFERRED | AMBIGUOUS

definition credibility_extracted_trust :: pyfloat where
  "credibility_extracted_trust = fl_literal 70 100"

definition credibility_inferred_trust :: pyfloat where
  "credibility_inferred_trust = fl_literal 35 100"

record credibility_score =
  cs_source_class_weight :: pyfloat
  cs_link_authority :: pyfloat
  cs_primary_source_bonus :: pyfloat
  cs_provenance_score :: pyfloat
  cs_corroboration_score :: pyfloat
  cs_recency_score :: pyfloat
  cs_supply_chain_score :: pyfloat
  cs_injection_penalty :: pyfloat
  cs_conflict_penalty :: pyfloat
  cs_explicit_tier :: "credibility_tier option"

definition score_trust :: "credibility_score \<Rightarrow> pyfloat" where
  "score_trust s =
     (let t1 = fl_mul (fl_literal 18 100) (cs_source_class_weight s);
          t2 = fl_add t1 (fl_mul (fl_literal 12 100) (cs_link_authority s));
          t3 = fl_add t2 (fl_mul (fl_literal 15 100) (cs_primary_source_bonus s));
          t4 = fl_add t3 (fl_mul (fl_literal 15 100) (cs_provenance_score s));
          t5 = fl_add t4 (fl_mul (fl_literal 15 100) (cs_corroboration_score s));
          t6 = fl_add t5 (fl_mul (fl_literal 10 100) (cs_recency_score s));
          t7 = fl_add t6 (fl_mul (fl_literal 10 100) (cs_supply_chain_score s));
          t8 = fl_sub t7 (fl_mul (fl_literal 15 100) (cs_injection_penalty s));
          t9 = fl_sub t8 (fl_mul (fl_literal 10 100) (cs_conflict_penalty s))
      in clamp01 t9)"

definition score_tier :: "credibility_score \<Rightarrow> credibility_tier" where
  "score_tier s =
     (case cs_explicit_tier s of
        Some t \<Rightarrow> t
      | None \<Rightarrow>
          if fl_le credibility_extracted_trust (score_trust s)
             \<and> (fl_le (fl_literal 80 100) (cs_primary_source_bonus s)
                \<or> fl_le (fl_literal 95 100) (cs_provenance_score s))
          then EXTRACTED
          else if fl_le credibility_inferred_trust (score_trust s) then INFERRED
          else AMBIGUOUS)"

definition score_evidence_weight :: "credibility_score \<Rightarrow> pyfloat" where
  "score_evidence_weight s = evidence_weight (Some (score_trust s)) (PFin 0)"

fun tier_rank :: "credibility_tier \<Rightarrow> nat" where
  "tier_rank AMBIGUOUS = 0"
| "tier_rank INFERRED = 1"
| "tier_rank EXTRACTED = 2"

text \<open>The arguments of the gate, as the callers collect them.\<close>

record credibility =
  cr_current :: credibility_tier
  cr_target :: credibility_tier
  cr_has_direct_source :: bool
  cr_has_independent_corroboration :: bool
  cr_has_human_verdict :: bool

definition credibility_gate :: "credibility \<Rightarrow> gate_result" where
  "credibility_gate c =
     (if tier_rank (cr_target c) \<le> tier_rank (cr_current c) then gate_pass
      else let reasons =
        (if cr_target c = INFERRED then
           (if \<not> (cr_has_independent_corroboration c \<or> cr_has_human_verdict c)
            then [''corroboration_or_human_verdict''] else [])
         else if cr_target c = EXTRACTED then
           (if \<not> (cr_has_direct_source c \<or> cr_has_human_verdict c)
            then [''direct_source_or_human_verdict''] else [])
           @ (if cr_current c = AMBIGUOUS \<and> \<not> cr_has_human_verdict c
              then [''ambiguous_to_extracted_requires_human_verdict''] else [])
         else [])
      in if reasons \<noteq> [] then gate_fail reasons else gate_pass)"

section \<open>The Lakatos gate\<close>

datatype lakatos_verdict =
    PROGRESSIVE | PROGRESSIVE_CONDITIONAL | DEGENERATING | OTHER_PROGRAMME | LAKATOS_AMBIGUOUS

fun lakatos_value :: "lakatos_verdict \<Rightarrow> string" where
  "lakatos_value PROGRESSIVE = ''progressive''"
| "lakatos_value PROGRESSIVE_CONDITIONAL = ''progressive_conditional''"
| "lakatos_value DEGENERATING = ''degenerating''"
| "lakatos_value OTHER_PROGRAMME = ''different_programme''"
| "lakatos_value LAKATOS_AMBIGUOUS = ''ambiguous''"

record lakatos_evidence =
  le_theory_laden_anomaly :: bool
  le_independent_testable_consequence :: bool
  le_excess_empirical_content :: bool
  le_hard_core_preserved :: bool
  le_implementation_complete :: bool
  le_data_branch :: bool
  le_data_replay_passed :: bool
  le_human_verdict_required :: bool

record lakatos_gate_result =
  lg_verdict :: lakatos_verdict
  lg_reasons :: "string list"
  lg_requires_human_verdict :: bool

text \<open>The reasons of the conditions that fail, in order.\<close>

definition failing :: "(bool \<times> string) list \<Rightarrow> string list" where
  "failing checks = map snd (filter (\<lambda>(holds, reason). \<not> holds) checks)"

definition lakatos_gate :: "lakatos_evidence \<Rightarrow> lakatos_gate_result" where
  "lakatos_gate e =
     (if le_human_verdict_required e
      then \<lparr> lg_verdict = LAKATOS_AMBIGUOUS, lg_reasons = [''human_verdict_required''],
             lg_requires_human_verdict = True \<rparr>
      else if \<not> le_hard_core_preserved e
      then \<lparr> lg_verdict = OTHER_PROGRAMME, lg_reasons = [''hard_core_violated''],
             lg_requires_human_verdict = False \<rparr>
      else let missing = failing
             [(le_theory_laden_anomaly e, ''theory_laden_anomaly''),
              (le_independent_testable_consequence e, ''independent_testable_consequence''),
              (le_excess_empirical_content e, ''excess_empirical_content'')]
      in if missing \<noteq> []
      then \<lparr> lg_verdict = DEGENERATING, lg_reasons = missing, lg_requires_human_verdict = False \<rparr>
      else let conditional = failing
             [(le_implementation_complete e, ''implementation_incomplete''),
              (\<not> (le_data_branch e \<and> \<not> le_data_replay_passed e), ''data_replay_not_proven'')]
      in if conditional \<noteq> []
      then \<lparr> lg_verdict = PROGRESSIVE_CONDITIONAL, lg_reasons = conditional,
             lg_requires_human_verdict = False \<rparr>
      else \<lparr> lg_verdict = PROGRESSIVE, lg_reasons = [], lg_requires_human_verdict = False \<rparr>)"

section \<open>The tree of nodes\<close>

record lakatos_node =
  ln_name :: string
  ln_verdict :: lakatos_verdict
  ln_branch_from :: "string option"
  ln_comment :: string
  ln_metric_name :: "string option"
  ln_metric_value :: "pyfloat option"
  ln_open_questions :: "string list"
  ln_closed_questions :: "string list"

definition is_canonical_candidate :: "lakatos_node \<Rightarrow> bool" where
  "is_canonical_candidate n \<longleftrightarrow> ln_verdict n \<in> {PROGRESSIVE, PROGRESSIVE_CONDITIONAL}"

type_synonym lakatos_nodes = "(string \<times> lakatos_node) list"

definition add_node :: "lakatos_nodes \<Rightarrow> lakatos_node \<Rightarrow> engine_error + lakatos_nodes" where
  "add_node t n =
     (if ln_name n \<in> set (map fst t) then Inl (EValueError (''node already exists: '' @ ln_name n))
      else case ln_branch_from n of
        Some p \<Rightarrow> (if p \<notin> set (map fst t) then Inl (EKeyError (''unknown parent: '' @ p))
                  else Inr (t @ [(ln_name n, n)]))
      | None \<Rightarrow> Inr (t @ [(ln_name n, n)]))"

definition branch_node :: "lakatos_nodes \<Rightarrow> string \<Rightarrow> lakatos_node \<Rightarrow> engine_error + lakatos_nodes" where
  "branch_node t parent n =
     (if parent \<notin> set (map fst t) then Inl (EKeyError (''unknown parent: '' @ parent))
      else add_node t (n\<lparr> ln_branch_from := Some parent \<rparr>))"

definition get_node :: "lakatos_nodes \<Rightarrow> string \<Rightarrow> engine_error + lakatos_node" where
  "get_node t name =
     (case map_of t name of
        Some n \<Rightarrow> Inr n
      | None \<Rightarrow> Inl (EKeyError (''unknown Lakatos node: '' @ name)))"

definition canonical_nodes :: "lakatos_nodes \<Rightarrow> lakatos_node list" where
  "canonical_nodes t = filter is_canonical_candidate (map snd t)"

definition frontier_nodes :: "lakatos_nodes \<Rightarrow> lakatos_node list" where
  "frontier_nodes t = filter (\<lambda>n. ln_open_questions n \<noteq> []) (canonical_nodes t)"

section \<open>The research frame\<close>

datatype realm = INTERNET | HUMAN | AGENT | BASH | REALM_DATA | KG | GIT

record possibility =
  po_name :: string
  po_question :: string
  po_parent :: "string option"
  po_state :: string
  po_evidence_refs :: "string list"

record 'dt research_event =
  re_name :: string
  re_realm :: realm
  re_actor :: string
  re_action :: string
  re_target :: string
  re_evidence_refs :: "string list"
  re_payload :: "(string \<times> string) list"
  re_created_at :: "'dt option"

record 'dt research_frame =
  rf_project :: research_project
  rf_possibilities :: "(string \<times> possibility) list"
  rf_events :: "'dt research_event list"

definition open_possibility :: "'dt research_frame \<Rightarrow> possibility \<Rightarrow> engine_error + 'dt research_frame" where
  "open_possibility f p =
     (let known = set (map fst (rf_possibilities f)) in
      if po_name p \<in> known then Inl (EValueError (''possibility already exists: '' @ po_name p))
      else case po_parent p of
        Some q \<Rightarrow>
          (if q \<noteq> [] \<and> q \<notin> known then Inl (EKeyError (''unknown parent possibility: '' @ q))
           else Inr (f\<lparr> rf_possibilities := rf_possibilities f @ [(po_name p, p)] \<rparr>))
      | None \<Rightarrow> Inr (f\<lparr> rf_possibilities := rf_possibilities f @ [(po_name p, p)] \<rparr>))"

definition record_event :: "'dt research_frame \<Rightarrow> 'dt research_event \<Rightarrow> engine_error + 'dt research_frame" where
  "record_event f e =
     (if re_target e \<notin> set (map fst (rf_possibilities f))
      then Inl (EKeyError (''unknown event target: '' @ re_target e))
      else Inr (f\<lparr> rf_events := rf_events f @ [e] \<rparr>))"

definition events_for :: "'dt research_frame \<Rightarrow> string \<Rightarrow> 'dt research_event list" where
  "events_for f name = filter (\<lambda>e. re_target e = name) (rf_events f)"

section \<open>The observation ledger\<close>

record 'dt observation =
  io_name :: string
  io_url :: string
  io_query :: string
  io_retrieved_at :: 'dt
  io_content_hash :: string
  io_fetch_tool :: string
  io_source_type :: string
  io_credibility :: credibility_score
  io_raw_snapshot_path :: "string option"
  io_revision_of :: "string option"

type_synonym 'dt ledger = "(string \<times> 'dt observation) list"

definition ledger_add :: "'dt ledger \<Rightarrow> 'dt observation \<Rightarrow> engine_error + 'dt ledger" where
  "ledger_add l ob =
     (if io_name ob \<in> set (map fst l) then Inl (EValueError (''observation already exists: '' @ io_name ob))
      else Inr (l @ [(io_name ob, ob)]))"

definition ledger_get :: "'dt ledger \<Rightarrow> string \<Rightarrow> engine_error + 'dt observation" where
  "ledger_get l name =
     (case map_of l name of Some ob \<Rightarrow> Inr ob | None \<Rightarrow> Inl (EKeyError (''unknown observation: '' @ name)))"

definition by_url :: "'dt ledger \<Rightarrow> string \<Rightarrow> 'dt observation list" where
  "by_url l url = filter (\<lambda>ob. io_url ob = url) (map snd l)"

definition refetch ::
  "'dt ledger \<Rightarrow> string \<Rightarrow> string \<Rightarrow> 'dt \<Rightarrow> string \<Rightarrow> string \<Rightarrow> string option \<Rightarrow> credibility_score option
     \<Rightarrow> engine_error + 'dt ledger" where
  "refetch l previous_name name retrieved_at content_hash fetch_tool raw_snapshot_path new_credibility =
     ebind (ledger_get l previous_name) (\<lambda>previous.
       ledger_add l (previous\<lparr> io_name := name, io_retrieved_at := retrieved_at,
         io_content_hash := content_hash, io_fetch_tool := fetch_tool,
         io_raw_snapshot_path := raw_snapshot_path,
         io_credibility := (case new_credibility of Some c \<Rightarrow> c | None \<Rightarrow> io_credibility previous),
         io_revision_of := Some (io_name previous) \<rparr>))"

section \<open>Facts\<close>

lemma clamp01_bounds: "fl_le (PFin 0) (clamp01 v) \<and> fl_le (clamp01 v) (PFin 1)"
  by (cases v) (auto simp: clamp01_def fl_max_def fl_min_def fl_le_def)

text \<open>A component that is not a number does not lower the trust: it is clamped to one.\<close>

lemma clamp01_nan: "clamp01 PNaN = PFin 1"
  by (simp add: clamp01_def fl_max_def fl_min_def)

lemma fl_add_nan [simp]: "fl_add PNaN b = PNaN" "fl_add a PNaN = PNaN"
  by (cases b; simp) (cases a; simp)

lemma fl_sub_nan [simp]: "fl_sub PNaN b = PNaN"
  by (simp add: fl_sub_def)

lemma fl_mul_nan [simp]: "fl_mul a PNaN = PNaN"
  by (cases a) simp_all

lemma score_trust_bounds: "fl_le (PFin 0) (score_trust s) \<and> fl_le (score_trust s) (PFin 1)"
  by (simp add: score_trust_def Let_def clamp01_bounds)

lemma score_trust_nan: "cs_source_class_weight s = PNaN \<Longrightarrow> score_trust s = PFin 1"
  by (simp add: score_trust_def Let_def clamp01_nan)

lemma credibility_gate_extracted:
  "cr_target c = EXTRACTED \<Longrightarrow>
     gr_passed (credibility_gate c) \<longleftrightarrow>
       cr_current c = EXTRACTED \<or> cr_has_human_verdict c
       \<or> cr_current c = INFERRED \<and> cr_has_direct_source c"
  by (cases "cr_current c") (auto simp: credibility_gate_def gate_pass_def gate_fail_def)

lemma gate_reasons_passed:
  "gr_passed (credibility_gate c) \<longleftrightarrow> gr_reasons (credibility_gate c) = []"
  "gr_passed (foundation_gate m) \<longleftrightarrow> gr_reasons (foundation_gate m) = []"
  by (auto simp: credibility_gate_def foundation_gate_def gate_pass_def gate_fail_def Let_def)

lemma lakatos_gate_progressive:
  "lg_verdict (lakatos_gate e) = PROGRESSIVE \<longleftrightarrow>
     \<not> le_human_verdict_required e \<and> le_hard_core_preserved e
     \<and> le_theory_laden_anomaly e \<and> le_independent_testable_consequence e \<and> le_excess_empirical_content e
     \<and> le_implementation_complete e \<and> (le_data_branch e \<longrightarrow> le_data_replay_passed e)"
  by (simp add: lakatos_gate_def failing_def Let_def)

text \<open>The tree stays a forest over its own names: every parent precedes its child.\<close>

fun parents_precede :: "string set \<Rightarrow> lakatos_nodes \<Rightarrow> bool" where
  "parents_precede seen [] = True"
| "parents_precede seen ((k, n) # t) =
     (k \<notin> seen \<and> ln_name n = k
      \<and> set_option (ln_branch_from n) \<subseteq> seen
      \<and> parents_precede (insert k seen) t)"

lemma parents_precede_append:
  "parents_precede seen (t @ [(k, n)]) \<longleftrightarrow>
     parents_precede seen t \<and> k \<notin> seen \<union> set (map fst t) \<and> ln_name n = k
     \<and> set_option (ln_branch_from n) \<subseteq> seen \<union> set (map fst t)"
proof (induction t arbitrary: seen)
  case Nil
  then show ?case by auto
next
  case (Cons kn t)
  show ?case by (cases kn) (auto simp: Cons.IH)
qed

lemma add_node_forest:
  "add_node t n = Inr t' \<Longrightarrow> parents_precede {} t \<Longrightarrow> parents_precede {} t'"
proof -
  assume a: "add_node t n = Inr t'" and p: "parents_precede {} t"
  have t': "t' = t @ [(ln_name n, n)]" and new: "ln_name n \<notin> set (map fst t)"
    and parent: "set_option (ln_branch_from n) \<subseteq> set (map fst t)"
    using a by (simp_all add: add_node_def split: if_splits option.splits)
  show ?thesis unfolding t' parents_precede_append using p new parent by simp
qed

end
