(* ===== verification/Pnr.thy ===== *)
theory Pnr
  imports LT_Prelude
begin

text \<open>
  Proofs and refutations, \<^verbatim>\<open>lakatos/verdict/pnr.py\<close>: the appraisal of a response to a
  counterexample, the Lakatos-Zahar classes of ad hocness, and the positive heuristic.

  The wordings of the reasons are prose; each is a constructor of \<open>pnr_reason\<close>, applied to what
  the wording interpolates. The labels other modules compare are strings, as in the code.
\<close>

section \<open>Vocabulary\<close>

datatype counterexample_type =
    GLOBAL | LOCAL | LOCAL_AND_GLOBAL | LOCAL_NOT_GLOBAL | GLOBAL_NOT_LOCAL

datatype response =
    SURRENDER | MONSTER_BARRING | EXCEPTION_BARRING | MONSTER_ADJUSTMENT | LEMMA_INCORPORATION
  | PROOFS_AND_REFUTATIONS

fun CONTENT_DIRECTION :: "response \<Rightarrow> string" where
  "CONTENT_DIRECTION SURRENDER = ''abandon''"
| "CONTENT_DIRECTION MONSTER_BARRING = ''preserve_by_redefinition''"
| "CONTENT_DIRECTION EXCEPTION_BARRING = ''decrease''"
| "CONTENT_DIRECTION MONSTER_ADJUSTMENT = ''preserve_by_reinterpretation''"
| "CONTENT_DIRECTION LEMMA_INCORPORATION = ''increase_and_deepen''"
| "CONTENT_DIRECTION PROOFS_AND_REFUTATIONS = ''increase_and_deepen''"

definition NEVER_LEARNS :: "response set" where
  "NEVER_LEARNS = {MONSTER_BARRING, MONSTER_ADJUSTMENT}"

definition ad_hoc_class :: "bool \<Rightarrow> bool \<Rightarrow> bool \<Rightarrow> string" where
  "ad_hoc_class excess_content novel_corroborated in_heuristic_spirit =
     (if \<not> excess_content then ''ad_hoc1''
      else if \<not> novel_corroborated then ''ad_hoc2''
      else if \<not> in_heuristic_spirit then ''ad_hoc3''
      else ''progressive'')"

section \<open>The positive heuristic\<close>

record positive_heuristic =
  ph_hard_core :: "string list"
  ph_planned_problemshifts :: "string list"

definition in_spirit :: "positive_heuristic \<Rightarrow> string \<Rightarrow> bool" where
  "in_spirit h move \<longleftrightarrow> move \<in> set (ph_planned_problemshifts h)"

definition next_problemshift :: "positive_heuristic \<Rightarrow> string list \<Rightarrow> string option" where
  "next_problemshift h completed = find (\<lambda>s. s \<notin> set completed) (ph_planned_problemshifts h)"

section \<open>The appraisal\<close>

record proof_generated_concept =
  pgc_name :: string
  pgc_born_from_counterexample :: string
  pgc_incorporated_lemma :: string

datatype pnr_reason =
    ConjectureSurrendered
  | HardCoreViolated
  | Avoided response
  | PiecemealExclusion
  | StrategicRetreat
  | NoExcessContent
  | OutsideHeuristic
  | AwaitingCorroboration
  | SpiritUnverified
  | ConceptMissing
  | LearnedAndCorroborated
  | ConceptBorn string
  | HiddenLemmaSignal counterexample_type
  | IdealStartingPoint counterexample_type
  | TypeNoted counterexample_type

record appraisal =
  ap_verdict :: string
  ap_learned :: bool
  ap_ad_hoc :: string
  ap_content_direction :: string
  ap_reasons :: "pnr_reason list"
  ap_concept :: "proof_generated_concept option"

text \<open>A response that learns: \<open>(verdict, ad hoc class, reasons)\<close>. The spirit is \<open>None\<close> while
  nobody has judged it.\<close>

definition appraise_learned ::
  "response \<Rightarrow> bool \<Rightarrow> bool \<Rightarrow> bool option \<Rightarrow> proof_generated_concept option \<Rightarrow> string \<times> string \<times> pnr_reason list" where
  "appraise_learned response excess corrob spirit pgc =
     (if \<not> excess then (''degenerating'', ''ad_hoc1'', [NoExcessContent])
      else if spirit = Some False then (''degenerating'', ''ad_hoc3'', [OutsideHeuristic])
      else if \<not> corrob then (''conditional'', ''ad_hoc2'', [AwaitingCorroboration])
      else if spirit = None then (''conditional'', ''spirit_unverified'', [SpiritUnverified])
      else if response = PROOFS_AND_REFUTATIONS \<and> pgc = None
      then (''conditional'', ''progressive'', [ConceptMissing])
      else (''progressive'', ''progressive'',
            LearnedAndCorroborated # (case pgc of None \<Rightarrow> [] | Some c \<Rightarrow> [ConceptBorn (pgc_name c)])))"

definition HIDDEN_LEMMA :: "counterexample_type set" where
  "HIDDEN_LEMMA = {LOCAL_NOT_GLOBAL, GLOBAL_NOT_LOCAL}"

definition counterexample_note :: "counterexample_type option \<Rightarrow> pnr_reason option" where
  "counterexample_note ct =
     (case ct of
        None \<Rightarrow> None
      | Some t \<Rightarrow>
          if t \<in> HIDDEN_LEMMA then Some (HiddenLemmaSignal t)
          else if t = LOCAL_AND_GLOBAL then Some (IdealStartingPoint t)
          else Some (TypeNoted t))"

definition appraise_core ::
  "response \<Rightarrow> bool \<Rightarrow> bool \<Rightarrow> bool option \<Rightarrow> bool \<Rightarrow> proof_generated_concept option \<Rightarrow> appraisal" where
  "appraise_core response excess_content novel_corroborated spirit hard_core_preserved pgc =
     (let direction = CONTENT_DIRECTION response;
          learned = appraise_learned response excess_content novel_corroborated spirit pgc
      in if response = SURRENDER
         then \<lparr> ap_verdict = ''withdrawn'', ap_learned = False, ap_ad_hoc = ''n/a'',
                ap_content_direction = direction, ap_reasons = [ConjectureSurrendered],
                ap_concept = None \<rparr>
         else if \<not> hard_core_preserved
         then \<lparr> ap_verdict = ''different_programme'', ap_learned = False, ap_ad_hoc = ''n/a'',
                ap_content_direction = direction, ap_reasons = [HardCoreViolated],
                ap_concept = None \<rparr>
         else if response \<in> NEVER_LEARNS
         then \<lparr> ap_verdict = ''degenerating'', ap_learned = False, ap_ad_hoc = ''n/a'',
                ap_content_direction = direction, ap_reasons = [Avoided response],
                ap_concept = None \<rparr>
         else if response = EXCEPTION_BARRING
         then (if \<not> (excess_content \<and> spirit = Some True)
               then \<lparr> ap_verdict = ''degenerating'', ap_learned = False, ap_ad_hoc = ''n/a'',
                      ap_content_direction = ''decrease'', ap_reasons = [PiecemealExclusion],
                      ap_concept = None \<rparr>
               else (case learned of (verdict, klass, msgs) \<Rightarrow>
                      \<lparr> ap_verdict = verdict, ap_learned = True, ap_ad_hoc = klass,
                        ap_content_direction = direction, ap_reasons = StrategicRetreat # msgs,
                        ap_concept = pgc \<rparr>))
         else (case learned of (verdict, klass, msgs) \<Rightarrow>
                \<lparr> ap_verdict = verdict, ap_learned = True, ap_ad_hoc = klass,
                  ap_content_direction = direction, ap_reasons = msgs, ap_concept = pgc \<rparr>))"

definition appraise_response ::
  "response \<Rightarrow> bool \<Rightarrow> bool \<Rightarrow> bool option \<Rightarrow> bool \<Rightarrow> proof_generated_concept option
     \<Rightarrow> counterexample_type option \<Rightarrow> appraisal" where
  "appraise_response response excess_content novel_corroborated spirit hard_core_preserved pgc ct =
     (let a = appraise_core response excess_content novel_corroborated spirit hard_core_preserved pgc
      in case counterexample_note ct of
           None \<Rightarrow> a
         | Some note \<Rightarrow> a\<lparr> ap_reasons := ap_reasons a @ [note] \<rparr>)"

section \<open>Facts\<close>

lemma appraise_response_fields:
  "ap_verdict (appraise_response r e c s h p ct) = ap_verdict (appraise_core r e c s h p)"
  "ap_learned (appraise_response r e c s h p ct) = ap_learned (appraise_core r e c s h p)"
  "ap_ad_hoc (appraise_response r e c s h p ct) = ap_ad_hoc (appraise_core r e c s h p)"
  by (simp_all add: appraise_response_def Let_def split: option.split)

text \<open>The progressive verdict, and what each of its conditions contributes.\<close>

lemma appraised_progressive:
  "ap_verdict (appraise_response r e c s h p ct) = ''progressive'' \<longleftrightarrow>
     r \<in> {EXCEPTION_BARRING, LEMMA_INCORPORATION, PROOFS_AND_REFUTATIONS}
     \<and> h \<and> e \<and> c \<and> s = Some True \<and> (r = PROOFS_AND_REFUTATIONS \<longrightarrow> p \<noteq> None)"
  by (cases r; cases s)
    (auto simp: appraise_response_fields appraise_core_def appraise_learned_def NEVER_LEARNS_def Let_def)

lemma appraised_learned:
  "ap_learned (appraise_response r e c s h p ct) \<longleftrightarrow>
     h \<and> (r \<in> {LEMMA_INCORPORATION, PROOFS_AND_REFUTATIONS} \<or> r = EXCEPTION_BARRING \<and> e \<and> s = Some True)"
  by (cases r)
    (auto simp: appraise_response_fields appraise_core_def NEVER_LEARNS_def Let_def split: prod.split)

lemma appraised_verdicts:
  "ap_verdict (appraise_response r e c s h p ct) \<in>
     {''withdrawn'', ''different_programme'', ''degenerating'', ''conditional'', ''progressive''}"
  by (cases r)
    (auto simp: appraise_response_fields appraise_core_def appraise_learned_def NEVER_LEARNS_def Let_def)

text \<open>The appraisal agrees with the Lakatos-Zahar classes wherever both speak.\<close>

lemma appraised_progressive_not_ad_hoc:
  "ap_verdict (appraise_response r e c (Some s) h p ct) = ''progressive'' \<Longrightarrow>
     ad_hoc_class e c s = ''progressive''"
  by (auto simp: appraised_progressive ad_hoc_class_def)

lemma next_problemshift_Some:
  "next_problemshift h completed = Some s \<Longrightarrow> in_spirit h s \<and> s \<notin> set completed"
  by (auto simp: next_problemshift_def in_spirit_def dest: find_SomeD)

lemma next_problemshift_None:
  "next_problemshift h completed = None \<longleftrightarrow> set (ph_planned_problemshifts h) \<subseteq> set completed"
  by (auto simp: next_problemshift_def find_None_iff)

end
