(* ===== verification/Promotion.thy ===== *)
theory Promotion
  imports Verdict_Force Engine_Gates Pnr
begin

text \<open>
  The single authority of a verdict: \<^verbatim>\<open>lakatos/verdict/compose.py\<close>,
  \<^verbatim>\<open>lakatos/verdict/promote.py\<close> and \<^verbatim>\<open>lakatos/verdict/spine.py\<close>.

  \<^verbatim>\<open>combine\<close> asks whether its first argument is the object \<open>IDENTITY\<close>, not an equal
  one; a reference to a gate outcome is therefore either \<open>IdentityGate\<close> or a gate. The dicts the
  spine returns are records; a key that only some branches set is an option.
\<close>

section \<open>Composition of gates\<close>

record gate_outcome =
  go_name :: string
  go_reasons :: "string list"

definition outcome_passed :: "gate_outcome \<Rightarrow> bool" where
  "outcome_passed g \<longleftrightarrow> go_reasons g = []"

datatype gate_ref = IdentityGate | Gate gate_outcome

fun outcome :: "gate_ref \<Rightarrow> gate_outcome" where
  "outcome IdentityGate = \<lparr> go_name = ''identity'', go_reasons = [] \<rparr>"
| "outcome (Gate g) = g"

definition hard_fail :: "string \<Rightarrow> string list \<Rightarrow> gate_outcome" where
  "hard_fail name reasons = \<lparr> go_name = name, go_reasons = (if reasons \<noteq> [] then reasons else [name]) \<rparr>"

definition combine :: "gate_ref \<Rightarrow> gate_ref \<Rightarrow> gate_ref" where
  "combine a b =
     Gate \<lparr> go_name = (if a = IdentityGate then go_name (outcome b) else go_name (outcome a)),
            go_reasons = go_reasons (outcome a) @ go_reasons (outcome b) \<rparr>"

fun compose_from :: "gate_ref \<Rightarrow> gate_ref option list \<Rightarrow> gate_ref" where
  "compose_from out [] = out"
| "compose_from out (None # gs) = compose_from out gs"
| "compose_from out (Some g # gs) = compose_from (combine out g) gs"

definition compose_gates :: "gate_ref option list \<Rightarrow> gate_outcome" where
  "compose_gates gs = outcome (compose_from IdentityGate gs)"

section \<open>The promotion gate\<close>

definition PROMOTABLE :: "string set" where
  "PROMOTABLE = (SCRIPTED_VERDICTS \<inter> PROGRESS_VERDICTS) \<union> ADMIN_VERDICTS \<union> {''progressive_conditional''}"

definition promotion_gate :: "string \<Rightarrow> bool \<Rightarrow> bool option \<Rightarrow> string list \<Rightarrow> bool \<times> string list" where
  "promotion_gate scripted_verdict stands reproducible blocking_reasons =
     (let reasons =
        (if scripted_verdict \<notin> PROMOTABLE then [''verdict_not_promotable:'' @ scripted_verdict] else [])
        @ (if \<not> stands then [''unresolved_doubt''] else [])
        @ (if reproducible = Some False then [''not_reproducible''] else [])
        @ blocking_reasons
      in (reasons = [], reasons))"

section \<open>The spine\<close>

definition credibility_from_trust :: "pyfloat \<Rightarrow> bool \<Rightarrow> bool \<Rightarrow> bool \<Rightarrow> credibility" where
  "credibility_from_trust source_trust novel_confirmed has_human_verdict trust_backed =
     (let current =
        (if trust_backed \<and> fl_le credibility_extracted_trust source_trust then EXTRACTED
         else if trust_backed \<and> fl_le credibility_inferred_trust source_trust then INFERRED
         else AMBIGUOUS)
      in \<lparr> cr_current = current, cr_target = EXTRACTED,
           cr_has_direct_source = (trust_backed \<and> fl_le credibility_extracted_trust source_trust),
           cr_has_independent_corroboration = novel_confirmed,
           cr_has_human_verdict = has_human_verdict \<rparr>)"

text \<open>The reasons of a decision are those of the Lakatos gate or those of the appraisal.\<close>

datatype decision_reasons = GateReasons "string list" | AppraisalReasons "pnr_reason list"

record reconciled =
  dc_verdict :: string
  dc_lakatos :: string
  dc_status :: string
  dc_reasons :: decision_reasons
  dc_qualitative_reasons :: "string list option"
  dc_requires_human :: "bool option"
  dc_pnr :: "string option"
  dc_ad_hoc :: "string option"

definition reconcile_verdict :: "string \<Rightarrow> lakatos_gate_result option \<Rightarrow> reconciled" where
  "reconcile_verdict metric_verdict lakatos_result =
     (if metric_verdict \<noteq> ''progressive'' then
        \<lparr> dc_verdict = metric_verdict,
          dc_lakatos = (case lakatos_result of None \<Rightarrow> ''n/a'' | Some l \<Rightarrow> lakatos_value (lg_verdict l)),
          dc_status = ''metric_decided'', dc_reasons = GateReasons [],
          dc_qualitative_reasons = map_option lg_reasons lakatos_result,
          dc_requires_human = None, dc_pnr = None, dc_ad_hoc = None \<rparr>
      else case lakatos_result of
        None \<Rightarrow>
          \<lparr> dc_verdict = ''progressive_unverified'', dc_lakatos = ''unverified'',
            dc_status = ''qualitative_unverified'', dc_reasons = GateReasons [''lakatos_evidence_missing''],
            dc_qualitative_reasons = None, dc_requires_human = None, dc_pnr = None, dc_ad_hoc = None \<rparr>
      | Some l \<Rightarrow>
          \<lparr> dc_verdict = lakatos_value (lg_verdict l), dc_lakatos = lakatos_value (lg_verdict l),
            dc_status = ''reconciled'', dc_reasons = GateReasons (lg_reasons l),
            dc_qualitative_reasons = None, dc_requires_human = Some (lg_requires_human_verdict l),
            dc_pnr = None, dc_ad_hoc = None \<rparr>)"

record standing_decision =
  sd_verdict :: string
  sd_demoted :: bool
  sd_reason :: string
  sd_standing_broken :: "bool option"
  sd_current_best_pointer :: "bool option"
  sd_verdict_source :: "string option"

definition reconcile_standing :: "string \<Rightarrow> bool \<Rightarrow> bool \<Rightarrow> standing_decision" where
  "reconcile_standing verdict stands valid_until_rebutted =
     (if stands then
        \<lparr> sd_verdict = verdict, sd_demoted = False, sd_reason = ''stands'',
          sd_standing_broken = None, sd_current_best_pointer = None, sd_verdict_source = None \<rparr>
      else if verdict \<noteq> ''CANONICAL'' then
        \<lparr> sd_verdict = verdict, sd_demoted = False, sd_reason = ''not_canonical'',
          sd_standing_broken = Some True, sd_current_best_pointer = None, sd_verdict_source = None \<rparr>
      else if \<not> valid_until_rebutted then
        \<lparr> sd_verdict = verdict, sd_demoted = False, sd_reason = ''human_locked_not_valid_until_rebutted'',
          sd_standing_broken = Some True, sd_current_best_pointer = None, sd_verdict_source = None \<rparr>
      else
        \<lparr> sd_verdict = ''former_canonical'', sd_demoted = True,
          sd_reason = ''unanswered_rebuttal_breaks_grounded_standing'',
          sd_standing_broken = Some True, sd_current_best_pointer = Some False,
          sd_verdict_source = Some ''engine'' \<rparr>)"

definition dialectical_verdict ::
  "string \<Rightarrow> appraisal option \<Rightarrow> lakatos_gate_result option \<Rightarrow> reconciled" where
  "dialectical_verdict metric_verdict pnr_appraisal lakatos_result =
     (let base = reconcile_verdict metric_verdict lakatos_result in
      case pnr_appraisal of
        None \<Rightarrow> base
      | Some a \<Rightarrow>
          if ap_verdict a \<in> set DIALECTIC_OVERRIDE_VERDICTS then
            \<lparr> dc_verdict = ap_verdict a, dc_lakatos = dc_lakatos base, dc_status = ''dialectic_overrides'',
              dc_reasons = AppraisalReasons (ap_reasons a), dc_qualitative_reasons = None,
              dc_requires_human = None, dc_pnr = Some (ap_verdict a), dc_ad_hoc = Some (ap_ad_hoc a) \<rparr>
          else if ap_verdict a = ''conditional'' then
            base\<lparr> dc_pnr := Some ''conditional'', dc_ad_hoc := Some (ap_ad_hoc a),
                  dc_status := ''dialectic_conditional'', dc_reasons := AppraisalReasons (ap_reasons a),
                  dc_verdict := (if dc_verdict base \<in> set PNR_CONDITIONAL_SOURCE_VERDICTS
                                 then ''progressive_conditional'' else dc_verdict base) \<rparr>
          else
            base\<lparr> dc_pnr := Some ''progressive'', dc_ad_hoc := Some (ap_ad_hoc a),
                  dc_status := dc_status base @ ''+pnr_progressive'',
                  dc_verdict := (if dc_verdict base = ''progressive_unverified''
                                 then ''progressive'' else dc_verdict base) \<rparr>)"

section \<open>The synthesised promotion\<close>

record promotion_report =
  pr_constitution :: gate_result
  pr_foundation :: "gate_result option"
  pr_credibility :: "gate_result option"
  pr_floor :: gate_result
  pr_measurement_externally_anchored :: bool

record promotion_decision =
  pm_ok :: bool
  pm_reasons :: "string list"
  pm_gates :: promotion_report

definition judge_receipt :: "string \<Rightarrow> string option option \<Rightarrow> bool \<Rightarrow> verdict_error + bool" where
  "judge_receipt scripted_verdict verdict_source qualitative_self_report =
     ebind (case verdict_source of
              None \<Rightarrow> Inr (is_scripted_verdict scripted_verdict)
            | Some src \<Rightarrow> ebind (force_of (Some scripted_verdict) (Some src)) (\<lambda>f. Inr (f = COUNTS)))
       (\<lambda>r. Inr (r \<and> \<not> qualitative_self_report))"

definition synthesize_promotion ::
  "string \<Rightarrow> bool \<Rightarrow> bool option \<Rightarrow> foundation_map option \<Rightarrow> credibility option \<Rightarrow> string option option
     \<Rightarrow> bool \<Rightarrow> bool option \<Rightarrow> verdict_error + promotion_decision" where
  "synthesize_promotion scripted_verdict stands reproducible foundation credibility verdict_source
       qualitative_self_report producer_replay_verified =
     (let pr = snd (promotion_gate scripted_verdict stands reproducible []);
          fr = map_option foundation_gate foundation;
          cr = map_option credibility_gate credibility;
          has_human = (case credibility of None \<Rightarrow> False | Some c \<Rightarrow> cr_has_human_verdict c);
          anchored = (reproducible = Some True \<or> has_human \<or> producer_replay_verified = Some True)
      in ebind (judge_receipt scripted_verdict verdict_source qualitative_self_report) (\<lambda>receipt.
         let floor_ok = (receipt \<or> reproducible = Some True \<or> has_human);
             outcomes =
               [Some (Gate \<lparr> go_name = ''constitution'', go_reasons = pr \<rparr>),
                map_option (\<lambda>g. Gate \<lparr> go_name = ''foundation'', go_reasons =
                  (if gr_passed g then [] else [''foundation_gaps:'' @ str_join '','' (gr_reasons g)]) \<rparr>) fr,
                map_option (\<lambda>g. Gate \<lparr> go_name = ''credibility'', go_reasons =
                  (if gr_passed g then [] else gr_reasons g) \<rparr>) cr,
                (if floor_ok then None
                 else Some (Gate \<lparr> go_name = ''floor'', go_reasons = [''no_receipt_for_canonical''] \<rparr>))];
             out = compose_gates outcomes
         in Inr \<lparr> pm_ok = outcome_passed out, pm_reasons = go_reasons out,
                  pm_gates = \<lparr> pr_constitution = \<lparr> gr_passed = (pr = []), gr_reasons = pr \<rparr>,
                               pr_foundation = fr, pr_credibility = cr,
                               pr_floor = (if floor_ok then gate_pass
                                           else gate_fail [''no_receipt_for_canonical'']),
                               pr_measurement_externally_anchored = anchored \<rparr> \<rparr>))"

section \<open>Facts\<close>

lemma compose_from_reasons:
  "go_reasons (outcome (compose_from out gs)) =
     go_reasons (outcome out) @ concat (map (\<lambda>g. case g of None \<Rightarrow> [] | Some h \<Rightarrow> go_reasons (outcome h)) gs)"
  by (induction out gs rule: compose_from.induct) (simp_all add: combine_def)

lemma compose_gates_reasons:
  "go_reasons (compose_gates gs) =
     concat (map (\<lambda>g. case g of None \<Rightarrow> [] | Some h \<Rightarrow> go_reasons (outcome h)) gs)"
  by (simp add: compose_gates_def compose_from_reasons)

lemma compose_from_name:
  "out \<noteq> IdentityGate \<Longrightarrow> go_name (outcome (compose_from out gs)) = go_name (outcome out)"
  by (induction out gs rule: compose_from.induct) (simp_all add: combine_def)

lemma compose_gates_passed:
  "outcome_passed (compose_gates gs) \<longleftrightarrow>
     list_all (\<lambda>g. case g of None \<Rightarrow> True | Some h \<Rightarrow> outcome_passed (outcome h)) gs"
proof (induction gs)
  case Nil
  then show ?case by (simp add: outcome_passed_def compose_gates_reasons)
next
  case (Cons g gs)
  then show ?case by (cases g) (simp_all add: outcome_passed_def compose_gates_reasons)
qed

text \<open>The monoid laws hold of the reasons. They do not hold of the name: the composite of two
  identities is a new object, which keeps its own name.\<close>

lemma combine_assoc: "go_reasons (outcome (combine (combine a b) c)) = go_reasons (outcome (combine a (combine b c)))"
  by (simp add: combine_def)

lemma compose_gates_left_unit:
  "compose_gates [Some IdentityGate, Some (Gate g)] = \<lparr> go_name = ''identity'', go_reasons = go_reasons g \<rparr>"
  "compose_gates [Some (Gate g), Some IdentityGate] = g"
  by (simp_all add: compose_gates_def combine_def)

lemma hard_fail_absorbs:
  assumes "Some (Gate (hard_fail n rs)) \<in> set gs"
  shows "\<not> outcome_passed (compose_gates gs)"
proof
  assume "outcome_passed (compose_gates gs)"
  with assms have "outcome_passed (hard_fail n rs)"
    unfolding compose_gates_passed list_all_iff by fastforce
  then show False by (simp add: hard_fail_def outcome_passed_def split: if_splits)
qed

lemma promotion_gate_iff:
  "fst (promotion_gate v s r rs) \<longleftrightarrow> v \<in> PROMOTABLE \<and> s \<and> r \<noteq> Some False \<and> rs = []"
  by (simp add: promotion_gate_def Let_def)

lemma promotion_gate_snd: "snd (promotion_gate v s r rs) = [] \<longleftrightarrow> fst (promotion_gate v s r rs)"
  by (simp add: promotion_gate_def Let_def)

end
