(* ===== verification/Judgement_Policy.thy ===== *)
theory Judgement_Policy
  imports Verdict_Registry Py_Float
begin

text \<open>
  The pure decisions of a submission,
  \<^verbatim>\<open>server/contexts/tree/judgement_policy.py\<close>: the chain of structural demotions, the
  freshness of the judging process, the qualitative flags and the ownership of a measured value;
  and the negative heuristic of \<^verbatim>\<open>lakatos/programme/heuristic.py\<close>.

  A three-valued flag (\<^verbatim>\<open>bool | None\<close>) is a \<open>bool option\<close>.
\<close>

section \<open>The negative heuristic\<close>

record heuristic_split =
  hs_protected :: "string list"
  hs_redirectable :: "string list"
  hs_requires_core_revision :: bool
  hs_absorbable_in_belt :: bool

text \<open>\<^verbatim>\<open>list(dict.fromkeys(xs))\<close>: the first occurrences, in order.\<close>

fun dedup_after :: "'a set \<Rightarrow> 'a list \<Rightarrow> 'a list" where
  "dedup_after seen [] = []"
| "dedup_after seen (x # xs) =
     (if x \<in> seen then dedup_after seen xs else x # dedup_after (insert x seen) xs)"

definition negative_heuristic :: "string set \<Rightarrow> string list \<Rightarrow> string set option \<Rightarrow> heuristic_split" where
  "negative_heuristic hard_core refuted_assumptions belt =
     (let refuted = dedup_after {} refuted_assumptions;
          protected = filter (\<lambda>a. a \<in> hard_core) refuted;
          redirectable = filter (\<lambda>a. a \<notin> hard_core) refuted
      in \<lparr> hs_protected = protected, hs_redirectable = redirectable,
           hs_requires_core_revision = (refuted \<noteq> [] \<and> redirectable = []),
           hs_absorbable_in_belt = (redirectable \<noteq> []) \<rparr>)"

section \<open>Structural demotions\<close>

record verdict_decision =
  vd_verdict :: string
  vd_lakatos_status :: string
  vd_novel_independent :: bool

definition apply_verdict_demotes ::
  "string \<Rightarrow> string \<Rightarrow> bool option \<Rightarrow> bool \<Rightarrow> bool \<Rightarrow> bool \<Rightarrow> bool \<Rightarrow> bool option \<Rightarrow> bool \<Rightarrow> bool \<Rightarrow> verdict_decision" where
  "apply_verdict_demotes verdict lakatos_status hc_derived require_novel_anchor novel cross_metric_novel
       novel_server_anchored reproducible reproducibility_ceiling engine_fresh_fire =
     (let progressive = verdict \<in> set DEMOTABLE_PROGRESS_VERDICTS in
      if hc_derived = Some False \<and> progressive then
        \<lparr> vd_verdict = ''different_programme'', vd_lakatos_status = ''hard_core_violated_structural'',
          vd_novel_independent = novel \<rparr>
      else if reproducibility_ceiling \<and> reproducible = Some False \<and> progressive then
        \<lparr> vd_verdict = ''partial'', vd_lakatos_status = ''reproducibility_refuted'',
          vd_novel_independent = False \<rparr>
      else if require_novel_anchor \<and> novel \<and> cross_metric_novel \<and> \<not> novel_server_anchored \<and> progressive then
        \<lparr> vd_verdict = ''partial'', vd_lakatos_status = ''novel_not_server_anchored'',
          vd_novel_independent = False \<rparr>
      else if engine_fresh_fire \<and> progressive then
        \<lparr> vd_verdict = ''partial'', vd_lakatos_status = ''provisional_stale_engine'',
          vd_novel_independent = False \<rparr>
      else
        \<lparr> vd_verdict = verdict, vd_lakatos_status = lakatos_status, vd_novel_independent = novel \<rparr>)"

record engine_freshness =
  ef_stale_code :: "bool option"
  ef_capable :: "bool option"

definition engine_freshness_fires :: "engine_freshness option \<Rightarrow> bool" where
  "engine_freshness_fires fresh =
     (case fresh of
        None \<Rightarrow> False
      | Some f \<Rightarrow> ef_stale_code f = Some True \<or> ef_capable f = Some False)"

definition qualitative_flags :: "bool \<Rightarrow> string \<Rightarrow> bool \<Rightarrow> bool \<Rightarrow> bool \<times> bool" where
  "qualitative_flags have_qual verdict novel_server_anchored ce_novel_corroborated =
     (let qual_backed = (novel_server_anchored \<and> ce_novel_corroborated)
      in (qual_backed, have_qual \<and> verdict \<in> set DEMOTABLE_PROGRESS_VERDICTS \<and> \<not> qual_backed))"

section \<open>Ownership of the value\<close>

record producer_replay =
  rp_verified :: "bool option"
  rp_regenerated :: "pyfloat option"

text \<open>\<open>(effective metric, grade, replay status)\<close>.\<close>

definition resolve_measurement ::
  "producer_replay option \<Rightarrow> pyfloat \<Rightarrow> bool \<Rightarrow> bool \<Rightarrow> bool \<Rightarrow> pyfloat \<times> string \<times> string" where
  "resolve_measurement replay client_metric attested authored artifact_bound =
     (let grade = (if attested then ''attested'' else if authored then ''authored'' else ''client_asserted'')
      in case replay of
        None \<Rightarrow> (client_metric, grade, ''not_attempted'')
      | Some r \<Rightarrow>
          (case (artifact_bound \<and> rp_verified r = Some True, rp_regenerated r) of
             (True, Some x) \<Rightarrow> (x, ''server_regenerated'', ''verified'')
           | _ \<Rightarrow>
               (client_metric, grade,
                if rp_verified r = None then ''not_replayable''
                else if rp_verified r = Some True \<and> \<not> artifact_bound then ''not_replayable''
                else if rp_verified r = Some True then ''verified'' else ''mismatch'')))"

section \<open>Facts\<close>

lemma set_dedup_after: "set (dedup_after seen xs) = set xs - seen"
  by (induction xs arbitrary: seen) auto

lemma distinct_dedup_after: "distinct (dedup_after seen xs)"
  by (induction xs arbitrary: seen) (auto simp: set_dedup_after)

text \<open>The heuristic splits the refuted assumptions, each once, and guards the core.\<close>

lemma negative_heuristic_splits:
  "set (hs_protected (negative_heuristic core xs belt)) = set xs \<inter> core"
  "set (hs_redirectable (negative_heuristic core xs belt)) = set xs - core"
  by (auto simp: negative_heuristic_def Let_def set_dedup_after)

lemma negative_heuristic_protected_Nil:
  "hs_protected (negative_heuristic core xs belt) = [] \<longleftrightarrow> set xs \<inter> core = {}"
  by (metis negative_heuristic_splits(1) set_empty)

lemma demotes_keep_progressive:
  assumes "vd_verdict (apply_verdict_demotes v l hc ra n cm na rp rc ff) = ''progressive''"
  shows "v = ''progressive'' \<and> hc \<noteq> Some False \<and> \<not> (rc \<and> rp = Some False)
       \<and> \<not> (ra \<and> n \<and> cm \<and> \<not> na) \<and> \<not> ff
       \<and> vd_novel_independent (apply_verdict_demotes v l hc ra n cm na rp rc ff) = n"
  using assms
  by (auto simp: apply_verdict_demotes_def DEMOTABLE_PROGRESS_VERDICTS_def Let_def split: if_splits)

text \<open>A demotion never raises a verdict: the result is the verdict given or outside progress.\<close>

lemma demotes_only_demote:
  "vd_verdict (apply_verdict_demotes v l hc ra n cm na rp rc ff) \<in> {v, ''partial'', ''different_programme''}"
  by (simp add: apply_verdict_demotes_def Let_def)

lemma demotes_leave_others:
  "v \<notin> set DEMOTABLE_PROGRESS_VERDICTS \<Longrightarrow>
     apply_verdict_demotes v l hc ra n cm na rp rc ff
       = \<lparr> vd_verdict = v, vd_lakatos_status = l, vd_novel_independent = n \<rparr>"
  by (simp add: apply_verdict_demotes_def Let_def)

lemma server_regenerated_iff:
  "resolve_measurement replay m att auth bound = (x, ''server_regenerated'', s) \<longleftrightarrow>
     bound \<and> (\<exists>r. replay = Some r \<and> rp_verified r = Some True \<and> rp_regenerated r = Some x) \<and> s = ''verified''"
  by (auto simp: resolve_measurement_def Let_def split: option.splits bool.splits)

end
