(* ===== verification/Assurance_Gates.thy ===== *)
theory Assurance_Gates
  imports Py_Text
begin

text \<open>
  \<^verbatim>\<open>lakatos/assurance.py\<close>: the table of assurance tiers, the gates a verb of the server can
  have and the gates a tier arms.

  A property read from the store may be anything; \<open>Some s\<close> is a string, \<open>None\<close> any other value.
\<close>

definition TIER_RANK :: "(string \<times> int) list" where
  "TIER_RANK = [(''notebook'', 0), (''receipted'', 1), (''anchored'', 2)]"

definition LEGACY :: string where
  "LEGACY = ''legacy''"

definition GATE_NOVEL_ANCHOR :: string where "GATE_NOVEL_ANCHOR = ''novel_anchor''"
definition GATE_REPLAY_FLOOR :: string where "GATE_REPLAY_FLOOR = ''replay_floor''"
definition GATE_WRITE_CERT :: string where "GATE_WRITE_CERT = ''write_cert''"
definition GATE_REPRODUCIBILITY_CEILING :: string where
  "GATE_REPRODUCIBILITY_CEILING = ''reproducibility_ceiling''"
definition GATE_REPLAY_PORTABILITY :: string where
  "GATE_REPLAY_PORTABILITY = ''replay_portability''"

definition STRUCTURAL_CORE :: "string set" where
  "STRUCTURAL_CORE = {''receipt_cas'', ''prereg_409'', ''first_write_wins''}"

definition VERB_GATES :: "(string \<times> string set) list" where
  "VERB_GATES =
     [(''submit_test_result'', {GATE_NOVEL_ANCHOR, GATE_WRITE_CERT, GATE_REPRODUCIBILITY_CEILING,
                                GATE_REPLAY_PORTABILITY}),
      (''set_verdict_canonical'', {GATE_REPLAY_FLOOR, GATE_WRITE_CERT})]"

definition TIER_GATES :: "(string \<times> string set) list" where
  "TIER_GATES =
     [(''notebook'', {}),
      (''receipted'', {GATE_NOVEL_ANCHOR, GATE_REPLAY_PORTABILITY}),
      (''anchored'', {GATE_NOVEL_ANCHOR, GATE_REPLAY_FLOOR, GATE_WRITE_CERT,
                      GATE_REPRODUCIBILITY_CEILING, GATE_REPLAY_PORTABILITY}),
      (LEGACY, {})]"

definition resolve_tier :: "string option \<Rightarrow> string" where
  "resolve_tier raw =
     (case raw of Some s \<Rightarrow> (if s \<in> set (map fst TIER_RANK) then s else LEGACY) | None \<Rightarrow> LEGACY)"

definition tier_level :: "string option \<Rightarrow> int" where
  "tier_level tier =
     (case tier of
        Some s \<Rightarrow> (case map_of TIER_RANK s of Some n \<Rightarrow> n | None \<Rightarrow> - 1)
      | None \<Rightarrow> - 1)"

text \<open>\<^verbatim>\<open>d.get(k, frozenset())\<close>.\<close>

definition gates_at :: "(string \<times> string set) list \<Rightarrow> string \<Rightarrow> string set" where
  "gates_at table k = (case map_of table k of Some gs \<Rightarrow> gs | None \<Rightarrow> {})"

definition gates_for :: "string \<Rightarrow> string \<Rightarrow> string set" where
  "gates_for verb tier = gates_at VERB_GATES verb \<inter> gates_at TIER_GATES tier"

definition structural_core_gates :: "string option \<Rightarrow> string set" where
  "structural_core_gates tier = STRUCTURAL_CORE"

definition cypher_tier_rank_case :: "string \<Rightarrow> string" where
  "cypher_tier_rank_case prop_expr =
     ''CASE '' @ prop_expr @ '' ''
     @ str_join '' '' (map (\<lambda>(t, n). ''WHEN '' @ [CHR 0x27] @ t @ [CHR 0x27] @ '' THEN '' @ show_int n)
         (sort_key snd TIER_RANK))
     @ '' ELSE -1 END''"

lemmas gate_names =
  GATE_NOVEL_ANCHOR_def GATE_REPLAY_FLOOR_def GATE_WRITE_CERT_def GATE_REPRODUCIBILITY_CEILING_def
  GATE_REPLAY_PORTABILITY_def

text \<open>A higher tier arms every gate of a lower one, and no tier reaches the structural core.\<close>

lemma tier_gates_monotone:
  "tier_level (Some a) \<le> tier_level (Some b) \<Longrightarrow> gates_for verb a \<subseteq> gates_for verb b"
  by (auto simp: tier_level_def gates_for_def gates_at_def TIER_RANK_def TIER_GATES_def LEGACY_def
      split: if_splits)

lemma structural_core_apart: "gates_for verb tier \<inter> STRUCTURAL_CORE = {}"
  by (auto simp: gates_for_def gates_at_def TIER_GATES_def STRUCTURAL_CORE_def gate_names
      split: if_splits)

lemma resolve_tier_known: "resolve_tier raw \<in> set (map fst TIER_GATES)"
  by (auto simp: resolve_tier_def TIER_GATES_def TIER_RANK_def LEGACY_def split: option.split)

end
