(* ===== verification/Judgement_Flow.thy ===== *)
theory Judgement_Flow
  imports Judge Promotion Judgement_Policy Assurance_Gates Node_State Argue
begin

text \<open>
  How the server puts the verdict layer together, the two decisions of
  \<^verbatim>\<open>server/contexts/tree/judgement_service.py\<close>:

  \<^item> \<open>decide_submission\<close>: from a registered prediction and a submitted result to the verdict that
    is sealed, in the order of \<^verbatim>\<open>submit_test_result\<close>;
  \<^item> \<open>decide_canonical\<close>: the promotion of a node to \<^verbatim>\<open>CANONICAL\<close>, in the order of
    \<^verbatim>\<open>set_verdict\<close>, from the state transition to the freshness of the judge.

  What the handlers obtain from the store, the file system or a replay is an argument: the row of
  the node, the server's hashes of the scripts, the reproducibility of the node, its foundation
  and the trust of its internet sources. Signatures, receipts and the write itself are not here.
\<close>

section \<open>A submission\<close>

record registered =
  rg_metric :: "string option"
  rg_direction :: string
  rg_baseline :: pyfloat
  rg_noise_band :: "pyfloat option"
  rg_novel :: "string option"
  rg_scale :: "string option"
  rg_novel_metric :: "string option"
  rg_novel_direction :: "string option"
  rg_novel_threshold :: "pyfloat option"
  rg_hard_core :: string
  rg_assurance_tier :: "string option"
  rg_require_novel_anchor :: bool

record submission =
  sb_metric_value :: pyfloat
  sb_novel_measured :: "pyfloat option"
  sb_touched_assumptions :: "string list"
  sb_lakatos_anomaly :: "bool option"
  sb_lakatos_consequence :: "bool option"
  sb_lakatos_excess :: "bool option"
  sb_lakatos_hardcore :: "bool option"
  sb_implementation_complete :: bool
  sb_data_branch :: bool
  sb_data_replay_passed :: bool
  sb_human_verdict_required :: bool
  sb_response :: "response option"
  sb_counterexample_type :: "counterexample_type option"
  sb_proof_concept :: "proof_generated_concept option"
  sb_excess_content :: bool
  sb_novel_corroborated :: bool
  sb_in_heuristic_spirit :: "bool option"

record server_view =
  sv_stored_sha :: string
  sv_sha_verified :: bool
  sv_novel_server_sha :: "string option"
  sv_reproducible :: "bool option"
  sv_freshness :: "engine_freshness option"

datatype submission_error = Http409 judge_error | Http422 judge_error

definition or_empty :: "string option \<Rightarrow> string" where
  "or_empty x = (case x of None \<Rightarrow> [] | Some s \<Rightarrow> s)"

text \<open>\<^verbatim>\<open>x or d\<close> for a value that is \<^verbatim>\<open>None\<close> or a string.\<close>

definition or_default :: "string option \<Rightarrow> string \<Rightarrow> string" where
  "or_default x d = (if falsy x then d else or_empty x)"

definition registered_prediction :: "registered \<Rightarrow> string \<Rightarrow> prediction" where
  "registered_prediction pr metric =
     \<lparr> pd_metric_name = metric, pd_direction = rg_direction pr, pd_baseline_value = rg_baseline pr,
       pd_noise_band = (case rg_noise_band pr of None \<Rightarrow> PFin 0 | Some b \<Rightarrow> b),
       pd_novel_prediction = or_empty (rg_novel pr), pd_closes_question = [],
       pd_scale_type = or_default (rg_scale pr) ''ratio'' \<rparr>"

definition registered_target :: "registered \<Rightarrow> novel_target option" where
  "registered_target pr =
     (case rg_novel_threshold pr of
        None \<Rightarrow> None
      | Some thr \<Rightarrow>
          if \<not> falsy (rg_novel_metric pr) \<and> \<not> falsy (rg_novel_direction pr)
          then Some \<lparr> nt_metric_name = or_empty (rg_novel_metric pr),
                      nt_direction = or_empty (rg_novel_direction pr), nt_threshold = thr,
                      nt_novelty_sense = ''zahar_use_novelty'' \<rparr>
          else None)"

text \<open>\<^verbatim>\<open>{tok.strip().lower() for tok in core.split(',') if tok.strip()}\<close>, after the other
  separators became commas.\<close>

definition core_tokens :: "string \<Rightarrow> string set" where
  "core_tokens core =
     (let raw = map (\<lambda>c. if c = CHR '';'' \<or> c = CHR 0x0A then CHR '','' else c) core
      in set (map (\<lambda>t. str_lower (str_strip t))
                (filter (\<lambda>t. str_strip t \<noteq> []) (str_split_on (CHR '','') raw))))"

definition touched_tokens :: "string list \<Rightarrow> string list" where
  "touched_tokens ts = map (\<lambda>t. str_lower (str_strip t)) (filter (\<lambda>t. t \<noteq> [] \<and> str_strip t \<noteq> []) ts)"

definition derived_hard_core :: "registered \<Rightarrow> submission \<Rightarrow> bool option" where
  "derived_hard_core pr r =
     (let core = core_tokens (rg_hard_core pr); touched = touched_tokens (sb_touched_assumptions r)
      in if touched \<noteq> [] \<and> core \<noteq> {}
         then Some (hs_protected (negative_heuristic core touched None) = [])
         else None)"

definition qualitative_given :: "submission \<Rightarrow> bool" where
  "qualitative_given r \<longleftrightarrow>
     sb_lakatos_anomaly r \<noteq> None \<and> sb_lakatos_consequence r \<noteq> None \<and> sb_lakatos_excess r \<noteq> None
     \<and> sb_lakatos_hardcore r \<noteq> None"

definition submitted_gate :: "submission \<Rightarrow> bool option \<Rightarrow> lakatos_gate_result option" where
  "submitted_gate r hc_derived =
     (if qualitative_given r \<or> sb_human_verdict_required r
      then Some (lakatos_gate
        \<lparr> le_theory_laden_anomaly = (sb_lakatos_anomaly r = Some True),
          le_independent_testable_consequence = (sb_lakatos_consequence r = Some True),
          le_excess_empirical_content = (sb_lakatos_excess r = Some True),
          le_hard_core_preserved = (case hc_derived of Some b \<Rightarrow> b | None \<Rightarrow> sb_lakatos_hardcore r = Some True),
          le_implementation_complete = sb_implementation_complete r,
          le_data_branch = sb_data_branch r,
          le_data_replay_passed = sb_data_replay_passed r,
          le_human_verdict_required = sb_human_verdict_required r \<rparr>)
      else None)"

definition submitted_appraisal :: "submission \<Rightarrow> bool option \<Rightarrow> appraisal option" where
  "submitted_appraisal r hc_derived =
     map_option (\<lambda>resp.
       appraise_response resp (sb_excess_content r) (sb_novel_corroborated r) (sb_in_heuristic_spirit r)
         (case hc_derived of Some b \<Rightarrow> b
          | None \<Rightarrow> (case sb_lakatos_hardcore r of Some b \<Rightarrow> b | None \<Rightarrow> True))
         (sb_proof_concept r) (sb_counterexample_type r)) (sb_response r)"

record sealed_verdict =
  se_verdict :: string
  se_lakatos_status :: string
  se_novel_independent :: bool
  se_qualitative_self_report :: bool
  se_judgement :: judgement

definition judged :: "registered \<Rightarrow> submission \<Rightarrow> server_view \<Rightarrow> submission_error + judgement" where
  "judged pr r sv =
     (let both_anchored = (sv_sha_verified sv \<and> sv_novel_server_sha sv \<noteq> None);
          msha = (if both_anchored then sv_stored_sha sv else []);
          nsha = (if both_anchored then or_empty (sv_novel_server_sha sv) else [])
      in case rg_metric pr of
           None \<Rightarrow> Inl (Http409 PredictionMissing)
         | Some m \<Rightarrow>
             (case post_init_prediction (registered_prediction pr m) of
                Inl e \<Rightarrow> Inl (Http422 e)
              | Inr _ \<Rightarrow>
                  (case judge (Some (registered_prediction pr m)) (sb_metric_value r) (registered_target pr)
                          (sb_novel_measured r) msha nsha False [] of
                     Inl e \<Rightarrow> Inl (Http422 e)
                   | Inr j \<Rightarrow> Inr j)))"

definition decide_submission :: "registered \<Rightarrow> submission \<Rightarrow> server_view \<Rightarrow> submission_error + sealed_verdict" where
  "decide_submission pr r sv =
     (let tier = resolve_tier (rg_assurance_tier pr);
          gates = gates_for ''submit_test_result'' tier;
          require_novel_anchor = (GATE_NOVEL_ANCHOR \<in> gates \<or> rg_require_novel_anchor pr);
          fresh_fire = engine_freshness_fires (sv_freshness sv);
          novel_server_anchored = (sv_novel_server_sha sv \<noteq> None);
          cross_metric_novel = (rg_novel_metric pr \<noteq> None \<and> rg_novel_metric pr \<noteq> rg_metric pr)
      in ebind (judged pr r sv) (\<lambda>v.
         let hc_derived = derived_hard_core pr r;
             lak_result = submitted_gate r hc_derived;
             appraisal = submitted_appraisal r hc_derived;
             decided = dialectical_verdict (jd_verdict v) appraisal lak_result;
             dec = apply_verdict_demotes (dc_verdict decided) (dc_lakatos decided) hc_derived
                     require_novel_anchor (jd_novel v) cross_metric_novel novel_server_anchored
                     (sv_reproducible sv) (GATE_REPRODUCIBILITY_CEILING \<in> gates) fresh_fire;
             (_, qual_self_report) =
               qualitative_flags (qualitative_given r \<or> appraisal \<noteq> None) (vd_verdict dec)
                 novel_server_anchored (sb_novel_corroborated r)
         in Inr \<lparr> se_verdict = vd_verdict dec, se_lakatos_status = vd_lakatos_status dec,
                  se_novel_independent = vd_novel_independent dec,
                  se_qualitative_self_report = qual_self_report, se_judgement = v \<rparr>))"

section \<open>A promotion\<close>

record attestation_row = arg_row +
  at_kind :: "string option"

definition HUMAN_ATTESTATION_KINDS :: "string set" where
  "HUMAN_ATTESTATION_KINDS = {''evaluation'', ''verdict''}"

definition is_human_attestation_arg :: "attestation_row \<Rightarrow> bool" where
  "is_human_attestation_arg a \<longleftrightarrow>
     \<not> falsy (ar_id a)
     \<and> str_lower (str_strip (or_empty (at_kind a))) \<in> HUMAN_ATTESTATION_KINDS
     \<and> str_strip (or_empty (ar_by a)) \<noteq> []"

record candidate =
  ca_verdict :: "string option"
  ca_verdict_source :: "string option"
  ca_novel_confirmed :: bool
  ca_qualitative_self_report :: bool
  ca_author :: "string option"
  ca_assurance_tier :: "string option"
  ca_args :: "attestation_row list"

text \<open>The row the query returns: no receipt pointer, grade or replay status among its keys.\<close>

definition candidate_row :: "candidate \<Rightarrow> pyfloat node_row" where
  "candidate_row c =
     \<lparr> nr_tag = [], nr_verdict = ca_verdict c, nr_verdict_source = Some (ca_verdict_source c),
       nr_current_receipt_sha = None, nr_measurement_grade = None, nr_replay_status = None,
       nr_metric_value = None, nr_novel_confirmed = ca_novel_confirmed c, nr_judged_at = None,
       nr_pred_registered_at = None, nr_pred_metric = None, nr_pred_baseline = None,
       nr_measurement_lock_bound = False, nr_assurance_tier_resolved = None,
       nr_attested_by_did = None, nr_engine_rule_sha = None, nr_comment = None,
       nr_comment_sha_at_verdict = None \<rparr>"

text \<open>The trust of the internet sources of a node, \<open>None\<close> for an internal one; \<open>(trust, backed)\<close>.\<close>

definition eigentrust_credibility :: "(pyfloat \<times> bool) option \<Rightarrow> bool \<Rightarrow> bool \<Rightarrow> credibility option" where
  "eigentrust_credibility source novel_confirmed has_human_verdict =
     (case source of
        None \<Rightarrow>
          if has_human_verdict then Some (credibility_from_trust (PFin 0) novel_confirmed True False) else None
      | Some (eigen, backed) \<Rightarrow>
          Some (credibility_from_trust (if backed then eigen else PFin 0) novel_confirmed has_human_verdict backed))"

record promotion_view =
  pv_source_trust :: "(pyfloat \<times> bool) option"
  pv_foundation :: "foundation_map option"
  pv_reproducible :: "bool option"
  pv_producer_replay :: "bool option"
  pv_freshness :: "engine_freshness option"
  pv_human_verdict_requested :: bool

datatype promotion_refusal =
    RowError verdict_error
  | NoStanding
  | ReplayFloorRefused
  | GatesRefused "string list"
  | StaleEngineRefused

definition human_attested :: "candidate \<Rightarrow> bool \<Rightarrow> bool" where
  "human_attested c requested \<longleftrightarrow>
     requested \<and> list_ex (\<lambda>a. is_human_attestation_arg a
       \<and> str_strip (or_empty (ar_by a)) \<noteq> str_strip (or_empty (ca_author c))) (ca_args c)"

definition lift_row :: "verdict_error + 'a \<Rightarrow> promotion_refusal + 'a" where
  "lift_row r = (case r of Inl e \<Rightarrow> Inl (RowError e) | Inr a \<Rightarrow> Inr a)"

text \<open>\<open>None\<close> from \<open>node_stands\<close> would be a fixed point iteration that does not return; it always does.\<close>

definition decide_canonical :: "string \<Rightarrow> candidate \<Rightarrow> promotion_view \<Rightarrow> promotion_refusal + promotion_decision" where
  "decide_canonical tag c pv =
     ebind (lift_row (derive_node_state (candidate_row c))) (\<lambda>before.
     ebind (lift_row (assert_transition_allowed before CANONICAL)) (\<lambda>_.
     case node_stands tag (map arg_row.truncate (ca_args c)) of
       None \<Rightarrow> Inl NoStanding
     | Some stands \<Rightarrow>
       (let has_human = human_attested c (pv_human_verdict_requested pv);
            credibility = eigentrust_credibility (pv_source_trust pv) (ca_novel_confirmed c) has_human;
            tier = resolve_tier (ca_assurance_tier c)
        in if GATE_REPLAY_FLOOR \<in> gates_for ''set_verdict_canonical'' tier
              \<and> pv_producer_replay pv = Some False
           then Inl ReplayFloorRefused
           else ebind (lift_row (synthesize_promotion (or_default (ca_verdict c) ''proof'') stands
                         (pv_reproducible pv) (pv_foundation pv) credibility
                         (Some (ca_verdict_source c)) (ca_qualitative_self_report c)
                         (pv_producer_replay pv))) (\<lambda>d.
                if \<not> pm_ok d then Inl (GatesRefused (pm_reasons d))
                else if engine_freshness_fires (pv_freshness pv) then Inl StaleEngineRefused
                else Inr d))))"

end
