(* ===== verification/Judgement_Facts.thy ===== *)
theory Judgement_Facts
  imports Judgement_Flow
begin

text \<open>
  Facts about the composed verdict layer: what the dialectic can make of a metric verdict, what a
  submission's verdict depends on, and when a synthesised promotion passes.
\<close>

section \<open>The dialectic\<close>

lemma lakatos_value_progressive [simp]: "lakatos_value v = ''progressive'' \<longleftrightarrow> v = PROGRESSIVE"
  by (cases v) simp_all

lemma lakatos_value_engine: "lakatos_value v \<in> ENGINE_VERDICTS"
  by (cases v) (simp_all add: ENGINE_VERDICTS_def)

lemma reconciled_progressive:
  "dc_verdict (reconcile_verdict m lr) = ''progressive'' \<longleftrightarrow>
     m = ''progressive'' \<and> (\<exists>l. lr = Some l \<and> lg_verdict l = PROGRESSIVE)"
  by (auto simp: reconcile_verdict_def split: option.split)

lemma reconciled_unverified:
  "dc_verdict (reconcile_verdict m lr) = ''progressive_unverified'' \<longleftrightarrow>
     m = ''progressive_unverified'' \<or> m = ''progressive'' \<and> lr = None"
proof -
  have "lakatos_value v \<noteq> ''progressive_unverified''" for v by (cases v) simp_all
  then show ?thesis by (auto simp: reconcile_verdict_def split: option.split)
qed

text \<open>The five verdicts of an appraisal.\<close>

definition appraisal_verdicts :: "string set" where
  "appraisal_verdicts =
     {''withdrawn'', ''different_programme'', ''degenerating'', ''conditional'', ''progressive''}"

lemma dialectical_progressive:
  assumes "m \<in> SCRIPTED_VERDICTS" and "dc_verdict (dialectical_verdict m pa lr) = ''progressive''"
    and pnr: "\<And>a. pa = Some a \<Longrightarrow> ap_verdict a \<in> appraisal_verdicts"
  shows "m = ''progressive'' \<and> (\<forall>a. pa = Some a \<longrightarrow> ap_verdict a = ''progressive'')
    \<and> (case lr of None \<Rightarrow> pa \<noteq> None | Some l \<Rightarrow> lg_verdict l = PROGRESSIVE)"
proof (cases pa)
  case None
  with assms(2) show ?thesis by (auto simp: dialectical_verdict_def reconciled_progressive)
next
  case (Some a)
  from assms(1) have m: "m \<noteq> ''progressive_unverified''" by (auto simp: SCRIPTED_VERDICTS_def)
  from assms(2) have o: "ap_verdict a \<notin> set DIALECTIC_OVERRIDE_VERDICTS" and c: "ap_verdict a \<noteq> ''conditional''"
    and v: "dc_verdict (reconcile_verdict m lr) \<in> {''progressive'', ''progressive_unverified''}"
    by (auto simp: dialectical_verdict_def Some Let_def DIALECTIC_OVERRIDE_VERDICTS_def
        PNR_CONDITIONAL_SOURCE_VERDICTS_def split: if_splits)
  have "ap_verdict a = ''progressive''"
    using pnr [OF Some] o c by (auto simp: DIALECTIC_OVERRIDE_VERDICTS_def appraisal_verdicts_def)
  with v m show ?thesis by (auto simp: Some reconciled_progressive reconciled_unverified)
qed

lemma dialectical_vocabulary:
  assumes "m \<in> SCRIPTED_VERDICTS"
  shows "dc_verdict (dialectical_verdict m pa lr) \<in> SCRIPTED_VERDICTS \<union> ENGINE_VERDICTS"
proof -
  have base: "dc_verdict (reconcile_verdict m lr) \<in> SCRIPTED_VERDICTS \<union> ENGINE_VERDICTS"
    using assms lakatos_value_engine
    by (auto simp: reconcile_verdict_def ENGINE_VERDICTS_def split: option.split)
  show ?thesis
  proof (cases pa)
    case None
    then show ?thesis using base by (simp add: dialectical_verdict_def)
  next
    case (Some a)
    have "set DIALECTIC_OVERRIDE_VERDICTS \<subseteq> ENGINE_VERDICTS"
      by (simp add: DIALECTIC_OVERRIDE_VERDICTS_def ENGINE_VERDICTS_def)
    moreover have "''progressive'' \<in> ENGINE_VERDICTS" "''progressive_conditional'' \<in> ENGINE_VERDICTS"
      by (simp_all add: ENGINE_VERDICTS_def)
    ultimately show ?thesis using base by (auto simp: dialectical_verdict_def Some Let_def)
  qed
qed

section \<open>Submissions\<close>

lemma submitted_appraisal_verdict:
  "submitted_appraisal r hc = Some a \<Longrightarrow> ap_verdict a \<in> appraisal_verdicts"
  unfolding submitted_appraisal_def appraisal_verdicts_def map_option_eq_Some
  by (elim exE conjE) (erule subst, rule appraised_verdicts)

lemma judged_success:
  assumes "judged pr r sv = Inr j"
  obtains m where "rg_metric pr = Some m" "post_init_prediction (registered_prediction pr m) = Inr ()"
    "judge (Some (registered_prediction pr m)) (sb_metric_value r) (registered_target pr) (sb_novel_measured r)
       (if sv_sha_verified sv \<and> sv_novel_server_sha sv \<noteq> None then sv_stored_sha sv else [])
       (if sv_sha_verified sv \<and> sv_novel_server_sha sv \<noteq> None then or_empty (sv_novel_server_sha sv) else [])
       False [] = Inr j"
  using assms by (auto simp: judged_def Let_def split: option.splits sum.splits)

text \<open>The two steps of a successful submission.\<close>

definition demoted :: "registered \<Rightarrow> submission \<Rightarrow> server_view \<Rightarrow> judgement \<Rightarrow> verdict_decision" where
  "demoted pr r sv j =
     (let gates = gates_for ''submit_test_result'' (resolve_tier (rg_assurance_tier pr));
          hc = derived_hard_core pr r;
          d = dialectical_verdict (jd_verdict j) (submitted_appraisal r hc) (submitted_gate r hc)
      in apply_verdict_demotes (dc_verdict d) (dc_lakatos d) hc
           (GATE_NOVEL_ANCHOR \<in> gates \<or> rg_require_novel_anchor pr) (jd_novel j)
           (rg_novel_metric pr \<noteq> None \<and> rg_novel_metric pr \<noteq> rg_metric pr)
           (sv_novel_server_sha sv \<noteq> None) (sv_reproducible sv)
           (GATE_REPRODUCIBILITY_CEILING \<in> gates) (engine_freshness_fires (sv_freshness sv)))"

lemma decide_submission_Inr:
  "decide_submission pr r sv = Inr s \<longleftrightarrow>
     (\<exists>j. judged pr r sv = Inr j \<and>
        s = \<lparr> se_verdict = vd_verdict (demoted pr r sv j),
              se_lakatos_status = vd_lakatos_status (demoted pr r sv j),
              se_novel_independent = vd_novel_independent (demoted pr r sv j),
              se_qualitative_self_report = snd (qualitative_flags
                (qualitative_given r \<or> submitted_appraisal r (derived_hard_core pr r) \<noteq> None)
                (vd_verdict (demoted pr r sv j)) (sv_novel_server_sha sv \<noteq> None) (sb_novel_corroborated r)),
              se_judgement = j \<rparr>)"
  unfolding decide_submission_def demoted_def Let_def ebind_eq_Inr
  by (simp add: qualitative_flags_def Let_def) (rule iffI; elim exE conjE; force)

lemma derived_hard_core_kept:
  "derived_hard_core pr r \<noteq> Some False \<longleftrightarrow>
     set (touched_tokens (sb_touched_assumptions r)) \<inter> core_tokens (rg_hard_core pr) = {}"
  by (auto simp: derived_hard_core_def Let_def negative_heuristic_protected_Nil)

text \<open>An earned progress, in terms of what was registered, measured and known to the server.\<close>

lemma submission_progressive:
  assumes s: "decide_submission pr r sv = Inr s" and v: "se_verdict s = ''progressive''"
  obtains j where "judged pr r sv = Inr j" "jd_verdict j = ''progressive''"
    "derived_hard_core pr r \<noteq> Some False" "\<not> engine_freshness_fires (sv_freshness sv)"
    "\<forall>a. submitted_appraisal r (derived_hard_core pr r) = Some a \<longrightarrow> ap_verdict a = ''progressive''"
    "case submitted_gate r (derived_hard_core pr r) of
       None \<Rightarrow> sb_response r \<noteq> None | Some l \<Rightarrow> lg_verdict l = PROGRESSIVE"
proof -
  from s obtain j where j: "judged pr r sv = Inr j" and d: "vd_verdict (demoted pr r sv j) = ''progressive''"
    using v by (auto simp: decide_submission_Inr)
  from judged_success [OF j] have sc: "jd_verdict j \<in> SCRIPTED_VERDICTS" by (metis judge_verdict_scripted)
  let ?hc = "derived_hard_core pr r"
  from demotes_keep_progressive [OF d [unfolded demoted_def Let_def]]
  have dv: "dc_verdict (dialectical_verdict (jd_verdict j) (submitted_appraisal r ?hc) (submitted_gate r ?hc))
      = ''progressive''" and hc: "?hc \<noteq> Some False" and ff: "\<not> engine_freshness_fires (sv_freshness sv)"
    by simp_all
  have dp: "jd_verdict j = ''progressive''
    \<and> (\<forall>a. submitted_appraisal r ?hc = Some a \<longrightarrow> ap_verdict a = ''progressive'')
    \<and> (case submitted_gate r ?hc of None \<Rightarrow> submitted_appraisal r ?hc \<noteq> None
        | Some l \<Rightarrow> lg_verdict l = PROGRESSIVE)"
    using sc dv submitted_appraisal_verdict by (rule dialectical_progressive)
  have n: "submitted_appraisal r ?hc = None \<longleftrightarrow> sb_response r = None"
    by (simp add: submitted_appraisal_def)
  show thesis
  proof (rule that [OF j _ hc ff])
    show "case submitted_gate r ?hc of None \<Rightarrow> sb_response r \<noteq> None | Some l \<Rightarrow> lg_verdict l = PROGRESSIVE"
      using dp by (cases "submitted_gate r ?hc") (simp_all add: n)
  qed (use dp in blast)+
qed

section \<open>Promotions\<close>

lemma outcome_passed_simp [simp]: "outcome_passed \<lparr> go_name = n, go_reasons = rs \<rparr> \<longleftrightarrow> rs = []"
  by (simp add: outcome_passed_def)

lemma if_reason_Nil [simp]: "(if P then [] else x # xs) = [] \<longleftrightarrow> P"
  by simp

lemma synthesize_promotion_ok:
  assumes "synthesize_promotion v stands rep f c src q pr = Inr d" and "judge_receipt v src q = Inr b"
  shows "pm_ok d \<longleftrightarrow> v \<in> PROMOTABLE \<and> stands \<and> rep \<noteq> Some False
    \<and> (\<forall>m. f = Some m \<longrightarrow> gr_passed (foundation_gate m))
    \<and> (\<forall>k. c = Some k \<longrightarrow> gr_passed (credibility_gate k))
    \<and> (b \<or> rep = Some True \<or> (\<exists>k. c = Some k \<and> cr_has_human_verdict k))"
proof -
  let ?human = "case c of None \<Rightarrow> False | Some k \<Rightarrow> cr_has_human_verdict k"
  have ok: "pm_ok d \<longleftrightarrow> snd (promotion_gate v stands rep []) = []
    \<and> (case f of None \<Rightarrow> True | Some m \<Rightarrow> gr_passed (foundation_gate m))
    \<and> (case c of None \<Rightarrow> True | Some k \<Rightarrow> gr_passed (credibility_gate k))
    \<and> (b \<or> rep = Some True \<or> ?human)"
    using assms
    by (cases f; cases c; cases "b \<or> rep = Some True \<or> ?human")
      (auto simp: synthesize_promotion_def Let_def compose_gates_passed gate_reasons_passed)
  show ?thesis
    unfolding ok promotion_gate_snd promotion_gate_iff by (cases f; cases c) auto
qed

lemma synthesize_promotion_Inr:
  "synthesize_promotion v stands rep f c src q pr = Inr d \<Longrightarrow> \<exists>b. judge_receipt v src q = Inr b"
  by (auto simp: synthesize_promotion_def Let_def ebind_eq_Inr)

lemma lift_row_Inr [simp]: "lift_row x = Inr y \<longleftrightarrow> x = Inr y"
  by (cases x) (simp_all add: lift_row_def)

lemma decide_canonical_Inr:
  assumes "decide_canonical tag c pv = Inr d"
  obtains before stands where
    "derive_node_state (candidate_row c) = Inr before" "CANONICAL \<in> ALLOWED_TRANSITIONS before"
    "node_stands tag (map arg_row.truncate (ca_args c)) = Some stands"
    "\<not> (GATE_REPLAY_FLOOR \<in> gates_for ''set_verdict_canonical'' (resolve_tier (ca_assurance_tier c))
        \<and> pv_producer_replay pv = Some False)"
    "synthesize_promotion (or_default (ca_verdict c) ''proof'') stands (pv_reproducible pv) (pv_foundation pv)
       (eigentrust_credibility (pv_source_trust pv) (ca_novel_confirmed c)
          (human_attested c (pv_human_verdict_requested pv)))
       (Some (ca_verdict_source c)) (ca_qualitative_self_report c) (pv_producer_replay pv) = Inr d"
    "pm_ok d" "\<not> engine_freshness_fires (pv_freshness pv)"
  using assms
  by (auto simp: decide_canonical_def Let_def ebind_eq_Inr assert_transition_Inr
      split: option.splits if_splits)

lemma eigentrust_human:
  "(\<exists>k. eigentrust_credibility src n h = Some k \<and> cr_has_human_verdict k) \<longleftrightarrow> h"
  by (auto simp: eigentrust_credibility_def credibility_from_trust_def Let_def split: option.splits prod.splits)

section \<open>Tiers\<close>

lemma demotes_progressive_iff:
  "vd_verdict (apply_verdict_demotes v l hc ra n cm na rp rc ff) = ''progressive'' \<longleftrightarrow>
     v = ''progressive'' \<and> hc \<noteq> Some False \<and> \<not> (rc \<and> rp = Some False)
     \<and> \<not> (ra \<and> n \<and> cm \<and> \<not> na) \<and> \<not> ff"
  by (auto simp: apply_verdict_demotes_def DEMOTABLE_PROGRESS_VERDICTS_def Let_def)

lemma judged_tier: "judged (pr\<lparr> rg_assurance_tier := t \<rparr>) r sv = judged pr r sv"
proof -
  have "registered_prediction (pr\<lparr> rg_assurance_tier := t \<rparr>) = registered_prediction pr"
    by (simp add: registered_prediction_def fun_eq_iff)
  moreover have "registered_target (pr\<lparr> rg_assurance_tier := t \<rparr>) = registered_target pr"
    by (cases "rg_novel_threshold pr") (simp_all add: registered_target_def)
  moreover have "rg_metric (pr\<lparr> rg_assurance_tier := t \<rparr>) = rg_metric pr" by simp
  ultimately show ?thesis unfolding judged_def by (simp only:)
qed

lemma derived_hard_core_tier:
  "derived_hard_core (pr\<lparr> rg_assurance_tier := t \<rparr>) r = derived_hard_core pr r"
  by (simp add: derived_hard_core_def)

lemma demoted_tier:
  assumes "gates_for ''submit_test_result'' (resolve_tier a) \<subseteq> gates_for ''submit_test_result'' (resolve_tier b)"
    and "vd_verdict (demoted (pr\<lparr> rg_assurance_tier := b \<rparr>) r sv j) = ''progressive''"
  shows "vd_verdict (demoted (pr\<lparr> rg_assurance_tier := a \<rparr>) r sv j) = ''progressive''"
  using assms by (auto simp: demoted_def Let_def demotes_progressive_iff derived_hard_core_tier)

end
