(* ===== verification/Certify.thy ===== *)
theory Certify
  imports LT_Prelude
begin

text \<open>
  Certificates, \<^verbatim>\<open>lakatos/verdict/certify.py\<close>: six gates, the check of one, and the
  conjunction over all of them.

  The evidence window is an association list of which only the presence of \<^verbatim>\<open>as_of\<close>
  is tested; its values have a parameter type. The prose of the limits and of the next actions is
  left out; a next action is the gate it is for. The note of a gate nobody submitted is
  \<open>NotSubmitted\<close>.
\<close>

section \<open>Gates\<close>

definition GATES :: "string list" where
  "GATES = [''preregistered'', ''reproducible'', ''stands'', ''calibrated'', ''grounded'',
            ''measurement_owned'']"

definition OWNED_GRADES :: "string list" where
  "OWNED_GRADES = [''server_regenerated'', ''attested'']"

definition is_measurement_owned :: "string option \<Rightarrow> bool \<Rightarrow> bool" where
  "is_measurement_owned grade has_metric \<longleftrightarrow>
     \<not> has_metric \<or> (case grade of None \<Rightarrow> False | Some g \<Rightarrow> g \<in> set OWNED_GRADES)"

datatype check_note = Note string | NotSubmitted

record gate_check =
  gc_gate :: string
  gc_passed :: bool
  gc_evidence_ref :: string
  gc_note :: check_note

record 'v certificate =
  ct_claim_id :: string
  ct_certified :: bool
  ct_checks :: "gate_check list"
  ct_missing :: "string list"
  ct_evidence_window :: "(string \<times> 'v) list"

datatype certify_error =
    UnknownGate string | PassWithoutEvidence string | DuplicateGate string | WindowWithoutTime

definition mk_gate_check :: "string \<Rightarrow> bool \<Rightarrow> string \<Rightarrow> string \<Rightarrow> certify_error + gate_check" where
  "mk_gate_check gate passed evidence_ref nt =
     ebind (raise_if (gate \<notin> set GATES) (UnknownGate gate)) (\<lambda>_.
     ebind (raise_if (passed \<and> evidence_ref = []) (PassWithoutEvidence gate)) (\<lambda>_.
     Inr \<lparr> gc_gate = gate, gc_passed = passed, gc_evidence_ref = evidence_ref, gc_note = Note nt \<rparr>))"

section \<open>Certification\<close>

type_synonym by_gate = "string \<Rightarrow> gate_check option"

definition submit_check :: "by_gate \<Rightarrow> gate_check \<Rightarrow> certify_error + by_gate" where
  "submit_check by_gate c =
     (if by_gate (gc_gate c) \<noteq> None then Inl (DuplicateGate (gc_gate c))
      else Inr (by_gate(gc_gate c \<mapsto> c)))"

definition gate_missing :: "by_gate \<Rightarrow> string \<Rightarrow> bool" where
  "gate_missing by_gate g = (case by_gate g of None \<Rightarrow> True | Some c \<Rightarrow> \<not> gc_passed c)"

definition shown_check :: "by_gate \<Rightarrow> string \<Rightarrow> gate_check" where
  "shown_check by_gate g =
     (case by_gate g of
        Some c \<Rightarrow> c
      | None \<Rightarrow> \<lparr> gc_gate = g, gc_passed = False, gc_evidence_ref = [], gc_note = NotSubmitted \<rparr>)"

definition certify_claim ::
  "string \<Rightarrow> gate_check list \<Rightarrow> (string \<times> 'v) list \<Rightarrow> certify_error + 'v certificate" where
  "certify_claim claim_id checks evidence_window =
     ebind (fold_result submit_check Map.empty checks) (\<lambda>by_gate.
       let missing = filter (gate_missing by_gate) GATES in
       ebind (raise_if (''as_of'' \<notin> set (map fst evidence_window)) WindowWithoutTime) (\<lambda>_.
       Inr \<lparr> ct_claim_id = claim_id, ct_certified = (missing = []),
             ct_checks = map (shown_check by_gate) GATES, ct_missing = missing,
             ct_evidence_window = evidence_window \<rparr>))"

definition next_actions :: "'v certificate \<Rightarrow> string list" where
  "next_actions cert = ct_missing cert"

section \<open>Facts\<close>

lemma submitted_checks:
  "fold_result submit_check m cs = Inr m' \<longleftrightarrow>
     distinct (map gc_gate cs) \<and> (\<forall>c \<in> set cs. m (gc_gate c) = None)
     \<and> m' = m ++ map_of (map (\<lambda>c. (gc_gate c, c)) cs)"
proof (induction cs arbitrary: m)
  case Nil
  then show ?case by auto
next
  case (Cons c cs)
  let ?mc = "m(gc_gate c \<mapsto> c)"
  have step: "fold_result submit_check m (c # cs) = Inr m' \<longleftrightarrow>
      m (gc_gate c) = None \<and> fold_result submit_check ?mc cs = Inr m'"
    by (cases "m (gc_gate c)") (simp_all add: submit_check_def)
  have fresh: "(\<forall>k \<in> set cs. ?mc (gc_gate k) = None)
      \<longleftrightarrow> gc_gate c \<notin> gc_gate ` set cs \<and> (\<forall>k \<in> set cs. m (gc_gate k) = None)"
    by (force simp: image_iff)
  have upd: "?mc ++ map_of (map (\<lambda>c. (gc_gate c, c)) cs)
      = m ++ map_of (map (\<lambda>c. (gc_gate c, c)) (c # cs))" if "gc_gate c \<notin> gc_gate ` set cs"
  proof -
    have "map_of (map (\<lambda>c. (gc_gate c, c)) cs) (gc_gate c) = None"
      using that by (simp add: map_of_eq_None_iff image_image)
    then show ?thesis by (auto simp: map_add_def fun_eq_iff split: option.split)
  qed
  show ?case
  proof (cases "gc_gate c \<in> gc_gate ` set cs")
    case True
    then show ?thesis unfolding step Cons.IH fresh by simp
  next
    case False
    then have "distinct (map gc_gate (c # cs)) \<longleftrightarrow> distinct (map gc_gate cs)" by simp
    with False show ?thesis unfolding step Cons.IH fresh upd [OF False] by (simp only: list.set ball_simps) blast
  qed
qed

text \<open>A certificate in terms of the checks submitted.\<close>

lemma certify_claim_Inr:
  assumes "certify_claim i cs w = Inr c"
  shows "distinct (map gc_gate cs)"
    and "g \<in> set (ct_missing c) \<longleftrightarrow> g \<in> set GATES \<and> \<not> (\<exists>k \<in> set cs. gc_gate k = g \<and> gc_passed k)"
    and "ct_certified c \<longleftrightarrow> ct_missing c = []"
proof -
  from assms obtain m where m: "fold_result submit_check Map.empty cs = Inr m"
    and c: "ct_missing c = filter (gate_missing m) GATES" "ct_certified c \<longleftrightarrow> ct_missing c = []"
    by (auto simp: certify_claim_def Let_def result_simps)
  from m have d: "distinct (map gc_gate cs)" and mm: "m = map_of (map (\<lambda>c. (gc_gate c, c)) cs)"
    by (simp_all add: submitted_checks)
  show "distinct (map gc_gate cs)" by (rule d)
  show "ct_certified c \<longleftrightarrow> ct_missing c = []" by (rule c(2))
  have gm: "gate_missing m g \<longleftrightarrow> \<not> (\<exists>k \<in> set cs. gc_gate k = g \<and> gc_passed k)"
  proof (cases "m g")
    case None
    then have "g \<notin> gc_gate ` set cs" by (simp add: mm map_of_eq_None_iff image_image)
    with None show ?thesis by (auto simp: gate_missing_def)
  next
    case (Some k)
    then have k: "k \<in> set cs" "gc_gate k = g" by (auto simp: mm dest: map_of_SomeD)
    have uniq: "k' = k" if "k' \<in> set cs" "gc_gate k' = g" for k'
      using d k that by (auto simp: distinct_map dest: inj_onD)
    have "(\<exists>k' \<in> set cs. gc_gate k' = g \<and> gc_passed k') \<longleftrightarrow> gc_passed k"
      using k uniq by blast
    then show ?thesis by (simp add: gate_missing_def Some)
  qed
  show "g \<in> set (ct_missing c) \<longleftrightarrow>
      g \<in> set GATES \<and> \<not> (\<exists>k \<in> set cs. gc_gate k = g \<and> gc_passed k)"
    unfolding c(1) set_filter mem_Collect_eq gm by (rule refl)
qed

lemma mk_gate_check_Inr:
  "mk_gate_check g p e n = Inr c \<longleftrightarrow>
     g \<in> set GATES \<and> (p \<longrightarrow> e \<noteq> [])
     \<and> c = \<lparr> gc_gate = g, gc_passed = p, gc_evidence_ref = e, gc_note = Note n \<rparr>"
  by (auto simp: mk_gate_check_def result_simps check_simps)

end
