(* ===== verification/Agm.thy ===== *)
theory Agm
  imports Py_Float Py_Text
begin

text \<open>
  Belief revision, \<^verbatim>\<open>lakatos/programme/agm.py\<close>: expansion, contraction with the beliefs
  that depend on what goes, revision by the Levi identity and the demotion of a canonical belief.
  The hard core is protected: an operation that would touch it fails unless it is allowed to.

  The dict \<^verbatim>\<open>by_id\<close> keeps the last belief of an identifier. The loop that closes a set of
  identifiers under dependency is a \<open>partial_function\<close>; that it returns is a lemma.
\<close>

section \<open>Beliefs\<close>

datatype agm_error = BadKind | BadCredence | HardCoreProtected string

record belief =
  bl_id :: string
  bl_statement :: string
  bl_kind :: string
  bl_credence :: pyfloat
  bl_problem_balance :: int
  bl_connectivity :: int
  bl_depends_on :: "string list"

definition post_init_belief :: "belief \<Rightarrow> agm_error + unit" where
  "post_init_belief b = run_checks
     [raise_if (bl_kind b \<notin> {''hard_core'', ''protective_belt''}) BadKind,
      raise_if (\<not> (fl_le (PFin 0) (bl_credence b) \<and> fl_le (bl_credence b) (PFin 1))) BadCredence]"

definition is_hard_core :: "belief \<Rightarrow> bool" where
  "is_hard_core b \<longleftrightarrow> bl_kind b = ''hard_core''"

text \<open>The rational a finite float denotes; credences are finite.\<close>

fun fl_value :: "pyfloat \<Rightarrow> rat" where
  "fl_value (PFin x) = x"
| "fl_value _ = 0"

text \<open>The tuple of the code, as a list in the lexicographic order.\<close>

definition entrenchment_key :: "belief \<Rightarrow> rat list" where
  "entrenchment_key b =
     [if is_hard_core b then 1 else 0, fl_value (bl_credence b), of_int (bl_problem_balance b),
      of_int (bl_connectivity b)]"

record revision_result =
  rr_base :: "belief list"
  rr_removed :: "string list"
  rr_added :: "string list"
  rr_programme_shift_candidate :: bool

text \<open>\<^verbatim>\<open>{b.belief_id: b for b in base}\<close>.\<close>

definition by_id :: "belief list \<Rightarrow> string \<Rightarrow> belief option" where
  "by_id base i = map_of (rev (map (\<lambda>b. (bl_id b, b)) base)) i"

section \<open>Expansion\<close>

definition expansion :: "belief list \<Rightarrow> belief \<Rightarrow> bool \<Rightarrow> agm_error + revision_result" where
  "expansion base new allow_hard_core =
     (let existing = find (\<lambda>b. bl_id b = bl_id new) base;
          core = (case existing of None \<Rightarrow> False | Some e \<Rightarrow> is_hard_core e)
      in ebind (raise_if (core \<and> \<not> allow_hard_core) (HardCoreProtected (bl_id new))) (\<lambda>_.
         Inr \<lparr> rr_base = filter (\<lambda>b. bl_id b \<noteq> bl_id new) base @ [new], rr_removed = [],
               rr_added = [bl_id new],
               rr_programme_shift_candidate = (core \<and> \<not> is_hard_core new) \<rparr>))"

section \<open>Contraction\<close>

text \<open>One round of the loop: the set grows while the base is traversed.\<close>

fun closure_pass :: "belief list \<Rightarrow> string set \<Rightarrow> string set" where
  "closure_pass [] doomed = doomed"
| "closure_pass (b # bs) doomed =
     closure_pass bs
       (if bl_id b \<notin> doomed \<and> list_ex (\<lambda>d. d \<in> doomed) (bl_depends_on b)
        then insert (bl_id b) doomed else doomed)"

partial_function (option) closure_loop :: "belief list \<Rightarrow> string set \<Rightarrow> string set option" where
  "closure_loop base doomed =
     (let doomed' = closure_pass base doomed
      in if doomed' = doomed then Some doomed else closure_loop base doomed')"

definition dependents_closure :: "belief list \<Rightarrow> string set \<Rightarrow> string set option" where
  "dependents_closure base targets = closure_loop base targets"

definition core_ids :: "belief list \<Rightarrow> string set" where
  "core_ids base = set (map bl_id (filter is_hard_core base))"

text \<open>\<open>None\<close> would be a loop that does not return.\<close>

definition contraction :: "belief list \<Rightarrow> string \<Rightarrow> bool \<Rightarrow> (agm_error + revision_result) option" where
  "contraction base i allow_hard_core =
     (case by_id base i of
        None \<Rightarrow> Some (Inr \<lparr> rr_base = base, rr_removed = [], rr_added = [],
                            rr_programme_shift_candidate = False \<rparr>)
      | Some target \<Rightarrow>
          if is_hard_core target \<and> \<not> allow_hard_core then Some (Inl (HardCoreProtected i))
          else map_option (\<lambda>doomed.
            if \<not> allow_hard_core \<and> doomed \<inter> core_ids base \<noteq> {} then Inl (HardCoreProtected i)
            else Inr \<lparr> rr_base = filter (\<lambda>b. bl_id b \<notin> doomed) base,
                       rr_removed = sorted_list_of_set doomed, rr_added = [],
                       rr_programme_shift_candidate =
                         (\<exists>j \<in> doomed. case by_id base j of None \<Rightarrow> False | Some b \<Rightarrow> is_hard_core b) \<rparr>)
            (dependents_closure base {i}))"

section \<open>Revision\<close>

definition contradiction_key :: "belief list \<Rightarrow> string \<Rightarrow> rat list" where
  "contradiction_key base i =
     (case by_id base i of Some b \<Rightarrow> entrenchment_key b | None \<Rightarrow> [-1, -1, -1, -1])"

record contraction_state =
  cn_base :: "belief list"
  cn_removed :: "string list"
  cn_shift :: bool

fun contract_all :: "contraction_state \<Rightarrow> string list \<Rightarrow> bool \<Rightarrow> (agm_error + contraction_state) option" where
  "contract_all st [] allow_hard_core = Some (Inr st)"
| "contract_all st (i # is) allow_hard_core =
     (case contraction (cn_base st) i allow_hard_core of
        None \<Rightarrow> None
      | Some (Inl e) \<Rightarrow> Some (Inl e)
      | Some (Inr r) \<Rightarrow>
          contract_all \<lparr> cn_base = rr_base r, cn_removed = cn_removed st @ rr_removed r,
                         cn_shift = (cn_shift st \<or> rr_programme_shift_candidate r) \<rparr> is allow_hard_core)"

definition revision :: "belief list \<Rightarrow> belief \<Rightarrow> string list \<Rightarrow> bool \<Rightarrow> (agm_error + revision_result) option" where
  "revision base new contradicts allow_hard_core =
     map_option (\<lambda>res. ebind res (\<lambda>st.
       ebind (expansion (cn_base st) new allow_hard_core) (\<lambda>r.
         Inr \<lparr> rr_base = rr_base r, rr_removed = sorted_list_of_set (set (cn_removed st)),
               rr_added = rr_added r,
               rr_programme_shift_candidate = (cn_shift st \<or> rr_programme_shift_candidate r) \<rparr>)))
     (contract_all \<lparr> cn_base = base, cn_removed = [], cn_shift = False \<rparr>
        (sort_key (contradiction_key base) contradicts) allow_hard_core)"

definition DEMOTE_PENALTY :: pyfloat where
  "DEMOTE_PENALTY = fl_literal 1 10"

definition demote_canonical :: "belief list \<Rightarrow> string \<Rightarrow> belief \<Rightarrow> bool \<Rightarrow> agm_error + revision_result" where
  "demote_canonical base old_id new allow_hard_core =
     (case by_id base old_id of
        None \<Rightarrow> expansion base new allow_hard_core
      | Some old \<Rightarrow>
          ebind (raise_if (is_hard_core old \<and> \<not> allow_hard_core) (HardCoreProtected old_id)) (\<lambda>_.
          let demoted = old\<lparr> bl_credence :=
                fl_min (bl_credence old) (fl_max (fl_sub (bl_credence new) DEMOTE_PENALTY) (PFin 0)) \<rparr>
          in ebind (post_init_belief demoted) (\<lambda>_.
             expansion (map (\<lambda>b. if bl_id b = old_id then demoted else b) base) new allow_hard_core)))"

section \<open>The closure loop returns the reachable identifiers\<close>

text \<open>The dependency relation of a base: from a premise to the beliefs that presuppose it.\<close>

definition supports :: "belief list \<Rightarrow> (string \<times> string) set" where
  "supports base = {(d, bl_id b) | d b. b \<in> set base \<and> d \<in> set (bl_depends_on b)}"

definition dependents :: "belief list \<Rightarrow> string set \<Rightarrow> string set" where
  "dependents base targets = (supports base)\<^sup>* `` targets"

lemma closure_pass_grows: "doomed \<subseteq> closure_pass base doomed"
  by (induction base doomed rule: closure_pass.induct) auto

lemma closure_pass_sound:
  "set bs \<subseteq> set base \<Longrightarrow> doomed \<subseteq> dependents base targets \<Longrightarrow> closure_pass bs doomed \<subseteq> dependents base targets"
proof (induction bs doomed rule: closure_pass.induct)
  case (1 doomed)
  then show ?case by simp
next
  case (2 b bs doomed)
  have "bl_id b \<in> dependents base targets" if "d \<in> set (bl_depends_on b)" "d \<in> doomed" for d
  proof -
    from that(1) 2(2) have "(d, bl_id b) \<in> supports base" by (auto simp: supports_def)
    moreover from that(2) 2(3) have "d \<in> dependents base targets" by auto
    ultimately show ?thesis by (auto simp: dependents_def intro: rtrancl.rtrancl_into_rtrancl)
  qed
  with 2(2,3) show ?case unfolding closure_pass.simps by (intro 2(1)) (auto simp: list_ex_iff)
qed

lemma closure_pass_within:
  "closure_pass bs doomed \<subseteq> doomed \<union> set (map bl_id bs)"
  by (induction bs doomed rule: closure_pass.induct) (auto split: if_splits)

lemma closure_pass_fixed:
  "closure_pass bs doomed = doomed \<Longrightarrow> b \<in> set bs \<Longrightarrow> d \<in> set (bl_depends_on b) \<Longrightarrow> d \<in> doomed
     \<Longrightarrow> bl_id b \<in> doomed"
proof (induction bs doomed rule: closure_pass.induct)
  case (1 doomed)
  then show ?case by simp
next
  case (2 b' bs doomed)
  let ?d = "if bl_id b' \<notin> doomed \<and> list_ex (\<lambda>d. d \<in> doomed) (bl_depends_on b')
            then insert (bl_id b') doomed else doomed"
  have "?d \<subseteq> doomed" using closure_pass_grows [of ?d bs] 2(2) by simp
  then have keep: "?d = doomed" by auto
  show ?case
  proof (cases "b = b'")
    case True
    with keep 2(4,5) show ?thesis by (auto simp: list_ex_iff split: if_splits)
  next
    case False
    from 2(2) keep have "closure_pass bs ?d = ?d" by simp
    with 2(1) False 2(3-5) keep show ?thesis by simp
  qed
qed

lemma closure_loop_returns:
  assumes "targets \<subseteq> doomed" and "doomed \<subseteq> dependents base targets" and "finite doomed"
  shows "closure_loop base doomed = Some (dependents base targets)"
  using assms(1-3)
proof (induction "card (doomed \<union> set (map bl_id base)) - card doomed" arbitrary: doomed rule: less_induct)
  case less
  let ?next = "closure_pass base doomed"
  show ?case
  proof (cases "?next = doomed")
    case True
    have "dependents base targets \<subseteq> doomed"
    proof
      fix x assume "x \<in> dependents base targets"
      then obtain t where "t \<in> targets" "(t, x) \<in> (supports base)\<^sup>*" by (auto simp: dependents_def)
      from this(2,1) show "x \<in> doomed"
      proof (induction rule: rtrancl_induct)
        case base
        then show ?case using less.prems(1) by auto
      next
        case (step y z)
        then show ?case using closure_pass_fixed [OF True] by (auto simp: supports_def)
      qed
    qed
    with True less.prems(2) show ?thesis by (subst closure_loop.simps) (simp add: Let_def)
  next
    case False
    let ?U = "doomed \<union> set (map bl_id base)"
    have up: "doomed \<subset> ?next" using False closure_pass_grows [of doomed base] by blast
    have fin: "finite ?next" using closure_pass_within [of base doomed] less.prems(3)
      by (meson finite_UnI finite_set finite_subset)
    have "?next \<union> set (map bl_id base) = ?U" using closure_pass_within [of base doomed] up by blast
    moreover have "card doomed < card ?next" using fin up by (rule psubset_card_mono)
    moreover have "card ?next \<le> card ?U"
      using closure_pass_within [of base doomed] less.prems(3) by (intro card_mono) auto
    ultimately have "card (?next \<union> set (map bl_id base)) - card ?next < card ?U - card doomed" by simp
    moreover have "?next \<subseteq> dependents base targets"
      using less.prems(2) by (intro closure_pass_sound) simp_all
    ultimately have "closure_loop base ?next = Some (dependents base targets)"
      using less.hyps less.prems(1) up fin by blast
    with False show ?thesis by (subst closure_loop.simps) (simp add: Let_def)
  qed
qed

lemma dependents_closure_returns:
  "finite targets \<Longrightarrow> dependents_closure base targets = Some (dependents base targets)"
  unfolding dependents_closure_def by (rule closure_loop_returns) (auto simp: dependents_def)

section \<open>The closed form\<close>

text \<open>
  Contraction and a sequence of contractions in closed form: what is removed is everything
  reachable from the given identifiers along the dependency relation, whatever the order.
\<close>

definition ids :: "belief list \<Rightarrow> string set" where
  "ids base = set (map bl_id base)"

lemma finite_ids [simp]: "finite (ids base)"
  by (simp add: ids_def)

lemma by_id_None: "by_id base i = None \<longleftrightarrow> i \<notin> ids base"
  by (simp add: by_id_def ids_def map_of_eq_None_iff image_image)

lemma by_id_Some: "by_id base i = Some b \<Longrightarrow> b \<in> set base \<and> bl_id b = i"
  by (auto simp: by_id_def dest: map_of_SomeD)

lemma by_id_filter:
  "P i \<Longrightarrow> by_id (filter (\<lambda>b. P (bl_id b)) base) i = by_id base i"
proof -
  assume p: "P i"
  have "map_of (filter (\<lambda>(k, b). P k) xs) i = map_of xs i" for xs :: "(string \<times> belief) list"
    using p by (induction xs) auto
  moreover have "rev (map (\<lambda>b. (bl_id b, b)) (filter (\<lambda>b. P (bl_id b)) base))
      = filter (\<lambda>(k, b). P k) (rev (map (\<lambda>b. (bl_id b, b)) base))"
    by (simp add: filter_map rev_filter [symmetric] rev_map comp_def)
  ultimately show ?thesis by (simp add: by_id_def)
qed

lemma dependents_within: "dependents base T \<subseteq> T \<union> ids base"
proof
  fix x assume "x \<in> dependents base T"
  then obtain t where "t \<in> T" "(t, x) \<in> (supports base)\<^sup>*" by (auto simp: dependents_def)
  then show "x \<in> T \<union> ids base" by (auto simp: supports_def ids_def elim: rtranclE)
qed

lemma dependents_self: "T \<subseteq> dependents base T"
  by (auto simp: dependents_def)

lemma dependents_step: "x \<in> dependents base T \<Longrightarrow> (x, y) \<in> supports base \<Longrightarrow> y \<in> dependents base T"
  by (auto simp: dependents_def intro: rtrancl_into_rtrancl)

lemma dependents_mono: "T \<subseteq> T' \<Longrightarrow> dependents base T \<subseteq> dependents base T'"
  by (auto simp: dependents_def)

lemma dependents_Un: "dependents base (T \<union> T') = dependents base T \<union> dependents base T'"
  by (auto simp: dependents_def)

lemma dependents_empty [simp]: "dependents base {} = {}"
  by (simp add: dependents_def)

lemma dependents_induct [consumes 1, case_names start step]:
  assumes "x \<in> dependents base T" and "\<And>t. t \<in> T \<Longrightarrow> P t"
    and "\<And>y z. y \<in> dependents base T \<Longrightarrow> P y \<Longrightarrow> (y, z) \<in> supports base \<Longrightarrow> P z"
  shows "P x"
proof -
  from assms(1) obtain t where t: "t \<in> T" "(t, x) \<in> (supports base)\<^sup>*" by (auto simp: dependents_def)
  from t(2) show ?thesis
  proof (induction rule: rtrancl_induct)
    case base
    show ?case using t(1) by (rule assms(2))
  next
    case (step y z)
    with t(1) have "y \<in> dependents base T" by (auto simp: dependents_def)
    with step show ?case using assms(3) by blast
  qed
qed

definition without :: "string set \<Rightarrow> belief list \<Rightarrow> belief list" where
  "without D base = filter (\<lambda>b. bl_id b \<notin> D) base"

lemma ids_without [simp]: "ids (without D base) = ids base - D"
  by (auto simp: without_def ids_def)

lemma core_ids_without [simp]: "core_ids (without D base) = core_ids base - D"
  by (auto simp: without_def core_ids_def)

lemma without_without: "without D (without E base) = without (E \<union> D) base"
  by (simp add: without_def conj_commute)

text \<open>Removing one closure first does not change what a later one reaches beyond it.\<close>

lemma dependents_without:
  "dependents base T \<union> dependents (without (dependents base T) base) (S - dependents base T)
     = dependents base (T \<union> S)" (is "?D \<union> dependents ?base' ?S' = _")
proof (rule set_eqI, rule iffI)
  fix x assume "x \<in> ?D \<union> dependents ?base' ?S'"
  moreover have "x \<in> dependents base (T \<union> S)" if "x \<in> dependents ?base' ?S'"
    using that
  proof (induction rule: dependents_induct)
    case (start t)
    then show ?case using dependents_self by fastforce
  next
    case (step y z)
    from step.hyps(2) have "(y, z) \<in> supports base" by (auto simp: supports_def without_def)
    with step.IH show ?case by (rule dependents_step)
  qed
  ultimately show "x \<in> dependents base (T \<union> S)" by (auto simp: dependents_Un)
next
  fix x assume "x \<in> dependents base (T \<union> S)"
  then show "x \<in> ?D \<union> dependents ?base' ?S'"
  proof (induction rule: dependents_induct)
    case (start t)
    then show ?case using dependents_self [of T base] dependents_self [of ?S' ?base'] by blast
  next
    case (step y z)
    show ?case
    proof (cases "z \<in> ?D")
      case False
      with step.IH step.hyps(2) have y: "y \<in> dependents ?base' ?S'" using dependents_step by blast
      from step.hyps(2) False have "(y, z) \<in> supports ?base'" by (auto simp: supports_def without_def)
      with y show ?thesis using dependents_step by blast
    qed simp
  qed
qed

definition core_at :: "belief list \<Rightarrow> string \<Rightarrow> bool" where
  "core_at base i = (case by_id base i of None \<Rightarrow> False | Some b \<Rightarrow> is_hard_core b)"

lemma core_at_without: "i \<notin> D \<Longrightarrow> core_at (without D base) i = core_at base i"
  by (simp add: core_at_def without_def by_id_filter [of "\<lambda>j. j \<notin> D"])

lemma core_at_core_ids: "core_at base i \<Longrightarrow> i \<in> core_ids base"
  by (auto simp: core_at_def core_ids_def split: option.splits dest!: by_id_Some)

lemma contraction_closed:
  "contraction base i allow =
     (let D = dependents base ({i} \<inter> ids base) in
      if \<not> allow \<and> D \<inter> core_ids base \<noteq> {} then Some (Inl (HardCoreProtected i))
      else Some (Inr \<lparr> rr_base = without D base, rr_removed = sorted_list_of_set D, rr_added = [],
                       rr_programme_shift_candidate = (\<exists>j \<in> D. core_at base j) \<rparr>))"
proof (cases "by_id base i")
  case None
  then have "{i} \<inter> ids base = {}" by (simp add: by_id_None)
  with None show ?thesis by (simp add: contraction_def Let_def without_def)
next
  case (Some b)
  then have i: "{i} \<inter> ids base = {i}" using by_id_None [of base i] by auto
  have mem: "i \<in> dependents base {i}" using dependents_self [of "{i}" base] by simp
  show ?thesis
  proof (cases "is_hard_core b \<and> \<not> allow")
    case True
    then have "core_at base i" by (simp add: core_at_def Some)
    then have "dependents base {i} \<inter> core_ids base \<noteq> {}" using mem core_at_core_ids by blast
    with True show ?thesis by (simp add: contraction_def Some i Let_def)
  next
    case False
    then show ?thesis
      by (simp add: contraction_def Some i dependents_closure_returns Let_def without_def
          flip: core_at_def)
  qed
qed

text \<open>A sequence of contractions succeeds exactly when the whole closure may go, and removes it.\<close>

lemma contract_all_result:
  defines "D \<equiv> \<lambda>st is. dependents (cn_base st) (set is \<inter> ids (cn_base st))"
  shows "(allow \<or> D st is \<inter> core_ids (cn_base st) = {} \<longrightarrow>
      (\<exists>st'. contract_all st is allow = Some (Inr st')
         \<and> cn_base st' = without (D st is) (cn_base st)
         \<and> set (cn_removed st') = set (cn_removed st) \<union> D st is
         \<and> cn_shift st' = (cn_shift st \<or> (\<exists>j \<in> D st is. core_at (cn_base st) j))))
    \<and> (\<not> allow \<and> D st is \<inter> core_ids (cn_base st) \<noteq> {} \<longrightarrow>
      (\<exists>i \<in> set is. contract_all st is allow = Some (Inl (HardCoreProtected i))))"
proof (induction "is" arbitrary: st)
  case Nil
  have "without {} (cn_base st) = cn_base st" by (simp add: without_def)
  then show ?case by (auto simp: D_def)
next
  case (Cons i "is")
  let ?b = "cn_base st"
  let ?E = "dependents ?b ({i} \<inter> ids ?b)"
  let ?st = "\<lparr> cn_base = without ?E ?b, cn_removed = cn_removed st @ sorted_list_of_set ?E,
               cn_shift = (cn_shift st \<or> (\<exists>j \<in> ?E. core_at ?b j)) \<rparr>"
  have fin: "finite ?E" using dependents_within [of ?b "{i} \<inter> ids ?b"] by (rule finite_subset) simp
  have rest: "set is \<inter> ids (without ?E ?b) = set is \<inter> ids ?b - ?E" by auto
  have parts: "set (i # is) \<inter> ids ?b = ({i} \<inter> ids ?b) \<union> (set is \<inter> ids ?b)" by auto
  have D: "D st (i # is) = ?E \<union> D ?st is"
    unfolding D_def contraction_state.select_convs rest parts by (rule dependents_without [symmetric])
  have sub: "D ?st is \<subseteq> ids ?b - ?E"
    using dependents_within [of "without ?E ?b" "set is \<inter> ids (without ?E ?b)"] by (auto simp: D_def)
  have core: "(\<exists>j \<in> D ?st is. core_at (without ?E ?b) j) \<longleftrightarrow> (\<exists>j \<in> D ?st is. core_at ?b j)"
    using sub core_at_without by blast
  show ?case
  proof (cases "\<not> allow \<and> ?E \<inter> core_ids ?b \<noteq> {}")
    case True
    then have "contract_all st (i # is) allow = Some (Inl (HardCoreProtected i))"
      by (simp add: contraction_closed Let_def)
    with True show ?thesis by (auto simp: D)
  next
    case False
    then have step: "contract_all st (i # is) allow = contract_all ?st is allow"
      by (auto simp: contraction_closed Let_def)
    have core_Int: "allow \<or> D st (i # is) \<inter> core_ids ?b = {}
        \<longleftrightarrow> allow \<or> D ?st is \<inter> core_ids (cn_base ?st) = {}"
      using False sub unfolding D contraction_state.select_convs core_ids_without by blast
    show ?thesis
    proof (intro conjI impI)
      assume "allow \<or> D st (i # is) \<inter> core_ids ?b = {}"
      with core_Int Cons.IH [of ?st] obtain st' where st': "contract_all ?st is allow = Some (Inr st')"
        and r: "cn_base st' = without (D ?st is) (cn_base ?st)"
          "set (cn_removed st') = set (cn_removed ?st) \<union> D ?st is"
          "cn_shift st' = (cn_shift ?st \<or> (\<exists>j \<in> D ?st is. core_at (cn_base ?st) j))"
        by blast
      have "cn_base st' = without (?E \<union> D ?st is) ?b"
        "set (cn_removed st') = set (cn_removed st) \<union> (?E \<union> D ?st is)"
        "cn_shift st' = (cn_shift st \<or> (\<exists>j \<in> ?E \<union> D ?st is. core_at ?b j))"
        unfolding r by (simp_all only: contraction_state.select_convs without_without core set_append
          set_sorted_list_of_set [OF fin] Un_assoc bex_Un disj_assoc)
      with st' show "\<exists>st'. contract_all st (i # is) allow = Some (Inr st')
          \<and> cn_base st' = without (D st (i # is)) ?b
          \<and> set (cn_removed st') = set (cn_removed st) \<union> D st (i # is)
          \<and> cn_shift st' = (cn_shift st \<or> (\<exists>j \<in> D st (i # is). core_at ?b j))"
        unfolding step D by (intro exI [of _ st'] conjI)
    next
      assume "\<not> allow \<and> D st (i # is) \<inter> core_ids ?b \<noteq> {}"
      with core_Int Cons.IH [of ?st] show "\<exists>k \<in> set (i # is). contract_all st (i # is) allow
          = Some (Inl (HardCoreProtected k))"
        unfolding step by (simp only: list.set) blast
    qed
  qed
qed

section \<open>Revision\<close>

definition contradicted :: "belief list \<Rightarrow> string list \<Rightarrow> string set" where
  "contradicted base contradicts = dependents base (set contradicts \<inter> ids base)"

lemma expansion_Inr:
  "expansion base new allow = Inr r \<Longrightarrow>
     rr_base r = without {bl_id new} base @ [new] \<and> rr_added r = [bl_id new]
     \<and> (\<not> allow \<longrightarrow> (case find (\<lambda>b. bl_id b = bl_id new) base of None \<Rightarrow> True | Some e \<Rightarrow> \<not> is_hard_core e))
     \<and> rr_programme_shift_candidate r =
        ((case find (\<lambda>b. bl_id b = bl_id new) base of None \<Rightarrow> False | Some e \<Rightarrow> is_hard_core e)
         \<and> \<not> is_hard_core new)"
  by (auto simp: expansion_def Let_def result_simps check_simps without_def split: option.splits)

lemma revision_shape:
  shows "\<exists>res. revision base new contradicts allow = Some res"
    and "revision base new contradicts allow = Some (Inr r) \<longleftrightarrow>
      (allow \<or> contradicted base contradicts \<inter> core_ids base = {})
      \<and> (\<exists>e. expansion (without (contradicted base contradicts) base) new allow = Inr e
          \<and> r = \<lparr> rr_base = rr_base e,
                 rr_removed = sorted_list_of_set (contradicted base contradicts),
                 rr_added = rr_added e,
                 rr_programme_shift_candidate =
                   ((\<exists>j \<in> contradicted base contradicts. core_at base j)
                    \<or> rr_programme_shift_candidate e) \<rparr>)"
proof -
  let ?st = "\<lparr> cn_base = base, cn_removed = [], cn_shift = False \<rparr>"
  let ?order = "sort_key (contradiction_key base) contradicts"
  let ?D = "contradicted base contradicts"
  have c: "(allow \<or> ?D \<inter> core_ids base = {} \<longrightarrow>
      (\<exists>st'. contract_all ?st ?order allow = Some (Inr st')
         \<and> cn_base st' = without ?D base \<and> set (cn_removed st') = ?D
         \<and> cn_shift st' = (\<exists>j \<in> ?D. core_at base j)))
    \<and> (\<not> allow \<and> ?D \<inter> core_ids base \<noteq> {} \<longrightarrow>
      (\<exists>i \<in> set ?order. contract_all ?st ?order allow = Some (Inl (HardCoreProtected i))))"
    using contract_all_result [of allow ?st ?order]
    by (simp add: contradicted_def)
  show "\<exists>res. revision base new contradicts allow = Some res"
    using c by (cases "\<not> allow \<and> ?D \<inter> core_ids base \<noteq> {}") (auto simp: revision_def)
  show "revision base new contradicts allow = Some (Inr r) \<longleftrightarrow>
      (allow \<or> ?D \<inter> core_ids base = {})
      \<and> (\<exists>e. expansion (without ?D base) new allow = Inr e
          \<and> r = \<lparr> rr_base = rr_base e, rr_removed = sorted_list_of_set ?D, rr_added = rr_added e,
                 rr_programme_shift_candidate =
                   ((\<exists>j \<in> ?D. core_at base j) \<or> rr_programme_shift_candidate e) \<rparr>)"
  proof (cases "allow \<or> ?D \<inter> core_ids base = {}")
    case True
    with c obtain st' where st': "contract_all ?st ?order allow = Some (Inr st')"
      "cn_base st' = without ?D base" "set (cn_removed st') = ?D"
      "cn_shift st' = (\<exists>j \<in> ?D. core_at base j)" by blast
    have "revision base new contradicts allow =
      Some (ebind (expansion (without ?D base) new allow) (\<lambda>e.
        Inr \<lparr> rr_base = rr_base e, rr_removed = sorted_list_of_set ?D, rr_added = rr_added e,
              rr_programme_shift_candidate =
                ((\<exists>j \<in> ?D. core_at base j) \<or> rr_programme_shift_candidate e) \<rparr>))"
      by (simp only: revision_def st' option.simps ebind_Inr)
    with True show ?thesis by (auto simp: ebind_eq_Inr)
  next
    case False
    with c obtain i where "contract_all ?st ?order allow = Some (Inl (HardCoreProtected i))" by blast
    with False show ?thesis by (simp add: revision_def)
  qed
qed

end
