(* ===== verification/Judgement_Properties.thy ===== *)
theory Judgement_Properties
  imports Judgement_Facts Certify Agm Argue_Facts
begin

text \<open>
  The properties of the verdict layer and of belief revision: what a sealed verdict and a
  promotion rest on, that neither the scale of an ordinal metric nor the order of contradictions
  matters, and that certification and stricter tiers only take away.
\<close>

section \<open>Submissions\<close>

text \<open>A registered prediction and a submission that earns its progress.\<close>

definition sample_registered :: registered where
  "sample_registered =
     \<lparr> rg_metric = Some ''rms'', rg_direction = ''lower'', rg_baseline = PFin 3, rg_noise_band = None,
       rg_novel = None, rg_scale = None, rg_novel_metric = Some ''drift'', rg_novel_direction = Some ''lower'',
       rg_novel_threshold = Some (PFin 5), rg_hard_core = ''core'',
       rg_assurance_tier = Some ''anchored'', rg_require_novel_anchor = False \<rparr>"

definition sample_submission :: submission where
  "sample_submission =
     \<lparr> sb_metric_value = PFin 1, sb_novel_measured = Some (PFin 4), sb_touched_assumptions = [''belt''],
       sb_lakatos_anomaly = Some True, sb_lakatos_consequence = Some True, sb_lakatos_excess = Some True,
       sb_lakatos_hardcore = Some True, sb_implementation_complete = True, sb_data_branch = False,
       sb_data_replay_passed = True, sb_human_verdict_required = False, sb_response = None,
       sb_counterexample_type = None, sb_proof_concept = None, sb_excess_content = False,
       sb_novel_corroborated = False, sb_in_heuristic_spirit = None \<rparr>"

definition sample_view :: server_view where
  "sample_view =
     \<lparr> sv_stored_sha = ''aa'', sv_sha_verified = True, sv_novel_server_sha = Some ''bb'',
       sv_reproducible = None, sv_freshness = None \<rparr>"

lemmas sample_defs = sample_registered_def sample_submission_def sample_view_def

lemma fl_small [simp]:
  "fl_round 1 = PFin 1" "fl_round 2 = PFin 2" "fl_round (- 2) = PFin (- 2)" "fl_round 3 = PFin 3"
  "fl_round 5 = PFin 5"
  using fl_round_int [of 1] fl_round_int [of 2] fl_round_int [of "- 2"] fl_round_int [of 3] fl_round_int [of 5]
  by simp_all

lemma sample_judged:
  "\<exists>j. judged sample_registered sample_submission sample_view = Inr j \<and> jd_verdict j = ''progressive''
     \<and> jd_novel j"
  by (simp add: judged_def registered_prediction_def registered_target_def post_init_prediction_def
      SCALE_TYPES_def judge_def structured_novelty_def cross_metric_gate_def corroborated_def improves_def
      within_noise_def fl_sub_def falsy_def or_empty_def or_default_def str_strip_def sample_defs Let_def)

lemma sample_hard_core: "derived_hard_core sample_registered sample_submission = Some True"
  by code_simp

lemma sample_sealed:
  "\<exists>s. decide_submission sample_registered sample_submission sample_view = Inr s
     \<and> se_verdict s = ''progressive''"
proof -
  obtain j where j: "judged sample_registered sample_submission sample_view = Inr j"
    "jd_verdict j = ''progressive''" using sample_judged by blast
  have "submitted_appraisal sample_submission (Some True) = None"
    by (simp add: submitted_appraisal_def sample_defs)
  moreover have "\<exists>l. submitted_gate sample_submission (Some True) = Some l \<and> lg_verdict l = PROGRESSIVE"
    by (simp add: submitted_gate_def qualitative_given_def lakatos_gate_progressive sample_defs)
  ultimately have "vd_verdict (demoted sample_registered sample_submission sample_view j) = ''progressive''"
    using j(2)
    by (auto simp: demoted_def Let_def demotes_progressive_iff sample_hard_core dialectical_verdict_def
        reconcile_verdict_def engine_freshness_fires_def sample_view_def)
  with j(1) show ?thesis by (auto simp: decide_submission_Inr)
qed

lemma judged_progressive:
  assumes "judge (Some p) m target nm ms ns g w = Inr j" and "jd_verdict j = ''progressive''"
  shows "fl_isfinite m" and "improves p (fl_sub m (pd_baseline_value p))"
    and "independent_hit p target nm ms ns g w"
proof -
  from judge_success [OF assms(1)] have "fl_isfinite m \<and> jd_delta j = fl_sub m (pd_baseline_value p)
      \<and> jd_improved j = improves p (jd_delta j) \<and> jd_novel j = independent_hit p target nm ms ns g w
      \<and> (jd_improved j \<and> jd_novel j)"
    using assms(2) by (metis metric_verdict_progressive)
  then show "fl_isfinite m" "improves p (fl_sub m (pd_baseline_value p))"
    "independent_hit p target nm ms ns g w" by metis+
qed

text \<open>C34: a sealed verdict of progress is earned. The measurement is strictly better than the
  registered baseline in the direction of the prediction, a registered novel target was hit by a
  measurement of its own, a target on the predicted metric itself was measured by a script whose
  hash the server knows to differ from the judging script, no assumption the submission touched is
  in the hard core, the judging process is neither stale nor incapable, and neither the appraisal of
  a counterexample nor the Lakatos gate dissents.\<close>

theorem progress_is_earned:
  assumes "decide_submission pr r sv = Inr s" and "se_verdict s = ''progressive''"
    and "is_binary64 (sb_metric_value r)" and "is_binary64 (rg_baseline pr)"
  shows "\<exists>m t x. rg_metric pr = Some m \<and> registered_target pr = Some t \<and> sb_novel_measured r = Some x
    \<and> better (registered_prediction pr m) (sb_metric_value r) (rg_baseline pr)
    \<and> corroborated t x
    \<and> (nt_metric_name t = m \<longrightarrow> sv_sha_verified sv
        \<and> sv_novel_server_sha sv \<notin> {None, Some [], Some (sv_stored_sha sv)})
    \<and> set (touched_tokens (sb_touched_assumptions r)) \<inter> core_tokens (rg_hard_core pr) = {}
    \<and> \<not> engine_freshness_fires (sv_freshness sv)
    \<and> (\<forall>a. submitted_appraisal r (derived_hard_core pr r) = Some a \<longrightarrow> ap_verdict a = ''progressive'')
    \<and> (\<forall>l. submitted_gate r (derived_hard_core pr r) = Some l \<longrightarrow> lg_verdict l = PROGRESSIVE)"
proof -
  let ?hc = "derived_hard_core pr r"
  from submission_progressive [OF assms(1,2)] obtain j where j: "judged pr r sv = Inr j"
    "jd_verdict j = ''progressive''" and hc: "?hc \<noteq> Some False"
    and ff: "\<not> engine_freshness_fires (sv_freshness sv)"
    and pa: "\<forall>a. submitted_appraisal r ?hc = Some a \<longrightarrow> ap_verdict a = ''progressive''"
    and lg: "case submitted_gate r ?hc of None \<Rightarrow> sb_response r \<noteq> None | Some l \<Rightarrow> lg_verdict l = PROGRESSIVE"
    by blast
  let ?both = "sv_sha_verified sv \<and> sv_novel_server_sha sv \<noteq> None"
  from judged_success [OF j(1)] obtain m where m: "rg_metric pr = Some m"
    and p: "post_init_prediction (registered_prediction pr m) = Inr ()"
    and jd: "judge (Some (registered_prediction pr m)) (sb_metric_value r) (registered_target pr)
      (sb_novel_measured r) (if ?both then sv_stored_sha sv else [])
      (if ?both then or_empty (sv_novel_server_sha sv) else []) False [] = Inr j"
    by blast
  let ?p = "registered_prediction pr m"
  have b: "pd_baseline_value ?p = rg_baseline pr" and mn: "pd_metric_name ?p = m"
    by (simp_all add: registered_prediction_def)
  note fin = judged_progressive(1) [OF jd j(2)] and imp = judged_progressive(2) [OF jd j(2)]
    and hit = judged_progressive(3) [OF jd j(2)]
  have better: "better ?p (sb_metric_value r) (rg_baseline pr)"
    using improves_better [OF p imp fin assms(3)] assms(4) by (simp add: b)
  from hit obtain t x where t: "registered_target pr = Some t" "sb_novel_measured r = Some x"
    by (auto simp: independent_hit_def split: option.splits)
  from hit have c: "corroborated t x" and src: "nt_metric_name t = m \<longrightarrow> sv_sha_verified sv
      \<and> sv_novel_server_sha sv \<notin> {None, Some [], Some (sv_stored_sha sv)}"
    by (auto simp: independent_hit_def t mn distinct_source_def or_empty_def split: if_splits)
  have "\<forall>l. submitted_gate r ?hc = Some l \<longrightarrow> lg_verdict l = PROGRESSIVE" using lg by auto
  with m t better c src hc ff pa show ?thesis by (simp add: derived_hard_core_kept)
qed

theorem progress_is_earned_witness:
  "\<exists>m. rg_metric sample_registered = Some m
     \<and> better (registered_prediction sample_registered m) (PFin 1) (PFin 3)"
proof -
  obtain s where s: "decide_submission sample_registered sample_submission sample_view = Inr s"
    "se_verdict s = ''progressive''" using sample_sealed by blast
  from progress_is_earned [OF s] show ?thesis by (auto simp: sample_registered_def sample_submission_def)
qed

text \<open>C37: whatever is submitted, the sealed verdict is a registered word of the scripted or the
  engine vocabulary, never an administrative one: a submission cannot name a node canonical.\<close>

theorem sealed_verdict_is_registered:
  assumes "decide_submission pr r sv = Inr s"
  shows "is_registered_verdict (se_verdict s) \<and> \<not> is_admin_verdict (se_verdict s)
    \<and> se_verdict s \<in> SCRIPTED_VERDICTS \<union> ENGINE_VERDICTS"
proof -
  from assms obtain j where j: "judged pr r sv = Inr j" and v: "se_verdict s = vd_verdict (demoted pr r sv j)"
    by (auto simp: decide_submission_Inr)
  from judged_success [OF j] have sc: "jd_verdict j \<in> SCRIPTED_VERDICTS" by (metis judge_verdict_scripted)
  let ?d = "dialectical_verdict (jd_verdict j) (submitted_appraisal r (derived_hard_core pr r))
              (submitted_gate r (derived_hard_core pr r))"
  have "vd_verdict (demoted pr r sv j) \<in> {dc_verdict ?d, ''partial'', ''different_programme''}"
    unfolding demoted_def Let_def by (rule demotes_only_demote)
  moreover have "dc_verdict ?d \<in> SCRIPTED_VERDICTS \<union> ENGINE_VERDICTS"
    using sc by (rule dialectical_vocabulary)
  moreover have "''partial'' \<in> SCRIPTED_VERDICTS" "''different_programme'' \<in> ENGINE_VERDICTS"
    by (simp_all add: SCRIPTED_VERDICTS_def ENGINE_VERDICTS_def)
  ultimately have "se_verdict s \<in> SCRIPTED_VERDICTS \<union> ENGINE_VERDICTS" using v by auto
  then show ?thesis
    by (auto simp: registry_defs verdict_predicates str_startswith_def)
qed

theorem sealed_verdict_is_registered_witness:
  "\<exists>s. decide_submission sample_registered sample_submission sample_view = Inr s
     \<and> is_registered_verdict (se_verdict s)"
proof -
  obtain s where s: "decide_submission sample_registered sample_submission sample_view = Inr s"
    using sample_sealed by blast
  with sealed_verdict_is_registered [OF s] show ?thesis by blast
qed

text \<open>Assurance tiers are ordered by strictness. A submission whose progress survives a
  higher tier is sealed as progress under every lower one.\<close>

theorem stricter_tier_seals_less:
  assumes "decide_submission (pr\<lparr> rg_assurance_tier := high \<rparr>) r sv = Inr s"
    and "se_verdict s = ''progressive''"
    and "tier_level (Some (resolve_tier low)) \<le> tier_level (Some (resolve_tier high))"
  shows "\<exists>s'. decide_submission (pr\<lparr> rg_assurance_tier := low \<rparr>) r sv = Inr s'
    \<and> se_verdict s' = ''progressive''"
proof -
  from assms(1,2) obtain j where j: "judged pr r sv = Inr j"
    and v: "vd_verdict (demoted (pr\<lparr> rg_assurance_tier := high \<rparr>) r sv j) = ''progressive''"
    by (auto simp: decide_submission_Inr judged_tier)
  from tier_gates_monotone [OF assms(3)] v
  have "vd_verdict (demoted (pr\<lparr> rg_assurance_tier := low \<rparr>) r sv j) = ''progressive''"
    by (rule demoted_tier)
  with j show ?thesis by (auto simp: decide_submission_Inr judged_tier)
qed

theorem stricter_tier_seals_less_witness:
  "\<exists>s'. decide_submission (sample_registered\<lparr> rg_assurance_tier := Some ''notebook'' \<rparr>)
          sample_submission sample_view = Inr s' \<and> se_verdict s' = ''progressive''"
proof -
  obtain s where s: "decide_submission sample_registered sample_submission sample_view = Inr s"
    "se_verdict s = ''progressive''" using sample_sealed by blast
  have same: "sample_registered\<lparr> rg_assurance_tier := Some ''anchored'' \<rparr> = sample_registered"
    by (simp add: sample_registered_def)
  show ?thesis
    by (rule stricter_tier_seals_less [where high = "Some ''anchored''" and s = s])
      (use s in \<open>simp_all add: same tier_level_def resolve_tier_def TIER_RANK_def\<close>)
qed

section \<open>The metric\<close>

lemma judge_answers:
  "(\<exists>j. judge (Some p) m target nm ms ns g w = Inr j) \<longleftrightarrow>
     (w = [] \<or> g \<and> target \<noteq> None) \<and> fl_isfinite m \<and> (\<exists>hn. structured_novelty p target nm ms ns = Inr hn)"
proof (cases "structured_novelty p target nm ms ns")
  case (Inl e)
  then show ?thesis by (simp add: judge_def Let_def ebind_eq_Inr)
next
  case (Inr hn)
  then show ?thesis
    by (cases hn) (auto simp: judge_def Let_def ebind_eq_Inr raise_if_Inr split: prod.split)
qed

text \<open>The verdict on an ordinal metric depends on nothing but the order of the values. Relabel
  the scale by any strictly increasing map whose values are floats, and the same submission gets the
  same verdict, although the code compares a rounded difference.\<close>

theorem ordinal_verdict_ignores_scale:
  assumes "post_init_prediction p = Inr ()" and "pd_scale_type p = ''ordinal''"
    and "pd_baseline_value p = PFin b" and "strict_mono f"
    and "is_binary64 (PFin x)" and "is_binary64 (PFin b)"
    and "is_binary64 (PFin (f x))" and "is_binary64 (PFin (f b))"
    and "judge (Some p) (PFin x) target nm ms ns g w = Inr j"
  shows "\<exists>j'. judge (Some (p\<lparr> pd_baseline_value := PFin (f b) \<rparr>)) (PFin (f x)) target nm ms ns g w = Inr j'
    \<and> jd_verdict j' = jd_verdict j"
proof -
  let ?q = "p\<lparr> pd_baseline_value := PFin (f b) \<rparr>"
  have "pd_noise_band p = PFin 0"
    using assms(1,2) by (cases "pd_noise_band p") (simp_all add: post_init_prediction_iff)
  then have z: "pd_noise_band p = PFin 0" "pd_noise_band ?q = PFin 0" by simp_all
  have "structured_novelty ?q target nm ms ns = structured_novelty p target nm ms ns"
    by (cases target; cases nm) (simp_all add: structured_novelty_def)
  moreover have "\<exists>j. judge (Some p) (PFin x) target nm ms ns g w = Inr j" using assms(9) by blast
  ultimately have "\<exists>j'. judge (Some ?q) (PFin (f x)) target nm ms ns g w = Inr j'"
    unfolding judge_answers by simp
  then obtain j' where j': "judge (Some ?q) (PFin (f x)) target nm ms ns g w = Inr j'" by blast
  have order: "f x < f b \<longleftrightarrow> x < b" "f b < f x \<longleftrightarrow> b < x" "f x = f b \<longleftrightarrow> x = b"
    using assms(4) by (simp_all add: strict_mono_less strict_mono_eq)
  have "independent_hit ?q target nm ms ns g w = independent_hit p target nm ms ns g w"
    by (cases target; cases nm) (simp_all add: independent_hit_def)
  then have novel: "jd_novel j' = jd_novel j"
    using judge_success [OF assms(9)] judge_success [OF j'] by simp
  have "better ?q (PFin (f x)) (PFin (f b)) = better p (PFin x) (PFin b)"
    by (simp add: better_def order)
  then have "improves ?q (fl_sub (PFin (f x)) (PFin (f b))) = improves p (fl_sub (PFin x) (PFin b))"
    and "within_noise ?q (fl_sub (PFin (f x)) (PFin (f b))) = within_noise p (fl_sub (PFin x) (PFin b))"
    using zero_band_improves [OF z(1), of "PFin x"] zero_band_improves [OF z(2), of "PFin (f x)"]
      assms(3,5-8) order(3) by simp_all
  with novel judge_success [OF assms(9)] judge_success [OF j'] assms(3)
  have "jd_verdict j' = jd_verdict j" by simp
  with j' show ?thesis by blast
qed

definition sample_ordinal :: prediction where
  "sample_ordinal =
     \<lparr> pd_metric_name = ''rank'', pd_direction = ''higher'', pd_baseline_value = PFin 1,
       pd_noise_band = PFin 0, pd_novel_prediction = [], pd_closes_question = [],
       pd_scale_type = ''ordinal'' \<rparr>"

theorem ordinal_verdict_ignores_scale_witness:
  "\<exists>j. judge (Some (sample_ordinal\<lparr> pd_baseline_value := PFin 3 \<rparr>)) (PFin 5) None None [] [] False [] = Inr j
     \<and> jd_verdict j = ''partial''"
proof -
  obtain j where j: "judge (Some sample_ordinal) (PFin 2) None None [] [] False [] = Inr j"
    "jd_verdict j = ''partial''"
    by (simp add: judge_def structured_novelty_def cross_metric_gate_def metric_verdict_def improves_def
        fl_sub_def sample_ordinal_def Let_def)
  have p: "post_init_prediction sample_ordinal = Inr ()"
    by (simp add: post_init_prediction_iff sample_ordinal_def)
  have f: "strict_mono (\<lambda>x::rat. 2 * x + 1)" by (simp add: strict_mono_def)
  show ?thesis
    using ordinal_verdict_ignores_scale [OF p _ _ f _ _ _ _ j(1), of 1] j(2)
    by (simp add: sample_ordinal_def)
qed

section \<open>Promotions\<close>

text \<open>C35: the synthesised promotion, a fold of gate outcomes, is the conjunction it stands for: the
  verdict may be promoted, the node stands, its reproduction is not refuted, the foundation has no
  gap, the credibility gate agrees, and one receipt exists, from the judge, a replay or a human.
  A gate that is not supplied takes no part.\<close>

theorem promotion_is_the_conjunction:
  assumes "synthesize_promotion v stands rep f c src q pr = Inr d"
  shows "\<exists>receipt. judge_receipt v src q = Inr receipt
    \<and> (pm_ok d \<longleftrightarrow> v \<in> PROMOTABLE \<and> stands \<and> rep \<noteq> Some False
        \<and> (\<forall>m. f = Some m \<longrightarrow> list_all satisfied (requirements m))
        \<and> (\<forall>k. c = Some k \<longrightarrow> gr_passed (credibility_gate k))
        \<and> (receipt \<or> rep = Some True \<or> (\<exists>k. c = Some k \<and> cr_has_human_verdict k)))"
proof -
  from synthesize_promotion_Inr [OF assms] obtain b where b: "judge_receipt v src q = Inr b" by blast
  from synthesize_promotion_ok [OF assms b] b show ?thesis by (simp add: foundation_gate_passes)
qed

theorem promotion_is_the_conjunction_witness:
  "\<exists>d. synthesize_promotion ''progressive'' True None None None (Some (Some ''scripted'')) True None = Inr d
     \<and> \<not> pm_ok d"
proof -
  have r: "judge_receipt ''progressive'' (Some (Some ''scripted'')) True = Inr False" by code_simp
  then obtain d where
    d: "synthesize_promotion ''progressive'' True None None None (Some (Some ''scripted'')) True None = Inr d"
    by (auto simp: synthesize_promotion_def Let_def)
  from promotion_is_the_conjunction [OF d] r d show ?thesis by auto
qed

text \<open>C36: a node that becomes canonical stands in the grounded extension of its arguments, its
  verdict may be promoted, no replay or reproduction refutes it under its tier, the judge is fresh, and
  it has a receipt: a verdict of a forceful source that does not lean on a self-reported quality, an
  actual reproduction, or the attestation of a human other than the author. A request that merely
  claims a human verdict is none.\<close>

theorem canonical_needs_standing_and_receipt:
  assumes "decide_canonical tag c pv = Inr d"
  shows "node_stands tag (map arg_row.truncate (ca_args c)) = Some True
    \<and> or_default (ca_verdict c) ''proof'' \<in> PROMOTABLE
    \<and> pv_reproducible pv \<noteq> Some False
    \<and> \<not> engine_freshness_fires (pv_freshness pv)
    \<and> (resolve_tier (ca_assurance_tier c) = ''anchored'' \<longrightarrow> pv_producer_replay pv \<noteq> Some False)
    \<and> (force_of (Some (or_default (ca_verdict c) ''proof'')) (Some (ca_verdict_source c)) = Inr COUNTS
          \<and> \<not> ca_qualitative_self_report c
       \<or> pv_reproducible pv = Some True
       \<or> (\<exists>a \<in> set (ca_args c). is_human_attestation_arg a
            \<and> str_strip (or_empty (ar_by a)) \<noteq> str_strip (or_empty (ca_author c))))"
proof -
  let ?v = "or_default (ca_verdict c) ''proof''"
  let ?cred = "eigentrust_credibility (pv_source_trust pv) (ca_novel_confirmed c)
    (human_attested c (pv_human_verdict_requested pv))"
  from decide_canonical_Inr [OF assms] obtain stands where
    st: "node_stands tag (map arg_row.truncate (ca_args c)) = Some stands"
    and floor: "\<not> (GATE_REPLAY_FLOOR \<in> gates_for ''set_verdict_canonical'' (resolve_tier (ca_assurance_tier c))
        \<and> pv_producer_replay pv = Some False)"
    and sp: "synthesize_promotion ?v stands (pv_reproducible pv) (pv_foundation pv) ?cred
       (Some (ca_verdict_source c)) (ca_qualitative_self_report c) (pv_producer_replay pv) = Inr d"
    and ok: "pm_ok d" and fresh: "\<not> engine_freshness_fires (pv_freshness pv)"
    by blast
  from synthesize_promotion_Inr [OF sp] obtain b where
    b: "judge_receipt ?v (Some (ca_verdict_source c)) (ca_qualitative_self_report c) = Inr b" by blast
  from synthesize_promotion_ok [OF sp b] ok
  have all: "?v \<in> PROMOTABLE" "stands" "pv_reproducible pv \<noteq> Some False"
    and receipt: "b \<or> pv_reproducible pv = Some True
      \<or> human_attested c (pv_human_verdict_requested pv)"
    by (simp_all add: eigentrust_human)
  have "b \<Longrightarrow> force_of (Some ?v) (Some (ca_verdict_source c)) = Inr COUNTS \<and> \<not> ca_qualitative_self_report c"
    using b by (auto simp: judge_receipt_def ebind_eq_Inr)
  moreover have "human_attested c (pv_human_verdict_requested pv) \<Longrightarrow> \<exists>a \<in> set (ca_args c).
      is_human_attestation_arg a \<and> str_strip (or_empty (ar_by a)) \<noteq> str_strip (or_empty (ca_author c))"
    by (auto simp: human_attested_def list_ex_iff)
  moreover have "resolve_tier (ca_assurance_tier c) = ''anchored'' \<longrightarrow> pv_producer_replay pv \<noteq> Some False"
    using floor by (auto simp: gates_for_def gates_at_def VERB_GATES_def TIER_GATES_def)
  moreover have "node_stands tag (map arg_row.truncate (ca_args c)) = Some True" using st all(2) by simp
  ultimately show ?thesis using all(1,3) receipt fresh by blast
qed

definition sample_candidate :: candidate where
  "sample_candidate =
     \<lparr> ca_verdict = Some ''progressive'', ca_verdict_source = Some ''scripted'', ca_novel_confirmed = True,
       ca_qualitative_self_report = False, ca_author = None, ca_assurance_tier = Some ''anchored'',
       ca_args = [] \<rparr>"

definition sample_promotion_view :: promotion_view where
  "sample_promotion_view =
     \<lparr> pv_source_trust = None, pv_foundation = None, pv_reproducible = None, pv_producer_replay = None,
       pv_freshness = None, pv_human_verdict_requested = False \<rparr>"

lemma sample_promoted: "\<exists>d. decide_canonical ''n1'' sample_candidate sample_promotion_view = Inr d"
proof -
  have d: "derive_node_state (candidate_row sample_candidate) = Inr CANONICAL_CANDIDATE" by code_simp
  have r: "judge_receipt ''progressive'' (Some (Some ''scripted'')) False = Inr True" by code_simp
  have v: "or_default (Some ''progressive'') ''proof'' = ''progressive''" by code_simp
  have p: "''progressive'' \<in> PROMOTABLE" by code_simp
  have s: "node_stands ''n1'' [] = Some True"
  proof -
    let ?A = "{verdict_argument ''n1''}"
    obtain E where E: "grounded_extension ?A [] = Some E" "acceptable ?A (attack_relation ?A []) E = E"
      by (rule grounded_extension_facts [of ?A "[]"]) simp_all
    then have "E = ?A" by (auto simp: acceptable_def attack_relation_def)
    with E(1) show ?thesis
      by (simp add: node_stands_def assemble_af_def verdict_stands_def assembled_attacks_def)
  qed
  obtain x where x: "synthesize_promotion ''progressive'' True None None None (Some (Some ''scripted'')) False None
      = Inr x" "pm_ok x"
    using r synthesize_promotion_ok [OF _ r, of True None None None None] p
    by (auto simp: synthesize_promotion_def Let_def)
  have t: "assert_transition_allowed CANONICAL_CANDIDATE CANONICAL = Inr ()"
    by (simp add: assert_transition_Inr)
  have fields: "ca_args sample_candidate = []" "ca_verdict sample_candidate = Some ''progressive''"
    "ca_verdict_source sample_candidate = Some ''scripted''" "\<not> ca_qualitative_self_report sample_candidate"
    by (simp_all add: sample_candidate_def)
  have h: "human_attested sample_candidate False = False" by (simp add: human_attested_def)
  show ?thesis
    using x s by (simp add: decide_canonical_def lift_row_def d t h v fields Let_def
        sample_promotion_view_def eigentrust_credibility_def engine_freshness_fires_def)
qed

theorem canonical_needs_standing_and_receipt_witness:
  "node_stands ''n1'' [] = Some True \<and> ''progressive'' \<in> PROMOTABLE"
proof -
  obtain d where d: "decide_canonical ''n1'' sample_candidate sample_promotion_view = Inr d"
    using sample_promoted by blast
  have "or_default (Some ''progressive'') ''proof'' = ''progressive''" by code_simp
  with canonical_needs_standing_and_receipt [OF d] show ?thesis by (simp add: sample_candidate_def)
qed

text \<open>A canonical node whose standing a rebuttal broke loses the title, unless a human locked it,
  and the way back is not another promotion: the same handler refuses the demoted node whatever its
  arguments and receipts say.\<close>

theorem demoted_node_is_not_repromoted:
  assumes "sd = reconcile_standing v stands valid_until_rebutted" and "sd_demoted sd"
    and "ca_verdict c = Some (sd_verdict sd)" and "ca_verdict_source c = sd_verdict_source sd"
  shows "v = ''CANONICAL'' \<and> \<not> stands \<and> valid_until_rebutted
    \<and> (\<exists>msg. decide_canonical tag c pv = Inl (RowError (IllegalNodeTransition msg)))"
proof -
  from assms(1,2) have v: "v = ''CANONICAL''" "\<not> stands" "valid_until_rebutted"
    and sd: "sd_verdict sd = ''former_canonical''" "sd_verdict_source sd = Some ''engine''"
    by (auto simp: reconcile_standing_def split: if_splits)
  have "force_of (Some ''former_canonical'') (Some (Some ''engine'')) = Inr COUNTS" by code_simp
  then have "derive_node_state (candidate_row c) = Inr FORMER_CANONICAL"
    by (simp add: derive_node_state_def force_of_row_def candidate_row_def assms(3,4) sd got_def Let_def)
  then show ?thesis
    by (simp add: v decide_canonical_def lift_row_def assert_transition_allowed_def transition_allowed_def)
qed

theorem demoted_node_is_not_repromoted_witness:
  "\<exists>msg. decide_canonical ''n1''
     (sample_candidate\<lparr> ca_verdict := Some ''former_canonical'', ca_verdict_source := Some ''engine'' \<rparr>)
     sample_promotion_view = Inl (RowError (IllegalNodeTransition msg))"
  using demoted_node_is_not_repromoted [OF refl, of "''CANONICAL''" False True
      "sample_candidate\<lparr> ca_verdict := Some ''former_canonical'', ca_verdict_source := Some ''engine'' \<rparr>"
      "''n1''" sample_promotion_view]
  by (simp add: reconcile_standing_def)

section \<open>Certification\<close>

text \<open>Certifying a foundation only takes satisfaction away. It succeeds on every well-formed map,
  keeps its requirements and their order, and the gate passes on the result exactly when every
  requirement was satisfied before and is waived or backed by certified evidence throughout.\<close>

theorem certification_only_demotes:
  assumes "fmap_ok m"
  shows "\<exists>m'. certified_foundation m evidence_ok = Inr m' \<and> fmap_ok m' \<and> map fst m' = map fst m
    \<and> (gr_passed (foundation_gate m') \<longleftrightarrow>
        list_all (\<lambda>r. satisfied r \<and> (fr_optional r \<and> fr_status r = ''waived''
                                    \<or> list_all evidence_ok (fr_evidence_refs r))) (requirements m))"
proof -
  let ?m' = "map (\<lambda>r. (fr_name r, demote_uncertified evidence_ok r)) (requirements m)"
  have keys: "map fst ?m' = map fst m" using fmap_ok_keys [OF assms] by (simp add: comp_def)
  have "distinct (map fst ?m')" unfolding keys using assms by (simp add: fmap_ok_def)
  then have "fmap_ok ?m'" by (simp add: fmap_ok_def list_all_iff)
  moreover have "requirements ?m' = map (demote_uncertified evidence_ok) (requirements m)"
    by (simp add: requirements_def)
  ultimately show ?thesis
    using keys by (intro exI [of _ ?m'])
      (simp add: certified_foundation_total [OF assms] foundation_gate_passes list_all_iff satisfied_demote)
qed

theorem certification_only_demotes_witness:
  "\<exists>m'. certified_foundation [(''a'', (needed ''a'' DATA [] [] [])\<lparr> fr_status := ''satisfied'',
        fr_evidence_refs := [''x'', ''y''] \<rparr>)] (\<lambda>ref. ref = ''x'') = Inr m'
     \<and> \<not> gr_passed (foundation_gate m')"
proof -
  let ?m = "[(''a'', (needed ''a'' DATA [] [] [])\<lparr> fr_status := ''satisfied'', fr_evidence_refs := [''x'', ''y''] \<rparr>)]"
  have "fmap_ok ?m" by (simp add: fmap_ok_def needed_def)
  from certification_only_demotes [OF this, of "\<lambda>ref. ref = ''x''"] show ?thesis
    by (auto simp: requirements_def needed_def)
qed

text \<open>A certificate is no rubber stamp. With checks made by the checked constructor, a claim is
  certified exactly when each of the six gates was submitted, once, as passed and with evidence.\<close>

theorem certificate_needs_all_gates:
  assumes "map_result (\<lambda>(g, p, e, n). mk_gate_check g p e n) submitted = Inr checks"
    and "certify_claim i checks w = Inr c"
  shows "distinct (map fst submitted)
    \<and> (ct_certified c \<longleftrightarrow> (\<forall>g. g \<in> set GATES \<longrightarrow> (\<exists>e n. (g, True, e, n) \<in> set submitted \<and> e \<noteq> [])))"
proof -
  have built: "map gc_gate checks = map fst submitted
      \<and> (\<forall>g. (\<exists>k \<in> set checks. gc_gate k = g \<and> gc_passed k)
            \<longleftrightarrow> (\<exists>e n. (g, True, e, n) \<in> set submitted \<and> e \<noteq> []))"
    using assms(1)
  proof (induction submitted arbitrary: checks)
    case Nil
    then show ?case by simp
  next
    case (Cons x xs)
    obtain g p e n where x: "x = (g, p, e, n)" by (cases x)
    from Cons.prems obtain ks where ks: "map_result (\<lambda>(g, p, e, n). mk_gate_check g p e n) xs = Inr ks"
      and k: "p \<longrightarrow> e \<noteq> []"
      "checks = \<lparr> gc_gate = g, gc_passed = p, gc_evidence_ref = e, gc_note = Note n \<rparr> # ks"
      by (auto simp: x ebind_eq_Inr mk_gate_check_Inr)
    from Cons.IH [OF ks] k show ?case by (auto simp: x)
  qed
  from certify_claim_Inr(2,3) [OF assms(2)]
  have "ct_certified c \<longleftrightarrow> (\<forall>g. g \<in> set GATES \<longrightarrow> (\<exists>k \<in> set checks. gc_gate k = g \<and> gc_passed k))"
    by (metis equals0D set_empty2 subsetI subset_empty)
  with built certify_claim_Inr(1) [OF assms(2)] show ?thesis by simp
qed

theorem certificate_needs_all_gates_witness:
  "\<exists>c. certify_claim ''t/n'' [\<lparr> gc_gate = ''stands'', gc_passed = True, gc_evidence_ref = ''af'', gc_note = Note [] \<rparr>]
        [(''as_of'', ())] = Inr c \<and> \<not> ct_certified c"
proof -
  let ?k = "\<lparr> gc_gate = ''stands'', gc_passed = True, gc_evidence_ref = ''af'', gc_note = Note [] \<rparr>"
  have m: "map_result (\<lambda>(g, p, e, n). mk_gate_check g p e n) [(''stands'', True, ''af'', [])] = Inr [?k]"
    by (simp add: mk_gate_check_def GATES_def)
  obtain c where c: "certify_claim ''t/n'' [?k] [(''as_of'', ())] = Inr c"
    by (simp add: certify_claim_def submit_check_def Let_def)
  from certificate_needs_all_gates [OF m c] have "\<not> ct_certified c" by (auto simp: GATES_def)
  with c show ?thesis by blast
qed

section \<open>Belief revision\<close>

definition sample_belief :: "string \<Rightarrow> string \<Rightarrow> string list \<Rightarrow> belief" where
  "sample_belief i kind deps =
     \<lparr> bl_id = i, bl_statement = [], bl_kind = kind, bl_credence = PFin 0, bl_problem_balance = 0,
       bl_connectivity = 0, bl_depends_on = deps \<rparr>"

text \<open>C38: contraction keeps the postulates it claims. It always returns; on success the belief is gone
  with exactly the beliefs that rest on it, directly or through others, in their order; what is left
  rests on nothing removed; an unknown identifier changes nothing. It fails exactly when a belief of
  the hard core would go and that was not allowed.\<close>

theorem contraction_is_the_closure:
  "\<exists>res. contraction base i allow = Some res
    \<and> (case res of
         Inl e \<Rightarrow> \<not> allow \<and> e = HardCoreProtected i
           \<and> (\<exists>b \<in> set base. is_hard_core b \<and> i \<in> ids base \<and> bl_id b \<in> dependents base {i})
       | Inr r \<Rightarrow>
           i \<notin> ids (rr_base r)
           \<and> rr_base r = filter (\<lambda>b. i \<in> ids base \<longrightarrow> bl_id b \<notin> dependents base {i}) base
           \<and> list_all (\<lambda>b. list_all (\<lambda>d. d \<notin> set (rr_removed r)) (bl_depends_on b)) (rr_base r)
           \<and> (i \<notin> ids base \<longrightarrow> rr_base r = base)
           \<and> (allow \<or> filter is_hard_core (rr_base r) = filter is_hard_core base))"
proof -
  let ?D = "dependents base ({i} \<inter> ids base)"
  have fin: "finite ?D" using dependents_within by (rule finite_subset) simp
  have D: "x \<in> ?D \<longleftrightarrow> i \<in> ids base \<and> x \<in> dependents base {i}" for x by (cases "i \<in> ids base") simp_all
  show ?thesis
  proof (cases "\<not> allow \<and> ?D \<inter> core_ids base \<noteq> {}")
    case True
    then obtain b where "b \<in> set base" "is_hard_core b" "bl_id b \<in> ?D" by (auto simp: core_ids_def)
    with True show ?thesis by (auto simp: contraction_closed Let_def D)
  next
    case False
    let ?r = "\<lparr> rr_base = without ?D base, rr_removed = sorted_list_of_set ?D, rr_added = [],
               rr_programme_shift_candidate = (\<exists>j \<in> ?D. core_at base j) \<rparr>"
    from False have c: "contraction base i allow = Some (Inr ?r)" by (auto simp: contraction_closed Let_def)
    have "i \<notin> ids (without ?D base)" using dependents_self [of "{i}" base] by (auto simp: D)
    moreover have "without ?D base = filter (\<lambda>b. i \<in> ids base \<longrightarrow> bl_id b \<notin> dependents base {i}) base"
      by (simp add: without_def D)
    moreover have "d \<notin> ?D" if "b \<in> set (without ?D base)" "d \<in> set (bl_depends_on b)" for b d
    proof
      assume "d \<in> ?D"
      moreover have "(d, bl_id b) \<in> supports base" using that by (auto simp: supports_def without_def)
      ultimately have "bl_id b \<in> ?D" by (rule dependents_step)
      with that(1) show False by (simp add: without_def)
    qed
    moreover have "i \<notin> ids base \<Longrightarrow> without ?D base = base" by (simp add: without_def)
    moreover have "filter is_hard_core (without ?D base) = filter is_hard_core base" if "\<not> allow"
    proof -
      have "bl_id b \<notin> ?D" if "b \<in> set base" "is_hard_core b" for b
        using False \<open>\<not> allow\<close> that by (auto simp: core_ids_def)
      then show ?thesis unfolding without_def filter_filter by (intro filter_cong) auto
    qed
    ultimately show ?thesis using c fin by (auto simp: list_all_iff)
  qed
qed

theorem contraction_is_the_closure_witness:
  "\<exists>r. contraction [sample_belief ''a'' ''protective_belt'' [], sample_belief ''h'' ''hard_core'' []] ''a'' False
        = Some (Inr r) \<and> ''a'' \<notin> ids (rr_base r)
     \<and> filter is_hard_core (rr_base r) = [sample_belief ''h'' ''hard_core'' []]"
proof -
  let ?base = "[sample_belief ''a'' ''protective_belt'' [], sample_belief ''h'' ''hard_core'' []]"
  have "supports ?base = {}" by (auto simp: supports_def sample_belief_def)
  then have "dependents ?base {''a''} = {''a''}" by (simp add: dependents_def)
  then have "\<not> (\<exists>b \<in> set ?base. is_hard_core b \<and> bl_id b \<in> dependents ?base {''a''})"
    by (simp add: is_hard_core_def sample_belief_def)
  then have not_core: "\<nexists>b. b \<in> set ?base \<and> is_hard_core b \<and> ''a'' \<in> ids ?base \<and> bl_id b \<in> dependents ?base {''a''}"
    by blast
  have kept: "filter is_hard_core ?base = [sample_belief ''h'' ''hard_core'' []]"
    by (simp add: is_hard_core_def sample_belief_def)
  from contraction_is_the_closure [of ?base "''a''" False] obtain res where
    res: "contraction ?base ''a'' False = Some res" and
    c: "case res of
         Inl e \<Rightarrow> \<not> False \<and> e = HardCoreProtected ''a''
           \<and> (\<exists>b \<in> set ?base. is_hard_core b \<and> ''a'' \<in> ids ?base \<and> bl_id b \<in> dependents ?base {''a''})
       | Inr r \<Rightarrow>
           ''a'' \<notin> ids (rr_base r)
           \<and> rr_base r = filter (\<lambda>b. ''a'' \<in> ids ?base \<longrightarrow> bl_id b \<notin> dependents ?base {''a''}) ?base
           \<and> list_all (\<lambda>b. list_all (\<lambda>d. d \<notin> set (rr_removed r)) (bl_depends_on b)) (rr_base r)
           \<and> (''a'' \<notin> ids ?base \<longrightarrow> rr_base r = ?base)
           \<and> (False \<or> filter is_hard_core (rr_base r) = filter is_hard_core ?base)" by blast
  show ?thesis
  proof (cases res)
    case (Inl e)
    with c not_core show ?thesis by (simp only: sum.case) blast
  next
    case (Inr r)
    have "''a'' \<notin> ids (rr_base r)"
      using c unfolding Inr sum.case simp_thms by (elim conjE)
    moreover have "filter is_hard_core (rr_base r) = filter is_hard_core ?base"
      using c unfolding Inr sum.case simp_thms by (elim conjE)
    ultimately show ?thesis using res Inr kept by metis
  qed
qed

text \<open>The outcome of a successful revision depends on the set of contradicted beliefs only. The
  code sorts them by entrenchment; no other order, and no repetition, gives another base, another
  list of removed beliefs or another programme shift, and each of them succeeds with the same result.\<close>

theorem revision_ignores_order:
  assumes "revision base new contradicts allow = Some (Inr r)" and "set others = set contradicts"
  shows "revision base new others allow = Some (Inr r)
    \<and> contract_all \<lparr> cn_base = base, cn_removed = [], cn_shift = False \<rparr> others allow \<noteq> None
    \<and> new \<in> set (rr_base r)
    \<and> set (rr_removed r) = dependents base (set contradicts \<inter> ids base)
    \<and> set (rr_base r) = {b \<in> set base. bl_id b \<notin> set (rr_removed r) \<and> bl_id b \<noteq> bl_id new} \<union> {new}"
proof -
  have same: "contradicted base others = contradicted base contradicts"
    by (simp add: contradicted_def assms(2))
  have r: "revision base new others allow = Some (Inr r)"
    using assms(1) unfolding revision_shape(2) same .
  from assms(1) obtain e where
    e: "expansion (without (contradicted base contradicts) base) new allow = Inr e"
    and rr: "rr_base r = rr_base e" "rr_removed r = sorted_list_of_set (contradicted base contradicts)"
    and ok: "allow \<or> contradicted base contradicts \<inter> core_ids base = {}"
    unfolding revision_shape(2) by auto
  have fin: "finite (contradicted base contradicts)"
    unfolding contradicted_def using dependents_within by (rule finite_subset) simp
  have "rr_base r = without {bl_id new} (without (contradicted base contradicts) base) @ [new]"
    using expansion_Inr [OF e] rr by simp
  moreover have "set (rr_removed r) = contradicted base contradicts" using rr fin by simp
  moreover have "contract_all \<lparr> cn_base = base, cn_removed = [], cn_shift = False \<rparr> others allow \<noteq> None"
    using contract_all_result [of allow "\<lparr> cn_base = base, cn_removed = [], cn_shift = False \<rparr>" others]
      ok same by (auto simp: contradicted_def)
  ultimately show ?thesis using r by (auto simp: without_def contradicted_def)
qed

theorem revision_ignores_order_witness:
  "\<exists>r. revision [sample_belief ''a'' ''protective_belt'' [], sample_belief ''b'' ''protective_belt'' [''a'']]
        (sample_belief ''c'' ''protective_belt'' []) [''b'', ''a''] False = Some (Inr r)
     \<and> sample_belief ''c'' ''protective_belt'' [] \<in> set (rr_base r)"
proof -
  let ?base = "[sample_belief ''a'' ''protective_belt'' [], sample_belief ''b'' ''protective_belt'' [''a'']]"
  let ?c = "sample_belief ''c'' ''protective_belt'' []"
  have core: "core_ids ?base = {}" by (simp add: core_ids_def is_hard_core_def sample_belief_def)
  have "\<exists>e. expansion (without (contradicted ?base [''a'', ''b'']) ?base) ?c False = Inr e"
    by (auto simp: expansion_def without_def sample_belief_def is_hard_core_def Let_def)
  then obtain r where r: "revision ?base ?c [''a'', ''b''] False = Some (Inr r)"
    unfolding revision_shape(2) by (auto simp: core)
  from revision_ignores_order [OF r, of "[''b'', ''a'']"] show ?thesis by auto
qed

end
