(* ===== verification/Exec_Gate.thy ===== *)
theory Exec_Gate
  imports Exec_Dispatch Journal_Store Py_Digest
begin

text \<open>
  \<^verbatim>\<open>lakatos/io/resource_execution.py\<close>: the gate between the durable journal and the effect of a
  workload. It persists a start, mints a permit from the confirmed state, reloads and revalidates it
  right before the effect, and records an unknown outcome when the effect fails. The journal, the clock,
  the effect and the authenticator are ports that the constructor is given, so they are fields of the gate.

  A method maps the state \<open>'w\<close> of the surroundings to what it returns or raises and the state it leaves;
  an effect that raises is the name of the exception's type, which is all the code uses of it. A clock
  text of another form than RFC3339 in UTC is refused wherever it is read.
\<close>

section \<open>Errors\<close>

datatype gate_reference = PermitRef dispatch_permit | IntentRef intent_reference

fun gate_intent :: "gate_reference \<Rightarrow> intent_reference" where
  "gate_intent (PermitRef p) = permit_reference p"
| "gate_intent (IntentRef r) = r"

fun gate_permit_sha256 :: "gate_reference \<Rightarrow> string option" where
  "gate_permit_sha256 (PermitRef p) = Some (permit_sha256 p)"
| "gate_permit_sha256 (IntentRef r) = None"

record outcome_unknown =
  du_message :: string
  du_effect_id :: string
  du_workload_sha256 :: string
  du_intent_sha256 :: string
  du_permit_sha256 :: "string option"
  du_usage_unknown_recorded :: bool
  du_returned_receipt :: "dispatch_receipt option"

text \<open>What the journal and the pure layer raise, and the two exceptions of the module.\<close>

datatype gate_error =
    GateJournal journal_error
  | UnauthenticatedWorkloadDispatchPermit string
  | DispatchOutcomeUnknown outcome_unknown

definition pure_result :: "lk_error + 'a \<Rightarrow> gate_error + 'a" where
  "pure_result r = (case r of Inl e \<Rightarrow> Inl (GateJournal (JournalKernel e)) | Inr a \<Rightarrow> Inr a)"

definition dispatch_outcome_unknown :: "gate_reference \<Rightarrow> string \<Rightarrow> bool \<Rightarrow> dispatch_receipt option \<Rightarrow> outcome_unknown" where
  "dispatch_outcome_unknown reference detail recorded returned =
     (let r = gate_intent reference in
      \<lparr>du_message = ''workload dispatch outcome is unknown for '' @ ir_effect_id r @ '': '' @ detail @ ''; UsageUnknown '' @
         (if recorded then ''confirmed'' else ''not confirmed'') @ ''; reconcile through the idempotent effect port'',
       du_effect_id = ir_effect_id r, du_workload_sha256 = ir_workload_sha256 r, du_intent_sha256 = ir_intent_sha256 r,
       du_permit_sha256 = gate_permit_sha256 reference, du_usage_unknown_recorded = recorded,
       du_returned_receipt = returned\<rparr>)"

section \<open>Methods\<close>

type_synonym ('w, 'a) gate_method = "'w \<Rightarrow> (gate_error + 'a) \<times> 'w"

text \<open>A call of the journal or the clock, whose exceptions pass.\<close>

type_synonym ('w, 'a) port = "'w \<Rightarrow> (journal_error + 'a) \<times> 'w"

definition call :: "('w, 'a) port \<Rightarrow> ('w, 'a) gate_method" where
  "call m w = (case m w of (Inl e, w1) \<Rightarrow> (Inl (GateJournal e), w1) | (Inr a, w1) \<Rightarrow> (Inr a, w1))"

definition give :: "gate_error + 'a \<Rightarrow> ('w, 'a) gate_method" where
  "give r w = (r, w)"

definition andthen :: "('w, 'a) gate_method \<Rightarrow> ('a \<Rightarrow> ('w, 'b) gate_method) \<Rightarrow> ('w, 'b) gate_method" where
  "andthen m f w = (case m w of (Inl e, w1) \<Rightarrow> (Inl e, w1) | (Inr a, w1) \<Rightarrow> f a w1)"

text \<open>\<^verbatim>\<open>try: \<dots> except Exception: \<dots>\<close>\<close>

definition rescue :: "('w, 'a) gate_method \<Rightarrow> ('w, 'b) gate_method \<Rightarrow> ('a \<Rightarrow> ('w, 'b) gate_method) \<Rightarrow> ('w, 'b) gate_method" where
  "rescue m failed f w = (case m w of (Inl e, w1) \<Rightarrow> failed w1 | (Inr a, w1) \<Rightarrow> f a w1)"

section \<open>Authenticated permits\<close>

definition PERMIT_AUTH_DOMAIN :: string where
  "PERMIT_AUTH_DOMAIN = ''lakatotree-workload-dispatch-permit'' @ [CHR 0x00] @ ''v1'' @ [CHR 0x0A]"

record authenticated_permit =
  ap_permit :: dispatch_permit
  ap_issuer :: string
  ap_authentication_sha256 :: string

definition issuer_ok :: "string \<Rightarrow> bool" where
  "issuer_ok s \<longleftrightarrow> s \<noteq> [] \<and> length s \<le> 256 \<and> str_isprintable s"

definition post_init_authenticated_permit :: "authenticated_permit \<Rightarrow> lk_error + unit" where
  "post_init_authenticated_permit a = run_checks
     [raise_if (\<not> issuer_ok (ap_issuer a)) (ValueError ''permit issuer must be printable and <= 256 chars''),
      raise_if (length (ap_authentication_sha256 a) \<noteq> 64 \<or>
          ap_authentication_sha256 a \<noteq> str_lower (ap_authentication_sha256 a) \<or>
          list_ex (\<lambda>c. c \<notin> set ''0123456789abcdef'') (ap_authentication_sha256 a))
        (ValueError ''permit authentication must be a lowercase SHA-256 tag'')]"

definition mk_authenticated_permit :: "authenticated_permit \<Rightarrow> lk_error + authenticated_permit" where
  "mk_authenticated_permit a = ebind (post_init_authenticated_permit a) (\<lambda>_. Inr a)"

record hmac_authenticator =
  ha_signing_key :: "byte list"
  ha_issuer :: string

definition open_authenticator :: "byte list \<Rightarrow> string \<Rightarrow> lk_error + hmac_authenticator" where
  "open_authenticator signing_key issuer =
     ebind (run_checks
       [raise_if (length signing_key < 32) (ValueError ''permit signing_key must contain at least 32 bytes''),
        raise_if (\<not> issuer_ok issuer) (ValueError ''permit issuer must be printable and <= 256 chars'')]) (\<lambda>_.
     Inr \<lparr>ha_signing_key = signing_key, ha_issuer = issuer\<rparr>)"

definition permit_payload :: "hmac_authenticator \<Rightarrow> dispatch_permit \<Rightarrow> byte list" where
  "permit_payload ha p =
     utf8_encode PERMIT_AUTH_DOMAIN @ utf8_encode (ha_issuer ha) @ [0] @ utf8_encode (permit_sha256 p)"

definition permit_tag :: "hmac_authenticator \<Rightarrow> dispatch_permit \<Rightarrow> string" where
  "permit_tag ha p = hmac_sha256_hex (ha_signing_key ha) (permit_payload ha p)"

definition seal_permit :: "hmac_authenticator \<Rightarrow> dispatch_permit \<Rightarrow> gate_error + authenticated_permit" where
  "seal_permit ha p =
     pure_result (mk_authenticated_permit
       \<lparr>ap_permit = p, ap_issuer = ha_issuer ha, ap_authentication_sha256 = permit_tag ha p\<rparr>)"

definition open_permit :: "hmac_authenticator \<Rightarrow> authenticated_permit \<Rightarrow> gate_error + dispatch_permit" where
  "open_permit ha a =
     ebind (raise_if (ap_issuer a \<noteq> ha_issuer ha \<or> ap_authentication_sha256 a \<noteq> permit_tag ha (ap_permit a))
       (UnauthenticatedWorkloadDispatchPermit ''workload-dispatch permit authentication failed'')) (\<lambda>_.
     Inr (ap_permit a))"

section \<open>The gate\<close>

datatype 'a returned = NothingReturned | UntypedValue | TypedValue 'a

text \<open>An effect port. Its two names are attributes, missing or of another type as \<open>None\<close>.\<close>

record 'w workload_effect =
  we_adapter :: "string option"
  we_adapter_version :: "string option"
  we_dispatch :: "dispatch_permit \<Rightarrow> 'w \<Rightarrow> (string + dispatch_receipt returned) \<times> 'w"
  we_lookup :: "intent_reference \<Rightarrow> 'w \<Rightarrow> (string + dispatch_receipt returned) \<times> 'w"
  we_lookup_usage :: "intent_reference \<Rightarrow> 'w \<Rightarrow> (string + resource_usage returned) \<times> 'w"

record 'w execution_gate =
  eg_scope :: string
  eg_load :: "string \<Rightarrow> ('w, journal_snapshot) port"
  eg_apply :: "string \<Rightarrow> resource_command \<Rightarrow> int option \<Rightarrow> ('w, durable_decision) port"
  eg_effect :: "'w workload_effect"
  eg_settlement_effect :: "'w workload_effect option"
  eg_now_utc :: "('w, string) port"
  eg_seal :: "dispatch_permit \<Rightarrow> gate_error + authenticated_permit"
  eg_open :: "authenticated_permit \<Rightarrow> gate_error + dispatch_permit"
  eg_permit_ttl_seconds :: int

definition authority_from_snapshot :: "journal_snapshot \<Rightarrow> lk_error + resource_authority" where
  "authority_from_snapshot sn =
     (let s = sn_state sn; c = sn_checkpoint sn in
      ebind (raise_if (cp_revision c \<noteq> p_revision s \<or> cp_state_sha256 c \<noteq> state_sha256 s \<or>
          cp_budget_id c \<noteq> p_budget_id s \<or> cp_scope c \<noteq> p_scope s \<or> cp_epoch c \<noteq> p_epoch s)
        (ValueError ''journal snapshot checkpoint/state binding diverged'')) (\<lambda>_.
      let a = \<lparr>au_budget_id = p_budget_id s, au_scope = p_scope s, au_epoch = p_epoch s, au_revision = p_revision s,
               au_state_sha256 = state_sha256 s, au_checkpoint_sha256 = checkpoint_sha256 c,
               au_journal_head_sha256 = cp_journal_head_sha256 c,
               au_anchor_status = anchor_status_value (sn_anchor_status sn),
               au_schema_version = EXECUTION_SCHEMA_VERSION\<rparr>
      in ebind (post_init_authority a) (\<lambda>_. Inr a)))"

definition effect_label :: "string \<Rightarrow> string option \<Rightarrow> lk_error + string" where
  "effect_label label v =
     (case v of
        Some s \<Rightarrow> if issuer_ok s then Inr s
          else Inl (invalid_intent (label @ '' must be a printable non-empty string <= 256 chars''))
      | None \<Rightarrow> Inl (invalid_intent (label @ '' must be a printable non-empty string <= 256 chars'')))"

definition effect_identity :: "'w workload_effect \<Rightarrow> lk_error + string \<times> string" where
  "effect_identity e =
     ebind (effect_label ''effect.adapter'' (we_adapter e)) (\<lambda>adapter.
     ebind (effect_label ''effect.adapter_version'' (we_adapter_version e)) (\<lambda>adapter_version.
     Inr (adapter, adapter_version)))"

definition nul_text :: string where
  "nul_text = [CHR 0x00]"

definition usage_unknown_command_id :: "gate_reference \<Rightarrow> string \<Rightarrow> string \<Rightarrow> string" where
  "usage_unknown_command_id reference observed_at detail =
     (let r = gate_intent reference in
      ''usage-unknown:'' @ sha256_hex (utf8_encode (ir_scope r @ nul_text @ ir_effect_id r @ nul_text @ ir_intent_sha256 r @ nul_text @
        observed_at @ nul_text @ detail)))"

definition settle_command_id :: "intent_reference \<Rightarrow> resource_usage \<Rightarrow> string" where
  "settle_command_id r u =
     ''settle:'' @ sha256_hex (utf8_encode (ir_scope r @ nul_text @ ir_effect_id r @ nul_text @ ir_intent_sha256 r @ nul_text @
       u_measurement_sha256 u @ nul_text @ u_evidence_sha256 u))"

text \<open>\<^verbatim>\<open>max(values, key=\<dots>)\<close>: the first of the latest.\<close>

fun latest_of :: "string \<Rightarrow> string list \<Rightarrow> string" where
  "latest_of v [] = v"
| "latest_of v (x # xs) = latest_of (if instant_of v < instant_of x then x else v) xs"

definition latest_utc :: "string \<Rightarrow> string list \<Rightarrow> lk_error + string" where
  "latest_utc v vs =
     ebind (map_result (\<lambda>x. exec_utc_instant x ''Invalid isoformat string'') (v # vs)) (\<lambda>_. Inr (latest_of v vs))"

definition open_gate :: "'w execution_gate \<Rightarrow> lk_error + 'w execution_gate" where
  "open_gate g =
     ebind (run_checks
       [raise_if (eg_scope g = [] \<or> \<not> str_isprintable (eg_scope g)) (ValueError ''scope must be a printable non-empty string''),
        raise_if (\<not> (1 \<le> eg_permit_ttl_seconds g \<and> eg_permit_ttl_seconds g \<le> MAX_PERMIT_TTL_SECONDS))
          (ValueError (''permit_ttl_seconds must be an integer between 1 and '' @ show_int MAX_PERMIT_TTL_SECONDS))]) (\<lambda>_.
     ebind (case eg_settlement_effect g of
         None \<Rightarrow> Inr ()
       | Some se \<Rightarrow> ebind (effect_identity se) (\<lambda>i. ebind (effect_identity (eg_effect g)) (\<lambda>j.
           raise_if (i \<noteq> j) (ValueError ''settlement effect identity must match the dispatch effect identity'')))) (\<lambda>_.
     Inr g))"

text \<open>What every method starts with: the confirmed state, and its authority.\<close>

definition load_authority :: "'w execution_gate \<Rightarrow> ('w, resource_state \<times> resource_authority) gate_method" where
  "load_authority g =
     andthen (call (eg_load g (eg_scope g))) (\<lambda>sn.
     andthen (give (pure_result (authority_from_snapshot sn))) (\<lambda>a. give (Inr (sn_state sn, a))))"

definition load_confirmed :: "'w execution_gate \<Rightarrow> ('w, resource_state) gate_method" where
  "load_confirmed g =
     andthen (load_authority g) (\<lambda>(s, a).
     andthen (give (pure_result (require_current_confirmed_authority s a))) (\<lambda>_. give (Inr s)))"

definition require_effect_identity :: "'w workload_effect \<Rightarrow> string \<times> string \<Rightarrow> string \<Rightarrow> gate_error + unit" where
  "require_effect_identity e expected message =
     pure_result (ebind (effect_identity e) (\<lambda>i. raise_if (i \<noteq> expected) (invalid_intent message)))"

definition prepare :: "'w execution_gate \<Rightarrow> grant_command \<Rightarrow> int option \<Rightarrow> ('w, authenticated_permit) gate_method" where
  "prepare g start expected_revision =
     andthen (load_confirmed g) (\<lambda>before.
     andthen (call (eg_now_utc g)) (\<lambda>observed_at.
     andthen (give (pure_result (validate_start_grant_preflight before start observed_at))) (\<lambda>expected_effect.
     andthen (give (require_effect_identity (eg_effect g) expected_effect
       ''effect adapter identity diverges from the reserved estimate'')) (\<lambda>_.
     andthen (call (eg_apply g (eg_scope g) (StartGrant start)
       (Some (case expected_revision of None \<Rightarrow> p_revision before | Some r \<Rightarrow> r)))) (\<lambda>durable.
     andthen (give (pure_result (raise_for_rejection (dd_decision durable)))) (\<lambda>_.
     andthen (load_authority g) (\<lambda>(s, authority).
     andthen (give (pure_result (mint_workload_dispatch_permit s authority (gc_command_id start) observed_at
       (eg_permit_ttl_seconds g)))) (\<lambda>permit.
     give (eg_seal g permit)))))))))"

section \<open>Unknown outcomes\<close>

definition holds_for_reconciliation :: "gate_reference \<Rightarrow> resource_state \<Rightarrow> bool" where
  "holds_for_reconciliation reference s \<longleftrightarrow>
     (let r = gate_intent reference in
      case find_grant s (ir_grant_id r) of
        Inl e \<Rightarrow> False
      | Inr grant \<Rightarrow> g_status grant = RECONCILIATION_REQUIRED \<and> g_fence_token grant = ir_fence_token r \<and>
          g_workload_sha256 grant = ir_workload_sha256 r)"

definition confirmed_reconciliation_hold :: "'w execution_gate \<Rightarrow> gate_reference \<Rightarrow> ('w, bool) gate_method" where
  "confirmed_reconciliation_hold g reference =
     rescue (load_confirmed g) (give (Inr False)) (\<lambda>s. give (Inr (holds_for_reconciliation reference s)))"

definition usage_unknown_command :: "gate_reference \<Rightarrow> string \<Rightarrow> string \<Rightarrow> resource_command" where
  "usage_unknown_command reference observed_at detail =
     (let r = gate_intent reference in
      UsageUnknown
        \<lparr>gc_command_id = usage_unknown_command_id reference observed_at detail, gc_grant_id = ir_grant_id r,
         gc_fence_token = ir_fence_token r, gc_workload_sha256 = ir_workload_sha256 r, gc_observed_at = observed_at\<rparr>
        (''workload.dispatch outcome unknown: '' @ detail @ ''; intent='' @ ir_intent_sha256 r))"

definition apply_usage_unknown :: "'w execution_gate \<Rightarrow> gate_reference \<Rightarrow> string \<Rightarrow> ('w, durable_decision) gate_method" where
  "apply_usage_unknown g reference detail =
     andthen (call (eg_now_utc g)) (\<lambda>observed_at.
     andthen (give (pure_result (mk_command (usage_unknown_command reference observed_at detail)))) (\<lambda>command.
     call (eg_apply g (eg_scope g) command None)))"

definition persist_usage_unknown :: "'w execution_gate \<Rightarrow> gate_reference \<Rightarrow> string \<Rightarrow> ('w, bool) gate_method" where
  "persist_usage_unknown g reference detail =
     andthen (confirmed_reconciliation_hold g reference) (\<lambda>held.
     if held then give (Inr True)
     else rescue (apply_usage_unknown g reference detail) (confirmed_reconciliation_hold g reference) (\<lambda>durable.
       if decision_accepted (dd_decision durable) \<and> dd_anchor_status durable = CONFIRMED then give (Inr True)
       else confirmed_reconciliation_hold g reference))"

definition raise_unknown :: "'w execution_gate \<Rightarrow> gate_reference \<Rightarrow> string \<Rightarrow> dispatch_receipt option \<Rightarrow> ('w, 'a) gate_method" where
  "raise_unknown g reference detail returned =
     andthen (persist_usage_unknown g reference detail) (\<lambda>recorded.
     give (Inl (DispatchOutcomeUnknown (dispatch_outcome_unknown reference detail recorded returned))))"

text \<open>What is done with the answer of an effect: an exception, an untyped value and a receipt of another
  intent make the outcome unknown.\<close>

definition receipt_or_unknown :: "'w execution_gate \<Rightarrow> gate_reference \<Rightarrow> dispatch_receipt \<Rightarrow> string \<Rightarrow> ('w, dispatch_receipt) gate_method" where
  "receipt_or_unknown g reference receipt detail =
     (case validate_dispatch_receipt (gate_intent reference) receipt of
        Inr rc \<Rightarrow> give (Inr rc)
      | Inl (InvalidWorkloadDispatchIntent m) \<Rightarrow> raise_unknown g reference detail (Some receipt)
      | Inl (TypeError m) \<Rightarrow> raise_unknown g reference detail (Some receipt)
      | Inl e \<Rightarrow> give (Inl (GateJournal (JournalKernel e))))"

section \<open>dispatch, reconcile, settle\<close>

definition dispatch :: "'w execution_gate \<Rightarrow> authenticated_permit \<Rightarrow> ('w, dispatch_receipt) gate_method" where
  "dispatch g authorization =
     andthen (give (eg_open g authorization)) (\<lambda>permit.
     andthen (load_authority g) (\<lambda>(s, authority).
     andthen (call (eg_now_utc g)) (\<lambda>observed_at.
     andthen (give (pure_result (revalidate_workload_dispatch_permit s authority permit observed_at))) (\<lambda>validated.
     andthen (give (require_effect_identity (eg_effect g) (pm_adapter validated, pm_adapter_version validated)
       ''effect adapter identity diverges from the dispatch intent'')) (\<lambda>_.
     (\<lambda>w. case we_dispatch (eg_effect g) validated w of
        (Inl exc, w1) \<Rightarrow> raise_unknown g (PermitRef validated) (''effect port raised '' @ exc) None w1
      | (Inr (TypedValue receipt), w1) \<Rightarrow>
          receipt_or_unknown g (PermitRef validated) receipt ''effect receipt binding diverged'' w1
      | (Inr _, w1) \<Rightarrow> raise_unknown g (PermitRef validated) ''effect port returned no typed receipt'' None w1))))))"

definition gate_recoverable_effect_ids :: "'w execution_gate \<Rightarrow> ('w, string list) gate_method" where
  "gate_recoverable_effect_ids g = andthen (load_confirmed g) (\<lambda>s. give (pure_result (recoverable_effect_ids s)))"

text \<open>The stable intent, derived again from the journal.\<close>

definition derive_reference :: "'w execution_gate \<Rightarrow> string \<Rightarrow> string \<Rightarrow> ('w, resource_state \<times> intent_reference) gate_method" where
  "derive_reference g effect_id message =
     andthen (load_confirmed g) (\<lambda>s.
     andthen (give (pure_result (derive_intent_reference s effect_id))) (\<lambda>r.
     andthen (give (pure_result (validate_intent_reference s r))) (\<lambda>_.
     andthen (give (require_effect_identity (eg_effect g) (ir_adapter r, ir_adapter_version r) message)) (\<lambda>_.
     give (Inr (s, r))))))"

definition reconcile :: "'w execution_gate \<Rightarrow> string \<Rightarrow> ('w, dispatch_receipt option) gate_method" where
  "reconcile g effect_id =
     andthen (derive_reference g effect_id ''effect adapter identity diverges from the dispatch intent'') (\<lambda>(s, r).
     (\<lambda>w. case we_lookup (eg_effect g) r w of
        (Inl exc, w1) \<Rightarrow> raise_unknown g (IntentRef r) (''effect lookup raised '' @ exc) None w1
      | (Inr NothingReturned, w1) \<Rightarrow> (Inr None, w1)
      | (Inr UntypedValue, w1) \<Rightarrow> raise_unknown g (IntentRef r) ''effect lookup returned no typed receipt'' None w1
      | (Inr (TypedValue receipt), w1) \<Rightarrow>
          andthen (receipt_or_unknown g (IntentRef r) receipt ''effect lookup receipt binding diverged'')
            (\<lambda>rc. give (Inr (Some rc))) w1))"

text \<open>Both lookups of \<^verbatim>\<open>settle\<close>, in one \<^verbatim>\<open>try\<close>.\<close>

definition settlement_lookups :: "'w workload_effect \<Rightarrow> intent_reference \<Rightarrow> 'w \<Rightarrow>
    (string + dispatch_receipt returned \<times> resource_usage returned) \<times> 'w" where
  "settlement_lookups se r w =
     (case we_lookup se r w of
        (Inl exc, w1) \<Rightarrow> (Inl exc, w1)
      | (Inr receipt, w1) \<Rightarrow>
          (case we_lookup_usage se r w1 of
             (Inl exc, w2) \<Rightarrow> (Inl exc, w2)
           | (Inr usage, w2) \<Rightarrow> (Inr (receipt, usage), w2)))"

definition settle_command :: "'w execution_gate \<Rightarrow> resource_state \<Rightarrow> intent_reference \<Rightarrow> resource_usage \<Rightarrow> ('w, resource_command) gate_method" where
  "settle_command g s r usage =
     andthen (call (eg_now_utc g)) (\<lambda>now.
     give (pure_result
       (ebind (find_grant s (ir_grant_id r)) (\<lambda>grant.
        ebind (latest_utc now [g_last_observed_at grant, u_measured_at usage]) (\<lambda>observed_at.
        mk_command (SettleGrant
          \<lparr>gc_command_id = settle_command_id r usage, gc_grant_id = ir_grant_id r, gc_fence_token = ir_fence_token r,
           gc_workload_sha256 = ir_workload_sha256 r, gc_observed_at = observed_at\<rparr> usage))))))"

definition settle_with :: "'w execution_gate \<Rightarrow> resource_state \<Rightarrow> intent_reference \<Rightarrow> dispatch_receipt \<Rightarrow> resource_usage \<Rightarrow>
    ('w, durable_decision) gate_method" where
  "settle_with g s r receipt usage =
     andthen (receipt_or_unknown g (IntentRef r) receipt ''effect settlement receipt binding diverged'') (\<lambda>_.
     if u_evidence_sha256 usage \<noteq> dr_evidence_sha256 receipt
     then raise_unknown g (IntentRef r) ''effect usage evidence diverges from the dispatch receipt'' (Some receipt)
     else
       andthen (settle_command g s r usage) (\<lambda>command.
       andthen (call (eg_apply g (eg_scope g) command (Some (p_revision s)))) (\<lambda>durable.
       andthen (give (pure_result (raise_for_rejection (dd_decision durable)))) (\<lambda>_. give (Inr durable)))))"

definition settle_measured :: "'w execution_gate \<Rightarrow> 'w workload_effect \<Rightarrow> resource_state \<Rightarrow> intent_reference \<Rightarrow>
    ('w, durable_decision) gate_method" where
  "settle_measured g se s r =
     andthen (give (require_effect_identity se (ir_adapter r, ir_adapter_version r)
       ''settlement effect identity diverges from the settlement intent'')) (\<lambda>_.
     (\<lambda>w. case settlement_lookups se r w of
        (Inl exc, w1) \<Rightarrow> raise_unknown g (IntentRef r) (''effect settlement lookup raised '' @ exc) None w1
      | (Inr (receipt, usage), w1) \<Rightarrow>
          (if receipt = NothingReturned \<or> usage = NothingReturned
           then raise_unknown g (IntentRef r) ''effect has no complete terminal receipt and usage'' None
           else case receipt of
             TypedValue rc \<Rightarrow>
               (case usage of
                  TypedValue u \<Rightarrow> settle_with g s r rc u
                | _ \<Rightarrow> raise_unknown g (IntentRef r) ''effect settlement returned no typed usage'' None)
           | _ \<Rightarrow> raise_unknown g (IntentRef r) ''effect settlement returned no typed receipt'' None) w1))"

definition settle :: "'w execution_gate \<Rightarrow> string \<Rightarrow> ('w, durable_decision) gate_method" where
  "settle g effect_id =
     andthen (derive_reference g effect_id ''effect adapter identity diverges from the settlement intent'') (\<lambda>(s, r).
     case eg_settlement_effect g of
       None \<Rightarrow> give (pure_result (Inl (invalid_intent ''no measured settlement effect was injected into this gate'')))
     | Some se \<Rightarrow> settle_measured g se s r)"

end
