(* ===== verification/Gate_Facts.thy ===== *)
theory Gate_Facts
  imports Exec_Gate Exec_Derive
begin

text \<open>
  The gate over any lawful ports. \<open>triple\<close> is a Hoare triple of a method, with a postcondition for
  what it returns and one for what it raises. The locale \<open>gate_port\<close> states what the gate relies on: the
  journal serves the states of one history and applies commands as the kernel submits them; the
  clock and the effects may take as long as they want, while other processes move the history on.
\<close>

section \<open>Triples\<close>

definition triple :: "('w \<Rightarrow> bool) \<Rightarrow> ('w, 'a) gate_method \<Rightarrow> ('a \<Rightarrow> 'w \<Rightarrow> bool) \<Rightarrow> (gate_error \<Rightarrow> 'w \<Rightarrow> bool) \<Rightarrow> bool" where
  "triple P m Q E \<longleftrightarrow> (\<forall>w r w'. P w \<longrightarrow> m w = (r, w') \<longrightarrow> (case r of Inl e \<Rightarrow> E e w' | Inr a \<Rightarrow> Q a w'))"

lemma tripleI:
  assumes "\<And>w a w'. P w \<Longrightarrow> m w = (Inr a, w') \<Longrightarrow> Q a w'" and "\<And>w e w'. P w \<Longrightarrow> m w = (Inl e, w') \<Longrightarrow> E e w'"
  shows "triple P m Q E"
  unfolding triple_def
proof (intro allI impI)
  fix w r w' assume "P w" "m w = (r, w')"
  with assms show "case r of Inl e \<Rightarrow> E e w' | Inr a \<Rightarrow> Q a w'" by (cases r) auto
qed

lemma tripleD: "triple P m Q E \<Longrightarrow> P w \<Longrightarrow> m w = (Inr a, w') \<Longrightarrow> Q a w'"
  and triple_raised: "triple P m Q E \<Longrightarrow> P w \<Longrightarrow> m w = (Inl e, w') \<Longrightarrow> E e w'"
  by (force simp: triple_def)+

lemma triple_conseq:
  "triple P m Q E \<Longrightarrow> (\<And>w. P' w \<Longrightarrow> P w) \<Longrightarrow> (\<And>a w. Q a w \<Longrightarrow> Q' a w) \<Longrightarrow> (\<And>e w. E e w \<Longrightarrow> E' e w) \<Longrightarrow> triple P' m Q' E'"
  by (rule tripleI) (blast dest: tripleD triple_raised)+

lemma triple_give:
  "(\<And>a w. r = Inr a \<Longrightarrow> P w \<Longrightarrow> Q a w) \<Longrightarrow> (\<And>e w. r = Inl e \<Longrightarrow> P w \<Longrightarrow> E e w) \<Longrightarrow> triple P (give r) Q E"
  by (rule tripleI) (simp_all add: give_def)

lemma triple_andthen:
  assumes "triple P m R E" and "\<And>a. triple (R a) (f a) Q E"
  shows "triple P (andthen m f) Q E"
  unfolding triple_def
proof (intro allI impI)
  fix w r w' assume P: "P w" and run: "andthen m f w = (r, w')"
  obtain r1 w1 where m: "m w = (r1, w1)" by force
  show "case r of Inl e \<Rightarrow> E e w' | Inr a \<Rightarrow> Q a w'"
  proof (cases r1)
    case (Inl e)
    with run m triple_raised [OF assms(1) P] show ?thesis by (auto simp: andthen_def)
  next
    case (Inr a)
    with run m have "f a w1 = (r, w')" by (simp add: andthen_def)
    with tripleD [OF assms(1) P] m Inr assms(2) [of a] show ?thesis by (auto simp: triple_def)
  qed
qed

lemma triple_pure:
  "(\<And>a. r = Inr a \<Longrightarrow> triple P (f a) Q E) \<Longrightarrow> (\<And>e w. r = Inl e \<Longrightarrow> P w \<Longrightarrow> E e w) \<Longrightarrow> triple P (andthen (give r) f) Q E"
  by (cases r) (simp_all add: triple_def andthen_def give_def)

lemma triple_call:
  assumes "\<And>w r w'. P w \<Longrightarrow> m w = (r, w') \<Longrightarrow> (case r of Inl e \<Rightarrow> E (GateJournal e) w' | Inr a \<Rightarrow> Q a w')"
  shows "triple P (call m) Q E"
  unfolding triple_def call_def using assms by (fastforce split: prod.splits sum.splits)

lemma triple_rescue:
  assumes "triple P m R F" and "\<And>a. triple (R a) (f a) Q E" and "triple (\<lambda>w. \<exists>e. F e w) h Q E"
  shows "triple P (rescue m h f) Q E"
  unfolding triple_def
proof (intro allI impI)
  fix w r w' assume P: "P w" and run: "rescue m h f w = (r, w')"
  obtain r1 w1 where m: "m w = (r1, w1)" by force
  show "case r of Inl e \<Rightarrow> E e w' | Inr a \<Rightarrow> Q a w'"
  proof (cases r1)
    case (Inl e)
    with run m have "h w1 = (r, w')" by (simp add: rescue_def)
    with triple_raised [OF assms(1) P] m Inl assms(3) show ?thesis unfolding triple_def by blast
  next
    case (Inr a)
    with run m have "f a w1 = (r, w')" by (simp add: rescue_def)
    with tripleD [OF assms(1) P] m Inr assms(2) [of a] show ?thesis unfolding triple_def by blast
  qed
qed

lemma triple_effect:
  assumes "\<And>w r w'. P w \<Longrightarrow> m w = (r, w') \<Longrightarrow> R r w'" and "\<And>r. triple (R r) (f r) Q E"
  shows "triple P (\<lambda>w. case m w of (r, w1) \<Rightarrow> f r w1) Q E"
  unfolding triple_def
proof (intro allI impI)
  fix w r w' assume P: "P w" and run: "(case m w of (r, w1) \<Rightarrow> f r w1) = (r, w')"
  obtain r1 w1 where m: "m w = (r1, w1)" by force
  with run have "f r1 w1 = (r, w')" by simp
  with assms(1) [OF P m] assms(2) [of r1] show "case r of Inl e \<Rightarrow> E e w' | Inr a \<Rightarrow> Q a w'"
    unfolding triple_def by blast
qed

lemma effect_cases:
  assumes "\<And>d. triple P (u d) Q E" and "\<And>rc d. triple P (v rc d) Q E"
  shows "triple P (\<lambda>w1. case r of Inl exc \<Rightarrow> u (a @ exc) w1 | Inr (TypedValue rc) \<Rightarrow> v rc b w1 | Inr _ \<Rightarrow> u c w1) Q E"
proof (cases r)
  case (Inr x)
  with assms show ?thesis by (cases x) simp_all
qed (simp add: assms)

lemma lookup_cases:
  assumes "\<And>d. triple P (u d) Q E" and "\<And>rc d. triple P (v rc d) Q E" and "triple P (\<lambda>w1. (n, w1)) Q E"
  shows "triple P (\<lambda>w1. case r of Inl exc \<Rightarrow> u (a @ exc) w1 | Inr NothingReturned \<Rightarrow> (n, w1)
    | Inr UntypedValue \<Rightarrow> u c w1 | Inr (TypedValue rc) \<Rightarrow> v rc b w1) Q E"
proof (cases r)
  case (Inr x)
  with assms show ?thesis by (cases x) simp_all
qed (simp add: assms)

lemma triple_pre: "(\<And>w. P w \<Longrightarrow> triple (\<lambda>v. v = w) m Q E) \<Longrightarrow> triple P m Q E"
  unfolding triple_def by blast

lemma triple_assume: "(A \<Longrightarrow> triple P m Q E) \<Longrightarrow> triple (\<lambda>w. A \<and> P w) m Q E"
  unfolding triple_def by blast

text \<open>What a method keeps, whatever it returns or raises.\<close>

definition kept :: "('w \<Rightarrow> bool) \<Rightarrow> ('w, 'a) gate_method \<Rightarrow> bool" where
  "kept J m \<longleftrightarrow> triple J m (\<lambda>_. J) (\<lambda>_. J)"

lemma keptI: "(\<And>w r w'. J w \<Longrightarrow> m w = (r, w') \<Longrightarrow> J w') \<Longrightarrow> kept J m"
  unfolding kept_def by (rule tripleI) blast+

lemma keptD: "kept J m \<Longrightarrow> J w \<Longrightarrow> m w = (r, w') \<Longrightarrow> J w'"
  unfolding kept_def by (cases r) (auto dest: tripleD triple_raised)

lemma kept_give: "kept J (give r)"
  unfolding kept_def by (rule triple_give) simp_all

lemma kept_andthen: "kept J m \<Longrightarrow> (\<And>a. kept J (f a)) \<Longrightarrow> kept J (andthen m f)"
  unfolding kept_def by (rule triple_andthen) simp_all

lemma kept_rescue: "kept J m \<Longrightarrow> (\<And>a. kept J (f a)) \<Longrightarrow> kept J h \<Longrightarrow> kept J (rescue m h f)"
  unfolding kept_def by (rule triple_rescue [where F = "\<lambda>_. J"]) auto

lemma kept_if: "kept J m \<Longrightarrow> kept J n \<Longrightarrow> kept J (if b then m else n)"
  by simp

lemma kept_prod: "(\<And>a b. kept J (f a b)) \<Longrightarrow> kept J (case x of (a, b) \<Rightarrow> f a b)"
  by (cases x) simp

lemma kept_call: "(\<And>w r w'. J w \<Longrightarrow> m w = (r, w') \<Longrightarrow> J w') \<Longrightarrow> kept J (call m)"
  unfolding kept_def by (rule triple_call) (simp split: sum.splits)

lemma call_Inr: "call m w = (Inr a, w') \<longleftrightarrow> m w = (Inr a, w')"
  and call_Inl: "call m w = (Inl e, w') \<longleftrightarrow> (\<exists>x. m w = (Inl x, w') \<and> e = GateJournal x)"
  by (auto simp: call_def split: prod.splits sum.splits)

lemmas kept_intros = kept_give kept_andthen kept_rescue kept_if kept_prod

section \<open>Facts of the pure layer\<close>

lemma pure_result_Inr: "pure_result r = Inr a \<longleftrightarrow> r = Inr a"
  by (cases r) (simp_all add: pure_result_def)

lemma pure_result_Inl: "pure_result r = Inl e \<longleftrightarrow> (\<exists>x. r = Inl x \<and> e = GateJournal (JournalKernel x))"
  by (cases r) (auto simp: pure_result_def)

lemma issuer_ok_identifier: "issuer_ok s \<longleftrightarrow> identifier_ok s"
  by (auto simp: issuer_ok_def identifier_ok_def)

lemma authority_from_snapshot_Inr:
  assumes "authority_from_snapshot sn = Inr a"
  shows "post_init_authority a = Inr ()" and "au_anchor_status a = anchor_status_value (sn_anchor_status sn)"
    and "au_revision a = p_revision (sn_state sn)" and "au_state_sha256 a = state_sha256 (sn_state sn)"
  using assms by (auto simp: authority_from_snapshot_def Let_def result_simps)

lemma mk_command_Inr: "mk_command c = Inr c' \<longleftrightarrow> c' = c \<and> command_ok c"
  unfolding mk_command_def ebind_eq_Inr post_init_command_Inr by auto

text \<open>A submitted command is on record, with its decision.\<close>

lemma submitted_recorded:
  assumes s: "state_ok s" and c: "command_ok c" and d: "decide s c = Inr d" and s': "submit s c = Inr s'"
  shows "\<exists>rec\<in>set (s_command_records s'). cr_command_id rec = command_id c \<and> cr_command_sha256 rec = command_hash c \<and>
    cr_receipt rec = decision_receipt d \<and> (\<not> d_replayed d \<longrightarrow> t_command (cr_transition rec) = c)"
proof (cases "find (\<lambda>rec. cr_command_id rec = command_id c) (s_command_records s)")
  case None
  then have new: "command_id c \<notin> cr_command_id ` set (s_command_records s)" by (simp add: find_fresh)
  obtain a q where "decide s c = Inr (fresh_decision (step_transition s c a q))"
    "submit s c = Inr (extend_state s q (step_transition s c a q))"
    by (rule decide_fresh_command [OF s c new])
  then show ?thesis using d s' by (auto simp: extend_state_def)
next
  case (Some rec)
  note r = submit_replayed [OF Some]
  have eq: "cr_command_sha256 rec = command_hash c" "s' = s" "d = \<lparr>d_transitions = [], d_replayed = True, d_replay_receipt = Some (cr_receipt rec)\<rparr>"
    using r d s' by (auto split: if_splits)
  from find_SomeD [OF Some] have "rec \<in> set (s_command_records s)" "cr_command_id rec = command_id c" by auto
  with eq show ?thesis by (auto simp: decision_receipt_def)
qed

text \<open>A new and accepted command took an accepting branch.\<close>

lemma fresh_accepted:
  assumes s: "state_ok s" and c: "command_ok c" and d: "decide s c = Inr d" and s': "submit s c = Inr s'"
    and new: "\<not> d_replayed d" and acc: "decision_accepted d"
  obtains a q where "accepts s c a" "steps_to s c a q" "s' = extend_state s q (step_transition s c a q)"
    "d = fresh_decision (step_transition s c a q)"
proof -
  have "find (\<lambda>rec. cr_command_id rec = command_id c) (s_command_records s) = None"
    using new d submit_replayed(1) [of c s] by (cases "find (\<lambda>rec. cr_command_id rec = command_id c) (s_command_records s)") (auto split: if_splits)
  then have n: "command_id c \<notin> cr_command_id ` set (s_command_records s)" by (simp add: find_fresh)
  obtain a q where a: "chosen s c a" "steps_to s c a q" "decide s c = Inr (fresh_decision (step_transition s c a q))"
    "submit s c = Inr (extend_state s q (step_transition s c a q))"
    by (rule decide_fresh_command [OF s c n])
  have "a_outcome a \<noteq> ''rejected''" using acc d a(3) by (auto simp: decision_accepted_def)
  from that [OF chosen_outcome [OF a(1) this] a(2)] a(3,4) d s' show thesis by auto
qed

lemma later_trans: "later t u \<Longrightarrow> later s t \<Longrightarrow> later s u"
  by (induction rule: later.induct) (auto intro: later.there)

lemma later_submit: "command_ok c \<Longrightarrow> submit s c = Inr t \<Longrightarrow> later s t"
  by (rule later.there [OF later.here])

text \<open>A new and accepted settlement charges its usage.\<close>

lemma settlement_charges:
  assumes s: "state_ok s" and c: "command_ok (SettleGrant c u)" and d: "decide s (SettleGrant c u) = Inr d"
    and s': "submit s (SettleGrant c u) = Inr s'" and new: "\<not> d_replayed d" and acc: "decision_accepted d"
  shows "p_spent s' = p_spent s + u_actual u"
proof -
  obtain a q where a: "accepts s (SettleGrant c u) a" "steps_to s (SettleGrant c u) a q"
    "s' = extend_state s q (step_transition s (SettleGrant c u) a q)"
    by (rule fresh_accepted [OF s c d s' new acc])
  then have "p_spent s' = p_spent s + a_spent_delta a" by (auto simp: steps_to_def extend_state_def)
  with a(1) show ?thesis by (elim accepts_settle) (simp_all add: args_defs)
qed

lemma raise_for_rejection_Inr: "raise_for_rejection d = Inr u \<longleftrightarrow> decision_accepted d"
  by (simp add: raise_for_rejection_def decision_rejection_def rejection_from_receipt_def decision_accepted_def)

section \<open>What the journal shows afterwards\<close>

text \<open>What a recorded unknown outcome means: the grant waits for reconciliation, or an accepted command that says so is on
  record.\<close>

definition unknown_recorded :: "gate_reference \<Rightarrow> string \<Rightarrow> resource_state \<Rightarrow> bool" where
  "unknown_recorded ref detail t \<longleftrightarrow>
     holds_for_reconciliation ref t \<or>
     (\<exists>rec\<in>set (s_command_records t). \<exists>at. cr_command_id rec = command_id (usage_unknown_command ref at detail) \<and>
        cr_command_sha256 rec = command_hash (usage_unknown_command ref at detail) \<and>
        r_outcome (cr_receipt rec) \<noteq> ''rejected'')"

text \<open>What a settlement that returns has done.\<close>

definition settled :: "resource_state \<Rightarrow> string \<Rightarrow> durable_decision \<Rightarrow> resource_state \<Rightarrow> bool" where
  "settled s eid d now \<longleftrightarrow>
     (\<exists>t r rc u c. later s t \<and> derive_intent_reference t eid = Inr r \<and> validate_dispatch_receipt r rc = Inr rc \<and>
        u_evidence_sha256 u = dr_evidence_sha256 rc \<and> gc_command_id c = settle_command_id r u \<and>
        gc_grant_id c = ir_grant_id r \<and> gc_fence_token c = ir_fence_token r \<and> gc_workload_sha256 c = ir_workload_sha256 r \<and>
        decision_accepted (dd_decision d) \<and>
        (\<exists>rec\<in>set (s_command_records now). cr_command_id rec = gc_command_id c \<and>
           cr_command_sha256 rec = command_hash (SettleGrant c u) \<and> cr_receipt rec = decision_receipt (dd_decision d)) \<and>
        (d_replayed (dd_decision d) \<or>
          (\<exists>v. later t v \<and> submit v (SettleGrant c u) = Inr now \<and> p_spent now = p_spent v + u_actual u)))"

section \<open>Lawful ports\<close>

locale gate_port =
  fixes g :: "'w execution_gate" and lawful :: "'w \<Rightarrow> bool" and state_of :: "'w \<Rightarrow> resource_state"
  assumes lawful_reachable: "lawful w \<Longrightarrow> reachable (state_of w)"
    and load_law: "lawful w \<Longrightarrow> eg_load g (eg_scope g) w = (r0, w') \<Longrightarrow>
      lawful w' \<and> state_of w' = state_of w \<and> (\<forall>sn. r0 = Inr sn \<longrightarrow> sn_state sn = state_of w)"
    and apply_law: "lawful w \<Longrightarrow> command_ok c \<Longrightarrow> eg_apply g (eg_scope g) c er w = (r, w') \<Longrightarrow>
      lawful w' \<and> (state_of w' = state_of w \<or> submit (state_of w) c = Inr (state_of w')) \<and>
      (\<forall>d. r = Inr d \<longrightarrow> submit (state_of w) c = Inr (state_of w') \<and> decide (state_of w) c = Inr (dd_decision d))"
    and clock_law: "lawful w \<Longrightarrow> eg_now_utc g w = (r1, w') \<Longrightarrow> lawful w' \<and> later (state_of w) (state_of w')"
    and dispatch_law: "lawful w \<Longrightarrow> we_dispatch (eg_effect g) p w = (r2, w') \<Longrightarrow> lawful w' \<and> later (state_of w) (state_of w')"
    and lookup_law: "lawful w \<Longrightarrow> e = eg_effect g \<or> eg_settlement_effect g = Some e \<Longrightarrow> we_lookup e i w = (r2, w') \<Longrightarrow>
      lawful w' \<and> later (state_of w) (state_of w')"
    and open_law: "eg_open g a \<noteq> Inl (DispatchOutcomeUnknown u)" and seal_law: "eg_seal g q \<noteq> Inl (DispatchOutcomeUnknown u)"
    and usage_law: "lawful w \<Longrightarrow> eg_settlement_effect g = Some e \<Longrightarrow> we_lookup_usage e i w = (r3, w') \<Longrightarrow>
      lawful w' \<and> later (state_of w) (state_of w')"
begin

text \<open>A lawful state of the surroundings, no earlier than \<open>s\<close>.\<close>

definition after :: "resource_state \<Rightarrow> 'w \<Rightarrow> bool" where
  "after s w \<longleftrightarrow> lawful w \<and> later s (state_of w)"

lemma after_lawful: "lawful w \<Longrightarrow> after (state_of w) w"
  by (simp add: after_def later.here)

lemma after_move: "after s w \<Longrightarrow> lawful w' \<Longrightarrow> later (state_of w) (state_of w') \<Longrightarrow> after s w'"
  by (auto simp: after_def intro: later_trans)

lemma load_after: "kept (after s) (call (eg_load g (eg_scope g)))"
  by (rule kept_call) (use load_law in \<open>force simp: after_def\<close>)

lemma clock_moves: "after s w \<Longrightarrow> eg_now_utc g w = (r, w') \<Longrightarrow> after s w'"
  using clock_law after_move by (auto simp: after_def)

lemma clock_after: "kept (after s) (call (eg_now_utc g))"
  by (rule kept_call) (rule clock_moves)

lemma apply_after: "command_ok c \<Longrightarrow> kept (after s) (call (eg_apply g (eg_scope g) c er))"
proof (rule kept_call)
  fix w r w' assume c: "command_ok c" and w: "after s w" "eg_apply g (eg_scope g) c er w = (r, w')"
  then have "lawful w" by (simp add: after_def)
  from apply_law [OF this c w(2)] w(1) c show "after s w'"
    by (auto simp: after_def intro: later.there)
qed

text \<open>The state a method starts from: loaded, with its authority, and current.\<close>

lemma load_authority_triple:
  "triple (after s) (load_authority g)
    (\<lambda>(t, a) w. after s w \<and> t = state_of w \<and> post_init_authority a = Inr () \<and> au_revision a = p_revision t \<and>
       au_state_sha256 a = state_sha256 t)
    (\<lambda>_. after s)"
  unfolding load_authority_def
proof (rule triple_andthen)
  show "triple (after s) (call (eg_load g (eg_scope g))) (\<lambda>sn w. after s w \<and> sn_state sn = state_of w) (\<lambda>_. after s)"
    by (rule triple_call) (use load_law in \<open>force simp: after_def split: sum.split\<close>)
  show "triple (\<lambda>w. after s w \<and> sn_state sn = state_of w)
      (andthen (give (pure_result (authority_from_snapshot sn))) (\<lambda>a. give (Inr (sn_state sn, a))))
      (\<lambda>(t, a) w. after s w \<and> t = state_of w \<and> post_init_authority a = Inr () \<and> au_revision a = p_revision t \<and>
         au_state_sha256 a = state_sha256 t) (\<lambda>_. after s)" for sn
    by (rule triple_pure, rule triple_give) (auto simp: pure_result_Inr dest: authority_from_snapshot_Inr)
qed

lemma load_confirmed_triple:
  "triple (after s) (load_confirmed g) (\<lambda>t w. after s w \<and> t = state_of w) (\<lambda>_. after s)"
  unfolding load_confirmed_def
  by (rule triple_andthen [OF load_authority_triple]) (auto intro!: triple_pure triple_give split: prod.splits)

lemma load_after':
  "kept (after s) (load_authority g)" "kept (after s) (load_confirmed g)"
  unfolding kept_def
  by (rule triple_conseq [OF load_authority_triple]; auto)
    (rule triple_conseq [OF load_confirmed_triple]; auto)

section \<open>Unknown outcomes\<close>

lemma hold_triple:
  "triple (after s) (confirmed_reconciliation_hold g ref)
    (\<lambda>held w. after s w \<and> (held \<longrightarrow> holds_for_reconciliation ref (state_of w))) (\<lambda>_ _. False)"
  unfolding confirmed_reconciliation_hold_def
  by (rule triple_rescue [OF load_confirmed_triple]) (auto intro!: triple_give)

lemma apply_unknown_triple:
  "triple (after s) (apply_usage_unknown g ref detail)
    (\<lambda>d w. after s w \<and> (decision_accepted (dd_decision d) \<longrightarrow> unknown_recorded ref detail (state_of w))) (\<lambda>_. after s)"
  unfolding apply_usage_unknown_def
proof (rule triple_andthen)
  show "triple (after s) (call (eg_now_utc g)) (\<lambda>_. after s) (\<lambda>_. after s)" using clock_after by (simp add: kept_def)
  show "triple (after s)
      (andthen (give (pure_result (mk_command (usage_unknown_command ref at detail)))) (\<lambda>c. call (eg_apply g (eg_scope g) c None)))
      (\<lambda>d w. after s w \<and> (decision_accepted (dd_decision d) \<longrightarrow> unknown_recorded ref detail (state_of w))) (\<lambda>_. after s)" for at
  proof (rule triple_pure)
    fix c assume "pure_result (mk_command (usage_unknown_command ref at detail)) = Inr c"
    then have c: "c = usage_unknown_command ref at detail" "command_ok c"
      by (auto simp: pure_result_Inr mk_command_Inr)
    show "triple (after s) (call (eg_apply g (eg_scope g) c None))
      (\<lambda>d w. after s w \<and> (decision_accepted (dd_decision d) \<longrightarrow> unknown_recorded ref detail (state_of w))) (\<lambda>_. after s)"
    proof (rule tripleI)
      fix w d w' assume w: "after s w" and called: "call (eg_apply g (eg_scope g) c None) w = (Inr d, w')"
      then have run: "eg_apply g (eg_scope g) c None w = (Inr d, w')" by (simp add: call_Inr)
      have "lawful w" using w by (simp add: after_def)
      note ok = reachable_ok [OF lawful_reachable [OF this]]
      have "submit (state_of w) c = Inr (state_of w')" "decide (state_of w) c = Inr (dd_decision d)"
        using apply_law [OF \<open>lawful w\<close> c(2) run] by auto
      from submitted_recorded [OF ok c(2) this(2,1)] obtain rec where
        "rec \<in> set (s_command_records (state_of w'))" "cr_command_id rec = command_id c" "cr_command_sha256 rec = command_hash c"
        "cr_receipt rec = decision_receipt (dd_decision d)" by blast
      then have "decision_accepted (dd_decision d) \<longrightarrow> unknown_recorded ref detail (state_of w')"
        unfolding unknown_recorded_def decision_accepted_def c(1) by metis
      with keptD [OF apply_after [OF c(2)] w called] show "after s w' \<and> (decision_accepted (dd_decision d) \<longrightarrow> unknown_recorded ref detail (state_of w'))"
        by blast
    qed (use keptD [OF apply_after [OF c(2)]] in blast)
  qed simp
qed

lemma persist_triple:
  "triple (after s) (persist_usage_unknown g ref detail)
    (\<lambda>b w. after s w \<and> (b \<longrightarrow> unknown_recorded ref detail (state_of w))) (\<lambda>_ _. False)"
proof -
  have hold: "triple (after s) (confirmed_reconciliation_hold g ref)
      (\<lambda>b w. after s w \<and> (b \<longrightarrow> unknown_recorded ref detail (state_of w))) (\<lambda>_ _. False)"
    by (rule triple_conseq [OF hold_triple]) (auto simp: unknown_recorded_def)
  show ?thesis
    unfolding persist_usage_unknown_def
  proof (rule triple_andthen [OF hold])
    fix held
    show "triple (\<lambda>w. after s w \<and> (held \<longrightarrow> unknown_recorded ref detail (state_of w)))
      (if held then give (Inr True)
       else rescue (apply_usage_unknown g ref detail) (confirmed_reconciliation_hold g ref) (\<lambda>durable.
         if decision_accepted (dd_decision durable) \<and> dd_anchor_status durable = CONFIRMED then give (Inr True)
         else confirmed_reconciliation_hold g ref))
      (\<lambda>b w. after s w \<and> (b \<longrightarrow> unknown_recorded ref detail (state_of w))) (\<lambda>_ _. False)"
    proof (cases held)
      case False
      have "triple (after s) (rescue (apply_usage_unknown g ref detail) (confirmed_reconciliation_hold g ref) (\<lambda>durable.
         if decision_accepted (dd_decision durable) \<and> dd_anchor_status durable = CONFIRMED then give (Inr True)
         else confirmed_reconciliation_hold g ref))
       (\<lambda>b w. after s w \<and> (b \<longrightarrow> unknown_recorded ref detail (state_of w))) (\<lambda>_ _. False)"
        by (rule triple_rescue [OF apply_unknown_triple])
          (auto intro!: triple_give triple_conseq [OF hold])
      with False show ?thesis by simp
    qed (auto intro!: triple_give)
  qed
qed

lemma raise_unknown_triple:
  "triple (after s) (raise_unknown g ref detail returned) Q
    (\<lambda>e w. after s w \<and> (\<exists>b. e = DispatchOutcomeUnknown (dispatch_outcome_unknown ref detail b returned) \<and>
       (b \<longrightarrow> unknown_recorded ref detail (state_of w))))" (is "triple _ _ _ ?E")
  unfolding raise_unknown_def
proof (rule triple_andthen)
  show "triple (after s) (persist_usage_unknown g ref detail)
      (\<lambda>b w. after s w \<and> (b \<longrightarrow> unknown_recorded ref detail (state_of w))) ?E"
    by (rule triple_conseq [OF persist_triple]) auto
  show "triple (\<lambda>w. after s w \<and> (b \<longrightarrow> unknown_recorded ref detail (state_of w)))
      (give (Inl (DispatchOutcomeUnknown (dispatch_outcome_unknown ref detail b returned)))) Q ?E" for b
    by (rule triple_give) auto
qed

section \<open>The methods tell the truth\<close>

text \<open>An exception that claims a recorded unknown outcome is true of the state it leaves.\<close>

definition truthful :: "resource_state \<Rightarrow> gate_error \<Rightarrow> 'w \<Rightarrow> bool" where
  "truthful s e w \<longleftrightarrow> after s w \<and>
     (\<forall>u. e = DispatchOutcomeUnknown u \<longrightarrow> (\<exists>ref detail b ret. u = dispatch_outcome_unknown ref detail b ret \<and>
        (b \<longrightarrow> unknown_recorded ref detail (state_of w))))"

lemma truthful_plain [simp]: "truthful s (GateJournal e) w \<longleftrightarrow> after s w"
  by (simp add: truthful_def)

lemma pure_truthful:
  "(\<And>a. r = Inr a \<Longrightarrow> triple P (f a) Q (truthful s)) \<Longrightarrow> (\<And>w. P w \<Longrightarrow> after s w) \<Longrightarrow>
    triple P (andthen (give (pure_result r)) f) Q (truthful s)"
  by (rule triple_pure) (auto simp: pure_result_Inr pure_result_Inl)

lemma identity_truthful:
  "triple P m Q (truthful s) \<Longrightarrow> (\<And>w. P w \<Longrightarrow> after s w) \<Longrightarrow>
    triple P (andthen (give (require_effect_identity e i msg)) (\<lambda>_. m)) Q (truthful s)"
  unfolding require_effect_identity_def by (rule pure_truthful)

lemma load_authority_truthful:
  "triple (after s) (load_authority g)
    (\<lambda>(t, a) w. after s w \<and> t = state_of w \<and> post_init_authority a = Inr () \<and> au_revision a = p_revision t \<and>
       au_state_sha256 a = state_sha256 t)
    (truthful s)"
  unfolding load_authority_def
proof (rule triple_andthen)
  show "triple (after s) (call (eg_load g (eg_scope g))) (\<lambda>sn w. after s w \<and> sn_state sn = state_of w) (truthful s)"
    by (rule triple_call) (use load_law in \<open>force simp: after_def split: sum.split\<close>)
  show "triple (\<lambda>w. after s w \<and> sn_state sn = state_of w)
      (andthen (give (pure_result (authority_from_snapshot sn))) (\<lambda>a. give (Inr (sn_state sn, a))))
      (\<lambda>(t, a) w. after s w \<and> t = state_of w \<and> post_init_authority a = Inr () \<and> au_revision a = p_revision t \<and>
         au_state_sha256 a = state_sha256 t) (truthful s)" for sn
    by (rule pure_truthful, rule triple_give) (auto dest: authority_from_snapshot_Inr)
qed

lemma load_confirmed_truthful:
  "triple (after s) (load_confirmed g) (\<lambda>t w. after s w \<and> t = state_of w) (truthful s)"
  unfolding load_confirmed_def
  by (rule triple_andthen [OF load_authority_truthful]) (auto intro!: pure_truthful triple_give split: prod.splits)

lemma clock_truthful: "triple (after s) (call (eg_now_utc g)) (\<lambda>_. after s) (truthful s)"
  by (rule triple_call) (auto dest: clock_moves split: sum.split)

lemma raise_truthful: "(\<And>w. P w \<Longrightarrow> after s w) \<Longrightarrow> triple P (raise_unknown g ref detail returned) Q (truthful s)"
  by (rule triple_conseq [OF raise_unknown_triple]) (auto simp: truthful_def)

lemma receipt_truthful:
  "(\<And>w. P w \<Longrightarrow> after s w) \<Longrightarrow> triple P (receipt_or_unknown g ref rc detail)
    (\<lambda>rc' w. P w \<and> rc' = rc \<and> validate_dispatch_receipt (gate_intent ref) rc = Inr rc) (truthful s)"
  unfolding receipt_or_unknown_def
  by (auto simp: validate_dispatch_receipt_def result_simps intro!: triple_give raise_truthful split: sum.split lk_error.split)

lemma derive_truthful:
  "triple (after s) (derive_reference g eid msg)
    (\<lambda>(t, r) w. after s w \<and> t = state_of w \<and> derive_intent_reference t eid = Inr r \<and>
       effect_identity (eg_effect g) = Inr (ir_adapter r, ir_adapter_version r)) (truthful s)"
  unfolding derive_reference_def
  by (rule triple_andthen [OF load_confirmed_truthful])
    (auto intro!: pure_truthful triple_give simp: require_effect_identity_def result_simps check_simps)

lemma dispatch_moves: "after s w \<Longrightarrow> we_dispatch (eg_effect g) p w = (r, w') \<Longrightarrow> after s w'"
  using dispatch_law after_move by (auto simp: after_def)

lemma lookup_moves:
  "after s w \<Longrightarrow> e = eg_effect g \<or> eg_settlement_effect g = Some e \<Longrightarrow> we_lookup e i w = (r, w') \<Longrightarrow> after s w'"
  unfolding after_def using lookup_law later_trans by blast

lemma usage_moves: "after s w \<Longrightarrow> eg_settlement_effect g = Some e \<Longrightarrow> we_lookup_usage e i w = (r, w') \<Longrightarrow> after s w'"
  unfolding after_def using usage_law later_trans by blast

lemma open_truthful:
  "triple (after s) (give (eg_open g a)) (\<lambda>p w. after s w \<and> eg_open g a = Inr p) (truthful s)"
  by (rule triple_give) (auto simp: truthful_def open_law)

lemma dispatch_truthful:
  "triple (after s) (dispatch g a)
    (\<lambda>rc w. after s w \<and> (\<exists>p. eg_open g a = Inr p \<and> validate_dispatch_receipt (permit_reference p) rc = Inr rc)) (truthful s)"
  (is "triple _ _ ?Q _")
  unfolding dispatch_def
proof (rule triple_andthen [OF open_truthful], rule triple_andthen)
  fix p
  show "triple (\<lambda>w. after s w \<and> eg_open g a = Inr p) (load_authority g) (\<lambda>_ w. after s w \<and> eg_open g a = Inr p) (truthful s)"
    unfolding conj_commute [of "after s _"]
    by (rule triple_assume, rule triple_conseq [OF load_authority_truthful]) auto
  fix x :: "resource_state \<times> resource_authority"
  obtain t au where x: "x = (t, au)" by (cases x)
  have effect: "triple (\<lambda>w. after s w \<and> eg_open g a = Inr p)
    (\<lambda>w. case we_dispatch (eg_effect g) p w of
        (Inl exc, w1) \<Rightarrow> raise_unknown g (PermitRef p) (''effect port raised '' @ exc) None w1
      | (Inr (TypedValue receipt), w1) \<Rightarrow> receipt_or_unknown g (PermitRef p) receipt ''effect receipt binding diverged'' w1
      | (Inr _, w1) \<Rightarrow> raise_unknown g (PermitRef p) ''effect port returned no typed receipt'' None w1) ?Q (truthful s)"
  proof (rule triple_effect [where R = "\<lambda>_ w. after s w \<and> eg_open g a = Inr p"])
    fix r
    have raise: "triple (\<lambda>w. after s w \<and> eg_open g a = Inr p) (raise_unknown g (PermitRef p) d None) ?Q (truthful s)" for d
      by (rule raise_truthful) simp
    have receipt: "triple (\<lambda>w. after s w \<and> eg_open g a = Inr p) (receipt_or_unknown g (PermitRef p) rc d) ?Q (truthful s)" for rc d
      by (rule triple_conseq [OF receipt_truthful [where P = "\<lambda>w. after s w \<and> eg_open g a = Inr p"]]) auto
    show "triple (\<lambda>w. after s w \<and> eg_open g a = Inr p)
      (\<lambda>w1. case r of Inl exc \<Rightarrow> raise_unknown g (PermitRef p) (''effect port raised '' @ exc) None w1
         | Inr (TypedValue receipt) \<Rightarrow> receipt_or_unknown g (PermitRef p) receipt ''effect receipt binding diverged'' w1
         | Inr _ \<Rightarrow> raise_unknown g (PermitRef p) ''effect port returned no typed receipt'' None w1) ?Q (truthful s)"
      using raise receipt by (rule effect_cases)
  qed (auto dest: dispatch_moves)
  show "triple (\<lambda>w. after s w \<and> eg_open g a = Inr p)
    (case x of (s, authority) \<Rightarrow> andthen (call (eg_now_utc g)) (\<lambda>observed_at.
     andthen (give (pure_result (revalidate_workload_dispatch_permit s authority p observed_at))) (\<lambda>validated.
     andthen (give (require_effect_identity (eg_effect g) (pm_adapter validated, pm_adapter_version validated)
       ''effect adapter identity diverges from the dispatch intent'')) (\<lambda>_.
     (\<lambda>w. case we_dispatch (eg_effect g) validated w of
        (Inl exc, w1) \<Rightarrow> raise_unknown g (PermitRef validated) (''effect port raised '' @ exc) None w1
      | (Inr (TypedValue receipt), w1) \<Rightarrow>
          receipt_or_unknown g (PermitRef validated) receipt ''effect receipt binding diverged'' w1
      | (Inr _, w1) \<Rightarrow> raise_unknown g (PermitRef validated) ''effect port returned no typed receipt'' None w1))))) ?Q (truthful s)"
    unfolding x prod.case
  proof (rule triple_andthen)
    show "triple (\<lambda>w. after s w \<and> eg_open g a = Inr p) (call (eg_now_utc g)) (\<lambda>_ w. after s w \<and> eg_open g a = Inr p) (truthful s)"
      unfolding conj_commute [of "after s _"]
      by (rule triple_assume, rule triple_conseq [OF clock_truthful]) auto
  qed (auto intro!: pure_truthful identity_truthful effect dest: revalidate_Inr(1))
qed

lemma reconcile_truthful:
  "triple (after s) (reconcile g eid)
    (\<lambda>rc w. after s w \<and> (\<forall>c. rc = Some c \<longrightarrow> (\<exists>t r. later s t \<and> derive_intent_reference t eid = Inr r \<and>
       validate_dispatch_receipt r c = Inr c))) (truthful s)" (is "triple _ _ ?Q _")
  unfolding reconcile_def
proof (rule triple_andthen [OF derive_truthful])
  fix x :: "resource_state \<times> intent_reference"
  obtain t r where x: "x = (t, r)" by (cases x)
  let ?P = "\<lambda>w. after s w \<and> later s t \<and> derive_intent_reference t eid = Inr r"
  have raise: "triple ?P (raise_unknown g (IntentRef r) d None) ?Q (truthful s)" for d by (rule raise_truthful) simp
  have receipt: "triple ?P (andthen (receipt_or_unknown g (IntentRef r) rc d) (\<lambda>rc. give (Inr (Some rc)))) ?Q (truthful s)" for rc d
    by (rule triple_andthen [OF receipt_truthful]) (auto intro!: triple_give)
  show "triple (case x of (t, r) \<Rightarrow> \<lambda>w. after s w \<and> t = state_of w \<and> derive_intent_reference t eid = Inr r \<and>
        effect_identity (eg_effect g) = Inr (ir_adapter r, ir_adapter_version r))
    (case x of (s, r) \<Rightarrow> (\<lambda>w. case we_lookup (eg_effect g) r w of
        (Inl exc, w1) \<Rightarrow> raise_unknown g (IntentRef r) (''effect lookup raised '' @ exc) None w1
      | (Inr NothingReturned, w1) \<Rightarrow> (Inr None, w1)
      | (Inr UntypedValue, w1) \<Rightarrow> raise_unknown g (IntentRef r) ''effect lookup returned no typed receipt'' None w1
      | (Inr (TypedValue receipt), w1) \<Rightarrow>
          andthen (receipt_or_unknown g (IntentRef r) receipt ''effect lookup receipt binding diverged'')
            (\<lambda>rc. give (Inr (Some rc))) w1)) ?Q (truthful s)"
    unfolding x prod.case
  proof (rule triple_effect [where R = "\<lambda>_. ?P"])
    show "?P w'" if "after s w \<and> t = state_of w \<and> derive_intent_reference t eid = Inr r \<and>
        effect_identity (eg_effect g) = Inr (ir_adapter r, ir_adapter_version r)"
      and "we_lookup (eg_effect g) r w = (q, w')" for w q w'
      using that lookup_moves [OF _ disjI1 [OF refl] that(2)] by (auto simp: after_def)
    fix q
    have none: "triple ?P (\<lambda>w1. (Inr None, w1)) ?Q (truthful s)" by (rule tripleI) auto
    show "triple ?P (\<lambda>w1. case q of Inl exc \<Rightarrow> raise_unknown g (IntentRef r) (''effect lookup raised '' @ exc) None w1
         | Inr NothingReturned \<Rightarrow> (Inr None, w1)
         | Inr UntypedValue \<Rightarrow> raise_unknown g (IntentRef r) ''effect lookup returned no typed receipt'' None w1
         | Inr (TypedValue receipt) \<Rightarrow>
             andthen (receipt_or_unknown g (IntentRef r) receipt ''effect lookup receipt binding diverged'')
               (\<lambda>rc. give (Inr (Some rc))) w1) ?Q (truthful s)"
      using raise receipt none by (rule lookup_cases)
  qed
qed

lemma settle_command_triple:
  assumes "later s t" and "\<And>w. P w \<Longrightarrow> after t w"
  shows "triple P (settle_command g t r u)
    (\<lambda>cmd w. after t w \<and> (\<exists>c. cmd = SettleGrant c u \<and> command_ok cmd \<and> gc_command_id c = settle_command_id r u \<and>
       gc_grant_id c = ir_grant_id r \<and> gc_fence_token c = ir_fence_token r \<and> gc_workload_sha256 c = ir_workload_sha256 r))
    (truthful s)"
  unfolding settle_command_def
proof (rule triple_andthen)
  have up: "after t w \<Longrightarrow> after s w" for w using assms(1) by (auto simp: after_def intro: later_trans)
  show "triple P (call (eg_now_utc g)) (\<lambda>_. after t) (truthful s)"
    by (rule triple_conseq [OF clock_truthful [of t]]) (use assms(2) up in \<open>auto simp: truthful_def\<close>)
  fix now :: string
  show "triple (after t) (give (pure_result
       (ebind (find_grant t (ir_grant_id r)) (\<lambda>grant.
        ebind (latest_utc now [g_last_observed_at grant, u_measured_at u]) (\<lambda>observed_at.
        mk_command (SettleGrant
          \<lparr>gc_command_id = settle_command_id r u, gc_grant_id = ir_grant_id r, gc_fence_token = ir_fence_token r,
           gc_workload_sha256 = ir_workload_sha256 r, gc_observed_at = observed_at\<rparr> u))))))
    (\<lambda>cmd w. after t w \<and> (\<exists>c. cmd = SettleGrant c u \<and> command_ok cmd \<and> gc_command_id c = settle_command_id r u \<and>
       gc_grant_id c = ir_grant_id r \<and> gc_fence_token c = ir_fence_token r \<and> gc_workload_sha256 c = ir_workload_sha256 r))
    (truthful s)"
    by (rule triple_give)
      (auto simp: pure_result_Inr pure_result_Inl mk_command_Inr ebind_eq_Inr simp del: command_ok.simps intro: up)
qed

lemma settle_with_triple:
  assumes t: "later s t" and r: "derive_intent_reference t eid = Inr r"
  shows "triple (after t) (settle_with g t r rc u) (\<lambda>d w. after s w \<and> settled s eid d (state_of w)) (truthful s)"
  unfolding settle_with_def
proof (rule triple_andthen)
  have up: "after t w \<Longrightarrow> after s w" for w using t by (auto simp: after_def intro: later_trans)
  let ?P = "\<lambda>w. after t w \<and> validate_dispatch_receipt r rc = Inr rc"
  show "triple (after t) (receipt_or_unknown g (IntentRef r) rc ''effect settlement receipt binding diverged'') (\<lambda>_. ?P) (truthful s)"
    by (rule triple_conseq [OF receipt_truthful [OF up]]) auto
  show "triple ?P
    (if u_evidence_sha256 u \<noteq> dr_evidence_sha256 rc
     then raise_unknown g (IntentRef r) ''effect usage evidence diverges from the dispatch receipt'' (Some rc)
     else andthen (settle_command g t r u) (\<lambda>command.
       andthen (call (eg_apply g (eg_scope g) command (Some (p_revision t)))) (\<lambda>durable.
       andthen (give (pure_result (raise_for_rejection (dd_decision durable)))) (\<lambda>_. give (Inr durable)))))
    (\<lambda>d w. after s w \<and> settled s eid d (state_of w)) (truthful s)"
  proof (cases "u_evidence_sha256 u = dr_evidence_sha256 rc")
    case False
    then show ?thesis using raise_truthful [of ?P s] up by simp
  next
    case ev: True
    show ?thesis
      unfolding ev simp_thms if_False conj_commute [of "after t _"]
    proof (rule triple_assume, rule triple_andthen [OF settle_command_triple [OF t, of "after t"]], assumption)
      assume v: "validate_dispatch_receipt r rc = Inr rc"
      fix cmd
      let ?C = "\<lambda>c. cmd = SettleGrant c u \<and> command_ok cmd \<and> gc_command_id c = settle_command_id r u \<and>
         gc_grant_id c = ir_grant_id r \<and> gc_fence_token c = ir_fence_token r \<and> gc_workload_sha256 c = ir_workload_sha256 r"
      show "triple (\<lambda>w. after t w \<and> (\<exists>c. ?C c))
        (andthen (call (eg_apply g (eg_scope g) cmd (Some (p_revision t)))) (\<lambda>durable.
          andthen (give (pure_result (raise_for_rejection (dd_decision durable)))) (\<lambda>_. give (Inr durable))))
        (\<lambda>d w. after s w \<and> settled s eid d (state_of w)) (truthful s)"
        unfolding conj_commute [of "after t _"]
      proof (rule triple_assume, elim exE)
        fix c assume c: "?C c"
        then have ok: "command_ok cmd" by blast
        show "triple (after t)
          (andthen (call (eg_apply g (eg_scope g) cmd (Some (p_revision t)))) (\<lambda>durable.
            andthen (give (pure_result (raise_for_rejection (dd_decision durable)))) (\<lambda>_. give (Inr durable))))
          (\<lambda>d w. after s w \<and> settled s eid d (state_of w)) (truthful s)"
        proof (rule triple_andthen [where R = "\<lambda>d w. after s w \<and> (decision_accepted (dd_decision d) \<longrightarrow> settled s eid d (state_of w))"],
            rule triple_call)
          fix w q w' assume w: "after t w" and run: "eg_apply g (eg_scope g) cmd (Some (p_revision t)) w = (q, w')"
          have l: "lawful w" "later t (state_of w)" using w by (simp_all add: after_def)
          note law = apply_law [OF l(1) ok run]
          have a: "after s w'"
            using law l ok t by (auto simp: after_def intro: later_trans later.there)
          have "settled s eid d (state_of w')" if d: "q = Inr d" and acc: "decision_accepted (dd_decision d)" for d
          proof -
            note okw = reachable_ok [OF lawful_reachable [OF l(1)]]
            have run: "submit (state_of w) cmd = Inr (state_of w')" "decide (state_of w) cmd = Inr (dd_decision d)" using law d by auto
            have charge: "\<not> d_replayed (dd_decision d) \<Longrightarrow> p_spent (state_of w') = p_spent (state_of w) + u_actual u"
              using settlement_charges [OF okw, of c u] c run acc by auto
            show ?thesis
              unfolding settled_def
              using t r v ev c acc submitted_recorded [OF okw ok run(2,1)] charge l(2) run(1)
              by (intro exI [of _ t] exI [of _ r] exI [of _ rc] exI [of _ u] exI [of _ c] conjI) auto
          qed
          with a show "case q of Inl e \<Rightarrow> truthful s (GateJournal e) w'
            | Inr d \<Rightarrow> after s w' \<and> (decision_accepted (dd_decision d) \<longrightarrow> settled s eid d (state_of w'))"
            by (simp split: sum.split)
        qed (auto intro!: pure_truthful triple_give simp: raise_for_rejection_Inr)
      qed
    qed
  qed
qed

lemma settle_measured_triple:
  assumes t: "later s t" and r: "derive_intent_reference t eid = Inr r" and Some: "eg_settlement_effect g = Some se"
  shows "triple (after t) (settle_measured g se t r) (\<lambda>d w. after s w \<and> settled s eid d (state_of w)) (truthful s)"
    (is "triple ?P _ ?Q _")
  unfolding settle_measured_def
proof (rule identity_truthful, rule triple_effect [where R = "\<lambda>_. ?P"])
  have up: "?P w \<Longrightarrow> after s w" for w using t by (auto simp: after_def intro: later_trans)
  show "?P w \<Longrightarrow> after s w" for w by (rule up)
  show "after t w'" if "after t w" and run: "settlement_lookups se r w = (q, w')" for w q w'
  proof -
    obtain q1 w1 where l: "we_lookup se r w = (q1, w1)" by force
    obtain q2 w2 where u: "we_lookup_usage se r w1 = (q2, w2)" by force
    have "after t w1" by (rule lookup_moves [OF \<open>after t w\<close> disjI2 [OF Some] l])
    moreover have "after t w2" by (rule usage_moves [OF \<open>after t w1\<close> Some u])
    moreover have "w' = w1 \<or> w' = w2"
      using run l u by (simp add: settlement_lookups_def split: sum.splits)
    ultimately show ?thesis by blast
  qed
  have raise: "triple ?P (raise_unknown g (IntentRef r) d None) ?Q (truthful s)" for d by (rule raise_truthful) (rule up)
  note settling = settle_with_triple [OF t r]
  have branch: "triple ?P (if receipt = NothingReturned \<or> usage = NothingReturned
         then raise_unknown g (IntentRef r) ''effect has no complete terminal receipt and usage'' None
         else case receipt of
           TypedValue rc \<Rightarrow>
             (case usage of
                TypedValue u \<Rightarrow> settle_with g t r rc u
              | _ \<Rightarrow> raise_unknown g (IntentRef r) ''effect settlement returned no typed usage'' None)
         | _ \<Rightarrow> raise_unknown g (IntentRef r) ''effect settlement returned no typed receipt'' None) ?Q (truthful s)"
    for receipt usage
    by (cases receipt; cases usage)
      (simp_all only: returned.distinct returned.case simp_thms if_True if_False raise settling)
  fix q :: "string + dispatch_receipt returned \<times> resource_usage returned"
  show "triple ?P (\<lambda>w1. case q of Inl exc \<Rightarrow> raise_unknown g (IntentRef r) (''effect settlement lookup raised '' @ exc) None w1
      | Inr (receipt, usage) \<Rightarrow>
          (if receipt = NothingReturned \<or> usage = NothingReturned
           then raise_unknown g (IntentRef r) ''effect has no complete terminal receipt and usage'' None
           else case receipt of
             TypedValue rc \<Rightarrow>
               (case usage of
                  TypedValue u \<Rightarrow> settle_with g t r rc u
                | _ \<Rightarrow> raise_unknown g (IntentRef r) ''effect settlement returned no typed usage'' None)
           | _ \<Rightarrow> raise_unknown g (IntentRef r) ''effect settlement returned no typed receipt'' None) w1) ?Q (truthful s)"
  proof (cases q)
    case (Inl exc)
    show ?thesis unfolding Inl sum.case by (rule raise)
  next
    case (Inr y)
    obtain receipt usage where y: "y = (receipt, usage)" by (cases y)
    show ?thesis unfolding Inr y sum.case prod.case by (rule branch)
  qed
qed

lemma settle_truthful:
  "triple (after s) (settle g eid) (\<lambda>d w. after s w \<and> settled s eid d (state_of w)) (truthful s)" (is "triple _ _ ?Q _")
  unfolding settle_def
proof (rule triple_andthen [OF derive_truthful])
  fix x :: "resource_state \<times> intent_reference"
  obtain t r where x: "x = (t, r)" by (cases x)
  have "triple (\<lambda>w. (later s t \<and> derive_intent_reference t eid = Inr r) \<and> after t w)
     (case eg_settlement_effect g of
       None \<Rightarrow> give (pure_result (Inl (invalid_intent ''no measured settlement effect was injected into this gate'')))
     | Some se \<Rightarrow> settle_measured g se t r) ?Q (truthful s)"
  proof (rule triple_assume, elim conjE)
    assume t: "later s t" "derive_intent_reference t eid = Inr r"
    show "triple (after t) (case eg_settlement_effect g of
         None \<Rightarrow> give (pure_result (Inl (invalid_intent ''no measured settlement effect was injected into this gate'')))
       | Some se \<Rightarrow> settle_measured g se t r) ?Q (truthful s)"
    proof (cases "eg_settlement_effect g")
      case None
      show ?thesis unfolding None option.case
        by (rule triple_give) (use t in \<open>auto simp: pure_result_def after_def intro: later_trans\<close>)
    next
      case (Some se)
      show ?thesis unfolding Some option.case by (rule settle_measured_triple [OF t Some])
    qed
  qed
  then show "triple (case x of (t, r) \<Rightarrow> \<lambda>w. after s w \<and> t = state_of w \<and> derive_intent_reference t eid = Inr r \<and>
        effect_identity (eg_effect g) = Inr (ir_adapter r, ir_adapter_version r))
    (case x of (s, r) \<Rightarrow>
     case eg_settlement_effect g of
       None \<Rightarrow> give (pure_result (Inl (invalid_intent ''no measured settlement effect was injected into this gate'')))
     | Some se \<Rightarrow> settle_measured g se s r) ?Q (truthful s)"
    unfolding x prod.case by (rule triple_conseq) (auto simp: after_def intro: later.here)
qed

end

end
