(* ===== verification/Gate_Journal.thy ===== *)
theory Gate_Journal
  imports Gate_Facts Journal_Properties
begin

text \<open>
  The gate on the durable journal: \<^verbatim>\<open>WorkloadExecutionGate\<close> with the SQLite journal over the signed
  file anchor and the HMAC authenticator. Its surroundings are the journal's world and whatever the clock
  and the effect ports act on; while a port runs, other processes apply commands to the journal. This
  gate keeps the laws of \<open>gate_port\<close>.
\<close>

section \<open>What the journal returns\<close>

lemma commit_decision: "commit_transition kern scope l d db = Inr (dd, db') \<Longrightarrow> dd_decision dd = d"
  by (auto simp: commit_transition_def result_simps Let_def case_prod_beta)

lemma apply_body_decision:
  assumes "apply_body kern scope c er external db = Inr (dd, db')" and "load_existing kern db scope = Inr l"
  shows "kernel_decide kern (ld_state l) c = Inr (dd_decision dd)"
  using assms by (auto simp: apply_body_def Let_def result_simps dest: commit_decision split: if_splits)

lemma apply_decision:
  assumes "journal_apply j scope c er w = (Inr dd, w')" and "load_existing (rj_kernel j) (w_database w) scope = Inr l"
  shows "kernel_decide (rj_kernel j) (ld_state l) c = Inr (dd_decision dd)"
proof -
  obtain external dd0 db where b: "apply_body (rj_kernel j) scope c er external (w_database w) = Inr (dd0, db)"
    and d: "dd_decision dd = dd_decision dd0"
    using assms(1)
    by (auto simp: journal_apply_def transaction_def Let_def result_simps split: sum.splits prod.splits if_splits)
  from apply_body_decision [OF b assms(2)] d show ?thesis by simp
qed

section \<open>The gate\<close>

definition gate_journal :: "file_anchor \<Rightarrow> directory resource_journal" where
  "gate_journal fa = \<lparr>rj_trusted_anchor = Some (file_anchor_store fa), rj_kernel = DEFAULT_RESOURCE_KERNEL,
     rj_failure_inject_after_commit = None\<rparr>"

text \<open>The commands that other processes apply, one after another; a value that its constructor refuses
  is no command.\<close>

fun others_apply :: "directory resource_journal \<Rightarrow> string \<Rightarrow> (resource_command \<times> int option) list \<Rightarrow>
    directory world \<Rightarrow> directory world" where
  "others_apply j scope [] w = w"
| "others_apply j scope ((c, er) # cs) w =
     others_apply j scope cs (if post_init_command c = Inr () then snd (journal_apply j scope c er w) else w)"

text \<open>A port of the surroundings \<open>'t\<close>, with what the others do in the meantime.\<close>

definition with_others :: "directory resource_journal \<Rightarrow> string \<Rightarrow> ('t \<Rightarrow> (resource_command \<times> int option) list) \<Rightarrow>
    ('t \<Rightarrow> 'r \<times> 't) \<Rightarrow> directory world \<times> 't \<Rightarrow> 'r \<times> (directory world \<times> 't)" where
  "with_others j scope meanwhile m wx =
     (let (r, x) = m (snd wx) in (r, (others_apply j scope (meanwhile x) (fst wx), x)))"

definition effect_with_others :: "directory resource_journal \<Rightarrow> string \<Rightarrow> ('t \<Rightarrow> (resource_command \<times> int option) list) \<Rightarrow>
    't workload_effect \<Rightarrow> (directory world \<times> 't) workload_effect" where
  "effect_with_others j scope meanwhile e =
     \<lparr>we_adapter = we_adapter e, we_adapter_version = we_adapter_version e,
      we_dispatch = (\<lambda>p. with_others j scope meanwhile (we_dispatch e p)),
      we_lookup = (\<lambda>i. with_others j scope meanwhile (we_lookup e i)),
      we_lookup_usage = (\<lambda>i. with_others j scope meanwhile (we_lookup_usage e i))\<rparr>"

record 't gate_parts =
  gp_scope :: string
  gp_effect :: "'t workload_effect"
  gp_settlement_effect :: "'t workload_effect option"
  gp_now_utc :: "('t, string) port"
  gp_authenticator :: hmac_authenticator
  gp_permit_ttl_seconds :: int
  gp_meanwhile :: "'t \<Rightarrow> (resource_command \<times> int option) list"

definition journal_gate :: "file_anchor \<Rightarrow> 't gate_parts \<Rightarrow> (directory world \<times> 't) execution_gate" where
  "journal_gate fa gp =
     (let j = gate_journal fa; scope = gp_scope gp; others = gp_meanwhile gp in
      \<lparr>eg_scope = scope,
       eg_load = (\<lambda>s wx. (journal_load j s (fst wx), wx)),
       eg_apply = (\<lambda>s c er wx. let (r, w) = journal_apply j s c er (fst wx) in (r, (w, snd wx))),
       eg_effect = effect_with_others j scope others (gp_effect gp),
       eg_settlement_effect = map_option (effect_with_others j scope others) (gp_settlement_effect gp),
       eg_now_utc = with_others j scope others (gp_now_utc gp),
       eg_seal = seal_permit (gp_authenticator gp), eg_open = open_permit (gp_authenticator gp),
       eg_permit_ttl_seconds = gp_permit_ttl_seconds gp\<rparr>)"

text \<open>The state that the journal holds, and the worlds in which it holds one.\<close>

definition journal_state :: "string \<Rightarrow> directory world \<times> 't \<Rightarrow> resource_state" where
  "journal_state scope wx = ld_state (projr (load_existing DEFAULT_RESOURCE_KERNEL (w_database (fst wx)) scope))"

definition journal_holds :: "file_anchor \<Rightarrow> string \<Rightarrow> directory world \<times> 't \<Rightarrow> bool" where
  "journal_holds fa scope wx \<longleftrightarrow> (\<exists>hs ts. keeps (file_anchor_store fa) (fst wx) scope hs ts)"

section \<open>Its laws\<close>

lemma gate_journal_simps [simp]:
  "rj_trusted_anchor (gate_journal fa) = Some (file_anchor_store fa)" "rj_kernel (gate_journal fa) = KERNEL"
  by (simp_all add: gate_journal_def)

lemma journal_holds_state:
  assumes "journal_holds fa scope wx"
  obtains hs ts sts where "stored (w_database (fst wx)) scope hs ts sts"
    "\<forall>x. anchor_read fa (w_anchor (fst wx)) scope = Inr x \<longrightarrow> anchored hs sts x"
    "journal_state scope wx = fst (last hs)" "load_existing KERNEL (w_database (fst wx)) scope = Inr (loaded_of hs sts)"
proof -
  obtain hs ts where "keeps (file_anchor_store fa) (fst wx) scope hs ts" using assms by (auto simp: journal_holds_def)
  then obtain sts where st: "stored (w_database (fst wx)) scope hs ts sts"
    "\<forall>x. anchor_read fa (w_anchor (fst wx)) scope = Inr x \<longrightarrow> anchored hs sts x" by (auto simp: keeps_def)
  from that [OF st] stored_load [OF st(1)] show thesis by (simp add: journal_state_def)
qed

lemma journal_holds_keeps:
  assumes "stored (w_database w) scope hs ts sts" and "\<forall>x. anchor_read fa (w_anchor w) scope = Inr x \<longrightarrow> anchored hs sts x"
  shows "journal_holds fa scope (w, x)" and "journal_state scope (w, x) = fst (last hs)"
  using assms stored_load [OF assms(1)] by (auto simp: journal_holds_def keeps_def journal_state_def)

lemma journal_holds_reachable: "journal_holds fa scope wx \<Longrightarrow> reachable (journal_state scope wx)"
proof -
  assume "journal_holds fa scope wx"
  then obtain hs ts sts where "stored (w_database (fst wx)) scope hs ts sts" "journal_state scope wx = fst (last hs)"
    by (rule journal_holds_state)
  then show ?thesis using history_last(4) by (auto simp: stored_def)
qed

lemma journal_load_state:
  assumes "journal_load (gate_journal fa) scope (fst wx) = Inr sn"
  shows "sn_state sn = journal_state scope wx"
  using assms by (auto simp: journal_load_def journal_state_def result_simps)

lemma journal_apply_law:
  assumes "journal_holds fa scope wx" and c: "command_ok c"
    and r: "journal_apply (gate_journal fa) scope c er (fst wx) = (r, w')"
  shows "journal_holds fa scope (w', x) \<and>
    (journal_state scope (w', x) = journal_state scope wx \<or> submit (journal_state scope wx) c = Inr (journal_state scope (w', x))) \<and>
    (\<forall>d. r = Inr d \<longrightarrow> submit (journal_state scope wx) c = Inr (journal_state scope (w', x)) \<and>
       decide (journal_state scope wx) c = Inr (dd_decision d))"
proof -
  obtain hs ts sts where st: "stored (w_database (fst wx)) scope hs ts sts"
    and ext: "\<forall>x. an_read (file_anchor_store fa) (w_anchor (fst wx)) scope = Inr x \<longrightarrow> anchored hs sts x"
    and s: "journal_state scope wx = fst (last hs)" and load: "load_existing KERNEL (w_database (fst wx)) scope = Inr (loaded_of hs sts)"
    using journal_holds_state [OF assms(1)] by auto
  obtain hs' ts' now where st': "stored (w_database w') scope hs' ts' now"
    and ext': "\<forall>x. anchor_read fa (w_anchor w') scope = Inr x \<longrightarrow> anchored hs' now x"
    and a: "hs' = hs \<and> ts' = ts \<or> (\<exists>sc t. hs' = hs @ [sc] \<and> ts' = ts @ [t] \<and> submit (fst (last hs)) c = Inr (fst sc))"
    and b: "r \<in> range Inr \<longrightarrow> submit (fst (last hs)) c = Inr (fst (last hs'))"
    using file_store.apply_stored [OF gate_journal_simps st ext c r] by auto
  have "decide (fst (last hs)) c = Inr (dd_decision d)" if "r = Inr d" for d
    using apply_decision [of "gate_journal fa" scope c er "fst wx" d w' "loaded_of hs sts"] r that load by simp
  with a b journal_holds_keeps [OF st' ext', of x] s show ?thesis by auto
qed

lemma others_apply_law:
  "journal_holds fa scope (w, x) \<Longrightarrow> journal_holds fa scope (others_apply (gate_journal fa) scope cs w, y) \<and>
     later (journal_state scope (w, x)) (journal_state scope (others_apply (gate_journal fa) scope cs w, y))"
proof (induction cs arbitrary: w x)
  case Nil
  then show ?case by (simp add: journal_holds_def journal_state_def later.here)
next
  case (Cons cc cs)
  obtain c er where cc: "cc = (c, er)" by (cases cc)
  let ?w = "if post_init_command c = Inr () then snd (journal_apply (gate_journal fa) scope c er w) else w"
  have "journal_holds fa scope (?w, x) \<and> later (journal_state scope (w, x)) (journal_state scope (?w, x))"
  proof (cases "post_init_command c = Inr ()")
    case True
    then have c: "command_ok c" by (simp add: post_init_command_Inr)
    obtain r w' where r: "journal_apply (gate_journal fa) scope c er w = (r, w')" by force
    from journal_apply_law [OF Cons.prems c, of er r w' x] r
    have "journal_holds fa scope (w', x)" "journal_state scope (w', x) = journal_state scope (w, x) \<or>
      submit (journal_state scope (w, x)) c = Inr (journal_state scope (w', x))" by auto
    then show ?thesis using True r c by (auto intro: later.here later_submit)
  qed (use Cons.prems in \<open>simp add: later.here\<close>)
  with Cons.IH [of ?w x] show ?case unfolding cc others_apply.simps by (blast intro: later_trans)
qed

lemma with_others_law:
  assumes "journal_holds fa scope wx" and "with_others (gate_journal fa) scope meanwhile m wx = (r, wx')"
  shows "journal_holds fa scope wx' \<and> later (journal_state scope wx) (journal_state scope wx')"
proof -
  have "wx' = (others_apply (gate_journal fa) scope (meanwhile (snd (m (snd wx)))) (fst wx), snd (m (snd wx)))"
    using assms(2) by (simp add: with_others_def Let_def case_prod_beta)
  with others_apply_law [of fa scope "fst wx" "snd wx"] assms(1) show ?thesis by simp
qed

lemma journal_gate_simps [simp]:
  "eg_scope (journal_gate fa gp) = gp_scope gp"
  "eg_load (journal_gate fa gp) s wx = (journal_load (gate_journal fa) s (fst wx), wx)"
  "eg_apply (journal_gate fa gp) s c er wx =
     (fst (journal_apply (gate_journal fa) s c er (fst wx)), (snd (journal_apply (gate_journal fa) s c er (fst wx)), snd wx))"
  "eg_effect (journal_gate fa gp) = effect_with_others (gate_journal fa) (gp_scope gp) (gp_meanwhile gp) (gp_effect gp)"
  "eg_settlement_effect (journal_gate fa gp) =
     map_option (effect_with_others (gate_journal fa) (gp_scope gp) (gp_meanwhile gp)) (gp_settlement_effect gp)"
  "eg_now_utc (journal_gate fa gp) = with_others (gate_journal fa) (gp_scope gp) (gp_meanwhile gp) (gp_now_utc gp)"
  "eg_seal (journal_gate fa gp) = seal_permit (gp_authenticator gp)" "eg_open (journal_gate fa gp) = open_permit (gp_authenticator gp)"
  "eg_permit_ttl_seconds (journal_gate fa gp) = gp_permit_ttl_seconds gp"
  by (simp_all add: journal_gate_def Let_def case_prod_beta)

lemma effect_with_others_simps [simp]:
  "we_adapter (effect_with_others j scope mw e) = we_adapter e"
  "we_adapter_version (effect_with_others j scope mw e) = we_adapter_version e"
  "we_dispatch (effect_with_others j scope mw e) p = with_others j scope mw (we_dispatch e p)"
  "we_lookup (effect_with_others j scope mw e) i = with_others j scope mw (we_lookup e i)"
  "we_lookup_usage (effect_with_others j scope mw e) i = with_others j scope mw (we_lookup_usage e i)"
  by (simp_all add: effect_with_others_def)

interpretation file_gate: gate_port "journal_gate fa gp" "journal_holds fa (gp_scope gp)" "journal_state (gp_scope gp)" for fa gp
proof
  fix w w' :: "directory world \<times> 'a" and e :: "(directory world \<times> 'a) workload_effect"
  show "journal_holds fa (gp_scope gp) w \<Longrightarrow> reachable (journal_state (gp_scope gp) w)" by (rule journal_holds_reachable)
  show "journal_holds fa (gp_scope gp) w \<Longrightarrow> eg_load (journal_gate fa gp) (eg_scope (journal_gate fa gp)) w = (r0, w') \<Longrightarrow>
      journal_holds fa (gp_scope gp) w' \<and> journal_state (gp_scope gp) w' = journal_state (gp_scope gp) w \<and>
      (\<forall>sn. r0 = Inr sn \<longrightarrow> sn_state sn = journal_state (gp_scope gp) w)" for r0
    by (auto dest: journal_load_state)
  show "journal_holds fa (gp_scope gp) w' \<and>
      (journal_state (gp_scope gp) w' = journal_state (gp_scope gp) w \<or>
        submit (journal_state (gp_scope gp) w) c = Inr (journal_state (gp_scope gp) w')) \<and>
      (\<forall>d. r = Inr d \<longrightarrow> submit (journal_state (gp_scope gp) w) c = Inr (journal_state (gp_scope gp) w') \<and>
         decide (journal_state (gp_scope gp) w) c = Inr (dd_decision d))"
    if "journal_holds fa (gp_scope gp) w" "command_ok c"
      and run: "eg_apply (journal_gate fa gp) (eg_scope (journal_gate fa gp)) c er w = (r, w')" for c er r
  proof -
    have "journal_apply (gate_journal fa) (gp_scope gp) c er (fst w) = (r, fst w')" "w' = (fst w', snd w)"
      using run by auto
    with journal_apply_law [OF that(1,2), of er r "fst w'" "snd w"] show ?thesis by metis
  qed
  show "journal_holds fa (gp_scope gp) w \<Longrightarrow> eg_now_utc (journal_gate fa gp) w = (r1, w') \<Longrightarrow>
      journal_holds fa (gp_scope gp) w' \<and> later (journal_state (gp_scope gp) w) (journal_state (gp_scope gp) w')" for r1
    by (simp add: with_others_law)
  show "journal_holds fa (gp_scope gp) w \<Longrightarrow> we_dispatch (eg_effect (journal_gate fa gp)) p w = (r2, w') \<Longrightarrow>
      journal_holds fa (gp_scope gp) w' \<and> later (journal_state (gp_scope gp) w) (journal_state (gp_scope gp) w')" for p r2
    by (simp add: with_others_law)
  show "journal_holds fa (gp_scope gp) w \<Longrightarrow>
      e = eg_effect (journal_gate fa gp) \<or> eg_settlement_effect (journal_gate fa gp) = Some e \<Longrightarrow> we_lookup e i w = (r2, w') \<Longrightarrow>
      journal_holds fa (gp_scope gp) w' \<and> later (journal_state (gp_scope gp) w) (journal_state (gp_scope gp) w')" for i r2
    by (auto dest: with_others_law)
  show "eg_open (journal_gate fa gp) a \<noteq> Inl (DispatchOutcomeUnknown u)" for a u
    by (simp add: open_permit_def ebind_def raise_if_def)
  show "eg_seal (journal_gate fa gp) q \<noteq> Inl (DispatchOutcomeUnknown u)" for q u
    by (simp add: seal_permit_def pure_result_Inl)
  show "journal_holds fa (gp_scope gp) w \<Longrightarrow> eg_settlement_effect (journal_gate fa gp) = Some e \<Longrightarrow> we_lookup_usage e i w = (r3, w') \<Longrightarrow>
      journal_holds fa (gp_scope gp) w' \<and> later (journal_state (gp_scope gp) w) (journal_state (gp_scope gp) w')" for i r3
    by (auto dest: with_others_law)
qed

section \<open>A journal of any state\<close>

lemma commits_exists:
  assumes "reachable s" and "identifier_ok (p_scope s)" and "sha256_ok (cp_journal_head_sha256 c0)"
    and c: "command_ok c" and sub: "submit s c = Inr s'" and d: "decide s c = Inr d" "\<not> d_replayed d"
  shows "\<exists>t c'. commits (s, c0) t (s', c')"
proof -
  note ok = reachable_ok [OF assms(1)]
  obtain t where t: "d_transitions d = [t]" "t_command t = c" using decision_kinds(2) [OF ok c d] by blast
  have e: "evolve s t = Inr s'" using sub d(1) t(1) by (simp add: submit_def evolve_all_def ebind_eq_Inr)
  have tok: "transition_ok t" using decided_transition_ok [OF ok c d(1)] t(1) by simp
  have "state_ok s'" by (rule reachable_ok [OF reachable.submitted [OF assms(1) c sub]])
  moreover have "p_revision s' = p_revision s + 1" by (rule evolve_fields(1) [OF e])
  ultimately have i: "identity_ok s'" "p_revision s' \<ge> 1"
    using ok by (auto simp: state_ok_def ledger_ok_def identity_ok_def)
  have h: "sha256_ok (t_command_sha256 t)" "sha256_ok (t_transition_sha256 t)" "sha256_ok (t_receipt_sha256 t)"
    using tok by (auto simp: transition_ok_def post_init_transition_def result_simps check_simps Let_def)
  have "identifier_ok (command_id (t_command t))" using command_ok_ids [of c] c t(2) by simp
  then have "\<exists>c'. checkpoint_for s' (Some (cp_journal_head_sha256 c0)) (Some t) = Inr c'"
    using i h assms(3) by (simp add: checkpoint_for_def Let_def mk_checkpoint_ok checkpoint_ok_def identity_ok_def)
  with e c t(2) show ?thesis by (auto simp: commits_def)
qed

lemma reachable_history: "reachable s \<Longrightarrow> \<exists>hs ts. history (p_scope s) hs ts \<and> fst (last hs) = s"
proof (induction rule: reachable.induct)
  case (created b sc ep caps s)
  obtain c where "checkpoint_for s None None = Inr c" using checkpoint_for_genesis [OF created] ..
  moreover have "p_scope s = sc" using created by (simp add: create_Inr)
  ultimately have "founds (p_scope s) (s, c)" unfolding founds_def fst_conv snd_conv using created by blast
  then show ?case by (intro exI [of _ "[(s, c)]"] exI [of _ "[]"]) (simp add: history.genesis)
next
  case (submitted s c s')
  obtain hs ts where h: "history (p_scope s) hs ts" "fst (last hs) = s" using submitted.IH by blast
  obtain d where d: "decide s c = Inr d" using submitted by (auto simp: submit_def result_simps)
  show ?case
  proof (cases "d_replayed d")
    case True
    then have "s' = s" using decision_kinds(1) [OF reachable_ok [OF submitted(1)] submitted(2) d] submitted(3) by simp
    with h show ?thesis by blast
  next
    case False
    have "sha256_ok (cp_journal_head_sha256 (snd (last hs)))"
      using history_checkpoint_ok [OF h(1) last_member [OF h(1)]] by (simp add: checkpoint_ok_def)
    from commits_exists [OF submitted(1) history_scope_ok [OF h(1)] this submitted(2,3) d False]
    obtain t c' where c: "commits (s, snd (last hs)) t (s', c')" by blast
    moreover have "last hs = (s, snd (last hs))" using h(2) by (metis prod.collapse)
    ultimately have "commits (last hs) t (s', c')" by simp
    moreover have "p_scope s' = p_scope s" using c by (auto simp: commits_def evolve_fields)
    ultimately show ?thesis using history.commit [OF h(1)] by (intro exI [of _ "hs @ [(s', c')]"] exI [of _ "ts @ [t]"]) auto
  qed
qed

text \<open>Every reachable state is that of some journal, confirmed by an anchor whose key signs.\<close>

lemma confirmed_journal_exists:
  assumes "reachable s" and "signs fa key"
  obtains hs ts and w :: "directory world" where "stored (w_database w) (p_scope s) hs ts (replicate (length hs) CONFIRMED)" "fst (last hs) = s"
    "anchor_read fa (w_anchor w) (p_scope s) = Inr (Some (snd (last hs)))"
proof -
  obtain hs ts where h: "history (p_scope s) hs ts" "fst (last hs) = s" using reachable_history [OF assms(1)] by blast
  let ?scope = "p_scope s"
  let ?db = "\<lparr>db_heads = [history_head ?scope hs], db_journal = history_rows ?scope hs ts,
     db_outbox = history_outbox ?scope hs (replicate (length hs) PENDING)\<rparr>"
  let ?w = "\<lparr>w_database = ?db, w_anchor = []\<rparr>"
  have "view ?db ?scope = (db_heads ?db, db_journal ?db, db_outbox ?db)"
    by (auto simp: view_def history_head_def history_rows_def history_outbox_def transition_row_def intent_row_def Let_def case_prod_beta)
  then have st: "stored ?db ?scope hs ts (replicate (length hs) PENDING)" using h(1) by (simp add: stored_def)
  have x: "anchor_read fa [] ?scope = Inr None"
    using history_scope_ok [OF h(1)] by (simp add: anchor_read_Inr read_all_Inr records_def linked_def)
  have "keeps (file_anchor_store fa) ?w ?scope hs ts"
    unfolding keeps_def using st x by (intro exI [of _ "replicate (length hs) PENDING"]) (simp add: anchored_def)
  from file_store.reconcile_live [OF file_anchor_progresses [OF assms(2)] gate_journal_simps this, of None] x
  obtain w :: "directory world" where "anchor_read fa (w_anchor w) ?scope = Inr (Some (snd (last hs)))"
    "stored (w_database w) ?scope hs ts (replicate (length hs) CONFIRMED)" by auto
  with that h(2) show thesis by blast
qed

section \<open>A confirmed journal\<close>

lemma history_checkpoint_of:
  "history scope hs ts \<Longrightarrow> sc \<in> set hs \<Longrightarrow> \<exists>previous t. checkpoint_for (fst sc) previous t = Inr (snd sc)"
  by (induction rule: history.induct) (auto simp: founds_def commits_def)

definition confirmed_world :: "file_anchor \<Rightarrow> string \<Rightarrow> resource_state \<Rightarrow> directory world \<Rightarrow> bool" where
  "confirmed_world fa scope s w \<longleftrightarrow>
     (\<exists>hs ts. stored (w_database w) scope hs ts (replicate (length hs) CONFIRMED) \<and> fst (last hs) = s \<and>
        anchor_read fa (w_anchor w) scope = Inr (Some (snd (last hs))))"

lemma confirmed_anchored: "hs \<noteq> [] \<Longrightarrow> anchored hs (replicate (length hs) CONFIRMED) (Some (snd (last hs)))"
  by (auto simp: anchored_def last_conv_nth intro!: exI [of _ "length hs - 1"])

lemma confirmed_world_holds:
  assumes "confirmed_world fa scope s w"
  shows "journal_holds fa scope (w, x)" and "journal_state scope (w, x) = s" and "reachable s"
    and "\<exists>l. load_existing KERNEL (w_database w) scope = Inr l \<and> ld_state l = s"
proof -
  obtain hs ts where h: "stored (w_database w) scope hs ts (replicate (length hs) CONFIRMED)" "fst (last hs) = s"
    "anchor_read fa (w_anchor w) scope = Inr (Some (snd (last hs)))"
    using assms by (auto simp: confirmed_world_def)
  then have "hs \<noteq> []" by (auto simp: stored_def)
  then have "\<forall>x. anchor_read fa (w_anchor w) scope = Inr x \<longrightarrow> anchored hs (replicate (length hs) CONFIRMED) x"
    using h(3) confirmed_anchored by simp
  from journal_holds_keeps [OF h(1) this, of x] h(2)
  show j: "journal_holds fa scope (w, x)" and s: "journal_state scope (w, x) = s" by auto
  from journal_holds_reachable [OF j] s show "reachable s" by simp
  show "\<exists>l. load_existing KERNEL (w_database w) scope = Inr l \<and> ld_state l = s" using stored_load [OF h(1)] h(2) by auto
qed

lemma confirmed_authority:
  assumes c: "confirmed_world fa (gp_scope gp) s w"
  obtains au where "load_authority (journal_gate fa gp) (w, x) = (Inr (s, au), (w, x))" "post_init_authority au = Inr ()"
    "require_current_confirmed_authority s au = Inr ()"
proof -
  obtain hs ts where h: "stored (w_database w) (gp_scope gp) hs ts (replicate (length hs) CONFIRMED)" "fst (last hs) = s"
    "anchor_read fa (w_anchor w) (gp_scope gp) = Inr (Some (snd (last hs)))"
    using c by (auto simp: confirmed_world_def)
  have hist: "history (gp_scope gp) hs ts" using h(1) by (simp add: stored_def)
  have ne: "hs \<noteq> []" using hist by auto
  let ?c = "snd (last hs)"
  have "verify_external (Some (loaded_of hs (replicate (length hs) CONFIRMED))) (Some ?c) (gp_scope gp) = Inr ()"
    using verify_external_anchored [OF hist] confirmed_anchored [OF ne] by simp
  moreover have "nat (p_revision s) < length hs" using history_last(1) [OF hist] history_length [OF hist] h(2) by simp
  ultimately have load: "journal_load (gate_journal fa) (gp_scope gp) w =
      Inr \<lparr>sn_state = s, sn_checkpoint = ?c, sn_anchor_status = CONFIRMED\<rparr>"
    using h stored_load [OF h(1)] by (simp add: journal_load_def external_head_def loaded_checkpoint [OF hist])
  have b: "cp_revision ?c = p_revision s" "cp_budget_id ?c = p_budget_id s" "cp_scope ?c = p_scope s" "cp_epoch ?c = p_epoch s"
    "cp_state_sha256 ?c = state_sha256 s" "checkpoint_ok ?c"
    using history_checkpoint_of [OF hist last_member [OF hist]] h(2) by (auto dest: checkpoint_for_fields)
  let ?au = "\<lparr>au_budget_id = p_budget_id s, au_scope = p_scope s, au_epoch = p_epoch s, au_revision = p_revision s,
     au_state_sha256 = state_sha256 s, au_checkpoint_sha256 = checkpoint_sha256 ?c,
     au_journal_head_sha256 = cp_journal_head_sha256 ?c, au_anchor_status = ''CONFIRMED'', au_schema_version = EXECUTION_SCHEMA_VERSION\<rparr>"
  have ok: "post_init_authority ?au = Inr ()"
    using b reachable_ok [OF confirmed_world_holds(3) [OF c]]
    by (simp add: post_init_authority_Inr checkpoint_ok_def checkpoint_sha256_def state_ok_def ledger_ok_def identity_ok_def)
  then have "load_authority (journal_gate fa gp) (w, x) = (Inr (s, ?au), (w, x))"
    using load b by (simp add: load_authority_def andthen_def call_def give_def authority_from_snapshot_def pure_result_def Let_def)
  with that ok show thesis by (simp add: current_authority)
qed

text \<open>A command that is already on record is replayed, and the journal stays as it is.\<close>

lemma replayed_apply:
  assumes c: "confirmed_world fa scope s w" and sg: "signs fa key"
    and rec: "find (\<lambda>rec. cr_command_id rec = command_id cmd) (s_command_records s) = Some rec" "cr_command_sha256 rec = command_hash cmd"
    and er: "\<forall>r. er = Some r \<longrightarrow> 0 \<le> r"
  obtains dd w' where "journal_apply (gate_journal fa) scope cmd er w = (Inr dd, w')" "confirmed_world fa scope s w'"
    "dd_decision dd = \<lparr>d_transitions = [], d_replayed = True, d_replay_receipt = Some (cr_receipt rec)\<rparr>"
proof -
  obtain hs ts where h: "stored (w_database w) scope hs ts (replicate (length hs) CONFIRMED)" "fst (last hs) = s"
    "anchor_read fa (w_anchor w) scope = Inr (Some (snd (last hs)))"
    using c by (auto simp: confirmed_world_def)
  have hist: "history scope hs ts" using h(1) by (simp add: stored_def)
  have anc: "anchored hs (replicate (length hs) CONFIRMED) (Some (snd (last hs)))"
    by (rule confirmed_anchored) (use hist in auto)
  have verify: "verify_external (Some (loaded_of hs (replicate (length hs) CONFIRMED))) (Some (snd (last hs))) scope = Inr ()"
    using verify_external_anchored [OF hist] anc by simp
  let ?d = "\<lparr>d_transitions = [], d_replayed = True, d_replay_receipt = Some (cr_receipt rec)\<rparr>"
  have "decide s cmd = Inr ?d" using submit_replayed(1) [OF rec(1)] rec(2) by simp
  then have "\<exists>dd. apply_body KERNEL scope cmd er (Some (snd (last hs))) (w_database w) = Inr (dd, w_database w) \<and> dd_decision dd = ?d"
    using stored_load [OF h(1)] verify h(2) by (simp add: apply_body_def Let_def)
  then obtain dd where body: "apply_body KERNEL scope cmd er (Some (snd (last hs))) (w_database w) = Inr (dd, w_database w)"
    "dd_decision dd = ?d" by blast
  have "keeps (file_anchor_store fa) w scope hs ts" using h anc by (auto simp: keeps_def)
  from file_store.reconcile_live [OF file_anchor_progresses [OF sg] gate_journal_simps this] h(3)
  obtain res w' where r: "reconcile_anchor (gate_journal fa) scope None w = (Inr res, w')"
    "anchor_read fa (w_anchor w') scope = Inr (Some (snd (last hs)))"
    "stored (w_database w') scope hs ts (replicate (length hs) CONFIRMED)" by auto
  have "journal_apply (gate_journal fa) scope cmd er w = (Inr (dd\<lparr>dd_anchor_status := CONFIRMED\<rparr>), w')"
    using h(3) body r(1) er
    by (auto simp: journal_apply_def external_head_def transaction_def raise_if_def split: option.split)
  moreover have "confirmed_world fa scope s w'" unfolding confirmed_world_def using r(2,3) h(2) by blast
  ultimately show thesis using that body(2) by simp
qed

end
