(* ===== verification/Gate_Properties.thy ===== *)
theory Gate_Properties
  imports Gate_Journal Exec_Properties
begin

text \<open>
  The properties of the gate on the durable journal: under which permit an effect runs, what a prepared
  permit was minted from, what is on record when an outcome is unknown, what a settlement charges, and
  what the tag of a permit commits to.
\<close>

section \<open>The effect behind the guards\<close>

text \<open>The gate with another effect in place of its own.\<close>

definition with_dispatch :: "(dispatch_permit \<Rightarrow> 'w \<Rightarrow> (string + dispatch_receipt returned) \<times> 'w) \<Rightarrow>
    'w execution_gate \<Rightarrow> 'w execution_gate" where
  "with_dispatch e g = g\<lparr>eg_effect := (eg_effect g)\<lparr>we_dispatch := e\<rparr>\<rparr>"

lemma with_dispatch_ports [simp]:
  "eg_open (with_dispatch e g) = eg_open g" "eg_now_utc (with_dispatch e g) = eg_now_utc g" "eg_load (with_dispatch e g) = eg_load g"
  "eg_apply (with_dispatch e g) = eg_apply g" "eg_scope (with_dispatch e g) = eg_scope g"
  "we_dispatch (eg_effect (with_dispatch e g)) = e"
  "require_effect_identity (eg_effect (with_dispatch e g)) = require_effect_identity (eg_effect g)"
  by (simp_all add: with_dispatch_def require_effect_identity_def effect_identity_def fun_eq_iff)

lemma with_dispatch_load [simp]: "load_authority (with_dispatch e g) = load_authority g"
  by (simp add: load_authority_def)

lemma with_dispatch_hold [simp]: "confirmed_reconciliation_hold (with_dispatch e g) = confirmed_reconciliation_hold g"
  by (rule ext) (simp add: confirmed_reconciliation_hold_def load_confirmed_def)

lemma with_dispatch_raise [simp]: "raise_unknown (with_dispatch e g) = raise_unknown g"
  unfolding raise_unknown_def [abs_def] persist_usage_unknown_def apply_usage_unknown_def with_dispatch_hold with_dispatch_ports ..

lemma with_dispatch_receipt [simp]: "receipt_or_unknown (with_dispatch e g) = receipt_or_unknown g"
  unfolding receipt_or_unknown_def [abs_def] with_dispatch_raise ..

text \<open>The effect is left alone, or run once, under a permit that was current.\<close>

lemma dispatch_runs:
  assumes "eg_open g a = Inr p" and "load_authority g w = (Inr (t, au), w1)" and "eg_now_utc g w1 = (Inr at, w2)"
    and "revalidate_workload_dispatch_permit t au p at = Inr p" and "effect_identity (eg_effect g) = Inr (pm_adapter p, pm_adapter_version p)"
  shows "\<exists>f. \<forall>e. dispatch (with_dispatch e g) a w = f (e p w2)"
proof -
  let ?f = "\<lambda>x. case x of
        (Inl exc, w1) \<Rightarrow> raise_unknown g (PermitRef p) (''effect port raised '' @ exc) None w1
      | (Inr (TypedValue receipt), w1) \<Rightarrow> receipt_or_unknown g (PermitRef p) receipt ''effect receipt binding diverged'' w1
      | (Inr _, w1) \<Rightarrow> raise_unknown g (PermitRef p) ''effect port returned no typed receipt'' None w1"
  have "dispatch (with_dispatch e g) a w = ?f (e p w2)" for e
    using assms unfolding dispatch_def with_dispatch_raise with_dispatch_receipt
    by (simp add: andthen_def give_def call_def pure_result_def require_effect_identity_def)
  then show ?thesis by blast
qed

lemma dispatch_gated:
  fixes g :: "'w execution_gate"
  obtains (ungated) r where "\<And>e. dispatch (with_dispatch e g) a w = r"
    | (gated) f p t au at w1 w2 where "\<And>e. dispatch (with_dispatch e g) a w = f (e p w2)" "eg_open g a = Inr p"
        "load_authority g w = (Inr (t, au), w1)" "eg_now_utc g w1 = (Inr at, w2)"
        "revalidate_workload_dispatch_permit t au p at = Inr p" "effect_identity (eg_effect g) = Inr (pm_adapter p, pm_adapter_version p)"
proof (cases "\<exists>p t au at w1 w2. eg_open g a = Inr p \<and> load_authority g w = (Inr (t, au), w1) \<and> eg_now_utc g w1 = (Inr at, w2) \<and>
    revalidate_workload_dispatch_permit t au p at = Inr p \<and> effect_identity (eg_effect g) = Inr (pm_adapter p, pm_adapter_version p)")
  case True
  then obtain p t au at w1 w2 where c: "eg_open g a = Inr p" "load_authority g w = (Inr (t, au), w1)" "eg_now_utc g w1 = (Inr at, w2)"
    "revalidate_workload_dispatch_permit t au p at = Inr p" "effect_identity (eg_effect g) = Inr (pm_adapter p, pm_adapter_version p)"
    by blast
  from dispatch_runs [OF c] obtain f where "\<forall>e. dispatch (with_dispatch e g) a w = f (e p w2)" by blast
  with c gated show thesis by blast
next
  case False
  have "dispatch (with_dispatch e g) a w = dispatch (with_dispatch e' g) a w" for e e'
    using False
    by (auto simp: dispatch_def andthen_def give_def call_def pure_result_def require_effect_identity_def result_simps check_simps
        ebind_def raise_if_def
        dest: revalidate_Inr(1) split: sum.splits prod.splits if_splits)
  with ungated show thesis by blast
qed

section \<open>Current permits\<close>

text \<open>A permit of a grant that \<open>s\<close> has in use, minted from \<open>s\<close> itself.\<close>

definition permit_binds :: "resource_state \<Rightarrow> dispatch_permit \<Rightarrow> bool" where
  "permit_binds s p \<longleftrightarrow>
     pm_authority_revision p = p_revision s \<and> pm_authority_state_sha256 p = state_sha256 s \<and>
     (\<exists>gr\<in>set (p_grants s). g_grant_id gr = pm_grant_id p \<and> g_status gr = IN_USE \<and> g_fence_token gr = pm_fence_token p \<and>
        g_workload_sha256 gr = pm_workload_sha256 p \<and> g_expires_at gr = pm_grant_expires_at p)"

lemma revalidate_binds:
  assumes "reachable s" and "revalidate_workload_dispatch_permit s a p t = Inr q"
  shows "permit_binds s p"
proof -
  from assms(2) obtain m where m: "start_intent_material s (pm_effect_id p) [IN_USE] = Inr m"
    and b: "pm_grant_id p = gc_grant_id (sm_command m)" "pm_fence_token p = gc_fence_token (sm_command m)"
      "pm_workload_sha256 p = gc_workload_sha256 (sm_command m)" "pm_grant_expires_at p = sm_expires_at m"
    by (auto simp: revalidate_workload_dispatch_permit_def result_simps check_simps Let_def)
  obtain rec c gr rq where f: "start_facts s rec c gr rq" "g_status gr \<in> set [IN_USE]" "m = material_of rec c gr rq"
    by (rule start_material_Inr [OF assms(1) m])
  with b revalidate_Inr(3,4) [OF assms(2)] show ?thesis
    by (auto simp: permit_binds_def start_facts_def)
qed

lemma minted_binds:
  assumes "reachable s" and "mint_workload_dispatch_permit s a effect_id obs n = Inr p"
  shows "permit_binds s p" and "permit_ok p" and "pm_effect_id p = effect_id" and "pm_issued_at p = obs"
    and "instant_of (pm_expires_at p) \<le> instant_of obs + seconds n"
proof -
  obtain rec c g rq where f: "start_facts s rec c g rq" "gc_command_id c = effect_id" "g_status g = IN_USE"
    "require_current_confirmed_authority s a = Inr ()"
    "p = permit_of s a (material_of rec c g rq) obs (min (instant_of (g_expires_at g)) (instant_of obs + seconds n))"
    "permit_ok p" "instant_of obs + seconds n \<le> max_instant" "instant_ok obs" "1 \<le> n"
    by (rule mint_Inr [OF assms])
  show "permit_ok p" "pm_effect_id p = effect_id" "pm_issued_at p = obs" using f by simp_all
  have b: "pm_grant_id p = gc_grant_id c" "pm_fence_token p = gc_fence_token c" "pm_workload_sha256 p = gc_workload_sha256 c"
    "pm_grant_expires_at p = g_expires_at g" by (simp_all add: f(5) permit_of_def Let_def)
  with f show "permit_binds s p"
    by (auto simp: permit_binds_def start_facts_def current_authority)
  let ?e = "min (instant_of (g_expires_at g)) (instant_of obs + seconds n)"
  have "seconds 86400 \<le> ?e" "?e \<le> max_instant"
    using instant_ok_bounds [OF start_facts_instants(2) [OF f(1)]] instant_ok_bounds [OF f(8)] f(7,9) by (auto simp: seconds_def)
  from instant_of_text [OF this] show "instant_of (pm_expires_at p) \<le> instant_of obs + seconds n" by (simp add: f(5))
qed

text \<open>What the gate loads from a journal.\<close>

lemma gate_loads:
  assumes "load_authority (journal_gate fa gp) (w, x) = (Inr (t, au), w1)"
    and "load_existing DEFAULT_RESOURCE_KERNEL (w_database w) (gp_scope gp) = Inr l"
  shows "w1 = (w, x)" and "t = ld_state l"
  using assms by (auto simp: load_authority_def andthen_def call_def give_def pure_result_Inr journal_load_def result_simps
      split: sum.splits)

text \<open>A world that the operations reached, with a journal in it, is one in which the gate works.\<close>

lemma reached_holds:
  assumes "(journal_step (file_anchor_store fa) scopes)\<^sup>*\<^sup>* empty_world w" and "inj_on scope_key scopes" and "scope \<in> scopes"
    and "load_existing DEFAULT_RESOURCE_KERNEL (w_database w) scope = Inr l"
  shows "journal_holds fa scope (w, x)"
proof -
  obtain hs ts sts where "stored (w_database w) scope hs ts sts"
    "\<forall>x. anchor_read fa (w_anchor w) scope = Inr x \<longrightarrow> anchored hs sts x"
    using loaded_keeps [OF assms] .
  then show ?thesis by (rule journal_holds_keeps(1))
qed

lemma loaded_holds:
  assumes "journal_holds fa scope (w, x)" and "load_existing DEFAULT_RESOURCE_KERNEL (w_database w) scope = Inr l"
  shows "journal_state scope (w, x) = ld_state l" and "reachable (ld_state l)"
  using assms journal_holds_reachable [OF assms(1)] by (simp_all add: journal_state_def)

lemma holds_loaded: "journal_holds fa scope wx \<Longrightarrow>
    \<exists>l. load_existing DEFAULT_RESOURCE_KERNEL (w_database (fst wx)) scope = Inr l \<and> ld_state l = journal_state scope wx"
  by (auto simp: journal_state_def elim: journal_holds_state)

lemma andthen_Inr: "andthen m f w = (Inr a, w') \<longleftrightarrow> (\<exists>b w1. m w = (Inr b, w1) \<and> f b w1 = (Inr a, w'))"
  by (auto simp: andthen_def split: prod.splits sum.splits)

lemma give_Inr: "give r w = (Inr a, w') \<longleftrightarrow> r = Inr a \<and> w' = w"
  by (auto simp: give_def)

lemma sealed_opens:
  assumes "seal_permit ha p = Inr a"
  shows "open_permit ha a = Inr p" and "ap_permit a = p"
  using assms by (auto simp: seal_permit_def pure_result_Inr mk_authenticated_permit_def open_permit_def ebind_eq_Inr raise_if_def)

lemma gate_load_pure: "load_authority (journal_gate fa gp) wx = (r, wx') \<Longrightarrow> wx' = wx"
  by (auto simp: load_authority_def andthen_def call_def give_def split: sum.splits)

section \<open>A sample gate\<close>

definition sample_effect :: "string \<Rightarrow> string \<Rightarrow> unit workload_effect" where
  "sample_effect adapter version = \<lparr>we_adapter = Some adapter, we_adapter_version = Some version,
     we_dispatch = (\<lambda>p u. (Inr NothingReturned, u)), we_lookup = (\<lambda>i u. (Inl ''TimeoutError'', u)),
     we_lookup_usage = (\<lambda>i u. (Inr NothingReturned, u))\<rparr>"

definition sample_parts :: "string \<Rightarrow> resource_estimate \<Rightarrow> unit gate_parts" where
  "sample_parts scope e = \<lparr>gp_scope = scope, gp_effect = sample_effect (e_adapter e) (e_adapter_version e),
     gp_settlement_effect = Some (sample_effect (e_adapter e) (e_adapter_version e)),
     gp_now_utc = (\<lambda>u. (Inr (sample_time 16), u)), gp_authenticator = \<lparr>ha_signing_key = replicate 32 1, ha_issuer = ''gate''\<rparr>,
     gp_permit_ttl_seconds = 2, gp_meanwhile = (\<lambda>_. [])\<rparr>"

lemma sample_parts_simps [simp]:
  "gp_scope (sample_parts scope e) = scope" "gp_effect (sample_parts scope e) = sample_effect (e_adapter e) (e_adapter_version e)"
  "gp_permit_ttl_seconds (sample_parts scope e) = 2" "gp_meanwhile (sample_parts scope e) u = []"
  "gp_now_utc (sample_parts scope e) u = (Inr (sample_time 16), u)"
  "ha_issuer (gp_authenticator (sample_parts scope e)) = ''gate''"
  by (simp_all add: sample_parts_def)

lemma sample_clock: "eg_now_utc (journal_gate fa (sample_parts scope e)) (w, u) = (Inr (sample_time 16), (w, u))"
  by (simp add: with_others_def)

lemma sample_identity:
  "estimate_ok e \<Longrightarrow> effect_identity (sample_effect (e_adapter e) (e_adapter_version e)) = Inr (e_adapter e, e_adapter_version e)"
  by (simp add: effect_identity_def effect_label_def sample_effect_def issuer_ok_identifier estimate_ok_def)

lemma seal_returns:
  assumes "issuer_ok (ha_issuer ha)"
  shows "\<exists>a. seal_permit ha p = Inr a"
proof -
  let ?a = "\<lparr>ap_permit = p, ap_issuer = ha_issuer ha, ap_authentication_sha256 = permit_tag ha p\<rparr>"
  note t = hmac_tag_shape [of "ha_signing_key ha" "permit_payload ha p", folded permit_tag_def]
  have "list_ex (\<lambda>c. c \<notin> set ''0123456789abcdef'') (permit_tag ha p) = False"
    using sha256_hex_chars unfolding permit_tag_def hmac_sha256_hex_def list_ex_iff list_all_iff by blast
  then have "post_init_authenticated_permit ?a = Inr ()"
    using assms t(1,2) unfolding post_init_authenticated_permit_def run_checks_Inr by simp
  then show ?thesis by (simp add: seal_permit_def mk_authenticated_permit_def pure_result_def)
qed

lemma preflight_of_start:
  assumes f: "start_facts s rec c g rq" and st: "g_status g = IN_USE" and t: "instant_ok obs"
    "instant_of (gc_observed_at c) \<le> instant_of obs" "instant_of obs < instant_of (g_expires_at g)"
  shows "validate_start_grant_preflight s c obs = Inr (e_adapter (rq_estimate rq), e_adapter_version (rq_estimate rq))"
proof -
  note i = start_facts_instants [OF f]
  have "find (\<lambda>r. cr_command_id r = gc_command_id c) (s_command_records s) = Some rec" "t_command (cr_transition rec) = StartGrant c"
    using f by (auto simp: start_facts_def is_start_of_def)
  moreover have "start_intent_material s (gc_command_id c) [IN_USE] = Inr (material_of rec c g rq)"
    using start_material_eq [OF f, of "[IN_USE]"] st by simp
  moreover have "require_observation_window (material_of rec c g rq) obs None = Inr ()"
    using observation_window [of "material_of rec c g rq" obs] i t by simp
  ultimately show ?thesis by (simp add: validate_start_grant_preflight_def material_of_def)
qed

text \<open>Preparing a start that is already on record.\<close>

lemma sample_prepared:
  obtains s rec g rq w w' a where "start_facts s rec sample_start g rq" "confirmed_world sample_anchor (p_scope s) s w"
    "confirmed_world sample_anchor (p_scope s) s w'" "permit_ok (ap_permit a)" "pm_issued_at (ap_permit a) = sample_time 16"
    "instant_of (sample_time 16) < instant_of (pm_expires_at (ap_permit a))"
    "effect_identity (sample_effect (e_adapter (rq_estimate rq)) (e_adapter_version (rq_estimate rq))) =
       Inr (pm_adapter (ap_permit a), pm_adapter_version (ap_permit a))"
    "prepare (journal_gate sample_anchor (sample_parts (p_scope s) (rq_estimate rq))) sample_start None (w, ()) = (Inr a, (w', ()))"
proof -
  obtain s rec g rq where s: "reachable s" "start_facts s rec sample_start g rq" "g_status g = IN_USE"
    "g = start_update sample_start (new_grant sample_request)"
    by (rule sample_started_facts)
  obtain hs ts and w :: "directory world" where "stored (w_database w) (p_scope s) hs ts (replicate (length hs) CONFIRMED)" "fst (last hs) = s"
    "anchor_read sample_anchor (w_anchor w) (p_scope s) = Inr (Some (snd (last hs)))"
    by (rule confirmed_journal_exists [OF s(1) sample_signs])
  then have w: "confirmed_world sample_anchor (p_scope s) s w" unfolding confirmed_world_def by blast
  let ?gp = "sample_parts (p_scope s) (rq_estimate rq)"
  have times: "instant_ok (sample_time 16)" "instant_of (gc_observed_at sample_start) \<le> instant_of (sample_time 16)"
    "instant_of (sample_time 16) < instant_of (g_expires_at g)" "instant_of (sample_time 16) + seconds 2 \<le> max_instant"
    by (simp_all add: s(4) start_update_def new_grant_def sample_start_def sample_request_def seconds_def max_instant_value)
  obtain au where au: "load_authority (journal_gate sample_anchor ?gp) (w, ()) = (Inr (s, au), (w, ()))"
    "require_current_confirmed_authority s au = Inr ()"
    by (rule confirmed_authority [of sample_anchor ?gp s w "()"]) (simp_all add: w)
  have est: "estimate_ok (rq_estimate rq)" using s(2) by (simp add: start_facts_def request_ok_def)
  note pre = preflight_of_start [OF s(2,3) times(1-3)] and id = sample_identity [OF est]
  have rec: "find (\<lambda>r. cr_command_id r = command_id (StartGrant sample_start)) (s_command_records s) = Some rec"
    "cr_command_sha256 rec = command_hash (StartGrant sample_start)" "r_outcome (cr_receipt rec) = ''in_use''"
    using s(2) by (auto simp: start_facts_def is_start_of_def record_ok_def)
  have rev: "0 \<le> p_revision s" using reachable_ok [OF s(1)] by (simp add: state_ok_def ledger_ok_def identity_ok_def)
  obtain d w' where ap: "journal_apply (gate_journal sample_anchor) (p_scope s) (StartGrant sample_start) (Some (p_revision s)) w = (Inr d, w')"
    "confirmed_world sample_anchor (p_scope s) s w'"
    "dd_decision d = \<lparr>d_transitions = [], d_replayed = True, d_replay_receipt = Some (cr_receipt rec)\<rparr>"
    by (rule replayed_apply [OF w sample_signs rec(1,2), of "Some (p_revision s)"]) (simp_all add: rev)
  obtain au' where au': "load_authority (journal_gate sample_anchor ?gp) (w', ()) = (Inr (s, au'), (w', ()))" "post_init_authority au' = Inr ()"
    "require_current_confirmed_authority s au' = Inr ()"
    by (rule confirmed_authority [of sample_anchor ?gp s w' "()"]) (simp_all add: ap(2))
  have ttl: "1 \<le> (2::int)" "2 \<le> MAX_PERMIT_TTL_SECONDS" by (simp_all add: MAX_PERMIT_TTL_SECONDS_def)
  note mint = mint_ok [OF reachable_ok [OF s(1)] s(2,3) au'(2,3) ttl times]
  let ?p = "permit_of s au' (material_of rec sample_start g rq) (sample_time 16)
     (min (instant_of (g_expires_at g)) (instant_of (sample_time 16) + seconds 2))"
  obtain a where a: "seal_permit (gp_authenticator ?gp) ?p = Inr a"
    using seal_returns [of "gp_authenticator ?gp" ?p] by (auto simp: issuer_ok_identifier text_ok)
  have "load_confirmed (journal_gate sample_anchor ?gp) (w, ()) = (Inr s, (w, ()))"
    using au by (simp add: load_confirmed_def andthen_def give_def pure_result_def)
  moreover have "call (eg_now_utc (journal_gate sample_anchor ?gp)) (w, ()) = (Inr (sample_time 16), (w, ()))"
    unfolding call_def sample_clock by simp
  moreover have "require_effect_identity (eg_effect (journal_gate sample_anchor ?gp))
      (e_adapter (rq_estimate rq), e_adapter_version (rq_estimate rq)) m = Inr ()" for m
    using id by (simp add: require_effect_identity_def effect_identity_def pure_result_def)
  moreover have "call (eg_apply (journal_gate sample_anchor ?gp) (p_scope s) (StartGrant sample_start) (Some (p_revision s))) (w, ()) =
      (Inr d, (w', ()))"
    using ap(1) by (simp add: call_def)
  moreover have "raise_for_rejection (dd_decision d) = Inr ()"
    using ap(3) rec(3) by (simp add: raise_for_rejection_Inr decision_accepted_def decision_receipt_def)
  ultimately have "prepare (journal_gate sample_anchor ?gp) sample_start None (w, ()) = (Inr a, (w', ()))"
    unfolding prepare_def andthen_def give_def using pre au'(1) mint(1) a by (simp add: pure_result_def)
  moreover have "instant_of (sample_time 16) < instant_of (pm_expires_at ?p)" unfolding mint(3) using times(3) by (simp add: seconds_def)
  moreover have "effect_identity (sample_effect (e_adapter (rq_estimate rq)) (e_adapter_version (rq_estimate rq))) =
      Inr (pm_adapter ?p, pm_adapter_version ?p)"
    using id by (simp add: permit_of_def material_of_def Let_def)
  ultimately show thesis
    by (intro that [OF s(2) w ap(2)]) (simp_all only: mint(2) sealed_opens(2) [OF a] permit_of_sel)
qed

text \<open>A grant that waits for reconciliation, and the lookup that fails on it.\<close>

definition sample_unknown :: grant_command where
  "sample_unknown = \<lparr>gc_command_id = ''c3'', gc_grant_id = ''g1'', gc_fence_token = 1,
     gc_workload_sha256 = sample_hash, gc_observed_at = sample_time 17\<rparr>"

lemma sample_quarantined:
  obtains s rec g rq where "reachable s" "start_facts s rec sample_start g rq" "g_status g = RECONCILIATION_REQUIRED"
proof -
  obtain s rec g rq where s: "reachable s" "start_facts s rec sample_start g rq" "g_status g = IN_USE"
    "g = start_update sample_start (new_grant sample_request)" "cr_command_id ` set (s_command_records s) = {''c1'', ''c2''}"
    by (rule sample_started_facts)
  let ?c = "UsageUnknown sample_unknown ''lost''" and ?a = "unknown_args sample_unknown ''lost'' g"
  have c: "command_ok ?c" by (simp add: sample_unknown_def grant_command_ok_def text_ok)
  have "find (\<lambda>x. g_grant_id x = ''g1'') (p_grants s) = Some g" "g_fence_token g = 1" "g_workload_sha256 g = sample_hash"
    using s(2) by (auto simp: start_facts_def find_grant_def sample_start_def split: option.splits)
  moreover have "instant_of (g_last_observed_at g) \<le> instant_of (sample_time 17)"
    by (simp add: s(4) start_update_def sample_start_def seconds_def)
  ultimately have acc: "accepts s ?c ?a"
    using s(3) by (intro accepts.usage_unknown) (simp_all add: binds_def observes_after_def sample_unknown_def)
  have new: "command_id ?c \<notin> cr_command_id ` set (s_command_records s)" unfolding s(5) by (simp add: sample_unknown_def)
  have l: "ledger_ok s" using reachable_ok [OF s(1)] by (simp add: state_ok_def)
  have ch: "chosen s ?c ?a" using acc accepts_complete [OF l c acc] by (simp add: chosen_def)
  obtain q where q: "steps_to s ?c ?a q" using accepts_steps [OF l c acc] ..
  let ?t = "extend_state s q (step_transition s ?c ?a q)"
  have sub: "submit s ?c = Inr ?t" by (rule submit_fresh [OF reachable_ok [OF s(1)] c new ch q])
  have t: "reachable ?t" by (rule reachable.submitted [OF s(1) c sub])
  obtain g' where f: "start_facts ?t rec sample_start g' rq" by (rule start_facts_later [OF s(1) later_submit [OF c sub] s(2)])
  let ?h = "release_update sample_unknown RECONCILIATION_REQUIRED g"
  have "?h \<in> set (p_grants ?t)"
  proof -
    obtain gs where "projected_grants s ?c (Some ?h) = Inr gs" "q = next_projection s ?a gs"
      using q by (auto simp: steps_to_def args_defs)
    from projected_grants_member [OF this(1)] this(2) show ?thesis by (simp add: extend_state_def next_projection_def)
  qed
  moreover have "g_grant_id ?h = g_grant_id g'" using f s(2) by (simp add: release_update_def start_facts_def)
  moreover have "distinct (map g_grant_id (p_grants ?t))" using reachable_ok [OF t] by (simp add: state_ok_def ledger_ok_def)
  ultimately have "g' = ?h" using f by (auto simp: start_facts_def distinct_map inj_on_def)
  with that [OF t f] show thesis by (simp add: release_update_def)
qed

lemma sample_reconciled:
  assumes f: "start_facts s rec sample_start g rq" and st: "g_status g = RECONCILIATION_REQUIRED"
    and w: "confirmed_world sample_anchor (p_scope s) s w"
  shows "\<exists>u. reconcile (journal_gate sample_anchor (sample_parts (p_scope s) (rq_estimate rq))) ''c2'' (w, ()) =
      (Inl (DispatchOutcomeUnknown u), (w, ())) \<and> du_usage_unknown_recorded u"
proof -
  let ?g = "journal_gate sample_anchor (sample_parts (p_scope s) (rq_estimate rq))" and ?r = "reference_of s (material_of rec sample_start g rq)"
  have s: "reachable s" by (rule confirmed_world_holds(3) [OF w])
  obtain au where au: "load_authority ?g (w, ()) = (Inr (s, au), (w, ()))" "require_current_confirmed_authority s au = Inr ()"
    by (rule confirmed_authority [of sample_anchor "sample_parts (p_scope s) (rq_estimate rq)" s w "()"]) (simp_all add: w)
  then have load: "load_confirmed ?g (w, ()) = (Inr s, (w, ()))"
    by (simp add: load_confirmed_def andthen_def give_def pure_result_def)
  have "derive_intent_reference s ''c2'' = Inr ?r"
    using derive_eq [OF reachable_ok [OF s] f] st by (simp add: sample_start_def RECOVERABLE_GRANT_STATUSES_def)
  moreover from this have "validate_intent_reference s ?r = Inr ?r"
    by (simp add: validate_intent_reference_def reference_of_def Let_def sample_start_def)
  moreover have "require_effect_identity (eg_effect ?g) (ir_adapter ?r, ir_adapter_version ?r) m = Inr ()" for m
    using sample_identity [of "rq_estimate rq"] f
    by (simp add: require_effect_identity_def effect_identity_def pure_result_def reference_of_def material_of_def Let_def
        start_facts_def request_ok_def)
  ultimately have d: "derive_reference ?g ''c2'' m (w, ()) = (Inr (s, ?r), (w, ()))" for m
    using load by (simp add: derive_reference_def andthen_def give_def pure_result_def)
  have h: "holds_for_reconciliation (IntentRef ?r) s"
    using f st by (auto simp: holds_for_reconciliation_def start_facts_def reference_of_def Let_def)
  have hold: "confirmed_reconciliation_hold ?g (IntentRef ?r) (w, ()) = (Inr True, (w, ()))"
    using load h by (simp add: confirmed_reconciliation_hold_def rescue_def give_def)
  have "we_lookup (eg_effect ?g) ?r (w, ()) = (Inl ''TimeoutError'', (w, ()))"
    by (simp add: with_others_def sample_effect_def)
  then show ?thesis
    using d hold
    by (simp add: reconcile_def andthen_def raise_unknown_def persist_usage_unknown_def give_def dispatch_outcome_unknown_def Let_def)
qed

section \<open>When an effect runs\<close>



section \<open>From a prepared permit to the effect\<close>

text \<open>The steps of a preparation that returned.\<close>

lemma prepare_steps:
  assumes holds: "journal_holds fa (gp_scope gp) (w, x)" and c: "post_init_command (StartGrant start) = Inr ()"
    and run: "prepare (journal_gate fa gp) start er (w, x) = (Inr a, (w', x'))"
  obtains t au obs p where "load_authority (journal_gate fa gp) (w', x') = (Inr (t, au), (w', x'))"
    "mint_workload_dispatch_permit t au (gc_command_id start) obs (gp_permit_ttl_seconds gp) = Inr p"
    "seal_permit (gp_authenticator gp) p = Inr a" "journal_holds fa (gp_scope gp) (w', x')" "journal_state (gp_scope gp) (w', x') = t"
    "\<exists>rec\<in>set (s_command_records t). cr_command_id rec = gc_command_id start \<and> cr_command_sha256 rec = command_hash (StartGrant start)"
proof -
  let ?g = "journal_gate fa gp" and ?S = "journal_state (gp_scope gp)"
  have ok: "command_ok (StartGrant start)" using c unfolding post_init_command_Inr .
  obtain before w1 obs w2 r d w3 t au w4 p where steps: "load_confirmed ?g (w, x) = (Inr before, w1)" "eg_now_utc ?g w1 = (Inr obs, w2)"
    "eg_apply ?g (eg_scope ?g) (StartGrant start) r w2 = (Inr d, w3)" "load_authority ?g w3 = (Inr (t, au), w4)"
    "mint_workload_dispatch_permit t au (gc_command_id start) obs (gp_permit_ttl_seconds gp) = Inr p"
    "seal_permit (gp_authenticator gp) p = Inr a" "w4 = (w', x')"
    using run by (auto simp: prepare_def andthen_Inr give_Inr call_Inr pure_result_Inr simp del: journal_gate_simps(3))
  have "file_gate.after fa gp (?S (w, x)) w1"
    by (rule conjunct1 [OF tripleD [OF file_gate.load_confirmed_triple file_gate.after_lawful [OF holds] steps(1)]])
  then have l2: "journal_holds fa (gp_scope gp) w2" using file_gate.clock_moves [OF _ steps(2)] by (auto simp: file_gate.after_def)
  note ap = file_gate.apply_law [OF l2 ok steps(3)]
  have l3: "journal_holds fa (gp_scope gp) w3" and sub: "submit (?S w2) (StartGrant start) = Inr (?S w3)"
    "decide (?S w2) (StartGrant start) = Inr (dd_decision d)" using ap by auto
  note rec = submitted_recorded [OF reachable_ok [OF journal_holds_reachable [OF l2]] ok sub(2,1)]
  have w: "w3 = (w', x')" using gate_load_pure [OF steps(4)] steps(7) by simp
  have t: "?S w3 = t"
    using tripleD [OF file_gate.load_authority_triple file_gate.after_lawful [OF l3] steps(4)] steps(7) w by simp
  show thesis
    by (rule that) (use steps l3 t rec w in auto)
qed



section \<open>What is on record\<close>





section \<open>What the tag of a permit commits to\<close>

lemma scalar_dict_inject:
  assumes "canonical (JObj xs) = canonical (JObj ys)" and "map fst xs = map fst ys" and "distinct (map fst xs)"
    and "\<forall>v\<in>snd ` (set xs \<union> set ys). canonical v = v"
  shows "xs = ys"
proof -
  have c: "map_option canonical (map_of zs k) = map_of zs k" if "\<forall>v\<in>snd ` set zs. canonical v = v" for zs k
    using that map_of_SomeD [of zs k] by (cases "map_of zs k") force+
  have "map_of xs k = map_of ys k" for k
    using canonical_members [OF assms(1), of k] assms(2,3,4) c [of xs k] c [of ys k] by simp
  then have "map_of (zip (map fst xs) (map snd xs)) = map_of (zip (map fst xs) (map snd ys))"
    by (simp add: zip_map_fst_snd fun_eq_iff) (simp add: assms(2) zip_map_fst_snd)
  moreover have "length xs = length ys" using assms(2) by (metis length_map)
  ultimately have "map snd xs = map snd ys" using assms(3) by (intro map_of_zip_inject [of _ "map fst xs"]) simp_all
  with assms(2) show ?thesis by (metis zip_map_fst_snd)
qed

lemma permit_bytes_inject:
  assumes "json_bytes (permit_to_dict p) = json_bytes (permit_to_dict q)"
  shows "p = q"
proof -
  let ?items = "\<lambda>p. reference_items (permit_reference p) @
     [(''authority_revision'', JInt (pm_authority_revision p)), (''authority_state_sha256'', JStr (pm_authority_state_sha256 p)),
      (''authority_checkpoint_sha256'', JStr (pm_authority_checkpoint_sha256 p)),
      (''authority_journal_head_sha256'', JStr (pm_authority_journal_head_sha256 p)),
      (''issued_at'', JStr (pm_issued_at p)), (''expires_at'', JStr (pm_expires_at p))]"
  have "?items p = ?items q"
    by (rule scalar_dict_inject)
      (use assms in \<open>simp_all add: json_bytes_inject permit_to_dict_def reference_items_def del: canonical.simps(6)\<close>)
  then show ?thesis by (cases p; cases q) (simp add: reference_items_def permit_reference_def)
qed

definition permit_texts :: "hmac_authenticator \<Rightarrow> dispatch_permit \<Rightarrow> byte list list" where
  "permit_texts ha p = json_bytes (permit_to_dict p) # hmac_texts (ha_signing_key ha) (permit_payload ha p)"

text \<open>The tag commits to the permit. What seal returns opens to the permit it sealed; and any envelope,
  whoever made it, that opens under the same authenticator with the same tag holds the same permit, or
  two different texts with the same SHA-256 are among those that were hashed for the two tags.\<close>

theorem permit_tag_commits:
  assumes "seal_permit ha p = Inr a" and "open_permit ha b = Inr q"
    and "ap_authentication_sha256 b = ap_authentication_sha256 a"
  shows "open_permit ha a = Inr p \<and> (q = p \<or> collision (permit_texts ha q) (permit_texts ha p))"
proof -
  have "hmac_sha256_hex (ha_signing_key ha) (permit_payload ha q) = hmac_sha256_hex (ha_signing_key ha) (permit_payload ha p)"
    using sealed_opens(1) [OF assms(1)] assms(2,3)
    by (auto simp: open_permit_def permit_tag_def result_simps check_simps)
  then consider "permit_payload ha q = permit_payload ha p"
    | "collision (hmac_texts (ha_signing_key ha) (permit_payload ha q)) (hmac_texts (ha_signing_key ha) (permit_payload ha p))"
    using same_tag by blast
  then have "q = p \<or> collision (permit_texts ha q) (permit_texts ha p)"
  proof cases
    case 1
    then have "permit_sha256 q = permit_sha256 p" by (simp add: permit_payload_def utf8_encode_inject)
    then have "sha256_hex (json_bytes (permit_to_dict q)) = sha256_hex (json_bytes (permit_to_dict p))"
      by (simp add: permit_sha256_def exec_canonical_sha_def)
    from same_digest [OF this, of "permit_texts ha q" "permit_texts ha p"] show ?thesis
      by (auto simp: permit_texts_def dest: permit_bytes_inject)
  next
    case 2
    then show ?thesis by (intro disjI2, elim collision_mono) (auto simp: permit_texts_def)
  qed
  with sealed_opens(1) [OF assms(1)] show ?thesis by blast
qed

theorem permit_tag_commits_witness:
  "\<exists>ha p a. seal_permit ha p = Inr a \<and> ap_issuer a = ''gate'' \<and> open_permit ha a = Inr p \<and>
     (p = p \<or> collision (permit_texts ha p) (permit_texts ha p))"
proof -
  let ?ha = "\<lparr>ha_signing_key = replicate 32 1, ha_issuer = ''gate''\<rparr>"
  obtain s p where "mint_workload_dispatch_permit s (sample_authority s) (gc_command_id sample_start) (sample_time 16) 2 = Inr p"
    by (rule sample_minted)
  obtain a where a: "seal_permit ?ha p = Inr a"
    using seal_returns [of ?ha p] by (auto simp: issuer_ok_identifier text_ok)
  have "ap_issuer a = ''gate''" using a by (auto simp: seal_permit_def pure_result_Inr mk_authenticated_permit_def result_simps)
  with a permit_tag_commits [OF a sealed_opens(1) [OF a] refl] show ?thesis by blast
qed

end
