(* ===== verification/Spec2Isabelle.thy ===== *)
theory Spec2Isabelle
  imports Journal_Properties Build_Properties Argue_Properties Verdict_Properties Ledger_Properties Stale_Properties
    Judgement_Properties Gate_Properties
begin

text \<open>
  A verification library for LakatoTree, whose core decides what a research programme may
  spend, run and claim. This library models the deterministic kernel of that core.

  \<^bold>\<open>The program.\<close> \<^verbatim>\<open>lakatos/resource_coordination.py\<close> is a pure, event-sourced
  coordinator of hard resource budgets. A \<^verbatim>\<open>ResourceState\<close> holds a budget's caps, what
  was spent, its grants and the retained journal of command records. \<^verbatim>\<open>decide\<close> turns a
  command into one content-addressed transition, or, for a command already in the journal,
  into the stored receipt; a refused command is a transition too. \<^verbatim>\<open>evolve\<close> applies a
  transition after rehashing it and deciding its command again; the constructor of the new
  state replays the whole journal from genesis. \<^verbatim>\<open>lakatos/resource_kernel.py\<close> packages
  the two functions as a port for the durable adapters. \<^verbatim>\<open>lakatos/resource_execution.py\<close>
  derives from the coordinator's state the authority to run a workload: an accepted StartGrant
  yields an intent reference, a confirmed authority and an observation yield a short-lived
  permit, which is revalidated against the current state at the moment of use.
  \<^verbatim>\<open>lakatos/io/resource_journal.py\<close> makes the coordinator durable: it keeps the journal in
  three SQLite tables, replays it through the kernel on every load, and publishes one checkpoint per
  revision to an external anchor, the signed file store of \<^verbatim>\<open>_resource_anchor.py\<close>, against
  which every later load is verified. \<^verbatim>\<open>lakatos/io/resource_execution.py\<close> is the gate between that journal
  and the effect of a workload: it records a start and seals a permit, revalidates the permit before the
  effect, records an unknown outcome when the effect fails, and settles the grant with measured usage.
  \<^verbatim>\<open>lakatos/build_execution.py\<close> holds the contracts of a local build: the identities a
  workload is admitted under, the policies that bound it, and the result whose measured time is
  the usage a grant is settled with.

  What a programme may claim is decided beside it. \<^verbatim>\<open>lakatos/verdicts.py\<close> owns the verdict
  vocabulary and the single predicate that tells a receipt from a self-report; a node's verdict is
  a cache of the head of its receipt chain. A receipt is named by the hash of what it seals, and
  \<^verbatim>\<open>contexts/tree/receipt_chain.py\<close> of the server checks the whole graph of receipts: identities,
  owners, hashes, and one chain per node. \<^verbatim>\<open>lakatos/stale_canonical.py\<close> plans the demotion of
  titles that were given under an engine rule no longer in force, and the server's sweep carries it out.
  \<^verbatim>\<open>lakatos/node_state.py\<close> derives the life-cycle
  state of a node from its row, \<^verbatim>\<open>lakatos/frontier_state.py\<close> reduces the events of an open
  question, and \<^verbatim>\<open>lakatos/verdict/argue.py\<close> decides by abstract argumentation whether a
  verdict stands against the doubts recorded against it.

  The verdict itself is the work of \<^verbatim>\<open>lakatos/verdict/judge.py\<close> (a measurement against a
  registered prediction and its novel target), \<^verbatim>\<open>verdict/pnr.py\<close> (how a counterexample was
  answered), the gates of \<^verbatim>\<open>lakatos/engine.py\<close> and \<^verbatim>\<open>verdict/spine.py\<close>, which puts
  them together by \<^verbatim>\<open>verdict/compose.py\<close>. The server's
  \<^verbatim>\<open>contexts/tree/judgement_service.py\<close> calls them in two places: the submission of a
  result, whose verdict may still be demoted (\<^verbatim>\<open>judgement_policy.py\<close>) by gates the tree's
  assurance tier arms (\<^verbatim>\<open>lakatos/assurance.py\<close>), and the promotion of a node to
  \<^verbatim>\<open>CANONICAL\<close>. \<^verbatim>\<open>verdict/certify.py\<close> and \<^verbatim>\<open>verdict/cert_gate.py\<close> certify
  claims and foundations, \<^verbatim>\<open>programme/agm.py\<close> revises the beliefs of a programme.

  \<^bold>\<open>The theories.\<close>
  \<^item> \<open>LT_Prelude\<close>: results of fallible code (\<open>Inl\<close> for a raised exception), sequencing, list facts.
  \<^item> \<open>Py_Text\<close>, \<open>Py_Sha256\<close>, \<open>Py_Json\<close>, \<open>Py_Datetime\<close>: what the code uses of Python's standard
    library: \<^verbatim>\<open>str\<close>, \<^verbatim>\<open>hashlib.sha256\<close>, \<^verbatim>\<open>json.dumps\<close> with sorted keys, RFC3339 instants
    as integer microseconds. All of it computes.
  \<^item> \<open>Resource_Checks\<close>, \<open>Resource_Vector\<close>, \<open>Resource_Model\<close>, \<open>Resource_Journal_Model\<close>: exceptions,
    validators and data types of the coordinator with their constructors' checks
    (\<open>post_init_\<dots>\<close> is \<^verbatim>\<open>__post_init__\<close>) and serialisations (\<open>\<dots>_to_dict\<close>).
  \<^item> \<open>Resource_Decide\<close>, \<open>Resource_Evolve\<close>: \<^verbatim>\<open>_decide_fresh\<close> and everything below it, transition
    validation, journal replay, the state constructor, \<open>decide\<close>, \<open>evolve\<close>.
  \<^item> \<open>Resource_Fresh\<close>, \<open>Resource_Outcome\<close>, \<open>Resource_Step\<close>: what a decision is:
    the accepting branches as the relation \<open>accepts\<close>, shown sound and complete for the code, and
    the ledger invariant \<open>ledger_ok\<close> kept by every branch and every refusal.
  \<^item> \<open>Resource_Invariant\<close>: the state invariant \<open>state_ok\<close>, submission is total, reachable states.
  \<^item> \<open>Resource_Lifecycle\<close>, \<open>Resource_Escrow\<close>: grant life cycle; refinement of the abstract escrow.
  \<^item> \<open>Resource_Kernel\<close>: the port as the locale \<open>resource_kernel\<close>, interpreted on \<open>decide\<close> and \<open>evolve\<close>;
    the samples of the witnesses.
  \<^item> \<open>Resource_Journal\<close>: hash chain, exact acceptance, grants and budgets over time.
  \<^item> \<open>Resource_Properties\<close>: the properties with their witnesses.
  \<^item> \<open>Exec_Model\<close>, \<open>Exec_Dispatch\<close>: the data types of the dispatch layer and its operations.
  \<^item> \<open>Exec_Invariant\<close>, \<open>Exec_Derive\<close>, \<open>Exec_Properties\<close>: every grant of a reachable state is backed
    by its request and, once started, by its start in the journal; what follows for intents and
    permits; the properties with their witnesses.
  \<^item> \<open>Json_Read\<close>: \<^verbatim>\<open>json.loads\<close> with duplicate keys refused, a recursive descent over fuel;
    every canonical print of a value is read back as that value.
  \<^item> \<open>Journal_Contracts\<close>, \<open>Journal_Codec\<close>, \<open>Journal_Codec_Facts\<close>: errors, checkpoints and their
    heads (\<^verbatim>\<open>_resource_journal_contracts.py\<close>); the canonical blobs
    (\<^verbatim>\<open>_resource_journal_codec.py\<close>) and their round trips.
  \<^item> \<open>Journal_Store\<close>: \<^verbatim>\<open>resource_journal.py\<close>. A database is its three tables, a transaction a
    function of it; an operation maps a world (database and anchor) to what it returns or raises and the
    world it leaves.
  \<^item> \<open>Journal_History\<close>, \<open>Journal_Steps\<close>: what a load accepts is exactly a stored history of kernel
    submissions; what each operation does to the tables.
  \<^item> \<open>Journal_Anchor\<close>: the contract of an external anchor as the locale \<open>trusted_anchor\<close>; operations, with
    any callback raising, as the step relation \<open>journal_step\<close>; the invariant \<open>consistent\<close> of its
    reachable worlds.
  \<^item> \<open>File_Anchor\<close>: \<^verbatim>\<open>_resource_anchor.py\<close> over a directory of signed envelopes, on which the
    locale is interpreted. The signature scheme is a record of functions on which nothing is assumed;
    progress alone needs that the signing key's signatures verify.
  \<^item> \<open>Journal_Live\<close>, \<open>Journal_Tamper\<close>, \<open>Journal_Properties\<close>: when operations get through; a head
    determines its history up to a collision; the properties with their witnesses.
  \<^item> \<open>Exec_Gate\<close>: the gate of \<^verbatim>\<open>lakatos/io/resource_execution.py\<close>, method by method, over a record of
    ports; a method maps the surroundings to what it returns or raises and the surroundings it leaves.
  \<^item> \<open>Gate_Facts\<close>: triples of methods; what the gate relies on as the locale \<open>gate_port\<close> (the journal
    serves one history and submits commands to the kernel; clock and effects may take as long as they
    want while other processes move the history on) and what its methods then guarantee.
  \<^item> \<open>Gate_Journal\<close>, \<open>Gate_Properties\<close>: the gate on the SQLite journal and the file anchor, on which the
    locale is interpreted, with the commands of other processes applied during every port call; every
    reachable state has a journal; the properties with their witnesses.
  \<^item> \<open>Json_Inject\<close>: canonical JSON is unambiguous, so every content hash of the sources is taken of
    bytes that determine the content.
  \<^item> \<open>Build_Model\<close>, \<open>Build_Result\<close>, \<open>Build_Facts\<close>, \<open>Build_Properties\<close>: the build contracts; what an
    accepted result and a specification are determined by; the properties, the last of which
    settles a build on the resource kernel.
  \<^item> \<open>Verdict_Registry\<close>, \<open>Verdict_Force\<close>, \<open>Verdict_Facts\<close>, \<open>Verdict_Chain\<close>: vocabularies; force, neutralisation and assurance of a node row; when a row counts;
    the folding of a receipt chain and the chain as a relation.
  \<^item> \<open>Node_State\<close>, \<open>Frontier_State\<close>: the two state machines. \<open>fsm_rows\<close> is the machine published in
    \<^verbatim>\<open>docs/data/frontier_question_fsm.v1.json\<close>, which the reducer refines.
  \<^item> \<open>Verdict_Properties\<close>: the properties of the four theories above, some across them.
  \<^item> \<open>Py_Digest\<close>, \<open>Py_Repr\<close>, \<open>Py_Repr_Facts\<close>: collisions as conclusions, HMAC; the text of a float, the
    shortest decimal that reads back to it, and its round trip.
  \<^item> \<open>Receipt_Blob\<close>, \<open>Receipt_Facts\<close>: the canonical bytes of verdict and prediction receipts in all
    their generations; the bytes determine what is sealed.
  \<^item> \<open>Receipt_Graph\<close>, \<open>Receipt_Graph_Facts\<close>, \<open>Ledger_Properties\<close>: the validator of the receipt
    graph; what an accepted graph is; the properties of receipts and graphs.
  \<^item> \<open>Stale_Canonical\<close>, \<open>Stale_Properties\<close>: the stages of a sweep (decision, drafts, plans) with the
    validators between them, the service operation over a store that is a parameter, and its properties.
  \<^item> \<open>Argue\<close>, \<open>Argue_Facts\<close>, \<open>Argue_Properties\<close>: argumentation frameworks; the loop computes the
    least fixed point of Dung's characteristic function.

  \<^item> \<open>Py_Float\<close>: Python's \<^verbatim>\<open>float\<close>, the finite values as rationals with infinities and a NaN;
    every operation is the exact one rounded to nearest even, so a comparison of results is a
    statement on what the code computes, not on the reals.
  \<^item> \<open>Judge\<close>, \<open>Pnr\<close>, \<open>Engine_Foundation\<close>, \<open>Engine_Gates\<close>, \<open>Promotion\<close>, \<open>Certify\<close>: the modules
    of the verdict layer, one theory each; \<open>Engine_Foundation\<close> also holds
    \<^verbatim>\<open>cert_gate.py\<close>, which works on its requirements.
  \<^item> \<open>Assurance_Gates\<close>, \<open>Judgement_Policy\<close>, \<open>Judgement_Flow\<close>: tiers and their gates, the chain of
    demotions, and the two decisions of the service, \<open>decide_submission\<close> and \<open>decide_canonical\<close>,
    with what the handlers read from the store, the file system or a replay as arguments.
  \<^item> \<open>Agm\<close>: belief revision; the closure loop computes the dependents of a belief, and
    a revision is a function of the set of contradicted beliefs.
  \<^item> \<open>Judgement_Facts\<close>, \<open>Judgement_Properties\<close>: inversion of the two decisions; the properties of the
    verdict layer.

  \<^bold>\<open>Modelling choices.\<close> A Python \<^verbatim>\<open>str\<close> is a HOL \<open>string\<close>, so characters are the code points
  below 256; Python's integers are \<open>int\<close>, quantities checked non-negative are \<open>nat\<close>. The types
  discharge \<^verbatim>\<open>isinstance\<close> checks. An exception is a value: \<open>Rejection\<close> for the subclasses of
  \<^verbatim>\<open>ResourceRejection\<close>, other constructors of \<open>lk_error\<close> for the rest. SHA-256 is computed, and no
  lemma assumes that it is free of collisions. \<^verbatim>\<open>datetime.fromisoformat\<close> is that of Python 3.11
  and later, which reads any fraction of one to six digits. Every function is total, by
  structural recursion or a measure, except the fixed-point loops of the argumentation layer and of
  belief revision, optional results that are proved to be always there, and the JSON parser, whose fuel
  is twice the length of its input and two more, enough for every canonical text (lemma
  \<open>json_loads_dumps\<close>). Floats of the
  verdict layer (\<open>Py_Float\<close>) carry no sign of zero, which no operation on them observes; a receipt prints
  one, so those of \<open>Py_Repr\<close> do.

  \<^bold>\<open>Not modelled.\<close> The adapters under \<^verbatim>\<open>lakatos/io\<close> other than the journal and the
  gate; of the
  journal, the schema bootstrap, connection settings, failures of single file operations and
  temporary files (a transaction and a publication are atomic, locks make them so in the code); the server apart from
  the two decisions, the receipt graph and the stale sweep, that is its signatures, graph queries and
  writes with their compare-and-set; the statistics of \<^verbatim>\<open>lakatos/quant\<close>, which call logarithms and
  exponentials; the planning and record keeping of \<^verbatim>\<open>lakatos/programme\<close>.
\<close>

end
